(* ===== verification/Prelude.thy ===== *)
theory Prelude
  imports Main "HOL-Library.List_Lexorder" "HOL-Library.Char_ord"
begin

text \<open>
  Shared vocabulary of the development: machine integers, the standard-library operations on
  slices and strings that the components use, and the ordered map that stands for
  \<open>BTreeMap\<close>.  A Rust \<open>String\<close>, \<open>&str\<close> or \<open>Vec<u8>\<close> is a list of \<open>char\<close>, one per byte of its
  UTF-8 encoding, so \<open>length\<close> is Rust's \<open>len\<close> and the order on strings is Rust's bytewise one.
\<close>

section \<open>Types and fact collections\<close>

type_synonym bytes = string
type_synonym u64 = nat
type_synonym usize = nat
type_synonym i64 = int
type_synonym ('k, 'v) btree = "('k \<times> 'v) list"

named_theorems bt_simps \<open>lookup and key facts of ordered maps\<close>
named_theorems list_facts \<open>facts about positions and fragments of lists\<close>

section \<open>Machine integers\<close>

text \<open>
  Unsigned 64-bit values are naturals, signed ones integers; where the code's arithmetic can leave
  the range, the wrap-around (release profile) or the saturation is written out.
\<close>

definition u64_max :: nat where
  "u64_max = 2 ^ 64 - 1"

definition i64_max :: int where
  "i64_max = 2 ^ 63 - 1"

definition wrap_i64 :: "int \<Rightarrow> i64" where
  "wrap_i64 x = (x + 2 ^ 63) mod 2 ^ 64 - 2 ^ 63"

definition in_i64 :: "int \<Rightarrow> bool" where
  "in_i64 x \<longleftrightarrow> - (2 ^ 63) \<le> x \<and> x < 2 ^ 63"

definition saturating_add :: "nat \<Rightarrow> nat \<Rightarrow> nat" where
  "saturating_add a b = min (a + b) u64_max"

lemma wrap_i64_range: "in_i64 (wrap_i64 x)"
  by (simp add: in_i64_def wrap_i64_def)

lemma wrap_i64_id: "in_i64 x \<Longrightarrow> wrap_i64 x = x"
  by (simp add: in_i64_def wrap_i64_def)

lemma saturating_add_exact: "a + b \<le> u64_max \<Longrightarrow> saturating_add a b = a + b"
  by (simp add: saturating_add_def)

lemma saturating_add_le: "saturating_add a b \<le> u64_max"
  by (simp add: saturating_add_def)

lemma saturating_add_mono: "a \<le> u64_max \<Longrightarrow> a \<le> saturating_add a b"
  by (simp add: saturating_add_def)

lemma saturating_add_assoc:
  "saturating_add (saturating_add a b) c = saturating_add a (saturating_add b c)"
  by (simp add: saturating_add_def min_def)

lemma saturating_add_commute: "saturating_add a b = saturating_add b a"
  by (simp add: saturating_add_def add.commute)

lemma saturating_add_0 [simp]: "a \<le> u64_max \<Longrightarrow> saturating_add 0 a = a"
  by (simp add: saturating_add_def)

section \<open>Slices\<close>

text \<open>\<open>Iterator::position\<close>: the index of the first element that satisfies the predicate.\<close>

fun position :: "('a \<Rightarrow> bool) \<Rightarrow> 'a list \<Rightarrow> nat option" where
  "position p [] = None"
| "position p (x # xs) = (if p x then Some 0 else map_option Suc (position p xs))"

lemma position_None [list_facts]: "position p xs = None \<longleftrightarrow> (\<forall>x \<in> set xs. \<not> p x)"
  by (induction xs) auto

lemma position_Some:
  "position p xs = Some i \<Longrightarrow> i < length xs \<and> p (xs ! i) \<and> (\<forall>j < i. \<not> p (xs ! j))"
proof (induction xs arbitrary: i)
  case (Cons x xs)
  show ?case
  proof (cases "p x")
    case False
    with Cons.prems obtain k where k: "position p xs = Some k" "i = Suc k" by auto
    with Cons.IH[OF k(1)] False show ?thesis
      by (auto simp: less_Suc_eq_0_disj)
  qed (use Cons.prems in auto)
qed simp

lemma position_SomeI:
  "i < length xs \<Longrightarrow> p (xs ! i) \<Longrightarrow> (\<And>j. j < i \<Longrightarrow> \<not> p (xs ! j)) \<Longrightarrow> position p xs = Some i"
proof (induction xs arbitrary: i)
  case (Cons x xs)
  show ?case
  proof (cases i)
    case (Suc k)
    have "position p xs = Some k"
      using Cons.prems Suc by (intro Cons.IH) force+
    moreover have "\<not> p x" using Cons.prems(3)[of 0] Suc by simp
    ultimately show ?thesis using Suc by simp
  qed (use Cons.prems in auto)
qed simp

text \<open>\<open>split_inclusive\<close>: pieces that each end with the separator, but for the last one.\<close>

fun split_inclusive :: "('a \<Rightarrow> bool) \<Rightarrow> 'a list \<Rightarrow> 'a list list" where
  "split_inclusive p [] = []"
| "split_inclusive p (x # xs) =
     (if p x then [x] # split_inclusive p xs
      else case split_inclusive p xs of [] \<Rightarrow> [[x]] | f # fs \<Rightarrow> (x # f) # fs)"

lemma concat_split_inclusive [list_facts]: "concat (split_inclusive p xs) = xs"
  by (induction xs) (auto split: list.splits)

section \<open>Strings\<close>

fun digit_char :: "nat \<Rightarrow> char" where
  "digit_char n = char_of (48 + n)"

fun nat_dec :: "nat \<Rightarrow> string" where
  "nat_dec n = (if n < 10 then [digit_char n] else nat_dec (n div 10) @ [digit_char (n mod 10)])"

declare nat_dec.simps [simp del]

definition int_dec :: "int \<Rightarrow> string" where
  "int_dec i = (if i < 0 then ''-'' @ nat_dec (nat (- i)) else nat_dec (nat i))"

text \<open>\<open>str::replace\<close> of a one-byte pattern, and \<open>join\<close>.\<close>

definition replace_char :: "char \<Rightarrow> string \<Rightarrow> string \<Rightarrow> string" where
  "replace_char c r s = concat (map (\<lambda>x. if x = c then r else [x]) s)"

fun join :: "string \<Rightarrow> string list \<Rightarrow> string" where
  "join sep [] = []"
| "join sep [x] = x"
| "join sep (x # y # ys) = x @ sep @ join sep (y # ys)"

fun strip_prefix :: "'a list \<Rightarrow> 'a list \<Rightarrow> 'a list option" where
  "strip_prefix [] s = Some s"
| "strip_prefix (p # ps) [] = None"
| "strip_prefix (p # ps) (x # xs) = (if p = x then strip_prefix ps xs else None)"

lemma strip_prefix_Some [list_facts]: "strip_prefix p s = Some r \<longleftrightarrow> s = p @ r"
  by (induction p s rule: strip_prefix.induct) auto

text \<open>\<open>str::contains\<close>.\<close>

fun str_contains :: "string \<Rightarrow> string \<Rightarrow> bool" where
  "str_contains [] needle \<longleftrightarrow> needle = []"
| "str_contains (c # s) needle \<longleftrightarrow> strip_prefix needle (c # s) \<noteq> None \<or> str_contains s needle"

definition is_ascii_digit :: "char \<Rightarrow> bool" where
  "is_ascii_digit c \<longleftrightarrow> (48::nat) \<le> of_char c \<and> of_char c \<le> (57::nat)"

definition is_ascii_upper :: "char \<Rightarrow> bool" where
  "is_ascii_upper c \<longleftrightarrow> (65::nat) \<le> of_char c \<and> of_char c \<le> (90::nat)"

definition is_ascii_lower :: "char \<Rightarrow> bool" where
  "is_ascii_lower c \<longleftrightarrow> (97::nat) \<le> of_char c \<and> of_char c \<le> (122::nat)"

definition is_ascii_alphanumeric :: "char \<Rightarrow> bool" where
  "is_ascii_alphanumeric c \<longleftrightarrow> is_ascii_digit c \<or> is_ascii_upper c \<or> is_ascii_lower c"

definition to_ascii_lowercase :: "char \<Rightarrow> char" where
  "to_ascii_lowercase c = (if is_ascii_upper c then char_of (of_char c + (32::nat)) else c)"

subsection \<open>Decimal numerals are injective and hold only digits\<close>

lemma digit_char_digit: "n < 10 \<Longrightarrow> is_ascii_digit (digit_char n)"
  by (simp add: is_ascii_digit_def)

lemma digit_char_inj:
  assumes "m < 10" "n < 10" "digit_char m = digit_char n"
  shows "m = n"
proof -
  have "(of_char (digit_char m) :: nat) = of_char (digit_char n)" using assms(3) by (rule arg_cong)
  then show ?thesis using assms(1,2) by simp
qed

lemma nat_dec_nonempty [simp]: "nat_dec n \<noteq> []" "[] \<noteq> nat_dec n"
  by (subst nat_dec.simps, simp)+

lemma nat_dec_digits: "\<forall>c \<in> set (nat_dec n). is_ascii_digit c"
proof (induction n rule: nat_dec.induct)
  case (1 n)
  show ?case
    by (subst nat_dec.simps) (use 1 in \<open>auto simp del: digit_char.simps intro: digit_char_digit\<close>)
qed

lemma nat_dec_small: "n < 10 \<Longrightarrow> nat_dec n = [digit_char n]"
  by (subst nat_dec.simps) simp

lemma nat_dec_big: "\<not> n < 10 \<Longrightarrow> nat_dec n = nat_dec (n div 10) @ [digit_char (n mod 10)]"
  by (subst nat_dec.simps) simp

lemma nat_dec_0: "nat_dec 0 = ''0''"
  by code_simp

lemma nat_dec_inj_imp: "nat_dec m = nat_dec n \<Longrightarrow> m = n"
proof (induction m arbitrary: n rule: nat_dec.induct)
  case (1 m)
  have parts: "m < 10 \<longleftrightarrow> n < 10"
    using "1.prems" nat_dec_small[of m] nat_dec_small[of n] nat_dec_big[of m] nat_dec_big[of n]
    by (metis append_self_conv2 butlast.simps(2) butlast_snoc nat_dec_nonempty(1))
  show ?case
  proof (cases "m < 10")
    case True
    with parts "1.prems" show ?thesis
      by (simp add: nat_dec_small digit_char_inj del: digit_char.simps)
  next
    case False
    with parts have big: "\<not> n < 10" by simp
    from "1.prems" have "nat_dec (m div 10) = nat_dec (n div 10)"
      and d: "digit_char (m mod 10) = digit_char (n mod 10)"
      unfolding nat_dec_big[OF False] nat_dec_big[OF big] by (simp_all only: append1_eq_conv)
    then have "m div 10 = n div 10" by (intro "1.IH"[OF False])
    moreover have "m mod 10 = n mod 10" using d by (rule digit_char_inj[rotated 2]) simp_all
    ultimately show ?thesis
      using div_mult_mod_eq[of m 10] div_mult_mod_eq[of n 10] by linarith
  qed
qed

lemma nat_dec_inj: "nat_dec m = nat_dec n \<longleftrightarrow> m = n"
  using nat_dec_inj_imp by blast

text \<open>A name followed by \<open>#\<close> and an ordinal determines both: the digits hold no \<open>#\<close>.\<close>

lemma hash_not_digit: "\<not> is_ascii_digit (CHR ''#'')"
  by (simp add: is_ascii_digit_def)

lemma ordinal_key_inj:
  assumes "a @ ''#'' @ nat_dec i = b @ ''#'' @ nat_dec j"
  shows "a = b \<and> i = j"
proof -
  have nd: "CHR ''#'' \<notin> set (nat_dec k)" for k
    using nat_dec_digits[of k] hash_not_digit by auto
  have tw: "takeWhile (\<lambda>c. c \<noteq> CHR ''#'') (rev (x @ ''#'' @ nat_dec k)) = rev (nat_dec k)" for x k
  proof -
    have "\<And>c. c \<in> set (rev (nat_dec k)) \<Longrightarrow> c \<noteq> CHR ''#''" using nd by auto
    then have "takeWhile (\<lambda>c. c \<noteq> CHR ''#'') (rev (nat_dec k) @ CHR ''#'' # rev x)
        = rev (nat_dec k) @ takeWhile (\<lambda>c. c \<noteq> CHR ''#'') (CHR ''#'' # rev x)"
      by (rule takeWhile_append2)
    then show ?thesis by simp
  qed
  from arg_cong[OF assms, of rev] have
    "takeWhile (\<lambda>c. c \<noteq> CHR ''#'') (rev (a @ ''#'' @ nat_dec i))
      = takeWhile (\<lambda>c. c \<noteq> CHR ''#'') (rev (b @ ''#'' @ nat_dec j))" by simp
  then have "nat_dec i = nat_dec j" by (simp only: tw rev_is_rev_conv)
  with assms show ?thesis by (simp add: nat_dec_inj)
qed

subsection \<open>Formatting\<close>

text \<open>
  \<open>{:?}\<close> of a string: quoted, with the escapes of \<open>str::escape_debug\<close> for ASCII.  Bytes of
  multi-byte characters are copied, as they are for printable characters.
\<close>

definition hex_lower :: "nat \<Rightarrow> char" where
  "hex_lower n = (if n < 10 then char_of (48 + n) else char_of (87 + n))"

definition debug_char :: "char \<Rightarrow> string" where
  "debug_char c =
     (if c = CHR 0x5C then [CHR 0x5C, CHR 0x5C]
      else if c = CHR 0x22 then [CHR 0x5C, CHR 0x22]
      else if c = CHR 0x0A then [CHR 0x5C, CHR ''n'']
      else if c = CHR 0x0D then [CHR 0x5C, CHR ''r'']
      else if c = CHR 0x09 then [CHR 0x5C, CHR ''t'']
      else if c = CHR 0x00 then [CHR 0x5C, CHR ''0'']
      else let n = (of_char c :: nat)
           in if n < 32 \<or> n = 127
              then [CHR 0x5C] @ ''u{'' @ (if n < 16 then [] else [hex_lower (n div 16)])
                     @ [hex_lower (n mod 16)] @ ''}''
              else [c])"

definition debug_str :: "string \<Rightarrow> string" where
  "debug_str s = [CHR 0x22] @ concat (map debug_char s) @ [CHR 0x22]"

text \<open>The first \<open>n\<close> characters of UTF-8 text: a byte outside \<open>80..BF\<close> starts a character.\<close>

definition utf8_start :: "char \<Rightarrow> bool" where
  "utf8_start c \<longleftrightarrow> \<not> (128 \<le> (of_char c :: nat) \<and> (of_char c :: nat) < 192)"

fun utf8_take :: "nat \<Rightarrow> string \<Rightarrow> string" where
  "utf8_take n [] = []"
| "utf8_take n (c # s) =
     (if utf8_start c then (case n of 0 \<Rightarrow> [] | Suc k \<Rightarrow> c # utf8_take k s)
      else c # utf8_take n s)"

lemma utf8_take_prefix: "\<exists>r. s = utf8_take n s @ r"
  by (induction n s rule: utf8_take.induct) (auto split: nat.splits)

end
