(* ===== verification/OrdMap.thy ===== *)
theory OrdMap
  imports Prelude
begin

text \<open>
  \<open>BTreeMap\<close> and \<open>serde_json::Map\<close> (which is a \<open>BTreeMap\<close> without the
  \<open>preserve_order\<close> feature) as association lists with strictly increasing keys: iteration is the
  list itself.  The interface \<open>ordered_map\<close> states what the components rely on, its client lemmas
  describe \<open>collect()\<close> (later entries win), and the interpretation discharges it for the lists.
\<close>

section \<open>The interface\<close>

locale ordered_map =
  fixes empty :: 'm
    and get :: "'m \<Rightarrow> 'k::linorder \<Rightarrow> 'v option"
    and insert :: "'k \<Rightarrow> 'v \<Rightarrow> 'm \<Rightarrow> 'm"
    and remove :: "'k \<Rightarrow> 'm \<Rightarrow> 'm"
    and keys :: "'m \<Rightarrow> 'k list"
    and wf :: "'m \<Rightarrow> bool"
  assumes get_empty: "get empty k = None"
    and get_insert: "wf m \<Longrightarrow> get (insert k v m) k' = (if k' = k then Some v else get m k')"
    and get_remove: "wf m \<Longrightarrow> get (remove k m) k' = (if k' = k then None else get m k')"
    and in_keys: "wf m \<Longrightarrow> k \<in> set (keys m) \<longleftrightarrow> get m k \<noteq> None"
    and keys_increasing: "wf m \<Longrightarrow> sorted_wrt (<) (keys m)"
    and wf_empty: "wf empty"
    and wf_insert: "wf m \<Longrightarrow> wf (insert k v m)"
    and wf_remove: "wf m \<Longrightarrow> wf (remove k m)"
begin

lemma wf_collect: "wf m \<Longrightarrow> wf (foldl (\<lambda>m (k, v). insert k v m) m kvs)"
  by (induction kvs arbitrary: m) (auto intro: wf_insert)

lemma get_collect:
  "wf m \<Longrightarrow> get (foldl (\<lambda>m (k, v). insert k v m) m kvs) k
     = (case map_of (rev kvs) k of None \<Rightarrow> get m k | Some v \<Rightarrow> Some v)"
proof (induction kvs arbitrary: m)
  case (Cons kv kvs)
  obtain a b where kv: "kv = (a, b)" by (cases kv)
  show ?case
    using Cons.IH[OF wf_insert[OF Cons.prems, of a b]] Cons.prems
    by (simp add: kv get_insert map_add_def split: option.splits)
qed simp

lemma keys_collect:
  assumes "wf m"
  shows "set (keys (foldl (\<lambda>m (k, v). insert k v m) m kvs)) = set (keys m) \<union> fst ` set kvs"
proof -
  have "k \<in> set (keys (foldl (\<lambda>m (k, v). insert k v m) m kvs))
      \<longleftrightarrow> k \<in> set (keys m) \<union> fst ` set kvs" for k
  proof -
    have "map_of (rev kvs) k \<noteq> None \<longleftrightarrow> k \<in> fst ` set kvs"
      by (metis map_of_eq_None_iff set_rev image_set list.set_map)
    then show ?thesis
      using assms wf_collect[OF assms, of kvs]
      by (auto simp: in_keys get_collect split: option.splits)
  qed
  then show ?thesis by blast
qed

lemma keys_distinct: "wf m \<Longrightarrow> distinct (keys m)"
  using keys_increasing strict_sorted_iff by blast

lemma insert_other: "wf m \<Longrightarrow> k' \<noteq> k \<Longrightarrow> get (insert k v m) k' = get m k'"
  by (simp add: get_insert)

end

section \<open>Sorted association lists\<close>

definition bt_get :: "('k, 'v) btree \<Rightarrow> 'k \<Rightarrow> 'v option" where
  "bt_get m k = map_of m k"

fun bt_insert :: "'k::linorder \<Rightarrow> 'v \<Rightarrow> ('k, 'v) btree \<Rightarrow> ('k, 'v) btree" where
  "bt_insert k v [] = [(k, v)]"
| "bt_insert k v (e # m) =
     (if fst e < k then e # bt_insert k v m
      else if fst e = k then (k, v) # m
      else (k, v) # e # m)"

definition bt_remove :: "'k \<Rightarrow> ('k, 'v) btree \<Rightarrow> ('k, 'v) btree" where
  "bt_remove k m = filter (\<lambda>e. fst e \<noteq> k) m"

definition bt_keys :: "('k, 'v) btree \<Rightarrow> 'k list" where
  "bt_keys m = map fst m"

definition bt_wf :: "('k::linorder, 'v) btree \<Rightarrow> bool" where
  "bt_wf m \<longleftrightarrow> sorted_wrt (<) (map fst m)"

definition bt_collect :: "('k::linorder \<times> 'v) list \<Rightarrow> ('k, 'v) btree" where
  "bt_collect kvs = foldl (\<lambda>m (k, v). bt_insert k v m) [] kvs"

lemma fst_bt_insert: "fst ` set (bt_insert k v m) = Set.insert k (fst ` set m)"
  by (induction m) (auto split: if_splits)

lemma bt_wf_Nil [simp]: "bt_wf []"
  by (simp add: bt_wf_def)

lemma bt_wf_Cons: "bt_wf (e # m) \<longleftrightarrow> (\<forall>k \<in> fst ` set m. fst e < k) \<and> bt_wf m"
  by (auto simp: bt_wf_def)

lemma bt_wf_insert: "bt_wf m \<Longrightarrow> bt_wf (bt_insert k v m)"
proof (induction m)
  case (Cons e m)
  from Cons.prems have e: "\<forall>k \<in> fst ` set m. fst e < k" and m: "bt_wf m"
    by (simp_all add: bt_wf_Cons)
  consider "fst e < k" | "fst e = k" | "k < fst e" by fastforce
  then show ?case
  proof cases
    case 1
    then show ?thesis using e Cons.IH[OF m] by (simp add: bt_wf_Cons fst_bt_insert)
  next
    case 2
    then show ?thesis using e m by (simp add: bt_wf_Cons)
  next
    case 3
    then show ?thesis using e m by (auto simp: bt_wf_Cons dest: less_trans)
  qed
qed (simp add: bt_wf_def)

lemma bt_get_insert_le:
  "bt_wf m \<Longrightarrow> bt_get (bt_insert k v m) k' = (if k' = k then Some v else bt_get m k')"
proof (induction m)
  case (Cons e m)
  then have e: "\<forall>k \<in> fst ` set m. fst e < k" and m: "bt_wf m"
    by (simp_all add: bt_wf_Cons)
  show ?case
    using Cons.IH[OF m] by (cases e) (auto simp: bt_get_def)
qed (simp add: bt_get_def)

lemma bt_wf_filter: "bt_wf m \<Longrightarrow> bt_wf (filter p m)"
  by (simp add: bt_wf_def sorted_wrt_map sorted_wrt_filter)

lemma map_of_filter_fst: "map_of (filter (\<lambda>e. fst e \<noteq> k) m) k' = (if k' = k then None else map_of m k')"
  by (induction m) auto

interpretation bt: ordered_map "[] :: ('k::linorder, 'v) btree" bt_get bt_insert bt_remove bt_keys bt_wf
proof unfold_locales
  fix m :: "('k, 'v) btree" and k k' :: 'k and v :: 'v
  show "bt_get [] k = (None :: 'v option)" by (simp add: bt_get_def)
  show "bt_wf m \<Longrightarrow> bt_get (bt_insert k v m) k' = (if k' = k then Some v else bt_get m k')"
    by (rule bt_get_insert_le)
  show "bt_wf m \<Longrightarrow> bt_get (bt_remove k m) k' = (if k' = k then None else bt_get m k')"
    by (simp add: bt_get_def bt_remove_def map_of_filter_fst)
  show "k \<in> set (bt_keys m) \<longleftrightarrow> bt_get m k \<noteq> None"
    by (simp add: bt_keys_def bt_get_def map_of_eq_None_iff)
  show "bt_wf m \<Longrightarrow> sorted_wrt (<) (bt_keys m)" by (simp add: bt_wf_def bt_keys_def)
  show "bt_wf ([] :: ('k, 'v) btree)" by simp
  show "bt_wf m \<Longrightarrow> bt_wf (bt_insert k v m)" by (rule bt_wf_insert)
  show "bt_wf m \<Longrightarrow> bt_wf (bt_remove k m)" by (simp add: bt_remove_def bt_wf_filter)
qed

lemma bt_collect_wf [bt_simps]: "bt_wf (bt_collect kvs)"
  unfolding bt_collect_def by (rule bt.wf_collect) simp

lemma bt_collect_get [bt_simps]: "bt_get (bt_collect kvs) k = map_of (rev kvs) k"
  unfolding bt_collect_def by (subst bt.get_collect) (auto simp: bt_get_def split: option.splits)

lemma bt_collect_keys [bt_simps]: "fst ` set (bt_collect kvs) = fst ` set kvs"
  using bt.keys_collect[of "[]" kvs] by (simp add: bt_collect_def bt_keys_def)

text \<open>When the keys of the entries differ, collecting keeps every entry.\<close>

lemma bt_collect_get_distinct:
  "distinct (map fst kvs) \<Longrightarrow> bt_get (bt_collect kvs) k = map_of kvs k"
  using map_of_inject_set[of "rev kvs" kvs] by (simp add: bt_collect_get flip: rev_map)

lemma bt_get_distinct: "bt_wf m \<Longrightarrow> (k, v) \<in> set m \<Longrightarrow> bt_get m k = Some v"
  unfolding bt_get_def bt_wf_def
  by (intro map_of_is_SomeI) (auto simp: strict_sorted_iff)

text \<open>Ordered maps are extensional: the contents determine the list.\<close>

lemma bt_wf_distinct: "bt_wf m \<Longrightarrow> distinct (map fst m)"
  by (simp add: bt_wf_def strict_sorted_iff)

lemma bt_list_of_get: "bt_wf m \<Longrightarrow> map (\<lambda>k. (k, the (bt_get m k))) (map fst m) = m"
  using bt_get_distinct[of m] by (auto intro!: map_idI)

lemma bt_ext:
  assumes "bt_wf m" "bt_wf n" "\<And>k. bt_get m k = bt_get n k"
  shows "m = n"
proof -
  have "map_of m = map_of n" using assms(3) by (auto simp: bt_get_def)
  then have "set (map fst m) = set (map fst n)"
    by (metis dom_map_of_conv_image_fst list.set_map)
  then have keys: "map fst m = map fst n"
    using assms(1,2) by (simp only: bt_wf_def strict_sorted_equal)
  have "m = map (\<lambda>k. (k, the (bt_get m k))) (map fst m)" using bt_list_of_get[OF assms(1)] by simp
  also have "\<dots> = map (\<lambda>k. (k, the (bt_get n k))) (map fst n)" by (simp only: keys assms(3))
  also have "\<dots> = n" by (rule bt_list_of_get[OF assms(2)])
  finally show ?thesis .
qed

lemma set_bt_insert: "set (bt_insert k v m) \<subseteq> Set.insert (k, v) (set m)"
  by (induction m) (auto split: if_splits)

lemma set_foldl_bt_insert: "set (foldl (\<lambda>m (k, v). bt_insert k v m) m kvs) \<subseteq> set m \<union> set kvs"
proof (induction kvs arbitrary: m)
  case (Cons kv kvs)
  obtain a b where kv: "kv = (a, b)" by (cases kv)
  have "set (foldl (\<lambda>m (k, v). bt_insert k v m) (bt_insert a b m) kvs) \<subseteq> set (bt_insert a b m) \<union> set kvs"
    by (rule Cons.IH)
  also have "\<dots> \<subseteq> set m \<union> set ((a, b) # kvs)" using set_bt_insert[of a b m] by auto
  finally show ?case by (simp add: kv)
qed simp

lemma set_bt_collect: "set (bt_collect kvs) \<subseteq> set kvs"
  using set_foldl_bt_insert[of "[]" kvs] by (simp add: bt_collect_def)

text \<open>Collecting entries that are already in order changes nothing.\<close>

lemma bt_get_wf_iff: "bt_wf m \<Longrightarrow> bt_get m k = Some v \<longleftrightarrow> (k, v) \<in> set m"
  using bt_get_distinct[of m k v] by (auto simp: bt_get_def dest: map_of_SomeD)

lemma bt_collect_id: "bt_wf m \<Longrightarrow> bt_collect m = m"
  by (rule bt_ext) (simp_all add: bt_collect_wf bt_collect_get_distinct bt_wf_distinct bt_get_def[of m])

lemma bt_get_keys: "bt_get m k = None \<longleftrightarrow> k \<notin> fst ` set m"
  by (simp add: bt_get_def map_of_eq_None_iff)

end
