(* ===== verification/Float64.thy ===== *)
theory Float64
  imports Prelude "HOL-Library.Log_Nat"
begin

text \<open>
  Rust's \<open>f64\<close>: a finite value is the rational it stands for, and each arithmetic operation is the
  exact result rounded to the nearest value with a 53-bit significand, ties to even.  The exponent
  is not bounded, so overflow to infinity, subnormals, NaN and the sign of zero are outside the
  model.  What the components need of it is monotonicity and exactness on small integers.
\<close>

type_synonym f64 = rat

section \<open>Rounding\<close>

definition round_half_even :: "rat \<Rightarrow> int" where
  "round_half_even q =
     (let f = \<lfloor>q\<rfloor>; d = q - of_int f
      in if d < 1 / 2 then f else if 1 / 2 < d then f + 1 else if even f then f else f + 1)"

text \<open>The exponent of a positive rational: \<open>2 ^ e \<le> x < 2 ^ (e + 1)\<close>.\<close>

definition exponent :: "rat \<Rightarrow> int" where
  "exponent x =
     (let (n, d) = quotient_of x; e = bitlen n - bitlen d
      in if 2 powi e \<le> x then e else e - 1)"

definition rnd_pos :: "rat \<Rightarrow> f64" where
  "rnd_pos x = (let u = 2 powi (exponent x - 52) in of_int (round_half_even (x / u)) * u)"

definition rnd :: "rat \<Rightarrow> f64" where
  "rnd x = (if x = 0 then 0 else if 0 < x then rnd_pos x else - rnd_pos (- x))"

section \<open>Operations\<close>

definition f64_of_int :: "int \<Rightarrow> f64" where
  "f64_of_int i = rnd (of_int i)"

definition f64_add :: "f64 \<Rightarrow> f64 \<Rightarrow> f64" where
  "f64_add a b = rnd (a + b)"

definition f64_sub :: "f64 \<Rightarrow> f64 \<Rightarrow> f64" where
  "f64_sub a b = rnd (a - b)"

definition f64_mul :: "f64 \<Rightarrow> f64 \<Rightarrow> f64" where
  "f64_mul a b = rnd (a * b)"

definition f64_div :: "f64 \<Rightarrow> f64 \<Rightarrow> f64" where
  "f64_div a b = rnd (a / b)"

section \<open>Rounding to integers is monotone\<close>

lemma round_half_even_bounds: "\<lfloor>q\<rfloor> \<le> round_half_even q" "round_half_even q \<le> \<lfloor>q\<rfloor> + 1"
  by (simp_all add: round_half_even_def Let_def)

lemma round_half_even_of_int [simp]: "round_half_even (of_int i) = i"
  by (simp add: round_half_even_def)

lemma round_half_even_mono:
  assumes "p \<le> q"
  shows "round_half_even p \<le> round_half_even q"
proof (cases "\<lfloor>p\<rfloor> = \<lfloor>q\<rfloor>")
  case True
  with assms show ?thesis by (simp add: round_half_even_def Let_def)
next
  case False
  with assms have "\<lfloor>p\<rfloor> + 1 \<le> \<lfloor>q\<rfloor>" using floor_mono[OF assms] by linarith
  with round_half_even_bounds[of p] round_half_even_bounds[of q] show ?thesis by linarith
qed

lemma round_half_even_near: "\<bar>q - of_int (round_half_even q)\<bar> \<le> 1 / 2"
proof -
  have fl: "of_int \<lfloor>q\<rfloor> \<le> q" "q < of_int \<lfloor>q\<rfloor> + 1" by linarith+
  consider "q - of_int \<lfloor>q\<rfloor> < 1 / 2" | "q - of_int \<lfloor>q\<rfloor> = 1 / 2" | "1 / 2 < q - of_int \<lfloor>q\<rfloor>"
    by linarith
  then show ?thesis
  proof cases
    case 1
    then have "round_half_even q = \<lfloor>q\<rfloor>" by (simp add: round_half_even_def)
    with 1 fl show ?thesis by simp
  next
    case 2
    then have "round_half_even q = \<lfloor>q\<rfloor> \<or> round_half_even q = \<lfloor>q\<rfloor> + 1"
      by (simp add: round_half_even_def Let_def)
    with 2 show ?thesis by auto
  next
    case 3
    then have "round_half_even q = \<lfloor>q\<rfloor> + 1" by (simp add: round_half_even_def)
    with 3 fl show ?thesis by simp
  qed
qed

section \<open>The exponent\<close>

lemma bitlen_range: "0 < n \<Longrightarrow> 2 powi (bitlen n - 1) \<le> (of_int n :: rat) \<and> (of_int n :: rat) < 2 powi (bitlen n)"
proof -
  assume n: "0 < n"
  then have b: "2 ^ nat (bitlen n - 1) \<le> n" "n < 2 ^ nat (bitlen n)" "1 \<le> bitlen n"
    using bitlen_bounds[of n] bitlen_nonneg[of n] bitlen_eq_zero_iff[of n] by linarith+
  then have "(2::rat) ^ nat (bitlen n - 1) \<le> of_int n" "of_int n < (2::rat) ^ nat (bitlen n)"
    by (metis of_int_le_iff of_int_power of_int_numeral, metis of_int_less_iff of_int_power of_int_numeral)
  with b(3) show ?thesis by (simp add: power_int_def)
qed

lemma exponent_spec:
  assumes "0 < x"
  shows "2 powi exponent x \<le> x \<and> x < 2 powi (exponent x + 1)"
proof -
  obtain n d where q: "quotient_of x = (n, d)" by (cases "quotient_of x")
  have d: "0 < d" and x: "x = of_int n / of_int d"
    using quotient_of_denom_pos[OF q] quotient_of_div[OF q] by auto
  with assms have n: "0 < n" by (simp add: zero_less_divide_iff)
  define e where "e = bitlen n - bitlen d"
  from bitlen_range[OF n] bitlen_range[OF d]
  have nb: "2 powi (bitlen n - 1) \<le> (of_int n :: rat)" "(of_int n :: rat) < 2 powi (bitlen n)"
    and db: "2 powi (bitlen d - 1) \<le> (of_int d :: rat)" "(of_int d :: rat) < 2 powi (bitlen d)" by auto
  have dp: "0 < (of_int d :: rat)" using d by simp
  have "x < 2 powi (bitlen n) / 2 powi (bitlen d - 1)"
    unfolding x using nb(2) db(1) dp n by (intro frac_less) auto
  also have "\<dots> = 2 powi (e + 1)"
    by (simp add: e_def power_int_diff power_int_add)
  finally have hi: "x < 2 powi (e + 1)" .
  have "2 powi (bitlen n - 1) / 2 powi (bitlen d) < x"
    unfolding x using nb(1) db(2) dp n by (intro frac_less2) auto
  moreover have "(2::rat) powi (bitlen n - 1) / 2 powi (bitlen d) = 2 powi (e - 1)"
    by (simp add: e_def power_int_diff)
  ultimately have lo: "2 powi (e - 1) \<le> x" by simp
  have "exponent x = (if 2 powi e \<le> x then e else e - 1)"
    by (simp add: exponent_def q e_def)
  then show ?thesis using hi lo by auto
qed

section \<open>Rounding is monotone and exact on small integers\<close>

lemma rnd_pos_bounds:
  assumes "0 < x"
  shows "2 powi exponent x \<le> rnd_pos x" "rnd_pos x \<le> 2 powi (exponent x + 1)"
proof -
  define u :: rat where "u = 2 powi (exponent x - 52)"
  have u: "0 < u" by (simp add: u_def)
  have lo: "2 powi exponent x = of_int (2 ^ 52) * u" and hi: "2 powi (exponent x + 1) = of_int (2 ^ 53) * u"
    by (simp_all add: u_def power_int_diff power_int_add)
  with exponent_spec[OF assms] u have "of_int (2 ^ 52) \<le> x / u" "x / u \<le> of_int (2 ^ 53)"
    by (simp_all add: pos_le_divide_eq pos_divide_le_eq)
  then have "2 ^ 52 \<le> round_half_even (x / u)" "round_half_even (x / u) \<le> 2 ^ 53"
    by (metis round_half_even_mono round_half_even_of_int)+
  then have "of_int (2 ^ 52) * u \<le> of_int (round_half_even (x / u)) * u"
    "of_int (round_half_even (x / u)) * u \<le> of_int (2 ^ 53) * u"
    using u by (simp_all only: mult_le_cancel_right_pos of_int_le_iff)
  then show "2 powi exponent x \<le> rnd_pos x" "rnd_pos x \<le> 2 powi (exponent x + 1)"
    by (simp_all only: lo hi rnd_pos_def Let_def u_def)
qed

lemma rnd_pos_pos: "0 < x \<Longrightarrow> 0 < rnd_pos x"
  using rnd_pos_bounds(1)[of x] by (metis less_le_trans zero_less_numeral zero_less_power_int)

lemma exponent_mono:
  assumes "0 < x" "x \<le> y"
  shows "exponent x \<le> exponent y"
proof (rule ccontr)
  assume "\<not> exponent x \<le> exponent y"
  then have "(2::rat) powi (exponent y + 1) \<le> 2 powi exponent x" by (intro power_int_increasing) auto
  with exponent_spec[of x] exponent_spec[of y] assms show False by auto
qed

lemma rnd_pos_mono:
  assumes "0 < x" "x \<le> y"
  shows "rnd_pos x \<le> rnd_pos y"
proof (cases "exponent x = exponent y")
  case True
  then show ?thesis
    using assms(2) by (simp add: rnd_pos_def Let_def mult_le_cancel_right_pos divide_right_mono round_half_even_mono)
next
  case False
  with exponent_mono[OF assms] have "(2::rat) powi (exponent x + 1) \<le> 2 powi exponent y"
    by (intro power_int_increasing) auto
  with rnd_pos_bounds(2)[OF assms(1)] rnd_pos_bounds(1)[of y] assms show ?thesis by linarith
qed

lemma rnd_mono: "x \<le> y \<Longrightarrow> rnd x \<le> rnd y"
  using rnd_pos_mono[of x y] rnd_pos_mono[of "- y" "- x"] rnd_pos_pos[of "- x"] rnd_pos_pos[of y]
  by (auto simp: rnd_def)

lemma rnd_0 [simp]: "rnd 0 = 0"
  by (simp add: rnd_def)

lemma rnd_nonneg: "0 \<le> x \<Longrightarrow> 0 \<le> rnd x"
  using rnd_mono[of 0 x] by simp

lemma rnd_pos_int:
  assumes "0 < i" "i < 2 ^ 53"
  shows "rnd_pos (of_int i) = of_int i"
proof -
  have x: "0 < (of_int i :: rat)" using assms by simp
  have "exponent (of_int i) \<le> 52"
  proof (rule ccontr)
    assume "\<not> exponent (of_int i) \<le> 52"
    then have "(2::rat) powi 53 \<le> 2 powi exponent (of_int i)" by (intro power_int_increasing) auto
    also have "\<dots> \<le> of_int i" using exponent_spec[OF x] by simp
    finally have "of_int (2 ^ 53) \<le> (of_int i :: rat)" by simp
    with assms(2) show False by (simp only: of_int_le_iff)
  qed
  then obtain k where k: "exponent (of_int i) - 52 = - int k"
    by (metis diff_le_0_iff_le minus_minus neg_0_le_iff_le zero_le_imp_eq_int)
  define u :: rat where "u = 2 powi (exponent (of_int i) - 52)"
  have u: "u * 2 ^ k = 1" by (simp add: u_def k power_int_minus)
  then have "u \<noteq> 0" by auto
  with u have eq: "of_int i / u = (of_int (i * 2 ^ k) :: rat)"
    by (simp add: divide_eq_eq mult.assoc mult.commute[of _ u])
  have "of_int (round_half_even (of_int i / u)) * u = of_int (i * 2 ^ k) * u"
    unfolding eq round_half_even_of_int ..
  also have "\<dots> = of_int i" using u by (simp add: mult.assoc mult.commute[of _ u])
  finally show ?thesis by (simp add: rnd_pos_def Let_def u_def)
qed

lemma f64_of_int_exact: "\<bar>i\<bar> < 2 ^ 53 \<Longrightarrow> f64_of_int i = of_int i"
  using rnd_pos_int[of i] rnd_pos_int[of "- i"] by (auto simp: f64_of_int_def rnd_def)

lemma f64_of_int_mono: "i \<le> j \<Longrightarrow> f64_of_int i \<le> f64_of_int j"
  by (simp add: f64_of_int_def rnd_mono)

lemma f64_of_int_0 [simp]: "f64_of_int 0 = 0"
  by (simp add: f64_of_int_def)

text \<open>Rounding moves a positive value by at most one part in \<open>2 ^ 53\<close>.\<close>

lemma rnd_error:
  assumes "0 < x"
  shows "\<bar>x - rnd x\<bar> \<le> x / 2 ^ 53"
proof -
  define u :: rat where "u = 2 powi (exponent x - 52)"
  have u: "0 < u" by (simp add: u_def)
  have "2 powi exponent x = 2 ^ 52 * u" by (simp add: u_def power_int_diff)
  with exponent_spec[OF assms] have ux: "2 ^ 52 * u \<le> x" by simp
  have "x - rnd x = (x / u - of_int (round_half_even (x / u))) * u"
    using assms u by (simp add: rnd_def rnd_pos_def Let_def u_def[symmetric] left_diff_distrib)
  then have "\<bar>x - rnd x\<bar> = \<bar>x / u - of_int (round_half_even (x / u))\<bar> * u"
    using u by (simp add: abs_mult)
  also have "\<dots> \<le> 1 / 2 * u"
    using u round_half_even_near[of "x / u"] by (intro mult_right_mono) auto
  also have "\<dots> \<le> x / 2 ^ 53" using ux by simp
  finally show ?thesis .
qed

section \<open>Representable values\<close>

definition is_f64 :: "rat \<Rightarrow> bool" where
  "is_f64 x \<longleftrightarrow> rnd x = x"

lemma rnd_pos_scaled:
  assumes "0 < k" "k \<le> 2 ^ 53"
  shows "rnd_pos (of_int k * 2 powi j) = of_int k * 2 powi j"
proof -
  define x :: rat where "x = of_int k * 2 powi j"
  have x: "0 < x" using assms by (simp add: x_def)
  define e where "e = exponent x"
  define u :: rat where "u = 2 powi (e - 52)"
  have e: "2 powi e \<le> x" "x < 2 powi (e + 1)" using exponent_spec[OF x] by (simp_all add: e_def)
  have "of_int k \<le> (2 ^ 53 :: rat)" using assms(2) by (metis of_int_le_iff of_int_numeral of_int_power)
  then have "x \<le> 2 powi (j + 53)" by (simp add: x_def power_int_add mult.commute)
  with e have "(2::rat) powi e \<le> 2 powi (j + 53)" by linarith
  then have ej: "e \<le> j + 53" using power_int_strict_increasing[of "j + 53" e "2::rat"] by force
  have "\<exists>i. x / u = of_int i"
  proof (cases "e \<le> j + 52")
    case True
    have "x / u = of_int k * 2 powi (j - (e - 52))"
      unfolding x_def u_def by (subst power_int_diff) simp_all
    also have "\<dots> = of_int (k * 2 ^ nat (j - (e - 52)))" using True by (simp add: power_int_def)
    finally show ?thesis by blast
  next
    case False
    with ej have "e = j + 53" by simp
    with e have "(2::rat) powi (j + 53) \<le> x" by simp
    with \<open>x \<le> 2 powi (j + 53)\<close> have "x = 2 powi (j + 53)" by simp
    then have "x / u = of_int (2 ^ 52)" by (simp add: u_def \<open>e = j + 53\<close> power_int_add)
    then show ?thesis by blast
  qed
  then obtain i where "x / u = of_int i" by blast
  moreover have "u \<noteq> 0" by (simp add: u_def)
  ultimately have "of_int (round_half_even (x / u)) * u = x" by (simp add: divide_eq_eq)
  then have "rnd_pos x = x" by (simp add: rnd_pos_def Let_def u_def e_def)
  then show ?thesis by (simp add: x_def)
qed

lemma rnd_pos_idem: "0 < x \<Longrightarrow> rnd_pos (rnd_pos x) = rnd_pos x"
proof -
  assume x: "0 < x"
  define u :: rat where "u = 2 powi (exponent x - 52)"
  define k where "k = round_half_even (x / u)"
  have r: "rnd_pos x = of_int k * u" by (simp add: rnd_pos_def Let_def u_def k_def)
  have u: "0 < u" by (simp add: u_def)
  have "0 < of_int k * u" using rnd_pos_pos[OF x] r by simp
  with u have "0 < k" by (simp add: zero_less_mult_iff)
  moreover have "of_int k * u \<le> of_int (2 ^ 53) * u"
    using rnd_pos_bounds(2)[OF x] r by (simp add: u_def power_int_diff power_int_add)
  then have "k \<le> 2 ^ 53" using u by (simp only: mult_le_cancel_right_pos of_int_le_iff)
  ultimately show ?thesis unfolding r u_def by (rule rnd_pos_scaled)
qed

lemma rnd_is_f64: "is_f64 (rnd x)"
  using rnd_pos_idem[of x] rnd_pos_idem[of "- x"] rnd_pos_pos[of x] rnd_pos_pos[of "- x"]
  by (auto simp: is_f64_def rnd_def)

lemma is_f64_0 [simp]: "is_f64 0"
  by (simp add: is_f64_def)

lemma f64_sub_le: "is_f64 a \<Longrightarrow> 0 \<le> b \<Longrightarrow> f64_sub a b \<le> a"
  using rnd_mono[of "a - b" a] by (simp add: is_f64_def f64_sub_def)

lemma f64_sub_nonneg: "b \<le> a \<Longrightarrow> 0 \<le> f64_sub a b"
  by (simp add: f64_sub_def rnd_nonneg)

section \<open>Formatting\<close>

text \<open>\<open>{:.n}\<close>: the exact value rounded to \<open>n\<close> decimals, ties to even, the sign kept.\<close>

definition pad_zeros :: "nat \<Rightarrow> string \<Rightarrow> string" where
  "pad_zeros n s = replicate (n - length s) (CHR ''0'') @ s"

definition put_point :: "nat \<Rightarrow> nat \<Rightarrow> string" where
  "put_point n k =
     (let s = pad_zeros (n + 1) (nat_dec k); m = length s - n
      in if n = 0 then s else take m s @ ''.'' @ drop m s)"

definition fmt_fixed :: "nat \<Rightarrow> f64 \<Rightarrow> string" where
  "fmt_fixed n x =
     (if x < 0 then ''-'' else []) @ put_point n (nat (round_half_even (\<bar>x\<bar> * 10 ^ n)))"

text \<open>
  \<open>{}\<close>: the shortest decimal that reads back as the value, the closest one of that length; never an
  exponent.  \<open>dec_exp\<close> is the position of the leading digit; seventeen digits always suffice.
\<close>

definition dec_exp :: "rat \<Rightarrow> int" where
  "dec_exp x =
     (let e = (if 1 \<le> x then int (length (nat_dec (nat \<lfloor>x\<rfloor>))) - 1
               else - int (length (nat_dec (nat \<lceil>1 / x\<rceil> - 1))))
      in e)"

definition digit_candidates :: "rat \<Rightarrow> nat \<Rightarrow> rat list" where
  "digit_candidates x n =
     (let u = 10 powi (dec_exp x - int n + 1); f = \<lfloor>x / u\<rfloor>; lo = of_int f * u; hi = of_int (f + 1) * u
      in filter (\<lambda>c. rnd c = x) (if x - lo < hi - x \<or> (x - lo = hi - x \<and> even f) then [lo, hi] else [hi, lo]))"

fun shortest_from :: "rat \<Rightarrow> nat \<Rightarrow> nat \<Rightarrow> rat" where
  "shortest_from x n 0 = x"
| "shortest_from x n (Suc k) = (case digit_candidates x n of c # _ \<Rightarrow> c | [] \<Rightarrow> shortest_from x (Suc n) k)"

fun decimals_of :: "rat \<Rightarrow> nat \<Rightarrow> nat \<Rightarrow> string" where
  "decimals_of c n 0 = put_point n (nat \<lfloor>c * 10 ^ n\<rfloor>)"
| "decimals_of c n (Suc k) = (if of_int \<lfloor>c * 10 ^ n\<rfloor> = c * 10 ^ n then put_point n (nat \<lfloor>c * 10 ^ n\<rfloor>) else decimals_of c (Suc n) k)"

definition fmt_display :: "f64 \<Rightarrow> string" where
  "fmt_display x =
     (if x = 0 then ''0''
      else (if x < 0 then ''-'' else []) @ decimals_of (shortest_from \<bar>x\<bar> 1 17) 0 400)"

end
