(* ===== verification/Json.thy ===== *)
theory Json
  imports OrdMap Float64
begin

text \<open>
  The JSON values the program matches on (\<open>serde_json::Value\<close>): the source destructures the enum,
  so its constructors are a datatype here, with an object as an ordered map.  Everything the
  program only calls is a field of the record \<open>serde\<close>, an argument of the definitions that use it:
  the parser and printer of \<open>serde_json\<close>, its JSON-pointer lookup and the SHA-256 of \<open>sha2\<close>.
\<close>

datatype num = PosInt u64 | NegInt i64 | Float f64

datatype json =
    JNull
  | JBool bool
  | JNumber num
  | JString string
  | JArray "json list"
  | JObject "(string \<times> json) list"

record serde =
  parse_json :: "string \<Rightarrow> json option"
  print_json :: "json \<Rightarrow> string"
  json_pointer :: "json \<Rightarrow> string \<Rightarrow> json option"
  sha256_digest :: "string \<Rightarrow> bytes"

section \<open>Reading a value\<close>

fun as_str :: "json \<Rightarrow> string option" where
  "as_str (JString s) = Some s"
| "as_str _ = None"

fun as_bool :: "json \<Rightarrow> bool option" where
  "as_bool (JBool b) = Some b"
| "as_bool _ = None"

fun as_array :: "json \<Rightarrow> json list option" where
  "as_array (JArray xs) = Some xs"
| "as_array _ = None"

fun as_object :: "json \<Rightarrow> (string \<times> json) list option" where
  "as_object (JObject m) = Some m"
| "as_object _ = None"

fun as_i64 :: "json \<Rightarrow> i64 option" where
  "as_i64 (JNumber (PosInt n)) = (if int n \<le> i64_max then Some (int n) else None)"
| "as_i64 (JNumber (NegInt i)) = Some i"
| "as_i64 _ = None"

fun as_u64 :: "json \<Rightarrow> u64 option" where
  "as_u64 (JNumber (PosInt n)) = Some n"
| "as_u64 _ = None"

definition is_string :: "json \<Rightarrow> bool" where
  "is_string v \<longleftrightarrow> as_str v \<noteq> None"

text \<open>\<open>Value::get\<close> with a string: a lookup in an object, \<open>None\<close> on every other value.\<close>

fun json_get :: "json \<Rightarrow> string \<Rightarrow> json option" where
  "json_get (JObject m) k = bt_get m k"
| "json_get _ k = None"

text \<open>A value as the parser builds it: every object has strictly increasing keys.\<close>

fun json_wf :: "json \<Rightarrow> bool" where
  "json_wf (JArray xs) \<longleftrightarrow> (\<forall>x \<in> set xs. json_wf x)"
| "json_wf (JObject m) \<longleftrightarrow> bt_wf m \<and> (\<forall>e \<in> set m. json_wf (snd e))"
| "json_wf _ \<longleftrightarrow> True"

lemma as_str_Some [simp]: "as_str v = Some s \<longleftrightarrow> v = JString s"
  by (cases v) auto

lemma as_bool_Some [simp]: "as_bool v = Some b \<longleftrightarrow> v = JBool b"
  by (cases v) auto

lemma as_array_Some [simp]: "as_array v = Some xs \<longleftrightarrow> v = JArray xs"
  by (cases v) auto

lemma as_object_Some [simp]: "as_object v = Some m \<longleftrightarrow> v = JObject m"
  by (cases v) auto

lemma json_get_Some: "json_get v k = Some x \<longleftrightarrow> (\<exists>m. v = JObject m \<and> bt_get m k = Some x)"
  by (cases v) auto

lemma json_get_wf: "json_wf v \<Longrightarrow> json_get v k = Some x \<Longrightarrow> json_wf x"
  by (cases v) (auto simp: bt_get_def dest!: map_of_SomeD)

text \<open>Induction over the members of arrays and objects.\<close>

lemma json_induct [case_names JNull JBool JNumber JString JArray JObject]:
  assumes "P JNull" "\<And>b. P (JBool b)" "\<And>n. P (JNumber n)" "\<And>s. P (JString s)"
    and "\<And>xs. (\<And>x. x \<in> set xs \<Longrightarrow> P x) \<Longrightarrow> P (JArray xs)"
    and "\<And>ms. (\<And>k c. (k, c) \<in> set ms \<Longrightarrow> P c) \<Longrightarrow> P (JObject ms)"
  shows "P v"
  by (induction v) (use assms in \<open>auto simp: snds.simps\<close>)

text \<open>A codec law the round trips use: what the printer writes, the parser reads back.\<close>

definition codec_ok :: "serde \<Rightarrow> json \<Rightarrow> bool" where
  "codec_ok S v \<longleftrightarrow> parse_json S (print_json S v) = Some v"

end
