(* ===== verification/Protocol.thy ===== *)
theory Protocol
  imports Json
begin

text \<open>
  \<open>crates/mcptracer-protocol/src/lib.rs\<close>: message directions, the JSON-RPC view of a payload
  (method, id, kind, errors), the two transports and the newline framing of stdio.
\<close>

section \<open>Directions\<close>

definition MAX_FRAME_BYTES :: usize where
  "MAX_FRAME_BYTES = 8 * 1024 * 1024"

datatype direction = ClientToServer | ServerToClient

fun as_db_str :: "direction \<Rightarrow> string" where
  "as_db_str ClientToServer = ''c2s''"
| "as_db_str ServerToClient = ''s2c''"

definition from_db_str :: "string \<Rightarrow> direction option" where
  "from_db_str s =
     (if s = ''c2s'' then Some ClientToServer
      else if s = ''s2c'' then Some ServerToClient
      else None)"

fun opposite :: "direction \<Rightarrow> direction" where
  "opposite ClientToServer = ServerToClient"
| "opposite ServerToClient = ClientToServer"

lemma opposite_opposite [simp]: "opposite (opposite d) = d"
  by (cases d) auto

lemma opposite_neq [simp]: "opposite d \<noteq> d" "d \<noteq> opposite d"
  by (cases d; simp)+

lemma opposite_inj [simp]: "opposite d = opposite e \<longleftrightarrow> d = e"
  by (cases d; cases e) auto

lemma from_db_str_as_db_str: "from_db_str (as_db_str d) = Some d"
  by (cases d) (simp_all add: from_db_str_def)

lemma from_db_str_Some: "from_db_str s = Some d \<longleftrightarrow> s = as_db_str d"
  by (cases d) (auto simp: from_db_str_def)

section \<open>Messages\<close>

record mcp_message =
  m_seq :: u64
  m_timestamp_ns :: i64
  m_direction :: direction
  m_payload :: json
  m_payload_bytes :: usize

datatype message_kind = Request | Response | Notification

fun kind_as_db_str :: "message_kind \<Rightarrow> string" where
  "kind_as_db_str Request = ''request''"
| "kind_as_db_str Response = ''response''"
| "kind_as_db_str Notification = ''notification''"

definition m_method :: "mcp_message \<Rightarrow> string option" where
  "m_method m = Option.bind (json_get (m_payload m) ''method'') as_str"

definition m_id :: "mcp_message \<Rightarrow> json option" where
  "m_id m = json_get (m_payload m) ''id''"

definition id_json :: "serde \<Rightarrow> mcp_message \<Rightarrow> string option" where
  "id_json S m = map_option (print_json S) (m_id m)"

definition m_tool_name :: "mcp_message \<Rightarrow> string option" where
  "m_tool_name m =
     Option.bind (m_method m) (\<lambda>method.
       if method \<noteq> ''tools/call'' then None
       else Option.bind (json_get (m_payload m) ''params'') (\<lambda>params.
         Option.bind (json_get params ''name'') as_str))"

definition m_is_error :: "mcp_message \<Rightarrow> bool" where
  "m_is_error m \<longleftrightarrow> json_get (m_payload m) ''error'' \<noteq> None"

definition m_is_tool_error :: "serde \<Rightarrow> mcp_message \<Rightarrow> bool" where
  "m_is_tool_error S m \<longleftrightarrow>
     Option.bind (json_pointer S (m_payload m) ''/result/isError'') as_bool = Some True"

definition m_error_code :: "mcp_message \<Rightarrow> i64 option" where
  "m_error_code m =
     Option.bind (json_get (m_payload m) ''error'') (\<lambda>e. Option.bind (json_get e ''code'') as_i64)"

definition is_notification :: "mcp_message \<Rightarrow> bool" where
  "is_notification m \<longleftrightarrow> m_id m = None \<and> m_method m \<noteq> None"

definition is_response :: "mcp_message \<Rightarrow> bool" where
  "is_response m \<longleftrightarrow> m_id m \<noteq> None \<and> m_method m = None"

definition m_kind :: "mcp_message \<Rightarrow> message_kind" where
  "m_kind m =
     (if is_response m then Response else if is_notification m then Notification else Request)"

section \<open>Transports\<close>

datatype decode_error = InvalidJson

definition decode_json_message ::
  "serde \<Rightarrow> bytes \<Rightarrow> direction \<Rightarrow> u64 \<Rightarrow> i64 \<Rightarrow> decode_error + mcp_message" where
  "decode_json_message S bs d sq ts =
     (case parse_json S bs of
        None \<Rightarrow> Inl InvalidJson
      | Some v \<Rightarrow> Inr \<lparr>m_seq = sq, m_timestamp_ns = ts, m_direction = d, m_payload = v,
                       m_payload_bytes = length bs\<rparr>)"

definition stdio_name :: string where
  "stdio_name = ''stdio''"

definition stdio_decode_message ::
  "serde \<Rightarrow> bytes \<Rightarrow> direction \<Rightarrow> u64 \<Rightarrow> i64 \<Rightarrow> decode_error + mcp_message" where
  "stdio_decode_message S bs d sq ts = decode_json_message S bs d sq ts"

definition http_name :: string where
  "http_name = ''streamable-http''"

definition http_decode_message ::
  "serde \<Rightarrow> bytes \<Rightarrow> direction \<Rightarrow> u64 \<Rightarrow> i64 \<Rightarrow> decode_error + mcp_message" where
  "http_decode_message S bs d sq ts = decode_json_message S bs d sq ts"

text \<open>
  The trait \<open>Transport\<close>: one complete payload in, one message or a decode error out.  The laws say
  what every caller relies on, and the client lemmas follow from them alone.
\<close>

locale transport =
  fixes name :: string
    and decode_message :: "serde \<Rightarrow> bytes \<Rightarrow> direction \<Rightarrow> u64 \<Rightarrow> i64 \<Rightarrow> decode_error + mcp_message"
  assumes name_nonempty: "name \<noteq> []"
    and decode_ok: "parse_json S bs = Some v \<Longrightarrow> decode_message S bs d sq ts =
      Inr \<lparr>m_seq = sq, m_timestamp_ns = ts, m_direction = d, m_payload = v, m_payload_bytes = length bs\<rparr>"
    and decode_err: "parse_json S bs = None \<Longrightarrow> decode_message S bs d sq ts = Inl InvalidJson"
begin

lemma decode_iff:
  "decode_message S bs d sq ts = Inr m \<longleftrightarrow>
     parse_json S bs = Some (m_payload m) \<and> m_seq m = sq \<and> m_timestamp_ns m = ts \<and>
     m_direction m = d \<and> m_payload_bytes m = length bs"
  by (cases "parse_json S bs") (auto simp: decode_ok decode_err)

lemma decode_total: "decode_message S bs d sq ts = Inl InvalidJson \<or> (\<exists>m. decode_message S bs d sq ts = Inr m)"
  by (cases "parse_json S bs") (auto simp: decode_ok decode_err)

lemma decode_printed:
  "codec_ok S v \<Longrightarrow> \<exists>m. decode_message S (print_json S v) d sq ts = Inr m \<and> m_payload m = v"
  by (auto simp: codec_ok_def decode_ok)

end

interpretation stdio: transport stdio_name stdio_decode_message
  by unfold_locales (auto simp: stdio_name_def stdio_decode_message_def decode_json_message_def)

interpretation http: transport http_name http_decode_message
  by unfold_locales (auto simp: http_name_def http_decode_message_def decode_json_message_def)

section \<open>Stdio framing\<close>

abbreviation nl :: char where "nl \<equiv> CHR 0x0A"
abbreviation cr :: char where "cr \<equiv> CHR 0x0D"

record stdio_frame =
  json_bytes :: bytes
  wire_bytes :: bytes
  consumed :: usize

datatype frame_error = EmptyFrame

definition strip_cr :: "bytes \<Rightarrow> bytes" where
  "strip_cr bs = (if bs \<noteq> [] \<and> last bs = cr then butlast bs else bs)"

definition parse_stdio_frame :: "bytes \<Rightarrow> frame_error + stdio_frame option" where
  "parse_stdio_frame buf =
     (case position (\<lambda>b. b = nl) buf of
        None \<Rightarrow> Inr None
      | Some newline_idx \<Rightarrow>
          let consumed_n = newline_idx + 1;
              wire = take consumed_n buf;
              js = strip_cr (take newline_idx buf)
          in if js = [] then Inl EmptyFrame
             else Inr (Some \<lparr>json_bytes = js, wire_bytes = wire, consumed = consumed_n\<rparr>))"

definition encode_stdio_frame :: "serde \<Rightarrow> json \<Rightarrow> bytes" where
  "encode_stdio_frame S payload = print_json S payload @ [nl]"

definition parse_json_payload :: "serde \<Rightarrow> bytes \<Rightarrow> decode_error + json" where
  "parse_json_payload S bs = (case parse_json S bs of None \<Rightarrow> Inl InvalidJson | Some v \<Rightarrow> Inr v)"

lemma position_append: "\<forall>x \<in> set xs. \<not> p x \<Longrightarrow> p y \<Longrightarrow> position p (xs @ y # ys) = Some (length xs)"
  by (induction xs) auto

lemma position_split:
  "position p xs = Some i \<Longrightarrow> xs = take i xs @ xs ! i # drop (Suc i) xs \<and> (\<forall>x \<in> set (take i xs). \<not> p x) \<and> p (xs ! i)"
  using position_Some[of p xs i] id_take_nth_drop[of i xs]
  by (auto simp: in_set_conv_nth)

text \<open>What a line of the stream is: bytes without a newline, closed by one.\<close>

lemma parse_stdio_frame_line:
  assumes "nl \<notin> set body"
  shows "parse_stdio_frame (body @ nl # rest) =
     (if strip_cr body = [] then Inl EmptyFrame
      else Inr (Some \<lparr>json_bytes = strip_cr body, wire_bytes = body @ [nl], consumed = Suc (length body)\<rparr>))"
proof -
  have "position (\<lambda>b. b = nl) (body @ nl # rest) = Some (length body)"
    using assms by (intro position_append) auto
  then show ?thesis by (simp add: parse_stdio_frame_def Let_def)
qed

lemma parse_stdio_frame_pending: "parse_stdio_frame buf = Inr None \<longleftrightarrow> nl \<notin> set buf"
proof (cases "position (\<lambda>b. b = nl) buf")
  case None
  then have "\<forall>x \<in> set buf. x \<noteq> nl" by (simp only: position_None)
  then have "nl \<notin> set buf" by blast
  with None show ?thesis by (simp add: parse_stdio_frame_def)
next
  case (Some i)
  from position_Some[OF Some] have "nl \<in> set buf" by (metis nth_mem)
  with Some show ?thesis by (simp add: parse_stdio_frame_def Let_def)
qed

text \<open>Every buffer with a newline is a line and a rest, so the two facts describe every buffer.\<close>

lemma split_first_line: "nl \<in> set buf \<Longrightarrow> \<exists>body rest. buf = body @ nl # rest \<and> nl \<notin> set body"
  by (rule split_list_first)

end
