(* ===== verification/Sse.thy ===== *)
theory Sse
  imports Protocol
begin

text \<open>
  \<open>crates/mcptracer-protocol/src/sse.rs\<close>: the decoder that turns a raw Server-Sent Events stream
  into message boundaries.  The buffers are bounded by \<open>MAX_FRAME_BYTES\<close>; a longer line or
  event is dropped and reported.
\<close>

record sse_decoder =
  sse_line :: bytes
  sse_data :: bytes
  oversized :: bool
  discarding_line :: bool

datatype sse_event = SseJson bytes | SseOversized | SseIncomplete

definition sse_default :: sse_decoder where
  "sse_default = \<lparr>sse_line = [], sse_data = [], oversized = False, discarding_line = False\<rparr>"

definition has_pending_event :: "sse_decoder \<Rightarrow> bool" where
  "has_pending_event d \<longleftrightarrow> sse_line d \<noteq> [] \<or> sse_data d \<noteq> [] \<or> oversized d \<or> discarding_line d"

definition finish_event :: "sse_decoder \<Rightarrow> sse_decoder \<times> sse_event list" where
  "finish_event d =
     (d\<lparr>sse_data := [], oversized := False\<rparr>,
      if oversized d then [SseOversized]
      else if sse_data d \<noteq> [] then [SseJson (sse_data d)]
      else [])"

definition process_line :: "sse_decoder \<Rightarrow> bytes \<Rightarrow> sse_decoder \<times> sse_event list" where
  "process_line d line =
     (if line = [] then finish_event d
      else case strip_prefix ''data:'' line of
        None \<Rightarrow> (d, [])
      | Some raw \<Rightarrow>
          let value = (case raw of c # rest \<Rightarrow> if c = CHR '' '' then rest else raw | [] \<Rightarrow> raw)
          in if oversized d then (d, [])
             else
               let separator = (if sse_data d \<noteq> [] then 1 else 0)
               in if saturating_add (saturating_add (length (sse_data d)) separator) (length value)
                       > MAX_FRAME_BYTES
                  then (d\<lparr>sse_data := [], oversized := True\<rparr>, [])
                  else (d\<lparr>sse_data := sse_data d @ (if separator = 1 then [nl] else []) @ value\<rparr>, []))"

definition push_fragment :: "sse_decoder \<Rightarrow> bytes \<Rightarrow> sse_decoder \<times> sse_event list" where
  "push_fragment d fragment =
     (let complete = (fragment \<noteq> [] \<and> last fragment = nl);
          bs = (if complete then butlast fragment else fragment);
          d1 = (if discarding_line d then d
                else if saturating_add (length (sse_line d)) (length bs) > MAX_FRAME_BYTES + 7
                then d\<lparr>sse_line := [], sse_data := [], oversized := True, discarding_line := True\<rparr>
                else d\<lparr>sse_line := sse_line d @ bs\<rparr>)
      in if \<not> complete then (d1, [])
         else if discarding_line d1 then (d1\<lparr>discarding_line := False\<rparr>, [])
         else process_line (d1\<lparr>sse_line := []\<rparr>) (strip_cr (sse_line d1)))"

fun push_fragments :: "sse_decoder \<Rightarrow> bytes list \<Rightarrow> sse_decoder \<times> sse_event list" where
  "push_fragments d [] = (d, [])"
| "push_fragments d (f # fs) =
     (let (d1, es) = push_fragment d f; (d2, es') = push_fragments d1 fs in (d2, es @ es'))"

definition sse_push :: "sse_decoder \<Rightarrow> bytes \<Rightarrow> sse_decoder \<times> sse_event list" where
  "sse_push d chunk = push_fragments d (split_inclusive (\<lambda>b. b = nl) chunk)"

definition sse_finish :: "sse_decoder \<Rightarrow> sse_decoder \<times> sse_event list" where
  "sse_finish d =
     (\<lparr>sse_line = [], sse_data = [], oversized = False, discarding_line = False\<rparr>,
      if oversized d then [SseOversized]
      else if has_pending_event d then [SseIncomplete]
      else [])"

section \<open>The decoder byte by byte\<close>

text \<open>
  The code scans whole fragments to stay linear.  A machine that takes one byte at a time does the
  same, and from that the cut of the stream into chunks has no effect.
\<close>

definition sse_byte :: "sse_decoder \<Rightarrow> char \<Rightarrow> sse_decoder \<times> sse_event list" where
  "sse_byte d b = push_fragment d [b]"

fun sse_bytes :: "sse_decoder \<Rightarrow> bytes \<Rightarrow> sse_decoder \<times> sse_event list" where
  "sse_bytes d [] = (d, [])"
| "sse_bytes d (b # bs) =
     (let (d1, es) = sse_byte d b; (d2, es') = sse_bytes d1 bs in (d2, es @ es'))"

lemma sse_bytes_append:
  "sse_bytes d (xs @ ys) =
     (let (d1, es) = sse_bytes d xs; (d2, es') = sse_bytes d1 ys in (d2, es @ es'))"
  by (induction xs arbitrary: d) (auto simp: Let_def split: prod.splits)

lemma limit_le_max: "MAX_FRAME_BYTES + 7 < u64_max"
  by (simp add: MAX_FRAME_BYTES_def u64_max_def)

lemma saturating_gt: "m < u64_max \<Longrightarrow> (saturating_add a b > m) \<longleftrightarrow> a + b > m"
  by (auto simp: saturating_add_def)

lemmas over_limit = saturating_gt[OF limit_le_max]

lemma push_fragment_Cons:
  assumes "x \<noteq> nl" "f \<noteq> []"
  shows "push_fragment d (x # f) =
     (let (d1, es) = push_fragment d [x]; (d2, es') = push_fragment d1 f in (d2, es @ es'))"
proof (cases "discarding_line d")
  case True
  with assms show ?thesis by (simp add: push_fragment_def Let_def)
next
  case False
  consider "length (sse_line d) + 1 > MAX_FRAME_BYTES + 7"
    | "length (sse_line d) + 1 \<le> MAX_FRAME_BYTES + 7" by linarith
  then show ?thesis
  proof cases
    case 1
    moreover have "0 < length f" using assms(2) by simp
    ultimately have "MAX_FRAME_BYTES + 7 < length (sse_line d) + length f" by linarith
    with 1 assms False show ?thesis by (simp add: push_fragment_def Let_def over_limit)
  next
    case 2
    moreover obtain k where "length f = Suc k" using assms(2) by (cases f) auto
    ultimately show ?thesis using assms False by (simp add: push_fragment_def Let_def over_limit)
  qed
qed

lemma push_fragment_bytes: "f \<noteq> [] \<Longrightarrow> nl \<notin> set (butlast f) \<Longrightarrow> push_fragment d f = sse_bytes d f"
proof (induction f arbitrary: d)
  case (Cons x f)
  show ?case
  proof (cases "f = []")
    case True
    then show ?thesis by (simp add: sse_byte_def split: prod.splits)
  next
    case False
    with Cons.prems have "x \<noteq> nl" and "nl \<notin> set (butlast f)" by auto
    with Cons.IH[OF False] False show ?thesis
      by (simp add: push_fragment_Cons sse_byte_def)
  qed
qed simp

lemma fragments_shape:
  "f \<in> set (split_inclusive p xs) \<Longrightarrow> f \<noteq> [] \<and> (\<forall>x \<in> set (butlast f). \<not> p x)"
proof (induction xs arbitrary: f)
  case (Cons x xs)
  show ?case
  proof (cases "split_inclusive p xs")
    case Nil
    with Cons.prems show ?thesis by (auto split: if_splits)
  next
    case (Cons g gs)
    with Cons.IH[of f] Cons.IH[of g] Cons.prems show ?thesis by (auto split: if_splits)
  qed
qed simp

lemma push_fragments_bytes:
  "(\<And>f. f \<in> set fs \<Longrightarrow> f \<noteq> [] \<and> nl \<notin> set (butlast f)) \<Longrightarrow>
     push_fragments d fs = sse_bytes d (concat fs)"
proof (induction fs arbitrary: d)
  case (Cons f fs)
  then have "push_fragment d f = sse_bytes d f" "\<And>d. push_fragments d fs = sse_bytes d (concat fs)"
    by (auto intro!: push_fragment_bytes)
  then show ?case by (simp add: sse_bytes_append)
qed simp

lemma sse_push_bytes: "sse_push d chunk = sse_bytes d chunk"
proof -
  have "\<And>f. f \<in> set (split_inclusive (\<lambda>b. b = nl) chunk) \<Longrightarrow> f \<noteq> [] \<and> nl \<notin> set (butlast f)"
    by (metis (full_types) fragments_shape)
  then show ?thesis by (simp add: sse_push_def push_fragments_bytes concat_split_inclusive)
qed

section \<open>Chunked decoders\<close>

text \<open>
  The contract of a decoder fed with chunks: pushing nothing changes nothing, and pushing two
  chunks is pushing their concatenation.  Its clients may then forget the chunks.
\<close>

locale chunked_decoder =
  fixes push :: "'s \<Rightarrow> 'b list \<Rightarrow> 's \<times> 'e list"
  assumes push_nil: "push s [] = (s, [])"
    and push_append: "push s (xs @ ys) =
      (let (s1, es) = push s xs; (s2, es') = push s1 ys in (s2, es @ es'))"
begin

fun feed :: "'s \<Rightarrow> 'b list list \<Rightarrow> 's \<times> 'e list" where
  "feed s [] = (s, [])"
| "feed s (c # cs) = (let (s1, es) = push s c; (s2, es') = feed s1 cs in (s2, es @ es'))"

lemma feed_concat: "feed s cs = push s (concat cs)"
  by (induction cs arbitrary: s) (simp_all add: push_nil push_append)

lemma chunking_irrelevant: "concat cs = concat cs' \<Longrightarrow> feed s cs = feed s cs'"
  by (simp add: feed_concat)

end

interpretation sse: chunked_decoder sse_push
  by unfold_locales (simp_all add: sse_push_bytes sse_bytes_append)

fun sse_feed :: "sse_decoder \<Rightarrow> bytes list \<Rightarrow> sse_decoder \<times> sse_event list" where
  "sse_feed d [] = (d, [])"
| "sse_feed d (c # cs) = (let (d1, es) = sse_push d c; (d2, es') = sse_feed d1 cs in (d2, es @ es'))"

lemma sse_feed_feed: "sse_feed d cs = sse.feed d cs"
  by (induction cs arbitrary: d) simp_all

section \<open>Bounds\<close>

definition sse_ok :: "sse_decoder \<Rightarrow> bool" where
  "sse_ok d \<longleftrightarrow> length (sse_line d) \<le> MAX_FRAME_BYTES + 7 \<and> length (sse_data d) \<le> MAX_FRAME_BYTES \<and>
     (oversized d \<longrightarrow> sse_data d = []) \<and> (discarding_line d \<longrightarrow> oversized d \<and> sse_line d = [])"

definition event_ok :: "sse_event \<Rightarrow> bool" where
  "event_ok e \<longleftrightarrow> (\<forall>b. e = SseJson b \<longrightarrow> b \<noteq> [] \<and> length b \<le> MAX_FRAME_BYTES) \<and> e \<noteq> SseIncomplete"

lemma sse_default_ok: "sse_ok sse_default"
  by (simp add: sse_ok_def sse_default_def)

lemma max_lt: "MAX_FRAME_BYTES < u64_max"
  using limit_le_max by simp

lemma process_line_ok:
  assumes "sse_ok d" "sse_line d = []" "\<not> discarding_line d"
  shows "sse_ok (fst (process_line d l)) \<and> (\<forall>e \<in> set (snd (process_line d l)). event_ok e)"
proof (cases "l = []")
  case True
  with assms show ?thesis by (auto simp: process_line_def finish_event_def sse_ok_def event_ok_def)
next
  case False
  show ?thesis
  proof (cases "strip_prefix ''data:'' l")
    case None
    with False assms show ?thesis by (simp add: process_line_def del: strip_prefix.simps)
  next
    case (Some raw)
    define v where "v = (case raw of c # rest \<Rightarrow> if c = CHR '' '' then rest else raw | [] \<Rightarrow> raw)"
    have sat: "\<not> saturating_add (saturating_add a b) c > MAX_FRAME_BYTES \<Longrightarrow> a + b + c \<le> MAX_FRAME_BYTES"
      for a b c using max_lt by (simp add: saturating_add_def)
    show ?thesis
      using False Some assms sat[of "length (sse_data d)" "Suc 0" "length v"] sat[of 0 0 "length v"]
      by (simp add: process_line_def Let_def sse_ok_def v_def[symmetric] del: strip_prefix.simps)
  qed
qed

lemma push_fragment_ok:
  assumes "sse_ok d"
  shows "sse_ok (fst (push_fragment d f)) \<and> (\<forall>e \<in> set (snd (push_fragment d f)). event_ok e)"
proof -
  define bs where "bs = (if f \<noteq> [] \<and> last f = nl then butlast f else f)"
  define d1 where "d1 = (if discarding_line d then d
      else if saturating_add (length (sse_line d)) (length bs) > MAX_FRAME_BYTES + 7
      then d\<lparr>sse_line := [], sse_data := [], oversized := True, discarding_line := True\<rparr>
      else d\<lparr>sse_line := sse_line d @ bs\<rparr>)"
  have d1: "sse_ok d1" using assms by (auto simp: d1_def sse_ok_def over_limit not_less)
  have unf: "push_fragment d f =
     (if \<not> (f \<noteq> [] \<and> last f = nl) then (d1, [])
      else if discarding_line d1 then (d1\<lparr>discarding_line := False\<rparr>, [])
      else process_line (d1\<lparr>sse_line := []\<rparr>) (strip_cr (sse_line d1)))"
    by (simp only: push_fragment_def Let_def d1_def bs_def)
  have "sse_ok (d1\<lparr>sse_line := []\<rparr>)" "sse_ok (d1\<lparr>discarding_line := False\<rparr>)"
    using d1 by (auto simp: sse_ok_def)
  then show ?thesis unfolding unf
    using d1 process_line_ok[of "d1\<lparr>sse_line := []\<rparr>" "strip_cr (sse_line d1)"] by simp
qed

lemma push_fragments_ok:
  "sse_ok d \<Longrightarrow> sse_ok (fst (push_fragments d fs)) \<and> (\<forall>e \<in> set (snd (push_fragments d fs)). event_ok e)"
proof (induction fs arbitrary: d)
  case (Cons f fs)
  from push_fragment_ok[OF Cons.prems, of f] Cons.IH[of "fst (push_fragment d f)"]
  show ?case by (auto simp: Let_def split: prod.splits)
qed simp

lemma sse_push_ok:
  "sse_ok d \<Longrightarrow> sse_ok (fst (sse_push d c)) \<and> (\<forall>e \<in> set (snd (sse_push d c)). event_ok e)"
  unfolding sse_push_def by (rule push_fragments_ok)

lemma sse_feed_ok:
  "sse_ok d \<Longrightarrow> sse_ok (fst (sse_feed d cs)) \<and> (\<forall>e \<in> set (snd (sse_feed d cs)). event_ok e)"
proof (induction cs arbitrary: d)
  case (Cons c cs)
  from sse_push_ok[OF Cons.prems, of c] Cons.IH[of "fst (sse_push d c)"]
  show ?case by (auto simp: Let_def split: prod.splits)
qed simp

section \<open>Delivery of one event\<close>

lemma sse_bytes_line:
  assumes "nl \<notin> set l" "\<not> discarding_line d" "sse_line d = []" "length l \<le> MAX_FRAME_BYTES + 7"
  shows "sse_bytes d (l @ [nl]) = process_line (d\<lparr>sse_line := []\<rparr>) (strip_cr l)"
proof -
  have "sse_bytes d (l @ [nl]) = push_fragment d (l @ [nl])"
    using assms(1) by (intro push_fragment_bytes[symmetric]) auto
  also have "\<dots> = process_line (d\<lparr>sse_line := []\<rparr>) (strip_cr l)"
    using assms by (simp add: push_fragment_def Let_def over_limit not_less)
  finally show ?thesis .
qed

text \<open>
  A whole event: data lines, then an empty line.  \<open>data_line\<close> is what a server sends for one
  payload line; an idle decoder delivers exactly the payload and is idle again.
\<close>

definition data_line :: "bytes \<Rightarrow> bytes" where
  "data_line v = ''data: '' @ v @ [nl]"

lemma process_data_line:
  assumes "\<not> oversized d" "sse_data d = []" "length v \<le> MAX_FRAME_BYTES"
  shows "process_line d (''data: '' @ v) = (d\<lparr>sse_data := v\<rparr>, [])"
proof -
  have "length v \<le> u64_max" using assms(3) max_lt by simp
  then show ?thesis using assms by (simp add: process_line_def Let_def)
qed

lemma strip_cr_prefix: "v \<noteq> [] \<Longrightarrow> last v \<noteq> cr \<Longrightarrow> strip_cr (w @ v) = w @ v"
  by (simp add: strip_cr_def)

lemma sse_bytes_event:
  assumes "nl \<notin> set v" "v \<noteq> []" "last v \<noteq> cr" "length v \<le> MAX_FRAME_BYTES"
  shows "sse_bytes sse_default (data_line v @ [nl]) = (sse_default, [SseJson v])"
proof -
  have one: "sse_bytes sse_default (data_line v) = (sse_default\<lparr>sse_data := v\<rparr>, [])"
    using sse_bytes_line[of "''data: '' @ v" sse_default] assms process_data_line[of sse_default v]
      strip_cr_prefix[of v "''data: ''"]
    by (simp add: data_line_def sse_default_def)
  have two: "sse_bytes (sse_default\<lparr>sse_data := v\<rparr>) [nl] = (sse_default, [SseJson v])"
    using sse_bytes_line[of "[]" "sse_default\<lparr>sse_data := v\<rparr>"] assms(2)
    by (simp add: sse_default_def process_line_def strip_cr_def finish_event_def del: sse_bytes.simps)
  show ?thesis by (simp add: sse_bytes_append one two del: sse_bytes.simps)
qed

end
