(* ===== verification/Session.thy ===== *)
theory Session
  imports Protocol "HOL-Library.Multiset"
begin

text \<open>
  \<open>crates/mcptracer-model/src/lib.rs\<close>: correlation of a recorded message log into exchanges, the
  session statistics and the integrity check that gates a recording.  The loop body of \<open>correlate\<close>
  is one step on an explicit state: the exchanges so far, the notifications so far, and the
  requests still open, keyed by the direction their reply will travel and their rpc id.
\<close>

section \<open>Data\<close>

record stored_message =
  msg_seq :: u64
  msg_ts_ns :: i64
  msg_direction :: string
  msg_kind :: string
  msg_rpc_id :: "string option"
  msg_method :: "string option"
  msg_tool_name :: "string option"
  msg_payload :: string
  msg_payload_bytes :: usize
  msg_is_error :: bool
  msg_error_code :: "i64 option"

datatype exchange_status =
  Ok | Error | ToolError | Subscribed | Cancelled | Unanswered | OrphanResponse

record exchange =
  ex_request_seq :: "u64 option"
  ex_response_seq :: "u64 option"
  ex_rpc_id :: "string option"
  ex_origin :: direction
  ex_method :: "string option"
  ex_tool_name :: "string option"
  ex_status :: exchange_status
  ex_latency_ns :: "i64 option"
  ex_error_code :: "i64 option"
  ex_request_ts_ns :: "i64 option"
  ex_response_ts_ns :: "i64 option"

record notification_event =
  nt_seq :: u64
  nt_ts_ns :: i64
  nt_direction :: direction
  nt_method :: string

record session_stats =
  total_exchanges :: usize
  ok_count :: usize
  errors_count :: usize
  unanswered_count :: usize
  cancelled_count :: usize
  orphan_responses :: usize
  notifications_count :: usize
  latency_p50_ns :: "i64 option"
  latency_p95_ns :: "i64 option"
  latency_max_ns :: "i64 option"
  tool_call_counts :: "(string \<times> usize) list"

record session_model =
  exchanges :: "exchange list"
  notifications :: "notification_event list"
  stats :: session_stats

section \<open>Correlation\<close>

record corr_state =
  c_exchanges :: "exchange list"
  c_notifications :: "notification_event list"
  c_pending :: "direction \<times> string \<Rightarrow> nat option"

definition corr_init :: corr_state where
  "corr_init = \<lparr>c_exchanges = [], c_notifications = [], c_pending = Map.empty\<rparr>"

definition new_request :: "stored_message \<Rightarrow> direction \<Rightarrow> exchange" where
  "new_request msg dir =
     \<lparr>ex_request_seq = Some (msg_seq msg), ex_response_seq = None, ex_rpc_id = msg_rpc_id msg,
      ex_origin = dir, ex_method = msg_method msg, ex_tool_name = msg_tool_name msg,
      ex_status = Unanswered, ex_latency_ns = None, ex_error_code = None,
      ex_request_ts_ns = Some (msg_ts_ns msg), ex_response_ts_ns = None\<rparr>"

definition on_request :: "corr_state \<Rightarrow> stored_message \<Rightarrow> direction \<Rightarrow> corr_state" where
  "on_request st msg dir =
     (let idx = length (c_exchanges st);
          st1 = st\<lparr>c_exchanges := c_exchanges st @ [new_request msg dir]\<rparr>
      in case msg_rpc_id msg of
           None \<Rightarrow> st1
         | Some rid \<Rightarrow> st1\<lparr>c_pending := (c_pending st1)((opposite dir, rid) \<mapsto> idx)\<rparr>)"

definition response_status :: "serde \<Rightarrow> exchange \<Rightarrow> stored_message \<Rightarrow> exchange_status" where
  "response_status S e msg =
     (if msg_is_error msg then Error
      else if ex_method e = Some ''tools/call'' \<and>
              (case parse_json S (msg_payload msg) of
                 None \<Rightarrow> False
               | Some payload \<Rightarrow>
                   Option.bind (json_pointer S payload ''/result/isError'') as_bool = Some True)
      then ToolError
      else Ok)"

definition answer :: "serde \<Rightarrow> exchange \<Rightarrow> stored_message \<Rightarrow> exchange" where
  "answer S e msg =
     e\<lparr>ex_response_seq := Some (msg_seq msg),
       ex_response_ts_ns := Some (msg_ts_ns msg),
       ex_error_code := msg_error_code msg,
       ex_latency_ns := (case ex_request_ts_ns e of
                           Some req_ts \<Rightarrow> Some (wrap_i64 (msg_ts_ns msg - req_ts))
                         | None \<Rightarrow> ex_latency_ns e),
       ex_status := response_status S e msg\<rparr>"

definition orphan :: "stored_message \<Rightarrow> direction \<Rightarrow> exchange" where
  "orphan msg dir =
     \<lparr>ex_request_seq = None, ex_response_seq = Some (msg_seq msg), ex_rpc_id = msg_rpc_id msg,
      ex_origin = opposite dir, ex_method = None, ex_tool_name = None,
      ex_status = OrphanResponse, ex_latency_ns = None, ex_error_code = msg_error_code msg,
      ex_request_ts_ns = None, ex_response_ts_ns = Some (msg_ts_ns msg)\<rparr>"

definition on_response :: "serde \<Rightarrow> corr_state \<Rightarrow> stored_message \<Rightarrow> direction \<Rightarrow> corr_state" where
  "on_response S st msg dir =
     (case Option.bind (msg_rpc_id msg) (\<lambda>rid. map_option (Pair rid) (c_pending st (dir, rid))) of
        Some (rid, idx) \<Rightarrow>
          st\<lparr>c_pending := (c_pending st)((dir, rid) := None),
             c_exchanges := (c_exchanges st)[idx := answer S (c_exchanges st ! idx) msg]\<rparr>
      | None \<Rightarrow> st\<lparr>c_exchanges := c_exchanges st @ [orphan msg dir]\<rparr>)"

text \<open>The id a notification refers to: a string or a number at a fixed pointer of its payload.\<close>

definition referenced_id :: "serde \<Rightarrow> stored_message \<Rightarrow> string \<Rightarrow> string option" where
  "referenced_id S msg ptr =
     Option.bind (parse_json S (msg_payload msg)) (\<lambda>payload.
       Option.bind (json_pointer S payload ptr) (\<lambda>rid.
         case rid of
           JString s \<Rightarrow> Some (print_json S rid)
         | JNumber n \<Rightarrow> Some (print_json S rid)
         | _ \<Rightarrow> None))"

definition set_status :: "exchange_status \<Rightarrow> nat \<Rightarrow> corr_state \<Rightarrow> corr_state" where
  "set_status s idx st =
     st\<lparr>c_exchanges := (c_exchanges st)[idx := (c_exchanges st ! idx)\<lparr>ex_status := s\<rparr>]\<rparr>"

definition on_cancelled :: "serde \<Rightarrow> corr_state \<Rightarrow> stored_message \<Rightarrow> direction \<Rightarrow> corr_state" where
  "on_cancelled S st msg dir =
     (if msg_method msg = Some ''notifications/cancelled'' then
        case referenced_id S msg ''/params/requestId'' of
          None \<Rightarrow> st
        | Some rid \<Rightarrow>
            (case c_pending st (opposite dir, rid) of
               None \<Rightarrow> st
             | Some idx \<Rightarrow>
                 set_status Cancelled idx
                   (st\<lparr>c_pending := (c_pending st)((opposite dir, rid) := None)\<rparr>))
      else st)"

definition on_acknowledged :: "serde \<Rightarrow> corr_state \<Rightarrow> stored_message \<Rightarrow> direction \<Rightarrow> corr_state" where
  "on_acknowledged S st msg dir =
     (if dir = ServerToClient \<and>
         msg_method msg = Some ''notifications/subscriptions/acknowledged'' then
        case referenced_id S msg ''/params/_meta/io.modelcontextprotocol~1subscriptionId'' of
          None \<Rightarrow> st
        | Some rid \<Rightarrow>
            (case c_pending st (dir, rid) of
               None \<Rightarrow> st
             | Some idx \<Rightarrow>
                 if ex_origin (c_exchanges st ! idx) = ClientToServer \<and>
                    ex_method (c_exchanges st ! idx) = Some ''subscriptions/listen''
                 then set_status Subscribed idx st
                 else st)
      else st)"

definition on_notification :: "serde \<Rightarrow> corr_state \<Rightarrow> stored_message \<Rightarrow> direction \<Rightarrow> corr_state" where
  "on_notification S st msg dir =
     (let st2 = on_acknowledged S (on_cancelled S st msg dir) msg dir
      in st2\<lparr>c_notifications := c_notifications st2 @
           [\<lparr>nt_seq = msg_seq msg, nt_ts_ns = msg_ts_ns msg, nt_direction = dir,
             nt_method = (case msg_method msg of Some m \<Rightarrow> m | None \<Rightarrow> [])\<rparr>]\<rparr>)"

definition correlate_step :: "serde \<Rightarrow> corr_state \<Rightarrow> stored_message \<Rightarrow> corr_state" where
  "correlate_step S st msg =
     (case from_db_str (msg_direction msg) of
        None \<Rightarrow> st
      | Some dir \<Rightarrow>
          if msg_kind msg = ''request'' then on_request st msg dir
          else if msg_kind msg = ''response'' then on_response S st msg dir
          else if msg_kind msg = ''notification'' then on_notification S st msg dir
          else st)"

fun correlate_loop :: "serde \<Rightarrow> corr_state \<Rightarrow> stored_message list \<Rightarrow> corr_state" where
  "correlate_loop S st [] = st"
| "correlate_loop S st (msg # msgs) = correlate_loop S (correlate_step S st msg) msgs"

definition exchange_key :: "exchange \<Rightarrow> u64" where
  "exchange_key e =
     (case ex_request_seq e of
        Some s \<Rightarrow> s
      | None \<Rightarrow> (case ex_response_seq e of Some s \<Rightarrow> s | None \<Rightarrow> u64_max))"

section \<open>Statistics\<close>

text \<open>\<open>rank as usize\<close> saturates at zero; \<open>saturating_sub\<close> is the subtraction of naturals.\<close>

definition percentile :: "i64 list \<Rightarrow> f64 \<Rightarrow> i64 option" where
  "percentile srt p =
     (if srt = [] then None
      else let n = length srt;
               rank = nat \<lceil>f64_mul p (f64_of_int (int n))\<rceil>;
               idx = min (rank - 1) (n - 1)
           in Some (srt ! idx))"

definition f64_0_50 :: f64 where
  "f64_0_50 = rnd (50 / 100)"

definition f64_0_95 :: f64 where
  "f64_0_95 = rnd (95 / 100)"

definition count_status :: "exchange_status list \<Rightarrow> exchange list \<Rightarrow> usize" where
  "count_status ss es = length (filter (\<lambda>e. ex_status e \<in> set ss) es)"

definition bump :: "(string, usize) btree \<Rightarrow> string \<Rightarrow> (string, usize) btree" where
  "bump m k = bt_insert k (case bt_get m k of None \<Rightarrow> 1 | Some c \<Rightarrow> c + 1) m"

definition tool_counts :: "exchange list \<Rightarrow> (string, usize) btree" where
  "tool_counts es = foldl bump [] (List.map_filter ex_tool_name es)"

text \<open>
  The counts are sorted by count, descending, then by name: a stable sort by count of the entries
  in name order (the hash map's own order does not matter, names are distinct).
\<close>

definition compute_stats :: "exchange list \<Rightarrow> notification_event list \<Rightarrow> session_stats" where
  "compute_stats es ns =
     (let latencies = sort (List.map_filter ex_latency_ns es)
      in \<lparr>total_exchanges = length es,
          ok_count = count_status [Ok, Subscribed] es,
          errors_count = count_status [Error, ToolError] es,
          unanswered_count = count_status [Unanswered] es,
          cancelled_count = count_status [Cancelled] es,
          orphan_responses = count_status [OrphanResponse] es,
          notifications_count = length ns,
          latency_p50_ns = percentile latencies f64_0_50,
          latency_p95_ns = percentile latencies f64_0_95,
          latency_max_ns = (if latencies = [] then None else Some (last latencies)),
          tool_call_counts = sort_key (\<lambda>e. - int (snd e)) (tool_counts es)\<rparr>)"

definition correlate :: "serde \<Rightarrow> stored_message list \<Rightarrow> session_model" where
  "correlate S messages =
     (let st = correlate_loop S corr_init messages;
          es = sort_key exchange_key (c_exchanges st)
      in \<lparr>exchanges = es, notifications = c_notifications st,
          stats = compute_stats es (c_notifications st)\<rparr>)"

section \<open>Capture integrity\<close>

datatype integrity_issue_kind =
    EmptySession | SessionNotClosed | DroppedMessages | NonMonotonicSequence | InvalidPayload
  | InvalidRedactionConfiguration | UnredactedSensitiveValue | UnknownDirection
  | UnknownMessageKind | UnansweredRequest | OrphanResponseIssue

record integrity_issue =
  is_kind :: integrity_issue_kind
  is_seq :: "u64 option"
  is_detail :: string

type_synonym integrity_report = "integrity_issue list"

definition is_healthy :: "integrity_report \<Rightarrow> bool" where
  "is_healthy issues \<longleftrightarrow> issues = []"

definition message_issues ::
  "serde \<Rightarrow> u64 option \<Rightarrow> stored_message \<Rightarrow> integrity_issue list" where
  "message_issues S previous_seq message =
     (case previous_seq of
        Some previous \<Rightarrow>
          if msg_seq message \<le> previous
          then [\<lparr>is_kind = NonMonotonicSequence, is_seq = Some (msg_seq message),
                 is_detail = ''sequence '' @ nat_dec (msg_seq message) @ '' follows '' @ nat_dec previous\<rparr>]
          else []
      | None \<Rightarrow> [])
     @ (if from_db_str (msg_direction message) = None
        then [\<lparr>is_kind = UnknownDirection, is_seq = Some (msg_seq message),
               is_detail = ''unknown direction '' @ msg_direction message\<rparr>]
        else [])
     @ (if msg_kind message \<notin> {''request'', ''response'', ''notification''}
        then [\<lparr>is_kind = UnknownMessageKind, is_seq = Some (msg_seq message),
               is_detail = ''unknown message kind '' @ msg_kind message\<rparr>]
        else [])
     @ (if parse_json S (msg_payload message) = None
        then [\<lparr>is_kind = InvalidPayload, is_seq = Some (msg_seq message),
               is_detail = ''stored payload is not valid JSON''\<rparr>]
        else [])"

fun messages_issues :: "serde \<Rightarrow> u64 option \<Rightarrow> stored_message list \<Rightarrow> integrity_issue list" where
  "messages_issues S prev [] = []"
| "messages_issues S prev (m # ms) =
     message_issues S prev m @ messages_issues S (Some (msg_seq m)) ms"

definition exchange_issues :: "exchange \<Rightarrow> integrity_issue list" where
  "exchange_issues e =
     (case ex_status e of
        Unanswered \<Rightarrow> [\<lparr>is_kind = UnansweredRequest, is_seq = ex_request_seq e,
                        is_detail = ''request has no matching response''\<rparr>]
      | OrphanResponse \<Rightarrow> [\<lparr>is_kind = OrphanResponseIssue, is_seq = ex_response_seq e,
                            is_detail = ''response has no matching request''\<rparr>]
      | _ \<Rightarrow> [])"

definition validate_session :: "serde \<Rightarrow> stored_message list \<Rightarrow> u64 \<Rightarrow> integrity_report" where
  "validate_session S messages dropped_messages =
     (if messages = []
      then [\<lparr>is_kind = EmptySession, is_seq = None,
             is_detail = ''session contains no recorded messages''\<rparr>]
      else [])
     @ (if dropped_messages > 0
        then [\<lparr>is_kind = DroppedMessages, is_seq = None,
               is_detail = ''session dropped '' @ nat_dec dropped_messages @ '' message record(s)''\<rparr>]
        else [])
     @ messages_issues S None messages
     @ concat (map exchange_issues (exchanges (correlate S messages)))"

end
