(* ===== verification/SessionFacts.thy ===== *)
theory SessionFacts
  imports Session
begin

text \<open>
  Lemmas about correlation: the invariant of the loop state, where every exchange comes from, the
  order of the result, and what a healthy integrity report says.
\<close>

section \<open>The shape of an exchange\<close>

definition exchange_ok :: "exchange \<Rightarrow> bool" where
  "exchange_ok e \<longleftrightarrow>
     (case ex_status e of
        OrphanResponse \<Rightarrow> ex_request_seq e = None \<and> ex_response_seq e \<noteq> None \<and>
          ex_request_ts_ns e = None \<and> ex_latency_ns e = None \<and> ex_method e = None \<and> ex_tool_name e = None
      | Unanswered \<Rightarrow> ex_request_seq e \<noteq> None \<and> ex_response_seq e = None \<and> ex_latency_ns e = None \<and>
          ex_request_ts_ns e \<noteq> None \<and> ex_error_code e = None
      | Cancelled \<Rightarrow> ex_request_seq e \<noteq> None \<and> ex_response_seq e = None \<and> ex_latency_ns e = None \<and>
          ex_request_ts_ns e \<noteq> None \<and> ex_error_code e = None
      | Subscribed \<Rightarrow> ex_request_seq e \<noteq> None \<and> ex_response_seq e = None \<and> ex_latency_ns e = None \<and>
          ex_request_ts_ns e \<noteq> None \<and> ex_error_code e = None \<and>
          ex_origin e = ClientToServer \<and> ex_method e = Some ''subscriptions/listen''
      | st \<Rightarrow> ex_request_seq e \<noteq> None \<and> ex_response_seq e \<noteq> None \<and>
          (\<exists>t u. ex_request_ts_ns e = Some t \<and> ex_response_ts_ns e = Some u \<and>
             ex_latency_ns e = Some (wrap_i64 (u - t))) \<and>
          (st = ToolError \<longrightarrow> ex_method e = Some ''tools/call''))"

definition entry_ok :: "exchange list \<Rightarrow> direction \<times> string \<Rightarrow> nat \<Rightarrow> bool" where
  "entry_ok es k i \<longleftrightarrow>
     i < length es \<and> ex_origin (es ! i) = opposite (fst k) \<and> ex_rpc_id (es ! i) = Some (snd k) \<and>
     ex_status (es ! i) \<in> {Unanswered, Subscribed}"

definition pending_ok :: "corr_state \<Rightarrow> bool" where
  "pending_ok st \<longleftrightarrow> (\<forall>k i. c_pending st k = Some i \<longrightarrow> entry_ok (c_exchanges st) k i)"

definition corr_ok :: "corr_state \<Rightarrow> bool" where
  "corr_ok st \<longleftrightarrow> pending_ok st \<and> (\<forall>e \<in> set (c_exchanges st). exchange_ok e)"

lemma entry_ok_append: "entry_ok es k i \<Longrightarrow> entry_ok (es @ es') k i"
  by (auto simp: entry_ok_def nth_append)

lemma entry_ok_other: "entry_ok es k i \<Longrightarrow> i \<noteq> j \<Longrightarrow> entry_ok (es[j := e]) k i"
  by (simp add: entry_ok_def)

lemma pending_okD: "pending_ok st \<Longrightarrow> c_pending st k = Some i \<Longrightarrow> entry_ok (c_exchanges st) k i"
  unfolding pending_ok_def by blast

lemma pending_inj: "pending_ok st \<Longrightarrow> c_pending st k = Some i \<Longrightarrow> c_pending st k' = Some i \<Longrightarrow> k = k'"
  using pending_okD[of st k i] pending_okD[of st k' i] by (auto simp: entry_ok_def prod_eq_iff)

lemma exchange_ok_open:
  "exchange_ok e \<Longrightarrow> ex_status e \<in> {Unanswered, Subscribed} \<Longrightarrow>
     ex_request_seq e \<noteq> None \<and> ex_response_seq e = None \<and> ex_latency_ns e = None \<and>
     ex_request_ts_ns e \<noteq> None \<and> ex_error_code e = None"
  by (auto simp: exchange_ok_def)

lemma corr_init_ok: "corr_ok corr_init"
  by (simp add: corr_ok_def corr_init_def pending_ok_def)

lemma new_request_ok: "exchange_ok (new_request msg dir)"
  by (simp add: exchange_ok_def new_request_def)

lemma orphan_ok: "exchange_ok (orphan msg dir)"
  by (simp add: exchange_ok_def orphan_def)

lemma answer_ok:
  assumes "exchange_ok e" "ex_status e \<in> {Unanswered, Subscribed}"
  shows "exchange_ok (answer S e msg)"
proof -
  from exchange_ok_open[OF assms] obtain q t where
    "ex_request_seq e = Some q" "ex_request_ts_ns e = Some t" by auto
  then show ?thesis
    by (auto simp: exchange_ok_def answer_def response_status_def split: option.splits)
qed

section \<open>Each handler preserves the invariant\<close>

lemma pending_ok_append:
  "pending_ok st \<Longrightarrow> pending_ok (st\<lparr>c_exchanges := c_exchanges st @ es\<rparr>)"
  by (simp add: pending_ok_def entry_ok_append)

lemma pending_ok_open:
  "pending_ok st \<Longrightarrow> entry_ok (c_exchanges st) k i \<Longrightarrow> pending_ok (st\<lparr>c_pending := (c_pending st)(k \<mapsto> i)\<rparr>)"
  by (simp add: pending_ok_def)

lemma pending_ok_close:
  assumes "pending_ok st" "c_pending st k = Some i"
  shows "pending_ok (st\<lparr>c_pending := (c_pending st)(k := None), c_exchanges := (c_exchanges st)[i := e]\<rparr>)"
  unfolding pending_ok_def
proof (intro allI impI)
  fix k' j assume j: "c_pending (st\<lparr>c_pending := (c_pending st)(k := None), c_exchanges := (c_exchanges st)[i := e]\<rparr>) k' = Some j"
  then have "c_pending st k' = Some j" "k' \<noteq> k" by (auto split: if_splits)
  with assms pending_inj[OF assms(1), of k i k'] pending_okD[OF assms(1), of k' j]
  have "entry_ok (c_exchanges st) k' j" "j \<noteq> i" by auto
  then show "entry_ok (c_exchanges (st\<lparr>c_pending := (c_pending st)(k := None), c_exchanges := (c_exchanges st)[i := e]\<rparr>)) k' j"
    by (simp add: entry_ok_other)
qed

lemma entry_ok_status:
  "entry_ok es k j \<Longrightarrow> entry_ok (es[i := (es ! i)\<lparr>ex_status := Subscribed\<rparr>]) k j"
  by (cases "i = j") (auto simp: entry_ok_def)

lemma exchanges_ok_update:
  "\<forall>e \<in> set es. exchange_ok e \<Longrightarrow> exchange_ok e' \<Longrightarrow> \<forall>e \<in> set (es[i := e']). exchange_ok e"
  by (auto dest!: set_update_subset_insert[THEN subsetD])

lemma on_request_ok: "corr_ok st \<Longrightarrow> corr_ok (on_request st msg dir)"
proof -
  assume ok: "corr_ok st"
  let ?st1 = "st\<lparr>c_exchanges := c_exchanges st @ [new_request msg dir]\<rparr>"
  have p1: "pending_ok ?st1" using ok by (simp add: corr_ok_def pending_ok_append)
  have "entry_ok (c_exchanges ?st1) (opposite dir, rid) (length (c_exchanges st))"
    if "msg_rpc_id msg = Some rid" for rid
    using that by (simp add: entry_ok_def new_request_def)
  from pending_ok_open[OF p1 this] p1 show ?thesis
    using ok new_request_ok[of msg dir]
    by (auto simp: on_request_def Let_def corr_ok_def split: option.splits)
qed

lemma on_response_ok: "corr_ok st \<Longrightarrow> corr_ok (on_response S st msg dir)"
proof -
  assume ok: "corr_ok st"
  then have p: "pending_ok st" and e: "\<forall>e \<in> set (c_exchanges st). exchange_ok e" by (simp_all add: corr_ok_def)
  show ?thesis
  proof (cases "Option.bind (msg_rpc_id msg) (\<lambda>rid. map_option (Pair rid) (c_pending st (dir, rid)))")
    case None
    with p e orphan_ok[of msg dir] show ?thesis
      by (simp add: on_response_def corr_ok_def pending_ok_append)
  next
    case (Some ri)
    then obtain rid i where r: "ri = (rid, i)" "c_pending st (dir, rid) = Some i"
      by (auto simp: bind_eq_Some_conv)
    from pending_okD[OF p r(2)] e have "exchange_ok (answer S (c_exchanges st ! i) msg)"
      by (intro answer_ok) (auto simp: entry_ok_def)
    with Some r pending_ok_close[OF p r(2)] exchanges_ok_update[OF e] show ?thesis
      by (simp add: on_response_def corr_ok_def)
  qed
qed

lemma on_cancelled_ok: "corr_ok st \<Longrightarrow> corr_ok (on_cancelled S st msg dir)"
proof -
  assume ok: "corr_ok st"
  then have p: "pending_ok st" and e: "\<forall>e \<in> set (c_exchanges st). exchange_ok e" by (simp_all add: corr_ok_def)
  have "corr_ok (set_status Cancelled i (st\<lparr>c_pending := (c_pending st)(k := None)\<rparr>))"
    if c: "c_pending st k = Some i" for k i
  proof -
    from pending_okD[OF p c] e have "exchange_ok ((c_exchanges st ! i)\<lparr>ex_status := Cancelled\<rparr>)"
      using exchange_ok_open[of "c_exchanges st ! i"] by (auto simp: exchange_ok_def entry_ok_def)
    with exchanges_ok_update[OF e] pending_ok_close[OF p c] show ?thesis
      by (simp add: corr_ok_def set_status_def)
  qed
  with ok show ?thesis by (auto simp: on_cancelled_def split: option.splits)
qed

lemma on_acknowledged_ok: "corr_ok st \<Longrightarrow> corr_ok (on_acknowledged S st msg dir)"
proof -
  assume ok: "corr_ok st"
  then have p: "pending_ok st" and e: "\<forall>e \<in> set (c_exchanges st). exchange_ok e" by (simp_all add: corr_ok_def)
  have "corr_ok (set_status Subscribed i st)"
    if c: "c_pending st k = Some i" "ex_origin (c_exchanges st ! i) = ClientToServer"
      "ex_method (c_exchanges st ! i) = Some ''subscriptions/listen''" for k i
  proof -
    from pending_okD[OF p c(1)] e have "exchange_ok ((c_exchanges st ! i)\<lparr>ex_status := Subscribed\<rparr>)"
      using exchange_ok_open[of "c_exchanges st ! i"] c(2,3) by (auto simp: exchange_ok_def entry_ok_def)
    moreover have "pending_ok (set_status Subscribed i st)"
      using p by (simp add: pending_ok_def set_status_def entry_ok_status)
    ultimately show ?thesis using exchanges_ok_update[OF e]
      by (simp add: corr_ok_def set_status_def)
  qed
  with ok show ?thesis by (auto simp: on_acknowledged_def split: option.splits)
qed

lemma on_notification_ok: "corr_ok st \<Longrightarrow> corr_ok (on_notification S st msg dir)"
  using on_acknowledged_ok[OF on_cancelled_ok, of st S S msg dir msg dir]
  by (simp add: on_notification_def Let_def corr_ok_def pending_ok_def)

lemma correlate_step_ok: "corr_ok st \<Longrightarrow> corr_ok (correlate_step S st msg)"
  by (auto simp: correlate_step_def split: option.splits
      intro: on_request_ok on_response_ok on_notification_ok)

lemma correlate_loop_ok: "corr_ok st \<Longrightarrow> corr_ok (correlate_loop S st msgs)"
  by (induction msgs arbitrary: st) (auto intro: correlate_step_ok)

lemma correlate_exchanges: "set (exchanges (correlate S msgs)) = set (c_exchanges (correlate_loop S corr_init msgs))"
  by (simp add: correlate_def Let_def)

lemma correlate_exchange_ok: "e \<in> set (exchanges (correlate S msgs)) \<Longrightarrow> exchange_ok e"
  using correlate_loop_ok[OF corr_init_ok, of S msgs] by (simp add: correlate_exchanges corr_ok_def)

section \<open>No record is lost and none is invented\<close>

definition somes :: "'a option list \<Rightarrow> 'a list" where
  "somes xs = List.map_filter (\<lambda>x. x) xs"

lemma somes_simps [simp]:
  "somes [] = []" "somes (Some x # xs) = x # somes xs" "somes (None # xs) = somes xs"
  by (simp_all add: somes_def List.map_filter_simps)

lemma somes_append [simp]: "somes (xs @ ys) = somes xs @ somes ys"
  by (induction xs) (auto split: option.splits simp: somes_def List.map_filter_simps)

lemma mset_somes_set:
  assumes "i < length xs" "xs ! i = None"
  shows "mset (somes (xs[i := Some v])) = add_mset v (mset (somes xs))"
proof -
  have "xs = take i xs @ None # drop (Suc i) xs" using id_take_nth_drop[OF assms(1)] assms(2) by simp
  then have "somes xs = somes (take i xs) @ somes (drop (Suc i) xs)"
    by (metis somes_append somes_simps(3))
  then show ?thesis using assms(1) by (simp add: upd_conv_take_nth_drop)
qed

lemma mset_somes: "mset (somes xs) = image_mset the (filter_mset (\<lambda>x. x \<noteq> None) (mset xs))"
  by (simp add: somes_def List.map_filter_def mset_filter comp_def)

definition known_kind :: "string \<Rightarrow> stored_message \<Rightarrow> bool" where
  "known_kind k m \<longleftrightarrow> from_db_str (msg_direction m) \<noteq> None \<and> msg_kind m = k"

abbreviation req_seqs :: "corr_state \<Rightarrow> u64 list" where
  "req_seqs st \<equiv> somes (map ex_request_seq (c_exchanges st))"

abbreviation resp_seqs :: "corr_state \<Rightarrow> u64 list" where
  "resp_seqs st \<equiv> somes (map ex_response_seq (c_exchanges st))"

lemma set_status_seqs:
  "i < length (c_exchanges st) \<Longrightarrow>
     map ex_request_seq (c_exchanges (set_status s i st)) = map ex_request_seq (c_exchanges st) \<and>
     map ex_response_seq (c_exchanges (set_status s i st)) = map ex_response_seq (c_exchanges st) \<and>
     c_notifications (set_status s i st) = c_notifications st"
  by (auto simp: set_status_def map_update intro!: nth_equalityI simp: nth_list_update)

lemma on_cancelled_seqs:
  assumes "corr_ok st"
  shows "map ex_request_seq (c_exchanges (on_cancelled S st msg dir)) = map ex_request_seq (c_exchanges st) \<and>
     map ex_response_seq (c_exchanges (on_cancelled S st msg dir)) = map ex_response_seq (c_exchanges st) \<and>
     c_notifications (on_cancelled S st msg dir) = c_notifications st"
proof -
  have "i < length (c_exchanges st)" if "c_pending st k = Some i" for k i
    using assms that pending_okD by (auto simp: corr_ok_def entry_ok_def)
  then show ?thesis
    using set_status_seqs[of _ "st\<lparr>c_pending := _\<rparr>"] by (auto simp: on_cancelled_def split: option.splits)
qed

lemma on_acknowledged_seqs:
  assumes "corr_ok st"
  shows "map ex_request_seq (c_exchanges (on_acknowledged S st msg dir)) = map ex_request_seq (c_exchanges st) \<and>
     map ex_response_seq (c_exchanges (on_acknowledged S st msg dir)) = map ex_response_seq (c_exchanges st) \<and>
     c_notifications (on_acknowledged S st msg dir) = c_notifications st"
proof -
  have "i < length (c_exchanges st)" if "c_pending st k = Some i" for k i
    using assms that pending_okD by (auto simp: corr_ok_def entry_ok_def)
  then show ?thesis
    using set_status_seqs[of _ st] by (auto simp: on_acknowledged_def split: option.splits)
qed

lemma on_response_seqs:
  assumes "corr_ok st"
  shows "req_seqs (on_response S st msg dir) = req_seqs st \<and>
     mset (resp_seqs (on_response S st msg dir)) = add_mset (msg_seq msg) (mset (resp_seqs st)) \<and>
     c_notifications (on_response S st msg dir) = c_notifications st"
proof (cases "Option.bind (msg_rpc_id msg) (\<lambda>rid. map_option (Pair rid) (c_pending st (dir, rid)))")
  case None
  then show ?thesis by (simp add: on_response_def orphan_def)
next
  case (Some ri)
  then obtain rid i where r: "ri = (rid, i)" "c_pending st (dir, rid) = Some i"
    by (auto simp: bind_eq_Some_conv)
  with assms have i: "i < length (c_exchanges st)" "ex_status (c_exchanges st ! i) \<in> {Unanswered, Subscribed}"
    using pending_okD by (auto simp: corr_ok_def entry_ok_def)
  with assms have "ex_response_seq (c_exchanges st ! i) = None"
    using exchange_ok_open by (auto simp: corr_ok_def)
  with i have "mset (somes ((map ex_response_seq (c_exchanges st))[i := Some (msg_seq msg)]))
      = add_mset (msg_seq msg) (mset (resp_seqs st))"
    by (intro mset_somes_set) auto
  moreover have "map ex_request_seq ((c_exchanges st)[i := answer S (c_exchanges st ! i) msg])
      = map ex_request_seq (c_exchanges st)"
    using i by (auto simp: answer_def intro!: nth_equalityI simp: nth_list_update)
  ultimately show ?thesis using Some r by (simp add: on_response_def map_update answer_def)
qed

lemma correlate_step_seqs:
  assumes "corr_ok st"
  shows "req_seqs (correlate_step S st m) = req_seqs st @ (if known_kind ''request'' m then [msg_seq m] else [])"
    and "mset (resp_seqs (correlate_step S st m)) =
      mset (resp_seqs st) + mset (if known_kind ''response'' m then [msg_seq m] else [])"
    and "map nt_seq (c_notifications (correlate_step S st m)) =
      map nt_seq (c_notifications st) @ (if known_kind ''notification'' m then [msg_seq m] else [])"
  using assms on_response_seqs[OF assms, of S m] on_cancelled_seqs[OF assms, of S m]
    on_acknowledged_seqs[OF on_cancelled_ok[OF assms], of S S m _ m]
  by (auto simp: correlate_step_def known_kind_def on_request_def Let_def new_request_def
      on_notification_def split: option.splits)

lemma correlate_loop_seqs:
  "corr_ok st \<Longrightarrow>
     req_seqs (correlate_loop S st ms) = req_seqs st @ map msg_seq (filter (known_kind ''request'') ms) \<and>
     mset (resp_seqs (correlate_loop S st ms)) =
       mset (resp_seqs st) + mset (map msg_seq (filter (known_kind ''response'') ms)) \<and>
     map nt_seq (c_notifications (correlate_loop S st ms)) =
       map nt_seq (c_notifications st) @ map msg_seq (filter (known_kind ''notification'') ms)"
proof (induction ms arbitrary: st)
  case (Cons m ms)
  show ?case
    using Cons.IH[OF correlate_step_ok[OF Cons.prems, of S m]]
      correlate_step_seqs[OF Cons.prems, of S m]
    by auto
qed simp

lemma mset_somes_sorted:
  "mset (somes (map f (exchanges (correlate S ms)))) = mset (somes (map f (c_exchanges (correlate_loop S corr_init ms))))"
  by (simp add: correlate_def Let_def mset_somes flip: mset_map) (simp add: mset_somes)

section \<open>Where an exchange comes from\<close>

definition from_request :: "exchange \<Rightarrow> stored_message \<Rightarrow> bool" where
  "from_request e r \<longleftrightarrow>
     msg_kind r = ''request'' \<and> from_db_str (msg_direction r) = Some (ex_origin e) \<and>
     ex_request_seq e = Some (msg_seq r) \<and> ex_rpc_id e = msg_rpc_id r \<and> ex_method e = msg_method r \<and>
     ex_tool_name e = msg_tool_name r \<and> ex_request_ts_ns e = Some (msg_ts_ns r)"

definition from_response :: "exchange \<Rightarrow> stored_message \<Rightarrow> bool" where
  "from_response e s \<longleftrightarrow>
     msg_kind s = ''response'' \<and> from_db_str (msg_direction s) = Some (opposite (ex_origin e)) \<and>
     ex_response_seq e = Some (msg_seq s) \<and> ex_rpc_id e = msg_rpc_id s \<and>
     ex_error_code e = msg_error_code s \<and> ex_response_ts_ns e = Some (msg_ts_ns s)"

definition provenance :: "serde \<Rightarrow> stored_message list \<Rightarrow> exchange \<Rightarrow> bool" where
  "provenance S ms e \<longleftrightarrow>
     (if ex_status e = OrphanResponse then \<exists>s \<in> set ms. from_response e s
      else if ex_status e \<in> {Unanswered, Cancelled, Subscribed} then \<exists>r \<in> set ms. from_request e r
      else \<exists>xs r ys s zs. ms = xs @ r # ys @ s # zs \<and> from_request e r \<and> from_response e s \<and>
             ex_rpc_id e \<noteq> None \<and> ex_status e = response_status S e s)"

lemma provenance_mono: "provenance S ms e \<Longrightarrow> provenance S (ms @ [m]) e"
  unfolding provenance_def by (auto split: if_splits) (metis append_Cons append_assoc)+

lemma provenance_status:
  "provenance S ms e \<Longrightarrow> ex_status e \<in> {Unanswered, Subscribed} \<Longrightarrow> s \<in> {Cancelled, Subscribed} \<Longrightarrow>
     provenance S ms (e\<lparr>ex_status := s\<rparr>)"
  by (auto simp: provenance_def from_request_def)

lemma provenance_answeredI:
  "ms = xs @ r # ys @ s # zs \<Longrightarrow> from_request e r \<Longrightarrow> from_response e s \<Longrightarrow> ex_rpc_id e \<noteq> None \<Longrightarrow>
     ex_status e = response_status S e s \<Longrightarrow> ex_status e \<in> {Ok, Error, ToolError} \<Longrightarrow> provenance S ms e"
  unfolding provenance_def by (simp, blast)

lemma response_status_answered: "response_status S e m \<in> {Ok, Error, ToolError}"
  by (simp add: response_status_def)

lemma provenance_answer:
  assumes "provenance S ms e" "ex_status e \<in> {Unanswered, Subscribed}" "msg_kind m = ''response''"
    "from_db_str (msg_direction m) = Some (opposite (ex_origin e))" "ex_rpc_id e = msg_rpc_id m"
    "msg_rpc_id m \<noteq> None"
  shows "provenance S (ms @ [m]) (answer S e m)"
proof -
  from assms(1,2) obtain r where r: "r \<in> set ms" "from_request e r" by (auto simp: provenance_def)
  then obtain xs ys where at: "ms @ [m] = xs @ r # ys @ m # []" by (metis append_Cons append_assoc split_list)
  have "from_request (answer S e m) r" "from_response (answer S e m) m"
    using r(2) assms by (auto simp: from_request_def from_response_def answer_def)
  moreover have "ex_status (answer S e m) = response_status S (answer S e m) m"
    by (simp add: answer_def response_status_def)
  moreover have "ex_status (answer S e m) \<in> {Ok, Error, ToolError}"
    using response_status_answered[of S e m] by (simp add: answer_def)
  moreover have "ex_rpc_id (answer S e m) \<noteq> None" using assms(5,6) by (simp add: answer_def)
  ultimately show ?thesis by (intro provenance_answeredI[OF at])
qed

definition all_from :: "serde \<Rightarrow> stored_message list \<Rightarrow> corr_state \<Rightarrow> bool" where
  "all_from S ms st \<longleftrightarrow> (\<forall>e \<in> set (c_exchanges st). provenance S ms e)"

lemma all_from_update:
  "all_from S ms st \<Longrightarrow> provenance S ms e \<Longrightarrow> c_exchanges st' = (c_exchanges st)[i := e] \<Longrightarrow> all_from S ms st'"
  by (auto simp: all_from_def dest!: set_update_subset_insert[THEN subsetD])

lemma pending_entry:
  "corr_ok st \<Longrightarrow> all_from S ms st \<Longrightarrow> c_pending st k = Some i \<Longrightarrow>
     provenance S ms (c_exchanges st ! i) \<and> ex_status (c_exchanges st ! i) \<in> {Unanswered, Subscribed} \<and>
     ex_origin (c_exchanges st ! i) = opposite (fst k) \<and> ex_rpc_id (c_exchanges st ! i) = Some (snd k)"
  using pending_okD[of st k i] by (auto simp: corr_ok_def entry_ok_def all_from_def)

lemma on_request_from:
  assumes "all_from S ms st" "msg_kind m = ''request''" "from_db_str (msg_direction m) = Some dir"
  shows "all_from S (ms @ [m]) (on_request st m dir)"
proof -
  have "provenance S (ms @ [m]) (new_request m dir)"
    using assms by (simp add: provenance_def new_request_def from_request_def)
  with assms(1) show ?thesis
    by (auto simp: all_from_def on_request_def Let_def provenance_mono split: option.splits)
qed

lemma on_response_from:
  assumes "corr_ok st" "all_from S ms st" "msg_kind m = ''response''" "from_db_str (msg_direction m) = Some dir"
  shows "all_from S (ms @ [m]) (on_response S st m dir)"
proof (cases "Option.bind (msg_rpc_id m) (\<lambda>rid. map_option (Pair rid) (c_pending st (dir, rid)))")
  case None
  have "provenance S (ms @ [m]) (orphan m dir)"
    using assms by (simp add: provenance_def orphan_def from_response_def)
  with assms(2) None show ?thesis by (auto simp: all_from_def on_response_def provenance_mono)
next
  case (Some ri)
  then obtain rid i where r: "ri = (rid, i)" "c_pending st (dir, rid) = Some i" "msg_rpc_id m = Some rid"
    by (auto simp: bind_eq_Some_conv)
  from pending_entry[OF assms(1,2) r(2)] assms(3,4) r(3)
  have "provenance S (ms @ [m]) (answer S (c_exchanges st ! i) m)"
    by (intro provenance_answer) auto
  moreover have "all_from S (ms @ [m]) st" using assms(2) by (auto simp: all_from_def provenance_mono)
  moreover have "c_exchanges (on_response S st m dir) = (c_exchanges st)[i := answer S (c_exchanges st ! i) m]"
    using Some r(1) by (simp add: on_response_def)
  ultimately show ?thesis using all_from_update by blast
qed

lemma on_cancelled_from:
  assumes "corr_ok st" "all_from S ms st" shows "all_from S ms (on_cancelled S st m dir)"
proof -
  have "all_from S ms (set_status Cancelled i (st\<lparr>c_pending := p\<rparr>))" if "c_pending st k = Some i" for k i p
    using pending_entry[OF assms that]
    by (intro all_from_update[OF assms(2) provenance_status[where s = Cancelled]]) (auto simp: set_status_def)
  with assms(2) show ?thesis by (auto simp: on_cancelled_def split: option.splits)
qed

lemma on_acknowledged_from:
  assumes "corr_ok st" "all_from S ms st" shows "all_from S ms (on_acknowledged S st m dir)"
proof -
  have "all_from S ms (set_status Subscribed i st)" if "c_pending st k = Some i" for k i
    using pending_entry[OF assms that]
    by (intro all_from_update[OF assms(2) provenance_status[where s = Subscribed]]) (auto simp: set_status_def)
  with assms(2) show ?thesis by (auto simp: on_acknowledged_def split: option.splits)
qed

lemma correlate_step_from:
  assumes "corr_ok st" "all_from S ms st"
  shows "all_from S (ms @ [m]) (correlate_step S st m)"
proof -
  have mono: "all_from S (ms @ [m]) st'" if "all_from S ms st'" for st'
    using that by (auto simp: all_from_def provenance_mono)
  have "all_from S (ms @ [m]) (on_notification S st m dir)" for dir
    using mono[OF on_acknowledged_from[OF on_cancelled_ok[OF assms(1), of S m dir]
        on_cancelled_from[OF assms, of m dir], of m dir]]
    by (simp add: on_notification_def Let_def all_from_def)
  with mono[OF assms(2)] on_request_from[OF assms(2)] on_response_from[OF assms]
  show ?thesis by (auto simp: correlate_step_def split: option.splits)
qed

lemma correlate_loop_from:
  "corr_ok st \<Longrightarrow> all_from S pre st \<Longrightarrow> all_from S (pre @ ms) (correlate_loop S st ms)"
proof (induction ms arbitrary: st pre)
  case (Cons m ms)
  from Cons.IH[OF correlate_step_ok[OF Cons.prems(1)] correlate_step_from[OF Cons.prems]]
  show ?case by simp
qed simp

lemma correlate_all_from: "e \<in> set (exchanges (correlate S ms)) \<Longrightarrow> provenance S ms e"
  using correlate_loop_from[OF corr_init_ok, of S "[]" ms]
  by (simp add: correlate_exchanges all_from_def corr_init_def)

end
