(* ===== verification/SessionMatch.thy ===== *)
theory SessionMatch
  imports SessionFacts
begin

text \<open>
  What correlation promises, stated on the log alone: the request a reply answers is the latest one
  of its direction and id that nothing has closed since.  The loop's table of open requests
  implements that specification, and every reply with an open request is matched to it.
\<close>

section \<open>The specification: the latest open request\<close>

definition opens :: "stored_message \<Rightarrow> direction \<times> string \<Rightarrow> bool" where
  "opens m k \<longleftrightarrow>
     msg_kind m = ''request'' \<and> from_db_str (msg_direction m) = Some (opposite (fst k)) \<and>
     msg_rpc_id m = Some (snd k)"

definition closes :: "serde \<Rightarrow> stored_message \<Rightarrow> direction \<times> string \<Rightarrow> bool" where
  "closes S m k \<longleftrightarrow>
     (msg_kind m = ''response'' \<and> from_db_str (msg_direction m) = Some (fst k) \<and>
      msg_rpc_id m = Some (snd k)) \<or>
     (msg_kind m = ''notification'' \<and> from_db_str (msg_direction m) = Some (opposite (fst k)) \<and>
      msg_method m = Some ''notifications/cancelled'' \<and>
      referenced_id S m ''/params/requestId'' = Some (snd k))"

fun open_request ::
  "serde \<Rightarrow> direction \<times> string \<Rightarrow> stored_message option \<Rightarrow> stored_message list \<Rightarrow> stored_message option" where
  "open_request S k cur [] = cur"
| "open_request S k cur (m # ms) =
     open_request S k (if opens m k then Some m else if closes S m k then None else cur) ms"

section \<open>The table refines the specification\<close>

definition tracks :: "corr_state \<Rightarrow> direction \<times> string \<Rightarrow> stored_message option \<Rightarrow> bool" where
  "tracks st k cur \<longleftrightarrow>
     (case c_pending st k of
        None \<Rightarrow> cur = None
      | Some i \<Rightarrow> \<exists>r. cur = Some r \<and> from_request (c_exchanges st ! i) r)"

lemma kinds_distinct [simp]:
  "''request'' \<noteq> ''response''" "''request'' \<noteq> ''notification''" "''response'' \<noteq> ''notification''"
  "''response'' \<noteq> ''request''" "''notification'' \<noteq> ''request''" "''notification'' \<noteq> ''response''"
  by simp_all

lemma key_cases: "fst k = d \<and> snd k = r \<longleftrightarrow> k = (d, r)"
  by (cases k) auto

lemma pending_lt: "corr_ok st \<Longrightarrow> c_pending st k = Some i \<Longrightarrow> i < length (c_exchanges st)"
  using pending_okD[of st k i] by (simp add: corr_ok_def entry_ok_def)

lemma tracks_request:
  assumes "corr_ok st" "tracks st k cur" "msg_kind m = ''request''" "from_db_str (msg_direction m) = Some dir"
  shows "tracks (on_request st m dir) k (if opens m k then Some m else cur)"
proof -
  have "from_request (new_request m dir) m"
    using assms by (simp add: from_request_def new_request_def)
  moreover have "opens m k \<longleftrightarrow> msg_rpc_id m = Some (snd k) \<and> fst k = opposite dir"
    using assms(3,4) by (auto simp: opens_def)
  ultimately show ?thesis
    using assms(2) pending_lt[OF assms(1)]
    by (cases k) (auto simp: tracks_def on_request_def Let_def nth_append split: option.splits)
qed

lemma tracks_response:
  assumes "corr_ok st" "tracks st k cur" "msg_kind m = ''response''" "from_db_str (msg_direction m) = Some dir"
  shows "tracks (on_response S st m dir) k (if closes S m k then None else cur)"
proof -
  have c: "closes S m k \<longleftrightarrow> msg_rpc_id m = Some (snd k) \<and> fst k = dir"
    using assms(3,4) by (auto simp: closes_def)
  show ?thesis
  proof (cases "Option.bind (msg_rpc_id m) (\<lambda>rid. map_option (Pair rid) (c_pending st (dir, rid)))")
    case None
    then have "closes S m k \<Longrightarrow> c_pending st k = None"
      unfolding c by (cases k) (auto simp: bind_eq_None_conv)
    with None assms(2) pending_lt[OF assms(1)] show ?thesis
      by (auto simp: tracks_def on_response_def nth_append split: option.splits)
  next
    case (Some ri)
    then obtain rid i where r: "ri = (rid, i)" "c_pending st (dir, rid) = Some i" "msg_rpc_id m = Some rid"
      by (auto simp: bind_eq_Some_conv)
    have other: "k \<noteq> (dir, rid) \<Longrightarrow> c_pending st k = Some j \<Longrightarrow> j \<noteq> i" for j
      using pending_inj[of st "(dir, rid)" i k] r(2) assms(1) by (auto simp: corr_ok_def)
    have "closes S m k \<longleftrightarrow> k = (dir, rid)" unfolding c using r(3) by (cases k) auto
    with Some r assms(2) other show ?thesis
      by (auto simp: tracks_def on_response_def split: option.splits)
  qed
qed

lemma from_request_status [simp]: "from_request (e\<lparr>ex_status := s\<rparr>) r \<longleftrightarrow> from_request e r"
  by (simp add: from_request_def)

lemma tracks_set_status: "tracks st k cur \<Longrightarrow> tracks (set_status s i st) k cur"
  by (auto simp: tracks_def set_status_def nth_list_update split: option.splits)
     (metis from_request_status list_update_beyond not_le_imp_less nth_list_update)

lemma tracks_cancelled:
  assumes "corr_ok st" "tracks st k cur" "msg_kind m = ''notification''" "from_db_str (msg_direction m) = Some dir"
  shows "tracks (on_cancelled S st m dir) k (if closes S m k then None else cur)"
proof -
  have c: "closes S m k \<longleftrightarrow> msg_method m = Some ''notifications/cancelled'' \<and>
      referenced_id S m ''/params/requestId'' = Some (snd k) \<and> fst k = opposite dir"
    using assms(3,4) by (auto simp: closes_def)
  show ?thesis
  proof (cases "msg_method m = Some ''notifications/cancelled''")
    case False
    then show ?thesis using assms(2) by (simp add: on_cancelled_def c)
  next
    case True
    show ?thesis
    proof (cases "referenced_id S m ''/params/requestId''")
      case None
      then show ?thesis using assms(2) by (simp add: on_cancelled_def c)
    next
      case (Some rid)
      have key: "closes S m k \<longleftrightarrow> k = (opposite dir, rid)" unfolding c using True Some by (cases k) auto
      show ?thesis
      proof (cases "c_pending st (opposite dir, rid)")
        case None
        with True Some assms(2) key show ?thesis by (auto simp: on_cancelled_def tracks_def)
      next
        case (Some i)
        let ?st = "st\<lparr>c_pending := (c_pending st)((opposite dir, rid) := None)\<rparr>"
        have "tracks ?st k (if closes S m k then None else cur)"
          using assms(2) key by (auto simp: tracks_def split: option.splits)
        then have "tracks (set_status Cancelled i ?st) k (if closes S m k then None else cur)"
          by (rule tracks_set_status)
        with True \<open>referenced_id S m _ = _\<close> Some show ?thesis by (simp add: on_cancelled_def)
      qed
    qed
  qed
qed

lemma tracks_acknowledged: "tracks st k cur \<Longrightarrow> tracks (on_acknowledged S st m dir) k cur"
  by (auto simp: on_acknowledged_def tracks_set_status split: option.splits)

lemma tracks_notifications [simp]: "tracks (st\<lparr>c_notifications := ns\<rparr>) k cur \<longleftrightarrow> tracks st k cur"
  by (simp add: tracks_def split: option.splits)

lemma tracks_step:
  assumes "corr_ok st" "tracks st k cur"
  shows "tracks (correlate_step S st m) k (if opens m k then Some m else if closes S m k then None else cur)"
proof (cases "from_db_str (msg_direction m)")
  case None
  then show ?thesis using assms(2) by (simp add: correlate_step_def opens_def closes_def)
next
  case (Some dir)
  consider "msg_kind m = ''request''" | "msg_kind m = ''response''" | "msg_kind m = ''notification''"
    | "msg_kind m \<notin> {''request'', ''response'', ''notification''}" by blast
  then show ?thesis
  proof cases
    case 1
    then have "\<not> closes S m k" by (simp add: closes_def)
    with 1 Some tracks_request[OF assms 1 Some] show ?thesis by (simp add: correlate_step_def split: if_splits)
  next
    case 2
    then have "\<not> opens m k" by (simp add: opens_def)
    with 2 Some tracks_response[OF assms 2 Some] show ?thesis by (simp add: correlate_step_def)
  next
    case 3
    then have "\<not> opens m k" by (simp add: opens_def)
    with 3 Some tracks_acknowledged[OF tracks_cancelled[OF assms 3 Some]] show ?thesis
      by (simp add: correlate_step_def on_notification_def Let_def)
  next
    case 4
    then show ?thesis using Some assms(2) by (simp add: correlate_step_def opens_def closes_def)
  qed
qed

lemma tracks_loop:
  "corr_ok st \<Longrightarrow> tracks st k cur \<Longrightarrow> tracks (correlate_loop S st ms) k (open_request S k cur ms)"
  by (induction ms arbitrary: st cur) (simp_all add: correlate_step_ok tracks_step)

lemma tracks_init: "tracks corr_init k None"
  by (simp add: tracks_def corr_init_def)

section \<open>A settled exchange never changes\<close>

definition settled :: "exchange \<Rightarrow> bool" where
  "settled e \<longleftrightarrow> ex_status e \<notin> {Unanswered, Subscribed}"

lemma step_keeps_settled:
  assumes "corr_ok st" "e \<in> set (c_exchanges st)" "settled e"
  shows "e \<in> set (c_exchanges (correlate_step S st m))"
proof -
  obtain j where j: "j < length (c_exchanges st)" "c_exchanges st ! j = e"
    using assms(2) by (auto simp: in_set_conv_nth)
  have keep: "e \<in> set ((c_exchanges st)[i := x])" if "c_pending st k = Some i" for k i x
  proof -
    from that assms(1,3) j have "i \<noteq> j"
      using pending_okD[of st k i] by (auto simp: corr_ok_def entry_ok_def settled_def)
    with j have "(c_exchanges st)[i := x] ! j = e" by simp
    with j show ?thesis by (metis length_list_update nth_mem)
  qed
  have canc: "e \<in> set (c_exchanges (on_cancelled S st m dir))" for dir
    using assms(2) keep by (auto simp: on_cancelled_def set_status_def split: option.splits)
  have "e \<in> set (c_exchanges (on_acknowledged S (on_cancelled S st m dir) m dir))" for dir
  proof -
    have ok: "corr_ok (on_cancelled S st m dir)" by (rule on_cancelled_ok[OF assms(1)])
    obtain l where l: "l < length (c_exchanges (on_cancelled S st m dir))"
      "c_exchanges (on_cancelled S st m dir) ! l = e" using canc by (auto simp: in_set_conv_nth)
    have "e \<in> set ((c_exchanges (on_cancelled S st m dir))[i := x])"
      if "c_pending (on_cancelled S st m dir) k = Some i" for k i x
    proof -
      from that ok assms(3) l have "i \<noteq> l"
        using pending_okD[of "on_cancelled S st m dir" k i] by (auto simp: corr_ok_def entry_ok_def settled_def)
      with l show ?thesis by (metis length_list_update nth_list_update_neq nth_mem)
    qed
    with canc show ?thesis
      by (auto simp: on_acknowledged_def set_status_def split: option.splits)
  qed
  with assms(2) keep show ?thesis
    by (auto simp: correlate_step_def on_request_def on_response_def on_notification_def Let_def
        bind_eq_Some_conv split: option.splits)
qed

lemma loop_keeps_settled:
  "corr_ok st \<Longrightarrow> e \<in> set (c_exchanges st) \<Longrightarrow> settled e \<Longrightarrow> e \<in> set (c_exchanges (correlate_loop S st ms))"
  by (induction ms arbitrary: st) (auto simp: correlate_step_ok step_keeps_settled)

lemma correlate_loop_append:
  "correlate_loop S st (xs @ ys) = correlate_loop S (correlate_loop S st xs) ys"
  by (induction xs arbitrary: st) auto

text \<open>A reply answers the request that is open for it, and an orphan records that none was.\<close>

lemma response_step:
  assumes "corr_ok st" "tracks st (dir, rid) cur" "msg_kind m = ''response''"
    "from_db_str (msg_direction m) = Some dir" "msg_rpc_id m = Some rid"
  shows "case cur of
      Some r \<Rightarrow> \<exists>e \<in> set (c_exchanges (correlate_step S st m)).
        from_request e r \<and> from_response e m \<and> ex_status e \<in> {Ok, Error, ToolError}
    | None \<Rightarrow> orphan m dir \<in> set (c_exchanges (correlate_step S st m))"
proof (cases "c_pending st (dir, rid)")
  case None
  with assms show ?thesis
    by (simp add: tracks_def correlate_step_def on_response_def)
next
  case (Some i)
  with assms(2) obtain r where r: "cur = Some r" "from_request (c_exchanges st ! i) r" by (auto simp: tracks_def)
  from pending_okD[of st "(dir, rid)" i] Some assms(1)
  have i: "i < length (c_exchanges st)" "ex_origin (c_exchanges st ! i) = opposite dir"
    "ex_rpc_id (c_exchanges st ! i) = Some rid" by (auto simp: corr_ok_def entry_ok_def)
  let ?e = "answer S (c_exchanges st ! i) m"
  have "c_exchanges (correlate_step S st m) = (c_exchanges st)[i := ?e]"
    using Some assms(3-5) by (simp add: correlate_step_def on_response_def)
  then have "?e \<in> set (c_exchanges (correlate_step S st m))" using i(1) by (simp add: set_update_memI)
  moreover have "from_request ?e r" using r(2) by (simp add: from_request_def answer_def)
  moreover have "from_response ?e m" using i assms(3-5) by (simp add: from_response_def answer_def)
  moreover have "ex_status ?e \<in> {Ok, Error, ToolError}"
    using response_status_answered[of S "c_exchanges st ! i" m] by (simp add: answer_def)
  ultimately show ?thesis using r(1) by auto
qed

end
