(* ===== verification/StatsFacts.thy ===== *)
theory StatsFacts
  imports SessionFacts
begin

text \<open>
  Lemmas about the aggregates: the status counters partition the exchanges, the percentiles of the
  code's \<open>f64\<close> arithmetic are the exact nearest-rank ones, and the tool counts add up.
\<close>

section \<open>Counters\<close>

lemma count_status_partition:
  "count_status [Ok, Subscribed] es + count_status [Error, ToolError] es + count_status [Unanswered] es
     + count_status [Cancelled] es + count_status [OrphanResponse] es = length es"
proof (induction es)
  case (Cons e es)
  then show ?case by (cases "ex_status e") (simp_all add: count_status_def)
qed (simp add: count_status_def)

definition sum_counts :: "(string, usize) btree \<Rightarrow> nat" where
  "sum_counts m = sum_list (map snd m)"

lemma sum_counts_insert:
  "bt_wf m \<Longrightarrow> sum_counts (bt_insert k v m) + (case bt_get m k of Some c \<Rightarrow> c | None \<Rightarrow> 0) = sum_counts m + v"
proof (induction m)
  case (Cons e m)
  then have e: "\<forall>k \<in> fst ` set m. fst e < k" and m: "bt_wf m" by (simp_all add: bt_wf_Cons)
  have none: "k \<le> fst e \<Longrightarrow> map_of m k = None"
    using e by (auto simp: map_of_eq_None_iff)
  show ?case using Cons.IH[OF m] none
    by (cases e) (auto simp: sum_counts_def bt_get_def split: option.splits)
qed (simp add: sum_counts_def bt_get_def)

lemma bump_wf: "bt_wf m \<Longrightarrow> bt_wf (bump m k)"
  by (simp add: bump_def bt_wf_insert)

lemma bump_sum: "bt_wf m \<Longrightarrow> sum_counts (bump m k) = Suc (sum_counts m)"
  using sum_counts_insert[of m k "case bt_get m k of None \<Rightarrow> 1 | Some c \<Rightarrow> c + 1"]
  by (simp add: bump_def split: option.splits)

lemma bump_get: "bt_wf m \<Longrightarrow> bt_get (bump m k) k' =
    (if k' = k then Some (case bt_get m k of None \<Rightarrow> 1 | Some c \<Rightarrow> c + 1) else bt_get m k')"
  by (simp add: bump_def bt_get_insert_le)

lemma foldl_bump:
  "bt_wf m \<Longrightarrow> bt_wf (foldl bump m ks) \<and> sum_counts (foldl bump m ks) = sum_counts m + length ks"
  by (induction ks arbitrary: m) (auto simp: bump_wf bump_sum)

lemma foldl_bump_get:
  "bt_wf m \<Longrightarrow> bt_get (foldl bump m ks) k =
     (if count_list ks k = 0 then bt_get m k
      else Some ((case bt_get m k of None \<Rightarrow> 0 | Some c \<Rightarrow> c) + count_list ks k))"
proof (induction ks arbitrary: m)
  case (Cons a ks)
  from Cons.IH[OF bump_wf[OF Cons.prems]] Cons.prems show ?case
    by (auto simp: bump_get split: option.splits)
qed simp

lemma tool_counts_wf: "bt_wf (tool_counts es)"
  using foldl_bump[of "[]"] by (simp add: tool_counts_def)

lemma tool_counts_get:
  "bt_get (tool_counts es) t = (let n = count_list (List.map_filter ex_tool_name es) t in if n = 0 then None else Some n)"
  using foldl_bump_get[of "[]" "List.map_filter ex_tool_name es" t]
  by (auto simp: tool_counts_def bt_get_def Let_def)

section \<open>Percentiles\<close>

lemma percentile_Some: "srt \<noteq> [] \<Longrightarrow> \<exists>i < length srt. percentile srt p = Some (srt ! i)"
  unfolding percentile_def Let_def
  by (simp, rule exI[where x = "min (nat \<lceil>f64_mul p (f64_of_int (int (length srt)))\<rceil> - 1) (length srt - 1)"])
     (simp add: min_less_iff_disj)

text \<open>
  The ratio \<open>v\<close> stands for \<open>a / 100\<close> as a double: not above it and within \<open>2 ^ -52\<close> of it.  Then
  the rounded product has the same ceiling as the exact one.
\<close>

lemma ceiling_rounded_product:
  assumes v: "0 < v" "v \<le> of_int a / 100" "of_int a / 100 - v \<le> 1 / 2 ^ 52"
    and a: "a \<le> 100" and n: "0 < n" "n < 2 ^ 40"
  shows "\<lceil>rnd (v * of_int n)\<rceil> = \<lceil>of_int (a * n) / (100 :: rat)\<rceil>"
proof -
  define t where "t = of_int (a * n) / (100 :: rat)"
  define q where "q = v * of_int n"
  have nr: "0 < (of_int n :: rat)" "(of_int n :: rat) \<le> 2 ^ 40"
    using n by (simp, metis less_imp_le of_int_le_iff of_int_numeral of_int_power)
  have q: "0 < q" using v(1) nr by (simp add: q_def)
  have tq: "t = (of_int a / 100) * of_int n" by (simp add: t_def)
  have "q \<le> t" unfolding q_def tq using v(2) nr by (intro mult_right_mono) auto
  moreover have "t - q = (of_int a / 100 - v) * of_int n" by (simp add: q_def tq left_diff_distrib)
  moreover have "(of_int a / 100 - v) * of_int n \<le> 1 / 2 ^ 52 * 2 ^ 40"
    using v(2,3) nr by (intro mult_mono) auto
  ultimately have qt: "q \<le> t" "t \<le> q + 1 / 4096" by (auto simp: field_simps)
  have "q \<le> 1 * 2 ^ 40"
    unfolding q_def using v(1,2) a nr by (intro mult_mono) auto
  then have "q / 2 ^ 53 \<le> 1 / 4096" by simp
  with rnd_error[OF q] have r: "\<bar>q - rnd q\<bar> \<le> 1 / 4096" by linarith
  have "t \<in> \<int> \<Longrightarrow> rnd q \<le> t"
  proof -
    assume "t \<in> \<int>"
    then obtain k where k: "t = of_int k" by (auto elim: Ints_cases)
    have "of_int k \<le> (2 ^ 53 - 1 :: rat)" using qt \<open>q \<le> 1 * 2 ^ 40\<close> by (simp add: k)
    moreover have "0 \<le> (of_int k :: rat)" using q qt by (simp add: k)
    ultimately have "(of_int k :: rat) \<le> of_int (2 ^ 53 - 1)" "(of_int 0 :: rat) \<le> of_int k" by simp_all
    then have "\<bar>k\<bar> < 2 ^ 53" unfolding of_int_le_iff by simp
    then have "rnd t = t" using f64_of_int_exact[of k] by (simp add: f64_of_int_def k)
    with rnd_mono[OF qt(1)] show ?thesis by simp
  qed
  moreover have "t \<notin> \<int> \<Longrightarrow> t + 1 / 100 \<le> of_int \<lceil>t\<rceil> \<and> of_int \<lceil>t\<rceil> - 1 + 1 / 100 \<le> t"
  proof -
    assume nt: "t \<notin> \<int>"
    have tn: "100 * t = of_int (a * n)" by (simp add: t_def)
    moreover have "t < of_int \<lceil>t\<rceil>" using nt ceiling_correct[of t] by (metis Ints_of_int less_le)
    moreover have "of_int \<lceil>t\<rceil> - 1 < t" using ceiling_correct[of t] by simp
    ultimately have "(of_int (a * n) :: rat) < of_int (100 * \<lceil>t\<rceil>)" "(of_int (100 * (\<lceil>t\<rceil> - 1)) :: rat) < of_int (a * n)"
      by (simp_all del: of_int_mult add: of_int_mult[of 100])
    then have "a * n + 1 \<le> 100 * \<lceil>t\<rceil>" "100 * (\<lceil>t\<rceil> - 1) + 1 \<le> a * n" by (simp_all only: of_int_less_iff)
    then have "(of_int (a * n + 1) :: rat) \<le> of_int (100 * \<lceil>t\<rceil>)" "(of_int (100 * (\<lceil>t\<rceil> - 1) + 1) :: rat) \<le> of_int (a * n)"
      by (simp_all only: of_int_le_iff)
    with tn show ?thesis by simp
  qed
  ultimately have "\<lceil>rnd q\<rceil> = \<lceil>t\<rceil>"
  proof (cases "t \<in> \<int>")
    case True
    with \<open>t \<in> \<int> \<Longrightarrow> rnd q \<le> t\<close> have "rnd q \<le> t" by simp
    moreover have "t - 1 < rnd q" using qt r by linarith
    moreover have "of_int \<lceil>t\<rceil> = t" using True by (auto elim: Ints_cases)
    ultimately show ?thesis by (intro ceiling_unique) auto
  next
    case False
    with \<open>t \<notin> \<int> \<Longrightarrow> _\<close> have "t + 1 / 100 \<le> of_int \<lceil>t\<rceil>" "of_int \<lceil>t\<rceil> - 1 + 1 / 100 \<le> t" by auto
    with qt r show ?thesis by (intro ceiling_unique) linarith+
  qed
  then show ?thesis by (simp add: q_def t_def)
qed

lemma f64_0_50_value: "f64_0_50 = 1 / 2"
  unfolding f64_0_50_def by code_simp

lemma f64_0_95_value: "f64_0_95 = 4278419646001971 / 4503599627370496"
  unfolding f64_0_95_def by code_simp

definition nearest_rank :: "nat \<Rightarrow> i64 list \<Rightarrow> i64" where
  "nearest_rank a srt = srt ! ((a * length srt + 99) div 100 - 1)"

lemma neg_div_100: "- (- int m div 100) = int ((m + 99) div 100)"
proof -
  have "(m + 99) mod 100 \<le> 99" "m + 99 = 100 * ((m + 99) div 100) + (m + 99) mod 100"
    using mod_less_divisor[of 100 "m + 99"] by linarith (rule mult_div_mod_eq[symmetric])
  then have "- int m = 100 * - int ((m + 99) div 100) + (99 - int ((m + 99) mod 100))"
    "0 \<le> 99 - int ((m + 99) mod 100)" "99 - int ((m + 99) mod 100) < 100" by linarith+
  then have "- int m div 100 = - int ((m + 99) div 100)" by (rule int_div_pos_eq)
  then show ?thesis by simp
qed

lemma ceiling_div_100: "nat \<lceil>(of_int (int a * int n) :: rat) / 100\<rceil> = (a * n + 99) div 100"
proof -
  have "\<lceil>(of_int (int a * int n) :: rat) / of_int 100\<rceil> = - (- (int a * int n) div 100)"
    by (rule ceiling_divide_eq_div)
  then show ?thesis using neg_div_100[of "a * n"] by simp
qed

lemma percentile_rank:
  assumes "srt \<noteq> []" "length srt < 2 ^ 40" "0 < p" "p \<le> of_int (int a) / 100"
    "of_int (int a) / 100 - p \<le> 1 / 2 ^ 52" "0 < a" "a \<le> 100"
  shows "percentile srt p = Some (nearest_rank a srt)"
proof -
  define n where "n = length srt"
  have "0 < n" "n < 2 ^ 40" using assms(1,2) by (auto simp: n_def)
  then have n: "0 < int n" "int n < 2 ^ 40" by (simp, metis of_nat_less_iff of_nat_numeral of_nat_power)
  have "\<bar>int n\<bar> < 2 ^ 53" using n by simp
  then have "f64_mul p (f64_of_int (int n)) = rnd (p * of_int (int n))"
    by (simp add: f64_mul_def f64_of_int_exact del: of_int_of_nat_eq)
  then have rank: "nat \<lceil>f64_mul p (f64_of_int (int n))\<rceil> = (a * n + 99) div 100"
    using ceiling_rounded_product[of p "int a" "int n"] assms(3-7) n ceiling_div_100[of a n] by simp
  have "a * n \<le> 100 * n" using assms(7) by simp
  then have "(a * n + 99) div 100 - 1 \<le> n - 1" by linarith
  then show ?thesis using assms(1) rank
    by (simp add: percentile_def Let_def n_def[symmetric] nearest_rank_def min_absorb1)
qed

end
