(* ===== verification/Capture.thy ===== *)
theory Capture
  imports Sse SessionMatch StatsFacts
begin

text \<open>
  The properties of capture: framing, the SSE decoder, correlation, statistics and the integrity
  gate.  The sample values of the first section serve the witnesses only.
\<close>

section \<open>Sample values\<close>

definition sample_serde :: serde where
  "sample_serde =
     \<lparr>parse_json = (\<lambda>s. if s = ''null'' then Some JNull else None),
      print_json = (\<lambda>v. ''null''), json_pointer = (\<lambda>v p. None), sha256_digest = (\<lambda>s. [])\<rparr>"

definition sample_request :: stored_message where
  "sample_request =
     \<lparr>msg_seq = 0, msg_ts_ns = 100, msg_direction = ''c2s'', msg_kind = ''request'',
      msg_rpc_id = Some ''1'', msg_method = Some ''tools/call'', msg_tool_name = Some ''echo'',
      msg_payload = ''null'', msg_payload_bytes = 4, msg_is_error = False, msg_error_code = None\<rparr>"

definition sample_response :: stored_message where
  "sample_response =
     \<lparr>msg_seq = 1, msg_ts_ns = 150, msg_direction = ''s2c'', msg_kind = ''response'',
      msg_rpc_id = Some ''1'', msg_method = None, msg_tool_name = None,
      msg_payload = ''null'', msg_payload_bytes = 4, msg_is_error = False, msg_error_code = None\<rparr>"

definition sample_exchange :: exchange where
  "sample_exchange = answer sample_serde (new_request sample_request ClientToServer) sample_response"

lemma sample_directions:
  "from_db_str (msg_direction sample_request) = Some ClientToServer"
  "from_db_str (msg_direction sample_response) = Some ServerToClient"
  by (simp_all add: sample_request_def sample_response_def from_db_str_def)

lemma sample_fields:
  "msg_kind sample_request = ''request''" "msg_rpc_id sample_request = Some ''1''"
  "msg_kind sample_response = ''response''" "msg_rpc_id sample_response = Some ''1''"
  by (simp_all add: sample_request_def sample_response_def)

lemma sample_loop:
  "c_exchanges (correlate_loop sample_serde corr_init [sample_request, sample_response]) = [sample_exchange]"
  by (simp add: correlate_step_def sample_directions sample_fields on_request_def on_response_def Let_def
      corr_init_def sample_exchange_def)

lemma sample_exchanges:
  "exchanges (correlate sample_serde [sample_request, sample_response]) = [sample_exchange]"
  by (simp add: correlate_def Let_def sample_loop del: correlate_loop.simps)

section \<open>Framing\<close>

text \<open>
  C12: A payload encoded as a stdio frame is recovered from the front of the stream by the frame
  parser, whatever follows it, with exactly the bytes that were written; the printed payload must
  be one line, not be empty and not end in a carriage return (as compact JSON is).
\<close>

theorem stdio_frame_roundtrip:
  assumes "nl \<notin> set (print_json S v)" "print_json S v \<noteq> []" "last (print_json S v) \<noteq> cr" "codec_ok S v"
  shows "parse_stdio_frame (encode_stdio_frame S v @ rest) =
      Inr (Some \<lparr>json_bytes = print_json S v, wire_bytes = encode_stdio_frame S v,
                 consumed = length (encode_stdio_frame S v)\<rparr>) \<and>
    parse_json_payload S (print_json S v) = Inr v"
  using assms parse_stdio_frame_line[OF assms(1), of rest]
  by (simp add: encode_stdio_frame_def strip_cr_def parse_json_payload_def codec_ok_def)

theorem stdio_frame_roundtrip_witness:
  "parse_stdio_frame (encode_stdio_frame sample_serde JNull @ ''x'') =
      Inr (Some \<lparr>json_bytes = ''null'', wire_bytes = ''null'' @ [nl], consumed = 5\<rparr>)"
  using stdio_frame_roundtrip[of sample_serde JNull "''x''"]
  by (simp add: sample_serde_def codec_ok_def encode_stdio_frame_def)

text \<open>
  A parsed frame is lossless: its wire bytes followed by the unconsumed buffer are the buffer,
  the payload is the line without its terminator (and a trailing carriage return), it is never
  empty and holds no newline.  A buffer without a newline is pending, not an error.
\<close>

theorem stdio_frame_lossless:
  "case parse_stdio_frame buf of
     Inr None \<Rightarrow> nl \<notin> set buf
   | Inr (Some f) \<Rightarrow>
       buf = wire_bytes f @ drop (consumed f) buf \<and> consumed f = length (wire_bytes f) \<and>
       (wire_bytes f = json_bytes f @ [nl] \<or> wire_bytes f = json_bytes f @ [cr, nl]) \<and>
       json_bytes f \<noteq> [] \<and> nl \<notin> set (json_bytes f)
   | Inl e \<Rightarrow> take 1 buf = [nl] \<or> take 2 buf = [cr, nl]"
proof (cases "nl \<in> set buf")
  case False
  then show ?thesis using parse_stdio_frame_pending[of buf] by simp
next
  case True
  then obtain body rest where b: "buf = body @ nl # rest" "nl \<notin> set body"
    using split_first_line by blast
  have body: "body = strip_cr body \<or> body = strip_cr body @ [cr]"
    by (cases body rule: rev_cases) (auto simp: strip_cr_def)
  have "set (strip_cr body) \<subseteq> set body" by (auto simp: strip_cr_def dest: in_set_butlastD)
  with b body show ?thesis
    using parse_stdio_frame_line[OF b(2), of rest] by (auto split: if_splits)
qed

section \<open>Server-sent events\<close>

text \<open>
  C13: How the network cuts an SSE stream into chunks does not matter: two chunkings of the same
  bytes leave the decoder in the same state with the same events, so the two commands that share
  the decoder cannot disagree on identical bytes.
\<close>

theorem sse_chunking_irrelevant:
  assumes "concat cs = concat cs'"
  shows "sse_feed d cs = sse_feed d cs'"
  using sse.chunking_irrelevant[OF assms] by (simp add: sse_feed_feed)

theorem sse_chunking_irrelevant_witness:
  "sse_feed sse_default [''data'', '': 1'', [nl, nl]] = sse_feed sse_default [''data: 1'' @ [nl], [nl]]"
  by (rule sse_chunking_irrelevant) simp

text \<open>
  C28: Memory is bounded: whatever bytes arrive, the line buffer stays within the frame limit plus
  the seven bytes of prefix and carriage return, the event buffer within the frame limit, and every
  delivered event is non-empty and within the limit; an oversized event is never delivered.
\<close>

theorem sse_bounded:
  "length (sse_line (fst (sse_feed sse_default cs))) \<le> MAX_FRAME_BYTES + 7 \<and>
   length (sse_data (fst (sse_feed sse_default cs))) \<le> MAX_FRAME_BYTES \<and>
   list_all (\<lambda>e. case e of SseJson b \<Rightarrow> b \<noteq> [] \<and> length b \<le> MAX_FRAME_BYTES
                         | SseOversized \<Rightarrow> True | SseIncomplete \<Rightarrow> False)
     (snd (sse_feed sse_default cs))"
proof -
  have ok: "sse_ok (fst (sse_feed sse_default cs))" "\<forall>e \<in> set (snd (sse_feed sse_default cs)). event_ok e"
    using sse_feed_ok[OF sse_default_ok, of cs] by simp_all
  have "list_all (\<lambda>e. case e of SseJson b \<Rightarrow> b \<noteq> [] \<and> length b \<le> MAX_FRAME_BYTES
      | SseOversized \<Rightarrow> True | SseIncomplete \<Rightarrow> False) es" if "\<forall>e \<in> set es. event_ok e" for es
    using that by (induction es) (simp_all add: event_ok_def split: sse_event.split)
  with ok show ?thesis by (simp add: sse_ok_def)
qed

text \<open>
  A complete event of one data line is delivered exactly once with exactly its payload, however
  it is chunked, and the decoder is idle afterwards, so nothing is pending at end of stream.
\<close>

theorem sse_event_delivered:
  assumes "concat cs = data_line v @ [nl]" "nl \<notin> set v" "v \<noteq> []" "last v \<noteq> cr" "length v \<le> MAX_FRAME_BYTES"
  shows "sse_feed sse_default cs = (sse_default, [SseJson v]) \<and>
    sse_finish (fst (sse_feed sse_default cs)) = (sse_default, [])"
proof -
  have "sse_feed sse_default cs = sse_push sse_default (concat cs)"
    by (simp add: sse_feed_feed sse.feed_concat)
  then have "sse_feed sse_default cs = (sse_default, [SseJson v])"
    using assms sse_bytes_event[of v] by (simp add: sse_push_bytes)
  then show ?thesis by (simp add: sse_finish_def has_pending_event_def) (simp add: sse_default_def)
qed

theorem sse_event_delivered_witness:
  "sse_feed sse_default [''data: 4'', ''2'' @ [nl], [nl]] = (sse_default, [SseJson ''42''])"
proof -
  have "length ''42'' \<le> MAX_FRAME_BYTES" by (simp add: MAX_FRAME_BYTES_def)
  then show ?thesis
    using sse_event_delivered[of "[''data: 4'', ''2'' @ [nl], [nl]]" "''42''"]
    by (simp add: data_line_def)
qed

section \<open>Correlation\<close>

text \<open>
  C10: Correlation loses no record and invents none: the requests of known direction are the request
  side of the exchanges, the responses their response side (each exactly once), and the
  notifications are kept in order.
\<close>

theorem correlate_conserves:
  "mset (somes (map ex_request_seq (exchanges (correlate S ms))))
     = mset (map msg_seq (filter (known_kind ''request'') ms)) \<and>
   mset (somes (map ex_response_seq (exchanges (correlate S ms))))
     = mset (map msg_seq (filter (known_kind ''response'') ms)) \<and>
   map nt_seq (notifications (correlate S ms)) = map msg_seq (filter (known_kind ''notification'') ms)"
  using correlate_loop_seqs[OF corr_init_ok, of S ms]
  by (simp add: mset_somes_sorted) (simp add: correlate_def corr_init_def Let_def)

text \<open>
  Every exchange is backed by the log.  An answered one pairs a request with a later response of
  the opposite direction and the same id, and carries their fields; an open or cancelled one is a
  recorded request; an orphan is a recorded response.
\<close>

theorem correlate_provenance:
  assumes "e \<in> set (exchanges (correlate S ms))"
  shows "provenance S ms e"
  using assms by (rule correlate_all_from)

theorem correlate_provenance_witness:
  "provenance sample_serde [sample_request, sample_response] sample_exchange"
  by (rule correlate_provenance) (simp add: sample_exchanges)

text \<open>
  C11: Every response is matched as the specification demands: if the latest request of its id and
  direction is still open (nothing answered or cancelled it since), the response answers exactly
  that request in the final model; otherwise it is an orphan there.
\<close>

theorem correlate_matches_open_request:
  assumes "msg_kind m = ''response''" "from_db_str (msg_direction m) = Some dir" "msg_rpc_id m = Some rid"
  shows "case open_request S (dir, rid) None pre of
      Some r \<Rightarrow> \<exists>e. e \<in> set (exchanges (correlate S (pre @ m # post))) \<and> from_request e r \<and>
                 from_response e m \<and> ex_status e \<in> {Ok, Error, ToolError}
    | None \<Rightarrow> orphan m dir \<in> set (exchanges (correlate S (pre @ m # post)))"
proof -
  let ?st = "correlate_loop S corr_init pre"
  have ok: "corr_ok ?st" by (rule correlate_loop_ok[OF corr_init_ok])
  have keep: "e \<in> set (exchanges (correlate S (pre @ m # post)))"
    if "e \<in> set (c_exchanges (correlate_step S ?st m))" "settled e" for e
    using loop_keeps_settled[OF correlate_step_ok[OF ok] that, where ms = post]
    by (simp add: correlate_exchanges correlate_loop_append)
  have "tracks ?st (dir, rid) (open_request S (dir, rid) None pre)"
    by (rule tracks_loop[OF corr_init_ok tracks_init])
  note step = response_step[OF ok this assms, of S]
  show ?thesis
  proof (cases "open_request S (dir, rid) None pre")
    case None
    with step keep[of "orphan m dir"] show ?thesis by (simp add: settled_def orphan_def)
  next
    case (Some r)
    with step obtain e where "e \<in> set (c_exchanges (correlate_step S ?st m))" "from_request e r"
      "from_response e m" "ex_status e \<in> {Ok, Error, ToolError}" by auto
    with Some keep[of e] show ?thesis by (auto simp: settled_def)
  qed
qed

theorem correlate_matches_open_request_witness:
  "\<exists>e. e \<in> set (exchanges (correlate sample_serde [sample_request, sample_response])) \<and>
     from_request e sample_request \<and> from_response e sample_response \<and> ex_status e \<in> {Ok, Error, ToolError}"
proof -
  have "msg_kind sample_response = ''response''" "msg_rpc_id sample_response = Some ''1''"
    by (simp_all add: sample_response_def)
  moreover have "open_request sample_serde (ServerToClient, ''1'') None [sample_request] = Some sample_request"
    by (simp add: opens_def sample_directions) (simp add: sample_request_def)
  ultimately show ?thesis
    using correlate_matches_open_request[of sample_response ServerToClient "''1''" sample_serde "[sample_request]" "[]"]
      sample_directions(2) by simp
qed

text \<open>
  The status of an exchange determines its shape: answered exchanges have both sides and the
  latency response minus request, open and cancelled ones have no response side, orphans no request
  side, a tool error is a \<open>tools/call\<close>, and a subscription a client's \<open>subscriptions/listen\<close>.
  The exchanges come ordered by their request (or response) sequence number.
\<close>

theorem correlate_well_formed:
  "list_all exchange_ok (exchanges (correlate S ms)) \<and> sorted (map exchange_key (exchanges (correlate S ms)))"
  using correlate_exchange_ok[of _ S ms] by (auto simp: list_all_iff) (simp add: correlate_def Let_def)

section \<open>Statistics\<close>

text \<open>
  The status counters of a session partition its exchanges, and the tool call counts are exact:
  they add up to the exchanges that name a tool and are ordered by decreasing count.
\<close>

theorem stats_add_up:
  "let s = stats (correlate S ms); es = exchanges (correlate S ms) in
     total_exchanges s = length es \<and>
     ok_count s + errors_count s + unanswered_count s + cancelled_count s + orphan_responses s = total_exchanges s \<and>
     sum_list (map snd (tool_call_counts s)) = length (filter (\<lambda>e. ex_tool_name e \<noteq> None) es) \<and>
     sorted_wrt (\<lambda>a b. snd b \<le> snd a) (tool_call_counts s)"
proof -
  let ?es = "exchanges (correlate S ms)"
  have st: "stats (correlate S ms) = compute_stats ?es (notifications (correlate S ms))"
    by (simp add: correlate_def Let_def)
  have sum: "sum_list (map snd (sort_key f m)) = sum_counts m" for f :: "string \<times> nat \<Rightarrow> int" and m
    unfolding sum_counts_def by (metis mset_map mset_sort sum_mset_sum_list)
  have "sum_counts (tool_counts ?es) = length (List.map_filter ex_tool_name ?es)"
    using foldl_bump[of "[]" "List.map_filter ex_tool_name ?es"] by (simp add: tool_counts_def sum_counts_def)
  also have "\<dots> = length (filter (\<lambda>e. ex_tool_name e \<noteq> None) ?es)" by (simp add: List.map_filter_def)
  finally have counts: "sum_counts (tool_counts ?es) = length (filter (\<lambda>e. ex_tool_name e \<noteq> None) ?es)" .
  have "sorted (map (\<lambda>e. - int (snd e)) (sort_key (\<lambda>e. - int (snd e)) (tool_counts ?es)))" by simp
  then have "sorted_wrt (\<lambda>a b. snd b \<le> snd a) (sort_key (\<lambda>e. - int (snd e)) (tool_counts ?es))"
    by (simp add: sorted_wrt_map)
  then show ?thesis
    using count_status_partition[of ?es] by (simp add: Let_def st compute_stats_def sum counts)
qed

text \<open>
  The percentiles computed with \<open>f64\<close> are the exact nearest-rank ones: rounding never moves
  the rank, for any session of fewer than \<open>2 ^ 40\<close> latencies, although \<open>0.95\<close> is not a double.
\<close>

theorem percentile_exact:
  assumes "srt \<noteq> []" "length srt < 2 ^ 40"
  shows "percentile srt f64_0_50 = Some (nearest_rank 50 srt) \<and> percentile srt f64_0_95 = Some (nearest_rank 95 srt)"
proof
  show "percentile srt f64_0_50 = Some (nearest_rank 50 srt)"
    by (rule percentile_rank) (use assms in \<open>simp_all add: f64_0_50_value\<close>)
  show "percentile srt f64_0_95 = Some (nearest_rank 95 srt)"
    by (rule percentile_rank) (use assms in \<open>simp_all add: f64_0_95_value\<close>)
qed

theorem percentile_exact_witness:
  "percentile [10, 20, 30] f64_0_50 = Some 20 \<and> percentile [10, 20, 30] f64_0_95 = Some 30"
  using percentile_exact[of "[10, 20, 30]"] by (simp add: nearest_rank_def)

section \<open>The integrity gate\<close>

lemma messages_issues_Nil:
  "messages_issues S prev ms = [] \<longleftrightarrow>
     sorted_wrt (<) (map msg_seq ms) \<and> (\<forall>p. prev = Some p \<longrightarrow> (\<forall>m \<in> set ms. p < msg_seq m)) \<and>
     (\<forall>m \<in> set ms. from_db_str (msg_direction m) \<noteq> None \<and>
        msg_kind m \<in> {''request'', ''response'', ''notification''} \<and> parse_json S (msg_payload m) \<noteq> None)"
proof (induction ms arbitrary: prev)
  case (Cons m ms)
  have one: "message_issues S prev m = [] \<longleftrightarrow>
      (\<forall>p. prev = Some p \<longrightarrow> p < msg_seq m) \<and> from_db_str (msg_direction m) \<noteq> None \<and>
        msg_kind m \<in> {''request'', ''response'', ''notification''} \<and> parse_json S (msg_payload m) \<noteq> None"
    by (cases prev) (auto simp: message_issues_def not_le)
  show ?case by (auto simp: one Cons.IH dest: less_trans)
qed simp

text \<open>
  A recording passes the gate exactly when it is a sound capture: it has messages, none was
  dropped, sequence numbers strictly increase, every direction, kind and payload is recognised, and
  correlation leaves no unanswered request and no orphan response.
\<close>

theorem validate_healthy_iff:
  "is_healthy (validate_session S ms dropped) =
     (ms \<noteq> [] \<and> dropped = 0 \<and> sorted_wrt (<) (map msg_seq ms) \<and>
      list_all (\<lambda>m. from_db_str (msg_direction m) \<noteq> None \<and>
        msg_kind m \<in> {''request'', ''response'', ''notification''} \<and> parse_json S (msg_payload m) \<noteq> None) ms \<and>
      list_all (\<lambda>e. ex_status e \<noteq> Unanswered \<and> ex_status e \<noteq> OrphanResponse) (exchanges (correlate S ms)))"
proof -
  have "exchange_issues e = [] \<longleftrightarrow> ex_status e \<noteq> Unanswered \<and> ex_status e \<noteq> OrphanResponse" for e
    by (simp add: exchange_issues_def split: exchange_status.splits)
  then show ?thesis
    by (auto simp: is_healthy_def validate_session_def messages_issues_Nil list_all_iff)
qed

end
