(* ===== verification/JsonDiff.thy ===== *)
theory JsonDiff
  imports Json
begin

text \<open>
  The value-level part of \<open>crates/mcptracer-model/src/diff.rs\<close>: stripping of volatile
  content (\<open>normalize\<close>) and the structural comparison that treats a redacted value as unknown
  (\<open>compare_values\<close>), with the relation the comparison decides and the meaning of its pointers.
\<close>

section \<open>Ignore rules and normalization\<close>

record ignore_rules =
  ir_pointers :: "string list"
  ir_volatile_keys :: "string list"

definition ignore_rules_default :: ignore_rules where
  "ignore_rules_default =
     \<lparr>ir_pointers = [], ir_volatile_keys = [''timestamp'', ''requestid'', ''traceid'']\<rparr>"

definition is_volatile_key :: "string \<Rightarrow> ignore_rules \<Rightarrow> bool" where
  "is_volatile_key key rules \<longleftrightarrow>
     map to_ascii_lowercase (filter is_ascii_alphanumeric key) \<in> set (ir_volatile_keys rules)"

definition escape_pointer_token :: "string \<Rightarrow> string" where
  "escape_pointer_token token = replace_char (CHR ''/'') ''~1'' (replace_char (CHR ''~'') ''~0'' token)"

definition key_ptr :: "string \<Rightarrow> string \<Rightarrow> string" where
  "key_ptr pointer key = pointer @ ''/'' @ escape_pointer_token key"

definition idx_ptr :: "string \<Rightarrow> nat \<Rightarrow> string" where
  "idx_ptr pointer idx = pointer @ ''/'' @ nat_dec idx"

fun walk :: "ignore_rules \<Rightarrow> string \<Rightarrow> json \<Rightarrow> json option"
  and walk_members :: "ignore_rules \<Rightarrow> string \<Rightarrow> (string \<times> json) list \<Rightarrow> (string \<times> json) list"
  and walk_items :: "ignore_rules \<Rightarrow> string \<Rightarrow> nat \<Rightarrow> json list \<Rightarrow> json list" where
  "walk rules pointer value =
     (if pointer \<in> set (ir_pointers rules) then None
      else case value of
        JObject ms \<Rightarrow> Some (JObject (bt_collect (walk_members rules pointer ms)))
      | JArray items \<Rightarrow> Some (JArray (walk_items rules pointer 0 items))
      | other \<Rightarrow> Some other)"
| "walk_members rules pointer [] = []"
| "walk_members rules pointer ((key, child) # ms) =
     (if is_volatile_key key rules then walk_members rules pointer ms
      else case walk rules (key_ptr pointer key) child of
        Some kept \<Rightarrow> (key, kept) # walk_members rules pointer ms
      | None \<Rightarrow> walk_members rules pointer ms)"
| "walk_items rules pointer idx [] = []"
| "walk_items rules pointer idx (item # items) =
     (case walk rules (idx_ptr pointer idx) item of
        Some kept \<Rightarrow> kept # walk_items rules pointer (Suc idx) items
      | None \<Rightarrow> walk_items rules pointer (Suc idx) items)"

declare walk.simps [simp del]

definition normalize :: "json \<Rightarrow> ignore_rules \<Rightarrow> json" where
  "normalize value rules = (case walk rules [] value of Some v \<Rightarrow> v | None \<Rightarrow> JNull)"

text \<open>Opaque retry tokens: kept as a placeholder in requests, removed from partial responses.\<close>

definition normalize_request :: "json \<Rightarrow> ignore_rules \<Rightarrow> json" where
  "normalize_request value rules =
     (case normalize value rules of
        JObject m \<Rightarrow>
          (case bt_get m ''requestState'' of
             Some (JString s) \<Rightarrow>
               JObject (bt_insert ''requestState'' (JString ''<opaque MCP request state>'') m)
           | _ \<Rightarrow> JObject m)
      | v \<Rightarrow> v)"

definition normalize_response :: "json \<Rightarrow> ignore_rules \<Rightarrow> json" where
  "normalize_response value rules =
     (let v = normalize value rules
      in if Option.bind (json_get v ''resultType'') as_str = Some ''input_required''
         then (case v of JObject m \<Rightarrow> JObject (bt_remove ''requestState'' m) | _ \<Rightarrow> v)
         else v)"

section \<open>Comparison\<close>

definition REDACTED_PLACEHOLDER :: string where
  "REDACTED_PLACEHOLDER = ''***REDACTED***''"

definition is_redacted :: "json \<Rightarrow> bool" where
  "is_redacted v \<longleftrightarrow> v = JString REDACTED_PLACEHOLDER"

record pointer_diff =
  pd_pointer :: string
  pd_from :: "json option"
  pd_to :: "json option"

definition only_in_b :: "(string \<times> json) list \<Rightarrow> (string \<times> json) list \<Rightarrow> string \<Rightarrow> pointer_diff list" where
  "only_in_b a_map b_map pointer =
     map (\<lambda>(key, b_child). \<lparr>pd_pointer = key_ptr pointer key, pd_from = None, pd_to = Some b_child\<rparr>)
       (filter (\<lambda>(key, b_child). bt_get a_map key = None) b_map)"

function (sequential) compare_values :: "json \<Rightarrow> json \<Rightarrow> string \<Rightarrow> pointer_diff list"
  and compare_members ::
    "(string \<times> json) list \<Rightarrow> (string \<times> json) list \<Rightarrow> string \<Rightarrow> pointer_diff list"
  and compare_items :: "nat \<Rightarrow> json list \<Rightarrow> json list \<Rightarrow> string \<Rightarrow> pointer_diff list" where
  "compare_values a b pointer =
     (if is_redacted a \<or> is_redacted b then []
      else case (a, b) of
        (JObject a_map, JObject b_map) \<Rightarrow>
          compare_members a_map b_map pointer @ only_in_b a_map b_map pointer
      | (JArray a_items, JArray b_items) \<Rightarrow> compare_items 0 a_items b_items pointer
      | _ \<Rightarrow> if a \<noteq> b then [\<lparr>pd_pointer = pointer, pd_from = Some a, pd_to = Some b\<rparr>] else [])"
| "compare_members [] b_map pointer = []"
| "compare_members ((key, a_child) # a_map) b_map pointer =
     (case bt_get b_map key of
        Some b_child \<Rightarrow> compare_values a_child b_child (key_ptr pointer key)
      | None \<Rightarrow> [\<lparr>pd_pointer = key_ptr pointer key, pd_from = Some a_child, pd_to = None\<rparr>])
     @ compare_members a_map b_map pointer"
| "compare_items idx [] [] pointer = []"
| "compare_items idx (a_item # as) [] pointer =
     \<lparr>pd_pointer = idx_ptr pointer idx, pd_from = Some a_item, pd_to = None\<rparr>
       # compare_items (Suc idx) as [] pointer"
| "compare_items idx [] (b_item # bs) pointer =
     \<lparr>pd_pointer = idx_ptr pointer idx, pd_from = None, pd_to = Some b_item\<rparr>
       # compare_items (Suc idx) [] bs pointer"
| "compare_items idx (a_item # as) (b_item # bs) pointer =
     compare_values a_item b_item (idx_ptr pointer idx) @ compare_items (Suc idx) as bs pointer"

  by pat_completeness auto

termination
  by (relation "measures [case_sum (\<lambda>(a, b, p). size a) (case_sum (\<lambda>(m, b, p). size_list (\<lambda>e. size (snd e)) m)
      (\<lambda>(i, xs, ys, p). size_list size xs)), case_sum (\<lambda>_. 0) (case_sum (\<lambda>_. 0) (\<lambda>(i, xs, ys, p). length ys))]")
    (auto simp: less_Suc_eq_le intro!: size_list_pointwise)

declare compare_values.simps [simp del]

section \<open>What normalization leaves\<close>

text \<open>No volatile key survives, at any depth.\<close>

fun no_volatile :: "ignore_rules \<Rightarrow> json \<Rightarrow> bool" where
  "no_volatile rules (JArray xs) \<longleftrightarrow> (\<forall>x \<in> set xs. no_volatile rules x)"
| "no_volatile rules (JObject m) \<longleftrightarrow>
     (\<forall>e \<in> set m. \<not> is_volatile_key (fst e) rules \<and> no_volatile rules (snd e))"
| "no_volatile rules _ \<longleftrightarrow> True"

lemma walk_clean:
  "walk rules p v = Some w \<Longrightarrow> json_wf w \<and> no_volatile rules w"
  "e \<in> set (walk_members rules p m) \<Longrightarrow>
     \<not> is_volatile_key (fst e) rules \<and> json_wf (snd e) \<and> no_volatile rules (snd e)"
  "x \<in> set (walk_items rules p i xs) \<Longrightarrow> json_wf x \<and> no_volatile rules x"
proof (induction rules p v and rules p m and rules p i xs arbitrary: w and e and x
    rule: walk_walk_members_walk_items.induct)
  case (1 rules pointer v)
  show ?case
  proof (cases v)
    case (JObject m)
    with "1.prems" "1.IH"(2) show ?thesis
      using set_bt_collect[of "walk_members rules pointer m"]
      by (fastforce simp: walk.simps[of rules pointer] bt_collect_wf split: if_splits)
  next
    case (JArray xs)
    with "1.prems" "1.IH"(1) show ?thesis
      by (auto simp: walk.simps[of rules pointer] split: if_splits)
  qed (use "1.prems" in \<open>auto simp: walk.simps[of rules pointer] split: if_splits\<close>)
qed (auto split: if_splits option.splits)

lemma normalize_clean: "json_wf (normalize v rules)" "no_volatile rules (normalize v rules)"
  using walk_clean(1)[of rules "[]" v] by (auto simp: normalize_def split: option.splits)

lemma walk_id:
  "ir_pointers rules = [] \<Longrightarrow> json_wf v \<Longrightarrow> no_volatile rules v \<Longrightarrow> walk rules p v = Some v"
  "ir_pointers rules = [] \<Longrightarrow> \<forall>e \<in> set m. \<not> is_volatile_key (fst e) rules \<and> json_wf (snd e) \<and> no_volatile rules (snd e)
     \<Longrightarrow> walk_members rules p m = m"
  "ir_pointers rules = [] \<Longrightarrow> \<forall>x \<in> set xs. json_wf x \<and> no_volatile rules x \<Longrightarrow> walk_items rules p i xs = xs"
proof (induction rules p v and rules p m and rules p i xs rule: walk_walk_members_walk_items.induct)
  case (1 rules pointer v)
  then show ?case by (cases v) (auto simp: walk.simps[of rules pointer] bt_collect_id)
qed auto

lemma normalize_id: "ir_pointers rules = [] \<Longrightarrow> json_wf v \<Longrightarrow> no_volatile rules v \<Longrightarrow> normalize v rules = v"
  by (simp add: normalize_def walk_id)

lemma normalize_request_wf: "json_wf (normalize_request v rules)"
  using normalize_clean(1)[of v rules] set_bt_insert
  by (fastforce simp: normalize_request_def bt_wf_insert split: json.splits option.splits)

lemma normalize_response_wf: "json_wf (normalize_response v rules)"
  using normalize_clean(1)[of v rules]
  by (fastforce simp: normalize_response_def Let_def bt_remove_def bt_wf_filter split: json.splits)

section \<open>What the comparison decides\<close>

text \<open>Equality of values up to redacted parts, which stand for anything.\<close>

inductive same :: "json \<Rightarrow> json \<Rightarrow> bool" where
  same_redacted_a: "is_redacted a \<Longrightarrow> same a b"
| same_redacted_b: "is_redacted b \<Longrightarrow> same a b"
| same_refl: "same a a"
| same_array: "list_all2 same as bs \<Longrightarrow> same (JArray as) (JArray bs)"
| same_object: "map fst am = map fst bm \<Longrightarrow> list_all2 same (map snd am) (map snd bm) \<Longrightarrow>
     same (JObject am) (JObject bm)"
  monos list_all2_mono

inductive_cases same_objectE: "same (JObject am) (JObject bm)"
inductive_cases same_arrayE: "same (JArray as) (JArray bs)"

lemma not_redacted [simp]: "\<not> is_redacted (JObject m)" "\<not> is_redacted (JArray xs)"
  by (simp_all add: is_redacted_def)

lemma same_array_iff: "same (JArray as) (JArray bs) \<longleftrightarrow> list_all2 same as bs"
  by (auto elim!: same_arrayE simp: list_all2_same same_refl intro: same_array)

lemma same_object_iff:
  "same (JObject am) (JObject bm) \<longleftrightarrow>
     map fst am = map fst bm \<and> list_all2 same (map snd am) (map snd bm)"
  by (auto elim!: same_objectE simp: list_all2_same same_refl intro: same_object)

lemma same_leaf:
  assumes "\<not> (\<exists>m n. a = JObject m \<and> b = JObject n)" "\<not> (\<exists>xs ys. a = JArray xs \<and> b = JArray ys)"
  shows "same a b \<longleftrightarrow> is_redacted a \<or> is_redacted b \<or> a = b"
  using assms by (auto intro: same.intros elim: same.cases)

lemma same_members:
  assumes "bt_wf am" "bt_wf bm"
  shows "(\<forall>e \<in> set am. \<exists>y. bt_get bm (fst e) = Some y \<and> same (snd e) y) \<and>
      (\<forall>e \<in> set bm. bt_get am (fst e) \<noteq> None) \<longleftrightarrow>
    map fst am = map fst bm \<and> list_all2 same (map snd am) (map snd bm)" (is "?L \<longleftrightarrow> ?R")
proof
  assume L: ?L
  then have "fst ` set am = fst ` set bm" by (force simp: bt_get_def dest: map_of_SomeD)
  then have keys: "map fst am = map fst bm"
    using assms by (simp only: bt_wf_def strict_sorted_equal set_map)
  then have len: "length am = length bm" by (metis length_map)
  have "same (snd (am ! i)) (snd (bm ! i))" if i: "i < length am" for i
  proof -
    have "fst (am ! i) = fst (bm ! i)" using keys i len by (metis nth_map)
    moreover have "bt_get bm (fst (bm ! i)) = Some (snd (bm ! i))"
      using i len assms(2) by (simp add: bt_get_wf_iff)
    moreover have "am ! i \<in> set am" using i by simp
    ultimately show ?thesis using L by fastforce
  qed
  with keys len show ?R by (simp add: list_all2_conv_all_nth)
next
  assume R: ?R
  then have keys: "map fst am = map fst bm" and len: "length am = length bm" by (auto dest: map_eq_imp_length_eq)
  have "\<exists>y. bt_get bm (fst e) = Some y \<and> same (snd e) y" if "e \<in> set am" for e
  proof -
    from that obtain i where i: "i < length am" "am ! i = e" by (auto simp: in_set_conv_nth)
    then have "fst e = fst (bm ! i)" "same (snd e) (snd (bm ! i))"
      using R len by (metis nth_map) (use R i in \<open>auto simp: list_all2_conv_all_nth\<close>)
    moreover have "bt_get bm (fst (bm ! i)) = Some (snd (bm ! i))"
      using i len assms(2) by (simp add: bt_get_wf_iff)
    ultimately show ?thesis by auto
  qed
  moreover have "fst ` set am = fst ` set bm" using keys by (metis set_map)
  ultimately show ?L by (auto simp: bt_get_keys)
qed

lemma compare_containers:
  "compare_values (JObject m) (JObject n) p = compare_members m n p @ only_in_b m n p"
  "compare_values (JArray xs) (JArray ys) p = compare_items 0 xs ys p"
  by (simp_all add: compare_values.simps)

lemma only_in_b_Nil: "only_in_b am bm p = [] \<longleftrightarrow> (\<forall>e \<in> set bm. bt_get am (fst e) \<noteq> None)"
  by (auto simp: only_in_b_def filter_empty_conv)

lemma compare_empty:
  "json_wf a \<Longrightarrow> json_wf b \<Longrightarrow> compare_values a b p = [] \<longleftrightarrow> same a b"
  "\<forall>e \<in> set am. json_wf (snd e) \<Longrightarrow> \<forall>e \<in> set bm. json_wf (snd e) \<Longrightarrow>
     compare_members am bm p = [] \<longleftrightarrow> (\<forall>e \<in> set am. \<exists>y. bt_get bm (fst e) = Some y \<and> same (snd e) y)"
  "\<forall>x \<in> set as. json_wf x \<Longrightarrow> \<forall>x \<in> set bs. json_wf x \<Longrightarrow>
     compare_items i as bs p = [] \<longleftrightarrow> list_all2 same as bs"
proof (induction a b p and am bm p and i as bs p rule: compare_values_compare_members_compare_items.induct)
  case (1 a b p)
  show ?case
  proof (cases "(\<exists>m n. a = JObject m \<and> b = JObject n) \<or> (\<exists>xs ys. a = JArray xs \<and> b = JArray ys)")
    case True
    then consider m n where "a = JObject m" "b = JObject n" | xs ys where "a = JArray xs" "b = JArray ys" by blast
    then show ?thesis
    proof cases
      case (1 m n)
      then show ?thesis
        using "1.IH" "1.prems" same_members[of m n]
        by (simp add: compare_containers same_object_iff only_in_b_Nil)
    next
      case (2 xs ys)
      then show ?thesis
        using "1.IH" "1.prems"
        by (simp add: compare_containers same_array_iff)
    qed
  next
    case False
    then show ?thesis
      by (auto simp: compare_values.simps[of a b] same_leaf split: json.splits)
  qed
next
  case (3 key a_child a_map b_map p)
  then show ?case
    by (auto simp: bt_get_def split: option.splits) (force dest: map_of_SomeD)+
qed simp_all

section \<open>What the pointers mean\<close>

datatype step = Key string | Idx nat

fun resolve :: "json \<Rightarrow> step list \<Rightarrow> json option" where
  "resolve v [] = Some v"
| "resolve (JObject m) (Key k # ts) = Option.bind (bt_get m k) (\<lambda>x. resolve x ts)"
| "resolve (JArray xs) (Idx i # ts) = (if i < length xs then resolve (xs ! i) ts else None)"
| "resolve v (t # ts) = None"

fun render_step :: "step \<Rightarrow> string" where
  "render_step (Key k) = ''/'' @ escape_pointer_token k"
| "render_step (Idx i) = ''/'' @ nat_dec i"

definition render :: "step list \<Rightarrow> string" where
  "render ts = concat (map render_step ts)"

text \<open>A difference is located: its pointer names a path at which the two values really differ so.\<close>

definition located :: "json option \<Rightarrow> json option \<Rightarrow> string \<Rightarrow> pointer_diff \<Rightarrow> bool" where
  "located a b p d \<longleftrightarrow>
     (\<exists>ts. pd_pointer d = p @ render ts \<and> pd_from d = Option.bind a (\<lambda>v. resolve v ts) \<and>
           pd_to d = Option.bind b (\<lambda>v. resolve v ts) \<and> pd_from d \<noteq> pd_to d)"

lemma located_key:
  "located (bt_get m k) (bt_get n k) (key_ptr p k) d \<Longrightarrow> located (Some (JObject m)) (Some (JObject n)) p d"
  unfolding located_def
proof (elim exE)
  fix ts
  assume d: "pd_pointer d = key_ptr p k @ render ts \<and> pd_from d = Option.bind (bt_get m k) (\<lambda>v. resolve v ts) \<and>
      pd_to d = Option.bind (bt_get n k) (\<lambda>v. resolve v ts) \<and> pd_from d \<noteq> pd_to d"
  then show "\<exists>ts. pd_pointer d = p @ render ts \<and> pd_from d = Option.bind (Some (JObject m)) (\<lambda>v. resolve v ts) \<and>
      pd_to d = Option.bind (Some (JObject n)) (\<lambda>v. resolve v ts) \<and> pd_from d \<noteq> pd_to d"
    by (intro exI[where x = "Key k # ts"]) (clarsimp simp: render_def key_ptr_def)
qed

definition item_at :: "nat \<Rightarrow> json list \<Rightarrow> json option" where
  "item_at i xs = (if i < length xs then Some (xs ! i) else None)"

lemma item_at_simps [simp]:
  "item_at i [] = None" "item_at 0 (x # xs) = Some x" "item_at (Suc i) (x # xs) = item_at i xs"
  by (simp_all add: item_at_def)

lemma located_idx:
  "located (item_at i xs) (item_at i ys) (idx_ptr p i) d \<Longrightarrow> located (Some (JArray xs)) (Some (JArray ys)) p d"
  unfolding located_def
proof (elim exE)
  fix ts
  assume d: "pd_pointer d = idx_ptr p i @ render ts \<and> pd_from d = Option.bind (item_at i xs) (\<lambda>v. resolve v ts) \<and>
      pd_to d = Option.bind (item_at i ys) (\<lambda>v. resolve v ts) \<and> pd_from d \<noteq> pd_to d"
  then show "\<exists>ts. pd_pointer d = p @ render ts \<and> pd_from d = Option.bind (Some (JArray xs)) (\<lambda>v. resolve v ts) \<and>
      pd_to d = Option.bind (Some (JArray ys)) (\<lambda>v. resolve v ts) \<and> pd_from d \<noteq> pd_to d"
    by (intro exI[where x = "Idx i # ts"]) (clarsimp simp: render_def idx_ptr_def item_at_def split: if_splits)
qed

lemma located_here: "a \<noteq> b \<Longrightarrow> located a b p \<lparr>pd_pointer = p, pd_from = a, pd_to = b\<rparr>"
  unfolding located_def by (rule exI[where x = "[]"]) (cases a; cases b; simp add: render_def)

lemma compare_located:
  "json_wf a \<Longrightarrow> json_wf b \<Longrightarrow> d \<in> set (compare_values a b p) \<Longrightarrow> located (Some a) (Some b) p d"
  "\<forall>e \<in> set am. json_wf (snd e) \<Longrightarrow> \<forall>e \<in> set bm. json_wf (snd e) \<Longrightarrow> d \<in> set (compare_members am bm p) \<Longrightarrow>
     \<exists>e \<in> set am. located (Some (snd e)) (bt_get bm (fst e)) (key_ptr p (fst e)) d"
  "\<forall>x \<in> set as. json_wf x \<Longrightarrow> \<forall>x \<in> set bs. json_wf x \<Longrightarrow> d \<in> set (compare_items i as bs p) \<Longrightarrow>
     \<exists>j. located (item_at j as) (item_at j bs) (idx_ptr p (i + j)) d"
proof (induction a b p and am bm p and i as bs p rule: compare_values_compare_members_compare_items.induct)
  case (1 a b p)
  show ?case
  proof (cases "(\<exists>m n. a = JObject m \<and> b = JObject n) \<or> (\<exists>xs ys. a = JArray xs \<and> b = JArray ys)")
    case True
    then consider m n where "a = JObject m" "b = JObject n" | xs ys where "a = JArray xs" "b = JArray ys" by blast
    then show ?thesis
    proof cases
      case (1 m n)
      from "1.prems" 1 consider "d \<in> set (compare_members m n p)" | "d \<in> set (only_in_b m n p)"
        by (auto simp: compare_containers)
      then show ?thesis
      proof cases
        case c: 1
        then obtain e where "e \<in> set m" "located (Some (snd e)) (bt_get n (fst e)) (key_ptr p (fst e)) d"
          using "1.IH" "1.prems" 1 by simp blast
        moreover then have "bt_get m (fst e) = Some (snd e)" using "1.prems" 1 by (simp add: bt_get_wf_iff)
        ultimately show ?thesis using 1 by (metis located_key)
      next
        case c: 2
        then obtain k y where "(k, y) \<in> set n" "bt_get m k = None"
          "d = \<lparr>pd_pointer = key_ptr p k, pd_from = None, pd_to = Some y\<rparr>" by (auto simp: only_in_b_def)
        moreover then have "bt_get n k = Some y" using "1.prems" 1 by (simp add: bt_get_wf_iff)
        ultimately show ?thesis using 1 located_here[of None "Some y" "key_ptr p k"] by (intro located_key[of m k n, folded 1]) simp
      qed
    next
      case (2 xs ys)
      then show ?thesis
        using "1.IH" "1.prems" by (simp add: compare_containers) (blast intro: located_idx)
    qed
  next
    case False
    then have "a \<noteq> b \<and> d = \<lparr>pd_pointer = p, pd_from = Some a, pd_to = Some b\<rparr>"
      using "1.prems"(3) by (auto simp: compare_values.simps[of a b] split: if_splits json.splits)
    then show ?thesis using located_here[of "Some a" "Some b" p] by simp
  qed
next
  case (3 key a_child a_map b_map p)
  show ?case
  proof (cases "d \<in> set (compare_members a_map b_map p)")
    case True
    with "3.IH"(2) "3.prems" show ?thesis by auto
  next
    case False
    have "json_wf y" if "bt_get b_map key = Some y" for y
      using that "3.prems"(2) by (force simp: bt_get_def dest: map_of_SomeD)
    with False have "located (Some a_child) (bt_get b_map key) (key_ptr p key) d"
      using "3.prems" "3.IH"(1) by (auto simp: located_here split: option.splits)
    then show ?thesis by auto
  qed
next
  case (5 idx a as p)
  then consider "d = \<lparr>pd_pointer = idx_ptr p idx, pd_from = Some a, pd_to = None\<rparr>"
    | "d \<in> set (compare_items (Suc idx) as [] p)" by auto
  then show ?case
  proof cases
    case 1
    then show ?thesis using located_here[of "Some a" None] by (intro exI[where x = 0]) simp
  next
    case 2
    with 5 obtain j where "located (item_at j as) (item_at j []) (idx_ptr p (Suc idx + j)) d" by auto
    then show ?thesis by (intro exI[where x = "Suc j"]) simp
  qed
next
  case (6 idx b bs p)
  then consider "d = \<lparr>pd_pointer = idx_ptr p idx, pd_from = None, pd_to = Some b\<rparr>"
    | "d \<in> set (compare_items (Suc idx) [] bs p)" by auto
  then show ?case
  proof cases
    case 1
    then show ?thesis using located_here[of None "Some b"] by (intro exI[where x = 0]) simp
  next
    case 2
    with 6 obtain j where "located (item_at j []) (item_at j bs) (idx_ptr p (Suc idx + j)) d" by auto
    then show ?thesis by (intro exI[where x = "Suc j"]) simp
  qed
next
  case (7 idx a as b bs p)
  then consider "d \<in> set (compare_values a b (idx_ptr p idx))" | "d \<in> set (compare_items (Suc idx) as bs p)" by auto
  then show ?case
  proof cases
    case 1
    with 7 show ?thesis by (intro exI[where x = 0]) simp
  next
    case 2
    with 7 obtain j where "located (item_at j as) (item_at j bs) (idx_ptr p (Suc idx + j)) d" by auto
    then show ?thesis by (intro exI[where x = "Suc j"]) simp
  qed
qed simp_all

text \<open>Escaping is injective and hides every slash, so pointers cannot be confused.\<close>

definition escape_char :: "char \<Rightarrow> string" where
  "escape_char c = (if c = CHR ''~'' then ''~0'' else if c = CHR ''/'' then ''~1'' else [c])"

lemma escape_pointer_token_chars: "escape_pointer_token t = concat (map escape_char t)"
  by (induction t) (auto simp: escape_pointer_token_def replace_char_def escape_char_def)

lemma escape_no_slash: "CHR ''/'' \<notin> set (escape_pointer_token t)"
  by (induction t) (auto simp: escape_pointer_token_chars escape_char_def)

lemma escape_inj: "escape_pointer_token s = escape_pointer_token t \<Longrightarrow> s = t"
proof (induction s arbitrary: t)
  case Nil
  then show ?case by (cases t) (auto simp: escape_pointer_token_chars escape_char_def split: if_splits)
next
  case (Cons c s)
  then show ?case
    by (cases t) (auto simp: escape_pointer_token_chars escape_char_def split: if_splits)
qed

lemma split_at_slash:
  assumes "x @ ''/'' @ u = y @ ''/'' @ v" "CHR ''/'' \<notin> set x" "CHR ''/'' \<notin> set y"
  shows "x = y \<and> u = v"
  using assms
proof (induction x arbitrary: y)
  case Nil
  then show ?case by (cases y) auto
next
  case (Cons c x)
  then show ?case by (cases y) auto
qed

end
