(* ===== verification/Catalog.thy ===== *)
theory Catalog
  imports Session JsonDiff "HOL-Library.Sublist"
begin

text \<open>
  The tool catalog of a session and its drift (\<open>crates/mcptracer-model/src/diff.rs\<close>):
  reconstruction of the latest cursor-linked \<open>tools/list\<close> snapshot, the identity hash of a tool
  and the security findings of \<open>diff_tools\<close>.
\<close>

section \<open>Tools\<close>

record tool_def =
  td_title :: "string option"
  td_description :: "string option"
  td_input_schema :: "json option"
  td_output_schema :: "json option"
  td_annotations :: "json option"

fun opt_str :: "string option \<Rightarrow> json" where
  "opt_str None = JNull"
| "opt_str (Some s) = JString s"

fun opt_json :: "json option \<Rightarrow> json" where
  "opt_json None = JNull"
| "opt_json (Some v) = v"

definition tool_identity :: "string \<Rightarrow> tool_def \<Rightarrow> json" where
  "tool_identity name def =
     JObject (bt_collect
       [(''name'', JString name), (''title'', opt_str (td_title def)),
        (''description'', opt_str (td_description def)), (''inputSchema'', opt_json (td_input_schema def)),
        (''outputSchema'', opt_json (td_output_schema def)), (''annotations'', opt_json (td_annotations def))])"

definition tool_identity_canonical :: "serde \<Rightarrow> string \<Rightarrow> tool_def \<Rightarrow> string" where
  "tool_identity_canonical S name def = print_json S (tool_identity name def)"

definition hex_byte :: "char \<Rightarrow> string" where
  "hex_byte c = [hex_lower (of_char c div 16), hex_lower (of_char c mod 16)]"

definition sha256_hex :: "serde \<Rightarrow> string \<Rightarrow> string" where
  "sha256_hex S text = concat (map hex_byte (sha256_digest S text))"

definition tool_hash :: "serde \<Rightarrow> string \<Rightarrow> tool_def \<Rightarrow> string" where
  "tool_hash S name def = sha256_hex S (tool_identity_canonical S name def)"

section \<open>The catalog\<close>

definition payloads_by_seq :: "serde \<Rightarrow> stored_message list \<Rightarrow> (u64, json) btree" where
  "payloads_by_seq S msgs =
     bt_collect (List.map_filter (\<lambda>m. map_option (\<lambda>v. (msg_seq m, v)) (parse_json S (msg_payload m))) msgs)"

record tool_catalog =
  tc_tools :: "(string, tool_def) btree"
  tc_complete :: bool

text \<open>The loop's state: the catalog so far, the cursor the next page must carry, and whether a first page was seen.\<close>

record catalog_state =
  cs_catalog :: tool_catalog
  cs_expected :: "string option"
  cs_collecting :: bool

definition catalog_init :: catalog_state where
  "catalog_init =
     \<lparr>cs_catalog = \<lparr>tc_tools = [], tc_complete = False\<rparr>, cs_expected = None, cs_collecting = False\<rparr>"

definition get_str :: "json \<Rightarrow> string \<Rightarrow> string option" where
  "get_str v k = Option.bind (json_get v k) as_str"

definition read_tool :: "json \<Rightarrow> tool_def" where
  "read_tool tool =
     \<lparr>td_title = get_str tool ''title'', td_description = get_str tool ''description'',
      td_input_schema = json_get tool ''inputSchema'', td_output_schema = json_get tool ''outputSchema'',
      td_annotations = json_get tool ''annotations''\<rparr>"

fun add_tools :: "(string, tool_def) btree \<Rightarrow> json list \<Rightarrow> (string, tool_def) btree" where
  "add_tools m [] = m"
| "add_tools m (tool # tools) =
     add_tools (case get_str tool ''name'' of
                  Some name \<Rightarrow> bt_insert name (read_tool tool) m
                | None \<Rightarrow> m) tools"

definition payload_of :: "(u64, json) btree \<Rightarrow> u64 option \<Rightarrow> json option" where
  "payload_of payloads s = Option.bind s (bt_get payloads)"

definition list_cursor :: "serde \<Rightarrow> (u64, json) btree \<Rightarrow> exchange \<Rightarrow> string option" where
  "list_cursor S payloads e =
     Option.bind (payload_of payloads (ex_request_seq e)) (\<lambda>payload.
       Option.bind (json_pointer S payload ''/params/cursor'') as_str)"

definition list_result :: "(u64, json) btree \<Rightarrow> exchange \<Rightarrow> json option" where
  "list_result payloads e =
     Option.bind (payload_of payloads (ex_response_seq e)) (\<lambda>payload. json_get payload ''result'')"

definition catalog_step :: "serde \<Rightarrow> (u64, json) btree \<Rightarrow> catalog_state \<Rightarrow> exchange \<Rightarrow> catalog_state" where
  "catalog_step S payloads st e =
     (let cursor = list_cursor S payloads e;
          st1 = (if cursor = None
                 then \<lparr>cs_catalog = \<lparr>tc_tools = [], tc_complete = False\<rparr>, cs_expected = None, cs_collecting = True\<rparr>
                 else st)
      in if \<not> cs_collecting st1 \<or> cursor \<noteq> cs_expected st1 then st1
         else case list_result payloads e of
           None \<Rightarrow> st1
         | Some result \<Rightarrow>
             (case Option.bind (json_get result ''tools'') as_array of
                None \<Rightarrow> st1
              | Some tools \<Rightarrow>
                  let expected = get_str result ''nextCursor''
                  in st1\<lparr>cs_catalog := \<lparr>tc_tools = add_tools (tc_tools (cs_catalog st1)) tools,
                                        tc_complete = (expected = None)\<rparr>,
                         cs_expected := expected\<rparr>))"

definition is_listing :: "exchange \<Rightarrow> bool" where
  "is_listing e \<longleftrightarrow> ex_method e = Some ''tools/list'' \<and> ex_status e = Ok"

definition extract_tool_catalog :: "serde \<Rightarrow> stored_message list \<Rightarrow> tool_catalog" where
  "extract_tool_catalog S msgs =
     cs_catalog (foldl (catalog_step S (payloads_by_seq S msgs)) catalog_init
       (filter is_listing (exchanges (correlate S msgs))))"

definition extract_tools :: "serde \<Rightarrow> stored_message list \<Rightarrow> (string, tool_def) btree" where
  "extract_tools S msgs = tc_tools (extract_tool_catalog S msgs)"

section \<open>Drift\<close>

datatype security_finding_kind =
    ToolAdded | ToolRemoved | ToolTitleChanged | ToolDescriptionChanged | ToolSchemaChanged
  | ToolOutputSchemaChanged | ToolAnnotationsChanged

record security_finding =
  sf_kind :: security_finding_kind
  sf_tool :: string
  sf_detail :: string

definition unwrap_or_empty :: "string option \<Rightarrow> string" where
  "unwrap_or_empty s = (case s of Some x \<Rightarrow> x | None \<Rightarrow> [])"

text \<open>The ellipsis is the character U+2026 in UTF-8.\<close>

definition truncate_text :: "string \<Rightarrow> string" where
  "truncate_text s =
     (if length s \<le> 80 then s else utf8_take 80 s @ [CHR 0xE2, CHR 0x80, CHR 0xA6])"

definition annotations_text :: "serde \<Rightarrow> json option \<Rightarrow> string" where
  "annotations_text S v = (case v of Some x \<Rightarrow> print_json S x | None \<Rightarrow> ''none'')"

definition changed_findings :: "serde \<Rightarrow> string \<Rightarrow> tool_def \<Rightarrow> tool_def \<Rightarrow> security_finding list" where
  "changed_findings S name a b =
     (if td_title a \<noteq> td_title b
      then [\<lparr>sf_kind = ToolTitleChanged, sf_tool = name,
             sf_detail = ''title changed from '' @ debug_str (unwrap_or_empty (td_title a)) @ '' to ''
               @ debug_str (unwrap_or_empty (td_title b))\<rparr>] else [])
     @ (if td_description a \<noteq> td_description b
        then [\<lparr>sf_kind = ToolDescriptionChanged, sf_tool = name,
               sf_detail = ''description changed from ''
                 @ debug_str (truncate_text (unwrap_or_empty (td_description a))) @ '' to ''
                 @ debug_str (truncate_text (unwrap_or_empty (td_description b)))\<rparr>] else [])
     @ (if td_input_schema a \<noteq> td_input_schema b
        then [\<lparr>sf_kind = ToolSchemaChanged, sf_tool = name, sf_detail = ''inputSchema changed''\<rparr>] else [])
     @ (if td_output_schema a \<noteq> td_output_schema b
        then [\<lparr>sf_kind = ToolOutputSchemaChanged, sf_tool = name, sf_detail = ''outputSchema changed''\<rparr>] else [])
     @ (if td_annotations a \<noteq> td_annotations b
        then [\<lparr>sf_kind = ToolAnnotationsChanged, sf_tool = name,
               sf_detail = ''annotations changed from '' @ annotations_text S (td_annotations a) @ '' to ''
                 @ annotations_text S (td_annotations b)\<rparr>] else [])"

definition current_findings ::
  "serde \<Rightarrow> (string, tool_def) btree \<Rightarrow> (string, tool_def) btree \<Rightarrow> security_finding list" where
  "current_findings S a_tools b_tools =
     concat (map (\<lambda>(name, b_def). case bt_get a_tools name of
         None \<Rightarrow> [\<lparr>sf_kind = ToolAdded, sf_tool = name, sf_detail = ''tool not present in baseline session''\<rparr>]
       | Some a_def \<Rightarrow> changed_findings S name a_def b_def) b_tools)"

definition missing_tools :: "(string, tool_def) btree \<Rightarrow> (string, tool_def) btree \<Rightarrow> string list" where
  "missing_tools a_tools b_tools = filter (\<lambda>name. bt_get b_tools name = None) (bt_keys a_tools)"

definition removed_findings ::
  "(string, tool_def) btree \<Rightarrow> (string, tool_def) btree \<Rightarrow> security_finding list" where
  "removed_findings a_tools b_tools =
     map (\<lambda>name. \<lparr>sf_kind = ToolRemoved, sf_tool = name,
                   sf_detail = ''tool present in baseline session but missing now''\<rparr>)
       (missing_tools a_tools b_tools)"

definition tool_findings ::
  "serde \<Rightarrow> (string, tool_def) btree \<Rightarrow> (string, tool_def) btree \<Rightarrow> security_finding list" where
  "tool_findings S a_tools b_tools = current_findings S a_tools b_tools @ removed_findings a_tools b_tools"

section \<open>Catalog lemmas\<close>

lemma add_tools_wf: "bt_wf m \<Longrightarrow> bt_wf (add_tools m tools)"
  by (induction tools arbitrary: m) (auto simp: bt_wf_insert split: option.splits)

lemma catalog_step_wf: "bt_wf (tc_tools (cs_catalog st)) \<Longrightarrow> bt_wf (tc_tools (cs_catalog (catalog_step S P st e)))"
  by (auto simp: catalog_step_def Let_def add_tools_wf split: option.splits)

lemma catalog_loop_wf:
  "bt_wf (tc_tools (cs_catalog st)) \<Longrightarrow> bt_wf (tc_tools (cs_catalog (foldl (catalog_step S P) st es)))"
  by (induction es arbitrary: st) (auto simp: catalog_step_wf)

lemma extract_tools_wf: "bt_wf (extract_tools S msgs)"
  unfolding extract_tools_def extract_tool_catalog_def
  by (rule catalog_loop_wf) (simp add: catalog_init_def)

text \<open>One tool of a page: its name and what is recorded for it.\<close>

definition page_entries :: "json list \<Rightarrow> (string \<times> tool_def) list" where
  "page_entries tools = List.map_filter (\<lambda>t. map_option (\<lambda>n. (n, read_tool t)) (get_str t ''name'')) tools"

lemma add_tools_collect: "add_tools m tools = foldl (\<lambda>m (k, v). bt_insert k v m) m (page_entries tools)"
  by (induction tools arbitrary: m) (auto simp: page_entries_def List.map_filter_simps split: option.splits)

lemma changed_findings_Nil: "changed_findings S name a b = [] \<longleftrightarrow> a = b"
  by (auto simp: changed_findings_def)

lemma removed_findings_Nil: "removed_findings a b = [] \<longleftrightarrow> (\<forall>k. bt_get b k = None \<longrightarrow> bt_get a k = None)"
  by (auto simp: removed_findings_def missing_tools_def filter_empty_conv bt_keys_def bt_get_keys)

lemma current_findings_Nil:
  "current_findings S a b = [] \<longleftrightarrow> (\<forall>e \<in> set b. bt_get a (fst e) = Some (snd e))"
  by (auto simp: current_findings_def changed_findings_Nil split: option.splits)

lemma tool_findings_Nil:
  assumes "bt_wf a" "bt_wf b"
  shows "tool_findings S a b = [] \<longleftrightarrow> a = b"
proof
  assume "tool_findings S a b = []"
  then have cur: "\<forall>e \<in> set b. bt_get a (fst e) = Some (snd e)"
    and rem: "\<forall>k. bt_get b k = None \<longrightarrow> bt_get a k = None"
    by (simp_all add: tool_findings_def current_findings_Nil removed_findings_Nil)
  show "a = b"
  proof (rule bt_ext[OF assms])
    fix k
    show "bt_get a k = bt_get b k"
    proof (cases "bt_get b k")
      case (Some v)
      with assms(2) have "(k, v) \<in> set b" by (simp add: bt_get_wf_iff)
      with cur Some show ?thesis by force
    next
      case None
      with rem show ?thesis by simp
    qed
  qed
next
  assume "a = b"
  then show "tool_findings S a b = []"
    using assms by (auto simp: tool_findings_def current_findings_Nil removed_findings_Nil bt_get_wf_iff)
qed

text \<open>The tools with a finding are those that differ.\<close>

lemma changed_findings_tools: "sf_tool ` set (changed_findings S n x y) = (if x = y then {} else {n})"
proof -
  have "list_all (\<lambda>f. sf_tool f = n) (changed_findings S n x y)"
    unfolding changed_findings_def list_all_append by (intro conjI) simp_all
  moreover have "changed_findings S n x y = [] \<longleftrightarrow> x = y" by (rule changed_findings_Nil)
  ultimately show ?thesis by (cases "changed_findings S n x y") (auto simp: list_all_iff)
qed

lemma current_finding_tools:
  "n \<in> sf_tool ` set (current_findings S a b) \<longleftrightarrow> (\<exists>y. (n, y) \<in> set b \<and> bt_get a n \<noteq> Some y)"
proof -
  have one: "sf_tool ` set (case bt_get a m of
         None \<Rightarrow> [\<lparr>sf_kind = ToolAdded, sf_tool = m, sf_detail = ''tool not present in baseline session''\<rparr>]
       | Some x \<Rightarrow> changed_findings S m x y) = (if bt_get a m = Some y then {} else {m})" for m y
    by (simp add: changed_findings_tools split: option.splits)
  have "sf_tool ` set (current_findings S a b) = (\<Union>(m, y) \<in> set b. if bt_get a m = Some y then {} else {m})"
    unfolding one[symmetric] by (auto simp: current_findings_def)
  then show ?thesis by (fastforce split: if_splits)
qed

lemma finding_tools:
  assumes "bt_wf a" "bt_wf b"
  shows "n \<in> sf_tool ` set (tool_findings S a b) \<longleftrightarrow> bt_get a n \<noteq> bt_get b n"
proof -
  have "n \<in> sf_tool ` set (removed_findings a b) \<longleftrightarrow> bt_get b n = None \<and> bt_get a n \<noteq> None"
    by (force simp: removed_findings_def missing_tools_def bt_keys_def bt_get_keys image_image)
  moreover have "n \<in> sf_tool ` set (current_findings S a b) \<longleftrightarrow> bt_get b n \<noteq> None \<and> bt_get a n \<noteq> bt_get b n"
    unfolding current_finding_tools bt_get_wf_iff[OF assms(2), symmetric] by auto
  ultimately show ?thesis by (auto simp: tool_findings_def image_Un)
qed

section \<open>Cursor chains\<close>

definition page_of :: "(u64, json) btree \<Rightarrow> exchange \<Rightarrow> (json list \<times> string option) option" where
  "page_of P e =
     Option.bind (list_result P e) (\<lambda>r.
       map_option (\<lambda>ts. (ts, get_str r ''nextCursor'')) (Option.bind (json_get r ''tools'') as_array))"

text \<open>
  Pages linked by their cursors: the first request carries none, every other one the cursor the
  page before it announced.  A chain has the tools of its pages and the cursor still to follow.
\<close>

inductive chain ::
  "serde \<Rightarrow> (u64, json) btree \<Rightarrow> exchange list \<Rightarrow> string option \<Rightarrow> (string \<times> tool_def) list \<Rightarrow> bool"
  for S P where
  chain_start: "chain S P [] None []"
| chain_page: "chain S P ps cur ents \<Longrightarrow> ps = [] \<or> cur \<noteq> None \<Longrightarrow> list_cursor S P e = cur \<Longrightarrow>
     page_of P e = Some (ts, nx) \<Longrightarrow> chain S P (ps @ [e]) nx (ents @ page_entries ts)"

inductive_cases chain_NilE: "chain S P [] cur ents"
inductive_cases chain_snocE: "chain S P (ps @ [e]) nx ents"

lemma bt_collect_append:
  "bt_collect (xs @ ys) = foldl (\<lambda>m (k, v). bt_insert k v m) (bt_collect xs) ys"
  by (simp add: bt_collect_def)

definition restarted :: catalog_state where
  "restarted = catalog_init\<lparr>cs_collecting := True\<rparr>"

lemma catalog_step_cases:
  "catalog_step S P st e =
     (let st1 = (if list_cursor S P e = None then restarted else st)
      in if \<not> cs_collecting st1 \<or> list_cursor S P e \<noteq> cs_expected st1 then st1
         else case page_of P e of
           None \<Rightarrow> st1
         | Some (ts, nx) \<Rightarrow>
             st1\<lparr>cs_catalog := \<lparr>tc_tools = add_tools (tc_tools (cs_catalog st1)) ts, tc_complete = (nx = None)\<rparr>,
                 cs_expected := nx\<rparr>)"
proof -
  have r: "restarted = \<lparr>cs_catalog = \<lparr>tc_tools = [], tc_complete = False\<rparr>, cs_expected = None, cs_collecting = True\<rparr>"
    by (simp add: restarted_def catalog_init_def)
  show ?thesis
    unfolding catalog_step_def page_of_def Let_def r[symmetric]
    by (cases "list_result P e"; cases "Option.bind (json_get (the (list_result P e)) ''tools'') as_array") simp_all
qed

definition on_chain ::
  "serde \<Rightarrow> (u64, json) btree \<Rightarrow> exchange list \<Rightarrow> (string \<times> tool_def) list \<Rightarrow> catalog_state \<Rightarrow> bool" where
  "on_chain S P ps ents st \<longleftrightarrow>
     chain S P ps (cs_expected st) ents \<and> tc_tools (cs_catalog st) = bt_collect ents \<and>
     tc_complete (cs_catalog st) = (ps \<noteq> [] \<and> cs_expected st = None) \<and> cs_collecting st"

lemma on_chain_restarted: "on_chain S P [] [] restarted"
  by (simp add: on_chain_def restarted_def catalog_init_def chain_start bt_collect_def)

lemma on_chain_page:
  assumes "on_chain S P ps ents st" "ps = [] \<or> cs_expected st \<noteq> None" "list_cursor S P e = cs_expected st"
    "page_of P e = Some (ts, nx)"
  shows "on_chain S P (ps @ [e]) (ents @ page_entries ts) (catalog_step S P st e)"
proof -
  have st: "list_cursor S P e = None \<Longrightarrow> st = restarted"
  proof -
    assume "list_cursor S P e = None"
    with assms have "ps = []" "cs_expected st = None" by auto
    with assms(1) have "ents = []" "tc_tools (cs_catalog st) = []" "\<not> tc_complete (cs_catalog st)" "cs_collecting st"
      by (auto simp: on_chain_def bt_collect_def elim: chain_NilE)
    with \<open>cs_expected st = None\<close> show ?thesis by (simp add: restarted_def catalog_init_def)
  qed
  have "chain S P ps (cs_expected st) ents" using assms(1) by (simp add: on_chain_def)
  then have "chain S P (ps @ [e]) nx (ents @ page_entries ts)" using assms(2-4) by (rule chain_page)
  with assms st show ?thesis
    by (auto simp: on_chain_def catalog_step_cases Let_def add_tools_collect bt_collect_append)
qed

lemma catalog_loop_chain:
  "(\<not> cs_collecting st \<and> st = catalog_init) \<or> (\<exists>ps ents. on_chain S P ps ents st \<and> subseq ps es)"
  if "st = foldl (catalog_step S P) catalog_init es"
  using that
proof (induction es arbitrary: st rule: rev_induct)
  case (snoc e es)
  let ?st = "foldl (catalog_step S P) catalog_init es"
  show ?case
  proof (cases "list_cursor S P e")
    case None
    show ?thesis
    proof (cases "page_of P e")
      case (Some tn)
      then obtain ts nx where "page_of P e = Some (ts, nx)" by (cases tn) auto
      then have "on_chain S P ([] @ [e]) ([] @ page_entries ts) (catalog_step S P restarted e)"
        using None by (intro on_chain_page on_chain_restarted) (simp_all add: restarted_def catalog_init_def)
      moreover have "catalog_step S P restarted e = st" using snoc.prems None by (simp add: catalog_step_cases[of S P _ e])
      moreover have "subseq [e] (es @ [e])" using subseq_append[of "[]" "[e]" es] by simp
      ultimately show ?thesis by auto
    next
      case no: None
      then have "st = restarted" using snoc.prems None by (simp add: catalog_step_cases[of S P _ e] restarted_def catalog_init_def)
      then show ?thesis using on_chain_restarted[of S P] by blast
    qed
  next
    case (Some c)
    from snoc.IH[OF refl] consider "\<not> cs_collecting ?st" "?st = catalog_init"
      | ps ents where "on_chain S P ps ents ?st" "subseq ps es" by blast
    then show ?thesis
    proof cases
      case 1
      then have "st = ?st" using snoc.prems Some by (simp add: catalog_step_cases[of S P catalog_init e])
      with 1 show ?thesis by simp
    next
      case (2 ps ents)
      have keep: "subseq ps (es @ [e])" using list_emb_append_mono[OF 2(2), of "[]" "[e]"] by simp
      show ?thesis
      proof (cases "cs_expected ?st = Some c \<and> page_of P e \<noteq> None")
        case True
        then obtain ts nx where "page_of P e = Some (ts, nx)" by auto
        with True Some have "on_chain S P (ps @ [e]) (ents @ page_entries ts) (catalog_step S P ?st e)"
          by (intro on_chain_page 2(1)) simp_all
        moreover have "subseq (ps @ [e]) (es @ [e])" using 2(2) by (simp add: subseq_append')
        ultimately show ?thesis using snoc.prems by auto
      next
        case False
        then have "st = ?st" using snoc.prems Some by (auto simp: catalog_step_cases[of S P ?st e] Let_def split: option.splits)
        with 2(1) keep show ?thesis by auto
      qed
    qed
  qed
qed (simp add: catalog_init_def)

text \<open>A chain that ends the log is the one the catalog shows, whatever came before it.\<close>

lemma chain_found:
  "chain S P ps nx ents \<Longrightarrow> ps \<noteq> [] \<Longrightarrow>
     on_chain S P ps ents (foldl (catalog_step S P) st ps) \<and> cs_expected (foldl (catalog_step S P) st ps) = nx"
proof (induction rule: chain.induct)
  case (chain_page ps cur ents e ts nx)
  let ?st = "foldl (catalog_step S P) st ps"
  show ?case
  proof (cases "ps = []")
    case True
    with chain_page.hyps have "cur = None" "ents = []" by (auto elim: chain_NilE)
    with chain_page.hyps have "on_chain S P ([] @ [e]) ([] @ page_entries ts) (catalog_step S P restarted e)"
      by (intro on_chain_page on_chain_restarted) (simp_all add: restarted_def catalog_init_def)
    moreover have "catalog_step S P restarted e = catalog_step S P st e" "cs_expected (catalog_step S P st e) = nx"
      using chain_page.hyps \<open>cur = None\<close> by (simp_all add: catalog_step_cases restarted_def catalog_init_def)
    ultimately show ?thesis using True \<open>ents = []\<close> by simp
  next
    case False
    with chain_page.IH have st: "on_chain S P ps ents ?st" "cs_expected ?st = cur" by simp_all
    with chain_page.hyps False obtain c where c: "cur = Some c" by auto
    have "on_chain S P (ps @ [e]) (ents @ page_entries ts) (catalog_step S P ?st e)"
      using chain_page.hyps st by (intro on_chain_page) simp_all
    moreover have "cs_expected (catalog_step S P ?st e) = nx"
      using chain_page.hyps st c by (simp add: catalog_step_cases on_chain_def)
    ultimately show ?thesis by simp
  qed
qed simp

section \<open>Pinning\<close>

text \<open>The hash sees every field of the contract; an explicit null schema counts as an absent one.\<close>

definition contract :: "tool_def \<Rightarrow> json list" where
  "contract d = [opt_str (td_title d), opt_str (td_description d), opt_json (td_input_schema d),
     opt_json (td_output_schema d), opt_json (td_annotations d)]"

lemma tool_identity_get:
  "bt_get (bt_collect kvs) k = map_of kvs k" if "distinct (map fst kvs)"
  using that by (rule bt_collect_get_distinct)

lemma tool_identity_eq: "tool_identity n d = tool_identity n' d' \<longleftrightarrow> n = n' \<and> contract d = contract d'"
proof
  assume eq: "tool_identity n d = tool_identity n' d'"
  have get: "json_get (tool_identity n d) k = map_of
      [(''name'', JString n), (''title'', opt_str (td_title d)),
       (''description'', opt_str (td_description d)), (''inputSchema'', opt_json (td_input_schema d)),
       (''outputSchema'', opt_json (td_output_schema d)), (''annotations'', opt_json (td_annotations d))] k"
    for n d k unfolding tool_identity_def json_get.simps by (rule bt_collect_get_distinct) simp
  have "json_get (tool_identity n d) k = json_get (tool_identity n' d') k" for k using eq by simp
  note fields = this[of "''name''"] this[of "''title''"] this[of "''description''"] this[of "''inputSchema''"]
    this[of "''outputSchema''"] this[of "''annotations''"]
  from fields show "n = n' \<and> contract d = contract d'" unfolding get by (simp add: contract_def)
qed (simp add: tool_identity_def contract_def)

lemma hex_lower_inj: "m < 16 \<Longrightarrow> n < 16 \<Longrightarrow> hex_lower m = hex_lower n \<Longrightarrow> m = n"
proof -
  assume "m < 16" "n < 16" "hex_lower m = hex_lower n"
  then have "(of_char (hex_lower m) :: nat) = of_char (hex_lower n)" by simp
  with \<open>m < 16\<close> \<open>n < 16\<close> show "m = n" by (simp add: hex_lower_def split: if_splits)
qed

lemma hex_byte_inj: "hex_byte a = hex_byte b \<Longrightarrow> a = b"
proof -
  assume h: "hex_byte a = hex_byte b"
  have lt: "(of_char c :: nat) < 256" for c :: char by (rule nat_of_char_less_256)
  then have "(of_char c :: nat) div 16 < 16" for c :: char using less_mult_imp_div_less[of "of_char c" 16 16] by simp
  with h have "(of_char a :: nat) div 16 = of_char b div 16" "(of_char a :: nat) mod 16 = of_char b mod 16"
    by (auto simp: hex_byte_def intro: hex_lower_inj)
  then have "(of_char a :: nat) = of_char b" by (metis div_mult_mod_eq)
  then show "a = b" by simp
qed

lemma sha256_hex_eq: "sha256_hex S x = sha256_hex S y \<longleftrightarrow> sha256_digest S x = sha256_digest S y"
proof -
  have "concat (map hex_byte u) = concat (map hex_byte v) \<Longrightarrow> u = v" for u v
  proof (induction u arbitrary: v)
    case Nil
    then show ?case by (cases v) (auto simp: hex_byte_def)
  next
    case (Cons a u)
    then show ?case by (cases v) (auto simp: hex_byte_def intro: hex_byte_inj[unfolded hex_byte_def])
  qed
  then show ?thesis by (auto simp: sha256_hex_def)
qed

end
