(* ===== verification/Diff.thy ===== *)
theory Diff
  imports Catalog
begin

text \<open>
  The session diff (\<open>crates/mcptracer-model/src/diff.rs\<close>): alignment of two sessions by stable
  keys, comparison of aligned exchanges and notifications, the earliest point of divergence and the
  report that puts them together with the tool findings.
\<close>

section \<open>Options and report\<close>

record diff_options =
  do_ignore :: ignore_rules
  do_ignore_latency :: bool
  do_latency_threshold_pct :: f64
  do_latency_threshold_ns :: i64

definition diff_options_default :: diff_options where
  "diff_options_default =
     \<lparr>do_ignore = ignore_rules_default, do_ignore_latency = False, do_latency_threshold_pct = 20,
      do_latency_threshold_ns = 1000000\<rparr>"

datatype exchange_delta =
    StatusChanged exchange_status exchange_status
  | ErrorCodeChanged "i64 option" "i64 option"
  | RequestChanged "pointer_diff list"
  | ResponseChanged "pointer_diff list"
  | LatencyChanged i64 i64 f64

record aligned_diff =
  ad_key :: string
  ad_deltas :: "exchange_delta list"

datatype divergence_kind =
    MethodMismatch | StatusMismatch | ErrorCodeMismatch | RequestMismatch | ResponseMismatch
  | MissingExchange | ExtraExchange

record point_of_divergence =
  pv_step_index :: usize
  pv_key :: string
  pv_kind :: divergence_kind
  pv_detail :: string

record diff_report =
  dr_changed :: "aligned_diff list"
  dr_added :: "string list"
  dr_removed :: "string list"
  dr_tools_added :: "string list"
  dr_tools_removed :: "string list"
  dr_security :: "security_finding list"
  dr_error_rate_from :: f64
  dr_error_rate_to :: f64
  dr_point_of_divergence :: "point_of_divergence option"

definition report_is_empty :: "diff_report \<Rightarrow> bool" where
  "report_is_empty r \<longleftrightarrow>
     dr_changed r = [] \<and> dr_added r = [] \<and> dr_removed r = [] \<and> dr_security r = [] \<and>
     dr_point_of_divergence r = None"

definition error_rate :: "exchange list \<Rightarrow> f64" where
  "error_rate es =
     (if es = [] then 0
      else f64_div (f64_of_int (int (count_status [Error, ToolError] es))) (f64_of_int (int (length es))))"

section \<open>Alignment keys\<close>

text \<open>Occurrences of a base name are numbered; the counters live in an ordered map.\<close>

definition alignment_base :: "exchange \<Rightarrow> string option" where
  "alignment_base e =
     (if ex_status e = OrphanResponse then None
      else case (ex_method e, ex_tool_name e) of
        (Some method, Some tool) \<Rightarrow> Some (method @ '' '' @ tool)
      | (Some method, None) \<Rightarrow> Some method
      | _ \<Rightarrow> None)"

fun origin_tag :: "direction \<Rightarrow> string" where
  "origin_tag ClientToServer = ''''"
| "origin_tag ServerToClient = ''server:''"

fun number_keys :: "('a \<Rightarrow> string option) \<Rightarrow> (string, usize) btree \<Rightarrow> 'a list \<Rightarrow> (string \<times> 'a) list" where
  "number_keys base counts [] = []"
| "number_keys base counts (x # xs) =
     (case base x of
        None \<Rightarrow> number_keys base counts xs
      | Some b \<Rightarrow>
          let ordinal = (case bt_get counts b of Some n \<Rightarrow> n | None \<Rightarrow> 0)
          in (b @ ''#'' @ nat_dec ordinal, x) # number_keys base (bt_insert b (ordinal + 1) counts) xs)"

definition exchange_base :: "exchange \<Rightarrow> string option" where
  "exchange_base e = map_option (\<lambda>b. origin_tag (ex_origin e) @ b) (alignment_base e)"

definition alignment_keys :: "exchange list \<Rightarrow> (string \<times> exchange) list" where
  "alignment_keys es = number_keys exchange_base [] es"

definition notification_base :: "stored_message \<Rightarrow> string option" where
  "notification_base m =
     (if msg_kind m \<noteq> ''notification'' then None
      else case msg_method m of
        None \<Rightarrow> None
      | Some method \<Rightarrow>
          if msg_direction m = ''s2c'' then Some (''server:notification '' @ method)
          else if msg_direction m = ''c2s'' then Some (''client:notification '' @ method)
          else None)"

definition notification_alignment_keys :: "stored_message list \<Rightarrow> (string \<times> stored_message) list" where
  "notification_alignment_keys msgs = number_keys notification_base [] msgs"

section \<open>Comparison of aligned exchanges\<close>

definition response_subtree :: "exchange \<Rightarrow> (u64, json) btree \<Rightarrow> string \<Rightarrow> json option" where
  "response_subtree e payloads field =
     Option.bind (payload_of payloads (ex_response_seq e)) (\<lambda>payload. json_get payload field)"

definition request_params :: "exchange \<Rightarrow> (u64, json) btree \<Rightarrow> json option" where
  "request_params e payloads =
     map_option (\<lambda>payload. case json_get payload ''params'' of Some v \<Rightarrow> v | None \<Rightarrow> JNull)
       (payload_of payloads (ex_request_seq e))"

definition request_diffs ::
  "ignore_rules \<Rightarrow> exchange \<Rightarrow> exchange \<Rightarrow> (u64, json) btree \<Rightarrow> (u64, json) btree \<Rightarrow> pointer_diff list" where
  "request_diffs rules a b a_payloads b_payloads =
     (case (request_params a a_payloads, request_params b b_payloads) of
        (Some a_params, Some b_params) \<Rightarrow>
          compare_values (normalize_request a_params rules) (normalize_request b_params rules) []
      | _ \<Rightarrow> [])"

definition body_field :: "exchange_status \<Rightarrow> string option" where
  "body_field s =
     (case s of Ok \<Rightarrow> Some ''result'' | ToolError \<Rightarrow> Some ''result'' | Error \<Rightarrow> Some ''error'' | _ \<Rightarrow> None)"

definition response_diffs ::
  "ignore_rules \<Rightarrow> exchange \<Rightarrow> exchange \<Rightarrow> (u64, json) btree \<Rightarrow> (u64, json) btree \<Rightarrow> pointer_diff list" where
  "response_diffs rules a b a_payloads b_payloads =
     (case body_field (ex_status a) of
        None \<Rightarrow> []
      | Some field \<Rightarrow>
          (case (response_subtree a a_payloads field, response_subtree b b_payloads field) of
             (Some a_body, Some b_body) \<Rightarrow>
               compare_values (normalize_response a_body rules) (normalize_response b_body rules) []
           | _ \<Rightarrow> []))"

definition latency_deltas :: "diff_options \<Rightarrow> exchange \<Rightarrow> exchange \<Rightarrow> exchange_delta list" where
  "latency_deltas opts a b =
     (if do_ignore_latency opts then []
      else case (ex_latency_ns a, ex_latency_ns b) of
        (Some from_ns, Some to_ns) \<Rightarrow>
          let diff = wrap_i64 (to_ns - from_ns);
              delta = wrap_i64 \<bar>diff\<bar>
          in if from_ns > 0 \<and> delta > do_latency_threshold_ns opts
             then let pct = f64_mul (f64_div (f64_of_int diff) (f64_of_int from_ns)) 100
                  in if \<bar>pct\<bar> > do_latency_threshold_pct opts
                     then [LatencyChanged from_ns to_ns pct] else []
             else []
      | _ \<Rightarrow> [])"

definition compare_exchanges ::
  "exchange \<Rightarrow> exchange \<Rightarrow> (u64, json) btree \<Rightarrow> (u64, json) btree \<Rightarrow> diff_options \<Rightarrow> exchange_delta list" where
  "compare_exchanges a b a_payloads b_payloads opts =
     (let pd = request_diffs (do_ignore opts) a b a_payloads b_payloads
      in if pd \<noteq> [] then [RequestChanged pd] else [])
     @ (if ex_status a \<noteq> ex_status b then [StatusChanged (ex_status a) (ex_status b)]
        else (if ex_error_code a \<noteq> ex_error_code b
              then [ErrorCodeChanged (ex_error_code a) (ex_error_code b)] else [])
             @ (let pd = response_diffs (do_ignore opts) a b a_payloads b_payloads
                in if pd \<noteq> [] then [ResponseChanged pd] else []))
     @ latency_deltas opts a b"

section \<open>The earliest point of divergence\<close>

fun status_debug :: "exchange_status \<Rightarrow> string" where
  "status_debug Ok = ''Ok''"
| "status_debug Error = ''Error''"
| "status_debug ToolError = ''ToolError''"
| "status_debug Subscribed = ''Subscribed''"
| "status_debug Cancelled = ''Cancelled''"
| "status_debug Unanswered = ''Unanswered''"
| "status_debug OrphanResponse = ''OrphanResponse''"

fun code_debug :: "i64 option \<Rightarrow> string" where
  "code_debug None = ''None''"
| "code_debug (Some c) = ''Some('' @ int_dec c @ '')''"

definition quoted :: "string \<Rightarrow> string" where
  "quoted s = [CHR 0x27] @ s @ [CHR 0x27]"

definition first_pointer :: "pointer_diff list \<Rightarrow> string" where
  "first_pointer pds = (let p = pd_pointer (hd pds) in if p = [] then ''(root)'' else p)"

definition step_divergence ::
  "nat \<Rightarrow> string \<times> exchange \<Rightarrow> string \<times> exchange \<Rightarrow> (u64, json) btree \<Rightarrow> (u64, json) btree \<Rightarrow>
     ignore_rules \<Rightarrow> point_of_divergence option" where
  "step_divergence i ka kb a_payloads b_payloads rules =
     (let (a_key, a_ex) = ka; (b_key, b_ex) = kb;
          rd = request_diffs rules a_ex b_ex a_payloads b_payloads;
          bd = response_diffs rules a_ex b_ex a_payloads b_payloads
      in if a_key \<noteq> b_key then
           Some \<lparr>pv_step_index = i, pv_key = a_key, pv_kind = MethodMismatch,
                 pv_detail = ''trajectory branched at step '' @ nat_dec i @ '': session A executed ''
                   @ quoted a_key @ '' but session B executed '' @ quoted b_key\<rparr>
         else if ex_status a_ex \<noteq> ex_status b_ex then
           Some \<lparr>pv_step_index = i, pv_key = a_key, pv_kind = StatusMismatch,
                 pv_detail = ''status changed at step '' @ nat_dec i @ '' ('' @ a_key @ ''): ''
                   @ status_debug (ex_status a_ex) @ '' -> '' @ status_debug (ex_status b_ex)\<rparr>
         else if ex_error_code a_ex \<noteq> ex_error_code b_ex then
           Some \<lparr>pv_step_index = i, pv_key = a_key, pv_kind = ErrorCodeMismatch,
                 pv_detail = ''error code changed at step '' @ nat_dec i @ '' ('' @ a_key @ ''): ''
                   @ code_debug (ex_error_code a_ex) @ '' -> '' @ code_debug (ex_error_code b_ex)\<rparr>
         else if rd \<noteq> [] then
           Some \<lparr>pv_step_index = i, pv_key = a_key, pv_kind = RequestMismatch,
                 pv_detail = ''request parameters differed at step '' @ nat_dec i @ '' ('' @ a_key
                   @ '') at pointer '' @ quoted (first_pointer rd)\<rparr>
         else if bd \<noteq> [] then
           Some \<lparr>pv_step_index = i, pv_key = a_key, pv_kind = ResponseMismatch,
                 pv_detail = ''response body differed at step '' @ nat_dec i @ '' ('' @ a_key
                   @ '') at pointer '' @ quoted (first_pointer bd)\<rparr>
         else None)"

text \<open>
  The walk over both trajectories; \<open>i\<close> is the index of the next step, so when one side ends it is
  \<open>min_len\<close>, and \<open>i - 1\<close> its saturating predecessor.
\<close>

fun divergence_from ::
  "nat \<Rightarrow> (string \<times> exchange) list \<Rightarrow> (string \<times> exchange) list \<Rightarrow> (u64, json) btree \<Rightarrow> (u64, json) btree \<Rightarrow>
     ignore_rules \<Rightarrow> point_of_divergence option" where
  "divergence_from i (ka # as) (kb # bs) a_payloads b_payloads rules =
     (case step_divergence i ka kb a_payloads b_payloads rules of
        Some d \<Rightarrow> Some d
      | None \<Rightarrow> divergence_from (Suc i) as bs a_payloads b_payloads rules)"
| "divergence_from i (ka # as) [] a_payloads b_payloads rules =
     Some \<lparr>pv_step_index = i, pv_key = fst ka, pv_kind = MissingExchange,
           pv_detail = ''session B stopped prematurely after step '' @ nat_dec (i - 1)
             @ ''; missing expected exchange '' @ quoted (fst ka)\<rparr>"
| "divergence_from i [] (kb # bs) a_payloads b_payloads rules =
     Some \<lparr>pv_step_index = i, pv_key = fst kb, pv_kind = ExtraExchange,
           pv_detail = ''session B executed an additional unexpected exchange '' @ quoted (fst kb)
             @ '' at step '' @ nat_dec i\<rparr>"
| "divergence_from i [] [] a_payloads b_payloads rules = None"

definition compute_point_of_divergence ::
  "(string \<times> exchange) list \<Rightarrow> (string \<times> exchange) list \<Rightarrow> (u64, json) btree \<Rightarrow> (u64, json) btree \<Rightarrow>
     diff_options \<Rightarrow> point_of_divergence option" where
  "compute_point_of_divergence a_keys b_keys a_payloads b_payloads opts =
     divergence_from 0 a_keys b_keys a_payloads b_payloads (do_ignore opts)"

section \<open>The report\<close>

text \<open>
  Both alignments run the same loop: a key absent from the other side is removed (added), a key
  on both sides is compared, and only non-empty deltas are reported.
\<close>

definition removed_keys :: "(string \<times> 'a) list \<Rightarrow> (string \<times> 'a) list \<Rightarrow> string list" where
  "removed_keys a_keys b_keys = filter (\<lambda>k. bt_get (bt_collect b_keys) k = None) (map fst a_keys)"

definition changed_keys ::
  "('a \<Rightarrow> 'a \<Rightarrow> exchange_delta list) \<Rightarrow> (string \<times> 'a) list \<Rightarrow> (string \<times> 'a) list \<Rightarrow> aligned_diff list" where
  "changed_keys cmp a_keys b_keys =
     List.map_filter (\<lambda>(key, a). case bt_get (bt_collect b_keys) key of
         None \<Rightarrow> None
       | Some b \<Rightarrow> let deltas = cmp a b
                  in if deltas \<noteq> [] then Some \<lparr>ad_key = key, ad_deltas = deltas\<rparr> else None) a_keys"

definition compare_notifications ::
  "serde \<Rightarrow> ignore_rules \<Rightarrow> stored_message \<Rightarrow> stored_message \<Rightarrow> exchange_delta list" where
  "compare_notifications S rules a b =
     (case (parse_json S (msg_payload a), parse_json S (msg_payload b)) of
        (Some a_payload, Some b_payload) \<Rightarrow>
          let pd = compare_values (normalize a_payload rules) (normalize b_payload rules) []
          in if pd \<noteq> [] then [ResponseChanged pd] else []
      | _ \<Rightarrow> [])"

definition diff_notification_events ::
  "serde \<Rightarrow> stored_message list \<Rightarrow> stored_message list \<Rightarrow> diff_options \<Rightarrow> diff_report \<Rightarrow> diff_report" where
  "diff_notification_events S a_msgs b_msgs opts r =
     (let a = notification_alignment_keys a_msgs; b = notification_alignment_keys b_msgs
      in r\<lparr>dr_changed := dr_changed r @ changed_keys (compare_notifications S (do_ignore opts)) a b,
           dr_removed := dr_removed r @ removed_keys a b,
           dr_added := dr_added r @ removed_keys b a\<rparr>)"

definition diff_tools ::
  "serde \<Rightarrow> (string, tool_def) btree \<Rightarrow> (string, tool_def) btree \<Rightarrow> diff_report \<Rightarrow> diff_report" where
  "diff_tools S a_tools b_tools r =
     r\<lparr>dr_tools_added := dr_tools_added r @ missing_tools b_tools a_tools,
       dr_tools_removed := dr_tools_removed r @ missing_tools a_tools b_tools,
       dr_security := dr_security r @ tool_findings S a_tools b_tools\<rparr>"

definition diff_sessions ::
  "serde \<Rightarrow> stored_message list \<Rightarrow> stored_message list \<Rightarrow> diff_options \<Rightarrow> diff_report" where
  "diff_sessions S a_msgs b_msgs opts =
     (let a_ex = exchanges (correlate S a_msgs); b_ex = exchanges (correlate S b_msgs);
          a_payloads = payloads_by_seq S a_msgs; b_payloads = payloads_by_seq S b_msgs;
          a_keys = alignment_keys a_ex; b_keys = alignment_keys b_ex;
          r0 = \<lparr>dr_changed = changed_keys (\<lambda>a b. compare_exchanges a b a_payloads b_payloads opts) a_keys b_keys,
                dr_added = removed_keys b_keys a_keys, dr_removed = removed_keys a_keys b_keys,
                dr_tools_added = [], dr_tools_removed = [], dr_security = [],
                dr_error_rate_from = error_rate a_ex, dr_error_rate_to = error_rate b_ex,
                dr_point_of_divergence = None\<rparr>;
          r1 = diff_notification_events S a_msgs b_msgs opts r0;
          r2 = diff_tools S (extract_tools S a_msgs) (extract_tools S b_msgs) r1
      in r2\<lparr>dr_point_of_divergence := compute_point_of_divergence a_keys b_keys a_payloads b_payloads opts\<rparr>)"

end
