(* ===== verification/DiffFacts.thy ===== *)
theory DiffFacts
  imports Diff
begin

text \<open>
  Facts about the session diff: alignment keys identify an occurrence, the reported keys are the
  ones one side lacks, and the walk for the point of divergence stops at the first disagreement.
\<close>

section \<open>Numbered keys\<close>

lemma number_keys_Cons_Some:
  "base x = Some b \<Longrightarrow> number_keys base counts (x # xs) =
     (b @ ''#'' @ nat_dec (case bt_get counts b of Some n \<Rightarrow> n | None \<Rightarrow> 0), x)
       # number_keys base (bt_insert b ((case bt_get counts b of Some n \<Rightarrow> n | None \<Rightarrow> 0) + 1) counts) xs"
  by (simp add: Let_def)

abbreviation count_of :: "(string, usize) btree \<Rightarrow> string \<Rightarrow> usize" where
  "count_of counts b \<equiv> (case bt_get counts b of Some n \<Rightarrow> n | None \<Rightarrow> 0)"

lemma number_keys_at_least:
  "bt_wf counts \<Longrightarrow> (b @ ''#'' @ nat_dec n) \<in> fst ` set (number_keys base counts xs) \<Longrightarrow> count_of counts b \<le> n"
proof (induction xs arbitrary: counts)
  case (Cons x xs)
  show ?case
  proof (cases "base x")
    case None
    with Cons show ?thesis by simp
  next
    case (Some c)
    let ?counts = "bt_insert c (count_of counts c + 1) counts"
    from Cons.prems(2) consider "b @ ''#'' @ nat_dec n = c @ ''#'' @ nat_dec (count_of counts c)"
      | "b @ ''#'' @ nat_dec n \<in> fst ` set (number_keys base ?counts xs)"
      by (auto simp: number_keys_Cons_Some[where base = base and x = x, OF Some] simp del: number_keys.simps)
    then show ?thesis
    proof cases
      case 1
      then show ?thesis using ordinal_key_inj by blast
    next
      case 2
      then have "count_of ?counts b \<le> n" using Cons.prems(1) by (intro Cons.IH) (simp_all add: bt_wf_insert)
      then show ?thesis using Cons.prems(1) by (simp add: bt_get_insert_le split: if_splits)
    qed
  qed
qed simp

lemma number_keys_distinct: "bt_wf counts \<Longrightarrow> distinct (map fst (number_keys base counts xs))"
proof (induction xs arbitrary: counts)
  case (Cons x xs)
  show ?case
  proof (cases "base x")
    case None
    with Cons show ?thesis by simp
  next
    case (Some c)
    let ?counts = "bt_insert c (count_of counts c + 1) counts"
    have wf: "bt_wf ?counts" using Cons.prems by (simp add: bt_wf_insert)
    have "c @ ''#'' @ nat_dec (count_of counts c) \<notin> fst ` set (number_keys base ?counts xs)"
      using number_keys_at_least[OF wf, of c "count_of counts c" base xs] Cons.prems
      by (auto simp: bt_get_insert_le)
    then show ?thesis
      using Cons.IH[OF wf] by (simp add: number_keys_Cons_Some[where base = base and x = x, OF Some] del: number_keys.simps)
  qed
qed simp

lemma number_keys_values: "map snd (number_keys base counts xs) = filter (\<lambda>x. base x \<noteq> None) xs"
  by (induction xs arbitrary: counts) (auto simp: Let_def split: option.splits)

lemma alignment_keys_distinct: "distinct (map fst (alignment_keys es))"
  by (simp add: alignment_keys_def number_keys_distinct)

lemma notification_keys_distinct: "distinct (map fst (notification_alignment_keys ms))"
  by (simp add: notification_alignment_keys_def number_keys_distinct)

section \<open>Reported keys\<close>

lemma removed_keys_set: "set (removed_keys a b) = fst ` set a - fst ` set b"
  by (auto simp: removed_keys_def bt_get_keys bt_collect_keys)

lemma removed_keys_Nil: "removed_keys a b = [] \<longleftrightarrow> fst ` set a \<subseteq> fst ` set b"
  using removed_keys_set[of a b] by (metis Diff_eq_empty_iff set_empty)

lemma changed_keys_Nil:
  assumes "distinct (map fst b)"
  shows "changed_keys cmp a b = [] \<longleftrightarrow> (\<forall>k x y. (k, x) \<in> set a \<longrightarrow> (k, y) \<in> set b \<longrightarrow> cmp x y = [])"
proof -
  have get: "bt_get (bt_collect b) k = Some y \<longleftrightarrow> (k, y) \<in> set b" for k y
    using assms by (simp add: bt_collect_get_distinct)
  have "changed_keys cmp a b = [] \<longleftrightarrow>
      (\<forall>(k, x) \<in> set a. \<forall>y. bt_get (bt_collect b) k = Some y \<longrightarrow> cmp x y = [])"
    by (induction a) (auto simp: changed_keys_def List.map_filter_simps Let_def split: option.splits if_splits)
  then show ?thesis by (auto simp: get)
qed

text \<open>Two alignments agree when both have the same keys in the same order and related values.\<close>

definition aligned :: "('a \<Rightarrow> 'a \<Rightarrow> bool) \<Rightarrow> (string \<times> 'a) list \<Rightarrow> (string \<times> 'a) list \<Rightarrow> bool" where
  "aligned R a b \<longleftrightarrow> list_all2 (\<lambda>x y. fst x = fst y \<and> R (snd x) (snd y)) a b"

lemma aligned_keys: "aligned R a b \<Longrightarrow> map fst a = map fst b"
  by (auto simp: aligned_def list_all2_conv_all_nth intro: nth_equalityI)

lemma aligned_pair:
  assumes "aligned R a b" "distinct (map fst b)" "(k, x) \<in> set a" "(k, y) \<in> set b"
  shows "R x y"
proof -
  from assms(3) obtain i where i: "i < length a" "a ! i = (k, x)" by (auto simp: in_set_conv_nth)
  from assms(4) obtain j where j: "j < length b" "b ! j = (k, y)" by (auto simp: in_set_conv_nth)
  have r: "length a = length b" "fst (a ! i) = fst (b ! i)" "R (snd (a ! i)) (snd (b ! i))"
    using assms(1) i(1) by (auto simp: aligned_def list_all2_conv_all_nth)
  then have "map fst b ! i = map fst b ! j" "i < length (map fst b)" "j < length (map fst b)" using i j by simp_all
  with assms(2) have "i = j" by (metis nth_eq_iff_index_eq)
  with r(3) i j show ?thesis by simp
qed

lemma aligned_refl: "(\<And>k x. (k, x) \<in> set a \<Longrightarrow> R x x) \<Longrightarrow> aligned R a a"
  by (auto simp: aligned_def list_all2_same)

section \<open>The point of divergence\<close>

definition agree ::
  "ignore_rules \<Rightarrow> (u64, json) btree \<Rightarrow> (u64, json) btree \<Rightarrow> exchange \<Rightarrow> exchange \<Rightarrow> bool" where
  "agree rules a_payloads b_payloads a b \<longleftrightarrow>
     ex_status a = ex_status b \<and> ex_error_code a = ex_error_code b \<and>
     request_diffs rules a b a_payloads b_payloads = [] \<and>
     response_diffs rules a b a_payloads b_payloads = []"

lemma step_divergence_None:
  "step_divergence i ka kb ap bp rules = None \<longleftrightarrow> fst ka = fst kb \<and> agree rules ap bp (snd ka) (snd kb)"
  by (auto simp: step_divergence_def agree_def Let_def split: prod.splits)

lemma step_divergence_Some: "step_divergence i ka kb ap bp rules = Some d \<Longrightarrow> pv_step_index d = i \<and> pv_key d = fst ka"
  by (auto simp: step_divergence_def Let_def split: prod.splits if_splits)

lemma divergence_None:
  "divergence_from i as bs ap bp rules = None \<longleftrightarrow> aligned (agree rules ap bp) as bs"
proof (induction i as bs ap bp rules rule: divergence_from.induct)
  case (1 i ka as kb bs ap bp rules)
  then show ?case
    using step_divergence_None[of i ka kb ap bp rules]
    by (cases "step_divergence i ka kb ap bp rules") (auto simp: aligned_def)
qed (simp_all add: aligned_def)

text \<open>Everything before the reported step agrees, and the step itself does not.\<close>

lemma divergence_Some:
  "divergence_from i as bs ap bp rules = Some d \<Longrightarrow>
     \<exists>n. pv_step_index d = i + n \<and> n \<le> length as \<and> n \<le> length bs \<and>
       aligned (agree rules ap bp) (take n as) (take n bs) \<and>
       \<not> aligned (agree rules ap bp) (take (Suc n) as) (take (Suc n) bs)"
proof (induction i as bs ap bp rules rule: divergence_from.induct)
  case (1 i ka as kb bs ap bp rules)
  show ?case
  proof (cases "step_divergence i ka kb ap bp rules")
    case None
    then have ih: "divergence_from (Suc i) as bs ap bp rules = Some d" using "1.prems" by simp
    obtain n where "pv_step_index d = Suc i + n" "n \<le> length as" "n \<le> length bs"
      "aligned (agree rules ap bp) (take n as) (take n bs)"
      "\<not> aligned (agree rules ap bp) (take (Suc n) as) (take (Suc n) bs)"
      using "1.IH"[OF None ih] by blast
    with None show ?thesis
      by (intro exI[where x = "Suc n"]) (simp add: aligned_def step_divergence_None)
  next
    case (Some d')
    with "1.prems" have "pv_step_index d = i" by (auto dest: step_divergence_Some)
    moreover have "\<not> (fst ka = fst kb \<and> agree rules ap bp (snd ka) (snd kb))"
      using Some step_divergence_None[of i ka kb ap bp rules] by simp
    ultimately show ?thesis by (intro exI[where x = 0]) (simp add: aligned_def)
  qed
qed (auto simp: aligned_def intro!: exI[where x = 0])

lemma compare_exchanges_Nil:
  "compare_exchanges a b ap bp opts = [] \<longleftrightarrow>
     agree (do_ignore opts) ap bp a b \<and> latency_deltas opts a b = []"
  by (auto simp: compare_exchanges_def agree_def Let_def response_diffs_def body_field_def split: exchange_status.splits)

end
