(* ===== verification/DiffProps.thy ===== *)
theory DiffProps
  imports DiffFacts Capture
begin

text \<open>
  The properties of the diff engine: normalization, the comparison up to redaction, alignment, the
  point of divergence, the empty report, and tool drift.
\<close>

section \<open>Values\<close>

text \<open>
  Normalization strips volatile content completely: no volatile key is left at any depth, the
  result is a well-formed value, and normalizing it again (without pointer rules, which address the
  original) changes nothing.
\<close>

theorem normalize_strips:
  "json_wf (normalize v rules) \<and> no_volatile rules (normalize v rules) \<and>
   normalize (normalize v rules) (rules\<lparr>ir_pointers := []\<rparr>) = normalize v rules"
proof -
  have vol: "no_volatile (rules\<lparr>ir_pointers := []\<rparr>) w \<longleftrightarrow> no_volatile rules w" for w
    by (induction rules w rule: no_volatile.induct) (simp_all add: is_volatile_key_def)
  show ?thesis using normalize_clean by (auto intro!: normalize_id simp: vol)
qed

text \<open>
  C15: The comparison reports nothing exactly when the values are equal up to redacted parts: a
  redacted value matches anything, everything else must agree member by member.
\<close>

theorem compare_values_decides_same:
  assumes "json_wf a" "json_wf b"
  shows "compare_values a b p = [] \<longleftrightarrow> same a b"
  using assms by (rule compare_empty(1))

theorem compare_values_decides_same_witness:
  "same (JArray [JString ''***REDACTED***'', JBool True]) (JArray [JNull, JBool True])"
proof -
  have "compare_values (JArray [JString ''***REDACTED***'', JBool True]) (JArray [JNull, JBool True]) [] = []"
    by (simp add: compare_values.simps is_redacted_def REDACTED_PLACEHOLDER_def)
  then show ?thesis by (subst compare_values_decides_same[symmetric, where p = "[]"]) simp_all
qed

text \<open>
  Every reported difference is real and located: its JSON pointer renders a path at which the
  two values hold exactly the reported, different contents (absent on one side, or unequal).
\<close>

theorem compare_values_located:
  assumes "json_wf a" "json_wf b" "d \<in> set (compare_values a b p)"
  shows "\<exists>ts. pd_pointer d = p @ render ts \<and> pd_from d = resolve a ts \<and> pd_to d = resolve b ts \<and>
    pd_from d \<noteq> pd_to d"
  using compare_located(1)[OF assms] by (simp add: located_def)

theorem compare_values_located_witness:
  "\<exists>ts. ''/0'' = render ts \<and> Some JNull = resolve (JArray [JNull]) ts \<and>
     Some (JBool True) = resolve (JArray [JBool True]) ts"
proof -
  let ?d = "\<lparr>pd_pointer = ''/0'', pd_from = Some JNull, pd_to = Some (JBool True)\<rparr>"
  have "?d \<in> set (compare_values (JArray [JNull]) (JArray [JBool True]) [])"
    by (simp add: compare_values.simps is_redacted_def idx_ptr_def nat_dec_0)
  from compare_values_located[OF _ _ this] show ?thesis by simp
qed

section \<open>Sessions\<close>

text \<open>
  Alignment keys identify an occurrence: no key repeats, and exactly the exchanges that can be
  compared (those with a method that are not orphans) and the notifications of known direction with
  a method are keyed, in session order.
\<close>

theorem alignment_keys_identify:
  "distinct (map fst (alignment_keys es)) \<and>
   map snd (alignment_keys es) = filter (\<lambda>e. ex_status e \<noteq> OrphanResponse \<and> ex_method e \<noteq> None) es \<and>
   distinct (map fst (notification_alignment_keys ms)) \<and>
   map snd (notification_alignment_keys ms) =
     filter (\<lambda>m. msg_kind m = ''notification'' \<and> msg_method m \<noteq> None \<and> msg_direction m \<in> {''s2c'', ''c2s''}) ms"
proof -
  have "exchange_base e \<noteq> None \<longleftrightarrow> ex_status e \<noteq> OrphanResponse \<and> ex_method e \<noteq> None" for e
    by (auto simp: exchange_base_def alignment_base_def split: option.splits)
  moreover have "notification_base m \<noteq> None \<longleftrightarrow>
      msg_kind m = ''notification'' \<and> msg_method m \<noteq> None \<and> msg_direction m \<in> {''s2c'', ''c2s''}" for m
    by (auto simp: notification_base_def split: option.splits)
  ultimately show ?thesis
    by (simp add: alignment_keys_distinct notification_keys_distinct number_keys_values number_keys_distinct
        alignment_keys_def notification_alignment_keys_def cong: filter_cong)
qed

text \<open>
  The point of divergence is the earliest one: it is absent exactly when the trajectories have
  the same keys in the same order and every step agrees, and otherwise all steps before its index
  agree and the step at its index does not (or exists on one side only).
\<close>

theorem divergence_earliest:
  "case compute_point_of_divergence as bs ap bp opts of
     None \<Rightarrow> aligned (agree (do_ignore opts) ap bp) as bs
   | Some d \<Rightarrow>
       aligned (agree (do_ignore opts) ap bp) (take (pv_step_index d) as) (take (pv_step_index d) bs) \<and>
       \<not> aligned (agree (do_ignore opts) ap bp) (take (Suc (pv_step_index d)) as) (take (Suc (pv_step_index d)) bs)"
proof (cases "compute_point_of_divergence as bs ap bp opts")
  case None
  then show ?thesis
    using divergence_None[of 0 as bs ap bp "do_ignore opts"] by (simp add: compute_point_of_divergence_def)
next
  case (Some d)
  then show ?thesis
    using divergence_Some[of 0 as bs ap bp "do_ignore opts" d] by (auto simp: compute_point_of_divergence_def)
qed

lemma diff_sessions_parts:
  fixes S a b opts
  defines "ak \<equiv> alignment_keys (exchanges (correlate S a))" and "bk \<equiv> alignment_keys (exchanges (correlate S b))"
    and "na \<equiv> notification_alignment_keys a" and "nb \<equiv> notification_alignment_keys b"
    and "ap \<equiv> payloads_by_seq S a" and "bp \<equiv> payloads_by_seq S b"
  shows "report_is_empty (diff_sessions S a b opts) \<longleftrightarrow>
    (changed_keys (\<lambda>a b. compare_exchanges a b ap bp opts) ak bk = [] \<and>
     removed_keys ak bk = [] \<and> removed_keys bk ak = [] \<and> aligned (agree (do_ignore opts) ap bp) ak bk) \<and>
    (changed_keys (compare_notifications S (do_ignore opts)) na nb = [] \<and>
     removed_keys na nb = [] \<and> removed_keys nb na = []) \<and>
    extract_tools S a = extract_tools S b"
  unfolding assms
  by (auto simp: report_is_empty_def diff_sessions_def diff_notification_events_def diff_tools_def Let_def
      tool_findings_Nil extract_tools_wf compute_point_of_divergence_def divergence_None)

lemma aligned_report:
  "changed_keys (\<lambda>a b. compare_exchanges a b ap bp opts) (alignment_keys as) (alignment_keys bs) = [] \<and>
   removed_keys (alignment_keys as) (alignment_keys bs) = [] \<and>
   removed_keys (alignment_keys bs) (alignment_keys as) = [] \<and>
   aligned (agree (do_ignore opts) ap bp) (alignment_keys as) (alignment_keys bs)
   \<longleftrightarrow> aligned (\<lambda>x y. agree (do_ignore opts) ap bp x y \<and> latency_deltas opts x y = [])
        (alignment_keys as) (alignment_keys bs)" (is "?L \<longleftrightarrow> ?R")
proof
  assume L: ?L
  have len: "length (alignment_keys as) = length (alignment_keys bs)"
    using L by (auto simp: aligned_def dest: list_all2_lengthD)
  have "compare_exchanges (snd (alignment_keys as ! i)) (snd (alignment_keys bs ! i)) ap bp opts = [] \<and>
      fst (alignment_keys as ! i) = fst (alignment_keys bs ! i)" if "i < length (alignment_keys as)" for i
  proof -
    have f: "fst (alignment_keys as ! i) = fst (alignment_keys bs ! i)"
      using L that by (auto simp: aligned_def list_all2_conv_all_nth)
    obtain k x y where kx: "alignment_keys as ! i = (k, x)" "alignment_keys bs ! i = (k, y)"
      using f by (metis prod.collapse)
    then have "(k, x) \<in> set (alignment_keys as)" "(k, y) \<in> set (alignment_keys bs)"
      using that len by (metis nth_mem)+
    with L show ?thesis using kx by (auto simp: changed_keys_Nil[OF alignment_keys_distinct])
  qed
  with len show ?R by (auto simp: aligned_def list_all2_conv_all_nth compare_exchanges_Nil)
next
  assume R: ?R
  then have keys: "map fst (alignment_keys as) = map fst (alignment_keys bs)" by (rule aligned_keys)
  then have "fst ` set (alignment_keys as) = fst ` set (alignment_keys bs)" by (metis set_map)
  moreover have "aligned (agree (do_ignore opts) ap bp) (alignment_keys as) (alignment_keys bs)"
    using R by (auto simp: aligned_def elim!: list_all2_mono)
  ultimately show ?L
    using aligned_pair[OF R alignment_keys_distinct]
    by (auto simp: changed_keys_Nil[OF alignment_keys_distinct] removed_keys_Nil compare_exchanges_Nil)
qed

text \<open>
  A report is empty exactly when the sessions are equivalent: the same exchanges in the same
  order, each agreeing in status, error code, normalized request and response and within the latency
  thresholds; the same notifications with the same normalized payloads; and identical tool catalogs.
\<close>

theorem report_empty_iff:
  "report_is_empty (diff_sessions S a b opts) \<longleftrightarrow>
     aligned (\<lambda>x y. agree (do_ignore opts) (payloads_by_seq S a) (payloads_by_seq S b) x y \<and>
                    latency_deltas opts x y = [])
       (alignment_keys (exchanges (correlate S a))) (alignment_keys (exchanges (correlate S b))) \<and>
     fst ` set (notification_alignment_keys a) = fst ` set (notification_alignment_keys b) \<and>
     changed_keys (compare_notifications S (do_ignore opts)) (notification_alignment_keys a)
       (notification_alignment_keys b) = [] \<and>
     extract_tools S a = extract_tools S b"
  unfolding diff_sessions_parts unfolding aligned_report unfolding removed_keys_Nil set_eq_subset
  by (simp only: conj_ac)

lemma compare_refl: "json_wf v \<Longrightarrow> compare_values v v p = []"
  by (simp add: compare_empty(1) same_refl)

lemma agree_refl: "agree rules ap ap x x"
  by (auto simp: agree_def request_diffs_def response_diffs_def normalize_request_wf normalize_response_wf
      compare_refl split: option.splits)

text \<open>
  A session compared with itself has an empty report, whatever it holds (unparsable payloads,
  orphans and repeated ids included) and whatever is ignored; the latency threshold must not be negative.
\<close>

theorem self_diff_empty:
  assumes "0 \<le> do_latency_threshold_ns opts"
  shows "report_is_empty (diff_sessions S ms ms opts)"
proof -
  have "latency_deltas opts x x = []" for x
    using assms by (simp add: latency_deltas_def Let_def wrap_i64_def split: option.splits)
  then have "aligned (\<lambda>x y. agree (do_ignore opts) ap ap x y \<and> latency_deltas opts x y = []) ks ks" for ap ks
    by (auto intro: aligned_refl agree_refl)
  moreover have "compare_notifications S rules x x = []" for rules x
    by (auto simp: compare_notifications_def normalize_clean compare_refl Let_def split: option.splits)
  then have "changed_keys (compare_notifications S rules) (notification_alignment_keys ms)
      (notification_alignment_keys ms) = []" for rules
    using notification_keys_distinct[of ms]
    by (auto simp: changed_keys_Nil[OF notification_keys_distinct] dest: eq_key_imp_eq_value)
  ultimately show ?thesis
    unfolding diff_sessions_parts unfolding aligned_report by (simp add: removed_keys_Nil)
qed

theorem self_diff_empty_witness:
  "report_is_empty (diff_sessions sample_serde [sample_request] [sample_request] diff_options_default)"
  by (rule self_diff_empty) (simp add: diff_options_default_def)

section \<open>Tool drift\<close>

text \<open>
  C29: Drift detection misses nothing and raises no false alarm: the tool section of the diff has no
  finding exactly when the two catalogs are identical, every added and removed tool is named, and a
  tool on both sides with any changed field has a finding of its own.
\<close>

theorem tool_drift_detected:
  "(tool_findings S (extract_tools S a) (extract_tools S b) = [] \<longleftrightarrow> extract_tools S a = extract_tools S b) \<and>
   set (missing_tools (extract_tools S b) (extract_tools S a)) =
     set (bt_keys (extract_tools S b)) - set (bt_keys (extract_tools S a)) \<and>
   sf_tool ` set (tool_findings S (extract_tools S a) (extract_tools S b)) =
     {n. bt_get (extract_tools S a) n \<noteq> bt_get (extract_tools S b) n}"
proof -
  let ?a = "extract_tools S a" and ?b = "extract_tools S b"
  have "n \<in> sf_tool ` set (tool_findings S ?a ?b) \<longleftrightarrow> bt_get ?a n \<noteq> bt_get ?b n" for n
    by (rule finding_tools[OF extract_tools_wf extract_tools_wf])
  then show ?thesis
    by (auto simp: tool_findings_Nil extract_tools_wf missing_tools_def bt_keys_def bt_get_keys)
qed

text \<open>
  Pinning sees the whole contract: two tools have the same hash exactly when SHA-256 agrees on
  their canonical texts, and the canonical values agree exactly when the name and every field do
  (an explicit null counting as absent).
\<close>

theorem tool_hash_pins:
  "(tool_hash S n d = tool_hash S n' d' \<longleftrightarrow>
      sha256_digest S (tool_identity_canonical S n d) = sha256_digest S (tool_identity_canonical S n' d')) \<and>
   (tool_identity n d = tool_identity n' d' \<longleftrightarrow> n = n' \<and> contract d = contract d')"
  by (simp add: tool_hash_def sha256_hex_eq tool_identity_eq)


end
