(* ===== verification/Schema.thy ===== *)
theory Schema
  imports Catalog "HOL-Library.Product_Lexorder"
begin

text \<open>
  The opt-in explanation of schema changes (\<open>crates/mcptracer-model/src/diff.rs\<close>,
  \<open>explain_tool_schema_changes\<close>): a bounded walk over two JSON Schemas that classifies the
  keywords it understands and withholds every value.  The walk's \<open>&mut\<close> arguments are one state.
\<close>

section \<open>Data\<close>

datatype schema_kind = InputSchema | OutputSchema

fun kind_prefix :: "schema_kind \<Rightarrow> string" where
  "kind_prefix InputSchema = ''input''"
| "kind_prefix OutputSchema = ''output''"

datatype classification = PotentiallyBreaking | PotentiallyNonBreaking | Ambiguous | Unclassified

record explanation =
  xp_tool :: string
  xp_schema :: schema_kind
  xp_pointer :: string
  xp_rule_id :: string
  xp_classification :: classification
  xp_before :: string
  xp_after :: string
  xp_reason :: string
  xp_unsupported :: "string list option"

datatype analysis_status = Complete | IncompleteCatalog | Truncated

record schema_analysis =
  sa_baseline_complete :: bool
  sa_candidate_complete :: bool
  sa_status :: analysis_status
  sa_explanations :: "explanation list"

record walk_state =
  ws_nodes :: usize
  ws_out :: "explanation list"
  ws_truncated :: bool

definition MAX_SCHEMA_DEPTH :: usize where
  "MAX_SCHEMA_DEPTH = 16"

definition MAX_SCHEMA_NODES :: usize where
  "MAX_SCHEMA_NODES = 2048"

definition MAX_SCHEMA_EXPLANATIONS :: usize where
  "MAX_SCHEMA_EXPLANATIONS = 100"

section \<open>Reporting\<close>

definition child_pointer :: "string \<Rightarrow> string \<Rightarrow> string" where
  "child_pointer parent token = key_ptr parent token"

fun output_classification :: "schema_kind \<Rightarrow> classification \<Rightarrow> classification" where
  "output_classification kind c =
     (if kind = OutputSchema \<and> c \<noteq> Unclassified then Ambiguous else c)"

definition push_limit :: "string \<Rightarrow> schema_kind \<Rightarrow> string \<Rightarrow> string \<Rightarrow> walk_state \<Rightarrow> walk_state" where
  "push_limit tool kind pointer reason st =
     st\<lparr>ws_truncated := True,
        ws_out := (if length (ws_out st) < MAX_SCHEMA_EXPLANATIONS
          then ws_out st @
            [\<lparr>xp_tool = tool, xp_schema = kind, xp_pointer = pointer,
              xp_rule_id = kind_prefix kind @ ''.analysis_limit'', xp_classification = Unclassified,
              xp_before = ''analysis stopped at configured work limit'',
              xp_after = ''analysis stopped at configured work limit'',
              xp_reason = reason, xp_unsupported = None\<rparr>]
          else ws_out st)\<rparr>"

definition push_explanation ::
  "string \<Rightarrow> schema_kind \<Rightarrow> string \<Rightarrow> string \<Rightarrow> classification \<Rightarrow> string \<Rightarrow> string \<Rightarrow> string \<Rightarrow>
     string list option \<Rightarrow> walk_state \<Rightarrow> walk_state" where
  "push_explanation tool kind pointer rule c before after reason unsupported st =
     (if length (ws_out st) \<ge> MAX_SCHEMA_EXPLANATIONS
      then push_limit tool kind pointer ''explanation-count limit reached'' st
      else st\<lparr>ws_out := ws_out st @
        [\<lparr>xp_tool = tool, xp_schema = kind, xp_pointer = pointer, xp_rule_id = rule,
          xp_classification = output_classification kind c, xp_before = before, xp_after = after,
          xp_reason = reason, xp_unsupported = unsupported\<rparr>]\<rparr>)"

definition push_unclassified ::
  "string \<Rightarrow> schema_kind \<Rightarrow> string \<Rightarrow> string \<Rightarrow> string \<Rightarrow> string \<Rightarrow> string list \<Rightarrow> walk_state \<Rightarrow> walk_state" where
  "push_unclassified tool kind pointer reason before after unsupported st =
     push_explanation tool kind pointer (kind_prefix kind @ ''.unclassified'') Unclassified before after
       reason (if unsupported = [] then None else Some unsupported) st"

section \<open>Keyword values\<close>

text \<open>\<open>BTreeSet<String>\<close>: the sorted list of the distinct elements.\<close>

definition btree_set :: "string list \<Rightarrow> string list" where
  "btree_set xs = sorted_list_of_set (set xs)"

definition known_types :: "string list" where
  "known_types = [''null'', ''boolean'', ''object'', ''array'', ''number'', ''integer'', ''string'']"

fun collect_strs :: "json list \<Rightarrow> string list option" where
  "collect_strs [] = Some []"
| "collect_strs (v # vs) =
     (case as_str v of None \<Rightarrow> None | Some s \<Rightarrow> map_option ((#) s) (collect_strs vs))"

definition known_set :: "string list \<Rightarrow> string list option option" where
  "known_set types =
     (if \<not> list_all (\<lambda>t. t \<in> set known_types) types then None else Some (Some (btree_set types)))"

text \<open>The outer option is the parse, the inner one the keyword's presence.\<close>

definition parse_type_set :: "json option \<Rightarrow> string list option option" where
  "parse_type_set value =
     (case value of
        None \<Rightarrow> Some None
      | Some (JString name) \<Rightarrow> known_set [name]
      | Some (JArray values) \<Rightarrow>
          if values = [] \<or> length values > 7 then None
          else (case collect_strs values of
            None \<Rightarrow> None
          | Some types \<Rightarrow> if length (btree_set types) \<noteq> length types then None else known_set types)
      | _ \<Rightarrow> None)"

definition type_set_subset :: "string list option \<Rightarrow> string list option \<Rightarrow> bool" where
  "type_set_subset candidate baseline =
     (case candidate of
        None \<Rightarrow> baseline = None
      | Some c \<Rightarrow>
          (case baseline of
             None \<Rightarrow> True
           | Some b \<Rightarrow> list_all (\<lambda>t. t \<in> set b \<or> (t = ''integer'' \<and> ''number'' \<in> set b)) c))"

definition type_summary :: "string list option \<Rightarrow> string" where
  "type_summary types =
     (case types of None \<Rightarrow> ''any JSON type'' | Some ts \<Rightarrow> ''type '' @ join '' | '' ts)"

definition parse_required :: "json option \<Rightarrow> string list option" where
  "parse_required value =
     (case value of
        None \<Rightarrow> Some []
      | Some (JArray values) \<Rightarrow>
          if length values \<le> MAX_SCHEMA_NODES then
            (case collect_strs values of
               None \<Rightarrow> None
             | Some names \<Rightarrow> if length (btree_set names) \<noteq> length names then None else Some (btree_set names))
          else None
      | _ \<Rightarrow> None)"

definition parse_enum :: "serde \<Rightarrow> json option \<Rightarrow> string list option option" where
  "parse_enum S value =
     (case value of
        None \<Rightarrow> Some None
      | Some (JArray values) \<Rightarrow>
          if values \<noteq> [] \<and> length values \<le> MAX_SCHEMA_NODES then
            let serialized = map (print_json S) values; unique = btree_set serialized
            in if length unique \<noteq> length serialized then None else Some (Some unique)
          else None
      | _ \<Rightarrow> None)"

definition enum_subset :: "string list option \<Rightarrow> string list option \<Rightarrow> bool" where
  "enum_subset candidate baseline =
     (case (candidate, baseline) of
        (Some c, Some b) \<Rightarrow> list_all (\<lambda>x. x \<in> set b) c
      | (Some c, None) \<Rightarrow> True
      | (None, Some b) \<Rightarrow> False
      | (None, None) \<Rightarrow> True)"

definition enum_summary :: "string list option \<Rightarrow> string" where
  "enum_summary values =
     (case values of
        None \<Rightarrow> ''unrestricted enum (all values)''
      | Some vs \<Rightarrow> ''enum set ('' @ nat_dec (length vs) @ '' values; members withheld)'')"

definition safe_presence_summary :: "json option \<Rightarrow> string" where
  "safe_presence_summary value = (if value \<noteq> None then ''present (contents withheld)'' else ''absent'')"

datatype additional_state = Allow | Deny | Constrained

fun additional_summary :: "additional_state \<Rightarrow> string" where
  "additional_summary Allow = ''additional properties allowed''"
| "additional_summary Deny = ''additional properties denied''"
| "additional_summary Constrained = ''additional properties constrained (details withheld)''"

definition parse_additional_properties :: "json option \<Rightarrow> additional_state option" where
  "parse_additional_properties value =
     (case value of
        None \<Rightarrow> Some Allow
      | Some (JBool True) \<Rightarrow> Some Allow
      | Some (JBool False) \<Rightarrow> Some Deny
      | Some (JObject m) \<Rightarrow> Some Constrained
      | _ \<Rightarrow> None)"

section \<open>One node\<close>

text \<open>
  The five checks of a node, in the order of the code.  \<open>before\<close> and \<open>after\<close> are the members of the
  two schema objects.
\<close>

definition narrow_widen :: "bool \<Rightarrow> bool \<Rightarrow> string \<times> classification" where
  "narrow_widen narrows widens =
     (if narrows \<and> \<not> widens then (''narrowed'', PotentiallyBreaking)
      else if \<not> narrows \<and> widens then (''widened'', PotentiallyNonBreaking)
      else (''changed'', Ambiguous))"

definition type_reason :: "string \<Rightarrow> string" where
  "type_reason sfx =
     (if sfx = ''narrowed'' then ''The candidate accepts fewer JSON types at this schema path.''
      else if sfx = ''widened'' then ''The candidate accepts more JSON types at this schema path.''
      else ''The candidate type set changed in a way that is not a simple widening or narrowing.'')"

definition check_type ::
  "string \<Rightarrow> schema_kind \<Rightarrow> (string \<times> json) list \<Rightarrow> (string \<times> json) list \<Rightarrow> string \<Rightarrow> walk_state \<Rightarrow> walk_state" where
  "check_type tool kind before after pointer st =
     (let b = bt_get before ''type''; a = bt_get after ''type''
      in if b = a then st
         else case (parse_type_set b, parse_type_set a) of
           (Some before_types, Some after_types) \<Rightarrow>
             if before_types \<noteq> after_types then
               let (sfx, c) = narrow_widen (type_set_subset after_types before_types)
                                              (type_set_subset before_types after_types)
               in push_explanation tool kind (child_pointer pointer ''type'')
                    (kind_prefix kind @ ''.type.'' @ sfx) c (type_summary before_types)
                    (type_summary after_types) (type_reason sfx) None st
             else st
         | _ \<Rightarrow> push_unclassified tool kind (child_pointer pointer ''type'')
                  ''type keyword has an unsupported shape'' (safe_presence_summary b)
                  (safe_presence_summary a) [''type''] st)"

definition required_added ::
  "string \<Rightarrow> schema_kind \<Rightarrow> string \<Rightarrow> string \<Rightarrow> walk_state \<Rightarrow> walk_state" where
  "required_added tool kind pointer name st =
     push_explanation tool kind (child_pointer (child_pointer pointer ''properties'') name)
       (kind_prefix kind @ ''.required.added'') PotentiallyBreaking
       ''property is optional'' ''property is required''
       (if kind = InputSchema then ''Existing callers may omit a newly required input property.''
        else ''Consumers may rely on the baseline output not requiring this property.'') None st"

definition required_removed ::
  "string \<Rightarrow> schema_kind \<Rightarrow> string \<Rightarrow> string \<Rightarrow> walk_state \<Rightarrow> walk_state" where
  "required_removed tool kind pointer name st =
     push_explanation tool kind (child_pointer (child_pointer pointer ''properties'') name)
       (kind_prefix kind @ ''.required.removed'') PotentiallyNonBreaking
       ''property is required'' ''property is optional''
       (if kind = InputSchema
        then ''The candidate no longer requires an input property required by the baseline.''
        else ''The candidate no longer guarantees a property that the baseline output required.'') None st"

definition set_diff :: "string list \<Rightarrow> string list \<Rightarrow> string list" where
  "set_diff xs ys = filter (\<lambda>x. x \<notin> set ys) xs"

definition check_required ::
  "string \<Rightarrow> schema_kind \<Rightarrow> (string \<times> json) list \<Rightarrow> (string \<times> json) list \<Rightarrow> string \<Rightarrow> walk_state \<Rightarrow> walk_state" where
  "check_required tool kind before after pointer st =
     (let b = bt_get before ''required''; a = bt_get after ''required''
      in if b = a then st
         else case (parse_required b, parse_required a) of
           (Some before_required, Some after_required) \<Rightarrow>
             fold (required_removed tool kind pointer) (set_diff before_required after_required)
               (fold (required_added tool kind pointer) (set_diff after_required before_required) st)
         | _ \<Rightarrow> push_unclassified tool kind (child_pointer pointer ''required'')
                  ''required keyword has an unsupported shape'' (safe_presence_summary b)
                  (safe_presence_summary a) [''required''] st)"

definition additional_unclassified ::
  "string \<Rightarrow> schema_kind \<Rightarrow> json option \<Rightarrow> json option \<Rightarrow> string \<Rightarrow> walk_state \<Rightarrow> walk_state" where
  "additional_unclassified tool kind b a pointer st =
     push_unclassified tool kind (child_pointer pointer ''additionalProperties'')
       ''schema-valued or invalid additionalProperties change'' (safe_presence_summary b)
       (safe_presence_summary a) [''additionalProperties''] st"

text \<open>The match arms in source order: equal states come first, also two constrained ones.\<close>

definition check_additional ::
  "string \<Rightarrow> schema_kind \<Rightarrow> (string \<times> json) list \<Rightarrow> (string \<times> json) list \<Rightarrow> string \<Rightarrow> walk_state \<Rightarrow> walk_state" where
  "check_additional tool kind before after pointer st =
     (let b = bt_get before ''additionalProperties''; a = bt_get after ''additionalProperties''
      in if b = a then st
         else case (parse_additional_properties b, parse_additional_properties a) of
           (Some before_state, Some after_state) \<Rightarrow>
             if before_state = after_state then st
             else if before_state = Constrained \<or> after_state = Constrained
             then additional_unclassified tool kind b a pointer st
             else
               let (sfx, c, reason) =
                 (if before_state = Allow
                  then (''closed'', PotentiallyBreaking,
                    ''The candidate rejects extra object properties that the baseline allowed.'')
                  else (''opened'', PotentiallyNonBreaking,
                    ''The candidate allows extra object properties that the baseline rejected.''))
               in push_explanation tool kind (child_pointer pointer ''additionalProperties'')
                    (kind_prefix kind @ ''.additional_properties.'' @ sfx) c
                    (additional_summary before_state) (additional_summary after_state) reason None st
         | _ \<Rightarrow> additional_unclassified tool kind b a pointer st)"

definition enum_reason :: "string \<Rightarrow> string" where
  "enum_reason sfx =
     (if sfx = ''narrowed'' then ''The candidate permits fewer enum values; the values are withheld.''
      else if sfx = ''widened'' then ''The candidate permits more enum values; the values are withheld.''
      else ''The enum set changed without a pure widening or narrowing; values are withheld.'')"

definition check_enum ::
  "serde \<Rightarrow> string \<Rightarrow> schema_kind \<Rightarrow> (string \<times> json) list \<Rightarrow> (string \<times> json) list \<Rightarrow> string \<Rightarrow>
     walk_state \<Rightarrow> walk_state" where
  "check_enum S tool kind before after pointer st =
     (let b = bt_get before ''enum''; a = bt_get after ''enum''
      in if b = a then st
         else case (parse_enum S b, parse_enum S a) of
           (Some before_enum, Some after_enum) \<Rightarrow>
             if before_enum \<noteq> after_enum then
               let (sfx, c) = narrow_widen (enum_subset after_enum before_enum)
                                              (enum_subset before_enum after_enum)
               in push_explanation tool kind (child_pointer pointer ''enum'')
                    (kind_prefix kind @ ''.enum.'' @ sfx) c (enum_summary before_enum)
                    (enum_summary after_enum) (enum_reason sfx) None st
             else st
         | _ \<Rightarrow> push_unclassified tool kind (child_pointer pointer ''enum'')
                  ''enum keyword has an unsupported shape'' (safe_presence_summary b)
                  (safe_presence_summary a) [''enum''] st)"

definition known_keywords :: "string list" where
  "known_keywords = [''type'', ''required'', ''properties'', ''additionalProperties'', ''enum'']"

fun check_keywords ::
  "string \<Rightarrow> schema_kind \<Rightarrow> (string \<times> json) list \<Rightarrow> (string \<times> json) list \<Rightarrow> string \<Rightarrow> string list \<Rightarrow>
     walk_state \<Rightarrow> walk_state" where
  "check_keywords tool kind before after pointer [] st = st"
| "check_keywords tool kind before after pointer (keyword # keywords) st =
     (if keyword \<in> set known_keywords \<or> bt_get before keyword = bt_get after keyword
      then check_keywords tool kind before after pointer keywords st
      else
        let st1 = push_unclassified tool kind (child_pointer pointer keyword)
              ''changed keyword is outside the version-1 analyzer subset''
              (safe_presence_summary (bt_get before keyword)) (safe_presence_summary (bt_get after keyword))
              [keyword] st
        in if ws_truncated st1 then st1
           else check_keywords tool kind before after pointer keywords st1)"

section \<open>The walk\<close>

definition members_of :: "(string \<times> json) list \<Rightarrow> (string \<times> json) list option" where
  "members_of schema = Option.bind (bt_get schema ''properties'') as_object"

definition bad_properties :: "(string \<times> json) list \<Rightarrow> bool" where
  "bad_properties schema \<longleftrightarrow> bt_get schema ''properties'' \<noteq> None \<and> members_of schema = None"

definition keys_of :: "(string \<times> json) list option \<Rightarrow> string list" where
  "keys_of ms = (case ms of Some m \<Rightarrow> bt_keys m | None \<Rightarrow> [])"

definition child_schema :: "(string \<times> json) list option \<Rightarrow> string \<Rightarrow> json" where
  "child_schema ms name =
     (case Option.bind ms (\<lambda>m. bt_get m name) of Some v \<Rightarrow> v | None \<Rightarrow> JObject [])"

function (sequential) analyze_schema_node ::
    "serde \<Rightarrow> string \<Rightarrow> schema_kind \<Rightarrow> json \<Rightarrow> json \<Rightarrow> string \<Rightarrow> nat \<Rightarrow> walk_state \<Rightarrow> walk_state"
  and analyze_properties ::
    "serde \<Rightarrow> string \<Rightarrow> schema_kind \<Rightarrow> (string \<times> json) list option \<Rightarrow> (string \<times> json) list option \<Rightarrow>
       string \<Rightarrow> nat \<Rightarrow> string list \<Rightarrow> walk_state \<Rightarrow> walk_state" where
  "analyze_schema_node S tool kind before_v after_v pointer depth st =
     (if length (ws_out st) \<ge> MAX_SCHEMA_EXPLANATIONS - 1
      then push_limit tool kind pointer ''explanation-count limit reached'' st
      else if depth > MAX_SCHEMA_DEPTH
      then push_limit tool kind pointer ''schema-depth limit reached'' st
      else
        let st0 = st\<lparr>ws_nodes := ws_nodes st + 1\<rparr>
        in if ws_nodes st0 > MAX_SCHEMA_NODES
           then push_limit tool kind pointer ''schema-node limit reached'' st0
           else case (as_object before_v, as_object after_v) of
             (Some before, Some after) \<Rightarrow>
               let st1 = check_enum S tool kind before after pointer
                          (check_additional tool kind before after pointer
                            (check_required tool kind before after pointer
                              (check_type tool kind before after pointer st0)));
                   names = btree_set (keys_of (members_of before) @ keys_of (members_of after));
                   keywords = btree_set (bt_keys before @ bt_keys after)
               in if bad_properties before \<or> bad_properties after
                  then check_keywords tool kind before after pointer keywords
                    (push_unclassified tool kind (child_pointer pointer ''properties'')
                       ''properties keyword has an unsupported shape''
                       (safe_presence_summary (bt_get before ''properties''))
                       (safe_presence_summary (bt_get after ''properties'')) [''properties''] st1)
                  else
                    let st2 = analyze_properties S tool kind (members_of before) (members_of after)
                                pointer depth names st1
                    in if names \<noteq> [] \<and> ws_truncated st2 then st2
                       else check_keywords tool kind before after pointer keywords st2
           | _ \<Rightarrow> push_unclassified tool kind pointer ''schema shape is not an object''
                    ''schema value (contents withheld)'' ''schema value (contents withheld)'' [] st0)"
| "analyze_properties S tool kind before_ms after_ms pointer depth [] st = st"
| "analyze_properties S tool kind before_ms after_ms pointer depth (name # names) st =
     (let before_child = child_schema before_ms name; after_child = child_schema after_ms name;
          st1 = (if before_child \<noteq> after_child
                 then analyze_schema_node S tool kind before_child after_child
                        (child_pointer (child_pointer pointer ''properties'') name) (depth + 1) st
                 else st)
      in if ws_truncated st1 then st1
         else analyze_properties S tool kind before_ms after_ms pointer depth names st1)"
  by pat_completeness auto

text \<open>The depth limit bounds the recursion: a node below it costs two, its property list one less.\<close>

termination
  by (relation "measures
        [\<lambda>x. case x of
            Inl (S, tool, kind, b, a, p, depth, st) \<Rightarrow> (if depth \<le> MAX_SCHEMA_DEPTH then 2 * (17 - depth) else 0)
          | Inr (S, tool, kind, b, a, p, depth, names, st) \<Rightarrow>
              (if depth \<le> MAX_SCHEMA_DEPTH then 2 * (17 - depth) - 1 else 1),
         \<lambda>x. case x of
            Inl _ \<Rightarrow> 0
          | Inr (S, tool, kind, b, a, p, depth, names, st) \<Rightarrow> length names]")
     (auto simp: MAX_SCHEMA_DEPTH_def)

declare analyze_schema_node.simps [simp del]

section \<open>All tools\<close>

definition explain_schema ::
  "serde \<Rightarrow> string \<Rightarrow> schema_kind \<Rightarrow> json option \<Rightarrow> json option \<Rightarrow> walk_state \<Rightarrow> walk_state" where
  "explain_schema S tool kind before after st =
     (if before = after then st
      else case (before, after) of
        (Some b, Some a) \<Rightarrow> analyze_schema_node S tool kind b a [] 0 (st\<lparr>ws_nodes := 0\<rparr>)
      | (None, Some a) \<Rightarrow>
          push_unclassified tool kind [] ''schema presence changed'' ''schema absent''
            ''schema present (contents withheld)'' [] st
      | (Some b, None) \<Rightarrow>
          push_unclassified tool kind [] ''schema presence changed'' ''schema present (contents withheld)''
            ''schema absent'' [] st
      | (None, None) \<Rightarrow> st)"

fun explain_tools ::
  "serde \<Rightarrow> (string, tool_def) btree \<Rightarrow> (string, tool_def) btree \<Rightarrow> walk_state \<Rightarrow> walk_state" where
  "explain_tools S [] candidate st = st"
| "explain_tools S ((tool, before) # tools) candidate st =
     (case bt_get candidate tool of
        None \<Rightarrow> explain_tools S tools candidate st
      | Some after \<Rightarrow>
          let st1 = explain_schema S tool InputSchema (td_input_schema before) (td_input_schema after) st
          in if ws_truncated st1 then st1
             else
               let st2 = explain_schema S tool OutputSchema (td_output_schema before) (td_output_schema after) st1
               in if ws_truncated st2 then st2 else explain_tools S tools candidate st2)"

definition explanation_key :: "explanation \<Rightarrow> string \<times> string \<times> string \<times> string" where
  "explanation_key x = (xp_tool x, kind_prefix (xp_schema x), xp_pointer x, xp_rule_id x)"

definition explain_catalogs :: "serde \<Rightarrow> tool_catalog \<Rightarrow> tool_catalog \<Rightarrow> schema_analysis" where
  "explain_catalogs S baseline candidate =
     (if \<not> tc_complete baseline \<or> \<not> tc_complete candidate
      then \<lparr>sa_baseline_complete = tc_complete baseline, sa_candidate_complete = tc_complete candidate,
            sa_status = IncompleteCatalog, sa_explanations = []\<rparr>
      else
        let st = explain_tools S (tc_tools baseline) (tc_tools candidate)
              \<lparr>ws_nodes = 0, ws_out = [], ws_truncated = False\<rparr>
        in \<lparr>sa_baseline_complete = tc_complete baseline, sa_candidate_complete = tc_complete candidate,
            sa_status = (if ws_truncated st then Truncated else Complete),
            sa_explanations = sort_key explanation_key (ws_out st)\<rparr>)"

definition explain_tool_schema_changes ::
  "serde \<Rightarrow> stored_message list \<Rightarrow> stored_message list \<Rightarrow> schema_analysis" where
  "explain_tool_schema_changes S baseline_messages candidate_messages =
     explain_catalogs S (extract_tool_catalog S baseline_messages) (extract_tool_catalog S candidate_messages)"

end
