(* ===== verification/SchemaFacts.thy ===== *)
theory SchemaFacts
  imports Schema
begin

text \<open>
  Facts about the schema walk.  An interface states what an invariant of the reporting operations
  must satisfy; its client lemma carries the invariant through the whole walk.  The interpretations
  give the bounds, the withheld contents, and what each explanation is about.
\<close>

section \<open>Texts that reveal nothing\<close>

definition fixed_texts :: "string list" where
  "fixed_texts =
     [''property is optional'', ''property is required'', ''present (contents withheld)'', ''absent'',
      ''schema absent'', ''schema present (contents withheld)'', ''schema value (contents withheld)'',
      ''additional properties allowed'', ''additional properties denied'', ''any JSON type'',
      ''unrestricted enum (all values)'', ''analysis stopped at configured work limit'']"

definition safe_text :: "string \<Rightarrow> bool" where
  "safe_text x \<longleftrightarrow>
     x \<in> set fixed_texts \<or>
     (\<exists>ts. set ts \<subseteq> set known_types \<and> x = type_summary (Some ts)) \<or>
     (\<exists>vs. x = enum_summary (Some vs))"

lemma safe_fixed: "x \<in> set fixed_texts \<Longrightarrow> safe_text x"
  by (simp add: safe_text_def)

lemma safe_presence: "safe_text (safe_presence_summary v)"
  by (rule safe_fixed) (simp add: safe_presence_summary_def fixed_texts_def)

lemma known_set_subset: "known_set types = Some (Some ts) \<Longrightarrow> set ts \<subseteq> set known_types"
  by (auto simp: known_set_def btree_set_def list_all_iff split: if_splits)

lemma parse_type_set_known: "parse_type_set v = Some (Some ts) \<Longrightarrow> set ts \<subseteq> set known_types"
  by (auto simp: parse_type_set_def dest!: known_set_subset split: option.splits json.splits if_splits)

lemma safe_type: "parse_type_set v = Some ts \<Longrightarrow> safe_text (type_summary ts)"
proof (cases ts)
  case None
  then show ?thesis by (intro safe_fixed) (simp add: type_summary_def fixed_texts_def)
next
  case (Some t)
  moreover assume "parse_type_set v = Some ts"
  ultimately show ?thesis using parse_type_set_known[of v t] by (auto simp: safe_text_def)
qed

lemma safe_enum: "safe_text (enum_summary vs)"
proof (cases vs)
  case None
  then show ?thesis by (intro safe_fixed) (simp add: enum_summary_def fixed_texts_def)
qed (auto simp: safe_text_def)

lemma safe_additional: "s \<noteq> Constrained \<Longrightarrow> safe_text (additional_summary s)"
  by (rule safe_fixed) (cases s; simp add: fixed_texts_def)

section \<open>Invariants of the walk\<close>

locale walk_invariant =
  fixes tool :: string
    and kind :: schema_kind
    and I :: "walk_state \<Rightarrow> bool"
  assumes push: "I st \<Longrightarrow> safe_text before \<Longrightarrow> safe_text after \<Longrightarrow>
      I (push_explanation tool kind pointer rule c before after reason unsupported st)"
    and limit: "I st \<Longrightarrow> I (push_limit tool kind pointer reason st)"
    and nodes: "I st \<Longrightarrow> I (st\<lparr>ws_nodes := n\<rparr>)"
begin

lemma push_un: "I st \<Longrightarrow> safe_text before \<Longrightarrow> safe_text after \<Longrightarrow>
    I (push_unclassified tool kind pointer reason before after unsupported st)"
  unfolding push_unclassified_def by (rule push)

lemma type_step: "I st \<Longrightarrow> I (check_type tool kind before after pointer st)"
  by (auto simp: check_type_def Let_def split: option.splits prod.splits intro!: push push_un safe_presence intro: safe_type)

lemma fold_step: "(\<And>x st. I st \<Longrightarrow> I (f x st)) \<Longrightarrow> I st \<Longrightarrow> I (fold f xs st)"
  by (induction xs arbitrary: st) auto

lemma required_step: "I st \<Longrightarrow> I (check_required tool kind before after pointer st)"
proof -
  have texts: "safe_text ''property is optional''" "safe_text ''property is required''"
    by (rule safe_fixed, simp add: fixed_texts_def)+
  have "I st \<Longrightarrow> I (required_added tool kind pointer name st)" "I st \<Longrightarrow> I (required_removed tool kind pointer name st)"
    for st name unfolding required_added_def required_removed_def by (intro push texts; assumption)+
  then show "I st \<Longrightarrow> I (check_required tool kind before after pointer st)"
    by (auto simp: check_required_def Let_def split: option.splits intro!: fold_step push_un safe_presence)
qed

lemma additional_step: "I st \<Longrightarrow> I (check_additional tool kind before after pointer st)"
  by (auto simp: check_additional_def additional_unclassified_def Let_def simp del: additional_summary.simps split: option.splits
      intro!: push push_un safe_presence safe_additional)

lemma enum_step: "I st \<Longrightarrow> I (check_enum S tool kind before after pointer st)"
  by (auto simp: check_enum_def Let_def split: option.splits prod.splits intro!: push push_un safe_presence safe_enum)

lemma keywords_step: "I st \<Longrightarrow> I (check_keywords tool kind before after pointer ks st)"
  by (induction ks arbitrary: st) (auto simp: Let_def intro!: push_un safe_presence)

text \<open>The whole walk, by the recursion of the code.\<close>

lemma walk_step:
  "t = tool \<Longrightarrow> k = kind \<Longrightarrow> I st \<Longrightarrow> I (analyze_schema_node S t k b a p d st)"
  "t = tool \<Longrightarrow> k = kind \<Longrightarrow> I st \<Longrightarrow> I (analyze_properties S t k bm am p d names st)"
proof (induction S t k b a p d st and S t k bm am p d names st
    rule: analyze_schema_node_analyze_properties.induct)
  case (1 S t k before_v after_v pointer depth st)
  let ?st0 = "st\<lparr>ws_nodes := ws_nodes st + 1\<rparr>"
  have st0: "I ?st0" using "1.prems" by (intro nodes)
  have vtext: "safe_text ''schema value (contents withheld)''" by (rule safe_fixed) (simp add: fixed_texts_def)
  show ?case
  proof (cases "length (ws_out st) \<ge> MAX_SCHEMA_EXPLANATIONS - 1 \<or> depth > MAX_SCHEMA_DEPTH \<or>
      ws_nodes ?st0 > MAX_SCHEMA_NODES \<or> as_object before_v = None \<or> as_object after_v = None")
    case True
    then show ?thesis
      using "1.prems" st0 limit push_un[OF st0 vtext vtext]
      by (auto simp: analyze_schema_node.simps[of S tool kind before_v after_v pointer depth st] Let_def
          split: option.splits simp del: as_object_Some)
  next
    case False
    then obtain before after where ba: "as_object before_v = Some before" "as_object after_v = Some after"
      by (cases "as_object before_v"; cases "as_object after_v") (simp_all del: as_object_Some)
    define st1 where "st1 = check_enum S tool kind before after pointer
        (check_additional tool kind before after pointer
          (check_required tool kind before after pointer (check_type tool kind before after pointer ?st0)))"
    have st1: "I st1" unfolding st1_def by (intro enum_step additional_step required_step type_step st0)
    have props: "\<not> bad_properties before \<Longrightarrow> \<not> bad_properties after \<Longrightarrow>
        I (analyze_properties S tool kind (members_of before) (members_of after) pointer depth
             (btree_set (keys_of (members_of before) @ keys_of (members_of after))) st1)"
      using "1.IH" False ba "1.prems" st1 unfolding st1_def by (simp add: Let_def not_le not_less)
    have "analyze_schema_node S tool kind before_v after_v pointer depth st =
        (let names = btree_set (keys_of (members_of before) @ keys_of (members_of after));
             keywords = btree_set (bt_keys before @ bt_keys after)
         in if bad_properties before \<or> bad_properties after
            then check_keywords tool kind before after pointer keywords
              (push_unclassified tool kind (child_pointer pointer ''properties'')
                 ''properties keyword has an unsupported shape''
                 (safe_presence_summary (bt_get before ''properties''))
                 (safe_presence_summary (bt_get after ''properties'')) [''properties''] st1)
            else
              let st2 = analyze_properties S tool kind (members_of before) (members_of after) pointer depth names st1
              in if names \<noteq> [] \<and> ws_truncated st2 then st2
                 else check_keywords tool kind before after pointer keywords st2)"
      using False ba
      by (simp add: analyze_schema_node.simps[of S tool kind before_v after_v pointer depth st] Let_def st1_def
          del: as_object_Some)
    then show ?thesis
      using "1.prems" props keywords_step push_un[OF st1 safe_presence safe_presence] by (simp add: Let_def)
  qed
next
  case (3 S t k bm am p d name names st)
  then show ?case by (cases "child_schema bm name = child_schema am name") (auto simp: Let_def)
qed simp_all

lemma schema_step: "I st \<Longrightarrow> I (explain_schema S tool kind before after st)"
proof -
  have texts: "safe_text ''schema absent''" "safe_text ''schema present (contents withheld)''"
    by (rule safe_fixed, simp add: fixed_texts_def)+
  show "I st \<Longrightarrow> I (explain_schema S tool kind before after st)"
    by (auto simp: explain_schema_def split: option.splits intro!: walk_step(1) nodes push_un texts)
qed

end

section \<open>Bounds, withheld contents, origin\<close>

definition bounded_out :: "walk_state \<Rightarrow> bool" where
  "bounded_out st \<longleftrightarrow> length (ws_out st) \<le> MAX_SCHEMA_EXPLANATIONS"

text \<open>An explanation that reveals no schema content and makes no claim about output schemas.\<close>

definition advisory :: "explanation \<Rightarrow> bool" where
  "advisory x \<longleftrightarrow> safe_text (xp_before x) \<and> safe_text (xp_after x) \<and>
     (xp_schema x = InputSchema \<or> xp_classification x = Ambiguous \<or> xp_classification x = Unclassified)"

definition advisory_out :: "walk_state \<Rightarrow> bool" where
  "advisory_out st \<longleftrightarrow> list_all advisory (ws_out st)"

definition adds_only :: "string \<Rightarrow> schema_kind \<Rightarrow> explanation list \<Rightarrow> walk_state \<Rightarrow> bool" where
  "adds_only tool kind old st \<longleftrightarrow>
     (\<exists>new. ws_out st = old @ new \<and> list_all (\<lambda>x. xp_tool x = tool \<and> xp_schema x = kind) new)"

interpretation bounded: walk_invariant tool kind bounded_out for tool kind
  by unfold_locales (auto simp: bounded_out_def push_explanation_def push_limit_def MAX_SCHEMA_EXPLANATIONS_def)

interpretation advised: walk_invariant tool kind advisory_out for tool kind
proof unfold_locales
  have "safe_text ''analysis stopped at configured work limit''" by (rule safe_fixed) (simp add: fixed_texts_def)
  then show limit: "advisory_out st \<Longrightarrow> advisory_out (push_limit tool kind pointer reason st)" for st pointer reason
    by (simp add: advisory_out_def push_limit_def advisory_def)
  show "advisory_out st \<Longrightarrow> safe_text before \<Longrightarrow> safe_text after \<Longrightarrow>
      advisory_out (push_explanation tool kind pointer rule c before after reason unsupported st)"
    for st before after pointer rule c reason unsupported
    using limit[of st] by (cases kind; cases c; auto simp: advisory_out_def push_explanation_def advisory_def)
qed (simp add: advisory_out_def)

interpretation adding: walk_invariant tool kind "adds_only tool kind old" for tool kind old
  by unfold_locales (auto simp: adds_only_def push_explanation_def push_limit_def)

fun schema_of :: "schema_kind \<Rightarrow> tool_def \<Rightarrow> json option" where
  "schema_of InputSchema d = td_input_schema d"
| "schema_of OutputSchema d = td_output_schema d"

text \<open>An explanation is justified by a tool of both catalogs whose schema of that kind differs.\<close>

definition justified ::
  "(string, tool_def) btree \<Rightarrow> (string, tool_def) btree \<Rightarrow> explanation \<Rightarrow> bool" where
  "justified base cand x \<longleftrightarrow>
     (case (bt_get base (xp_tool x), bt_get cand (xp_tool x)) of
        (Some b, Some a) \<Rightarrow> schema_of (xp_schema x) b \<noteq> schema_of (xp_schema x) a
      | _ \<Rightarrow> False)"

lemma explain_schema_justified:
  assumes "list_all (justified base cand) (ws_out st)" "bt_get base tool = Some b" "bt_get cand tool = Some a"
  shows "list_all (justified base cand) (ws_out (explain_schema S tool kind (schema_of kind b) (schema_of kind a) st))"
proof (cases "schema_of kind b = schema_of kind a")
  case True
  then show ?thesis using assms(1) by (simp add: explain_schema_def)
next
  case False
  have "adds_only tool kind (ws_out st) st" by (simp add: adds_only_def)
  then have "adds_only tool kind (ws_out st) (explain_schema S tool kind (schema_of kind b) (schema_of kind a) st)"
    by (rule adding.schema_step)
  then show ?thesis using assms False by (auto simp: adds_only_def justified_def list_all_iff)
qed

lemma explain_tools_facts:
  assumes "bounded_out st" "advisory_out st" "list_all (justified base cand) (ws_out st)"
    "\<forall>e \<in> set tools. bt_get base (fst e) = Some (snd e)"
  shows "bounded_out (explain_tools S tools cand st) \<and> advisory_out (explain_tools S tools cand st) \<and>
    list_all (justified base cand) (ws_out (explain_tools S tools cand st))"
  using assms
proof (induction tools arbitrary: st)
  case (Cons e tools)
  obtain tool b where e: "e = (tool, b)" by (cases e)
  show ?case
  proof (cases "bt_get cand tool")
    case None
    then show ?thesis using Cons.IH[of st] Cons.prems by (simp add: e)
  next
    case (Some a)
    define st1 where "st1 = explain_schema S tool InputSchema (td_input_schema b) (td_input_schema a) st"
    define st2 where "st2 = explain_schema S tool OutputSchema (td_output_schema b) (td_output_schema a) st1"
    have base: "bt_get base tool = Some b" using Cons.prems(4) by (simp add: e)
    have 1: "bounded_out st1" "advisory_out st1" "list_all (justified base cand) (ws_out st1)"
      using Cons.prems(1-3) explain_schema_justified[OF Cons.prems(3) base Some, of S InputSchema]
      unfolding st1_def by (simp_all add: bounded.schema_step advised.schema_step)
    then have 2: "bounded_out st2" "advisory_out st2" "list_all (justified base cand) (ws_out st2)"
      using explain_schema_justified[OF 1(3) base Some, of S OutputSchema]
      unfolding st2_def by (simp_all add: bounded.schema_step advised.schema_step)
    show ?thesis
      using 1 2 Cons.IH[OF 2] Cons.prems(4) Some
      by (simp add: e Let_def flip: st1_def st2_def)
  qed
qed simp

section \<open>Types\<close>

text \<open>The JSON values a type keyword accepts, by kind; an integer is also a number.\<close>

datatype value_kind = VNull | VBool | VObject | VArray | VInteger | VFraction | VString

fun kind_types :: "value_kind \<Rightarrow> string list" where
  "kind_types VNull = [''null'']"
| "kind_types VBool = [''boolean'']"
| "kind_types VObject = [''object'']"
| "kind_types VArray = [''array'']"
| "kind_types VInteger = [''integer'', ''number'']"
| "kind_types VFraction = [''number'']"
| "kind_types VString = [''string'']"

definition accepted :: "string list option \<Rightarrow> value_kind set" where
  "accepted types = (case types of None \<Rightarrow> UNIV | Some ts \<Rightarrow> {k. \<exists>t \<in> set (kind_types k). t \<in> set ts})"

lemma known_kind:
  "t \<in> set known_types \<Longrightarrow> t \<noteq> ''integer'' \<Longrightarrow> \<exists>k. kind_types k = [t]"
proof -
  have kinds: "kind_types VNull = [''null'']" "kind_types VBool = [''boolean'']" "kind_types VObject = [''object'']"
    "kind_types VArray = [''array'']" "kind_types VFraction = [''number'']" "kind_types VString = [''string'']" by simp_all
  assume "t \<in> set known_types" "t \<noteq> ''integer''"
  then show ?thesis unfolding known_types_def set_simps insert_iff empty_iff by (elim disjE) (use kinds in blast)+
qed

lemma type_set_subset_exact:
  assumes "set c \<subseteq> set known_types"
  shows "type_set_subset (Some c) b \<longleftrightarrow> accepted (Some c) \<subseteq> accepted b"
proof (cases b)
  case (Some bs)
  have "accepted (Some c) \<subseteq> accepted (Some bs)"
    if sub: "\<forall>t \<in> set c. t \<in> set bs \<or> t = ''integer'' \<and> ''number'' \<in> set bs"
  proof
    fix k assume "k \<in> accepted (Some c)"
    then obtain t where t: "t \<in> set (kind_types k)" "t \<in> set c" by (auto simp: accepted_def)
    with sub consider "t \<in> set bs" | "t = ''integer''" "''number'' \<in> set bs" by blast
    then show "k \<in> accepted (Some bs)"
    proof cases
      case 2
      with t(1) have "k = VInteger" by (cases k) auto
      with 2 show ?thesis by (auto simp: accepted_def)
    qed (use t in \<open>auto simp: accepted_def\<close>)
  qed
  moreover have "t \<in> set bs \<or> t = ''integer'' \<and> ''number'' \<in> set bs"
    if acc: "accepted (Some c) \<subseteq> accepted (Some bs)" and t: "t \<in> set c" for t
  proof (cases "t = ''integer''")
    case True
    then have "VInteger \<in> accepted (Some c)" using t by (auto simp: accepted_def)
    with acc have "VInteger \<in> accepted (Some bs)" by blast
    with True show ?thesis by (auto simp: accepted_def)
  next
    case False
    then obtain k where k: "kind_types k = [t]" using assms t known_kind by blast
    then have "k \<in> accepted (Some c)" using t by (simp add: accepted_def)
    with acc have "k \<in> accepted (Some bs)" by blast
    with k show ?thesis by (simp add: accepted_def)
  qed
  ultimately show ?thesis using Some by (auto simp: type_set_subset_def list_all_iff)
qed (simp add: type_set_subset_def accepted_def)

end
