(* ===== verification/SchemaProps.thy ===== *)
theory SchemaProps
  imports SchemaFacts
begin

text \<open>
  The properties of the schema explanation, and a change it does not see.
\<close>

lemma explain_facts:
  fixes S a b
  defines "st \<equiv> explain_tools S (extract_tools S a) (extract_tools S b)
      \<lparr>ws_nodes = 0, ws_out = [], ws_truncated = False\<rparr>"
  shows "bounded_out st \<and> advisory_out st \<and> list_all (justified (extract_tools S a) (extract_tools S b)) (ws_out st)"
  unfolding st_def
  by (rule explain_tools_facts) (auto simp: bounded_out_def advisory_out_def bt_get_wf_iff[OF extract_tools_wf])

lemma list_all_sort_key: "list_all P (sort_key f xs) \<longleftrightarrow> list_all P xs"
  by (simp add: list_all_iff)

text \<open>
  The explanation is bounded and discloses nothing: at most 100 entries, every summary is a
  fixed phrase, a set of JSON type names or the size of an enumeration, and an output schema's change
  is never classified as breaking or non-breaking.
\<close>

theorem schema_explanation_withholds:
  "length (sa_explanations (explain_tool_schema_changes S a b)) \<le> MAX_SCHEMA_EXPLANATIONS \<and>
   list_all advisory (sa_explanations (explain_tool_schema_changes S a b))"
  using explain_facts[of S a b]
  by (simp add: explain_tool_schema_changes_def explain_catalogs_def Let_def list_all_sort_key
      bounded_out_def advisory_out_def extract_tools_def)

text \<open>
  Every explanation is justified: its tool is in both catalogs with a different schema of that
  kind.  Nothing is claimed from an incomplete catalog, the status says so, and the entries come in
  the documented order.
\<close>

theorem schema_explanation_justified:
  "list_all (justified (extract_tools S a) (extract_tools S b))
     (sa_explanations (explain_tool_schema_changes S a b)) \<and>
   (sa_status (explain_tool_schema_changes S a b) = IncompleteCatalog) =
     (\<not> (tc_complete (extract_tool_catalog S a) \<and> tc_complete (extract_tool_catalog S b))) \<and>
   (if sa_status (explain_tool_schema_changes S a b) = IncompleteCatalog
    then sa_explanations (explain_tool_schema_changes S a b) = [] else True) \<and>
   sorted (map explanation_key (sa_explanations (explain_tool_schema_changes S a b)))"
  using explain_facts[of S a b]
  by (simp add: explain_tool_schema_changes_def explain_catalogs_def Let_def list_all_sort_key extract_tools_def)

text \<open>
  The type classification is exact: for two supported type keywords the candidate's set counts
  as a subset exactly when every kind of JSON value it accepts is accepted by the baseline (an
  integer being a number, an absent keyword accepting everything).
\<close>

theorem type_classification_exact:
  assumes "parse_type_set v = Some (Some c)" "parse_type_set w = Some b"
  shows "type_set_subset (Some c) b \<longleftrightarrow> accepted (Some c) \<subseteq> accepted b"
  using parse_type_set_known[OF assms(1)] by (rule type_set_subset_exact)

theorem type_classification_exact_witness:
  "accepted (Some [''integer'']) \<subseteq> accepted (Some [''number''])"
proof -
  have "parse_type_set (Some (JString ''integer'')) = Some (Some [''integer''])"
    "parse_type_set (Some (JString ''number'')) = Some (Some [''number''])"
    by (simp_all add: parse_type_set_def known_set_def known_types_def btree_set_def)
  from type_classification_exact[OF this] show ?thesis by (simp add: type_set_subset_def)
qed

section \<open>A change that is not reported\<close>

text \<open>
  Two schema-valued \<open>additionalProperties\<close> both parse as \<open>Constrained\<close>, and the first arm of the
  match drops equal states: a changed restriction yields no explanation at all, although the
  comment there promises one that is unclassified.
\<close>

theorem constrained_change_unreported:
  "ws_out (analyze_schema_node S tool kind
     (JObject [(''additionalProperties'', JObject m)]) (JObject [(''additionalProperties'', JObject n)])
     [] 0 \<lparr>ws_nodes = 0, ws_out = [], ws_truncated = False\<rparr>) = []"
  by (simp add: analyze_schema_node.simps MAX_SCHEMA_EXPLANATIONS_def MAX_SCHEMA_DEPTH_def MAX_SCHEMA_NODES_def
      check_type_def check_required_def check_additional_def check_enum_def parse_additional_properties_def
      bt_get_def bad_properties_def members_of_def keys_of_def btree_set_def bt_keys_def known_keywords_def Let_def)

end
