(* ===== verification/Serve.thy ===== *)
theory Serve
  imports SessionFacts JsonDiff
begin

text \<open>
  The offline mock server's matcher (\<open>crates/mcptracer-model/src/serve.rs\<close>): a one-shot inventory
  of recorded responses and the five strategies that pair a live request with one of them.  The two
  \<open>expect\<close> calls of the loader are an error of their own here, \<open>SeqMissing\<close>; it is shown never to occur.
\<close>

section \<open>Inventory\<close>

datatype match_strategy = Exact | Method | MethodAndParams | Subset | Sequential

datatype serve_error = InvalidPayloadAt u64 string | MissingMethod u64 | SeqMissing u64

record mock_response =
  mr_response :: json
  mr_request_seq :: u64
  mr_response_seq :: u64

record recorded_exchange =
  re_method :: string
  re_tool_name :: "string option"
  re_params_key :: string
  re_params :: json
  re_response :: json
  re_request_seq :: u64
  re_response_seq :: u64
  re_used :: bool

record mock_session =
  mo_exchanges :: "recorded_exchange list"
  mo_strategy :: match_strategy

definition request_method :: "json \<Rightarrow> string option" where
  "request_method request = Option.bind (json_get request ''method'') as_str"

definition request_tool_name :: "json \<Rightarrow> string option" where
  "request_tool_name request =
     (if request_method request = Some ''tools/call''
      then Option.bind (json_get request ''params'') (\<lambda>params. Option.bind (json_get params ''name'') as_str)
      else None)"

definition raw_params :: "json \<Rightarrow> json" where
  "raw_params request = (case json_get request ''params'' of Some v \<Rightarrow> v | None \<Rightarrow> JNull)"

fun canonicalize :: "json \<Rightarrow> json"
  and canonical_members :: "(string \<times> json) list \<Rightarrow> (string \<times> json) list"
  and canonical_items :: "json list \<Rightarrow> json list" where
  "canonicalize (JObject m) = JObject (bt_collect (bt_collect (canonical_members m)))"
| "canonicalize (JArray items) = JArray (canonical_items items)"
| "canonicalize v = v"
| "canonical_members [] = []"
| "canonical_members ((key, v) # m) = (key, canonicalize v) # canonical_members m"
| "canonical_items [] = []"
| "canonical_items (v # vs) = canonicalize v # canonical_items vs"

definition params_key :: "serde \<Rightarrow> json \<Rightarrow> string" where
  "params_key S request = print_json S (canonicalize (raw_params request))"

definition params_subset :: "json \<Rightarrow> json \<Rightarrow> bool" where
  "params_subset recorded live =
     (case recorded of
        JNull \<Rightarrow> True
      | JObject recorded_map \<Rightarrow>
          (case live of
             JObject live_map \<Rightarrow> list_all (\<lambda>(key, v). bt_get live_map key = Some v) recorded_map
           | _ \<Rightarrow> False)
      | other \<Rightarrow> other = live)"

definition by_seq :: "stored_message list \<Rightarrow> (u64, stored_message) btree" where
  "by_seq messages = bt_collect (map (\<lambda>m. (msg_seq m, m)) messages)"

definition record_exchange :: "serde \<Rightarrow> json \<Rightarrow> string \<Rightarrow> json \<Rightarrow> u64 \<Rightarrow> u64 \<Rightarrow> recorded_exchange" where
  "record_exchange S request method response request_seq response_seq =
     \<lparr>re_method = method, re_tool_name = request_tool_name request, re_params_key = params_key S request,
      re_params = raw_params request, re_response = response, re_request_seq = request_seq,
      re_response_seq = response_seq, re_used = False\<rparr>"

definition parse_side :: "serde \<Rightarrow> string \<Rightarrow> u64 \<Rightarrow> stored_message option \<Rightarrow> serve_error + json" where
  "parse_side S side seqno message =
     (case message of
        None \<Rightarrow> Inl (SeqMissing seqno)
      | Some m \<Rightarrow> (case parse_json S (msg_payload m) of
                     None \<Rightarrow> Inl (InvalidPayloadAt seqno side) | Some v \<Rightarrow> Inr v))"

definition is_served :: "exchange \<Rightarrow> bool" where
  "is_served e \<longleftrightarrow> ex_origin e = ClientToServer \<and> ex_status e \<in> {Ok, Error}"

text \<open>Both messages are looked up before either payload is parsed; \<open>None\<close> is the loop's \<open>continue\<close>.\<close>

definition load_exchange ::
  "serde \<Rightarrow> (u64, stored_message) btree \<Rightarrow> exchange \<Rightarrow> serve_error + recorded_exchange option" where
  "load_exchange S msgs e =
     (if \<not> is_served e then Inr None
      else case (ex_request_seq e, ex_response_seq e) of
        (Some request_seq, Some response_seq) \<Rightarrow>
          (if bt_get msgs request_seq = None then Inl (SeqMissing request_seq)
           else if bt_get msgs response_seq = None then Inl (SeqMissing response_seq)
           else case parse_side S ''request'' request_seq (bt_get msgs request_seq) of
             Inl err \<Rightarrow> Inl err
           | Inr request \<Rightarrow>
               (case parse_side S ''response'' response_seq (bt_get msgs response_seq) of
                  Inl err \<Rightarrow> Inl err
                | Inr response \<Rightarrow>
                    (case request_method request of
                       None \<Rightarrow> Inl (MissingMethod request_seq)
                     | Some method \<Rightarrow>
                         Inr (Some (record_exchange S request method response request_seq response_seq)))))
      | _ \<Rightarrow> Inr None)"

fun load_exchanges ::
  "serde \<Rightarrow> (u64, stored_message) btree \<Rightarrow> exchange list \<Rightarrow> serve_error + recorded_exchange list" where
  "load_exchanges S msgs [] = Inr []"
| "load_exchanges S msgs (e # es) =
     (case load_exchange S msgs e of
        Inl err \<Rightarrow> Inl err
      | Inr r \<Rightarrow>
          (case load_exchanges S msgs es of
             Inl err \<Rightarrow> Inl err
           | Inr rs \<Rightarrow> Inr (case r of None \<Rightarrow> rs | Some x \<Rightarrow> x # rs)))"

definition from_messages_with_strategy ::
  "serde \<Rightarrow> stored_message list \<Rightarrow> match_strategy \<Rightarrow> serve_error + mock_session" where
  "from_messages_with_strategy S messages strategy =
     (case load_exchanges S (by_seq messages) (exchanges (correlate S messages)) of
        Inl err \<Rightarrow> Inl err
      | Inr es \<Rightarrow> Inr \<lparr>mo_exchanges = es, mo_strategy = strategy\<rparr>)"

definition from_messages :: "serde \<Rightarrow> stored_message list \<Rightarrow> serve_error + mock_session" where
  "from_messages S messages = from_messages_with_strategy S messages MethodAndParams"

definition session_is_empty :: "mock_session \<Rightarrow> bool" where
  "session_is_empty session \<longleftrightarrow> mo_exchanges session = []"

section \<open>Matching\<close>

definition exact_match :: "string \<Rightarrow> string option \<Rightarrow> string \<Rightarrow> recorded_exchange \<Rightarrow> bool" where
  "exact_match method tool key c \<longleftrightarrow>
     \<not> re_used c \<and> re_method c = method \<and> re_tool_name c = tool \<and> re_params_key c = key"

definition pick ::
  "serde \<Rightarrow> match_strategy \<Rightarrow> json \<Rightarrow> string \<Rightarrow> recorded_exchange list \<Rightarrow> nat option" where
  "pick S strategy request method es =
     (let tool = request_tool_name request; key = params_key S request; live_params = raw_params request
      in case strategy of
        Sequential \<Rightarrow> position (\<lambda>c. \<not> re_used c) es
      | Method \<Rightarrow> position (\<lambda>c. \<not> re_used c \<and> re_method c = method) es
      | Exact \<Rightarrow> position (exact_match method tool key) es
      | MethodAndParams \<Rightarrow>
          (case position (exact_match method tool key) es of
             Some i \<Rightarrow> Some i
           | None \<Rightarrow> position (\<lambda>c. \<not> re_used c \<and> re_method c = method \<and> re_tool_name c = tool) es)
      | Subset \<Rightarrow>
          position (\<lambda>c. \<not> re_used c \<and> re_method c = method \<and> re_tool_name c = tool \<and>
                        params_subset (re_params c) live_params) es)"

definition match_request :: "serde \<Rightarrow> mock_session \<Rightarrow> json \<Rightarrow> mock_session \<times> mock_response option" where
  "match_request S session request =
     (case request_method request of
        None \<Rightarrow> (session, None)
      | Some method \<Rightarrow>
          (case pick S (mo_strategy session) request method (mo_exchanges session) of
             None \<Rightarrow> (session, None)
           | Some i \<Rightarrow>
               let candidate = mo_exchanges session ! i
               in (session\<lparr>mo_exchanges := (mo_exchanges session)[i := candidate\<lparr>re_used := True\<rparr>]\<rparr>,
                   Some \<lparr>mr_response = re_response candidate, mr_request_seq = re_request_seq candidate,
                         mr_response_seq = re_response_seq candidate\<rparr>)))"

text \<open>A client's whole conversation with the mock server.\<close>

fun serve_all :: "serde \<Rightarrow> mock_session \<Rightarrow> json list \<Rightarrow> mock_session \<times> mock_response option list" where
  "serve_all S session [] = (session, [])"
| "serve_all S session (q # qs) =
     (let (s1, r) = match_request S session q; (s2, rs) = serve_all S s1 qs in (s2, r # rs))"

end
