(* ===== verification/ServeFacts.thy ===== *)
theory ServeFacts
  imports Serve
begin

text \<open>
  Facts about the mock server.  The strategies share one contract, the interface \<open>one_shot\<close>: what is
  picked is an unused entry.  From it follows that no recorded response is served twice.
\<close>

section \<open>The shared contract\<close>

definition response_of :: "recorded_exchange \<Rightarrow> mock_response" where
  "response_of c =
     \<lparr>mr_response = re_response c, mr_request_seq = re_request_seq c, mr_response_seq = re_response_seq c\<rparr>"

definition unused :: "recorded_exchange list \<Rightarrow> recorded_exchange list" where
  "unused es = filter (\<lambda>c. \<not> re_used c) es"

definition mark :: "nat \<Rightarrow> recorded_exchange list \<Rightarrow> recorded_exchange list" where
  "mark i es = es[i := (es ! i)\<lparr>re_used := True\<rparr>]"

lemma unused_mark:
  assumes "i < length es" "\<not> re_used (es ! i)"
  shows "mset (unused es) = add_mset (es ! i) (mset (unused (mark i es)))"
proof -
  have es: "es = take i es @ es ! i # drop (Suc i) es" using assms(1) by (rule id_take_nth_drop)
  have "mark i es = take i es @ (es ! i)\<lparr>re_used := True\<rparr> # drop (Suc i) es"
    using assms(1) by (simp add: mark_def upd_conv_take_nth_drop)
  then have "unused (mark i es) = unused (take i es) @ unused (drop (Suc i) es)" by (simp add: unused_def)
  moreover have "unused es = unused (take i es) @ es ! i # unused (drop (Suc i) es)"
    using assms(2) by (subst es) (simp add: unused_def)
  ultimately show ?thesis by simp
qed

locale one_shot =
  fixes pick :: "json \<Rightarrow> string \<Rightarrow> recorded_exchange list \<Rightarrow> nat option"
  assumes pick_unused: "pick q m es = Some i \<Longrightarrow> i < length es \<and> \<not> re_used (es ! i)"
begin

fun serve :: "recorded_exchange list \<Rightarrow> (json \<times> string) list \<Rightarrow> recorded_exchange list" where
  "serve es [] = []"
| "serve es ((q, m) # qs) =
     (case pick q m es of None \<Rightarrow> serve es qs | Some i \<Rightarrow> (es ! i) # serve (mark i es) qs)"

lemma served_once: "mset (serve es qs) \<subseteq># mset (unused es)"
proof (induction es qs rule: serve.induct)
  case (2 es q m qs)
  show ?case
  proof (cases "pick q m es")
    case None
    then show ?thesis using 2 by simp
  next
    case (Some i)
    with pick_unused have "i < length es" "\<not> re_used (es ! i)" by auto
    with Some 2(2) show ?thesis by (simp add: unused_mark)
  qed
qed simp

end

lemma position_unused:
  "position (\<lambda>c. \<not> re_used c \<and> P c) es = Some i \<Longrightarrow> i < length es \<and> \<not> re_used (es ! i)"
  by (drule position_Some) simp

lemma pick_unused: "pick S strategy q m es = Some i \<Longrightarrow> i < length es \<and> \<not> re_used (es ! i)"
  by (cases strategy) (auto simp: pick_def Let_def exact_match_def dest!: position_Some split: option.splits)

interpretation strategy: one_shot "pick S st" for S st
  by unfold_locales (rule pick_unused)

lemma match_request_cases:
  "match_request S session q =
     (case Option.bind (request_method q) (\<lambda>m. pick S (mo_strategy session) q m (mo_exchanges session)) of
        None \<Rightarrow> (session, None)
      | Some i \<Rightarrow> (session\<lparr>mo_exchanges := mark i (mo_exchanges session)\<rparr>,
                   Some (response_of (mo_exchanges session ! i))))"
  by (simp add: match_request_def mark_def response_of_def Let_def split: option.splits)

definition conversation :: "json list \<Rightarrow> (json \<times> string) list" where
  "conversation qs = List.map_filter (\<lambda>q. map_option (Pair q) (request_method q)) qs"

text \<open>The session's run is the run of its strategy on the inventory.\<close>

lemma serve_all_serve:
  "somes (snd (serve_all S session qs)) =
     map response_of (strategy.serve S (mo_strategy session) (mo_exchanges session) (conversation qs))"
proof (induction qs arbitrary: session)
  case (Cons q qs)
  show ?case
  proof (cases "request_method q")
    case None
    then show ?thesis
      using Cons.IH[of session]
      by (simp add: conversation_def match_request_cases List.map_filter_simps split_beta)
  next
    case (Some m)
    then show ?thesis
      using Cons.IH
      by (cases "pick S (mo_strategy session) q m (mo_exchanges session)")
         (simp_all add: conversation_def match_request_cases List.map_filter_simps split_beta)
  qed
qed (simp add: conversation_def List.map_filter_simps)

section \<open>The inventory\<close>

lemma load_exchanges_rel:
  "load_exchanges S msgs es = Inr rs \<Longrightarrow>
     list_all2 (\<lambda>c e. load_exchange S msgs e = Inr (Some c)) rs
       (filter (\<lambda>e. load_exchange S msgs e \<noteq> Inr None) es)"
  by (induction es arbitrary: rs) (auto split: sum.splits option.splits)

lemma load_exchanges_err: "load_exchanges S msgs es = Inl err \<Longrightarrow> \<exists>e \<in> set es. load_exchange S msgs e = Inl err"
  by (induction es) (auto split: sum.splits)

lemma load_exchange_Some:
  "load_exchange S msgs e = Inr (Some c) \<Longrightarrow>
     \<exists>rq rp m. request_method rq = Some m \<and> ex_request_seq e = Some (re_request_seq c) \<and>
       ex_response_seq e = Some (re_response_seq c) \<and>
       c = record_exchange S rq m rp (re_request_seq c) (re_response_seq c) \<and>
       Option.bind (bt_get msgs (re_request_seq c)) (\<lambda>m. parse_json S (msg_payload m)) = Some rq"
  by (auto simp: load_exchange_def parse_side_def record_exchange_def split: if_splits option.splits sum.splits)

section \<open>Replaying the recorded requests\<close>

text \<open>An inventory entry accepts the request it was recorded with under every strategy.\<close>

definition parse_wf :: "serde \<Rightarrow> bool" where
  "parse_wf S \<longleftrightarrow> (\<forall>s v. parse_json S s = Some v \<longrightarrow> json_wf v)"

definition recorded_with :: "serde \<Rightarrow> recorded_exchange \<Rightarrow> json \<Rightarrow> bool" where
  "recorded_with S c q \<longleftrightarrow>
     json_wf q \<and> \<not> re_used c \<and> request_method q = Some (re_method c) \<and> re_tool_name c = request_tool_name q \<and>
     re_params_key c = params_key S q \<and> re_params c = raw_params q"

lemma raw_params_wf: "json_wf q \<Longrightarrow> json_wf (raw_params q)"
  by (auto simp: raw_params_def dest: json_get_wf split: option.splits)

lemma params_subset_refl: "json_wf v \<Longrightarrow> params_subset v v"
  by (cases v) (auto simp: params_subset_def list_all_iff bt_get_wf_iff)

lemma position_after:
  "\<forall>x \<in> set xs. \<not> p x \<Longrightarrow> p y \<Longrightarrow> position p (xs @ y # ys) = Some (length xs)"
  by (induction xs) auto

lemma pick_recorded:
  assumes "\<forall>x \<in> set xs. re_used x" "recorded_with S y q"
  shows "pick S strategy q (re_method y) (xs @ y # ys) = Some (length xs)"
proof -
  have y: "\<not> re_used y" "re_tool_name y = request_tool_name q" "re_params_key y = params_key S q"
    "params_subset (re_params y) (raw_params q)"
    using assms(2) by (auto simp: recorded_with_def raw_params_wf params_subset_refl)
  have pos: "(\<And>c. p c \<Longrightarrow> \<not> re_used c) \<Longrightarrow> p y \<Longrightarrow> position p (xs @ y # ys) = Some (length xs)" for p
    using assms(1) by (intro position_after) auto
  have "position (exact_match (re_method y) (request_tool_name q) (params_key S q)) (xs @ y # ys) = Some (length xs)"
    using y by (intro pos) (auto simp: exact_match_def)
  then show ?thesis using y by (cases strategy) (auto simp: pick_def Let_def intro!: pos)
qed

lemma serve_recorded:
  "\<forall>x \<in> set xs. re_used x \<Longrightarrow> list_all2 (recorded_with S) ys qs \<Longrightarrow> mo_exchanges session = xs @ ys \<Longrightarrow>
     snd (serve_all S session qs) = map (\<lambda>c. Some (response_of c)) ys"
proof (induction ys arbitrary: xs qs session)
  case Nil
  then show ?case by simp
next
  case (Cons y ys)
  then obtain q qs' where qs: "qs = q # qs'" "recorded_with S y q" "list_all2 (recorded_with S) ys qs'"
    by (cases qs) auto
  have m: "request_method q = Some (re_method y)" using qs(2) by (simp add: recorded_with_def)
  let ?y = "y\<lparr>re_used := True\<rparr>"
  have step: "match_request S session q =
      (session\<lparr>mo_exchanges := xs @ ?y # ys\<rparr>, Some (response_of y))"
    using pick_recorded[OF Cons.prems(1) qs(2), of "mo_strategy session" ys] Cons.prems(3) m
    by (simp add: match_request_cases mark_def)
  have "snd (serve_all S (session\<lparr>mo_exchanges := xs @ ?y # ys\<rparr>) qs') = map (\<lambda>c. Some (response_of c)) ys"
    by (rule Cons.IH[of "xs @ [?y]"]) (use Cons.prems(1) qs in auto)
  then show ?case by (simp add: qs(1) step split_beta)
qed

text \<open>The request an inventory entry came from, as the log has it.\<close>

definition recorded_request :: "serde \<Rightarrow> stored_message list \<Rightarrow> recorded_exchange \<Rightarrow> json" where
  "recorded_request S ms c =
     the (Option.bind (bt_get (by_seq ms) (re_request_seq c)) (\<lambda>m. parse_json S (msg_payload m)))"

lemma load_exchange_recorded:
  assumes "parse_wf S" "load_exchange S (by_seq ms) e = Inr (Some c)"
  shows "recorded_with S c (recorded_request S ms c)"
proof -
  obtain rq rp m where l: "request_method rq = Some m"
    "c = record_exchange S rq m rp (re_request_seq c) (re_response_seq c)"
    "Option.bind (bt_get (by_seq ms) (re_request_seq c)) (\<lambda>m. parse_json S (msg_payload m)) = Some rq"
    using load_exchange_Some[OF assms(2)] by blast
  then have rr: "recorded_request S ms c = rq" by (simp add: recorded_request_def)
  have "json_wf rq" using l(3) assms(1) by (auto simp: parse_wf_def bind_eq_Some_conv)
  with l(1) show ?thesis
    unfolding rr recorded_with_def by (subst (1 2 3 4 5) l(2)) (simp add: record_exchange_def)
qed

lemma load_exchanges_recorded:
  assumes "parse_wf S" "load_exchanges S (by_seq ms) es = Inr rs"
  shows "list_all2 (recorded_with S) rs (map (recorded_request S ms) rs)"
  using load_exchanges_rel[OF assms(2)] load_exchange_recorded[OF assms(1)]
  by (auto simp: list_all2_conv_all_nth)

section \<open>The loader never panics\<close>

lemma by_seq_get: "m \<in> set ms \<Longrightarrow> bt_get (by_seq ms) (msg_seq m) \<noteq> None"
  unfolding by_seq_def bt_get_keys bt_collect_keys by (simp add: image_image)

lemma served_sides:
  assumes "e \<in> set (exchanges (correlate S ms))" "is_served e"
  shows "\<exists>r s. r \<in> set ms \<and> s \<in> set ms \<and> ex_request_seq e = Some (msg_seq r) \<and> ex_response_seq e = Some (msg_seq s)"
proof -
  have "provenance S ms e" using assms(1) by (rule correlate_all_from)
  moreover have "ex_status e \<in> {Ok, Error}" using assms(2) by (simp add: is_served_def)
  ultimately obtain xs r ys s zs where "ms = xs @ r # ys @ s # zs" "from_request e r" "from_response e s"
    by (auto simp: provenance_def)
  then show ?thesis by (auto simp: from_request_def from_response_def)
qed

lemma load_exchange_no_panic:
  assumes "e \<in> set (exchanges (correlate S ms))"
  shows "load_exchange S (by_seq ms) e \<noteq> Inl (SeqMissing n)"
proof (cases "is_served e")
  case True
  then obtain r s where "r \<in> set ms" "s \<in> set ms" "ex_request_seq e = Some (msg_seq r)" "ex_response_seq e = Some (msg_seq s)"
    using served_sides[OF assms] by blast
  moreover from this by_seq_get obtain a b where "bt_get (by_seq ms) (msg_seq r) = Some a" "bt_get (by_seq ms) (msg_seq s) = Some b"
    by blast
  ultimately show ?thesis
    by (simp add: load_exchange_def parse_side_def split: option.splits)
qed (simp add: load_exchange_def)

lemma load_exchange_skips:
  assumes "e \<in> set (exchanges (correlate S ms))"
  shows "load_exchange S (by_seq ms) e = Inr None \<longleftrightarrow> \<not> is_served e"
proof (cases "is_served e")
  case True
  then obtain r s where "r \<in> set ms" "s \<in> set ms" "ex_request_seq e = Some (msg_seq r)" "ex_response_seq e = Some (msg_seq s)"
    using served_sides[OF assms] by blast
  moreover from this by_seq_get obtain a b where "bt_get (by_seq ms) (msg_seq r) = Some a" "bt_get (by_seq ms) (msg_seq s) = Some b"
    by blast
  ultimately show ?thesis using True
    by (simp add: load_exchange_def parse_side_def split: option.splits)
qed (simp add: load_exchange_def)

end
