(* ===== verification/ServeProps.thy ===== *)
theory ServeProps
  imports ServeFacts Capture
begin

text \<open>
  The properties of the mock server: what the inventory holds, which entry a request gets, and that
  a recorded conversation is replayed faithfully.
\<close>

text \<open>
  Loading never panics (the sequence numbers correlation reports are in the log), and a loaded
  inventory holds exactly the client's exchanges answered with a result or an error, in order.
\<close>

theorem serve_inventory:
  "case from_messages_with_strategy S ms strategy of
     Inl (SeqMissing n) \<Rightarrow> False
   | Inl err \<Rightarrow> True
   | Inr session \<Rightarrow>
       mo_strategy session = strategy \<and> list_all (\<lambda>c. \<not> re_used c) (mo_exchanges session) \<and>
       map (\<lambda>c. (Some (re_request_seq c), Some (re_response_seq c))) (mo_exchanges session) =
         map (\<lambda>e. (ex_request_seq e, ex_response_seq e)) (filter is_served (exchanges (correlate S ms)))"
proof (cases "load_exchanges S (by_seq ms) (exchanges (correlate S ms))")
  case (Inl err)
  then show ?thesis
    using load_exchanges_err[OF Inl] load_exchange_no_panic[of _ S ms]
    by (auto simp: from_messages_with_strategy_def split: serve_error.splits)
next
  case (Inr rs)
  have "filter (\<lambda>e. load_exchange S (by_seq ms) e \<noteq> Inr None) (exchanges (correlate S ms)) =
      filter is_served (exchanges (correlate S ms))"
    by (rule filter_cong) (simp_all add: load_exchange_skips)
  with load_exchanges_rel[OF Inr]
  have rel: "list_all2 (\<lambda>c e. load_exchange S (by_seq ms) e = Inr (Some c)) rs (filter is_served (exchanges (correlate S ms)))"
    by simp
  then have "list_all2 (\<lambda>c e. (Some (re_request_seq c), Some (re_response_seq c)) = (ex_request_seq e, ex_response_seq e) \<and>
      \<not> re_used c) rs (filter is_served (exchanges (correlate S ms)))"
  proof (rule list_all2_mono)
    fix c e assume "load_exchange S (by_seq ms) e = Inr (Some c)"
    then obtain rq rp m where "ex_request_seq e = Some (re_request_seq c)" "ex_response_seq e = Some (re_response_seq c)"
      "c = record_exchange S rq m rp (re_request_seq c) (re_response_seq c)" using load_exchange_Some by blast
    moreover from this(3) have "\<not> re_used c" by (metis record_exchange_def recorded_exchange.select_convs(8))
    ultimately show "(Some (re_request_seq c), Some (re_response_seq c)) = (ex_request_seq e, ex_response_seq e) \<and> \<not> re_used c"
      by simp
  qed
  then show ?thesis
    by (auto simp: from_messages_with_strategy_def Inr list_all2_conv_all_nth list_all_length intro!: nth_equalityI)
qed

text \<open>
  C7: A recorded response is served at most once: over any conversation, the responses given are,
  with multiplicity, among the unused entries of the inventory.
\<close>

theorem serve_each_once:
  "mset (somes (snd (serve_all S session qs))) \<subseteq># mset (map response_of (unused (mo_exchanges session)))"
  using strategy.served_once[of S "mo_strategy session" "mo_exchanges session" "conversation qs"]
  by (simp add: serve_all_serve image_mset_subseteq_mono)

definition accepts :: "serde \<Rightarrow> match_strategy \<Rightarrow> json \<Rightarrow> recorded_exchange \<Rightarrow> bool" where
  "accepts S strategy q c \<longleftrightarrow>
     (case strategy of
        Sequential \<Rightarrow> True
      | Method \<Rightarrow> Some (re_method c) = request_method q
      | MethodAndParams \<Rightarrow> Some (re_method c) = request_method q \<and> re_tool_name c = request_tool_name q
      | Exact \<Rightarrow> Some (re_method c) = request_method q \<and> re_tool_name c = request_tool_name q \<and>
                 re_params_key c = params_key S q
      | Subset \<Rightarrow> Some (re_method c) = request_method q \<and> re_tool_name c = request_tool_name q \<and>
                  params_subset (re_params c) (raw_params q))"

definition first_of :: "(recorded_exchange \<Rightarrow> bool) \<Rightarrow> recorded_exchange list \<Rightarrow> nat \<Rightarrow> bool" where
  "first_of p es i \<longleftrightarrow> i < length es \<and> p (es ! i) \<and> list_all (\<lambda>c. \<not> p c) (take i es)"

lemma position_first: "position p es = Some i \<Longrightarrow> first_of p es i"
  by (drule position_Some) (auto simp: first_of_def list_all_length)

lemma pick_first:
  assumes "request_method q = Some m"
  shows "case pick S strategy q m es of
      None \<Rightarrow> filter (\<lambda>c. \<not> re_used c \<and> accepts S strategy q c) es = []
    | Some i \<Rightarrow> first_of (\<lambda>c. \<not> re_used c \<and> accepts S strategy q c) es i \<or>
        strategy = MethodAndParams \<and> first_of (\<lambda>c. \<not> re_used c \<and> accepts S Exact q c) es i"
proof -
  have p: "case position (\<lambda>c. \<not> re_used c \<and> P c) es of None \<Rightarrow> filter (\<lambda>c. \<not> re_used c \<and> P c) es = []
      | Some i \<Rightarrow> first_of (\<lambda>c. \<not> re_used c \<and> P c) es i" for P
    by (auto simp: list_facts filter_empty_conv position_first split: option.splits)
  have acc: "exact_match m (request_tool_name q) (params_key S q) = (\<lambda>c. \<not> re_used c \<and> accepts S Exact q c)"
    "(\<lambda>c. \<not> re_used c) = (\<lambda>c. \<not> re_used c \<and> accepts S Sequential q c)"
    "(\<lambda>c. \<not> re_used c \<and> re_method c = m) = (\<lambda>c. \<not> re_used c \<and> accepts S Method q c)"
    "(\<lambda>c. \<not> re_used c \<and> re_method c = m \<and> re_tool_name c = request_tool_name q) =
      (\<lambda>c. \<not> re_used c \<and> accepts S MethodAndParams q c)"
    "(\<lambda>c. \<not> re_used c \<and> re_method c = m \<and> re_tool_name c = request_tool_name q \<and>
        params_subset (re_params c) (raw_params q)) = (\<lambda>c. \<not> re_used c \<and> accepts S Subset q c)"
    using assms by (simp_all add: fun_eq_iff exact_match_def accepts_def)
  show ?thesis
  proof (cases "strategy = MethodAndParams")
    case True
    show ?thesis
      using p[of "accepts S Exact q"] p[of "accepts S MethodAndParams q"] True
      unfolding pick_def Let_def acc by (simp split: option.splits)
  next
    case False
    then show ?thesis
      using p[of "accepts S strategy q"]
      unfolding pick_def Let_def acc(1,3-5) by (cases strategy) (simp_all only: match_strategy.simps acc(2) simp_thms split: option.splits)
  qed
qed

text \<open>
  A request is answered by the first unused entry its strategy accepts, and stays unanswered
  only when there is none; the default strategy takes an entry with other parameters only when no
  unused entry has the same ones.
\<close>

theorem match_request_first:
  "case match_request S session q of
     (session', None) \<Rightarrow> session' = session \<and>
       (if request_method q = None then True
        else filter (\<lambda>c. \<not> re_used c \<and> accepts S (mo_strategy session) q c) (mo_exchanges session) = [])
   | (session', Some r) \<Rightarrow> \<exists>i. r = response_of (mo_exchanges session ! i) \<and>
       session' = session\<lparr>mo_exchanges := mark i (mo_exchanges session)\<rparr> \<and>
       (first_of (\<lambda>c. \<not> re_used c \<and> accepts S (mo_strategy session) q c) (mo_exchanges session) i \<or>
        mo_strategy session = MethodAndParams \<and>
        first_of (\<lambda>c. \<not> re_used c \<and> accepts S Exact q c) (mo_exchanges session) i)"
proof (cases "request_method q")
  case None
  then show ?thesis by (simp add: match_request_cases)
next
  case (Some m)
  from pick_first[OF Some, of S "mo_strategy session" "mo_exchanges session"] show ?thesis
    by (cases "pick S (mo_strategy session) q m (mo_exchanges session)")
       (auto simp: match_request_cases Some)
qed







end
