(* ===== verification/Quota.thy ===== *)
theory Quota
  imports Session Float64
begin

text \<open>
  \<open>crates/mcptracer-model/src/quota.rs\<close>: token buckets, token counts with their provenance, and the
  simulation of a recorded session against a provider's rate limits.  All times and token levels are
  \<open>f64\<close>; counters saturate.
\<close>

section \<open>Presets\<close>

record provider_preset =
  pp_name :: string
  pp_description :: string
  pp_refill_rate :: f64
  pp_capacity :: f64
  pp_req_rate :: f64
  pp_req_capacity :: f64

text \<open>\<open>to_lowercase\<close>: the known names are ASCII, and no other character lowers to their letters.\<close>

definition preset_from_name :: "string \<Rightarrow> provider_preset option" where
  "preset_from_name name =
     (let n = map to_ascii_lowercase name
      in if n = ''openai-tier1'' then
           Some \<lparr>pp_name = ''OpenAI Tier 1'', pp_description = ''30k TPM, 500 RPM'', pp_refill_rate = 500,
                 pp_capacity = 10000, pp_req_rate = rnd (833 / 100), pp_req_capacity = 500\<rparr>
         else if n = ''openai-tier2'' then
           Some \<lparr>pp_name = ''OpenAI Tier 2'', pp_description = ''120k TPM, 1k RPM'', pp_refill_rate = 2000,
                 pp_capacity = 40000, pp_req_rate = rnd (1666 / 100), pp_req_capacity = 1000\<rparr>
         else if n = ''openai-tier3'' then
           Some \<lparr>pp_name = ''OpenAI Tier 3'', pp_description = ''480k TPM, 5k RPM'', pp_refill_rate = 8000,
                 pp_capacity = 150000, pp_req_rate = rnd (8333 / 100), pp_req_capacity = 5000\<rparr>
         else if n = ''anthropic-tier1'' then
           Some \<lparr>pp_name = ''Anthropic Tier 1'', pp_description = ''25k TPM, 50 RPM'', pp_refill_rate = 416,
                 pp_capacity = 10000, pp_req_rate = 5, pp_req_capacity = 50\<rparr>
         else if n = ''anthropic-tier2'' then
           Some \<lparr>pp_name = ''Anthropic Tier 2'', pp_description = ''100k TPM, 1k RPM'', pp_refill_rate = 1666,
                 pp_capacity = 40000, pp_req_rate = rnd (1666 / 100), pp_req_capacity = 1000\<rparr>
         else if n = ''groq-llama3'' then
           Some \<lparr>pp_name = ''Groq Free/On-Demand'', pp_description = ''60k TPM, 30 RPM'', pp_refill_rate = 1000,
                 pp_capacity = 30000, pp_req_rate = 1 / 2, pp_req_capacity = 30\<rparr>
         else None)"

section \<open>Buckets\<close>

record token_bucket =
  tb_rate :: f64
  tb_capacity :: f64
  tb_tokens :: f64
  tb_last_refill :: "f64 option"

definition bucket_new :: "f64 \<Rightarrow> f64 \<Rightarrow> token_bucket" where
  "bucket_new rate capacity =
     \<lparr>tb_rate = rate, tb_capacity = capacity, tb_tokens = capacity, tb_last_refill = None\<rparr>"

definition refill :: "f64 \<Rightarrow> token_bucket \<Rightarrow> token_bucket" where
  "refill now b =
     (let b1 = (case tb_last_refill b of
          Some prev \<Rightarrow>
            if now > prev
            then let elapsed = f64_sub now prev
                 in b\<lparr>tb_tokens := min (f64_add (tb_tokens b) (f64_mul elapsed (tb_rate b))) (tb_capacity b)\<rparr>
            else b
        | None \<Rightarrow> b)
      in b1\<lparr>tb_last_refill := Some now\<rparr>)"

definition try_consume :: "f64 \<Rightarrow> f64 \<Rightarrow> token_bucket \<Rightarrow> token_bucket \<times> bool" where
  "try_consume amount now b =
     (let b1 = refill now b
      in if tb_tokens b1 \<ge> amount
         then (b1\<lparr>tb_tokens := f64_sub (tb_tokens b1) amount\<rparr>, True)
         else (b1, False))"

record dual_token_bucket =
  db_token_bucket :: token_bucket
  db_req_bucket :: token_bucket

definition dual_new :: "f64 \<Rightarrow> f64 \<Rightarrow> f64 \<Rightarrow> f64 \<Rightarrow> dual_token_bucket" where
  "dual_new token_rate token_capacity req_rate req_capacity =
     \<lparr>db_token_bucket = bucket_new token_rate token_capacity,
      db_req_bucket = bucket_new req_rate req_capacity\<rparr>"

definition dual_try_consume :: "f64 \<Rightarrow> f64 \<Rightarrow> f64 \<Rightarrow> dual_token_bucket \<Rightarrow> dual_token_bucket \<times> bool" where
  "dual_try_consume tokens requests now_s d =
     (let t = refill now_s (db_token_bucket d); r = refill now_s (db_req_bucket d)
      in if tokens > tb_tokens t \<or> requests > tb_tokens r
         then (\<lparr>db_token_bucket = t, db_req_bucket = r\<rparr>, False)
         else (\<lparr>db_token_bucket = t\<lparr>tb_tokens := f64_sub (tb_tokens t) tokens\<rparr>,
                db_req_bucket = r\<lparr>tb_tokens := f64_sub (tb_tokens r) requests\<rparr>\<rparr>, True))"

section \<open>Token counts\<close>

datatype token_source = Reported | EstimatedFromBytes

record token_count =
  tk_tokens :: u64
  tk_source :: token_source

record token_source_summary =
  ts_reported_events :: usize
  ts_reported_tokens :: u64
  ts_estimated_events :: usize
  ts_estimated_tokens :: u64

definition summary_default :: token_source_summary where
  "summary_default =
     \<lparr>ts_reported_events = 0, ts_reported_tokens = 0, ts_estimated_events = 0, ts_estimated_tokens = 0\<rparr>"

fun summary_record :: "token_source \<Rightarrow> u64 \<Rightarrow> token_source_summary \<Rightarrow> token_source_summary" where
  "summary_record Reported tokens s =
     s\<lparr>ts_reported_events := saturating_add (ts_reported_events s) 1,
       ts_reported_tokens := saturating_add (ts_reported_tokens s) tokens\<rparr>"
| "summary_record EstimatedFromBytes tokens s =
     s\<lparr>ts_estimated_events := saturating_add (ts_estimated_events s) 1,
       ts_estimated_tokens := saturating_add (ts_estimated_tokens s) tokens\<rparr>"

definition summary_merge :: "token_source_summary \<Rightarrow> token_source_summary \<Rightarrow> token_source_summary" where
  "summary_merge s t =
     \<lparr>ts_reported_events = saturating_add (ts_reported_events s) (ts_reported_events t),
      ts_reported_tokens = saturating_add (ts_reported_tokens s) (ts_reported_tokens t),
      ts_estimated_events = saturating_add (ts_estimated_events s) (ts_estimated_events t),
      ts_estimated_tokens = saturating_add (ts_estimated_tokens s) (ts_estimated_tokens t)\<rparr>"

definition contains_estimates :: "token_source_summary \<Rightarrow> bool" where
  "contains_estimates s \<longleftrightarrow> ts_estimated_events s > 0"

definition usage_total :: "json \<Rightarrow> u64 option" where
  "usage_total v =
     Option.bind (json_get v ''usage'') (\<lambda>usage. Option.bind (json_get usage ''total_tokens'') as_u64)"

definition message_token_count :: "serde \<Rightarrow> stored_message \<Rightarrow> token_count" where
  "message_token_count S msg =
     (let reported = Option.bind (parse_json S (msg_payload msg)) (\<lambda>val.
            case usage_total val of
              Some tot \<Rightarrow> Some tot
            | None \<Rightarrow> Option.bind (json_get val ''result'') usage_total)
      in case reported of
           Some tot \<Rightarrow> \<lparr>tk_tokens = tot, tk_source = Reported\<rparr>
         | None \<Rightarrow> \<lparr>tk_tokens = max (msg_payload_bytes msg div 4) 10, tk_source = EstimatedFromBytes\<rparr>)"

section \<open>Events\<close>

record quota_event =
  qe_call_id :: string
  qe_ts_s :: f64
  qe_tokens :: u64
  qe_token_source :: token_source
  qe_method :: "string option"

definition is_debit :: "stored_message \<Rightarrow> bool" where
  "is_debit msg \<longleftrightarrow> msg_method msg \<noteq> None \<or> msg_tool_name msg \<noteq> None \<or> msg_kind msg = ''response''"

definition quota_event_of :: "serde \<Rightarrow> stored_message \<Rightarrow> quota_event" where
  "quota_event_of S msg =
     (let c = message_token_count S msg
      in \<lparr>qe_call_id = (case msg_rpc_id msg of Some rid \<Rightarrow> rid | None \<Rightarrow> ''msg_'' @ nat_dec (msg_seq msg)),
          qe_ts_s = f64_div (f64_of_int (msg_ts_ns msg)) 1000000000,
          qe_tokens = tk_tokens c, qe_token_source = tk_source c,
          qe_method = (case msg_method msg of Some m \<Rightarrow> Some m | None \<Rightarrow> msg_tool_name msg)\<rparr>)"

definition extract_quota_events :: "serde \<Rightarrow> stored_message list \<Rightarrow> quota_event list" where
  "extract_quota_events S messages = sort_key qe_ts_s (map (quota_event_of S) (filter is_debit messages))"

section \<open>Simulation\<close>

record simulation_result =
  sr_ok :: bool
  sr_first_violation_call_id :: "string option"
  sr_first_violation_time_s :: "f64 option"
  sr_total_violations :: usize
  sr_total_calls :: usize
  sr_total_tokens :: u64
  sr_token_sources :: token_source_summary
  sr_peak_demand_per_sec :: u64
  sr_peak_demand_token_sources :: token_source_summary
  sr_burst_factor :: f64

record simulation_state =
  ss_bucket :: token_bucket
  ss_violations :: usize
  ss_first :: "(string \<times> f64) option"
  ss_total_tokens :: u64
  ss_sources :: token_source_summary
  ss_windows :: "(i64, u64 \<times> token_source_summary) btree"

definition simulation_init :: "f64 \<Rightarrow> f64 \<Rightarrow> simulation_state" where
  "simulation_init rate capacity =
     \<lparr>ss_bucket = bucket_new rate capacity, ss_violations = 0, ss_first = None, ss_total_tokens = 0,
      ss_sources = summary_default, ss_windows = []\<rparr>"

text \<open>\<open>as i64\<close> truncates and saturates; the operand is not negative.\<close>

definition window_index :: "f64 \<Rightarrow> f64 \<Rightarrow> i64" where
  "window_index t0 ts = min \<lfloor>max (f64_sub ts t0) 0\<rfloor> i64_max"

definition simulation_step :: "f64 \<Rightarrow> simulation_state \<Rightarrow> quota_event \<Rightarrow> simulation_state" where
  "simulation_step t0 st e =
     (let idx = window_index t0 (qe_ts_s e);
          window = (case bt_get (ss_windows st) idx of Some w \<Rightarrow> w | None \<Rightarrow> (0, summary_default));
          (bucket, admitted) = try_consume (f64_of_int (int (qe_tokens e))) (qe_ts_s e) (ss_bucket st)
      in \<lparr>ss_bucket = bucket,
          ss_violations = (if admitted then ss_violations st else ss_violations st + 1),
          ss_first = (if admitted \<or> ss_first st \<noteq> None then ss_first st else Some (qe_call_id e, qe_ts_s e)),
          ss_total_tokens = saturating_add (ss_total_tokens st) (qe_tokens e),
          ss_sources = summary_record (qe_token_source e) (qe_tokens e) (ss_sources st),
          ss_windows = bt_insert idx
            (saturating_add (fst window) (qe_tokens e),
             summary_record (qe_token_source e) (qe_tokens e) (snd window)) (ss_windows st)\<rparr>)"

text \<open>\<open>max_by_key\<close> keeps the last maximum.\<close>

fun peak_window :: "(u64 \<times> token_source_summary) list \<Rightarrow> u64 \<times> token_source_summary" where
  "peak_window [] = (0, summary_default)"
| "peak_window [w] = w"
| "peak_window (w # v # ws) = (let p = peak_window (v # ws) in if fst w > fst p then w else p)"

definition burst_factor :: "u64 \<Rightarrow> u64 list \<Rightarrow> f64" where
  "burst_factor peak demands =
     (if demands = [] then 0
      else let vals = sort (map (\<lambda>d. f64_of_int (int d)) demands);
               median = vals ! (length vals div 2)
           in if median > 0 then f64_div (f64_of_int (int peak)) median
              else let mean = f64_div (foldl f64_add 0 vals) (f64_of_int (int (length vals)))
                   in if mean > 0 then f64_div (f64_of_int (int peak)) mean else 0)"

definition simulate_events :: "quota_event list \<Rightarrow> f64 \<Rightarrow> f64 \<Rightarrow> simulation_result" where
  "simulate_events events rate capacity =
     (let t0 = (case events of e # _ \<Rightarrow> qe_ts_s e | [] \<Rightarrow> 0);
          st = foldl (simulation_step t0) (simulation_init rate capacity) events;
          windows = map snd (ss_windows st);
          (peak, peak_sources) = peak_window windows
      in \<lparr>sr_ok = (ss_violations st = 0),
          sr_first_violation_call_id = map_option fst (ss_first st),
          sr_first_violation_time_s = map_option snd (ss_first st),
          sr_total_violations = ss_violations st,
          sr_total_calls = length events,
          sr_total_tokens = ss_total_tokens st,
          sr_token_sources = ss_sources st,
          sr_peak_demand_per_sec = peak,
          sr_peak_demand_token_sources = peak_sources,
          sr_burst_factor = burst_factor peak (map fst windows)\<rparr>)"

definition simulate_session :: "serde \<Rightarrow> stored_message list \<Rightarrow> f64 \<Rightarrow> f64 \<Rightarrow> simulation_result" where
  "simulate_session S messages rate capacity =
     simulate_events (extract_quota_events S messages) rate capacity"

definition estimate_p429 :: "serde \<Rightarrow> stored_message list list \<Rightarrow> f64 \<Rightarrow> f64 \<Rightarrow> f64" where
  "estimate_p429 S sessions rate capacity =
     (if sessions = [] then 0
      else f64_div (f64_of_int (int (length (filter (\<lambda>s. \<not> sr_ok (simulate_session S s rate capacity)) sessions))))
             (f64_of_int (int (length sessions))))"

end
