(* ===== verification/QuotaFacts.thy ===== *)
theory QuotaFacts
  imports Quota
begin

text \<open>
  Facts about the quota simulation: bucket levels stay in range under rounding, the verdict reports
  the first rejection, and the counters are saturated sums of the events they stand for.
\<close>

section \<open>Buckets\<close>

definition bucket_ok :: "token_bucket \<Rightarrow> bool" where
  "bucket_ok b \<longleftrightarrow>
     0 \<le> tb_rate b \<and> 0 \<le> tb_tokens b \<and> tb_tokens b \<le> tb_capacity b \<and>
     is_f64 (tb_tokens b) \<and> is_f64 (tb_capacity b)"

lemma bucket_new_ok: "0 \<le> rate \<Longrightarrow> 0 \<le> capacity \<Longrightarrow> is_f64 capacity \<Longrightarrow> bucket_ok (bucket_new rate capacity)"
  by (simp add: bucket_ok_def bucket_new_def)

lemma refill_ok: "bucket_ok b \<Longrightarrow> bucket_ok (refill now b)"
  by (auto simp: bucket_ok_def refill_def Let_def min_def f64_add_def f64_mul_def f64_sub_def
      intro: rnd_is_f64 intro!: rnd_nonneg add_nonneg_nonneg mult_nonneg_nonneg split: option.splits)

lemma refill_simps [simp]: "tb_rate (refill now b) = tb_rate b" "tb_capacity (refill now b) = tb_capacity b"
  by (simp_all add: refill_def Let_def split: option.splits)

text \<open>Time never lowers the level.\<close>

lemma refill_increases: "bucket_ok b \<Longrightarrow> tb_tokens b \<le> tb_tokens (refill now b)"
proof -
  assume ok: "bucket_ok b"
  have "tb_tokens b \<le> f64_add (tb_tokens b) (f64_mul (f64_sub now p) (tb_rate b))" if "p < now" for p
  proof -
    have "0 \<le> f64_mul (f64_sub now p) (tb_rate b)"
      using ok that by (simp add: f64_mul_def f64_sub_def bucket_ok_def rnd_nonneg)
    then have "rnd (tb_tokens b) \<le> f64_add (tb_tokens b) (f64_mul (f64_sub now p) (tb_rate b))"
      unfolding f64_add_def by (intro rnd_mono) simp
    then show ?thesis using ok by (simp add: bucket_ok_def is_f64_def)
  qed
  then show ?thesis using ok by (auto simp: refill_def Let_def bucket_ok_def split: option.splits)
qed

lemma debit_ok: "bucket_ok b \<Longrightarrow> 0 \<le> a \<Longrightarrow> a \<le> tb_tokens b \<Longrightarrow> bucket_ok (b\<lparr>tb_tokens := f64_sub (tb_tokens b) a\<rparr>)"
  using f64_sub_le[of "tb_tokens b" a] f64_sub_nonneg[of a "tb_tokens b"]
  by (auto simp: bucket_ok_def f64_sub_def intro: rnd_is_f64)

lemma try_consume_ok: "bucket_ok b \<Longrightarrow> 0 \<le> a \<Longrightarrow> bucket_ok (fst (try_consume a now b))"
  using refill_ok[of b now] debit_ok[of "refill now b" a] by (simp add: try_consume_def Let_def)

lemma try_consume_keeps: "0 \<le> a \<Longrightarrow> tb_capacity (fst (try_consume a now b)) = tb_capacity b"
  by (simp add: try_consume_def Let_def)

section \<open>The run as verdicts\<close>

text \<open>What the bucket alone decides for each event.\<close>

fun verdicts :: "token_bucket \<Rightarrow> quota_event list \<Rightarrow> bool list" where
  "verdicts b [] = []"
| "verdicts b (e # es) =
     (let (b1, admitted) = try_consume (f64_of_int (int (qe_tokens e))) (qe_ts_s e) b
      in admitted # verdicts b1 es)"

fun first_rejected :: "bool list \<Rightarrow> quota_event list \<Rightarrow> quota_event option" where
  "first_rejected (v # vs) (e # es) = (if v then first_rejected vs es else Some e)"
| "first_rejected vs es = None"

abbreviation run :: "f64 \<Rightarrow> simulation_state \<Rightarrow> quota_event list \<Rightarrow> simulation_state" where
  "run t0 st es \<equiv> foldl (simulation_step t0) st es"

lemma run_verdicts:
  "ss_violations (run t0 st es) = ss_violations st + length (filter Not (verdicts (ss_bucket st) es)) \<and>
   ss_first (run t0 st es) =
     (case ss_first st of Some f \<Rightarrow> Some f
      | None \<Rightarrow> map_option (\<lambda>e. (qe_call_id e, qe_ts_s e)) (first_rejected (verdicts (ss_bucket st) es) es))"
  by (induction es arbitrary: st)
     (auto simp: simulation_step_def Let_def split: prod.splits option.splits)

lemma run_bucket_ok: "bucket_ok (ss_bucket st) \<Longrightarrow> bucket_ok (ss_bucket (run t0 st es))"
proof (induction es arbitrary: st)
  case (Cons e es)
  have "0 \<le> f64_of_int (int (qe_tokens e))" by (simp add: f64_of_int_def rnd_nonneg)
  then have "bucket_ok (ss_bucket (simulation_step t0 st e))"
    using try_consume_ok[OF Cons.prems, of "f64_of_int (int (qe_tokens e))" "qe_ts_s e"]
    by (simp add: simulation_step_def Let_def split_beta)
  then show ?case by (simp add: Cons.IH)
qed simp

section \<open>Saturated sums\<close>

definition sat_sum :: "nat list \<Rightarrow> nat" where
  "sat_sum xs = min u64_max (sum_list xs)"

lemma sat_sum_Nil [simp]: "sat_sum [] = 0"
  by (simp add: sat_sum_def)

lemma sat_sum_snoc: "saturating_add (sat_sum xs) x = sat_sum (xs @ [x])"
  by (simp add: sat_sum_def saturating_add_def min_def)

definition tokens_of :: "(quota_event \<Rightarrow> bool) \<Rightarrow> quota_event list \<Rightarrow> nat" where
  "tokens_of p es = sat_sum (map qe_tokens (filter p es))"

definition count_of :: "(quota_event \<Rightarrow> bool) \<Rightarrow> quota_event list \<Rightarrow> nat" where
  "count_of p es = min u64_max (length (filter p es))"

lemma tokens_of_snoc:
  "tokens_of p (es @ [e]) = (if p e then saturating_add (tokens_of p es) (qe_tokens e) else tokens_of p es)"
  by (simp add: tokens_of_def sat_sum_snoc)

lemma count_of_snoc: "count_of p (es @ [e]) = (if p e then saturating_add (count_of p es) 1 else count_of p es)"
  by (simp add: count_of_def saturating_add_def min_def)

definition summary_of :: "(quota_event \<Rightarrow> bool) \<Rightarrow> quota_event list \<Rightarrow> token_source_summary" where
  "summary_of p es =
     \<lparr>ts_reported_events = count_of (\<lambda>e. p e \<and> qe_token_source e = Reported) es,
      ts_reported_tokens = tokens_of (\<lambda>e. p e \<and> qe_token_source e = Reported) es,
      ts_estimated_events = count_of (\<lambda>e. p e \<and> qe_token_source e = EstimatedFromBytes) es,
      ts_estimated_tokens = tokens_of (\<lambda>e. p e \<and> qe_token_source e = EstimatedFromBytes) es\<rparr>"

lemma summary_of_Nil: "summary_of p [] = summary_default"
  by (simp add: summary_of_def summary_default_def count_of_def tokens_of_def)

lemma summary_of_snoc:
  "summary_of p (es @ [e]) =
     (if p e then summary_record (qe_token_source e) (qe_tokens e) (summary_of p es) else summary_of p es)"
  by (cases "qe_token_source e") (simp_all add: summary_of_def count_of_snoc tokens_of_snoc)

lemma run_totals:
  "ss_total_tokens (run t0 (simulation_init rate capacity) es) = tokens_of (\<lambda>e. True) es \<and>
   ss_sources (run t0 (simulation_init rate capacity) es) = summary_of (\<lambda>e. True) es"
proof (induction es rule: rev_induct)
  case Nil
  then show ?case by (simp add: simulation_init_def summary_of_Nil) (simp add: tokens_of_def)
next
  case (snoc e es)
  then show ?case by (simp add: simulation_step_def Let_def split_beta tokens_of_snoc summary_of_snoc)
qed

section \<open>Windows\<close>

definition in_window :: "f64 \<Rightarrow> i64 \<Rightarrow> quota_event \<Rightarrow> bool" where
  "in_window t0 i e \<longleftrightarrow> window_index t0 (qe_ts_s e) = i"

definition window_of :: "f64 \<Rightarrow> quota_event list \<Rightarrow> i64 \<Rightarrow> u64 \<times> token_source_summary" where
  "window_of t0 es i = (tokens_of (in_window t0 i) es, summary_of (in_window t0 i) es)"

lemma run_windows:
  "bt_wf (ss_windows (run t0 (simulation_init rate capacity) es)) \<and>
   (\<forall>i. bt_get (ss_windows (run t0 (simulation_init rate capacity) es)) i =
      (if list_ex (in_window t0 i) es then Some (window_of t0 es i) else None))"
proof (induction es rule: rev_induct)
  case Nil
  then show ?case by (simp add: simulation_init_def bt_get_def)
next
  case (snoc e es)
  let ?w = "ss_windows (run t0 (simulation_init rate capacity) es)"
  let ?i = "window_index t0 (qe_ts_s e)"
  have cur: "(case bt_get ?w ?i of Some w \<Rightarrow> w | None \<Rightarrow> (0, summary_default)) = window_of t0 es ?i"
  proof (cases "list_ex (in_window t0 ?i) es")
    case False
    then have "filter (\<lambda>e. in_window t0 ?i e \<and> P e) es = []" for P
      by (auto simp: filter_empty_conv list_ex_iff)
    from this[of "\<lambda>e. True"] this have "window_of t0 es ?i = (0, summary_default)"
      by (simp add: window_of_def tokens_of_def summary_of_def count_of_def summary_default_def)
    with False snoc show ?thesis by simp
  qed (use snoc in simp)
  have step: "ss_windows (run t0 (simulation_init rate capacity) (es @ [e])) = bt_insert ?i (window_of t0 (es @ [e]) ?i) ?w"
    by (simp add: simulation_step_def Let_def split_beta cur)
       (simp add: window_of_def tokens_of_snoc summary_of_snoc in_window_def)
  have other: "window_of t0 (es @ [e]) j = window_of t0 es j" if "j \<noteq> ?i" for j
    using that by (simp add: window_of_def tokens_of_snoc summary_of_snoc in_window_def)
  show ?case
    unfolding step using snoc other
    by (auto simp: bt_wf_insert bt_get_insert_le in_window_def)
qed

lemma peak_window_in: "ws \<noteq> [] \<Longrightarrow> peak_window ws \<in> set ws"
  by (induction ws rule: peak_window.induct) (auto simp: Let_def)

lemma peak_window_max: "w \<in> set ws \<Longrightarrow> fst w \<le> fst (peak_window ws)"
proof (induction ws rule: peak_window.induct)
  case (3 w v ws)
  then show ?case by (auto simp: Let_def)
qed auto

end
