(* ===== verification/QuotaProps.thy ===== *)
theory QuotaProps
  imports QuotaFacts
begin

text \<open>
  The properties of the quota simulation.
\<close>

text \<open>
  Bucket levels stay in range: whatever the events and their times, rounding included, the
  level is never negative and never above the capacity; and the dual limiter debits both buckets or
  neither, a rejection leaving both at their refilled level.
\<close>

theorem bucket_levels_in_range:
  assumes "0 \<le> rate" "0 \<le> capacity" "is_f64 capacity"
  shows "0 \<le> tb_tokens (ss_bucket (foldl (simulation_step t0) (simulation_init rate capacity) es)) \<and>
    tb_tokens (ss_bucket (foldl (simulation_step t0) (simulation_init rate capacity) es))
      \<le> tb_capacity (ss_bucket (foldl (simulation_step t0) (simulation_init rate capacity) es)) \<and>
    (case dual_try_consume t q now d of
       (d', True) \<Rightarrow> t \<le> tb_tokens (refill now (db_token_bucket d)) \<and> q \<le> tb_tokens (refill now (db_req_bucket d)) \<and>
         tb_tokens (db_token_bucket d') = f64_sub (tb_tokens (refill now (db_token_bucket d))) t \<and>
         tb_tokens (db_req_bucket d') = f64_sub (tb_tokens (refill now (db_req_bucket d))) q
     | (d', False) \<Rightarrow> db_token_bucket d' = refill now (db_token_bucket d) \<and>
         db_req_bucket d' = refill now (db_req_bucket d))"
proof -
  have "bucket_ok (ss_bucket (simulation_init rate capacity))"
    using bucket_new_ok[OF assms] by (simp add: simulation_init_def)
  from run_bucket_ok[OF this, of t0 es] show ?thesis
    by (auto simp: bucket_ok_def dual_try_consume_def Let_def)
qed

theorem bucket_levels_in_range_witness:
  "0 \<le> tb_tokens (ss_bucket (foldl (simulation_step 0) (simulation_init 1 0)
     [\<lparr>qe_call_id = ''a'', qe_ts_s = 0, qe_tokens = 10, qe_token_source = Reported, qe_method = None\<rparr>]))"
  by (rule bucket_levels_in_range[THEN conjunct1]) simp_all

text \<open>
  The verdict is the bucket's: violations are exactly the rejected events, the session is ok
  when there is none, and the reported call and time are those of the first rejected event.
\<close>

theorem quota_verdict:
  "let vs = verdicts (bucket_new rate capacity) es; r = simulate_events es rate capacity in
     sr_total_violations r = length (filter Not vs) \<and> sr_ok r = list_all id vs \<and> sr_total_calls r = length es \<and>
     sr_first_violation_call_id r = map_option qe_call_id (first_rejected vs es) \<and>
     sr_first_violation_time_s r = map_option qe_ts_s (first_rejected vs es)"
proof -
  have "length (filter Not vs) = 0 \<longleftrightarrow> list_all id vs" for vs by (induction vs) auto
  then show ?thesis
    using run_verdicts[of _ "simulation_init rate capacity" es]
    by (simp add: simulate_events_def Let_def split_beta simulation_init_def option.map_comp comp_def)
qed

text \<open>
  The counters are what they are named after: the totals and their provenance split are the
  saturated sums over the events, and the peak demand is the largest saturated sum of a one-second
  window counted from the first event, with the provenance of that window.
\<close>

theorem quota_totals:
  "let r = simulate_events es rate capacity; t0 = (case es of e # _ \<Rightarrow> qe_ts_s e | [] \<Rightarrow> 0) in
     sr_total_tokens r = tokens_of (\<lambda>e. True) es \<and> sr_token_sources r = summary_of (\<lambda>e. True) es \<and>
     (if es = [] then sr_peak_demand_per_sec r = 0
      else \<exists>i. (sr_peak_demand_per_sec r, sr_peak_demand_token_sources r) = window_of t0 es i) \<and>
     list_all (\<lambda>e. fst (window_of t0 es (window_index t0 (qe_ts_s e))) \<le> sr_peak_demand_per_sec r) es"
proof -
  define t0 where "t0 = (case es of e # _ \<Rightarrow> qe_ts_s e | [] \<Rightarrow> 0)"
  let ?w = "ss_windows (run t0 (simulation_init rate capacity) es)"
  have wf: "bt_wf ?w" and get: "bt_get ?w i = (if list_ex (in_window t0 i) es then Some (window_of t0 es i) else None)" for i
    using run_windows[of t0 rate capacity es] by auto
  have peak: "peak_window (map snd ?w) = (sr_peak_demand_per_sec (simulate_events es rate capacity),
      sr_peak_demand_token_sources (simulate_events es rate capacity))"
    by (simp add: simulate_events_def Let_def split_beta t0_def)
  have mem: "(window_index t0 (qe_ts_s e), window_of t0 es (window_index t0 (qe_ts_s e))) \<in> set ?w" if "e \<in> set es" for e
  proof -
    have "list_ex (in_window t0 (window_index t0 (qe_ts_s e))) es" using that by (auto simp: list_ex_iff in_window_def)
    then show ?thesis using wf get by (simp flip: bt_get_wf_iff)
  qed
  have "fst (window_of t0 es (window_index t0 (qe_ts_s e))) \<le> sr_peak_demand_per_sec (simulate_events es rate capacity)"
    if "e \<in> set es" for e
    using peak_window_max[of "window_of t0 es (window_index t0 (qe_ts_s e))" "map snd ?w"] mem[OF that] peak by force
  moreover have "\<exists>i. (sr_peak_demand_per_sec (simulate_events es rate capacity),
      sr_peak_demand_token_sources (simulate_events es rate capacity)) = window_of t0 es i" if "es \<noteq> []"
  proof -
    from that obtain e where "e \<in> set es" by (cases es) auto
    with mem have "map snd ?w \<noteq> []" by (auto simp del: map_is_Nil_conv) force
    then have "peak_window (map snd ?w) \<in> set (map snd ?w)" by (rule peak_window_in)
    then obtain i where "(i, peak_window (map snd ?w)) \<in> set ?w" by auto
    then have "bt_get ?w i = Some (peak_window (map snd ?w))" using wf by (simp add: bt_get_wf_iff)
    with get[of i] have "window_of t0 es i = peak_window (map snd ?w)" by (simp split: if_splits)
    then show ?thesis unfolding peak[symmetric] by metis
  qed
  moreover have "es = [] \<Longrightarrow> sr_peak_demand_per_sec (simulate_events es rate capacity) = 0"
    by (simp add: simulate_events_def simulation_init_def)
  moreover have "sr_total_tokens (simulate_events es rate capacity) = tokens_of (\<lambda>e. True) es"
    "sr_token_sources (simulate_events es rate capacity) = summary_of (\<lambda>e. True) es"
    using run_totals[of t0 rate capacity es] by (simp_all add: simulate_events_def Let_def split_beta t0_def)
  ultimately show ?thesis unfolding Let_def t0_def[symmetric] list_all_iff by simp
qed

end
