(* ===== verification/Assertions.thy ===== *)
theory Assertions
  imports Catalog Quota
begin

text \<open>
  \<open>crates/mcptracer-model/src/assertions.rs\<close>: the typed assertion spec, its validation, and the
  evaluation of every rule against a session.  Reading TOML text is a parameter; the values it
  yields are the datatype \<open>toml\<close>.  The \<open>unreachable!\<close> of the quota rule is the result \<open>None\<close>.
\<close>

section \<open>Spec\<close>

datatype toml =
    TString string
  | TInteger i64
  | TFloat f64
  | TBoolean bool
  | TDatetime string
  | TArray "toml list"
  | TTable "(string \<times> toml) list"

datatype assertion =
    NoErrors "string option"
  | ToolCalled string "usize option" "usize option"
  | MethodCalled string "usize option" "usize option"
  | CallOrder string string
  | Latency "string option" "string option" "f64 option" "f64 option" "f64 option"
  | ResponseMatches "string option" "string option" string "toml option" "string option"
  | ToolsPinned "(string, string) btree"
  | Quota "string option" "f64 option" "f64 option" "usize option" "f64 option" "u64 option"

record assertion_entry =
  ae_description :: "string option"
  ae_rule :: assertion

type_synonym assert_spec = "assertion_entry list"

definition bound_error :: "string \<Rightarrow> f64 option \<Rightarrow> string option" where
  "bound_error name v =
     (case v of
        Some b \<Rightarrow> if b < 0 then Some (''latency assertion `'' @ name @ ''` must be a finite non-negative number'') else None
      | None \<Rightarrow> None)"

fun first_some :: "('a \<Rightarrow> 'b option) \<Rightarrow> 'a list \<Rightarrow> 'b option" where
  "first_some f [] = None"
| "first_some f (x # xs) = (case f x of Some y \<Rightarrow> Some y | None \<Rightarrow> first_some f xs)"

definition quota_spec_error :: "string option \<Rightarrow> f64 option \<Rightarrow> f64 option \<Rightarrow> string option" where
  "quota_spec_error preset refill_rate capacity =
     (if refill_rate \<noteq> None \<and> capacity \<noteq> None then None
      else case preset of
        Some name \<Rightarrow>
          if preset_from_name name \<noteq> None then None
          else Some (''quota assertion has unknown preset `'' @ name
                 @ ''`; provide a valid preset or both refill_rate and capacity'')
      | None \<Rightarrow> Some ''quota assertion needs `preset`, or both `refill_rate` and `capacity`'')"

definition entry_error :: "assertion_entry \<Rightarrow> string option" where
  "entry_error entry =
     (case ae_rule entry of
        Latency tool method p50 p95 maxb \<Rightarrow>
          if p50 = None \<and> p95 = None \<and> maxb = None
          then Some ''latency assertion needs one of p50_under_ms/p95_under_ms/max_under_ms''
          else first_some (\<lambda>(name, v). bound_error name v)
                 [(''p50_under_ms'', p50), (''p95_under_ms'', p95), (''max_under_ms'', maxb)]
      | ResponseMatches tool method pointer equals contains \<Rightarrow>
          if equals = None \<and> contains = None then Some ''response_matches needs `equals` or `contains`'' else None
      | Quota preset refill_rate capacity mv mb mp \<Rightarrow> quota_spec_error preset refill_rate capacity
      | _ \<Rightarrow> None)"

definition parse_spec :: "(string \<Rightarrow> string + assert_spec) \<Rightarrow> string \<Rightarrow> string + assert_spec" where
  "parse_spec from_str input =
     (case from_str input of
        Inl e \<Rightarrow> Inl e
      | Inr spec \<Rightarrow>
          if spec = [] then Inl ''spec contains no [[assert]] entries''
          else (case first_some entry_error spec of Some e \<Rightarrow> Inl e | None \<Rightarrow> Inr spec))"

section \<open>Evaluation\<close>

record assertion_result =
  ar_description :: string
  ar_passed :: bool
  ar_reason :: "string option"

definition mk_result :: "string \<Rightarrow> bool \<Rightarrow> string option \<Rightarrow> assertion_result" where
  "mk_result description passed reason =
     \<lparr>ar_description = description, ar_passed = passed, ar_reason = reason\<rparr>"

definition failures_result :: "string \<Rightarrow> string list \<Rightarrow> assertion_result" where
  "failures_result description failures =
     mk_result description (failures = []) (if failures \<noteq> [] then Some (join ''; '' failures) else None)"

definition in_scope :: "exchange \<Rightarrow> string option \<Rightarrow> string option \<Rightarrow> bool" where
  "in_scope e tool method \<longleftrightarrow>
     (tool = None \<or> ex_tool_name e = tool) \<and> (method = None \<or> ex_method e = method)"

definition name_matches :: "exchange \<Rightarrow> string \<Rightarrow> bool" where
  "name_matches e name \<longleftrightarrow> ex_method e = Some name \<or> ex_tool_name e = Some name"

definition describe_exchange :: "exchange \<Rightarrow> string" where
  "describe_exchange e =
     (case (ex_method e, ex_tool_name e) of
        (Some method, Some tool) \<Rightarrow> method @ '' '' @ tool
      | (Some method, None) \<Rightarrow> method
      | _ \<Rightarrow> ''<orphan response>'')"

definition check_bounds :: "string \<Rightarrow> usize \<Rightarrow> usize option \<Rightarrow> usize option \<Rightarrow> assertion_result" where
  "check_bounds description cnt min_o max_o =
     (let mn = (case min_o of Some m \<Rightarrow> m | None \<Rightarrow> 1)
      in if cnt < mn
         then mk_result description False
                (Some (''occurred '' @ nat_dec cnt @ '' time(s), expected at least '' @ nat_dec mn))
         else case max_o of
           Some mx \<Rightarrow>
             if cnt > mx
             then mk_result description False
                    (Some (''occurred '' @ nat_dec cnt @ '' time(s), expected at most '' @ nat_dec mx))
             else mk_result description True None
         | None \<Rightarrow> mk_result description True None)"

definition failing_status :: "exchange \<Rightarrow> bool" where
  "failing_status e \<longleftrightarrow> ex_status e \<in> {Error, ToolError, Unanswered}"

definition eval_no_errors :: "exchange list \<Rightarrow> string option \<Rightarrow> assertion_result" where
  "eval_no_errors es tool =
     (let bad = map describe_exchange (filter failing_status (filter (\<lambda>e. in_scope e tool None) es))
      in mk_result (case tool of Some t \<Rightarrow> ''no_errors (tool '' @ t @ '')'' | None \<Rightarrow> ''no_errors'') (bad = [])
           (if bad \<noteq> [] then Some (''failing exchanges: '' @ join '', '' bad) else None))"

text \<open>The positions of \<open>after\<close> in session order, against the first position of \<open>before\<close>.\<close>

fun positions_from :: "nat \<Rightarrow> ('a \<Rightarrow> bool) \<Rightarrow> 'a list \<Rightarrow> nat list" where
  "positions_from i p [] = []"
| "positions_from i p (x # xs) = (if p x then i # positions_from (Suc i) p xs else positions_from (Suc i) p xs)"

definition eval_call_order :: "exchange list \<Rightarrow> string \<Rightarrow> string \<Rightarrow> assertion_result" where
  "eval_call_order es before after =
     (let first_before = position (\<lambda>e. name_matches e before) es;
          after_positions = positions_from 0 (\<lambda>e. name_matches e after) es;
          description = ''call_order '' @ before @ '' -> '' @ after
      in if after_positions = []
         then mk_result description False (Some (''no occurrence of `'' @ after @ ''` in session''))
         else case first_before of
           None \<Rightarrow> mk_result description False (Some (''no occurrence of `'' @ before @ ''` in session''))
         | Some before_idx \<Rightarrow>
             let violating = list_ex (\<lambda>idx. idx < before_idx) after_positions
             in mk_result description (\<not> violating)
                  (if violating then Some (''`'' @ after @ ''` occurred before the first `'' @ before @ ''`'') else None))"

definition latency_failure :: "string \<times> f64 option \<times> i64 option \<Rightarrow> string option" where
  "latency_failure check =
     (case check of
        (label, Some bound_ms, Some actual_ns) \<Rightarrow>
          let actual_ms = f64_div (f64_of_int actual_ns) 1000000
          in if actual_ms \<ge> bound_ms
             then Some (label @ '' '' @ fmt_fixed 1 actual_ms @ ''ms >= '' @ fmt_display bound_ms @ ''ms'')
             else None
      | _ \<Rightarrow> None)"

definition eval_latency ::
  "exchange list \<Rightarrow> string option \<Rightarrow> string option \<Rightarrow> f64 option \<Rightarrow> f64 option \<Rightarrow> f64 option \<Rightarrow> assertion_result" where
  "eval_latency es tool method p50 p95 maxb =
     (let latencies = List.map_filter ex_latency_ns (filter (\<lambda>e. in_scope e tool method) es);
          scope = (case tool of Some t \<Rightarrow> t | None \<Rightarrow> (case method of Some m \<Rightarrow> m | None \<Rightarrow> ''all''));
          description = ''latency ('' @ scope @ '')''
      in if latencies = []
         then mk_result description False (Some ''no answered exchanges matched scope'')
         else let srt = sort latencies
              in failures_result description
                   (List.map_filter latency_failure
                      [(''p50'', p50, percentile srt f64_0_50), (''p95'', p95, percentile srt f64_0_95),
                       (''max'', maxb, Some (last srt))]))"

fun toml_to_json :: "toml \<Rightarrow> json"
  and toml_items :: "toml list \<Rightarrow> json list"
  and toml_members :: "(string \<times> toml) list \<Rightarrow> (string \<times> json) list" where
  "toml_to_json (TString s) = JString s"
| "toml_to_json (TInteger i) = JNumber (if 0 \<le> i then PosInt (nat i) else NegInt i)"
| "toml_to_json (TFloat f) = JNumber (Float f)"
| "toml_to_json (TBoolean b) = JBool b"
| "toml_to_json (TDatetime s) = JString s"
| "toml_to_json (TArray items) = JArray (toml_items items)"
| "toml_to_json (TTable table) = JObject (bt_collect (toml_members table))"
| "toml_items [] = []"
| "toml_items (x # xs) = toml_to_json x # toml_items xs"
| "toml_members [] = []"
| "toml_members ((k, v) # m) = (k, toml_to_json v) # toml_members m"

definition value_text :: "serde \<Rightarrow> json \<Rightarrow> string" where
  "value_text S v = (case v of JString s \<Rightarrow> s | other \<Rightarrow> print_json S other)"

definition equals_failure :: "serde \<Rightarrow> toml option \<Rightarrow> json \<Rightarrow> string option" where
  "equals_failure S equals v =
     (case equals of
        Some expected \<Rightarrow>
          if v \<noteq> toml_to_json expected
          then Some (''expected '' @ print_json S (toml_to_json expected) @ '', found '' @ print_json S v)
          else None
      | None \<Rightarrow> None)"

definition contains_failure :: "serde \<Rightarrow> string option \<Rightarrow> json \<Rightarrow> string option" where
  "contains_failure S contains v =
     (case contains of
        Some needle \<Rightarrow>
          if \<not> str_contains (value_text S v) needle
          then Some (''value '' @ debug_str (value_text S v) @ '' does not contain '' @ debug_str needle)
          else None
      | None \<Rightarrow> None)"

definition response_failure ::
  "serde \<Rightarrow> (u64, json) btree \<Rightarrow> string \<Rightarrow> toml option \<Rightarrow> string option \<Rightarrow> exchange \<Rightarrow> string option" where
  "response_failure S payloads pointer equals contains e =
     (case Option.bind (payload_of payloads (ex_response_seq e)) (\<lambda>p. json_pointer S p pointer) of
        None \<Rightarrow> Some (''pointer '' @ pointer @ '' not found in response of '' @ describe_exchange e)
      | Some v \<Rightarrow>
          if is_redacted v
          then Some (''cannot assert on redacted field '' @ pointer @ ''; record with a policy that keeps it'')
          else (case equals_failure S equals v of
                  Some reason \<Rightarrow> Some reason
                | None \<Rightarrow> contains_failure S contains v))"

definition eval_response_matches ::
  "serde \<Rightarrow> exchange list \<Rightarrow> (u64, json) btree \<Rightarrow> string option \<Rightarrow> string option \<Rightarrow> string \<Rightarrow> toml option \<Rightarrow>
     string option \<Rightarrow> assertion_result" where
  "eval_response_matches S es payloads tool method pointer equals contains =
     (let description = ''response_matches '' @ pointer;
          matching = filter (\<lambda>e. ex_response_seq e \<noteq> None) (filter (\<lambda>e. in_scope e tool method) es)
      in if matching = []
         then mk_result description False (Some ''no responded exchanges matched scope'')
         else case first_some (response_failure S payloads pointer equals contains) matching of
           Some reason \<Rightarrow> mk_result description False (Some reason)
         | None \<Rightarrow> mk_result description True None)"

definition pin_failure ::
  "serde \<Rightarrow> (string, tool_def) btree \<Rightarrow> string \<times> string \<Rightarrow> string option" where
  "pin_failure S tools pin =
     (let (name, expected_hash) = pin
      in case bt_get tools name of
           None \<Rightarrow> Some (''tool `'' @ name @ ''` not found in session (no tools/list, or tool no longer offered)'')
         | Some d \<Rightarrow>
             let actual_hash = tool_hash S name d
             in if actual_hash \<noteq> expected_hash
                then Some (''tool `'' @ name @ ''` hash mismatch: expected '' @ expected_hash @ '', got '' @ actual_hash)
                else None)"

definition eval_tools_pinned ::
  "serde \<Rightarrow> (string, tool_def) btree \<Rightarrow> (string, string) btree \<Rightarrow> assertion_result" where
  "eval_tools_pinned S tools hashes =
     (let description = ''tools_pinned''
      in if hashes = [] then
           (if tools = []
            then mk_result description False (Some ''no tools/list response found in session; nothing to pin'')
            else mk_result description False
                   (Some (''no pinned hashes provided; current tool hashes: '' @
                      join '', '' (map (\<lambda>(name, d). name @ '' = '' @ [CHR 0x22] @ tool_hash S name d @ [CHR 0x22]) tools))))
         else failures_result description (List.map_filter (pin_failure S tools) hashes))"

definition quota_bounds :: "string option \<Rightarrow> f64 option \<Rightarrow> f64 option \<Rightarrow> (f64 \<times> f64) option" where
  "quota_bounds preset refill_rate capacity =
     (case (refill_rate, capacity) of
        (Some r, Some c) \<Rightarrow> Some (r, c)
      | _ \<Rightarrow> map_option (\<lambda>p. (pp_refill_rate p, pp_capacity p)) (Option.bind preset preset_from_name))"

definition quota_failures ::
  "simulation_result \<Rightarrow> usize option \<Rightarrow> f64 option \<Rightarrow> u64 option \<Rightarrow> string list" where
  "quota_failures sim max_violations max_burst max_peak =
     (let max_v = (case max_violations of Some m \<Rightarrow> m | None \<Rightarrow> 0)
      in if sr_total_violations sim > max_v
         then [nat_dec (sr_total_violations sim) @ '' violations exceeded max allowable '' @ nat_dec max_v] else [])
     @ (case max_burst of
          Some b \<Rightarrow> if sr_burst_factor sim > b
            then [''burst factor '' @ fmt_fixed 2 (sr_burst_factor sim) @ ''x exceeded max limit '' @ fmt_fixed 2 b @ ''x''] else []
        | None \<Rightarrow> [])
     @ (case max_peak of
          Some p \<Rightarrow> if sr_peak_demand_per_sec sim > p
            then [''peak demand '' @ nat_dec (sr_peak_demand_per_sec sim) @ '' tok/s exceeded limit '' @ nat_dec p @ '' tok/s'']
            else []
        | None \<Rightarrow> [])"

definition evaluate_one ::
  "serde \<Rightarrow> assertion \<Rightarrow> exchange list \<Rightarrow> (u64, json) btree \<Rightarrow> (string, tool_def) btree \<Rightarrow>
     stored_message list \<Rightarrow> assertion_result option" where
  "evaluate_one S rule es payloads tools messages =
     (case rule of
        NoErrors tool \<Rightarrow> Some (eval_no_errors es tool)
      | ToolCalled tool mn mx \<Rightarrow>
          Some (check_bounds (''tool_called '' @ tool) (length (filter (\<lambda>e. ex_tool_name e = Some tool) es)) mn mx)
      | MethodCalled method mn mx \<Rightarrow>
          Some (check_bounds (''method_called '' @ method) (length (filter (\<lambda>e. ex_method e = Some method) es)) mn mx)
      | CallOrder before after \<Rightarrow> Some (eval_call_order es before after)
      | Latency tool method p50 p95 maxb \<Rightarrow> Some (eval_latency es tool method p50 p95 maxb)
      | ResponseMatches tool method pointer equals contains \<Rightarrow>
          Some (eval_response_matches S es payloads tool method pointer equals contains)
      | ToolsPinned hashes \<Rightarrow> Some (eval_tools_pinned S tools hashes)
      | Quota preset refill_rate capacity max_violations max_burst max_peak \<Rightarrow>
          (case quota_bounds preset refill_rate capacity of
             None \<Rightarrow> None
           | Some (r, c) \<Rightarrow>
               Some (failures_result
                 (''quota (rate='' @ fmt_fixed 0 r @ '' tok/s, cap='' @ fmt_fixed 0 c @ '' tok)'')
                 (quota_failures (simulate_session S messages r c) max_violations max_burst max_peak))))"

definition evaluate_entry ::
  "serde \<Rightarrow> exchange list \<Rightarrow> (u64, json) btree \<Rightarrow> (string, tool_def) btree \<Rightarrow> stored_message list \<Rightarrow>
     assertion_entry \<Rightarrow> assertion_result option" where
  "evaluate_entry S es payloads tools messages entry =
     map_option (\<lambda>r. case ae_description entry of Some label \<Rightarrow> r\<lparr>ar_description := label\<rparr> | None \<Rightarrow> r)
       (evaluate_one S (ae_rule entry) es payloads tools messages)"

fun collect_results :: "('a \<Rightarrow> 'b option) \<Rightarrow> 'a list \<Rightarrow> 'b list option" where
  "collect_results f [] = Some []"
| "collect_results f (x # xs) =
     (case f x of None \<Rightarrow> None | Some y \<Rightarrow> map_option ((#) y) (collect_results f xs))"

definition evaluate_spec :: "serde \<Rightarrow> assert_spec \<Rightarrow> stored_message list \<Rightarrow> assertion_result list option" where
  "evaluate_spec S spec messages =
     collect_results (evaluate_entry S (exchanges (correlate S messages)) (payloads_by_seq S messages)
       (extract_tools S messages) messages) spec"

end
