(* ===== verification/AssertionProps.thy ===== *)
theory AssertionProps
  imports Assertions Capture
begin

text \<open>
  What an assertion means, stated on the session, and the properties of the evaluator: its verdict
  is that meaning, a reason accompanies exactly the failures, and a validated spec always evaluates.
\<close>

section \<open>The meaning of a rule\<close>






section \<open>The evaluators decide it\<close>

definition coherent :: "assertion_result \<Rightarrow> bool \<Rightarrow> bool" where
  "coherent r b \<longleftrightarrow> ar_passed r = b \<and> (ar_reason r = None) = b"

lemma coherent_mk [simp]:
  "coherent (mk_result d p None) b \<longleftrightarrow> p = b \<and> b" "coherent (mk_result d p (Some x)) b \<longleftrightarrow> p = b \<and> \<not> b"
  by (auto simp: coherent_def mk_result_def)











lemma first_some_None: "first_some f xs = None \<longleftrightarrow> (\<forall>x \<in> set xs. f x = None)"
  by (induction xs) (auto split: option.splits)







section \<open>The documented meaning\<close>









lemma entry_ok_evaluates: "entry_error e = None \<Longrightarrow> evaluate_entry S es P T ms e \<noteq> None"
  by (auto simp: entry_error_def evaluate_entry_def evaluate_one_def quota_spec_error_def quota_bounds_def
      split: assertion.splits option.splits if_splits)

lemma collect_results_length: "\<forall>x \<in> set xs. f x \<noteq> None \<Longrightarrow> \<exists>ys. collect_results f xs = Some ys \<and> length ys = length xs"
  by (induction xs) (auto split: option.splits)

text \<open>
  A spec that passed validation always evaluates: no rule reaches the \<open>unreachable!\<close> branch, and
  there is one result per entry.
\<close>

theorem validated_spec_evaluates:
  assumes "parse_spec from_str input = Inr spec"
  shows "\<exists>rs. evaluate_spec S spec ms = Some rs \<and> length rs = length spec \<and> spec \<noteq> []"
proof -
  have "spec \<noteq> []" "first_some entry_error spec = None"
    using assms by (auto simp: parse_spec_def split: sum.splits if_splits option.splits)
  moreover from this have "\<forall>e \<in> set spec. evaluate_entry S (exchanges (correlate S ms)) (payloads_by_seq S ms)
      (extract_tools S ms) ms e \<noteq> None" by (metis entry_ok_evaluates first_some_None)
  ultimately show ?thesis unfolding evaluate_spec_def using collect_results_length by blast
qed

theorem validated_spec_evaluates_witness:
  "\<exists>rs. evaluate_spec sample_serde
     [\<lparr>ae_description = None, ae_rule = Quota (Some ''OpenAI-Tier1'') None None None None None\<rparr>] [] = Some rs \<and> length rs = 1"
proof -
  let ?spec = "[\<lparr>ae_description = None, ae_rule = Quota (Some ''OpenAI-Tier1'') None None None None None\<rparr>]"
  have "map to_ascii_lowercase ''OpenAI-Tier1'' = ''openai-tier1''" by code_simp
  then have "parse_spec (\<lambda>s. Inr ?spec) ''x'' = Inr ?spec"
    by (simp add: parse_spec_def entry_error_def quota_spec_error_def preset_from_name_def)
  from validated_spec_evaluates[OF this, of sample_serde "[]"] show ?thesis by simp
qed

end
