(* ===== verification/RedactContext.thy ===== *)
theory RedactContext
  imports Json
begin

text \<open>
  \<open>crates/mcptracer-redact/src/context.rs\<close>: the tracker that decides, message by message, whether
  a payload is a response to an observed \<open>tools/list\<close> request.  The hash set of open requests is a
  set of pairs; \<open>true\<close> stands for a request of the server, as in the source.
\<close>

datatype redaction_context = Runtime | ToolListResponse

record tracker =
  tr_pending :: "(bool \<times> string) set"
  tr_previous_seq :: "u64 option"
  tr_lost_context :: bool

definition tracker_default :: tracker where
  "tracker_default = \<lparr>tr_pending = {}, tr_previous_seq = None, tr_lost_context = False\<rparr>"

definition MAX_PENDING_LIST_REQUESTS :: nat where
  "MAX_PENDING_LIST_REQUESTS = 4096"

definition MAX_TRACKED_ID_BYTES :: nat where
  "MAX_TRACKED_ID_BYTES = 1024"

definition has_lost_context :: "tracker \<Rightarrow> bool" where
  "has_lost_context t = tr_lost_context t"

definition u64_checked_add :: "nat \<Rightarrow> nat \<Rightarrow> nat option" where
  "u64_checked_add a b = (if a + b \<le> u64_max then Some (a + b) else None)"

definition is_gap :: "u64 option \<Rightarrow> u64 \<Rightarrow> bool" where
  "is_gap previous_seq seq \<longleftrightarrow>
     (case previous_seq of
        Some previous \<Rightarrow> u64_checked_add previous 1 \<noteq> Some seq
      | None \<Rightarrow> False)"

definition enter_message :: "tracker \<Rightarrow> u64 \<Rightarrow> tracker" where
  "enter_message t seq =
     t\<lparr>tr_pending := (if is_gap (tr_previous_seq t) seq then {} else tr_pending t),
       tr_previous_seq := Some seq\<rparr>"

definition responder_of :: "string \<Rightarrow> bool option" where
  "responder_of direction =
     (if direction = ''c2s'' then Some False
      else if direction = ''s2c'' then Some True
      else None)"

text \<open>The identifier of a message, when it is one that JSON-RPC allows.\<close>

definition tracked_id :: "json \<Rightarrow> json option" where
  "tracked_id payload =
     (case json_get payload ''id'' of
        Some (JString s) \<Rightarrow> Some (JString s)
      | Some (JNumber n) \<Rightarrow> Some (JNumber n)
      | _ \<Rightarrow> None)"

definition is_version_2 :: "json \<Rightarrow> bool" where
  "is_version_2 payload \<longleftrightarrow> Option.bind (json_get payload ''jsonrpc'') as_str = Some ''2.0''"

definition is_list_request :: "json \<Rightarrow> bool" where
  "is_list_request payload \<longleftrightarrow>
     is_version_2 payload
     \<and> Option.bind (json_get payload ''method'') as_str = Some ''tools/list''
     \<and> json_get payload ''result'' = None \<and> json_get payload ''error'' = None"

definition is_oversized_id :: "serde \<Rightarrow> json \<Rightarrow> bool" where
  "is_oversized_id S rid \<longleftrightarrow>
     (case as_str rid of Some text \<Rightarrow> length text > MAX_TRACKED_ID_BYTES | None \<Rightarrow> False)
     \<or> length (print_json S rid) > MAX_TRACKED_ID_BYTES"

definition observe_request :: "tracker \<Rightarrow> bool \<times> string \<Rightarrow> bool \<Rightarrow> tracker" where
  "observe_request t key list_request =
     (let t1 = t\<lparr>tr_pending := tr_pending t - {key}\<rparr>
      in if \<not> list_request then t1
         else if card (tr_pending t1) < MAX_PENDING_LIST_REQUESTS
         then t1\<lparr>tr_pending := insert key (tr_pending t1)\<rparr>
         else t1\<lparr>tr_lost_context := True\<rparr>)"

definition observe_response ::
  "tracker \<Rightarrow> bool \<times> string \<Rightarrow> json \<Rightarrow> redaction_context \<times> tracker" where
  "observe_response t key payload =
     (let matched = key \<in> tr_pending t
      in (if matched \<and> is_version_2 payload \<and> json_get payload ''result'' \<noteq> None
             \<and> json_get payload ''error'' = None
          then ToolListResponse else Runtime,
          t\<lparr>tr_pending := tr_pending t - {key}\<rparr>))"

definition observe ::
  "serde \<Rightarrow> tracker \<Rightarrow> u64 \<Rightarrow> string \<Rightarrow> json \<Rightarrow> redaction_context \<times> tracker" where
  "observe S t0 seq direction payload =
     (let t = enter_message t0 seq
      in case responder_of direction of
           None \<Rightarrow> (Runtime, t\<lparr>tr_pending := {}\<rparr>)
         | Some responder \<Rightarrow>
             (case tracked_id payload of
                None \<Rightarrow> (Runtime, t)
              | Some rid \<Rightarrow>
                  if is_oversized_id S rid
                  then (Runtime, t\<lparr>tr_lost_context := tr_lost_context t \<or> is_list_request payload\<rparr>)
                  else if json_get payload ''method'' \<noteq> None
                  then (Runtime, observe_request t (\<not> responder, print_json S rid)
                                   (is_list_request payload))
                  else observe_response t (responder, print_json S rid) payload))"

text \<open>The tracker over a whole recording, as record and validation run it.\<close>

fun observe_all ::
  "serde \<Rightarrow> tracker \<Rightarrow> (u64 \<times> string \<times> json) list \<Rightarrow> redaction_context list \<times> tracker" where
  "observe_all S t [] = ([], t)"
| "observe_all S t ((seq, direction, payload) # ms) =
     (let (c, t1) = observe S t seq direction payload;
          (cs, t2) = observe_all S t1 ms
      in (c # cs, t2))"

end
