(* ===== verification/Redact.thy ===== *)
theory Redact
  imports JsonDiff RedactContext "HOL-Library.Sublist"
begin

text \<open>
  The redactor of \<open>crates/mcptracer-redact/src/lib.rs\<close>: policies and their names, the key test,
  the two families of traversals (placeholder and type-preserving) with the exemption for the
  schemas of a matched \<open>tools/list\<close> response, and the audit that looks for keys left unmasked.
  The source writes every traversal twice, once per replacement; here the replacement is the
  argument \<open>repl\<close> of one definition per traversal.
\<close>

section \<open>Keys\<close>

definition CONTAINS_TOKENS :: "string list" where
  "CONTAINS_TOKENS =
     [''password'', ''passwd'', ''passphrase'', ''secret'', ''apikey'', ''accesstoken'',
      ''refreshtoken'', ''authorization'', ''credential'', ''privatekey'', ''clientsecret'',
      ''sessiontoken'', ''mnemonic'', ''seedphrase'']"

definition SUFFIX_TOKENS :: "string list" where
  "SUFFIX_TOKENS = [''token'', ''cookie'', ''bearer'']"

definition normalize_key :: "string \<Rightarrow> string" where
  "normalize_key key = map to_ascii_lowercase (filter is_ascii_alphanumeric key)"

definition is_sensitive_key :: "string \<Rightarrow> bool" where
  "is_sensitive_key key =
     (let normalized = normalize_key key
      in if normalized = [] then False
         else if list_ex (str_contains normalized) CONTAINS_TOKENS then True
         else list_ex (\<lambda>token. normalized = token \<or> suffix token normalized) SUFFIX_TOKENS)"

definition matches_policy_sensitive_key :: "string \<Rightarrow> string list \<Rightarrow> bool" where
  "matches_policy_sensitive_key key custom_keys =
     (if is_sensitive_key key then True
      else let normalized = normalize_key key
           in normalized \<noteq> [] \<and> list_ex (\<lambda>custom. custom = normalized) custom_keys)"

section \<open>Policies\<close>

datatype redaction_policy = PolicyNone | PolicyDefault | PolicyCustom "string list"

definition policy_from_name :: "string \<Rightarrow> redaction_policy option" where
  "policy_from_name name =
     (if name = ''none'' then Some PolicyNone
      else if name = ''default'' then Some PolicyDefault
      else None)"

definition policy_from_cli :: "string \<Rightarrow> string list \<Rightarrow> string + redaction_policy" where
  "policy_from_cli name extra_keys =
     (case policy_from_name name of
        None \<Rightarrow> Inl (''unknown redaction policy: '' @ name @ '' (expected none|default)'')
      | Some base \<Rightarrow>
          if extra_keys = [] then Inr base
          else if base \<noteq> PolicyDefault then Inl ''--redact-keys requires --redact default''
          else
            let normalized_keys =
                  remdups_adj (sort (filter (\<lambda>key. key \<noteq> []) (map normalize_key extra_keys)))
            in if normalized_keys = []
               then Inl ''--redact-keys must contain at least one non-empty key''
               else Inr (PolicyCustom normalized_keys))"

fun policy_as_str :: "redaction_policy \<Rightarrow> string" where
  "policy_as_str PolicyNone = ''none''"
| "policy_as_str PolicyDefault = ''default''"
| "policy_as_str (PolicyCustom _) = ''custom''"

definition policy_from_storage :: "string \<Rightarrow> string list \<Rightarrow> string + redaction_policy" where
  "policy_from_storage name extra_keys =
     (if name = ''none'' then
        (if extra_keys = [] then Inr PolicyNone
         else Inl ''the none redaction policy cannot have custom keys'')
      else if name = ''default'' then
        (if extra_keys = [] then Inr PolicyDefault
         else Inl ''the default redaction policy cannot have custom keys'')
      else if name = ''custom'' then
        (if extra_keys = [] then Inl ''the custom redaction policy requires custom keys''
         else policy_from_cli ''default'' extra_keys)
      else Inl (''unknown redaction policy in stored session: '' @ name))"

fun policy_custom_keys :: "redaction_policy \<Rightarrow> string list" where
  "policy_custom_keys (PolicyCustom extra_keys) = extra_keys"
| "policy_custom_keys _ = []"

record redactor =
  rd_policy :: redaction_policy
  rd_custom_keys :: "string list"
  rd_placeholder :: json

definition redactor_new :: "redaction_policy \<Rightarrow> redactor" where
  "redactor_new policy =
     \<lparr>rd_policy = policy,
      rd_custom_keys = (case policy of
          PolicyCustom extra_keys \<Rightarrow> filter (\<lambda>key. key \<noteq> []) (map normalize_key extra_keys)
        | _ \<Rightarrow> []),
      rd_placeholder = JString REDACTED_PLACEHOLDER\<rparr>"

definition is_active :: "redactor \<Rightarrow> bool" where
  "is_active r \<longleftrightarrow> rd_policy r \<noteq> PolicyNone"

definition redactor_sensitive :: "redactor \<Rightarrow> string \<Rightarrow> bool" where
  "redactor_sensitive r key = matches_policy_sensitive_key key (rd_custom_keys r)"

section \<open>Kinds of values\<close>

definition is_object :: "json \<Rightarrow> bool" where
  "is_object v \<longleftrightarrow> (case v of JObject _ \<Rightarrow> True | _ \<Rightarrow> False)"

definition is_boolean :: "json \<Rightarrow> bool" where
  "is_boolean v \<longleftrightarrow> (case v of JBool _ \<Rightarrow> True | _ \<Rightarrow> False)"

definition is_array :: "json \<Rightarrow> bool" where
  "is_array v \<longleftrightarrow> (case v of JArray _ \<Rightarrow> True | _ \<Rightarrow> False)"

definition is_string_array :: "json \<Rightarrow> bool" where
  "is_string_array v \<longleftrightarrow> (case v of JArray items \<Rightarrow> list_all is_string items | _ \<Rightarrow> False)"

fun redact_value_typed :: "json \<Rightarrow> json" where
  "redact_value_typed (JString _) = JString REDACTED_PLACEHOLDER"
| "redact_value_typed (JNumber _) = JNumber (PosInt 0)"
| "redact_value_typed (JBool _) = JBool False"
| "redact_value_typed (JArray _) = JArray []"
| "redact_value_typed (JObject _) = JObject []"
| "redact_value_typed JNull = JNull"

section \<open>Generic traversal\<close>

fun walk_by :: "(string \<Rightarrow> bool) \<Rightarrow> (json \<Rightarrow> json) \<Rightarrow> json \<Rightarrow> json"
  and walk_by_members ::
    "(string \<Rightarrow> bool) \<Rightarrow> (json \<Rightarrow> json) \<Rightarrow> (string \<times> json) list \<Rightarrow> (string \<times> json) list"
  and walk_by_items :: "(string \<Rightarrow> bool) \<Rightarrow> (json \<Rightarrow> json) \<Rightarrow> json list \<Rightarrow> json list" where
  "walk_by sens repl value =
     (case value of
        JObject ms \<Rightarrow> JObject (walk_by_members sens repl ms)
      | JArray items \<Rightarrow> JArray (walk_by_items sens repl items)
      | other \<Rightarrow> other)"
| "walk_by_members sens repl [] = []"
| "walk_by_members sens repl ((key, child) # ms) =
     (key, if sens key then repl child else walk_by sens repl child) # walk_by_members sens repl ms"
| "walk_by_items sens repl [] = []"
| "walk_by_items sens repl (item # items) =
     walk_by sens repl item # walk_by_items sens repl items"

declare walk_by.simps [simp del]

definition walk_plain :: "redactor \<Rightarrow> json \<Rightarrow> json" where
  "walk_plain r = walk_by (redactor_sensitive r) (\<lambda>_. rd_placeholder r)"

definition walk_typed :: "redactor \<Rightarrow> json \<Rightarrow> json" where
  "walk_typed r = walk_by (redactor_sensitive r) redact_value_typed"

section \<open>Schema traversal\<close>

text \<open>
  \<open>walk_schema\<close> takes the closures of the source: \<open>sens\<close>, and a visitor that may change both the
  value it is given and the state it captures, which is threaded through the traversal.
\<close>

definition schema_map_keys :: "string list" where
  "schema_map_keys =
     [''properties'', ''patternProperties'', ''$defs'', ''definitions'', ''dependentSchemas'']"

definition single_schema_keys :: "string list" where
  "single_schema_keys =
     [''items'', ''additionalItems'', ''additionalProperties'', ''unevaluatedProperties'',
      ''unevaluatedItems'', ''propertyNames'', ''not'', ''if'', ''then'', ''else'', ''contains'',
      ''contentSchema'']"

definition schema_list_keys :: "string list" where
  "schema_list_keys = [''allOf'', ''anyOf'', ''oneOf'', ''prefixItems'', ''items'']"

definition dependency_keys :: "string list" where
  "dependency_keys = [''dependencies'', ''dependentRequired'']"

type_synonym 's visitor = "string \<Rightarrow> json \<Rightarrow> 's \<Rightarrow> json \<times> 's"

function walk_schema :: "(string \<Rightarrow> bool) \<Rightarrow> 's visitor \<Rightarrow> json \<Rightarrow> 's \<Rightarrow> json \<times> 's"
  and schema_members ::
    "(string \<Rightarrow> bool) \<Rightarrow> 's visitor \<Rightarrow> (string \<times> json) list \<Rightarrow> 's \<Rightarrow> (string \<times> json) list \<times> 's"
  and schema_member :: "(string \<Rightarrow> bool) \<Rightarrow> 's visitor \<Rightarrow> string \<Rightarrow> json \<Rightarrow> 's \<Rightarrow> json \<times> 's"
  and schema_definitions ::
    "(string \<Rightarrow> bool) \<Rightarrow> 's visitor \<Rightarrow> (string \<times> json) list \<Rightarrow> 's \<Rightarrow> (string \<times> json) list \<times> 's"
  and schema_list ::
    "(string \<Rightarrow> bool) \<Rightarrow> 's visitor \<Rightarrow> string \<Rightarrow> json list \<Rightarrow> 's \<Rightarrow> json list \<times> 's"
  and schema_dependencies ::
    "(string \<Rightarrow> bool) \<Rightarrow> 's visitor \<Rightarrow> string \<Rightarrow> (string \<times> json) list \<Rightarrow> 's
       \<Rightarrow> (string \<times> json) list \<times> 's" where
  "walk_schema sens visit value s =
     (case value of
        JObject schema \<Rightarrow> (let (m, s1) = schema_members sens visit schema s in (JObject m, s1))
      | _ \<Rightarrow> if \<not> is_boolean value then visit [] value s else (value, s))"
| "schema_members sens visit [] s = ([], s)"
| "schema_members sens visit ((key, child) # ms) s =
     (let (c, s1) = schema_member sens visit key child s;
          (r, s2) = schema_members sens visit ms s1
      in ((key, c) # r, s2))"
| "schema_member sens visit key child s =
     (if sens key then visit key child s
      else if key \<in> set schema_map_keys \<and> is_object child then
        (case child of
           JObject properties \<Rightarrow>
             (let (m, s1) = schema_definitions sens visit properties s in (JObject m, s1))
         | _ \<Rightarrow> (child, s))
      else if key \<in> set single_schema_keys \<and> (is_object child \<or> is_boolean child) then
        walk_schema sens visit child s
      else if key \<in> set schema_list_keys \<and> is_array child then
        (case child of
           JArray schemas \<Rightarrow>
             (let (xs, s1) = schema_list sens visit key schemas s in (JArray xs, s1))
         | _ \<Rightarrow> (child, s))
      else if key \<in> set dependency_keys \<and> is_object child then
        (case child of
           JObject dependencies \<Rightarrow>
             (let (m, s1) = schema_dependencies sens visit key dependencies s in (JObject m, s1))
         | _ \<Rightarrow> (child, s))
      else visit key child s)"
| "schema_definitions sens visit [] s = ([], s)"
| "schema_definitions sens visit ((name, definition) # ms) s =
     (let (d, s1) =
            (if is_object definition \<or> is_boolean definition
             then walk_schema sens visit definition s
             else visit name definition s);
          (r, s2) = schema_definitions sens visit ms s1
      in ((name, d) # r, s2))"
| "schema_list sens visit key [] s = ([], s)"
| "schema_list sens visit key (schema # schemas) s =
     (let (x, s1) =
            (if is_object schema \<or> is_boolean schema
             then walk_schema sens visit schema s
             else visit key schema s);
          (r, s2) = schema_list sens visit key schemas s1
      in (x # r, s2))"
| "schema_dependencies sens visit key [] s = ([], s)"
| "schema_dependencies sens visit key ((name, definition) # ms) s =
     (let (d, s1) =
            (if is_string_array definition then (definition, s)
             else if key = ''dependencies'' \<and> (is_object definition \<or> is_boolean definition)
             then walk_schema sens visit definition s
             else visit name definition s);
          (r, s2) = schema_dependencies sens visit key ms s1
      in ((name, d) # r, s2))"
  by pat_completeness auto

termination
  by (relation "measure (\<lambda>x. case x of
      Inl (Inl (_, _, v, _)) \<Rightarrow> 3 * size v
    | Inl (Inr (Inl (_, _, ms, _))) \<Rightarrow> 3 * size_list (size_prod (\<lambda>_. 0) size) ms
    | Inl (Inr (Inr (_, _, _, v, _))) \<Rightarrow> 3 * size v + 1
    | Inr (Inl (_, _, ms, _)) \<Rightarrow> 3 * size_list (size_prod (\<lambda>_. 0) size) ms
    | Inr (Inr (Inl (_, _, _, xs, _))) \<Rightarrow> 3 * size_list size xs
    | Inr (Inr (Inr (_, _, _, ms, _))) \<Rightarrow> 3 * size_list (size_prod (\<lambda>_. 0) size) ms)") simp_all

declare walk_schema.simps [simp del] schema_member.simps [simp del]

section \<open>Messages\<close>

definition is_mcp_tool_schema_key :: "string \<Rightarrow> bool" where
  "is_mcp_tool_schema_key key \<longleftrightarrow> key \<in> {''inputSchema'', ''outputSchema''}"

text \<open>
  \<open>walk_tool_definition\<close>, \<open>walk_result\<close> and \<open>walk_message\<close> with the replacement as argument; the
  closure passed to \<open>walk_schema\<close> captures no state.
\<close>

definition schema_visit :: "(string \<Rightarrow> bool) \<Rightarrow> (json \<Rightarrow> json) \<Rightarrow> unit visitor" where
  "schema_visit sens repl key child u =
     (if sens key then repl child else walk_by sens repl child, u)"

definition walk_tool_definition_by :: "(string \<Rightarrow> bool) \<Rightarrow> (json \<Rightarrow> json) \<Rightarrow> json \<Rightarrow> json" where
  "walk_tool_definition_by sens repl value =
     (case value of
        JObject tool \<Rightarrow>
          JObject (map (\<lambda>(key, child).
            (key,
             if sens key then repl child
             else if is_mcp_tool_schema_key key
             then fst (walk_schema sens (schema_visit sens repl) child ())
             else walk_by sens repl child)) tool)
      | _ \<Rightarrow> walk_by sens repl value)"

definition walk_result_by :: "(string \<Rightarrow> bool) \<Rightarrow> (json \<Rightarrow> json) \<Rightarrow> json \<Rightarrow> json" where
  "walk_result_by sens repl value =
     (case value of
        JObject result \<Rightarrow>
          JObject (map (\<lambda>(key, child).
            (key,
             if key = ''tools'' \<and> \<not> sens key \<and> is_array child
             then (case child of
                     JArray tools \<Rightarrow> JArray (map (walk_tool_definition_by sens repl) tools)
                   | _ \<Rightarrow> child)
             else if sens key then repl child
             else walk_by sens repl child)) result)
      | _ \<Rightarrow> walk_by sens repl value)"

definition walk_message_by ::
  "(string \<Rightarrow> bool) \<Rightarrow> (json \<Rightarrow> json) \<Rightarrow> redaction_context \<Rightarrow> json \<Rightarrow> json" where
  "walk_message_by sens repl ctx value =
     (case value of
        JObject entries \<Rightarrow>
          JObject (map (\<lambda>(key, child).
            (key,
             if sens key then repl child
             else if key = ''result'' \<and> ctx = ToolListResponse then walk_result_by sens repl child
             else walk_by sens repl child)) entries)
      | _ \<Rightarrow> walk_by sens repl value)"

definition walk_message :: "redactor \<Rightarrow> json \<Rightarrow> redaction_context \<Rightarrow> json" where
  "walk_message r value ctx = walk_message_by (redactor_sensitive r) (\<lambda>_. rd_placeholder r) ctx value"

definition walk_message_typed :: "redactor \<Rightarrow> json \<Rightarrow> redaction_context \<Rightarrow> json" where
  "walk_message_typed r value ctx =
     walk_message_by (redactor_sensitive r) redact_value_typed ctx value"

definition redact_with_context :: "redactor \<Rightarrow> json \<Rightarrow> redaction_context \<Rightarrow> json" where
  "redact_with_context r value ctx = (if \<not> is_active r then value else walk_message r value ctx)"

definition redact :: "redactor \<Rightarrow> json \<Rightarrow> json" where
  "redact r value = redact_with_context r value Runtime"

definition redact_preserving_types_with_context ::
  "redactor \<Rightarrow> json \<Rightarrow> redaction_context \<Rightarrow> json" where
  "redact_preserving_types_with_context r value ctx =
     (if \<not> is_active r then value else walk_message_typed r value ctx)"

definition redact_preserving_types :: "redactor \<Rightarrow> json \<Rightarrow> json" where
  "redact_preserving_types r value = redact_preserving_types_with_context r value Runtime"

section \<open>Audit\<close>

text \<open>The vector of findings is threaded through, as the \<open>&mut Vec\<close> of the source.\<close>

function push_if_unredacted :: "string list \<Rightarrow> string \<Rightarrow> json \<Rightarrow> string list \<Rightarrow> string list"
  and collect_unredacted :: "string list \<Rightarrow> json \<Rightarrow> string list \<Rightarrow> string list"
  and collect_members :: "string list \<Rightarrow> (string \<times> json) list \<Rightarrow> string list \<Rightarrow> string list"
  and collect_items :: "string list \<Rightarrow> json list \<Rightarrow> string list \<Rightarrow> string list" where
  "push_if_unredacted custom key child keys =
     (if matches_policy_sensitive_key key custom
      then (if as_str child \<noteq> Some REDACTED_PLACEHOLDER then keys @ [key] else keys)
      else collect_unredacted custom child keys)"
| "collect_unredacted custom value keys =
     (case value of
        JObject ms \<Rightarrow> collect_members custom ms keys
      | JArray items \<Rightarrow> collect_items custom items keys
      | _ \<Rightarrow> keys)"
| "collect_members custom [] keys = keys"
| "collect_members custom ((key, child) # ms) keys =
     collect_members custom ms (push_if_unredacted custom key child keys)"
| "collect_items custom [] keys = keys"
| "collect_items custom (item # items) keys =
     collect_items custom items (collect_unredacted custom item keys)"
  by pat_completeness auto

termination
  by (relation "measure (\<lambda>x. case x of
      Inl (Inl (_, _, v, _)) \<Rightarrow> 3 * size v + 1
    | Inl (Inr (_, v, _)) \<Rightarrow> 3 * size v
    | Inr (Inl (_, ms, _)) \<Rightarrow> 3 * size_list (size_prod (\<lambda>_. 0) size) ms
    | Inr (Inr (_, xs, _)) \<Rightarrow> 3 * size_list size xs)") simp_all

declare push_if_unredacted.simps [simp del] collect_unredacted.simps [simp del]

text \<open>The read-only closure: it leaves the value and pushes onto the captured vector.\<close>

definition audit_visit :: "string list \<Rightarrow> string list visitor" where
  "audit_visit custom key child keys = (child, push_if_unredacted custom key child keys)"

definition collect_tool_member :: "string list \<Rightarrow> string \<times> json \<Rightarrow> string list \<Rightarrow> string list" where
  "collect_tool_member custom = (\<lambda>(key, child) keys.
     if is_mcp_tool_schema_key key \<and> \<not> matches_policy_sensitive_key key custom
     then snd (walk_schema (\<lambda>k. matches_policy_sensitive_key k custom) (audit_visit custom) child keys)
     else push_if_unredacted custom key child keys)"

definition collect_unredacted_tool_definition ::
  "string list \<Rightarrow> json \<Rightarrow> string list \<Rightarrow> string list" where
  "collect_unredacted_tool_definition custom value keys =
     (case value of
        JObject tool \<Rightarrow> fold (collect_tool_member custom) tool keys
      | _ \<Rightarrow> collect_unredacted custom value keys)"

definition collect_result_member :: "string list \<Rightarrow> string \<times> json \<Rightarrow> string list \<Rightarrow> string list" where
  "collect_result_member custom = (\<lambda>(key, child) keys.
     if key = ''tools'' \<and> \<not> matches_policy_sensitive_key key custom \<and> is_array child
     then (case child of
             JArray tools \<Rightarrow> fold (collect_unredacted_tool_definition custom) tools keys
           | _ \<Rightarrow> keys)
     else push_if_unredacted custom key child keys)"

definition collect_unredacted_result :: "string list \<Rightarrow> json \<Rightarrow> string list \<Rightarrow> string list" where
  "collect_unredacted_result custom value keys =
     (case value of
        JObject result \<Rightarrow> fold (collect_result_member custom) result keys
      | _ \<Rightarrow> collect_unredacted custom value keys)"

definition collect_message_member ::
  "string list \<Rightarrow> redaction_context \<Rightarrow> string \<times> json \<Rightarrow> string list \<Rightarrow> string list" where
  "collect_message_member custom ctx = (\<lambda>(key, child) keys.
     if key = ''result'' \<and> ctx = ToolListResponse \<and> \<not> matches_policy_sensitive_key key custom
     then collect_unredacted_result custom child keys
     else push_if_unredacted custom key child keys)"

definition collect_unredacted_message ::
  "string list \<Rightarrow> redaction_context \<Rightarrow> json \<Rightarrow> string list \<Rightarrow> string list" where
  "collect_unredacted_message custom ctx value keys =
     (case value of
        JObject entries \<Rightarrow> fold (collect_message_member custom ctx) entries keys
      | _ \<Rightarrow> collect_unredacted custom value keys)"

definition unredacted_sensitive_keys_with_context ::
  "json \<Rightarrow> redaction_policy \<Rightarrow> redaction_context \<Rightarrow> string list" where
  "unredacted_sensitive_keys_with_context value policy ctx =
     (if policy = PolicyNone then []
      else remdups_adj (sort
             (collect_unredacted_message (policy_custom_keys policy) ctx value [])))"

definition unredacted_sensitive_keys :: "json \<Rightarrow> redaction_policy \<Rightarrow> string list" where
  "unredacted_sensitive_keys value policy =
     unredacted_sensitive_keys_with_context value policy Runtime"

end
