(* ===== verification/RedactMasking.thy ===== *)
theory RedactMasking
  imports RedactFacts
begin

text \<open>
  What every masking has in common, as the locale \<open>masking\<close> of a key test and a replacement:
  masking twice is masking once, and only what lies under a sensitive key changes.  The locale
  \<open>audited_masking\<close> adds the placeholder the audit looks for, and shows that the audit pushes
  nothing exactly on values that masking leaves alone.
\<close>

section \<open>Values that agree outside sensitive keys\<close>

text \<open>
  The relation a masking must respect: the same keys in the same order, the same arrays and
  leaves, and under a sensitive key two values related by \<open>rel\<close>.
\<close>

fun same_upto :: "(string \<Rightarrow> bool) \<Rightarrow> (json \<Rightarrow> json \<Rightarrow> bool) \<Rightarrow> json \<Rightarrow> json \<Rightarrow> bool"
  and same_upto_members ::
    "(string \<Rightarrow> bool) \<Rightarrow> (json \<Rightarrow> json \<Rightarrow> bool) \<Rightarrow> (string \<times> json) list \<Rightarrow> (string \<times> json) list \<Rightarrow> bool"
  and same_upto_items ::
    "(string \<Rightarrow> bool) \<Rightarrow> (json \<Rightarrow> json \<Rightarrow> bool) \<Rightarrow> json list \<Rightarrow> json list \<Rightarrow> bool" where
  "same_upto sens rel (JObject ms) w =
     (case w of JObject ns \<Rightarrow> same_upto_members sens rel ms ns | _ \<Rightarrow> False)"
| "same_upto sens rel (JArray xs) w =
     (case w of JArray ys \<Rightarrow> same_upto_items sens rel xs ys | _ \<Rightarrow> False)"
| "same_upto sens rel v w = (v = w)"
| "same_upto_members sens rel [] ns = (ns = [])"
| "same_upto_members sens rel ((k, c) # ms) ns =
     (case ns of
        [] \<Rightarrow> False
      | (k', c') # ns' \<Rightarrow>
          k = k' \<and> (if sens k then rel c c' else same_upto sens rel c c')
          \<and> same_upto_members sens rel ms ns')"
| "same_upto_items sens rel [] ys = (ys = [])"
| "same_upto_items sens rel (x # xs) ys =
     (case ys of [] \<Rightarrow> False | y # ys' \<Rightarrow> same_upto sens rel x y \<and> same_upto_items sens rel xs ys')"

lemma same_upto_members_map:
  "same_upto_members sens rel ms (map (\<lambda>(k, c). (k, f k c)) ms) \<longleftrightarrow>
     (\<forall>(k, c) \<in> set ms. if sens k then rel c (f k c) else same_upto sens rel c (f k c))"
proof (induction ms)
  case (Cons e ms)
  then show ?case by (cases e) simp
qed simp

lemma same_upto_items_map:
  "same_upto_items sens rel xs (map f xs) \<longleftrightarrow> (\<forall>x \<in> set xs. same_upto sens rel x (f x))"
  by (induction xs) auto

section \<open>Masking\<close>

lemma is_schema_kind: "json_kind v = json_kind w \<Longrightarrow> is_schema v = is_schema w"
  using json_kind_tests[of v w] by (simp add: is_schema_def)

lemma is_schema_cases [simp]:
  "is_schema (JObject ms)" "is_schema (JBool b)" "\<not> is_schema JNull" "\<not> is_schema (JNumber n)"
  "\<not> is_schema (JString s)" "\<not> is_schema (JArray xs)"
  by (simp_all add: is_schema_def kind_defs)

lemma not_string_array [simp]:
  "\<not> is_string_array (JObject ms)" "\<not> is_string_array (JBool b)" "\<not> is_string_array (JString s)"
  "is_string_array (JArray [])"
  by (simp_all add: is_string_array_def)

lemma schema_not_string_array: "is_schema v \<Longrightarrow> \<not> is_string_array v"
  by (cases v) simp_all

lemma json_kind_mask_schema: "is_schema v \<Longrightarrow> json_kind (mask_schema sens repl v) = json_kind v"
  by (cases v) simp_all

lemma is_schema_mask_schema: "is_schema v \<Longrightarrow> is_schema (mask_schema sens repl v)"
  by (metis is_schema_kind json_kind_mask_schema)

lemma walk_not_object:
  assumes "\<not> is_object v"
  shows "walk_tool_definition_by sens repl v = walk_by sens repl v"
    and "walk_result_by sens repl v = walk_by sens repl v"
    and "walk_message_by sens repl ctx v = walk_by sens repl v"
  using assms
  by (cases v; simp add: walk_tool_definition_by_def walk_result_by_def walk_message_by_def
        is_object_def)+

locale masking =
  fixes sens :: "string \<Rightarrow> bool" and repl :: "json \<Rightarrow> json"
  assumes repl_idem: "repl (repl v) = repl v"
    and repl_not_schema: "\<not> is_schema v \<Longrightarrow> \<not> is_schema (repl v)"
begin

lemma walk_idem: "walk_by sens repl (walk_by sens repl v) = walk_by sens repl v"
  by (induction v rule: json_induct) (auto simp: repl_idem)

lemma value_idem: "mask_value sens repl k (mask_value sens repl k v) = mask_value sens repl k v"
  by (simp add: mask_value_def repl_idem walk_idem)

lemma value_not_schema: "\<not> is_schema v \<Longrightarrow> \<not> is_schema (mask_value sens repl k v)"
  by (metis is_schema_kind json_kind_walk_by mask_value_def repl_not_schema)

text \<open>A schema and its members are masked to a fixed point, by induction on the value.\<close>

lemma schema_member_idem:
  "mask_schema sens repl (mask_schema sens repl v) = mask_schema sens repl v
   \<and> (\<forall>k. mask_member sens repl k (mask_member sens repl k v) = mask_member sens repl k v)"
  (is "?S v \<and> ?M v")
proof (induction v rule: json_induct)
  case (JObject ms)
  have S: "?S (JObject ms)" using JObject.IH by auto
  have D: "mask_definition sens repl n (mask_definition sens repl k c) = mask_definition sens repl k c"
    if "(k, c) \<in> set ms" "n = k" for n k c
    using JObject.IH[OF that(1)] that(2)
    by (auto simp: mask_definition_def is_schema_mask_schema value_idem value_not_schema)
  have E: "mask_dependency sens repl key k (mask_dependency sens repl key k c)
      = mask_dependency sens repl key k c" if "(k, c) \<in> set ms" for key k c
    using JObject.IH[OF that]
    by (auto simp: mask_dependency_def is_schema_mask_schema value_idem value_not_schema
        schema_not_string_array)
  have "?M (JObject ms)"
    using S D E by (auto simp: mask_member_role repl_idem walk_idem)
  with S show ?case by simp
next
  case (JArray xs)
  have D: "mask_definition sens repl k (mask_definition sens repl k c) = mask_definition sens repl k c"
    if "c \<in> set xs" for k c
    using JArray.IH[OF that]
    by (auto simp: mask_definition_def is_schema_mask_schema value_idem value_not_schema)
  then have "?M (JArray xs)"
    by (auto simp: mask_member_role repl_idem walk_idem)
  then show ?case by (simp add: value_idem value_not_schema)
qed (auto simp: mask_member_role repl_idem walk_idem value_idem value_not_schema)

lemma tool_idem:
  "walk_tool_definition_by sens repl (walk_tool_definition_by sens repl v)
     = walk_tool_definition_by sens repl v"
  using schema_member_idem
  by (cases v)
    (auto simp: walk_tool_definition_by_def mask_schema_def [symmetric] repl_idem walk_idem)

lemma result_idem:
  "walk_result_by sens repl (walk_result_by sens repl v) = walk_result_by sens repl v"
proof (cases v)
  case (JObject ms)
  then show ?thesis
    by (auto simp: walk_result_by_def is_array_def repl_idem walk_idem tool_idem split: json.splits)
qed (simp_all add: walk_result_by_def walk_idem)

lemma message_idem:
  "walk_message_by sens repl ctx (walk_message_by sens repl ctx v) = walk_message_by sens repl ctx v"
  by (cases v) (auto simp: walk_message_by_def repl_idem walk_idem result_idem)

end

section \<open>What masking changes\<close>

locale shaped_masking = masking +
  fixes rel :: "json \<Rightarrow> json \<Rightarrow> bool"
  assumes sens_empty: "\<not> sens []"
    and rel_kind: "json_kind v = json_kind w \<Longrightarrow> rel v w"
    and rel_repl: "rel v (repl v)"
begin

lemma rel_value: "rel v (mask_value sens repl k v)"
  by (simp add: mask_value_def rel_kind rel_repl)

lemma rel_definition: "rel v (mask_definition sens repl k v)"
  by (simp add: mask_definition_def rel_value rel_kind json_kind_mask_schema)

lemma rel_dependency: "rel v (mask_dependency sens repl key k v)"
  by (simp add: mask_dependency_def rel_value rel_kind json_kind_mask_schema)

lemma same_walk: "same_upto sens rel v (walk_by sens repl v)"
  by (induction v rule: json_induct)
    (auto simp: same_upto_members_map same_upto_items_map rel_repl)

lemma same_value: "\<not> sens k \<Longrightarrow> same_upto sens rel v (mask_value sens repl k v)"
  by (simp add: mask_value_def same_walk)

lemma same_refl: "same_upto sens rel v v"
proof (induction v rule: json_induct)
  case (JArray xs)
  then show ?case using same_upto_items_map[of sens rel xs "\<lambda>x. x"] by simp
next
  case (JObject ms)
  then show ?case
    using same_upto_members_map[of sens rel ms "\<lambda>k c. c"] by (auto simp: rel_kind)
qed simp_all

lemma same_schema_member:
  "same_upto sens rel v (mask_schema sens repl v)
   \<and> (\<forall>k. \<not> sens k \<longrightarrow> same_upto sens rel v (mask_member sens repl k v))"
  (is "?S v \<and> ?M v")
proof (induction v rule: json_induct)
  case (JObject ms)
  have S: "?S (JObject ms)"
    using JObject.IH
    by (auto simp: same_upto_members_map mask_member_role [of sens repl _ _] rel_repl)
  have D: "if sens k then rel c (mask_definition sens repl k c)
      else same_upto sens rel c (mask_definition sens repl k c)" if "(k, c) \<in> set ms" for k c
    using JObject.IH[OF that] by (cases "sens k") (simp_all add: rel_definition, simp add: mask_definition_def same_value)
  have E: "if sens k then rel c (mask_dependency sens repl key k c)
      else same_upto sens rel c (mask_dependency sens repl key k c)" if "(k, c) \<in> set ms" for key k c
    using JObject.IH[OF that] by (cases "sens k") (simp_all add: rel_dependency, simp add: mask_dependency_def same_value same_refl)
  have "?M (JObject ms)"
    using S D E by (auto simp: mask_member_role same_upto_members_map rel_repl same_walk)
  with S show ?case by simp
next
  case (JArray xs)
  have "same_upto sens rel c (mask_definition sens repl k c)" if "c \<in> set xs" "\<not> sens k" for k c
    using JArray.IH[OF that(1)] that(2) by (simp add: mask_definition_def same_value)
  then have "?M (JArray xs)"
    using same_walk[of "JArray xs"]
    by (auto simp: mask_member_role same_upto_items_map)
  then show ?case using same_value[OF sens_empty, of "JArray xs"] by (simp del: same_upto.simps)
qed (auto simp: mask_member_role mask_value_def sens_empty)

lemma same_tool: "same_upto sens rel v (walk_tool_definition_by sens repl v)"
proof (cases "is_object v")
  case True
  then show ?thesis
    using same_schema_member same_walk
    by (cases v)
      (auto simp: is_object_def walk_tool_definition_by_def mask_schema_def [symmetric]
        same_upto_members_map rel_repl)
qed (simp add: walk_not_object same_walk)

lemma same_result: "same_upto sens rel v (walk_result_by sens repl v)"
proof (cases "is_object v")
  case True
  then show ?thesis
    using same_tool same_walk
    by (cases v)
      (auto simp: is_object_def walk_result_by_def is_array_def same_upto_members_map
        same_upto_items_map rel_repl split: json.splits)
qed (simp add: walk_not_object same_walk)

lemma same_message: "same_upto sens rel v (walk_message_by sens repl ctx v)"
proof (cases "is_object v")
  case True
  then show ?thesis
    using same_result same_walk
    by (cases v) (auto simp: is_object_def walk_message_by_def same_upto_members_map rel_repl)
qed (simp add: walk_not_object same_walk)

end

end
