(* ===== verification/RedactAudit.thy ===== *)
theory RedactAudit
  imports RedactMasking
begin

text \<open>
  The audit against the masking: \<open>pushes f unchanged\<close> says that the collector \<open>f\<close> appends to the
  vector, and appends nothing exactly when masking leaves the value unchanged.  Every collector
  of \<^theory_text>\<open>Redact\<close> has this property, up to the message level.
\<close>

definition pushes :: "(string list \<Rightarrow> string list) \<Rightarrow> bool \<Rightarrow> bool" where
  "pushes f unchanged \<longleftrightarrow> (\<exists>new. (\<forall>keys. f keys = keys @ new) \<and> (new = [] \<longleftrightarrow> unchanged))"

lemma pushes_none: "pushes (\<lambda>keys. keys) True"
  by (auto simp: pushes_def)

lemma pushes_cong: "pushes f u \<Longrightarrow> (\<And>keys. g keys = f keys) \<Longrightarrow> (u \<longleftrightarrow> w) \<Longrightarrow> pushes g w"
  by (simp add: pushes_def)

lemma pushes_comp: "pushes f u \<Longrightarrow> pushes g w \<Longrightarrow> pushes (\<lambda>keys. g (f keys)) (u \<and> w)"
  unfolding pushes_def
proof (elim exE conjE)
  fix m n
  assume "\<forall>keys. f keys = keys @ m" "m = [] \<longleftrightarrow> u" "\<forall>keys. g keys = keys @ n" "n = [] \<longleftrightarrow> w"
  then show "\<exists>new. (\<forall>keys. g (f keys) = keys @ new) \<and> (new = [] \<longleftrightarrow> u \<and> w)"
    by (intro exI[of _ "m @ n"]) auto
qed

lemma pushes_fold:
  "(\<And>x. x \<in> set xs \<Longrightarrow> pushes (f x) (g x = x)) \<Longrightarrow> pushes (fold f xs) (map g xs = xs)"
proof (induction xs)
  case Nil
  show ?case by (simp add: pushes_def)
next
  case (Cons x xs)
  have "pushes (f x) (g x = x)" "pushes (fold f xs) (map g xs = xs)"
    using Cons by simp_all
  from pushes_comp[OF this] show ?case by (rule pushes_cong) simp_all
qed

text \<open>The same for the members of an object, whose keys are never changed.\<close>

lemma pushes_fold_members:
  assumes "\<And>k c. (k, c) \<in> set ms \<Longrightarrow> pushes (f k c) (g k c = c)"
  shows "pushes (fold (\<lambda>(k, c). f k c) ms) (map (\<lambda>(k, c). (k, g k c)) ms = ms)"
proof (rule pushes_fold)
  fix x assume x: "x \<in> set ms"
  obtain k c where "x = (k, c)" by (cases x)
  with x assms show "pushes ((\<lambda>(k, c). f k c) x) ((\<lambda>(k, c). (k, g k c)) x = x)" by simp
qed

section \<open>The key-by-key collector\<close>

lemma collect_members_fold:
  "collect_members custom ms keys = fold (\<lambda>(k, c). push_if_unredacted custom k c) ms keys"
  by (induction ms arbitrary: keys) auto

lemma collect_items_fold: "collect_items custom xs keys = fold (collect_unredacted custom) xs keys"
  by (induction xs arbitrary: keys) auto

abbreviation policy_key :: "string list \<Rightarrow> string \<Rightarrow> bool" where
  "policy_key custom \<equiv> (\<lambda>k. matches_policy_sensitive_key k custom)"

abbreviation placeholder :: "json \<Rightarrow> json" where
  "placeholder \<equiv> (\<lambda>_. JString REDACTED_PLACEHOLDER)"

lemma pushes_push_if:
  assumes "pushes (collect_unredacted custom c) (walk_by (policy_key custom) placeholder c = c)"
  shows "pushes (push_if_unredacted custom k c) (mask_value (policy_key custom) placeholder k c = c)"
proof (cases "policy_key custom k")
  case True
  then show ?thesis
    by (auto simp: pushes_def push_if_unredacted.simps mask_value_def)
next
  case False
  then show ?thesis
    using assms by (simp add: pushes_def push_if_unredacted.simps mask_value_def)
qed

lemma pushes_collect:
  "pushes (collect_unredacted custom v) (walk_by (policy_key custom) placeholder v = v)"
proof (induction v rule: json_induct)
  case (JArray xs)
  then have "pushes (fold (collect_unredacted custom) xs)
      (map (walk_by (policy_key custom) placeholder) xs = xs)"
    by (rule pushes_fold)
  then show ?case
    by (rule pushes_cong) (simp_all add: collect_unredacted.simps collect_items_fold)
next
  case (JObject ms)
  have "pushes (fold (\<lambda>(k, c). push_if_unredacted custom k c) ms)
      (map (\<lambda>(k, c). (k, mask_value (policy_key custom) placeholder k c)) ms = ms)"
    by (rule pushes_fold_members) (rule pushes_push_if, rule JObject.IH)
  then show ?case
    by (rule pushes_cong) (simp_all add: collect_unredacted.simps collect_members_fold mask_value_def)
qed (simp_all add: pushes_def collect_unredacted.simps)

lemmas pushes_visit = pushes_push_if [OF pushes_collect]

section \<open>Schemas\<close>

lemma snd_audit_visit [simp]: "snd (audit_visit custom k c keys) = push_if_unredacted custom k c keys"
  by (simp add: audit_visit_def)

abbreviation audit_schema :: "string list \<Rightarrow> json \<Rightarrow> string list \<Rightarrow> string list" where
  "audit_schema custom v keys \<equiv> snd (walk_schema (policy_key custom) (audit_visit custom) v keys)"

abbreviation audit_member :: "string list \<Rightarrow> string \<Rightarrow> json \<Rightarrow> string list \<Rightarrow> string list" where
  "audit_member custom k v keys \<equiv> snd (schema_member (policy_key custom) (audit_visit custom) k v keys)"

lemma pushes_definition:
  assumes "pushes (audit_schema custom c) (mask_schema (policy_key custom) placeholder c = c)"
  shows "pushes (step_definition (policy_key custom) (audit_visit custom) k c)
           (mask_definition (policy_key custom) placeholder k c = c)"
proof (cases "is_schema c")
  case True
  with assms show ?thesis
    by (simp add: pushes_def step_definition_def mask_definition_def)
next
  case False
  with pushes_visit[of custom k c] show ?thesis
    by (simp add: pushes_def step_definition_def mask_definition_def)
qed

lemma pushes_dependency:
  assumes "pushes (audit_schema custom c) (mask_schema (policy_key custom) placeholder c = c)"
  shows "pushes (step_dependency (policy_key custom) (audit_visit custom) key k c)
           (mask_dependency (policy_key custom) placeholder key k c = c)"
proof -
  consider "is_string_array c" | "\<not> is_string_array c" "key = ''dependencies'' \<and> is_schema c"
    | "\<not> is_string_array c" "\<not> (key = ''dependencies'' \<and> is_schema c)" by blast
  then show ?thesis
  proof cases
    case 1
    then show ?thesis by (simp add: pushes_def step_dependency_def mask_dependency_def)
  next
    case 2
    with assms show ?thesis by (simp add: pushes_def step_dependency_def mask_dependency_def)
  next
    case 3
    then show ?thesis
      by (intro pushes_cong[OF pushes_visit[of custom k c]])
        (auto simp: step_dependency_def mask_dependency_def)
  qed
qed

text \<open>A schema and its members, by induction on the value.\<close>

lemma pushes_schema_member:
  "pushes (audit_schema custom v) (mask_schema (policy_key custom) placeholder v = v)
   \<and> (\<forall>k. pushes (audit_member custom k v) (mask_member (policy_key custom) placeholder k v = v))"
  (is "?S v \<and> (\<forall>k. ?M k v)")
proof (induction v rule: json_induct)
  case (JObject ms)
  have "pushes (fold (\<lambda>(k, c). audit_member custom k c) ms)
      (map (\<lambda>(k, c). (k, mask_member (policy_key custom) placeholder k c)) ms = ms)"
    using JObject.IH by (intro pushes_fold_members) blast
  then have S: "?S (JObject ms)"
    by (rule pushes_cong) (simp_all add: snd_walk_schema)
  have D: "pushes (fold (\<lambda>(k, c). step_definition (policy_key custom) (audit_visit custom) k c) ms)
      (map (\<lambda>(k, c). (k, mask_definition (policy_key custom) placeholder k c)) ms = ms)"
    using JObject.IH by (intro pushes_fold_members pushes_definition) blast
  have E: "pushes (fold (\<lambda>(k, c). step_dependency (policy_key custom) (audit_visit custom) key k c) ms)
      (map (\<lambda>(k, c). (k, mask_dependency (policy_key custom) placeholder key k c)) ms = ms)" for key
    using JObject.IH by (intro pushes_fold_members pushes_dependency) blast
  have "?M k (JObject ms)" for k
  proof (cases "policy_key custom k")
    case True
    then show ?thesis
      by (intro pushes_cong[OF pushes_visit[of custom k "JObject ms"]])
        (simp_all add: snd_schema_member mask_member_role mask_value_def)
  next
    case False
    consider "container_role k (JObject ms) = Definitions ms" | "container_role k (JObject ms) = Subschema"
      | "container_role k (JObject ms) = Dependencies ms" | "container_role k (JObject ms) = Visited"
      by (cases "k \<in> set schema_map_keys"; cases "k \<in> set single_schema_keys";
          cases "k \<in> set dependency_keys") simp_all
    then show ?thesis
    proof cases
      case 1
      with False show ?thesis
        by (intro pushes_cong[OF D]) (simp_all add: snd_schema_member mask_member_role)
    next
      case 2
      with False show ?thesis
        by (intro pushes_cong[OF S]) (simp_all add: snd_schema_member mask_member_role)
    next
      case 3
      with False show ?thesis
        by (intro pushes_cong[OF E[of k]]) (simp_all add: snd_schema_member mask_member_role)
    next
      case 4
      with False show ?thesis
        by (intro pushes_cong[OF pushes_visit[of custom k "JObject ms"]])
          (simp_all add: snd_schema_member mask_member_role mask_value_def)
    qed
  qed
  with S show ?case by simp
next
  case (JArray xs)
  have D: "pushes (fold (step_definition (policy_key custom) (audit_visit custom) k) xs)
      (map (mask_definition (policy_key custom) placeholder k) xs = xs)" for k
    using JArray.IH by (intro pushes_fold pushes_definition) blast
  have "?M k (JArray xs)" for k
  proof (cases "\<not> policy_key custom k \<and> k \<in> set schema_list_keys")
    case True
    then show ?thesis
      by (intro pushes_cong[OF D[of k]]) (simp_all add: snd_schema_member mask_member_role)
  next
    case False
    then show ?thesis
      by (intro pushes_cong[OF pushes_visit[of custom k "JArray xs"]])
        (auto simp: snd_schema_member mask_member_role mask_value_def)
  qed
  moreover have "?S (JArray xs)"
    by (rule pushes_cong[OF pushes_visit[of custom "[]" "JArray xs"]]) (simp_all add: snd_walk_schema)
  ultimately show ?case by simp
next
  case (JBool b)
  have "?M k (JBool b)" for k
    by (rule pushes_cong[OF pushes_visit[of custom k "JBool b"]])
      (auto simp: snd_schema_member snd_walk_schema mask_member_role mask_value_def
        push_if_unredacted.simps collect_unredacted.simps)
  moreover have "?S (JBool b)" by (simp add: pushes_def snd_walk_schema)
  ultimately show ?case by simp
qed (auto intro: pushes_cong[OF pushes_visit]
      simp: snd_walk_schema snd_schema_member mask_member_role mask_value_def)

section \<open>Messages\<close>

lemma pushes_tool:
  "pushes (collect_unredacted_tool_definition custom v)
     (walk_tool_definition_by (policy_key custom) placeholder v = v)"
proof (cases "is_object v")
  case True
  then obtain ms where v: "v = JObject ms" by (cases v) (simp_all add: is_object_def)
  let ?g = "\<lambda>k c. if policy_key custom k then JString REDACTED_PLACEHOLDER
    else if is_mcp_tool_schema_key k
    then fst (walk_schema (policy_key custom) (schema_visit (policy_key custom) placeholder) c ())
    else walk_by (policy_key custom) placeholder c"
  have "pushes (collect_tool_member custom (k, c)) (?g k c = c)" for k c
  proof (cases "is_mcp_tool_schema_key k \<and> \<not> policy_key custom k")
    case True
    then show ?thesis
      by (intro pushes_cong[OF pushes_schema_member[THEN conjunct1, of custom c]])
        (simp_all add: collect_tool_member_def mask_schema_def)
  next
    case False
    then show ?thesis
      by (intro pushes_cong[OF pushes_visit[of custom k c]])
        (auto simp: collect_tool_member_def mask_value_def)
  qed
  then have "pushes (fold (\<lambda>(k, c). collect_tool_member custom (k, c)) ms)
      (map (\<lambda>(k, c). (k, ?g k c)) ms = ms)"
    by (rule pushes_fold_members)
  then show ?thesis
    by (rule pushes_cong)
      (simp_all add: v collect_unredacted_tool_definition_def walk_tool_definition_by_def)
next
  case False
  then show ?thesis
    by (intro pushes_cong[OF pushes_collect[of custom v]])
      (auto simp: walk_not_object collect_unredacted_tool_definition_def is_object_def split: json.splits)
qed

lemma pushes_result:
  "pushes (collect_unredacted_result custom v)
     (walk_result_by (policy_key custom) placeholder v = v)"
proof (cases "is_object v")
  case True
  then obtain ms where v: "v = JObject ms" by (cases v) (simp_all add: is_object_def)
  let ?g = "\<lambda>k c. if k = ''tools'' \<and> \<not> policy_key custom k \<and> is_array c
    then (case c of
            JArray tools \<Rightarrow> JArray (map (walk_tool_definition_by (policy_key custom) placeholder) tools)
          | _ \<Rightarrow> c)
    else if policy_key custom k then JString REDACTED_PLACEHOLDER
    else walk_by (policy_key custom) placeholder c"
  have "pushes (collect_result_member custom (k, c)) (?g k c = c)" for k c
  proof (cases "k = ''tools'' \<and> \<not> policy_key custom k \<and> is_array c")
    case True
    then obtain tools where c: "c = JArray tools" by (cases c) (simp_all add: is_array_def)
    have "pushes (fold (collect_unredacted_tool_definition custom) tools)
        (map (walk_tool_definition_by (policy_key custom) placeholder) tools = tools)"
      by (rule pushes_fold) (rule pushes_tool)
    then show ?thesis
      by (rule pushes_cong) (use True c in \<open>auto simp: collect_result_member_def\<close>)
  next
    case False
    then show ?thesis
      by (intro pushes_cong[OF pushes_visit[of custom k c]])
        (auto simp: collect_result_member_def mask_value_def)
  qed
  then have "pushes (fold (\<lambda>(k, c). collect_result_member custom (k, c)) ms)
      (map (\<lambda>(k, c). (k, ?g k c)) ms = ms)"
    by (rule pushes_fold_members)
  then show ?thesis
    by (rule pushes_cong) (simp_all add: v collect_unredacted_result_def walk_result_by_def)
next
  case False
  then show ?thesis
    by (intro pushes_cong[OF pushes_collect[of custom v]])
      (auto simp: walk_not_object collect_unredacted_result_def is_object_def split: json.splits)
qed

lemma pushes_message:
  "pushes (collect_unredacted_message custom ctx v)
     (walk_message_by (policy_key custom) placeholder ctx v = v)"
proof (cases "is_object v")
  case True
  then obtain ms where v: "v = JObject ms" by (cases v) (simp_all add: is_object_def)
  let ?g = "\<lambda>k c. if policy_key custom k then JString REDACTED_PLACEHOLDER
    else if k = ''result'' \<and> ctx = ToolListResponse
    then walk_result_by (policy_key custom) placeholder c
    else walk_by (policy_key custom) placeholder c"
  have "pushes (collect_message_member custom ctx (k, c)) (?g k c = c)" for k c
  proof (cases "k = ''result'' \<and> ctx = ToolListResponse \<and> \<not> policy_key custom k")
    case True
    then show ?thesis
      by (intro pushes_cong[OF pushes_result[of custom c]]) (auto simp: collect_message_member_def)
  next
    case False
    then show ?thesis
      by (intro pushes_cong[OF pushes_visit[of custom k c]])
        (auto simp: collect_message_member_def mask_value_def)
  qed
  then have "pushes (fold (\<lambda>(k, c). collect_message_member custom ctx (k, c)) ms)
      (map (\<lambda>(k, c). (k, ?g k c)) ms = ms)"
    by (rule pushes_fold_members)
  then show ?thesis
    by (rule pushes_cong) (simp_all add: v collect_unredacted_message_def walk_message_by_def)
next
  case False
  then show ?thesis
    by (intro pushes_cong[OF pushes_collect[of custom v]])
      (auto simp: walk_not_object collect_unredacted_message_def is_object_def split: json.splits)
qed

end
