(* ===== verification/RedactProps.thy ===== *)
theory RedactProps
  imports RedactAudit
begin

text \<open>
  The properties of redaction: both replacements of the source satisfy the laws of
  \<^theory_text>\<open>RedactMasking\<close>, a policy built from the command line or read back from storage makes the
  redactor and the audit test the same keys, and what a redacted copy reveals is characterised
  exactly.
\<close>

section \<open>Keys and policies\<close>

lemma lowercase_alphanumeric:
  "is_ascii_alphanumeric c \<Longrightarrow> is_ascii_alphanumeric (to_ascii_lowercase c)"
  by (auto simp: is_ascii_alphanumeric_def to_ascii_lowercase_def is_ascii_upper_def is_ascii_lower_def)

lemma lowercase_idem: "to_ascii_lowercase (to_ascii_lowercase c) = to_ascii_lowercase c"
  by (auto simp: to_ascii_lowercase_def is_ascii_upper_def)

lemma normalize_key_idem [simp]: "normalize_key (normalize_key key) = normalize_key key"
proof -
  have "filter is_ascii_alphanumeric (normalize_key key) = normalize_key key"
    by (auto simp: normalize_key_def lowercase_alphanumeric intro: filter_True)
  then show ?thesis by (simp add: normalize_key_def lowercase_idem)
qed

lemma sensitive_key_normalize: "is_sensitive_key (normalize_key key) = is_sensitive_key key"
  by (simp add: is_sensitive_key_def)

lemma policy_key_empty [simp]: "\<not> matches_policy_sensitive_key [] custom"
  by (simp add: matches_policy_sensitive_key_def is_sensitive_key_def normalize_key_def)

text \<open>What validation of the command line guarantees of a policy's key list.\<close>

fun policy_ok :: "redaction_policy \<Rightarrow> bool" where
  "policy_ok (PolicyCustom keys) \<longleftrightarrow>
     keys \<noteq> [] \<and> [] \<notin> set keys \<and> (\<forall>k \<in> set keys. normalize_key k = k)
     \<and> sorted keys \<and> distinct keys"
| "policy_ok _ \<longleftrightarrow> True"

lemma sorted_dedup: "sorted xs \<Longrightarrow> sorted (remdups_adj xs) \<and> distinct (remdups_adj xs)"
  for xs :: "'a::linorder list"
  by (induction xs rule: remdups_adj.induct) (auto simp: less_le)

lemma normalized_keys_ok:
  assumes "ks = remdups_adj (sort (filter (\<lambda>key. key \<noteq> []) (map normalize_key extra)))" "ks \<noteq> []"
  shows "policy_ok (PolicyCustom ks)"
  using assms sorted_dedup[OF sorted_sort, of "filter (\<lambda>key. key \<noteq> []) (map normalize_key extra)"]
  by auto

lemma from_cli_ok: "policy_from_cli name extra = Inr p \<Longrightarrow> policy_ok p"
  using normalized_keys_ok
  by (auto simp: policy_from_cli_def policy_from_name_def Let_def
      split: option.splits if_splits simp del: policy_ok.simps(1))

lemma from_storage_ok: "policy_from_storage name extra = Inr p \<Longrightarrow> policy_ok p"
  by (auto simp: policy_from_storage_def from_cli_ok split: if_splits)

lemma redactor_keys:
  assumes "policy_ok p"
  shows "redactor_sensitive (redactor_new p) = policy_key (policy_custom_keys p)"
proof (cases p)
  case (PolicyCustom ks)
  with assms have "filter (\<lambda>key. key \<noteq> []) (map normalize_key ks) = ks"
    by (auto intro!: filter_True simp: map_idI)
  with PolicyCustom show ?thesis by (simp add: redactor_sensitive_def redactor_new_def fun_eq_iff)
qed (simp_all add: redactor_sensitive_def redactor_new_def fun_eq_iff)

lemma redactor_empty_key [simp]: "\<not> redactor_sensitive r []"
  by (simp add: redactor_sensitive_def)

lemma redactor_new_fields [simp]:
  "rd_placeholder (redactor_new p) = JString REDACTED_PLACEHOLDER"
  "is_active (redactor_new p) \<longleftrightarrow> p \<noteq> PolicyNone"
  by (simp_all add: redactor_new_def is_active_def)

section \<open>Both replacements are maskings\<close>

text \<open>A masking reveals of a masked value what \<open>rel\<close> tells apart, and nothing else.\<close>

locale exact_masking = shaped_masking +
  assumes repl_exact: "repl v = repl w \<longleftrightarrow> rel v w"
begin

lemma members_exact:
  assumes "\<And>k c w. (k, c) \<in> set ms \<Longrightarrow> (walk_by sens repl c = walk_by sens repl w \<longleftrightarrow> same_upto sens rel c w)"
  shows "map (\<lambda>(k, c). (k, if sens k then repl c else walk_by sens repl c)) ms
       = map (\<lambda>(k, c). (k, if sens k then repl c else walk_by sens repl c)) ns
     \<longleftrightarrow> same_upto_members sens rel ms ns"
  using assms
proof (induction ms arbitrary: ns)
  case (Cons e ms)
  obtain k c where e: "e = (k, c)" by (cases e)
  show ?case
  proof (cases ns)
    case (Cons e' ns')
    obtain k' c' where "e' = (k', c')" by (cases e')
    with Cons e Cons.IH[of ns'] Cons.prems show ?thesis by (auto simp: repl_exact)
  qed (simp add: e)
qed auto

lemma items_exact:
  assumes "\<And>x y. x \<in> set xs \<Longrightarrow> (walk_by sens repl x = walk_by sens repl y \<longleftrightarrow> same_upto sens rel x y)"
  shows "map (walk_by sens repl) xs = map (walk_by sens repl) ys \<longleftrightarrow> same_upto_items sens rel xs ys"
  using assms
proof (induction xs arbitrary: ys)
  case (Cons x xs)
  then show ?case by (cases ys) auto
qed auto

lemma walk_exact: "walk_by sens repl v = walk_by sens repl w \<longleftrightarrow> same_upto sens rel v w"
proof (induction v arbitrary: w rule: json_induct)
  case (JArray xs)
  then show ?case by (cases w) (simp_all add: items_exact)
next
  case (JObject ms)
  then show ?case by (cases w) (simp_all add: members_exact)
qed (case_tac w; auto)+

lemma runtime_exact:
  "walk_message_by sens repl Runtime v = walk_message_by sens repl Runtime w \<longleftrightarrow> same_upto sens rel v w"
proof -
  have "walk_message_by sens repl Runtime u = walk_by sens repl u" for u
    by (cases u) (auto simp: walk_message_by_def)
  then show ?thesis by (simp add: walk_exact)
qed

end

definition same_kind :: "json \<Rightarrow> json \<Rightarrow> bool" where
  "same_kind v w \<longleftrightarrow> json_kind v = json_kind w"

interpretation plain: exact_masking "redactor_sensitive r" placeholder "\<lambda>_ _. True" for r
  by unfold_locales simp_all

lemma typed_exact: "redact_value_typed v = redact_value_typed w \<longleftrightarrow> json_kind v = json_kind w"
  by (cases v; cases w) simp_all

lemma typed_idem: "redact_value_typed (redact_value_typed v) = redact_value_typed v"
  by (cases v) simp_all

interpretation typed: exact_masking "redactor_sensitive r" redact_value_typed same_kind for r
proof unfold_locales
  fix v :: json
  show "\<not> is_schema v \<Longrightarrow> \<not> is_schema (redact_value_typed v)" by (cases v) simp_all
qed (simp_all add: same_kind_def typed_exact typed_idem)

lemma sort_Nil_iff: "sort xs = [] \<longleftrightarrow> xs = []"
  by (metis set_empty set_sort)

section \<open>Properties\<close>

text \<open>The audit of a payload passes exactly when redacting it would change nothing.\<close>

lemma audit_noop:
  assumes "policy_ok policy"
  shows "unredacted_sensitive_keys_with_context u policy ctx = []
     \<longleftrightarrow> redact_with_context (redactor_new policy) u ctx = u"
  using pushes_message[of "policy_custom_keys policy" ctx u]
  by (auto simp: unredacted_sensitive_keys_with_context_def redact_with_context_def
      walk_message_def redactor_keys[OF assms] pushes_def sort_Nil_iff)

lemma redact_idem:
  "redact_with_context (redactor_new policy) (redact_with_context (redactor_new policy) u ctx) ctx
     = redact_with_context (redactor_new policy) u ctx"
  by (simp add: redact_with_context_def walk_message_def plain.message_idem)

lemma policy_name_from_storage:
  "policy_from_storage name keys = Inr policy \<Longrightarrow> policy_as_str policy = name"
  by (auto simp: policy_from_storage_def policy_from_cli_def policy_from_name_def Let_def
      split: if_splits option.splits)

text \<open>
  C5: The audit and the redactor agree: for every policy the command line or a stored session
  yields, and in either context, the audit of a payload finds no unmasked key exactly when redacting
  the payload would not change it, redacting is idempotent, and so a redacted payload always passes.
\<close>

theorem redaction_passes_audit:
  assumes "policy_from_cli name extra = Inr policy \<or> policy_from_storage name extra = Inr policy"
  shows "(unredacted_sensitive_keys_with_context v policy ctx = []
            \<longleftrightarrow> redact_with_context (redactor_new policy) v ctx = v)
       \<and> redact_with_context (redactor_new policy) (redact_with_context (redactor_new policy) v ctx) ctx
           = redact_with_context (redactor_new policy) v ctx
       \<and> unredacted_sensitive_keys_with_context
           (redact_with_context (redactor_new policy) v ctx) policy ctx = []"
proof -
  from assms have "policy_ok policy" using from_cli_ok from_storage_ok by blast
  then show ?thesis by (simp add: audit_noop redact_idem)
qed

lemma redaction_passes_audit_witness:
  "unredacted_sensitive_keys_with_context
     (redact_with_context (redactor_new PolicyDefault)
        (JObject [(''result'', JObject [(''apiKey'', JString ''k-1'')])]) Runtime) PolicyDefault Runtime = []"
  using redaction_passes_audit[of "''default''" "[]" PolicyDefault
      "JObject [(''result'', JObject [(''apiKey'', JString ''k-1'')])]" Runtime]
  by (simp add: policy_from_cli_def policy_from_name_def)

text \<open>
  C14: What a redacted copy reveals: two payloads redact to the same copy exactly when they
  agree outside the values of sensitive keys, so nothing below such a key can be learnt and
  everything else is kept; and in either context the copy differs from the payload only below
  sensitive keys.  The policy \<open>none\<close> copies verbatim.
\<close>

theorem redaction_hides_exactly:
  "(redact (redactor_new policy) v = redact (redactor_new policy) w
      \<longleftrightarrow> (if policy = PolicyNone then v = w
           else same_upto (redactor_sensitive (redactor_new policy)) (\<lambda>_ _. True) v w))
   \<and> same_upto (redactor_sensitive (redactor_new policy)) (\<lambda>_ _. True)
        v (redact_with_context (redactor_new policy) v ctx)
   \<and> redact_with_context (redactor_new PolicyNone) v ctx = v"
  by (simp add: redact_def redact_with_context_def walk_message_def plain.runtime_exact
      plain.same_message plain.same_refl)

text \<open>
  C33: Type-preserving redaction keeps every payload's shape: the copy has the same keys in the same
  order, the same array lengths and the same JSON kind everywhere it was kept, a masked value has
  the kind of the original, and the kind is all that a masked value reveals.
\<close>

theorem typed_redaction_preserves_types:
  "same_upto (redactor_sensitive r) same_kind v (redact_preserving_types_with_context r v ctx)
   \<and> same_kind v (redact_preserving_types r v)
   \<and> redact_preserving_types_with_context r (redact_preserving_types_with_context r v ctx) ctx
       = redact_preserving_types_with_context r v ctx
   \<and> (redact_preserving_types r v = redact_preserving_types r w
        \<longleftrightarrow> (if is_active r then same_upto (redactor_sensitive r) same_kind v w else v = w))"
proof -
  have "json_kind (walk_message_by sens redact_value_typed Runtime v) = json_kind v" for sens
    by (cases v) (simp_all add: walk_message_by_def)
  then show ?thesis
    by (simp add: redact_preserving_types_def redact_preserving_types_with_context_def
        walk_message_typed_def typed.same_message typed.same_refl typed.message_idem
        typed.runtime_exact same_kind_def)
qed

text \<open>
  A policy survives storage: the name and the key list that the session row keeps rebuild the
  policy, and under it a key is masked exactly when the default rules say so or its normal form is
  that of a key the user named.
\<close>

theorem policy_roundtrip:
  assumes "policy_from_cli name extra = Inr policy"
  shows "policy_from_storage (policy_as_str policy) (policy_custom_keys policy) = Inr policy
       \<and> (redactor_sensitive (redactor_new policy) key
            \<longleftrightarrow> is_sensitive_key key
                \<or> (normalize_key key \<noteq> [] \<and> normalize_key key \<in> normalize_key ` set extra))"
proof -
  from assms have ok: "policy_ok policy" by (rule from_cli_ok)
  have keys: "set (policy_custom_keys policy) = normalize_key ` set extra - {[]}"
    using assms
    by (auto simp: policy_from_cli_def policy_from_name_def Let_def split: option.splits if_splits)
  have "policy_from_storage (policy_as_str policy) (policy_custom_keys policy) = Inr policy"
  proof (cases policy)
    case (PolicyCustom ks)
    with ok have "filter (\<lambda>key. key \<noteq> []) (map normalize_key ks) = ks"
      by (auto intro!: filter_True simp: map_idI)
    with PolicyCustom ok show ?thesis
      by (simp add: policy_from_storage_def policy_from_cli_def policy_from_name_def
          sorted_sort_id remdups_adj_distinct)
  qed (simp_all add: policy_from_storage_def)
  then show ?thesis
    by (auto simp: redactor_keys[OF ok] matches_policy_sensitive_key_def keys list_ex_iff Let_def)
qed

lemma policy_roundtrip_witness:
  "policy_from_storage ''custom'' [''x'', ''y''] = Inr (PolicyCustom [''x'', ''y''])"
proof -
  have "policy_from_cli ''default'' [''Y'', ''-x-'', ''y''] = Inr (PolicyCustom [''x'', ''y''])"
    by code_simp
  from policy_roundtrip[OF this] show ?thesis by simp
qed

end
