(* ===== verification/TrackerProps.thy ===== *)
theory TrackerProps
  imports RedactContext
begin

text \<open>
  The context tracker as a state machine: a step relation over the messages it observes, the bound
  on what it retains, and the evidence behind every entry of its set of open requests.
\<close>

type_synonym recorded = "u64 \<times> string \<times> json"

inductive tracker_run :: "serde \<Rightarrow> recorded list \<Rightarrow> tracker \<Rightarrow> bool" for S where
  start: "tracker_run S [] tracker_default"
| step: "tracker_run S ms t
    \<Longrightarrow> tracker_run S (ms @ [(seq, direction, payload)]) (snd (observe S t seq direction payload))"

lemma observe_all_append:
  "observe_all S t (xs @ ys) =
     (let (cs, t1) = observe_all S t xs; (ds, t2) = observe_all S t1 ys in (cs @ ds, t2))"
  by (induction xs arbitrary: t) (auto split: prod.splits)

lemma tracker_run_all: "tracker_run S ms (snd (observe_all S tracker_default ms))"
proof (induction ms rule: rev_induct)
  case Nil
  show ?case by (simp add: tracker_run.start)
next
  case (snoc m ms)
  obtain seq direction payload where "m = (seq, direction, payload)" by (cases m)
  with tracker_run.step[OF snoc, of seq direction payload] show ?case
    by (simp add: observe_all_append case_prod_beta)
qed

section \<open>One step\<close>

text \<open>The request key of a message: who asked, and the printed identifier.\<close>

definition request_key :: "serde \<Rightarrow> string \<Rightarrow> json \<Rightarrow> (bool \<times> string) option" where
  "request_key S direction payload =
     (case (responder_of direction, tracked_id payload) of
        (Some responder, Some rid) \<Rightarrow>
          if is_oversized_id S rid then None
          else Some (if json_get payload ''method'' \<noteq> None then \<not> responder else responder,
                     print_json S rid)
      | _ \<Rightarrow> None)"

definition opens :: "serde \<Rightarrow> recorded \<Rightarrow> bool \<times> string \<Rightarrow> bool" where
  "opens S m key = (case m of (seq, direction, payload) \<Rightarrow>
     is_list_request payload \<and> request_key S direction payload = Some key)"

lemma list_request_method: "is_list_request payload \<Longrightarrow> json_get payload ''method'' \<noteq> None"
  by (auto simp: is_list_request_def split: Option.bind_splits)

lemmas observe_defs =
  observe_def enter_message_def observe_request_def observe_response_def request_key_def Let_def

text \<open>What one message does to the set of open requests.\<close>

lemma observe_pending:
  assumes "key \<in> tr_pending (snd (observe S t seq direction payload))"
  shows "opens S (seq, direction, payload) key
       \<or> (key \<in> tr_pending t \<and> \<not> is_gap (tr_previous_seq t) seq \<and> responder_of direction \<noteq> None
          \<and> request_key S direction payload \<noteq> Some key)"
  using assms
  by (auto simp: observe_defs opens_def split: option.splits if_splits)

lemma observe_previous: "tr_previous_seq (snd (observe S t seq direction payload)) = Some seq"
  by (auto simp: observe_defs split: option.splits)

lemma observe_bounded:
  assumes "finite (tr_pending t)" "card (tr_pending t) \<le> MAX_PENDING_LIST_REQUESTS"
  shows "finite (tr_pending (snd (observe S t seq direction payload)))
       \<and> card (tr_pending (snd (observe S t seq direction payload))) \<le> MAX_PENDING_LIST_REQUESTS"
proof -
  let ?e = "enter_message t seq"
  have e: "finite (tr_pending ?e)" "card (tr_pending ?e) \<le> MAX_PENDING_LIST_REQUESTS"
    using assms by (simp_all add: enter_message_def)
  have del: "finite (tr_pending ?e - {k})" "card (tr_pending ?e - {k}) \<le> MAX_PENDING_LIST_REQUESTS" for k
    using e card_Diff1_le[of "tr_pending ?e" k] by simp_all
  have req: "finite (tr_pending (observe_request ?e k l))
      \<and> card (tr_pending (observe_request ?e k l)) \<le> MAX_PENDING_LIST_REQUESTS" for k l
    using del[of k] by (auto simp: observe_request_def Let_def card_insert_if)
  show ?thesis
    using e del req
    by (auto simp: observe_def observe_response_def Let_def split: option.splits)
qed

lemma observe_granted:
  assumes "fst (observe S t seq direction payload) = ToolListResponse"
  obtains key where "request_key S direction payload = Some key" "key \<in> tr_pending t"
    "\<not> is_gap (tr_previous_seq t) seq" "json_get payload ''method'' = None"
    "json_get payload ''result'' \<noteq> None" "json_get payload ''error'' = None" "is_version_2 payload"
  using assms
  by (auto simp: observe_defs split: option.splits if_splits)

section \<open>The evidence behind an open request\<close>

text \<open>
  A list of messages without a gap: every sequence number is the successor of the one before, and
  no successor wraps.
\<close>

fun contiguous :: "recorded list \<Rightarrow> bool" where
  "contiguous [] \<longleftrightarrow> True"
| "contiguous [m] \<longleftrightarrow> True"
| "contiguous (m # n # ms) \<longleftrightarrow> fst n = Suc (fst m) \<and> fst n \<le> u64_max \<and> contiguous (n # ms)"

lemma contiguous_snoc:
  "contiguous (ms @ [m, n]) \<longleftrightarrow> contiguous (ms @ [m]) \<and> fst n = Suc (fst m) \<and> fst n \<le> u64_max"
  by (induction ms rule: contiguous.induct) auto

definition untouched :: "serde \<Rightarrow> bool \<times> string \<Rightarrow> recorded \<Rightarrow> bool" where
  "untouched S key m = (case m of (seq, direction, payload) \<Rightarrow>
     responder_of direction \<noteq> None \<and> request_key S direction payload \<noteq> Some key)"

definition open_since :: "serde \<Rightarrow> recorded list \<Rightarrow> bool \<times> string \<Rightarrow> bool" where
  "open_since S ms key \<longleftrightarrow>
     (\<exists>before m after. ms = before @ m # after \<and> opens S m key
        \<and> list_all (untouched S key) after \<and> contiguous (m # after))"

lemma run_previous:
  "tracker_run S ms t \<Longrightarrow> tr_previous_seq t = (if ms = [] then None else Some (fst (List.last ms)))"
  by (induction rule: tracker_run.induct) (simp_all add: tracker_default_def observe_previous)

lemma run_bounded:
  "tracker_run S ms t
   \<Longrightarrow> finite (tr_pending t) \<and> card (tr_pending t) \<le> MAX_PENDING_LIST_REQUESTS"
proof (induction rule: tracker_run.induct)
  case (step ms t seq direction payload)
  then show ?case using observe_bounded by blast
qed (simp add: tracker_default_def)

lemma gap_free:
  "\<not> is_gap (Some p) seq \<longleftrightarrow> seq = Suc p \<and> seq \<le> u64_max"
  by (auto simp: is_gap_def u64_checked_add_def)

lemma open_since_snoc:
  assumes "open_since S ms key" "untouched S key (seq, direction, payload)"
    and "\<not> is_gap (Some (fst (List.last ms))) seq"
  shows "open_since S (ms @ [(seq, direction, payload)]) key"
proof -
  from assms(1) obtain before m after where *: "ms = before @ m # after" "opens S m key"
    "list_all (untouched S key) after" "contiguous (m # after)"
    by (auto simp: open_since_def)
  have "contiguous ((m # after) @ [(seq, direction, payload)])"
  proof (cases after rule: rev_cases)
    case Nil
    with assms(3) * show ?thesis by (simp add: gap_free)
  next
    case (snoc as a)
    then show ?thesis
      using assms(3) * contiguous_snoc[of "m # as" a "(seq, direction, payload)"]
      by (simp add: gap_free)
  qed
  with * assms(2) show ?thesis
    unfolding open_since_def
    by (intro exI[of _ before] exI[of _ m] exI[of _ "after @ [(seq, direction, payload)]"]) simp
qed

lemma run_open:
  "tracker_run S ms t \<Longrightarrow> key \<in> tr_pending t \<Longrightarrow> open_since S ms key"
proof (induction arbitrary: key rule: tracker_run.induct)
  case start
  then show ?case by (simp add: tracker_default_def)
next
  case (step ms t seq direction payload)
  from observe_pending[OF step.prems] show ?case
  proof (elim disjE conjE)
    assume "opens S (seq, direction, payload) key"
    then show ?case
      unfolding open_since_def
      by (intro exI[of _ ms] exI[of _ "(seq, direction, payload)"] exI[of _ "[]"]) simp
  next
    assume *: "key \<in> tr_pending t" "\<not> is_gap (tr_previous_seq t) seq"
      "responder_of direction \<noteq> None" "request_key S direction payload \<noteq> Some key"
    from step.IH[OF *(1)] have o: "open_since S ms key" .
    then have "ms \<noteq> []" by (auto simp: open_since_def)
    with run_previous[OF step.hyps] have "tr_previous_seq t = Some (fst (List.last ms))" by simp
    with * o show ?case by (intro open_since_snoc) (simp_all add: untouched_def)
  qed
qed

section \<open>Property\<close>

text \<open>
  C34: The schema exemption is granted only on evidence, and the tracker is bounded: after any
  recording at most 4096 requests are open, and a message is treated as a tool listing only if it
  is a JSON-RPC 2.0 result whose identifier was opened by a \<open>tools/list\<close> request of the other side,
  with no gap in the sequence, no message of unknown direction and no reuse of the identifier in
  between.
\<close>

theorem tracker_evidence:
  assumes "observe_all S tracker_default ms = (contexts, t)"
  shows "card (tr_pending t) \<le> MAX_PENDING_LIST_REQUESTS \<and>
    (fst (observe S t seq direction payload) = ToolListResponse \<longrightarrow>
       (\<exists>key before m after. request_key S direction payload = Some key
          \<and> ms = before @ m # after \<and> opens S m key
          \<and> list_all (untouched S key) after
          \<and> contiguous (m # after @ [(seq, direction, payload)])
          \<and> json_get payload ''method'' = None \<and> json_get payload ''result'' \<noteq> None
          \<and> json_get payload ''error'' = None \<and> is_version_2 payload))"
proof -
  have run: "tracker_run S ms t" using tracker_run_all[of S ms] assms by simp
  have "\<exists>key before m after. request_key S direction payload = Some key
          \<and> ms = before @ m # after \<and> opens S m key
          \<and> list_all (untouched S key) after
          \<and> contiguous (m # after @ [(seq, direction, payload)])
          \<and> json_get payload ''method'' = None \<and> json_get payload ''result'' \<noteq> None
          \<and> json_get payload ''error'' = None \<and> is_version_2 payload"
    if granted: "fst (observe S t seq direction payload) = ToolListResponse"
  proof -
    obtain key where key: "request_key S direction payload = Some key" "key \<in> tr_pending t"
      "\<not> is_gap (tr_previous_seq t) seq" "json_get payload ''method'' = None"
      "json_get payload ''result'' \<noteq> None" "json_get payload ''error'' = None" "is_version_2 payload"
      using observe_granted[OF granted] .
    from run_open[OF run key(2)] obtain before m after where *: "ms = before @ m # after"
      "opens S m key" "list_all (untouched S key) after" "contiguous (m # after)"
      by (auto simp: open_since_def)
    then have "tr_previous_seq t = Some (fst (List.last (m # after)))"
      using run_previous[OF run] by simp
    with key(3) have seq: "seq = Suc (fst (List.last (m # after))) \<and> seq \<le> u64_max"
      by (simp add: gap_free del: last.simps)
    have "contiguous (m # after @ [(seq, direction, payload)])"
    proof (cases after rule: rev_cases)
      case (snoc as a)
      with * seq show ?thesis
        using contiguous_snoc[of "m # as" a "(seq, direction, payload)"] by simp
    qed (use seq in simp)
    with key * show ?thesis by blast
  qed
  with run_bounded[OF run] show ?thesis by blast
qed

text \<open>A listing exchange, with a printer that is constant on its one identifier.\<close>

definition list_request :: json where
  "list_request = JObject [(''id'', JNumber (PosInt 7)), (''jsonrpc'', JString ''2.0''),
      (''method'', JString ''tools/list'')]"

definition list_response :: json where
  "list_response = JObject [(''id'', JNumber (PosInt 7)), (''jsonrpc'', JString ''2.0''),
      (''result'', JObject [])]"

definition seven :: serde where
  "seven = \<lparr>parse_json = \<lambda>_. None, print_json = \<lambda>_. ''7'', json_pointer = \<lambda>_ _. None,
      sha256_digest = \<lambda>_. []\<rparr>"

lemma tracker_evidence_witness:
  "\<exists>key before m after. [(0, ''c2s'', list_request)] = before @ m # after \<and> opens seven m key
      \<and> contiguous (m # after @ [(1, ''s2c'', list_response)])"
proof -
  have run: "observe_all seven tracker_default [(0, ''c2s'', list_request)]
      = ([Runtime], \<lparr>tr_pending = {(True, ''7'')}, tr_previous_seq = Some 0, tr_lost_context = False\<rparr>)"
    by (simp add: seven_def list_request_def observe_defs tracker_default_def is_gap_def responder_of_def
        tracked_id_def bt_get_def is_oversized_id_def is_list_request_def is_version_2_def
        MAX_TRACKED_ID_BYTES_def MAX_PENDING_LIST_REQUESTS_def)
  have "fst (observe seven \<lparr>tr_pending = {(True, ''7'')}, tr_previous_seq = Some 0, tr_lost_context = False\<rparr>
      1 ''s2c'' list_response) = ToolListResponse"
    by (simp add: seven_def list_response_def observe_defs is_gap_def responder_of_def u64_checked_add_def
        u64_max_def tracked_id_def bt_get_def is_oversized_id_def is_version_2_def
        MAX_TRACKED_ID_BYTES_def)
  with tracker_evidence[OF run, of 1 "''s2c''" list_response] show ?thesis by blast
qed

end
