(* ===== verification/Lint.thy ===== *)
theory Lint
  imports Redact "HOL-Library.Product_Lexorder"
begin

text \<open>
  The pre-export lint of \<open>crates/mcptracer-redact/src/lib.rs\<close> (\<open>sensitive_content_lint\<close>): the
  patterns it looks for in string leaves, the walk that builds JSON pointers in one shared buffer,
  and the exact set of findings it reports.
\<close>

section \<open>Categories\<close>

datatype sensitive_category = BearerToken | UrlQuerySecret | PemBlock | CommandSecret

text \<open>The derived \<open>Ord\<close>: declaration order.\<close>

fun category_rank :: "sensitive_category \<Rightarrow> nat" where
  "category_rank BearerToken = 0"
| "category_rank UrlQuerySecret = 1"
| "category_rank PemBlock = 2"
| "category_rank CommandSecret = 3"

lemma category_rank_inj: "category_rank a = category_rank b \<Longrightarrow> a = b"
  by (cases a; cases b) simp_all

instantiation sensitive_category :: linorder
begin

definition less_eq_sensitive_category :: "sensitive_category \<Rightarrow> sensitive_category \<Rightarrow> bool" where
  "a \<le> b \<longleftrightarrow> category_rank a \<le> category_rank b"

definition less_sensitive_category :: "sensitive_category \<Rightarrow> sensitive_category \<Rightarrow> bool" where
  "a < b \<longleftrightarrow> category_rank a < category_rank b"

instance
  by standard (auto simp: less_eq_sensitive_category_def less_sensitive_category_def
      dest: category_rank_inj intro: order.antisym)

end

fun category_as_str :: "sensitive_category \<Rightarrow> string" where
  "category_as_str BearerToken = ''bearer_token''"
| "category_as_str UrlQuerySecret = ''url_query_secret''"
| "category_as_str PemBlock = ''pem_block''"
| "category_as_str CommandSecret = ''command_secret''"

record content_finding =
  cf_pointer :: string
  cf_category :: sensitive_category

section \<open>String operations\<close>

text \<open>
  \<open>char::is_whitespace\<close> (the Unicode \<open>White_Space\<close> property), as the UTF-8 encodings of its code
  points; \<open>trim_start\<close> and \<open>trim_end\<close> remove them from either end.
\<close>

definition bytes_of :: "nat list \<Rightarrow> string" where
  "bytes_of ns = map char_of ns"

definition whitespace :: "string list" where
  "whitespace = map bytes_of
     ([[9], [10], [11], [12], [13], [32], [0xC2, 0x85], [0xC2, 0xA0], [0xE1, 0x9A, 0x80]]
      @ map (\<lambda>n. [0xE2, 0x80, n]) [0x80..<0x8B]
      @ [[0xE2, 0x80, 0xA8], [0xE2, 0x80, 0xA9], [0xE2, 0x80, 0xAF], [0xE2, 0x81, 0x9F],
         [0xE3, 0x80, 0x80]])"

definition leading_len :: "string list \<Rightarrow> string \<Rightarrow> nat" where
  "leading_len ws s =
     (case find (\<lambda>w. w \<noteq> [] \<and> prefix w s) ws of Some w \<Rightarrow> length w | None \<Rightarrow> 0)"

lemma leading_len_le: "leading_len ws s \<le> length s"
  by (auto simp: leading_len_def find_Some_iff prefix_length_le split: option.splits)

function trim_with :: "string list \<Rightarrow> string \<Rightarrow> string" where
  "trim_with ws s =
     (if leading_len ws s = 0 then s else trim_with ws (drop (leading_len ws s) s))"
  by pat_completeness auto

termination
proof (relation "measure (\<lambda>(ws, s). length s)")
  fix ws s
  assume "leading_len ws s \<noteq> 0"
  with leading_len_le[of ws s] show "((ws, drop (leading_len ws s) s), ws, s) \<in> measure (\<lambda>(ws, s). length s)"
    by simp
qed simp

declare trim_with.simps [simp del]

definition trim_start :: "string \<Rightarrow> string" where
  "trim_start s = trim_with whitespace s"

definition trim_end :: "string \<Rightarrow> string" where
  "trim_end s = rev (trim_with (map rev whitespace) (rev s))"

definition trim :: "string \<Rightarrow> string" where
  "trim s = trim_end (trim_start s)"

text \<open>\<open>str::split\<close> on characters that satisfy a test: always at least one piece.\<close>

fun split_on :: "(char \<Rightarrow> bool) \<Rightarrow> string \<Rightarrow> string list" where
  "split_on p [] = [[]]"
| "split_on p (c # s) =
     (if p c then [] # split_on p s
      else case split_on p s of [] \<Rightarrow> [[c]] | w # ws \<Rightarrow> (c # w) # ws)"

definition before_char :: "char \<Rightarrow> string \<Rightarrow> string" where
  "before_char c s = takeWhile (\<lambda>x. x \<noteq> c) s"

definition is_ascii_whitespace :: "char \<Rightarrow> bool" where
  "is_ascii_whitespace c \<longleftrightarrow> c \<in> set (bytes_of [9, 10, 12, 13, 32])"

definition split_ascii_whitespace :: "string \<Rightarrow> string list" where
  "split_ascii_whitespace s = filter (\<lambda>w. w \<noteq> []) (split_on is_ascii_whitespace s)"

section \<open>Patterns\<close>

definition plausible_token :: "string \<Rightarrow> bool" where
  "plausible_token rest =
     (let token = trim_start rest in length token \<ge> 8 \<and> CHR 0x0A \<notin> set token)"

definition is_bearer_token :: "string \<Rightarrow> bool" where
  "is_bearer_token s =
     (case strip_prefix ''Bearer '' (trim_start s) of
        Some rest \<Rightarrow> plausible_token rest
      | None \<Rightarrow>
          (case strip_prefix ''bearer '' (map to_ascii_lowercase (trim_start s)) of
             Some rest \<Rightarrow> plausible_token rest
           | None \<Rightarrow> False))"

definition is_pem_block :: "string \<Rightarrow> bool" where
  "is_pem_block s = str_contains s ''-----BEGIN ''"

definition is_url_query_secret :: "string \<Rightarrow> bool" where
  "is_url_query_secret s =
     (case position (\<lambda>c. c = CHR ''?'') s of
        None \<Rightarrow> False
      | Some i \<Rightarrow>
          let query = before_char (CHR ''#'') (drop (i + 1) s)
          in list_ex (\<lambda>pair. let key = trim (before_char (CHR ''='') pair)
                             in key \<noteq> [] \<and> is_sensitive_key key)
               (split_on (\<lambda>c. c = CHR ''&'') query))"

definition is_command_secret :: "string \<Rightarrow> bool" where
  "is_command_secret cmd =
     list_ex (\<lambda>token.
        let stripped = dropWhile (\<lambda>c. c = CHR ''-'') token;
            flag_key = before_char (CHR ''='') stripped
        in CHR ''='' \<in> set stripped \<and> is_sensitive_key flag_key)
       (split_ascii_whitespace cmd)"

section \<open>The walk\<close>

definition leaf_findings :: "string \<Rightarrow> string \<Rightarrow> content_finding list" where
  "leaf_findings s pointer =
     (if s = REDACTED_PLACEHOLDER then []
      else (if is_bearer_token s then [\<lparr>cf_pointer = pointer, cf_category = BearerToken\<rparr>] else [])
         @ (if is_pem_block s then [\<lparr>cf_pointer = pointer, cf_category = PemBlock\<rparr>] else [])
         @ (if is_url_query_secret s then [\<lparr>cf_pointer = pointer, cf_category = UrlQuerySecret\<rparr>] else []))"

text \<open>The buffer and the vector of findings are threaded; \<open>truncate\<close> cuts the buffer back.\<close>

function walk_lint ::
    "json \<Rightarrow> string \<Rightarrow> content_finding list \<Rightarrow> string \<times> content_finding list"
  and walk_lint_members ::
    "(string \<times> json) list \<Rightarrow> nat \<Rightarrow> string \<Rightarrow> content_finding list \<Rightarrow> string \<times> content_finding list"
  and walk_lint_items ::
    "json list \<Rightarrow> nat \<Rightarrow> nat \<Rightarrow> string \<Rightarrow> content_finding list \<Rightarrow> string \<times> content_finding list" where
  "walk_lint value pointer findings =
     (case value of
        JString s \<Rightarrow> (pointer, findings @ leaf_findings s pointer)
      | JObject ms \<Rightarrow> walk_lint_members ms (length pointer) pointer findings
      | JArray items \<Rightarrow> walk_lint_items items 0 (length pointer) pointer findings
      | _ \<Rightarrow> (pointer, findings))"
| "walk_lint_members [] base_len pointer findings = (pointer, findings)"
| "walk_lint_members ((key, child) # ms) base_len pointer findings =
     (let (p, fs) = walk_lint child (pointer @ ''/'' @ escape_pointer_token key) findings
      in walk_lint_members ms base_len (take base_len p) fs)"
| "walk_lint_items [] i base_len pointer findings = (pointer, findings)"
| "walk_lint_items (item # items) i base_len pointer findings =
     (let (p, fs) = walk_lint item (pointer @ ''/'' @ nat_dec i) findings
      in walk_lint_items items (i + 1) base_len (take base_len p) fs)"
  by pat_completeness auto

termination
  by (relation "measure (\<lambda>x. case x of
      Inl (v, _, _) \<Rightarrow> 2 * size v
    | Inr (Inl (ms, _, _, _)) \<Rightarrow> 2 * size_list (size_prod (\<lambda>_. 0) size) ms
    | Inr (Inr (xs, _, _, _, _)) \<Rightarrow> 2 * size_list size xs)") simp_all

declare walk_lint.simps [simp del]

definition finding_key :: "content_finding \<Rightarrow> string \<times> sensitive_category" where
  "finding_key f = (cf_pointer f, cf_category f)"

definition sensitive_content_lint :: "json \<Rightarrow> string option \<Rightarrow> content_finding list" where
  "sensitive_content_lint value command_context =
     (let findings = snd (walk_lint value [] []);
          with_command =
            (case command_context of
               Some cmd \<Rightarrow>
                 if is_command_secret cmd
                 then findings @ [\<lparr>cf_pointer = ''/session/server_command'', cf_category = CommandSecret\<rparr>]
                 else findings
             | None \<Rightarrow> findings)
      in remdups_adj (sort_key finding_key with_command))"

end
