(* ===== verification/LintProps.thy ===== *)
theory LintProps
  imports Lint
begin

text \<open>
  The walk of the lint against its reference: the string leaves of a value with their paths, and
  the findings as exactly the leaves that match a pattern, in strictly increasing order.
\<close>

function string_leaves :: "json \<Rightarrow> (step list \<times> string) list"
  and leaves_members :: "(string \<times> json) list \<Rightarrow> (step list \<times> string) list"
  and leaves_items :: "nat \<Rightarrow> json list \<Rightarrow> (step list \<times> string) list" where
  "string_leaves v =
     (case v of
        JString s \<Rightarrow> [([], s)]
      | JObject ms \<Rightarrow> leaves_members ms
      | JArray xs \<Rightarrow> leaves_items 0 xs
      | _ \<Rightarrow> [])"
| "leaves_members [] = []"
| "leaves_members ((k, c) # ms) =
     map (\<lambda>(ts, s). (Key k # ts, s)) (string_leaves c) @ leaves_members ms"
| "leaves_items i [] = []"
| "leaves_items i (x # xs) =
     map (\<lambda>(ts, s). (Idx i # ts, s)) (string_leaves x) @ leaves_items (Suc i) xs"
  by pat_completeness auto

termination
  by (relation "measure (\<lambda>x. case x of
      Inl v \<Rightarrow> 2 * size v
    | Inr (Inl ms) \<Rightarrow> 2 * size_list (size_prod (\<lambda>_. 0) size) ms
    | Inr (Inr (_, xs)) \<Rightarrow> 2 * size_list size xs)") simp_all

declare string_leaves.simps [simp del]

lemma string_leaves_eqs [simp]:
  "string_leaves (JString s) = [([], s)]" "string_leaves JNull = []" "string_leaves (JBool b) = []"
  "string_leaves (JNumber n) = []" "string_leaves (JObject ms) = leaves_members ms"
  "string_leaves (JArray xs) = leaves_items 0 xs"
  by (simp_all add: string_leaves.simps)

definition findings_at :: "string \<Rightarrow> (step list \<times> string) list \<Rightarrow> content_finding list" where
  "findings_at p leaves = concat (map (\<lambda>(ts, s). leaf_findings s (p @ render ts)) leaves)"

lemma findings_at_simps [simp]:
  "findings_at p [] = []"
  "findings_at p (l # ls) = leaf_findings (snd l) (p @ render (fst l)) @ findings_at p ls"
  "findings_at p (xs @ ys) = findings_at p xs @ findings_at p ys"
  by (simp_all add: findings_at_def case_prod_beta)

lemma findings_at_step:
  "findings_at p (map (\<lambda>(ts, s). (t # ts, s)) ls) = findings_at (p @ render_step t) ls"
  by (induction ls) (auto simp: render_def)

text \<open>The shared buffer always comes back as it was, and the findings are those of the leaves.\<close>

lemma walk_lint_leaves:
  "walk_lint v p fs = (p, fs @ findings_at p (string_leaves v))"
  "walk_lint_members ms (length p) p fs = (p, fs @ findings_at p (leaves_members ms))"
  "walk_lint_items xs i (length p) p fs = (p, fs @ findings_at p (leaves_items i xs))"
proof (induction v and ms and i xs arbitrary: p fs and p fs and p fs
    rule: string_leaves_leaves_members_leaves_items.induct)
  case (1 v)
  then show ?case by (cases v) (simp_all add: walk_lint.simps render_def)
qed (simp_all add: findings_at_step escape_pointer_token_def del: findings_at_simps(2))

section \<open>The leaves are those the paths resolve to\<close>

lemma mem_prefixed:
  "(t # ts, s) \<in> (\<lambda>(ts, s). (u # ts, s)) ` A \<longleftrightarrow> t = u \<and> (ts, s) \<in> A"
  by force

lemma leaves_items_nth:
  "(t # ts, s) \<in> set (leaves_items i xs) \<longleftrightarrow>
     (\<exists>j < length xs. t = Idx (i + j) \<and> (ts, s) \<in> set (string_leaves (xs ! j)))"
proof (induction xs arbitrary: i)
  case (Cons x xs)
  show ?case
    by (auto simp: Cons.IH less_Suc_eq_0_disj mem_prefixed)
qed simp

lemma leaves_members_mem:
  "(t # ts, s) \<in> set (leaves_members ms) \<longleftrightarrow>
     (\<exists>k c. (k, c) \<in> set ms \<and> t = Key k \<and> (ts, s) \<in> set (string_leaves c))"
  by (induction ms) (auto simp: mem_prefixed)

lemma leaves_nonempty:
  "([], s) \<notin> set (leaves_members ms)" "([], s) \<notin> set (leaves_items i xs)"
proof -
  show "([], s) \<notin> set (leaves_members ms)" by (induction ms) auto
  show "([], s) \<notin> set (leaves_items i xs)" by (induction xs arbitrary: i) auto
qed

lemma string_leaves_resolve:
  "json_wf v \<Longrightarrow> (ts, s) \<in> set (string_leaves v) \<longleftrightarrow> resolve v ts = Some (JString s)"
proof (induction v arbitrary: ts rule: json_induct)
  case (JArray xs)
  show ?case
  proof (cases ts)
    case (Cons t us)
    then show ?thesis
      using JArray by (cases t) (auto simp: leaves_items_nth)
  qed (simp add: leaves_nonempty)
next
  case (JObject ms)
  show ?case
  proof (cases ts)
    case (Cons t us)
    have "(k, c) \<in> set ms \<Longrightarrow> (us, s) \<in> set (string_leaves c) \<longleftrightarrow> resolve c us = Some (JString s)" for k c
      using JObject by force
    with Cons JObject.prems show ?thesis
      by (cases t) (auto simp: leaves_members_mem bt_get_wf_iff bind_eq_Some_conv)
  qed (simp add: leaves_nonempty)
qed (case_tac ts; auto)+

section \<open>Order\<close>

lemma sorted_key_dedup:
  assumes "inj f"
  shows "sorted (map f (remdups_adj (sort_key f xs))) \<and> distinct (remdups_adj (sort_key f xs))"
proof -
  have dedup: "sorted (map f ys) \<Longrightarrow>
      sorted (map f (remdups_adj ys)) \<and> distinct (remdups_adj ys)" for ys
  proof (induction ys rule: remdups_adj.induct)
    case (3 x y ys)
    then show ?case using injD[OF assms, of x y] by (auto dest: injD[OF assms] order.antisym)
  qed simp_all
  show ?thesis by (rule dedup) simp
qed

lemma finding_key_inj: "inj finding_key"
  by (auto simp: inj_def finding_key_def)

definition matches_category :: "sensitive_category \<Rightarrow> string \<Rightarrow> bool" where
  "matches_category c s =
     (case c of
        BearerToken \<Rightarrow> is_bearer_token s
      | UrlQuerySecret \<Rightarrow> is_url_query_secret s
      | PemBlock \<Rightarrow> is_pem_block s
      | CommandSecret \<Rightarrow> False)"

lemma leaf_findings_iff:
  "f \<in> set (leaf_findings s p) \<longleftrightarrow>
     cf_pointer f = p \<and> s \<noteq> REDACTED_PLACEHOLDER \<and> matches_category (cf_category f) s"
  by (cases f; cases "cf_category f") (auto simp: leaf_findings_def matches_category_def)

section \<open>Property\<close>

text \<open>
  The lint is exact: on a parsed payload it reports a pointer and a category exactly when the
  pointer is that of a string leaf other than the placeholder that matches the category, or when
  it is the session's command and carries a secret flag; findings come in strictly increasing
  order, so none is repeated.
\<close>

theorem lint_exact:
  assumes "json_wf v"
  shows "(f \<in> set (sensitive_content_lint v command) \<longleftrightarrow>
           (\<exists>ts s. resolve v ts = Some (JString s) \<and> cf_pointer f = render ts
              \<and> s \<noteq> REDACTED_PLACEHOLDER \<and> matches_category (cf_category f) s)
         \<or> (\<exists>cmd. command = Some cmd \<and> is_command_secret cmd
              \<and> f = \<lparr>cf_pointer = ''/session/server_command'', cf_category = CommandSecret\<rparr>))
       \<and> sorted (map finding_key (sensitive_content_lint v command))
       \<and> distinct (sensitive_content_lint v command)"
proof -
  have "set (findings_at [] (string_leaves v))
      = {f. \<exists>ts s. resolve v ts = Some (JString s) \<and> f \<in> set (leaf_findings s (render ts))}"
    using string_leaves_resolve[OF assms] by (force simp: findings_at_def)
  then have "f \<in> set (findings_at [] (string_leaves v)) \<longleftrightarrow>
      (\<exists>ts s. resolve v ts = Some (JString s) \<and> cf_pointer f = render ts
              \<and> s \<noteq> REDACTED_PLACEHOLDER \<and> matches_category (cf_category f) s)"
    by (auto simp: leaf_findings_iff)
  then show ?thesis
    using sorted_key_dedup[OF finding_key_inj]
    by (auto simp: sensitive_content_lint_def Let_def walk_lint_leaves split: option.splits)
qed

lemma lint_exact_witness:
  "\<lparr>cf_pointer = ''/k'', cf_category = PemBlock\<rparr>
     \<in> set (sensitive_content_lint (JObject [(''k'', JString ''-----BEGIN KEY-----'')]) None)"
proof -
  have wf: "json_wf (JObject [(''k'', JString ''-----BEGIN KEY-----'')])" by (simp add: bt_wf_def)
  show ?thesis
    unfolding lint_exact[OF wf, THEN conjunct1]
    by (intro disjI1 exI[of _ "[Key ''k'']"] exI[of _ "''-----BEGIN KEY-----''"])
      (simp add: matches_category_def is_pem_block_def REDACTED_PLACEHOLDER_def render_def
        escape_pointer_token_def bt_get_def replace_char_def)
qed

end
