(* ===== verification/Store.thy ===== *)
theory Store
  imports Session Redact
begin

text \<open>
  The session store of \<open>crates/mcptracer-storage/src/lib.rs\<close>: the tables its SQL statements work on,
  as lists of rows in insertion order, and one function per method of \<open>Store\<close>.  A method that runs
  SQL returns an error or the new store; a transaction that fails leaves the store as it was.  The
  identifiers drawn by \<open>Uuid::new_v4\<close> and the clock are arguments.  SQLite itself is not modelled:
  only what its documentation says of the constraints and clauses the statements use.
\<close>

section \<open>Rows\<close>

record session_row =
  sr_id :: string
  sr_client :: string
  sr_server_command :: string
  sr_transport :: string
  sr_started_at :: i64
  sr_ended_at :: "i64 option"
  sr_total_messages :: i64
  sr_dropped_messages :: i64
  sr_redaction_policy :: string
  sr_redaction_keys :: string
  sr_tags :: string

record message_row =
  mr_session_id :: string
  mr_seq :: i64
  mr_ts :: i64
  mr_direction :: string
  mr_message_kind :: string
  mr_rpc_id :: "string option"
  mr_method :: "string option"
  mr_tool_name :: "string option"
  mr_payload :: string
  mr_payload_bytes :: i64
  mr_is_error :: i64
  mr_error_code :: "i64 option"

record baseline =
  bl_id :: nat
  bl_project :: string
  bl_scenario :: string
  bl_environment :: string
  bl_session_id :: string
  bl_state :: string
  bl_digest :: "string option"
  bl_promoted_by :: "string option"
  bl_promoted_at :: "i64 option"
  bl_promotion_reason :: "string option"
  bl_revoked_at :: "i64 option"
  bl_revoked_reason :: "string option"
  bl_created_at :: i64

record store =
  st_sessions :: "session_row list"
  st_messages :: "message_row list"
  st_baselines :: "baseline list"
  st_next_baseline_id :: nat

datatype store_error = SqlError | Failed string

record session_summary =
  su_id :: string
  su_client :: string
  su_server_command :: string
  su_transport :: string
  su_started_at_ns :: i64
  su_ended_at_ns :: "i64 option"
  su_total_messages :: i64
  su_dropped_messages :: i64
  su_redaction_policy :: string
  su_redaction_keys_json :: string

text \<open>\<open>as i64\<close> and \<open>as u64\<close> reinterpret the 64 bits; \<open>i64::try_from\<close> fails out of range.\<close>

definition u64_as_i64 :: "nat \<Rightarrow> i64" where
  "u64_as_i64 n = wrap_i64 (int n)"

definition i64_as_u64 :: "i64 \<Rightarrow> nat" where
  "i64_as_u64 i = nat (i mod 2 ^ 64)"

definition i64_try_from :: "nat \<Rightarrow> i64 option" where
  "i64_try_from n = (if int n \<le> i64_max then Some (int n) else None)"

lemma i64_round_trip:
  assumes "n \<le> u64_max"
  shows "i64_as_u64 (u64_as_i64 n) = n"
proof -
  have "((int n + 2 ^ 63) mod 2 ^ 64 - 2 ^ 63) mod 2 ^ 64 = (int n + 2 ^ 63 - 2 ^ 63) mod 2 ^ 64"
    by (rule mod_diff_left_eq)
  also have "\<dots> = int n" using assms by (simp add: u64_max_def)
  finally show ?thesis by (simp only: i64_as_u64_def u64_as_i64_def wrap_i64_def nat_int)
qed

section \<open>Sessions\<close>

definition create_session ::
  "store \<Rightarrow> string \<Rightarrow> string \<Rightarrow> string \<Rightarrow> string \<Rightarrow> i64 \<Rightarrow> store_error + (string \<times> store)" where
  "create_session st uuid client server_command transport_name started_at_ns =
     (if uuid \<in> sr_id ` set (st_sessions st) then Inl SqlError
      else Inr (uuid, st\<lparr>st_sessions := st_sessions st @
             [\<lparr>sr_id = uuid, sr_client = client, sr_server_command = server_command,
               sr_transport = transport_name, sr_started_at = started_at_ns, sr_ended_at = None,
               sr_total_messages = 0, sr_dropped_messages = 0, sr_redaction_policy = ''none'',
               sr_redaction_keys = ''[]'', sr_tags = ''[]''\<rparr>]\<rparr>))"

text \<open>\<open>UPDATE sessions SET .. WHERE id = ?\<close>.\<close>

definition update_session :: "string \<Rightarrow> (session_row \<Rightarrow> session_row) \<Rightarrow> store \<Rightarrow> store" where
  "update_session sid f st =
     st\<lparr>st_sessions := map (\<lambda>r. if sr_id r = sid then f r else r) (st_sessions st)\<rparr>"

definition set_redaction_policy ::
  "serde \<Rightarrow> store \<Rightarrow> string \<Rightarrow> string \<Rightarrow> string list \<Rightarrow> store" where
  "set_redaction_policy S st session_id policy custom_keys =
     (let custom_keys_json = print_json S (JArray (map JString custom_keys))
      in update_session session_id
           (\<lambda>r. r\<lparr>sr_redaction_policy := policy, sr_redaction_keys := custom_keys_json\<rparr>) st)"

definition increment_dropped_messages :: "store \<Rightarrow> string \<Rightarrow> nat \<Rightarrow> store" where
  "increment_dropped_messages st session_id n =
     update_session session_id
       (\<lambda>r. r\<lparr>sr_dropped_messages := sr_dropped_messages r + u64_as_i64 n\<rparr>) st"

definition close_session :: "store \<Rightarrow> string \<Rightarrow> i64 \<Rightarrow> store" where
  "close_session st session_id ended_at_ns =
     (let total = int (length (filter (\<lambda>m. mr_session_id m = session_id) (st_messages st)))
      in update_session session_id
           (\<lambda>r. r\<lparr>sr_ended_at := Some ended_at_ns, sr_total_messages := total\<rparr>) st)"

section \<open>Messages\<close>

definition message_row_of :: "serde \<Rightarrow> string \<Rightarrow> mcp_message \<Rightarrow> message_row" where
  "message_row_of S session_id msg =
     \<lparr>mr_session_id = session_id,
      mr_seq = u64_as_i64 (m_seq msg),
      mr_ts = m_timestamp_ns msg,
      mr_direction = as_db_str (m_direction msg),
      mr_message_kind = kind_as_db_str (m_kind msg),
      mr_rpc_id = id_json S msg,
      mr_method = m_method msg,
      mr_tool_name = m_tool_name msg,
      mr_payload = print_json S (m_payload msg),
      mr_payload_bytes = u64_as_i64 (m_payload_bytes msg),
      mr_is_error = (if m_is_error msg then 1 else 0),
      mr_error_code = m_error_code msg\<rparr>"

text \<open>
  \<open>INSERT INTO messages\<close>: refused when the session does not exist (foreign key) or already has a
  message with that sequence number (unique index).
\<close>

definition insert_message :: "store \<Rightarrow> message_row \<Rightarrow> store_error + store" where
  "insert_message st row =
     (if mr_session_id row \<notin> sr_id ` set (st_sessions st)
         \<or> list_ex (\<lambda>m. mr_session_id m = mr_session_id row \<and> mr_seq m = mr_seq row) (st_messages st)
      then Inl SqlError
      else Inr (st\<lparr>st_messages := st_messages st @ [row]\<rparr>))"

fun insert_messages :: "store \<Rightarrow> message_row list \<Rightarrow> store_error + store" where
  "insert_messages st [] = Inr st"
| "insert_messages st (row # rows) =
     (case insert_message st row of Inl e \<Rightarrow> Inl e | Inr st' \<Rightarrow> insert_messages st' rows)"

definition write_message :: "serde \<Rightarrow> store \<Rightarrow> string \<Rightarrow> mcp_message \<Rightarrow> store_error + store" where
  "write_message S st session_id msg = insert_message st (message_row_of S session_id msg)"

definition write_messages :: "serde \<Rightarrow> store \<Rightarrow> string \<Rightarrow> mcp_message list \<Rightarrow> store_error + store" where
  "write_messages S st session_id messages =
     insert_messages st (map (message_row_of S session_id) messages)"

definition stored_of_row :: "message_row \<Rightarrow> stored_message" where
  "stored_of_row r =
     \<lparr>msg_seq = i64_as_u64 (mr_seq r), msg_ts_ns = mr_ts r, msg_direction = mr_direction r,
      msg_kind = mr_message_kind r, msg_rpc_id = mr_rpc_id r, msg_method = mr_method r,
      msg_tool_name = mr_tool_name r, msg_payload = mr_payload r,
      msg_payload_bytes = i64_as_u64 (mr_payload_bytes r), msg_is_error = (mr_is_error r \<noteq> 0),
      msg_error_code = mr_error_code r\<rparr>"

section \<open>Lookup\<close>

text \<open>
  \<open>id LIKE 'prefix%'\<close>: \<open>%\<close> matches any text, \<open>_\<close> one character, letters match without case.
\<close>

fun sql_like :: "string \<Rightarrow> string \<Rightarrow> bool" where
  "sql_like [] s \<longleftrightarrow> s = []"
| "sql_like (p # ps) s \<longleftrightarrow>
     (if p = CHR ''%''
      then sql_like ps s \<or> (case s of [] \<Rightarrow> False | _ # s' \<Rightarrow> sql_like (p # ps) s')
      else case s of
        [] \<Rightarrow> False
      | c # s' \<Rightarrow>
          (p = CHR ''_'' \<or> to_ascii_lowercase p = to_ascii_lowercase c) \<and> sql_like ps s')"

definition resolve_session_id :: "store \<Rightarrow> string \<Rightarrow> store_error + string" where
  "resolve_session_id st session_id_or_prefix =
     (if length session_id_or_prefix = 36
      then (if session_id_or_prefix \<in> sr_id ` set (st_sessions st) then Inr session_id_or_prefix
            else Inl (Failed (''session not found: '' @ session_id_or_prefix)))
      else
        (case take 2 (map sr_id (sort_key (\<lambda>r. - sr_started_at r)
                (filter (\<lambda>r. sql_like (session_id_or_prefix @ ''%'') (sr_id r)) (st_sessions st)))) of
           [sid] \<Rightarrow> Inr sid
         | [] \<Rightarrow> Inl (Failed (''session not found: '' @ session_id_or_prefix))
         | _ \<Rightarrow> Inl (Failed (''session prefix is ambiguous: '' @ session_id_or_prefix))))"

definition summary_of_row :: "session_row \<Rightarrow> session_summary" where
  "summary_of_row r =
     \<lparr>su_id = sr_id r, su_client = sr_client r, su_server_command = sr_server_command r,
      su_transport = sr_transport r, su_started_at_ns = sr_started_at r,
      su_ended_at_ns = sr_ended_at r, su_total_messages = sr_total_messages r,
      su_dropped_messages = sr_dropped_messages r,
      su_redaction_policy = sr_redaction_policy r,
      su_redaction_keys_json = sr_redaction_keys r\<rparr>"

definition get_session_summary :: "store \<Rightarrow> string \<Rightarrow> store_error + session_summary" where
  "get_session_summary st session_id_or_prefix =
     (case resolve_session_id st session_id_or_prefix of
        Inl e \<Rightarrow> Inl e
      | Inr sid \<Rightarrow>
          (case find (\<lambda>r. sr_id r = sid) (st_sessions st) of
             Some r \<Rightarrow> Inr (summary_of_row r)
           | None \<Rightarrow> Inl SqlError))"

definition messages_of :: "store \<Rightarrow> string \<Rightarrow> stored_message list" where
  "messages_of st sid =
     map stored_of_row (sort_key mr_seq (filter (\<lambda>m. mr_session_id m = sid) (st_messages st)))"

definition get_messages :: "store \<Rightarrow> string \<Rightarrow> store_error + stored_message list" where
  "get_messages st session_id_or_prefix =
     (case resolve_session_id st session_id_or_prefix of
        Inl e \<Rightarrow> Inl e
      | Inr sid \<Rightarrow> Inr (messages_of st sid))"

text \<open>\<open>serde_json::from_str::<Vec<String>>\<close>.\<close>

definition parse_string_array :: "serde \<Rightarrow> string \<Rightarrow> string list option" where
  "parse_string_array S s =
     (case parse_json S s of
        Some (JArray items) \<Rightarrow> those (map as_str items)
      | _ \<Rightarrow> None)"

definition get_session_tags :: "serde \<Rightarrow> store \<Rightarrow> string \<Rightarrow> store_error + string list" where
  "get_session_tags S st session_id_or_prefix =
     (case resolve_session_id st session_id_or_prefix of
        Inl e \<Rightarrow> Inl e
      | Inr sid \<Rightarrow>
          (case find (\<lambda>r. sr_id r = sid) (st_sessions st) of
             None \<Rightarrow> Inl SqlError
           | Some r \<Rightarrow>
               (case parse_string_array S (sr_tags r) of
                  Some tags \<Rightarrow> Inr tags
                | None \<Rightarrow> Inl (Failed ''stored session tags are not a JSON string array''))))"

definition redaction_policy_for_summary ::
  "serde \<Rightarrow> session_summary \<Rightarrow> store_error + redaction_policy" where
  "redaction_policy_for_summary S summary =
     (case parse_string_array S (su_redaction_keys_json summary) of
        None \<Rightarrow> Inl (Failed ''stored custom redaction keys are not a JSON string array'')
      | Some custom_keys \<Rightarrow>
          (case policy_from_storage (su_redaction_policy summary) custom_keys of
             Inl detail \<Rightarrow> Inl (Failed (''invalid stored redaction policy: '' @ detail))
           | Inr policy \<Rightarrow> Inr policy))"

end
