(* ===== verification/Mtrace.thy ===== *)
theory Mtrace
  imports Store Lint
begin

text \<open>
  Portable artifacts: \<open>crates/mcptracer-storage/src/mtrace.rs\<close> (validation, encoding, digest) and
  the export and import methods of \<open>Store\<close>.  The gzip codec, the derived \<open>Serialize\<close> and
  \<open>Deserialize\<close> of the document and the hash are arguments, in the records \<open>codec\<close> and \<open>serde\<close>.
\<close>

section \<open>Documents\<close>

definition FORMAT :: string where "FORMAT = ''mtrace''"
definition VERSION :: nat where "VERSION = 1"
definition MAX_COMPRESSED_BYTES :: nat where "MAX_COMPRESSED_BYTES = 64 * 1024 * 1024"
definition MAX_UNCOMPRESSED_BYTES :: nat where "MAX_UNCOMPRESSED_BYTES = 32 * 1024 * 1024"
definition MAX_MESSAGES :: nat where "MAX_MESSAGES = 1000000"

definition TOP_LEVEL_FIELDS :: "string list" where
  "TOP_LEVEL_FIELDS =
     [''format'', ''version'', ''exported_at_ns'', ''exporter'', ''session'', ''messages'']"

record export_options =
  force_default_redaction :: bool
  allow_unredacted :: bool

record mtrace_session =
  ms_client :: string
  ms_server_command :: string
  ms_transport :: string
  ms_started_at_ns :: i64
  ms_ended_at_ns :: "i64 option"
  ms_redaction_policy :: string
  ms_redaction_keys :: "string list"
  ms_dropped_messages :: i64
  ms_tags :: "string list"

record mtrace_message =
  mm_seq :: u64
  mm_ts_ns :: i64
  mm_direction :: string
  mm_message_kind :: string
  mm_rpc_id :: "string option"
  mm_method :: "string option"
  mm_tool_name :: "string option"
  mm_payload :: json
  mm_payload_bytes :: usize
  mm_is_error :: bool
  mm_error_code :: "i64 option"

record mtrace_document =
  md_format :: string
  md_version :: nat
  md_exported_at_ns :: i64
  md_exporter :: string
  md_session :: mtrace_session
  md_messages :: "mtrace_message list"

text \<open>The third-party and derived codecs of a document.\<close>

record codec =
  gzip :: "bytes \<Rightarrow> bytes"
  gunzip :: "bytes \<Rightarrow> bytes option"
  document_to_vec :: "mtrace_document \<Rightarrow> bytes"
  document_from_value :: "json \<Rightarrow> mtrace_document option"

section \<open>Validation\<close>

definition debug_option :: "('a \<Rightarrow> string) \<Rightarrow> 'a option \<Rightarrow> string" where
  "debug_option show o_v = (case o_v of Some v \<Rightarrow> ''Some('' @ show v @ '')'' | None \<Rightarrow> ''None'')"

definition bool_text :: "bool \<Rightarrow> string" where
  "bool_text b = (if b then ''true'' else ''false'')"

definition claims :: "nat \<Rightarrow> string \<Rightarrow> string \<Rightarrow> string \<Rightarrow> string" where
  "claims seq field claimed implied =
     ''mtrace message '' @ nat_dec seq @ '' claims '' @ field @ '' '' @ claimed
       @ '' but its payload implies '' @ implied"

definition reject_message_field_payload_mismatch :: "serde \<Rightarrow> mtrace_message \<Rightarrow> string + unit" where
  "reject_message_field_payload_mismatch S message =
     (case from_db_str (mm_direction message) of
        None \<Rightarrow> Inl ''mtrace message direction failed re-validation''
      | Some direction \<Rightarrow>
          let derived = \<lparr>m_seq = mm_seq message, m_timestamp_ns = mm_ts_ns message,
                m_direction = direction, m_payload = mm_payload message,
                m_payload_bytes = mm_payload_bytes message\<rparr>;
              seq = mm_seq message
          in if kind_as_db_str (m_kind derived) \<noteq> mm_message_kind message
             then Inl (claims seq ''message_kind'' (debug_str (mm_message_kind message))
                         (debug_str (kind_as_db_str (m_kind derived))))
             else if id_json S derived \<noteq> mm_rpc_id message
             then Inl (claims seq ''rpc_id'' (debug_option debug_str (mm_rpc_id message))
                         (debug_option debug_str (id_json S derived)))
             else if m_method derived \<noteq> mm_method message
             then Inl (claims seq ''method'' (debug_option debug_str (mm_method message))
                         (debug_option debug_str (m_method derived)))
             else if m_tool_name derived \<noteq> mm_tool_name message
             then Inl (claims seq ''tool_name'' (debug_option debug_str (mm_tool_name message))
                         (debug_option debug_str (m_tool_name derived)))
             else if m_is_error derived \<noteq> mm_is_error message
             then Inl (claims seq ''is_error'' (bool_text (mm_is_error message))
                         (bool_text (m_is_error derived)))
             else if m_error_code derived \<noteq> mm_error_code message
             then Inl (claims seq ''error_code'' (debug_option int_dec (mm_error_code message))
                         (debug_option int_dec (m_error_code derived)))
             else Inr ())"

definition message_label :: "nat \<Rightarrow> string \<Rightarrow> string" where
  "message_label seq problem = ''mtrace message '' @ nat_dec seq @ problem"

definition validate_message ::
  "serde \<Rightarrow> redaction_policy \<Rightarrow> u64 option \<Rightarrow> tracker \<Rightarrow> mtrace_message \<Rightarrow> string + tracker" where
  "validate_message S policy previous_seq t message =
     (let seq = mm_seq message in
      if (case previous_seq of Some previous \<Rightarrow> seq \<le> previous | None \<Rightarrow> False)
      then Inl (''mtrace message sequence is not strictly increasing at '' @ nat_dec seq)
      else if mm_direction message \<notin> {''c2s'', ''s2c''}
      then Inl (message_label seq '' has an unknown direction'')
      else if mm_message_kind message \<notin> {''request'', ''response'', ''notification''}
      then Inl (message_label seq '' has an unknown message kind'')
      else if \<not> is_object (mm_payload message)
      then Inl (message_label seq '' payload must be a JSON object'')
      else case reject_message_field_payload_mismatch S message of
        Inl e \<Rightarrow> Inl e
      | Inr _ \<Rightarrow>
          let (ctx, t') = observe S t seq (mm_direction message) (mm_payload message)
          in if policy \<noteq> PolicyNone \<and> has_lost_context t'
             then Inl ''mtrace redaction request context exceeded bounded limits''
             else
               let unredacted = unredacted_sensitive_keys_with_context (mm_payload message) policy ctx
               in if unredacted \<noteq> []
                  then Inl (message_label seq ('' has unredacted '' @ policy_as_str policy
                              @ '' field(s): '' @ join '', '' unredacted))
                  else Inr t')"

fun validate_loop ::
  "serde \<Rightarrow> redaction_policy \<Rightarrow> u64 option \<Rightarrow> tracker \<Rightarrow> mtrace_message list \<Rightarrow> string + unit" where
  "validate_loop S policy previous_seq t [] = Inr ()"
| "validate_loop S policy previous_seq t (message # rest) =
     (case validate_message S policy previous_seq t message of
        Inl e \<Rightarrow> Inl e
      | Inr t' \<Rightarrow> validate_loop S policy (Some (mm_seq message)) t' rest)"

definition validate :: "serde \<Rightarrow> mtrace_document \<Rightarrow> string + unit" where
  "validate S document =
     (if md_format document \<noteq> FORMAT
      then Inl (''unsupported mtrace format: '' @ md_format document)
      else if md_version document \<noteq> VERSION
      then Inl (''unsupported mtrace version: '' @ nat_dec (md_version document)
                @ '' (supported: '' @ nat_dec VERSION @ '')'')
      else if length (md_messages document) > MAX_MESSAGES
      then Inl (''mtrace has more than the '' @ nat_dec MAX_MESSAGES @ '' message limit'')
      else case policy_from_storage (ms_redaction_policy (md_session document))
                  (ms_redaction_keys (md_session document)) of
        Inl detail \<Rightarrow> Inl (''invalid mtrace redaction policy: '' @ detail)
      | Inr policy \<Rightarrow>
          if policy_custom_keys policy \<noteq> ms_redaction_keys (md_session document)
          then Inl ''mtrace custom redaction keys must be normalized''
          else if ms_dropped_messages (md_session document) < 0
          then Inl ''mtrace dropped_messages must not be negative''
          else validate_loop S policy None tracker_default (md_messages document))"

section \<open>Encoding\<close>

definition limit_error :: "string \<Rightarrow> nat \<Rightarrow> string" where
  "limit_error what limit = what @ '' exceeds the '' @ nat_dec limit @ '' byte limit''"

definition encode :: "serde \<Rightarrow> codec \<Rightarrow> mtrace_document \<Rightarrow> string + bytes" where
  "encode S C document =
     (case validate S document of
        Inl e \<Rightarrow> Inl e
      | Inr _ \<Rightarrow>
          let js = document_to_vec C document
          in if length js > MAX_UNCOMPRESSED_BYTES
             then Inl (limit_error ''mtrace JSON'' MAX_UNCOMPRESSED_BYTES)
             else
               let bs = gzip C js
               in if length bs > MAX_COMPRESSED_BYTES
                  then Inl (limit_error ''compressed mtrace'' MAX_COMPRESSED_BYTES)
                  else Inr bs)"

text \<open>The unknown top-level field that strict decoding rejects: the first in key order.\<close>

definition strict_error :: "json \<Rightarrow> string option" where
  "strict_error v =
     (case v of
        JObject m \<Rightarrow>
          map_option (\<lambda>field. ''unknown top-level mtrace field in strict mode: '' @ field)
            (find (\<lambda>field. field \<notin> set TOP_LEVEL_FIELDS) (bt_keys m))
      | _ \<Rightarrow> Some ''mtrace top level must be a JSON object'')"

definition decode :: "serde \<Rightarrow> codec \<Rightarrow> bytes \<Rightarrow> bool \<Rightarrow> string + mtrace_document" where
  "decode S C bs strict =
     (if length bs > MAX_COMPRESSED_BYTES
      then Inl (limit_error ''compressed mtrace'' MAX_COMPRESSED_BYTES)
      else case gunzip C bs of
        None \<Rightarrow> Inl ''failed to decompress mtrace''
      | Some js \<Rightarrow>
          if length js > MAX_UNCOMPRESSED_BYTES
          then Inl (limit_error ''mtrace JSON'' MAX_UNCOMPRESSED_BYTES)
          else case parse_json S js of
            None \<Rightarrow> Inl ''mtrace is not valid JSON''
          | Some v \<Rightarrow>
              (case (if strict then strict_error v else None) of
                 Some e \<Rightarrow> Inl e
               | None \<Rightarrow>
                   (case document_from_value C v of
                      None \<Rightarrow> Inl ''mtrace does not match version 1 schema''
                    | Some document \<Rightarrow>
                        (case validate S document of
                           Inl e \<Rightarrow> Inl e
                         | Inr _ \<Rightarrow> Inr document))))"

section \<open>Lint and digest\<close>

definition message_findings :: "mtrace_message \<Rightarrow> content_finding list" where
  "message_findings msg =
     map (\<lambda>f. f\<lparr>cf_pointer := ''/messages/'' @ nat_dec (mm_seq msg) @ cf_pointer f\<rparr>)
       (sensitive_content_lint (mm_payload msg) None)"

definition lint_sensitive_content :: "mtrace_document \<Rightarrow> content_finding list" where
  "lint_sensitive_content document =
     concat (map message_findings (md_messages document))
     @ sensitive_content_lint JNull (Some (ms_server_command (md_session document)))"

text \<open>\<open>serde_json::json!\<close> of the derived \<open>Serialize\<close>: objects are ordered maps, \<open>None\<close> is null.\<close>

definition json_i64 :: "i64 \<Rightarrow> json" where
  "json_i64 i = JNumber (if 0 \<le> i then PosInt (nat i) else NegInt i)"

definition json_option :: "('a \<Rightarrow> json) \<Rightarrow> 'a option \<Rightarrow> json" where
  "json_option f v = (case v of Some x \<Rightarrow> f x | None \<Rightarrow> JNull)"

definition session_value :: "mtrace_session \<Rightarrow> json" where
  "session_value s = JObject (bt_collect
     [(''client'', JString (ms_client s)), (''server_command'', JString (ms_server_command s)),
      (''transport'', JString (ms_transport s)), (''started_at_ns'', json_i64 (ms_started_at_ns s)),
      (''ended_at_ns'', json_option json_i64 (ms_ended_at_ns s)),
      (''redaction_policy'', JString (ms_redaction_policy s)),
      (''redaction_keys'', JArray (map JString (ms_redaction_keys s))),
      (''dropped_messages'', json_i64 (ms_dropped_messages s)),
      (''tags'', JArray (map JString (ms_tags s)))])"

definition message_value :: "mtrace_message \<Rightarrow> json" where
  "message_value m = JObject (bt_collect
     [(''seq'', JNumber (PosInt (mm_seq m))), (''ts_ns'', json_i64 (mm_ts_ns m)),
      (''direction'', JString (mm_direction m)), (''message_kind'', JString (mm_message_kind m)),
      (''rpc_id'', json_option JString (mm_rpc_id m)), (''method'', json_option JString (mm_method m)),
      (''tool_name'', json_option JString (mm_tool_name m)), (''payload'', mm_payload m),
      (''payload_bytes'', JNumber (PosInt (mm_payload_bytes m))),
      (''is_error'', JBool (mm_is_error m)),
      (''error_code'', json_option json_i64 (mm_error_code m))])"

definition canonical_identity :: "mtrace_document \<Rightarrow> json" where
  "canonical_identity document = JObject (bt_collect
     [(''format'', JString (md_format document)), (''version'', JNumber (PosInt (md_version document))),
      (''session'', session_value (md_session document)),
      (''messages'', JArray (map message_value (md_messages document)))])"

definition hex_bytes :: "bytes \<Rightarrow> string" where
  "hex_bytes bs =
     concat (map (\<lambda>b. [hex_lower (of_char b div 16), hex_lower (of_char b mod 16)]) bs)"

definition canonical_digest :: "serde \<Rightarrow> mtrace_document \<Rightarrow> string" where
  "canonical_digest S document =
     hex_bytes (sha256_digest S (print_json S (canonical_identity document)))"

section \<open>Export\<close>

definition effective_policy :: "redaction_policy \<Rightarrow> export_options \<Rightarrow> string + redaction_policy" where
  "effective_policy source options =
     (if source \<noteq> PolicyNone then Inr source
      else if force_default_redaction options then Inr PolicyDefault
      else if allow_unredacted options then Inr PolicyNone
      else Inl ''refusing to export an unredacted session; use --redact default or --allow-unredacted'')"

definition export_message ::
  "serde \<Rightarrow> redactor \<Rightarrow> tracker \<Rightarrow> stored_message \<Rightarrow> string + (mtrace_message \<times> tracker)" where
  "export_message S r t message =
     (case parse_json S (msg_payload message) of
        None \<Rightarrow> Inl (''stored message '' @ nat_dec (msg_seq message) @ '' is not valid JSON'')
      | Some payload \<Rightarrow>
          if \<not> is_object payload
          then Inl (''stored message '' @ nat_dec (msg_seq message) @ '' payload is not a JSON object'')
          else
            let (ctx, t') = observe S t (msg_seq message) (msg_direction message) payload
            in if is_active r \<and> has_lost_context t'
               then Inl ''redaction request context exceeded bounded limits; refusing schema-altering export''
               else Inr (\<lparr>mm_seq = msg_seq message, mm_ts_ns = msg_ts_ns message,
                     mm_direction = msg_direction message, mm_message_kind = msg_kind message,
                     mm_rpc_id = msg_rpc_id message, mm_method = msg_method message,
                     mm_tool_name = msg_tool_name message,
                     mm_payload = redact_with_context r payload ctx,
                     mm_payload_bytes = msg_payload_bytes message,
                     mm_is_error = msg_is_error message, mm_error_code = msg_error_code message\<rparr>, t'))"

fun export_messages ::
  "serde \<Rightarrow> redactor \<Rightarrow> tracker \<Rightarrow> stored_message list \<Rightarrow> string + mtrace_message list" where
  "export_messages S r t [] = Inr []"
| "export_messages S r t (message # rest) =
     (case export_message S r t message of
        Inl e \<Rightarrow> Inl e
      | Inr (m, t') \<Rightarrow>
          (case export_messages S r t' rest of Inl e \<Rightarrow> Inl e | Inr ms \<Rightarrow> Inr (m # ms)))"

definition lift_failed :: "string + 'a \<Rightarrow> store_error + 'a" where
  "lift_failed x = (case x of Inl e \<Rightarrow> Inl (Failed e) | Inr v \<Rightarrow> Inr v)"

definition bind_result :: "'e + 'a \<Rightarrow> ('a \<Rightarrow> 'e + 'b) \<Rightarrow> 'e + 'b" where
  "bind_result x f = (case x of Inl e \<Rightarrow> Inl e | Inr v \<Rightarrow> f v)"

lemma bind_result_simps: "bind_result (Inl e) f = Inl e" "bind_result (Inr v) f = f v"
  by (simp_all add: bind_result_def)

lemma bind_result_Inr: "bind_result x f = Inr y \<longleftrightarrow> (\<exists>v. x = Inr v \<and> f v = Inr y)"
  by (cases x) (simp_all add: bind_result_simps)

text \<open>\<open>now\<close> is the clock and \<open>package_version\<close> the version the build bakes in.\<close>

definition export_mtrace_document ::
  "serde \<Rightarrow> store \<Rightarrow> string \<Rightarrow> export_options \<Rightarrow> i64 \<Rightarrow> string \<Rightarrow> store_error + mtrace_document" where
  "export_mtrace_document S st session_id_or_prefix options now package_version =
     (if force_default_redaction options \<and> allow_unredacted options
      then Inl (Failed ''--redact default cannot be combined with --allow-unredacted'')
      else
        bind_result (get_session_summary st session_id_or_prefix) (\<lambda>summary.
        bind_result (redaction_policy_for_summary S summary) (\<lambda>source_policy.
        bind_result (lift_failed (effective_policy source_policy options)) (\<lambda>policy.
        bind_result (get_session_tags S st (su_id summary)) (\<lambda>tags.
        bind_result (get_messages st (su_id summary)) (\<lambda>stored.
        bind_result (lift_failed (export_messages S (redactor_new policy) tracker_default stored)) (\<lambda>messages.
          Inr \<lparr>md_format = FORMAT, md_version = VERSION, md_exported_at_ns = now,
               md_exporter = ''mcptracer/'' @ package_version,
               md_session = \<lparr>ms_client = su_client summary,
                 ms_server_command = su_server_command summary, ms_transport = su_transport summary,
                 ms_started_at_ns = su_started_at_ns summary,
                 ms_ended_at_ns = su_ended_at_ns summary,
                 ms_redaction_policy = policy_as_str policy,
                 ms_redaction_keys = policy_custom_keys policy,
                 ms_dropped_messages = su_dropped_messages summary, ms_tags = tags\<rparr>,
               md_messages = messages\<rparr>)))))))"

definition export_mtrace ::
  "serde \<Rightarrow> codec \<Rightarrow> store \<Rightarrow> string \<Rightarrow> export_options \<Rightarrow> i64 \<Rightarrow> string \<Rightarrow> store_error + bytes" where
  "export_mtrace S C st session_id_or_prefix options now package_version =
     bind_result (export_mtrace_document S st session_id_or_prefix options now package_version)
       (\<lambda>document. lift_failed (encode S C document))"

section \<open>Import\<close>

definition imported_row ::
  "serde \<Rightarrow> string \<Rightarrow> mtrace_message \<Rightarrow> store_error + message_row" where
  "imported_row S session_id message =
     (case (i64_try_from (mm_seq message), i64_try_from (mm_payload_bytes message)) of
        (None, _) \<Rightarrow> Inl (Failed ''mtrace sequence exceeds i64'')
      | (_, None) \<Rightarrow> Inl (Failed ''mtrace payload size exceeds i64'')
      | (Some seq, Some payload_bytes) \<Rightarrow>
          Inr \<lparr>mr_session_id = session_id, mr_seq = seq, mr_ts = mm_ts_ns message,
               mr_direction = mm_direction message, mr_message_kind = mm_message_kind message,
               mr_rpc_id = mm_rpc_id message, mr_method = mm_method message,
               mr_tool_name = mm_tool_name message, mr_payload = print_json S (mm_payload message),
               mr_payload_bytes = payload_bytes, mr_is_error = (if mm_is_error message then 1 else 0),
               mr_error_code = mm_error_code message\<rparr>)"

fun import_rows :: "serde \<Rightarrow> string \<Rightarrow> store \<Rightarrow> mtrace_message list \<Rightarrow> store_error + store" where
  "import_rows S session_id st [] = Inr st"
| "import_rows S session_id st (m # ms) =
     bind_result (imported_row S session_id m) (\<lambda>row.
     bind_result (insert_message st row) (\<lambda>st'. import_rows S session_id st' ms))"

definition import_mtrace_document ::
  "serde \<Rightarrow> store \<Rightarrow> string \<Rightarrow> mtrace_document \<Rightarrow> store_error + ((string \<times> usize) \<times> store)" where
  "import_mtrace_document S st uuid document =
     bind_result (lift_failed (validate S document)) (\<lambda>_.
       case i64_try_from (length (md_messages document)) of
         None \<Rightarrow> Inl (Failed ''mtrace message count exceeds i64'')
       | Some total_messages \<Rightarrow>
           let session = md_session document;
               row = \<lparr>sr_id = uuid, sr_client = ms_client session,
                 sr_server_command = ms_server_command session, sr_transport = ms_transport session,
                 sr_started_at = ms_started_at_ns session, sr_ended_at = ms_ended_at_ns session,
                 sr_total_messages = total_messages,
                 sr_dropped_messages = ms_dropped_messages session,
                 sr_redaction_policy = ms_redaction_policy session,
                 sr_redaction_keys = print_json S (JArray (map JString (ms_redaction_keys session))),
                 sr_tags = print_json S (JArray (map JString (ms_tags session)))\<rparr>
           in if uuid \<in> sr_id ` set (st_sessions st) then Inl SqlError
              else bind_result
                     (import_rows S uuid (st\<lparr>st_sessions := st_sessions st @ [row]\<rparr>) (md_messages document))
                     (\<lambda>st'. Inr ((uuid, length (md_messages document)), st')))"

definition import_mtrace ::
  "serde \<Rightarrow> codec \<Rightarrow> store \<Rightarrow> string \<Rightarrow> bytes \<Rightarrow> bool \<Rightarrow> store_error + ((string \<times> usize) \<times> store)" where
  "import_mtrace S C st uuid bs strict =
     bind_result (lift_failed (decode S C bs strict)) (\<lambda>document. import_mtrace_document S st uuid document)"

end
