(* ===== verification/MtraceFacts.thy ===== *)
theory MtraceFacts
  imports Mtrace RedactProps
begin

text \<open>
  Import followed by export: what validation establishes of a document is what makes the rows it
  is stored as come back as the same messages.
\<close>

section \<open>What validation establishes\<close>

lemma validate_message_Inr:
  assumes "validate_message S policy prev t m = Inr t'"
  shows "case prev of Some p \<Rightarrow> p < mm_seq m | None \<Rightarrow> True"
    and "is_object (mm_payload m)"
    and "reject_message_field_payload_mismatch S m = Inr ()"
    and "snd (observe S t (mm_seq m) (mm_direction m) (mm_payload m)) = t'"
    and "policy \<noteq> PolicyNone \<Longrightarrow> \<not> has_lost_context t'"
    and "unredacted_sensitive_keys_with_context (mm_payload m) policy
           (fst (observe S t (mm_seq m) (mm_direction m) (mm_payload m))) = []"
  using assms
  by (auto simp: validate_message_def Let_def split: if_splits sum.splits prod.splits option.splits)

definition seqs_after :: "u64 option \<Rightarrow> nat list \<Rightarrow> bool" where
  "seqs_after prev ns \<longleftrightarrow>
     sorted_wrt (<) ns \<and> (case prev of Some p \<Rightarrow> \<forall>n \<in> set ns. p < n | None \<Rightarrow> True)"

lemma validate_loop_seqs:
  "validate_loop S policy prev t ms = Inr () \<Longrightarrow> seqs_after prev (map mm_seq ms)"
proof (induction S policy prev t ms rule: validate_loop.induct)
  case (2 S policy prev t m rest)
  then obtain t' where step: "validate_message S policy prev t m = Inr t'"
    and "validate_loop S policy (Some (mm_seq m)) t' rest = Inr ()"
    by (auto split: sum.splits)
  with 2 have "seqs_after (Some (mm_seq m)) (map mm_seq rest)" by auto
  with validate_message_Inr(1)[OF step] show ?case
    by (auto simp: seqs_after_def split: option.splits)
qed (simp add: seqs_after_def split: option.splits)

section \<open>A message and the row it is stored as\<close>

definition as_stored :: "serde \<Rightarrow> mtrace_message \<Rightarrow> stored_message" where
  "as_stored S m =
     \<lparr>msg_seq = mm_seq m, msg_ts_ns = mm_ts_ns m, msg_direction = mm_direction m,
      msg_kind = mm_message_kind m, msg_rpc_id = mm_rpc_id m, msg_method = mm_method m,
      msg_tool_name = mm_tool_name m, msg_payload = print_json S (mm_payload m),
      msg_payload_bytes = mm_payload_bytes m, msg_is_error = mm_is_error m,
      msg_error_code = mm_error_code m\<rparr>"

lemma i64_try_from_Some: "i64_try_from n = Some i \<Longrightarrow> i = int n \<and> n \<le> u64_max \<and> i64_as_u64 i = n"
  by (auto simp: i64_try_from_def i64_as_u64_def i64_max_def u64_max_def split: if_splits)

lemma imported_row_Inr:
  assumes "imported_row S sid m = Inr row"
  shows "stored_of_row row = as_stored S m" "mr_session_id row = sid" "mr_seq row = int (mm_seq m)"
  using assms
  by (auto simp: imported_row_def stored_of_row_def as_stored_def dest!: i64_try_from_Some
      split: option.splits if_splits)

lemma import_rows_Inr:
  "import_rows S sid st ms = Inr st' \<Longrightarrow>
     \<exists>rows. st' = st\<lparr>st_messages := st_messages st @ rows\<rparr>
       \<and> list_all2 (\<lambda>m row. imported_row S sid m = Inr row) ms rows"
proof (induction S sid st ms rule: import_rows.induct)
  case (2 S sid st m ms)
  from "2.prems" obtain row st1 where row: "imported_row S sid m = Inr row"
    and ins: "insert_message st row = Inr st1" and rest: "import_rows S sid st1 ms = Inr st'"
    by (auto simp: bind_result_def split: sum.splits)
  from "2.IH"[OF rest] obtain rows where
    "st' = st1\<lparr>st_messages := st_messages st1 @ rows\<rparr>"
    "list_all2 (\<lambda>m row. imported_row S sid m = Inr row) ms rows"
    by blast
  with row ins show ?case
    by (intro exI[of _ "row # rows"]) (auto simp: insert_message_def split: if_splits)
qed simp

lemma imported_rows_back:
  "list_all2 (\<lambda>m row. imported_row S sid m = Inr row) ms rows
   \<Longrightarrow> map stored_of_row rows = map (as_stored S) ms
     \<and> map mr_seq rows = map (\<lambda>m. int (mm_seq m)) ms
     \<and> (\<forall>row \<in> set rows. mr_session_id row = sid)"
  by (induction rule: list_all2_induct) (auto simp: imported_row_Inr)

section \<open>Exporting what was validated\<close>

lemma export_messages_validated:
  assumes "policy_ok policy"
  shows "validate_loop S policy prev t ms = Inr ()
   \<Longrightarrow> (\<And>m. m \<in> set ms \<Longrightarrow> codec_ok S (mm_payload m))
   \<Longrightarrow> export_messages S (redactor_new policy) t (map (as_stored S) ms) = Inr ms"
proof (induction ms arbitrary: prev t)
  case (Cons m rest)
  then obtain t' where step: "validate_message S policy prev t m = Inr t'"
    and rest: "validate_loop S policy (Some (mm_seq m)) t' rest = Inr ()"
    by (auto split: sum.splits)
  note facts = validate_message_Inr[OF step]
  have parse: "parse_json S (print_json S (mm_payload m)) = Some (mm_payload m)"
    using Cons.prems(2) by (simp add: codec_ok_def)
  have same: "redact_with_context (redactor_new policy) (mm_payload m)
      (fst (observe S t (mm_seq m) (mm_direction m) (mm_payload m))) = mm_payload m"
    using facts(6) audit_noop[OF assms] by blast
  have "export_message S (redactor_new policy) t (as_stored S m) = Inr (m, t')"
    using facts(2,4,5) parse same
    by (auto simp: export_message_def as_stored_def case_prod_beta Let_def)
  with Cons.IH[OF rest] Cons.prems(2) show ?case by simp
qed simp

section \<open>The store after an import\<close>

text \<open>Foreign keys hold: every message row belongs to a session row.\<close>

definition foreign_keys :: "store \<Rightarrow> bool" where
  "foreign_keys st \<longleftrightarrow> mr_session_id ` set (st_messages st) \<subseteq> sr_id ` set (st_sessions st)"

lemma find_fresh: "(\<And>x. x \<in> set xs \<Longrightarrow> \<not> P x) \<Longrightarrow> P y \<Longrightarrow> find P (xs @ [y]) = Some y"
  by (induction xs) auto

lemma import_result:
  assumes imp: "import_mtrace_document S st uuid d = Inr (r, st')"
    and fk: "foreign_keys st"
  obtains policy row where "r = (uuid, length (md_messages d))" "validate S d = Inr ()"
    "policy_from_storage (ms_redaction_policy (md_session d)) (ms_redaction_keys (md_session d)) = Inr policy"
    "policy_custom_keys policy = ms_redaction_keys (md_session d)"
    "validate_loop S policy None tracker_default (md_messages d) = Inr ()"
    "find (\<lambda>r. sr_id r = uuid) (st_sessions st') = Some row"
    "uuid \<in> sr_id ` set (st_sessions st')"
    "summary_of_row row = \<lparr>su_id = uuid, su_client = ms_client (md_session d),
       su_server_command = ms_server_command (md_session d), su_transport = ms_transport (md_session d),
       su_started_at_ns = ms_started_at_ns (md_session d), su_ended_at_ns = ms_ended_at_ns (md_session d),
       su_total_messages = int (length (md_messages d)),
       su_dropped_messages = ms_dropped_messages (md_session d),
       su_redaction_policy = ms_redaction_policy (md_session d),
       su_redaction_keys_json = print_json S (JArray (map JString (ms_redaction_keys (md_session d))))\<rparr>"
    "sr_tags row = print_json S (JArray (map JString (ms_tags (md_session d))))"
    "messages_of st' uuid = map (as_stored S) (md_messages d)"
proof -
  from imp have v: "validate S d = Inr ()"
    by (auto simp: import_mtrace_document_def bind_result_def lift_failed_def split: sum.splits)
  then obtain policy where pol: "policy_from_storage (ms_redaction_policy (md_session d))
      (ms_redaction_keys (md_session d)) = Inr policy"
    "policy_custom_keys policy = ms_redaction_keys (md_session d)"
    "validate_loop S policy None tracker_default (md_messages d) = Inr ()"
    by (auto simp: validate_def split: if_splits sum.splits)
  let ?row = "\<lparr>sr_id = uuid, sr_client = ms_client (md_session d),
     sr_server_command = ms_server_command (md_session d), sr_transport = ms_transport (md_session d),
     sr_started_at = ms_started_at_ns (md_session d), sr_ended_at = ms_ended_at_ns (md_session d),
     sr_total_messages = int (length (md_messages d)),
     sr_dropped_messages = ms_dropped_messages (md_session d),
     sr_redaction_policy = ms_redaction_policy (md_session d),
     sr_redaction_keys = print_json S (JArray (map JString (ms_redaction_keys (md_session d)))),
     sr_tags = print_json S (JArray (map JString (ms_tags (md_session d))))\<rparr>"
  from imp v have fresh: "uuid \<notin> sr_id ` set (st_sessions st)" and r: "r = (uuid, length (md_messages d))"
    and rows: "import_rows S uuid (st\<lparr>st_sessions := st_sessions st @ [?row]\<rparr>) (md_messages d) = Inr st'"
    by (auto simp: import_mtrace_document_def bind_result_def lift_failed_def i64_try_from_def Let_def
        split: sum.splits if_splits option.splits)
  from import_rows_Inr[OF rows] obtain ms where st': "st' = st\<lparr>st_sessions := st_sessions st @ [?row],
      st_messages := st_messages st @ ms\<rparr>"
    and ms: "list_all2 (\<lambda>m row. imported_row S uuid m = Inr row) (md_messages d) ms" by auto
  note rows_back = imported_rows_back[OF ms]
  have none: "filter (\<lambda>m. mr_session_id m = uuid) (st_messages st) = []"
    using fk fresh by (auto simp: foreign_keys_def filter_empty_conv)
  have all: "filter (\<lambda>m. mr_session_id m = uuid) ms = ms" using rows_back by simp
  have "sorted (map mr_seq ms)"
    using rows_back validate_loop_seqs[OF pol(3)]
    by (auto simp: seqs_after_def sorted_map sorted_wrt_map elim: sorted_wrt_mono_rel[rotated])
  then have "messages_of st' uuid = map stored_of_row ms"
    using none all by (simp add: messages_of_def st' sorted_sort_id sort_key_id_if_sorted)
  then have m: "messages_of st' uuid = map (as_stored S) (md_messages d)" using rows_back by simp
  have f: "find (\<lambda>r. sr_id r = uuid) (st_sessions st') = Some ?row"
    using fresh by (auto simp: st' intro!: find_fresh)
  show thesis
    by (rule that[OF r v pol f _ _ _ m]) (simp_all add: st' summary_of_row_def)
qed

end
