(* ===== verification/MtraceProps.thy ===== *)
theory MtraceProps
  imports MtraceFacts
begin

text \<open>
  The properties of artifacts: an imported artifact exports as itself, an encoded one decodes as
  itself, and what a portable document is allowed to hold.
\<close>

text \<open>The printer and parser on the small arrays of strings that the session row keeps.\<close>

definition strings_ok :: "serde \<Rightarrow> string list \<Rightarrow> bool" where
  "strings_ok S ks \<longleftrightarrow> codec_ok S (JArray (map JString ks))"

lemma those_map_Some: "those (map f xs) = Some ys \<longleftrightarrow> list_all2 (\<lambda>x y. f x = Some y) xs ys"
  by (induction xs arbitrary: ys) (auto simp: list_all2_Cons1 split: option.splits)

lemma parse_string_array_printed:
  assumes "strings_ok S ks"
  shows "parse_string_array S (print_json S (JArray (map JString ks))) = Some ks"
proof -
  have "those (map as_str (map JString ks)) = Some ks"
    by (simp add: those_map_Some list_all2_map1 list.rel_refl del: map_map)
  with assms show ?thesis by (simp add: parse_string_array_def strings_ok_def codec_ok_def)
qed

text \<open>Exporting with the policy the artifact already has.\<close>

definition keeps_policy :: "mtrace_document \<Rightarrow> export_options \<Rightarrow> bool" where
  "keeps_policy d options \<longleftrightarrow>
     (if ms_redaction_policy (md_session d) = ''none''
      then allow_unredacted options \<and> \<not> force_default_redaction options
      else \<not> (force_default_redaction options \<and> allow_unredacted options))"

lemma policy_as_str_none: "policy_as_str p = ''none'' \<longleftrightarrow> p = PolicyNone"
  by (cases p) simp_all

text \<open>
  C6: Importing a portable artifact and exporting the session again, with the policy it already
  has, gives back the same session description, the same messages and the same canonical digest,
  whatever was in the store before.
\<close>

theorem import_export_identity:
  assumes imported: "import_mtrace_document S st uuid d = Inr (r, st')"
    and fk: "foreign_keys st"
    and uuid: "length uuid = 36"
    and codec: "list_all (\<lambda>m. codec_ok S (mm_payload m)) (md_messages d)"
      "strings_ok S (ms_redaction_keys (md_session d))" "strings_ok S (ms_tags (md_session d))"
    and options: "keeps_policy d options"
  shows "\<exists>d'. export_mtrace_document S st' uuid options now ver = Inr d'
       \<and> md_session d' = md_session d \<and> md_messages d' = md_messages d
       \<and> canonical_digest S d' = canonical_digest S d"
proof -
  obtain policy row where v: "validate S d = Inr ()"
    and pol: "policy_from_storage (ms_redaction_policy (md_session d)) (ms_redaction_keys (md_session d)) = Inr policy"
      "policy_custom_keys policy = ms_redaction_keys (md_session d)"
      "validate_loop S policy None tracker_default (md_messages d) = Inr ()"
    and row: "find (\<lambda>r. sr_id r = uuid) (st_sessions st') = Some row"
      "uuid \<in> sr_id ` set (st_sessions st')"
    and summary: "summary_of_row row = \<lparr>su_id = uuid, su_client = ms_client (md_session d),
       su_server_command = ms_server_command (md_session d), su_transport = ms_transport (md_session d),
       su_started_at_ns = ms_started_at_ns (md_session d), su_ended_at_ns = ms_ended_at_ns (md_session d),
       su_total_messages = int (length (md_messages d)),
       su_dropped_messages = ms_dropped_messages (md_session d),
       su_redaction_policy = ms_redaction_policy (md_session d),
       su_redaction_keys_json = print_json S (JArray (map JString (ms_redaction_keys (md_session d))))\<rparr>"
    and tags: "sr_tags row = print_json S (JArray (map JString (ms_tags (md_session d))))"
    and msgs: "messages_of st' uuid = map (as_stored S) (md_messages d)"
    using import_result[OF imported fk] by metis
  have resolve: "resolve_session_id st' uuid = Inr uuid"
    using uuid row(2) by (simp add: resolve_session_id_def)
  have name: "policy_as_str policy = ms_redaction_policy (md_session d)"
    by (rule policy_name_from_storage[OF pol(1)])
  have eff: "effective_policy policy options = Inr policy"
    using options name policy_as_str_none[of policy]
    by (auto simp: effective_policy_def keeps_policy_def split: if_splits)
  have notboth: "\<not> (force_default_redaction options \<and> allow_unredacted options)"
    using options by (auto simp: keeps_policy_def split: if_splits)
  have ex: "export_messages S (redactor_new policy) tracker_default (map (as_stored S) (md_messages d))
      = Inr (md_messages d)"
    using export_messages_validated[OF from_storage_ok[OF pol(1)] pol(3)] codec(1)
    by (simp add: list_all_iff)
  have src: "redaction_policy_for_summary S (summary_of_row row) = Inr policy"
    using pol(1) codec(2) by (simp add: redaction_policy_for_summary_def summary parse_string_array_printed)
  have tg: "get_session_tags S st' uuid = Inr (ms_tags (md_session d))"
    using codec(3) tags row(1) resolve by (simp add: get_session_tags_def parse_string_array_printed)
  have gs: "get_session_summary st' uuid = Inr (summary_of_row row)"
    using resolve row(1) by (simp add: get_session_summary_def)
  have gm: "get_messages st' uuid = Inr (map (as_stored S) (md_messages d))"
    using resolve msgs by (simp add: get_messages_def)
  let ?d' = "\<lparr>md_format = FORMAT, md_version = VERSION, md_exported_at_ns = now,
      md_exporter = ''mcptracer/'' @ ver, md_session = md_session d, md_messages = md_messages d\<rparr>"
  have sid: "su_id (summary_of_row row) = uuid" by (simp add: summary)
  have "export_mtrace_document S st' uuid options now ver = Inr ?d'"
    using notboth
    by (simp add: export_mtrace_document_def bind_result_def gs eff lift_failed_def sid tg gm ex
        src [unfolded summary] summary name pol(2) del: export_messages.simps)
  moreover have "md_format d = FORMAT" "md_version d = VERSION"
    using v by (auto simp: validate_def split: if_splits)
  then have "canonical_digest S ?d' = canonical_digest S d"
    by (simp add: canonical_digest_def canonical_identity_def)
  ultimately show ?thesis by auto
qed

text \<open>An artifact with one notification, imported into an empty store.\<close>

definition note_payload :: json where
  "note_payload = JObject [(''method'', JString ''ping'')]"

definition note_serde :: serde where
  "note_serde = \<lparr>parse_json = (\<lambda>s. if s = ''n'' then Some note_payload else Some (JArray [])),
     print_json = (\<lambda>v. if v = note_payload then ''n'' else []), json_pointer = (\<lambda>v p. None),
     sha256_digest = (\<lambda>s. [])\<rparr>"

definition note_document :: mtrace_document where
  "note_document = \<lparr>md_format = FORMAT, md_version = VERSION, md_exported_at_ns = 5, md_exporter = [],
     md_session = \<lparr>ms_client = ''c'', ms_server_command = ''s'', ms_transport = ''stdio'',
       ms_started_at_ns = 1, ms_ended_at_ns = None, ms_redaction_policy = ''none'',
       ms_redaction_keys = [], ms_dropped_messages = 0, ms_tags = []\<rparr>,
     md_messages = [\<lparr>mm_seq = 0, mm_ts_ns = 1, mm_direction = ''c2s'',
       mm_message_kind = ''notification'', mm_rpc_id = None, mm_method = Some ''ping'',
       mm_tool_name = None, mm_payload = note_payload, mm_payload_bytes = 17,
       mm_is_error = False, mm_error_code = None\<rparr>]\<rparr>"

definition empty_store :: store where
  "empty_store = \<lparr>st_sessions = [], st_messages = [], st_baselines = [], st_next_baseline_id = 1\<rparr>"

definition note_uuid :: string where
  "note_uuid = replicate 36 (CHR ''0'')"

lemma note_validates: "validate note_serde note_document = Inr ()"
  by (simp add: validate_def note_document_def validate_message_def Let_def note_payload_def
      reject_message_field_payload_mismatch_def from_db_str_def m_kind_def is_response_def
      is_notification_def m_id_def m_method_def id_json_def m_tool_name_def m_is_error_def
      m_error_code_def observe_def enter_message_def responder_of_def tracked_id_def
      unredacted_sensitive_keys_with_context_def policy_from_storage_def policy_from_name_def
      tracker_default_def is_gap_def bt_get_def is_object_def FORMAT_def VERSION_def MAX_MESSAGES_def)

lemma note_imports:
  "\<exists>r st'. import_mtrace_document note_serde empty_store note_uuid note_document = Inr (r, st')"
  using note_validates
  by (simp add: import_mtrace_document_def bind_result_def lift_failed_def empty_store_def
      imported_row_def insert_message_def i64_try_from_def i64_max_def Let_def note_document_def)

lemma import_export_identity_witness:
  "\<exists>r st' d. import_mtrace_document note_serde empty_store note_uuid note_document = Inr (r, st')
     \<and> export_mtrace_document note_serde st' note_uuid
          \<lparr>force_default_redaction = False, allow_unredacted = True\<rparr> 9 ''1'' = Inr d
     \<and> md_messages d = md_messages note_document"
proof -
  obtain r st' where imp: "import_mtrace_document note_serde empty_store note_uuid note_document = Inr (r, st')"
    using note_imports by blast
  have "foreign_keys empty_store" "length note_uuid = 36"
    "list_all (\<lambda>m. codec_ok note_serde (mm_payload m)) (md_messages note_document)"
    "strings_ok note_serde (ms_redaction_keys (md_session note_document))"
    "strings_ok note_serde (ms_tags (md_session note_document))"
    "keeps_policy note_document \<lparr>force_default_redaction = False, allow_unredacted = True\<rparr>"
    by (simp_all add: foreign_keys_def empty_store_def note_uuid_def codec_ok_def strings_ok_def
        note_serde_def note_document_def note_payload_def keeps_policy_def)
  from import_export_identity[OF imp this, of 9 "''1''"] imp show ?thesis by blast
qed

end
