(* ===== verification/Merge.thy ===== *)
theory Merge
  imports Mtrace
begin

text \<open>
  Combining sessions and the baseline registry: \<open>merge_sessions\<close> with its deduplication of repeated
  calls, and the candidate, approved, superseded, revoked life cycle of named baselines
  (\<open>crates/mcptracer-storage/src/lib.rs\<close>).
\<close>

section \<open>Deduplication\<close>

fun contains_redacted_value :: "json \<Rightarrow> bool"
  and contains_redacted_items :: "json list \<Rightarrow> bool"
  and contains_redacted_members :: "(string \<times> json) list \<Rightarrow> bool" where
  "contains_redacted_value (JString text) \<longleftrightarrow> text = REDACTED_PLACEHOLDER"
| "contains_redacted_value (JArray xs) \<longleftrightarrow> contains_redacted_items xs"
| "contains_redacted_value (JObject ms) \<longleftrightarrow> contains_redacted_members ms"
| "contains_redacted_value _ \<longleftrightarrow> False"
| "contains_redacted_items [] \<longleftrightarrow> False"
| "contains_redacted_items (x # xs) \<longleftrightarrow> contains_redacted_value x \<or> contains_redacted_items xs"
| "contains_redacted_members [] \<longleftrightarrow> False"
| "contains_redacted_members ((k, v) # ms) \<longleftrightarrow>
     contains_redacted_value v \<or> contains_redacted_members ms"

fun canonical_json :: "serde \<Rightarrow> json \<Rightarrow> string"
  and canonical_json_items :: "serde \<Rightarrow> json list \<Rightarrow> string list"
  and canonical_json_members :: "serde \<Rightarrow> (string \<times> json) list \<Rightarrow> (string \<times> string) list" where
  "canonical_json S JNull = ''null''"
| "canonical_json S (JBool b) = bool_text b"
| "canonical_json S (JNumber n) = print_json S (JNumber n)"
| "canonical_json S (JString s) = print_json S (JString s)"
| "canonical_json S (JArray xs) = ''['' @ join '','' (canonical_json_items S xs) @ '']''"
| "canonical_json S (JObject ms) =
     ''{'' @ join '',''
       (map (\<lambda>(key, value). print_json S (JString key) @ '':'' @ value)
          (sort_key fst (canonical_json_members S ms))) @ ''}''"
| "canonical_json_items S [] = []"
| "canonical_json_items S (x # xs) = canonical_json S x # canonical_json_items S xs"
| "canonical_json_members S [] = []"
| "canonical_json_members S ((k, v) # ms) = (k, canonical_json S v) # canonical_json_members S ms"

record deduplication_key =
  dk_method :: string
  dk_tool_name :: "string option"
  dk_normalized_params :: string

definition dedup_key :: "serde \<Rightarrow> stored_message \<Rightarrow> deduplication_key option" where
  "dedup_key S message =
     Option.bind (msg_method message) (\<lambda>meth.
     Option.bind (parse_json S (msg_payload message)) (\<lambda>payload.
     Option.bind (as_object payload) (\<lambda>m.
       let params = (case bt_get m ''params'' of Some v \<Rightarrow> v | None \<Rightarrow> JNull)
       in if contains_redacted_value params then None
          else Some \<lparr>dk_method = meth, dk_tool_name = msg_tool_name message,
                     dk_normalized_params = canonical_json S params\<rparr>)))"

record dedup_state =
  dd_seen :: "deduplication_key set"
  dd_removed :: "u64 set"
  dd_pending :: "string \<rightharpoonup> bool"
  dd_removed_calls :: nat

definition dedup_request :: "serde \<Rightarrow> dedup_state \<Rightarrow> stored_message \<Rightarrow> dedup_state" where
  "dedup_request S st message =
     (let remove_request =
            (case dedup_key S message of Some key \<Rightarrow> key \<in> dd_seen st | None \<Rightarrow> False);
          st1 = st\<lparr>dd_seen := (case dedup_key S message of
                      Some key \<Rightarrow> insert key (dd_seen st) | None \<Rightarrow> dd_seen st)\<rparr>;
          st2 = (if remove_request
                 then st1\<lparr>dd_removed := insert (msg_seq message) (dd_removed st1),
                          dd_removed_calls := dd_removed_calls st1 + 1\<rparr>
                 else st1)
      in case msg_rpc_id message of
           Some rpc_id \<Rightarrow> st2\<lparr>dd_pending := (dd_pending st2)(rpc_id \<mapsto> remove_request)\<rparr>
         | None \<Rightarrow> st2)"

definition dedup_response :: "dedup_state \<Rightarrow> stored_message \<Rightarrow> dedup_state" where
  "dedup_response st message =
     (case msg_rpc_id message of
        None \<Rightarrow> st
      | Some rpc_id \<Rightarrow>
          let st1 = st\<lparr>dd_pending := (dd_pending st)(rpc_id := None)\<rparr>
          in if dd_pending st rpc_id = Some True
             then st1\<lparr>dd_removed := insert (msg_seq message) (dd_removed st1)\<rparr>
             else st1)"

definition dedup_step :: "serde \<Rightarrow> dedup_state \<Rightarrow> stored_message \<Rightarrow> dedup_state" where
  "dedup_step S st message =
     (if msg_direction message = ''c2s'' \<and> msg_kind message = ''request''
      then dedup_request S st message
      else if msg_direction message = ''s2c'' \<and> msg_kind message = ''response''
      then dedup_response st message
      else st)"

text \<open>One source: what stays of it, the calls removed, and the calls seen so far.\<close>

definition deduplicate_source_messages ::
  "serde \<Rightarrow> deduplication_key set \<Rightarrow> stored_message list
     \<Rightarrow> (stored_message list \<times> nat) \<times> deduplication_key set" where
  "deduplicate_source_messages S seen messages =
     (let st = foldl (dedup_step S)
                 \<lparr>dd_seen = seen, dd_removed = {}, dd_pending = Map.empty, dd_removed_calls = 0\<rparr> messages
      in ((filter (\<lambda>m. msg_seq m \<notin> dd_removed st) messages, dd_removed_calls st), dd_seen st))"

section \<open>Merging\<close>

record merge_result =
  mg_session_id :: string
  mg_source_session_ids :: "string list"
  mg_total_messages :: usize
  mg_deduplicated_calls :: usize

fun load_sources ::
  "store \<Rightarrow> string list \<Rightarrow> string list \<Rightarrow> store_error + (session_summary \<times> stored_message list) list" where
  "load_sources st seen [] = Inr []"
| "load_sources st seen (sid # rest) =
     bind_result (get_session_summary st sid) (\<lambda>summary.
       if su_id summary \<in> set seen
       then Inl (Failed (''source session was provided more than once: '' @ su_id summary))
       else
         bind_result (get_messages st (su_id summary)) (\<lambda>messages.
         bind_result (load_sources st (su_id summary # seen) rest) (\<lambda>sources.
           Inr ((summary, messages) # sources))))"

definition same_configuration :: "session_summary \<Rightarrow> session_summary \<Rightarrow> bool" where
  "same_configuration a b \<longleftrightarrow>
     su_transport a = su_transport b \<and> su_redaction_policy a = su_redaction_policy b
     \<and> su_redaction_keys_json a = su_redaction_keys_json b"

text \<open>\<open>checked_add\<close> over the dropped counters.\<close>

fun checked_sum :: "i64 \<Rightarrow> i64 list \<Rightarrow> i64 option" where
  "checked_sum acc [] = Some acc"
| "checked_sum acc (x # xs) = (if in_i64 (acc + x) then checked_sum (acc + x) xs else None)"

fun merge_messages ::
  "serde \<Rightarrow> bool \<Rightarrow> deduplication_key set \<Rightarrow> stored_message list list \<Rightarrow> stored_message list \<times> nat" where
  "merge_messages S deduplicate seen [] = ([], 0)"
| "merge_messages S deduplicate seen (messages # rest) =
     (if deduplicate
      then (let ((kept, removed), seen') = deduplicate_source_messages S seen messages;
                (others, removed_others) = merge_messages S deduplicate seen' rest
            in (kept @ others, removed + removed_others))
      else (let (others, removed_others) = merge_messages S deduplicate seen rest
            in (messages @ others, removed_others)))"

text \<open>Rows are numbered by position; the payload text is copied.\<close>

definition merged_row :: "string \<Rightarrow> nat \<Rightarrow> stored_message \<Rightarrow> store_error + message_row" where
  "merged_row session_id seq message =
     (case (i64_try_from seq, i64_try_from (msg_payload_bytes message)) of
        (None, _) \<Rightarrow> Inl (Failed ''merged sequence exceeds i64'')
      | (_, None) \<Rightarrow> Inl (Failed ''merged payload size exceeds i64'')
      | (Some n, Some payload_bytes) \<Rightarrow>
          Inr \<lparr>mr_session_id = session_id, mr_seq = n, mr_ts = msg_ts_ns message,
               mr_direction = msg_direction message, mr_message_kind = msg_kind message,
               mr_rpc_id = msg_rpc_id message, mr_method = msg_method message,
               mr_tool_name = msg_tool_name message, mr_payload = msg_payload message,
               mr_payload_bytes = payload_bytes, mr_is_error = (if msg_is_error message then 1 else 0),
               mr_error_code = msg_error_code message\<rparr>)"

fun insert_merged :: "string \<Rightarrow> nat \<Rightarrow> store \<Rightarrow> stored_message list \<Rightarrow> store_error + store" where
  "insert_merged session_id seq st [] = Inr st"
| "insert_merged session_id seq st (m # ms) =
     bind_result (merged_row session_id seq m) (\<lambda>row.
     bind_result (insert_message st row) (\<lambda>st'. insert_merged session_id (seq + 1) st' ms))"

definition merge_ended_at :: "session_summary list \<Rightarrow> i64 option" where
  "merge_ended_at summaries =
     (if list_all (\<lambda>s. su_ended_at_ns s \<noteq> None) summaries
      then (case List.map_filter su_ended_at_ns summaries of [] \<Rightarrow> None | x # xs \<Rightarrow> Some (foldl max x xs))
      else None)"

text \<open>The row of the merged session: the sources' common configuration and combined counters.\<close>

definition merged_session :: "serde \<Rightarrow> string \<Rightarrow> session_summary list \<Rightarrow> i64 \<Rightarrow> i64 \<Rightarrow> session_row" where
  "merged_session S uuid summaries total_messages dropped_messages =
     (let reference = hd summaries;
          tags = ''merged'' # map (\<lambda>s. ''source:'' @ su_id s) summaries
      in \<lparr>sr_id = uuid, sr_client = ''mcptracer merge'', sr_server_command = ''merged sessions'',
          sr_transport = su_transport reference,
          sr_started_at = foldl min (su_started_at_ns reference) (map su_started_at_ns summaries),
          sr_ended_at = merge_ended_at summaries,
          sr_total_messages = total_messages, sr_dropped_messages = dropped_messages,
          sr_redaction_policy = su_redaction_policy reference,
          sr_redaction_keys = su_redaction_keys_json reference,
          sr_tags = print_json S (JArray (map JString tags))\<rparr>)"

definition merge_sessions ::
  "serde \<Rightarrow> store \<Rightarrow> string \<Rightarrow> string list \<Rightarrow> bool \<Rightarrow> store_error + (merge_result \<times> store)" where
  "merge_sessions S st uuid source_session_ids deduplicate =
     (if length source_session_ids < 2
      then Inl (Failed ''merge requires at least two source sessions'')
      else bind_result (load_sources st [] source_session_ids) (\<lambda>sources.
        let summaries = map fst sources in
        if list_ex (\<lambda>s. \<not> same_configuration s (hd summaries)) summaries
        then Inl (Failed ''cannot merge sessions with different transports or redaction configurations'')
        else case checked_sum 0 (map su_dropped_messages summaries) of
          None \<Rightarrow> Inl (Failed ''merged dropped-message count exceeds i64'')
        | Some dropped_messages \<Rightarrow>
            let (merged, deduplicated_calls) = merge_messages S deduplicate {} (map snd sources)
            in case i64_try_from (length merged) of
                 None \<Rightarrow> Inl (Failed ''merged message count exceeds i64'')
               | Some total_messages \<Rightarrow>
                   let row = merged_session S uuid summaries total_messages dropped_messages
                   in if uuid \<in> sr_id ` set (st_sessions st) then Inl SqlError
                      else bind_result
                             (insert_merged uuid 0 (st\<lparr>st_sessions := st_sessions st @ [row]\<rparr>) merged)
                             (\<lambda>st'. Inr (\<lparr>mg_session_id = uuid,
                                          mg_source_session_ids = map su_id summaries,
                                          mg_total_messages = length merged,
                                          mg_deduplicated_calls = deduplicated_calls\<rparr>, st'))))"

section \<open>Baselines\<close>

definition in_slot :: "string \<Rightarrow> string \<Rightarrow> string \<Rightarrow> baseline \<Rightarrow> bool" where
  "in_slot project scenario environment b \<longleftrightarrow>
     bl_project b = project \<and> bl_scenario b = scenario \<and> bl_environment b = environment"

definition create_baseline_candidate ::
  "store \<Rightarrow> string \<Rightarrow> string \<Rightarrow> string \<Rightarrow> string \<Rightarrow> i64 \<Rightarrow> store_error + (nat \<times> store)" where
  "create_baseline_candidate st project scenario environment session_id created_at_ns =
     (if session_id \<notin> sr_id ` set (st_sessions st)
      then Inl (Failed ''failed to register baseline candidate'')
      else Inr (st_next_baseline_id st,
        st\<lparr>st_baselines := st_baselines st @
             [\<lparr>bl_id = st_next_baseline_id st, bl_project = project, bl_scenario = scenario,
               bl_environment = environment, bl_session_id = session_id, bl_state = ''candidate'',
               bl_digest = None, bl_promoted_by = None, bl_promoted_at = None,
               bl_promotion_reason = None, bl_revoked_at = None, bl_revoked_reason = None,
               bl_created_at = created_at_ns\<rparr>],
           st_next_baseline_id := st_next_baseline_id st + 1\<rparr>))"

definition supersede :: "string \<Rightarrow> string \<Rightarrow> string \<Rightarrow> baseline \<Rightarrow> baseline" where
  "supersede project scenario environment b =
     (if in_slot project scenario environment b \<and> bl_state b = ''approved''
      then b\<lparr>bl_state := ''superseded''\<rparr> else b)"

definition promote_baseline ::
  "store \<Rightarrow> string \<Rightarrow> string \<Rightarrow> string \<Rightarrow> string \<Rightarrow> string \<Rightarrow> string \<Rightarrow> string \<Rightarrow> i64
     \<Rightarrow> store_error + store" where
  "promote_baseline st project scenario environment session_id digest promoted_by reason promoted_at_ns =
     (case find (\<lambda>b. in_slot project scenario environment b \<and> bl_session_id b = session_id
                   \<and> bl_state b = ''candidate'') (st_baselines st) of
        None \<Rightarrow> Inl (Failed (''no candidate baseline for project='' @ project @ '' scenario='' @ scenario
                  @ '' environment='' @ environment @ '' session='' @ session_id
                  @ ''; register one first with `mcptracer baseline candidate`''))
      | Some candidate \<Rightarrow>
          Inr (st\<lparr>st_baselines :=
            map (\<lambda>b. if bl_id b = bl_id candidate
                     then b\<lparr>bl_state := ''approved'', bl_digest := Some digest,
                            bl_promoted_by := Some promoted_by, bl_promoted_at := Some promoted_at_ns,
                            bl_promotion_reason := Some reason\<rparr>
                     else b)
              (map (supersede project scenario environment) (st_baselines st))\<rparr>))"

definition revoke_baseline ::
  "store \<Rightarrow> string \<Rightarrow> string \<Rightarrow> string \<Rightarrow> string \<Rightarrow> i64 \<Rightarrow> store_error + store" where
  "revoke_baseline st project scenario environment reason revoked_at_ns =
     (if \<not> list_ex (\<lambda>b. in_slot project scenario environment b \<and> bl_state b = ''approved'') (st_baselines st)
      then Inl (Failed (''no approved baseline for project='' @ project @ '' scenario='' @ scenario
                  @ '' environment='' @ environment))
      else Inr (st\<lparr>st_baselines :=
        map (\<lambda>b. if in_slot project scenario environment b \<and> bl_state b = ''approved''
                 then b\<lparr>bl_state := ''revoked'', bl_revoked_at := Some revoked_at_ns,
                        bl_revoked_reason := Some reason\<rparr>
                 else b) (st_baselines st)\<rparr>))"

definition resolve_approved_baseline ::
  "store \<Rightarrow> string \<Rightarrow> string \<Rightarrow> string \<Rightarrow> store_error + baseline" where
  "resolve_approved_baseline st project scenario environment =
     (case find (\<lambda>b. in_slot project scenario environment b \<and> bl_state b = ''approved'') (st_baselines st) of
        Some b \<Rightarrow> Inr b
      | None \<Rightarrow> Inl (Failed (''no approved baseline for project='' @ project @ '' scenario='' @ scenario
                  @ '' environment='' @ environment)))"

definition list_baselines :: "store \<Rightarrow> string option \<Rightarrow> baseline list" where
  "list_baselines st project =
     sort_key (\<lambda>b. (- bl_created_at b, - int (bl_id b)))
       (filter (\<lambda>b. case project of None \<Rightarrow> True | Some p \<Rightarrow> bl_project b = p) (st_baselines st))"

end
