(* ===== verification/StoreProps.thy ===== *)
theory StoreProps
  imports Merge MtraceFacts
begin

text \<open>
  The store as a state machine: sessions have distinct identifiers, every message belongs to a
  session, and no session has two messages with one sequence number, whatever methods ran.
\<close>

definition store_ok :: "store \<Rightarrow> bool" where
  "store_ok st \<longleftrightarrow>
     distinct (map sr_id (st_sessions st)) \<and> foreign_keys st
     \<and> distinct (map (\<lambda>m. (mr_session_id m, mr_seq m)) (st_messages st))"

lemma store_ok_insert:
  assumes "store_ok st" "insert_message st row = Inr st'"
  shows "store_ok st'"
proof -
  from assms(2) have st': "st' = st\<lparr>st_messages := st_messages st @ [row]\<rparr>"
    and known: "mr_session_id row \<in> sr_id ` set (st_sessions st)"
    and fresh: "\<not> list_ex (\<lambda>m. mr_session_id m = mr_session_id row \<and> mr_seq m = mr_seq row) (st_messages st)"
    by (auto simp: insert_message_def split: if_splits)
  from fresh have "(mr_session_id row, mr_seq row) \<notin> (\<lambda>m. (mr_session_id m, mr_seq m)) ` set (st_messages st)"
    by (auto simp: list_ex_iff)
  with assms(1) known show ?thesis
    by (simp add: store_ok_def foreign_keys_def st')
qed

lemma store_ok_inserts: "insert_messages st rows = Inr st' \<Longrightarrow> store_ok st \<Longrightarrow> store_ok st'"
  by (induction st rows rule: insert_messages.induct) (auto split: sum.splits dest: store_ok_insert)

lemma store_ok_update:
  "store_ok st \<Longrightarrow> (\<And>r. sr_id (f r) = sr_id r) \<Longrightarrow> store_ok (update_session sid f st)"
proof -
  assume st: "store_ok st" and f: "\<And>r. sr_id (f r) = sr_id r"
  have "map sr_id (st_sessions (update_session sid f st)) = map sr_id (st_sessions st)"
    by (simp add: update_session_def f)
  then have "sr_id ` set (st_sessions (update_session sid f st)) = sr_id ` set (st_sessions st)"
    by (metis set_map)
  with st f show ?thesis
    by (simp add: store_ok_def foreign_keys_def update_session_def comp_def if_distrib cong: if_cong)
qed

lemma store_ok_create:
  "store_ok st \<Longrightarrow> sr_id row \<notin> sr_id ` set (st_sessions st)
   \<Longrightarrow> store_ok (st\<lparr>st_sessions := st_sessions st @ [row]\<rparr>)"
  by (auto simp: store_ok_def foreign_keys_def)

lemma bind_Inr: "bind_result x f = Inr y \<longleftrightarrow> (\<exists>v. x = Inr v \<and> f v = Inr y)"
  by (cases x) (auto simp: bind_result_def)

lemma store_ok_import_rows: "import_rows S sid st ms = Inr st' \<Longrightarrow> store_ok st \<Longrightarrow> store_ok st'"
  by (induction S sid st ms rule: import_rows.induct) (auto simp: bind_Inr dest: store_ok_insert)

lemma store_ok_insert_merged: "insert_merged sid n st ms = Inr st' \<Longrightarrow> store_ok st \<Longrightarrow> store_ok st'"
  by (induction sid n st ms rule: insert_merged.induct) (auto simp: bind_Inr dest: store_ok_insert)

lemma store_ok_import:
  "import_mtrace_document S st uuid d = Inr (r, st') \<Longrightarrow> store_ok st \<Longrightarrow> store_ok st'"
  by (auto simp: import_mtrace_document_def bind_Inr Let_def split: option.splits if_splits
      dest!: store_ok_import_rows intro!: store_ok_create)

lemma merge_sessions_Inr:
  assumes "merge_sessions S st uuid srcs dedup = Inr (r, st')"
  obtains sources n d where "load_sources st [] srcs = Inr sources" "length srcs \<ge> 2"
    "list_all (\<lambda>s. same_configuration s (hd (map fst sources))) (map fst sources)"
    "uuid \<notin> sr_id ` set (st_sessions st)"
    "checked_sum 0 (map su_dropped_messages (map fst sources)) = Some d"
    "insert_merged uuid 0 (st\<lparr>st_sessions := st_sessions st @ [merged_session S uuid (map fst sources) n d]\<rparr>)
       (fst (merge_messages S dedup {} (map snd sources))) = Inr st'"
    "mg_session_id r = uuid"
    "mg_total_messages r = length (fst (merge_messages S dedup {} (map snd sources)))"
    "mg_deduplicated_calls r = snd (merge_messages S dedup {} (map snd sources))"
proof -
  from assms obtain sources where src: "load_sources st [] srcs = Inr sources" and len: "length srcs \<ge> 2"
    by (auto simp: merge_sessions_def bind_Inr split: if_splits)
  note rest = assms[unfolded merge_sessions_def bind_result_def src Let_def case_prod_beta]
  from rest len that[OF src len] show thesis
    by (auto simp: list_ex_iff list_all_iff bind_result_def split: if_splits option.splits sum.splits)
qed

lemma merged_session_id [simp]: "sr_id (merged_session S uuid summaries n d) = uuid"
  by (simp add: merged_session_def Let_def)

lemma store_ok_merge: "merge_sessions S st uuid srcs dedup = Inr (r, st') \<Longrightarrow> store_ok st \<Longrightarrow> store_ok st'"
  by (elim merge_sessions_Inr) (auto dest!: store_ok_insert_merged intro!: store_ok_create)

end
