(* ===== verification/MergeProps.thy ===== *)
theory MergeProps
  imports StoreProps
begin

text \<open>
  Merging keeps every call exactly once when it deduplicates, everything when it does not, and
  numbers the merged messages by position.
\<close>

section \<open>First occurrences\<close>

fun first_keys :: "'a set \<Rightarrow> 'a list \<Rightarrow> 'a list" where
  "first_keys seen [] = []"
| "first_keys seen (k # ks) =
     (if k \<in> seen then first_keys seen ks else k # first_keys (insert k seen) ks)"

lemma first_keys_append:
  "first_keys seen (xs @ ys) = first_keys seen xs @ first_keys (seen \<union> set xs) ys"
  by (induction xs arbitrary: seen) (auto simp: insert_absorb)

lemma set_first_keys: "set (first_keys seen ks) = set ks - seen"
  by (induction ks arbitrary: seen) auto

lemma distinct_first_keys: "distinct (first_keys seen ks)"
  by (induction ks arbitrary: seen) (auto simp: set_first_keys)

section \<open>One source\<close>

text \<open>The identity of a client call that deduplication compares, when it has one.\<close>

definition call_key :: "serde \<Rightarrow> stored_message \<Rightarrow> deduplication_key option" where
  "call_key S m =
     (if msg_direction m = ''c2s'' \<and> msg_kind m = ''request'' then dedup_key S m else None)"

definition call_keys :: "serde \<Rightarrow> stored_message list \<Rightarrow> deduplication_key list" where
  "call_keys S ms = List.map_filter (call_key S) ms"

lemma call_keys_append: "call_keys S (xs @ ys) = call_keys S xs @ call_keys S ys"
  by (simp add: call_keys_def List.map_filter_def)

lemma call_keys_Cons: "call_keys S (x # xs) = (case call_key S x of Some k \<Rightarrow> k # call_keys S xs | None \<Rightarrow> call_keys S xs)"
  by (simp add: call_keys_def List.map_filter_def split: option.splits)

definition dedup_start :: "deduplication_key set \<Rightarrow> dedup_state" where
  "dedup_start seen = \<lparr>dd_seen = seen, dd_removed = {}, dd_pending = Map.empty, dd_removed_calls = 0\<rparr>"

definition answers_call :: "stored_message \<Rightarrow> bool" where
  "answers_call m \<longleftrightarrow> msg_direction m = ''s2c'' \<and> msg_kind m = ''response'' \<and> msg_rpc_id m \<noteq> None"

lemma dedup_request_fields:
  assumes "st' = dedup_request S st m"
  shows "dd_seen st' = (case dedup_key S m of Some k \<Rightarrow> insert k (dd_seen st) | None \<Rightarrow> dd_seen st)"
    and "dd_removed st' = (case dedup_key S m of
            Some k \<Rightarrow> if k \<in> dd_seen st then insert (msg_seq m) (dd_removed st) else dd_removed st
          | None \<Rightarrow> dd_removed st)"
    and "dd_removed_calls st' = dd_removed_calls st + (case dedup_key S m of
            Some k \<Rightarrow> if k \<in> dd_seen st then 1 else 0 | None \<Rightarrow> 0)"
  using assms by (auto simp: dedup_request_def Let_def split: option.splits)

lemma dedup_response_fields:
  assumes "st' = dedup_response st m"
  shows "dd_seen st' = dd_seen st" "dd_removed_calls st' = dd_removed_calls st"
    "dd_removed st' = dd_removed st
       \<or> (msg_rpc_id m \<noteq> None \<and> dd_removed st' = insert (msg_seq m) (dd_removed st))"
  using assms by (auto simp: dedup_response_def Let_def split: option.splits)

text \<open>One message: what it adds to the seen keys and to the removed sequence numbers.\<close>

lemma dedup_step_fields:
  "dd_seen (dedup_step S st m) = (case call_key S m of Some k \<Rightarrow> insert k (dd_seen st) | None \<Rightarrow> dd_seen st)"
  "dd_removed_calls (dedup_step S st m) = dd_removed_calls st
     + (case call_key S m of Some k \<Rightarrow> if k \<in> dd_seen st then 1 else 0 | None \<Rightarrow> 0)"
  "(case call_key S m of
      Some k \<Rightarrow> dd_removed (dedup_step S st m)
                  = (if k \<in> dd_seen st then insert (msg_seq m) (dd_removed st) else dd_removed st)
    | None \<Rightarrow> dd_removed (dedup_step S st m) = dd_removed st
         \<or> (answers_call m \<and> dd_removed (dedup_step S st m) = insert (msg_seq m) (dd_removed st)))"
  using dedup_request_fields[OF refl, of S st m] dedup_response_fields[OF refl, of st m]
  by (auto simp: dedup_step_def call_key_def answers_call_def split: option.splits)

lemma dedup_run:
  fixes S seen
  assumes "distinct (map msg_seq ms)"
  defines "st \<equiv> foldl (dedup_step S) (dedup_start seen) ms"
  shows "dd_seen st = seen \<union> set (call_keys S ms)
    \<and> dd_removed st \<subseteq> msg_seq ` set ms
    \<and> call_keys S (filter (\<lambda>m. msg_seq m \<notin> dd_removed st) ms) = first_keys seen (call_keys S ms)
    \<and> (\<forall>m \<in> set ms. msg_seq m \<in> dd_removed st \<longrightarrow> call_key S m \<noteq> None \<or> answers_call m)
    \<and> dd_removed_calls st + length (first_keys seen (call_keys S ms)) = length (call_keys S ms)"
  using assms(1) unfolding st_def
proof (induction ms rule: rev_induct)
  case Nil
  show ?case by (simp add: dedup_start_def call_keys_def List.map_filter_def)
next
  case (snoc m ms)
  let ?st = "foldl (dedup_step S) (dedup_start seen) ms"
  let ?st' = "dedup_step S ?st m"
  from snoc have IH: "dd_seen ?st = seen \<union> set (call_keys S ms)" "dd_removed ?st \<subseteq> msg_seq ` set ms"
    "call_keys S (filter (\<lambda>m. msg_seq m \<notin> dd_removed ?st) ms) = first_keys seen (call_keys S ms)"
    "\<forall>m \<in> set ms. msg_seq m \<in> dd_removed ?st \<longrightarrow> call_key S m \<noteq> None \<or> answers_call m"
    "dd_removed_calls ?st + length (first_keys seen (call_keys S ms)) = length (call_keys S ms)"
    and fresh: "msg_seq m \<notin> msg_seq ` set ms" by auto
  have ne: "\<forall>x \<in> set ms. msg_seq x \<noteq> msg_seq m" using fresh by (metis imageI)
  note step = dedup_step_fields[of S ?st m]
  have rem: "dd_removed ?st' = dd_removed ?st \<or> dd_removed ?st' = insert (msg_seq m) (dd_removed ?st)"
    using step(3) by (auto split: option.splits if_splits)
  have same: "filter (\<lambda>m. msg_seq m \<notin> dd_removed ?st') ms = filter (\<lambda>m. msg_seq m \<notin> dd_removed ?st) ms"
    using rem ne by (auto intro!: filter_cong)
  have here: "msg_seq m \<in> dd_removed ?st' \<longleftrightarrow> dd_removed ?st' \<noteq> dd_removed ?st"
    using rem IH(2) fresh by auto
  have keys: "call_keys S [m] = (case call_key S m of Some k \<Rightarrow> [k] | None \<Rightarrow> [])"
    by (simp add: call_keys_def List.map_filter_def split: option.splits)
  have kept: "call_keys S (filter (\<lambda>m. msg_seq m \<notin> dd_removed ?st') [m])
      = first_keys (seen \<union> set (call_keys S ms)) (call_keys S [m])"
    using step(3) here IH(1,2) fresh keys
    by (auto simp: call_keys_def List.map_filter_def split: option.splits if_splits)
  let ?ks = "seen \<union> set (call_keys S ms)"
  have first: "first_keys seen (call_keys S (ms @ [m]))
      = first_keys seen (call_keys S ms) @ first_keys ?ks (call_keys S [m])"
    by (simp add: call_keys_append first_keys_append)
  have "dd_seen ?st' = seen \<union> set (call_keys S (ms @ [m]))"
    using step(1) IH(1) keys by (simp add: call_keys_append split: option.splits)
  moreover have "dd_removed ?st' \<subseteq> msg_seq ` set (ms @ [m])" using rem IH(2) by auto
  moreover have "call_keys S (filter (\<lambda>m. msg_seq m \<notin> dd_removed ?st') (ms @ [m]))
      = first_keys seen (call_keys S (ms @ [m]))"
    unfolding filter_append call_keys_append[of S "filter _ ms"] same IH(3) kept first ..
  moreover have "\<forall>x \<in> set (ms @ [m]). msg_seq x \<in> dd_removed ?st' \<longrightarrow> call_key S x \<noteq> None \<or> answers_call x"
  proof
    fix x assume "x \<in> set (ms @ [m])"
    then consider "x \<in> set ms" | "x = m" by auto
    then show "msg_seq x \<in> dd_removed ?st' \<longrightarrow> call_key S x \<noteq> None \<or> answers_call x"
    proof cases
      case 1
      then show ?thesis using rem ne IH(4) by auto
    next
      case 2
      then show ?thesis using here step(3) by (auto split: option.splits)
    qed
  qed
  moreover have "dd_removed_calls ?st' + length (first_keys seen (call_keys S (ms @ [m])))
      = length (call_keys S (ms @ [m]))"
    unfolding first using step(2) IH(1,5) keys by (auto simp: call_keys_append split: option.splits)
  ultimately show ?case by simp
qed

section \<open>What stays of one source\<close>

text \<open>
  By positions and without the program's state: a call is repeated when its key was seen in an earlier
  source or at an earlier position; an answer belongs to the latest call with its id that no other
  answer took before it; a message stays unless it is a repeated call or the answer of one.
\<close>

definition is_call :: "stored_message \<Rightarrow> bool" where
  "is_call m \<longleftrightarrow> msg_direction m = ''c2s'' \<and> msg_kind m = ''request''"

definition repeated_at :: "serde \<Rightarrow> deduplication_key set \<Rightarrow> stored_message list \<Rightarrow> nat \<Rightarrow> bool" where
  "repeated_at S seen ms i \<longleftrightarrow>
     (\<exists>k. call_key S (ms ! i) = Some k \<and> (k \<in> seen \<or> (\<exists>j < i. call_key S (ms ! j) = Some k)))"

definition open_call_at :: "stored_message list \<Rightarrow> nat \<Rightarrow> string \<Rightarrow> nat \<Rightarrow> bool" where
  "open_call_at ms n rid i \<longleftrightarrow> i < n \<and> is_call (ms ! i) \<and> msg_rpc_id (ms ! i) = Some rid
     \<and> (\<forall>l. i < l \<longrightarrow> l < n \<longrightarrow> msg_rpc_id (ms ! l) = Some rid \<longrightarrow> \<not> is_call (ms ! l) \<and> \<not> answers_call (ms ! l))"

definition stays_at :: "serde \<Rightarrow> deduplication_key set \<Rightarrow> stored_message list \<Rightarrow> nat \<Rightarrow> bool" where
  "stays_at S seen ms j \<longleftrightarrow> \<not> repeated_at S seen ms j
     \<and> \<not> (answers_call (ms ! j) \<and> (\<exists>rid i. msg_rpc_id (ms ! j) = Some rid \<and> open_call_at ms j rid i \<and> repeated_at S seen ms i))"

fun surviving :: "serde \<Rightarrow> deduplication_key set \<Rightarrow> stored_message list list \<Rightarrow> stored_message list" where
  "surviving S seen [] = []"
| "surviving S seen (ms # rest) =
     nths ms {j. stays_at S seen ms j} @ surviving S (seen \<union> set (call_keys S ms)) rest"

lemma open_call_unique: "open_call_at ms n rid i \<Longrightarrow> open_call_at ms n rid i' \<Longrightarrow> i = i'"
  by (metis linorder_neqE_nat open_call_at_def)

lemma open_call_Suc:
  "open_call_at ms (Suc n) rid i \<longleftrightarrow>
     (if msg_rpc_id (ms ! n) = Some rid \<and> is_call (ms ! n) then i = n
      else if msg_rpc_id (ms ! n) = Some rid \<and> answers_call (ms ! n) then False
      else open_call_at ms n rid i)"
  by (auto simp: open_call_at_def less_Suc_eq is_call_def answers_call_def)

lemma set_call_keys_take:
  "n \<le> length ms \<Longrightarrow> k \<in> set (call_keys S (take n ms)) \<longleftrightarrow> (\<exists>j < n. call_key S (ms ! j) = Some k)"
  by (force simp: call_keys_def List.map_filter_def in_set_conv_nth image_iff)

lemma repeated_iff:
  "n < length ms \<Longrightarrow> repeated_at S seen ms n \<longleftrightarrow>
     (case call_key S (ms ! n) of Some k \<Rightarrow> k \<in> seen \<union> set (call_keys S (take n ms)) | None \<Rightarrow> False)"
  by (auto simp: repeated_at_def set_call_keys_take split: option.splits)

lemma dedup_exact:
  fixes S seen
  assumes "distinct (map msg_seq ms)" "n \<le> length ms"
  defines "st \<equiv> \<lambda>n. foldl (dedup_step S) (dedup_start seen) (take n ms)"
  shows "(\<forall>rid b. dd_pending (st n) rid = Some b \<longleftrightarrow> (\<exists>i. open_call_at ms n rid i \<and> b = repeated_at S seen ms i))
    \<and> dd_removed (st n) = {msg_seq (ms ! j) | j. j < n \<and> \<not> stays_at S seen ms j}"
  using assms(2)
proof (induction n)
  case 0
  show ?case by (simp add: st_def dedup_start_def open_call_at_def)
next
  case (Suc n)
  let ?m = "ms ! n" and ?st = "st n"
  have n: "n < length ms" using Suc.prems by simp
  have next_st: "st (Suc n) = dedup_step S ?st ?m" using n by (simp add: st_def take_Suc_conv_app_nth)
  have pending: "dd_pending ?st rid = Some b \<longleftrightarrow> (\<exists>i. open_call_at ms n rid i \<and> b = repeated_at S seen ms i)" for rid b
    using Suc by simp
  have removed: "dd_removed ?st = {msg_seq (ms ! j) | j. j < n \<and> \<not> stays_at S seen ms j}" using Suc by simp
  have "distinct (map msg_seq (take n ms))" using assms(1) by (metis distinct_take take_map)
  then have seen: "dd_seen ?st = seen \<union> set (call_keys S (take n ms))"
    using dedup_run[of "take n ms" S seen] by (simp add: st_def)
  have repeated: "repeated_at S seen ms n \<longleftrightarrow> (case call_key S ?m of Some k \<Rightarrow> k \<in> dd_seen ?st | None \<Rightarrow> False)"
    using repeated_iff[OF n, of S seen] by (simp only: seen)
  have grow: "{msg_seq (ms ! j) | j. j < Suc n \<and> \<not> stays_at S seen ms j}
      = (if stays_at S seen ms n then dd_removed ?st else insert (msg_seq ?m) (dd_removed ?st))"
    by (auto simp: removed less_Suc_eq)
  consider (call) "is_call ?m" | (answer) "answers_call ?m" "\<not> is_call ?m" | (other) "\<not> is_call ?m" "\<not> answers_call ?m" by blast
  then show ?case
  proof cases
    case call
    then have key: "call_key S ?m = dedup_key S ?m" and not: "\<not> answers_call ?m"
      and step: "st (Suc n) = dedup_request S ?st ?m"
      by (auto simp: call_key_def is_call_def answers_call_def next_st dedup_step_def)
    have stays: "stays_at S seen ms n \<longleftrightarrow> \<not> repeated_at S seen ms n" using not by (simp add: stays_at_def)
    have p: "dd_pending (st (Suc n)) = (case msg_rpc_id ?m of Some rid \<Rightarrow> (dd_pending ?st)(rid \<mapsto> repeated_at S seen ms n)
        | None \<Rightarrow> dd_pending ?st)"
      unfolding step using repeated key by (auto simp: dedup_request_def Let_def split: option.splits)
    have "dd_removed (st (Suc n)) = {msg_seq (ms ! j) | j. j < Suc n \<and> \<not> stays_at S seen ms j}"
      unfolding grow stays using dedup_request_fields(2)[OF step] repeated key by (auto split: option.splits)
    moreover have "dd_pending (st (Suc n)) rid = Some b \<longleftrightarrow>
        (\<exists>i. open_call_at ms (Suc n) rid i \<and> b = repeated_at S seen ms i)" for rid b
      unfolding open_call_Suc p using call not pending by (auto split: option.splits)
    ultimately show ?thesis by blast
  next
    case answer
    then obtain rid where rid: "msg_rpc_id ?m = Some rid" by (auto simp: answers_call_def)
    have step: "st (Suc n) = dedup_response ?st ?m"
      using answer by (auto simp: is_call_def answers_call_def next_st dedup_step_def)
    have "\<not> repeated_at S seen ms n" using answer(2) by (auto simp: repeated_at_def call_key_def is_call_def)
    then have stays: "stays_at S seen ms n \<longleftrightarrow> dd_pending ?st rid \<noteq> Some True"
      using answer rid pending[of rid True] by (auto simp: stays_at_def)
    have "dd_removed (st (Suc n)) = {msg_seq (ms ! j) | j. j < Suc n \<and> \<not> stays_at S seen ms j}"
      unfolding grow stays step by (simp add: dedup_response_def rid Let_def)
    moreover have "dd_pending (st (Suc n)) rid' = Some b \<longleftrightarrow>
        (\<exists>i. open_call_at ms (Suc n) rid' i \<and> b = repeated_at S seen ms i)" for rid' b
      unfolding open_call_Suc step using answer rid pending by (auto simp: dedup_response_def Let_def)
    ultimately show ?thesis by blast
  next
    case other
    then have "stays_at S seen ms n" by (auto simp: stays_at_def repeated_at_def call_key_def is_call_def)
    moreover have "dd_pending (st (Suc n)) = dd_pending ?st \<and> dd_removed (st (Suc n)) = dd_removed ?st"
      using other by (auto simp: next_st dedup_step_def dedup_response_def is_call_def answers_call_def split: option.splits)
    ultimately show ?thesis using other pending by (simp only: grow) (simp add: open_call_Suc)
  qed
qed

lemma deduplicate_source_exact:
  assumes "distinct (map msg_seq ms)" "deduplicate_source_messages S seen ms = ((kept, n), seen')"
  shows "kept = nths ms {j. stays_at S seen ms j}"
proof -
  let ?st = "foldl (dedup_step S) (dedup_start seen) ms"
  have "dd_removed ?st = {msg_seq (ms ! j) | j. j < length ms \<and> \<not> stays_at S seen ms j}"
    using dedup_exact[OF assms(1) order_refl, of S seen] by simp
  then have stays: "msg_seq (ms ! i) \<in> dd_removed ?st \<longleftrightarrow> \<not> stays_at S seen ms i" if "i < length ms" for i
    using that assms(1) by (auto simp: distinct_conv_nth)
  have "nths ms {i. i < length ms \<and> msg_seq (ms ! i) \<notin> dd_removed ?st} = nths ms {j. stays_at S seen ms j}"
    unfolding nths_def by (intro arg_cong[of _ _ "map fst"] filter_cong) (auto simp: set_zip stays)
  moreover have "kept = filter (\<lambda>m. msg_seq m \<notin> dd_removed ?st) ms"
    using assms(2) by (simp add: deduplicate_source_messages_def dedup_start_def Let_def)
  ultimately show ?thesis by (simp add: filter_eq_nths)
qed

section \<open>All sources\<close>

lemma deduplicate_source:
  assumes "distinct (map msg_seq ms)" "deduplicate_source_messages S seen ms = ((kept, n), seen')"
  shows "seen' = seen \<union> set (call_keys S ms)" "call_keys S kept = first_keys seen (call_keys S ms)"
    "subseq kept ms" "length (call_keys S ms) = n + length (call_keys S kept)"
    "\<And>m. m \<in> set ms \<Longrightarrow> call_key S m = None \<Longrightarrow> \<not> answers_call m \<Longrightarrow> m \<in> set kept"
  using assms(2) dedup_run[OF assms(1), of S seen]
  by (auto simp: deduplicate_source_messages_def dedup_start_def Let_def subseq_filter_left)

lemma merge_messages_dedup:
  assumes "\<And>ms. ms \<in> set sources \<Longrightarrow> distinct (map msg_seq ms)"
    and "merge_messages S True seen sources = (merged, n)"
  shows "merged = surviving S seen sources
    \<and> call_keys S merged = first_keys seen (call_keys S (concat sources))
    \<and> subseq merged (concat sources)
    \<and> length (call_keys S (concat sources)) = n + length (call_keys S merged)
    \<and> (\<forall>m \<in> set (concat sources). call_key S m = None \<longrightarrow> \<not> answers_call m \<longrightarrow> m \<in> set merged)"
  using assms
proof (induction sources arbitrary: seen merged n)
  case Nil
  then show ?case by (simp add: call_keys_def List.map_filter_def)
next
  case (Cons ms rest)
  obtain kept removed seen' where d: "deduplicate_source_messages S seen ms = ((kept, removed), seen')"
    by (metis prod.collapse)
  obtain others removed_others where r: "merge_messages S True seen' rest = (others, removed_others)"
    by (metis prod.collapse)
  from Cons.prems(2) d r have m: "merged = kept @ others" "n = removed + removed_others" by auto
  have "distinct (map msg_seq ms)" using Cons.prems(1) by simp
  note one = deduplicate_source[OF this d] deduplicate_source_exact[OF this d]
  have "others = surviving S seen' rest
      \<and> call_keys S others = first_keys seen' (call_keys S (concat rest))
      \<and> subseq others (concat rest)
      \<and> length (call_keys S (concat rest)) = removed_others + length (call_keys S others)
      \<and> (\<forall>m \<in> set (concat rest). call_key S m = None \<longrightarrow> \<not> answers_call m \<longrightarrow> m \<in> set others)"
    by (rule Cons.IH[OF _ r]) (use Cons.prems(1) in simp)
  with one m show ?case
    by (auto simp: call_keys_append first_keys_append list_emb_append_mono)
qed

lemma merge_messages_all: "merge_messages S False seen sources = (concat sources, 0)"
  by (induction sources) simp_all

section \<open>The merged session\<close>

fun renumber :: "nat \<Rightarrow> stored_message list \<Rightarrow> stored_message list" where
  "renumber n [] = []"
| "renumber n (m # ms) = m\<lparr>msg_seq := n\<rparr> # renumber (Suc n) ms"

lemma merged_row_Inr:
  assumes "merged_row sid n m = Inr row"
  shows "mr_session_id row = sid" "mr_seq row = int n" "stored_of_row row = m\<lparr>msg_seq := n\<rparr>"
  using assms
  by (auto simp: merged_row_def stored_of_row_def dest!: i64_try_from_Some split: option.splits)

lemma insert_merged_Inr:
  "insert_merged sid n st ms = Inr st' \<Longrightarrow>
     \<exists>rows. st' = st\<lparr>st_messages := st_messages st @ rows\<rparr>
       \<and> map stored_of_row rows = renumber n ms \<and> map mr_seq rows = map int [n..<n + length ms]
       \<and> (\<forall>row \<in> set rows. mr_session_id row = sid)"
proof (induction sid n st ms rule: insert_merged.induct)
  case (2 sid n st m ms)
  from "2.prems" obtain row st1 where row: "merged_row sid n m = Inr row"
    and ins: "insert_message st row = Inr st1" and rest: "insert_merged sid (n + 1) st1 ms = Inr st'"
    by (auto simp: bind_Inr)
  from "2.IH"[OF rest] obtain rows where
    "st' = st1\<lparr>st_messages := st_messages st1 @ rows\<rparr>" "map stored_of_row rows = renumber (n + 1) ms"
    "map mr_seq rows = map int [n + 1..<n + 1 + length ms]" "\<forall>row \<in> set rows. mr_session_id row = sid"
    by blast
  with merged_row_Inr[OF row] ins show ?case
    by (intro exI[of _ "row # rows"])
      (auto simp: insert_message_def upt_conv_Cons simp del: upt_Suc split: if_splits)
qed simp

lemma merged_messages:
  assumes "insert_merged uuid 0 (st\<lparr>st_sessions := st_sessions st @ [row]\<rparr>) merged = Inr st'"
    "foreign_keys st" "uuid \<notin> sr_id ` set (st_sessions st)"
  shows "messages_of st' uuid = renumber 0 merged"
proof -
  from insert_merged_Inr[OF assms(1)] obtain rows where rows:
    "st' = st\<lparr>st_sessions := st_sessions st @ [row], st_messages := st_messages st @ rows\<rparr>"
    "map stored_of_row rows = renumber 0 merged" "map mr_seq rows = map int [0..<length merged]"
    "\<forall>row \<in> set rows. mr_session_id row = uuid" by auto
  have "filter (\<lambda>m. mr_session_id m = uuid) (st_messages st) = []"
    using assms(2,3) by (auto simp: foreign_keys_def filter_empty_conv)
  moreover have "filter (\<lambda>m. mr_session_id m = uuid) rows = rows" using rows(4) by simp
  moreover have "sorted (map mr_seq rows)" by (simp add: rows(3) sorted_map)
  ultimately show ?thesis
    by (simp add: messages_of_def rows(1,2) sort_key_id_if_sorted)
qed

text \<open>The other sessions of the store are untouched.\<close>

lemma merged_others:
  assumes "insert_merged uuid 0 (st\<lparr>st_sessions := st_sessions st @ [row]\<rparr>) merged = Inr st'"
    and "sid \<noteq> uuid"
  shows "messages_of st' sid = messages_of st sid"
proof -
  from insert_merged_Inr[OF assms(1)] obtain rows where rows:
    "st' = st\<lparr>st_sessions := st_sessions st @ [row], st_messages := st_messages st @ rows\<rparr>"
    "\<forall>row \<in> set rows. mr_session_id row = uuid" by auto
  then have "filter (\<lambda>m. mr_session_id m = sid) rows = []"
    using assms(2) by (auto simp: filter_empty_conv)
  then show ?thesis by (simp add: messages_of_def rows(1))
qed

section \<open>The sources\<close>

text \<open>The column \<open>seq\<close> holds an \<open>i64\<close>.\<close>

definition seqs_typed :: "store \<Rightarrow> bool" where
  "seqs_typed st \<longleftrightarrow> (\<forall>m \<in> set (st_messages st). in_i64 (mr_seq m))"

lemma i64_as_u64_inj: "in_i64 a \<Longrightarrow> in_i64 b \<Longrightarrow> i64_as_u64 a = i64_as_u64 b \<Longrightarrow> a = b"
proof -
  assume r: "in_i64 a" "in_i64 b" and eq: "i64_as_u64 a = i64_as_u64 b"
  have "a mod 2 ^ 64 = b mod 2 ^ 64" using eq by (simp add: i64_as_u64_def)
  then have "wrap_i64 a = wrap_i64 b" unfolding wrap_i64_def by (metis mod_add_left_eq)
  with r show "a = b" by (simp add: wrap_i64_id)
qed

lemma messages_of_distinct:
  assumes "store_ok st" "seqs_typed st"
  shows "distinct (map msg_seq (messages_of st sid))"
proof -
  let ?rows = "filter (\<lambda>m. mr_session_id m = sid) (st_messages st)"
  have "distinct (map (\<lambda>m. (mr_session_id m, mr_seq m)) ?rows)"
    using assms(1) by (simp add: store_ok_def distinct_map_filter)
  moreover have "inj_on mr_seq (set ?rows)"
    using calculation by (fastforce simp: distinct_map inj_on_def)
  moreover have "inj_on i64_as_u64 (mr_seq ` set ?rows)"
    using assms(2) by (auto intro!: inj_onI dest!: i64_as_u64_inj simp: seqs_typed_def)
  ultimately have "distinct ?rows" "inj_on (i64_as_u64 \<circ> mr_seq) (set ?rows)"
    by (auto simp: distinct_map intro: comp_inj_on)
  then show ?thesis
    by (simp add: messages_of_def distinct_map stored_of_row_def comp_def inj_on_def)
qed

lemma load_sources_messages:
  "load_sources st seen srcs = Inr sources \<Longrightarrow>
     \<forall>ms \<in> set (map snd sources). \<exists>sid'. ms = messages_of st sid'"
proof (induction srcs arbitrary: seen sources)
  case (Cons sid rest)
  from Cons.prems obtain s ms srcs' where s: "get_session_summary st sid = Inr s" "su_id s \<notin> set seen"
    and ms: "get_messages st (su_id s) = Inr ms" and rest: "load_sources st (su_id s # seen) rest = Inr srcs'"
    and eq: "sources = (s, ms) # srcs'"
    by (auto simp: bind_Inr split: if_splits)
  from ms have "\<exists>sid'. ms = messages_of st sid'"
    by (auto simp: get_messages_def split: sum.splits)
  with Cons.IH[OF rest] s eq show ?case by auto
qed simp

section \<open>Property\<close>

text \<open>
  C16: A successful merge writes, under the new identifier and numbered from 0, a subsequence of
  the concatenated sources. With deduplication every distinct call key of the sources survives
  exactly once (the report counts the calls removed), and what stays is exact (\<open>surviving\<close>): a call
  goes when its key occurred before, an answer goes when the call it answers goes and stays when that
  call stays or there is none, and everything else stays. Without deduplication nothing is dropped.
  The store stays consistent and every other session is unchanged.
\<close>

theorem merge_keeps_each_call_once:
  assumes "merge_sessions S st uuid srcs dedup = Inr (r, st')" "store_ok st" "seqs_typed st"
  shows "\<exists>sources merged. load_sources st [] srcs = Inr sources
      \<and> (let msgs = concat (map snd sources); ks = call_keys S msgs in
           messages_of st' uuid = renumber 0 merged \<and> mg_total_messages r = length merged
         \<and> subseq merged msgs
         \<and> length ks = mg_deduplicated_calls r + length (call_keys S merged)
         \<and> (if dedup then merged = surviving S {} (map snd sources) \<and> distinct (call_keys S merged) \<and> set (call_keys S merged) = set ks
                \<and> (\<forall>m \<in> set msgs. m \<in> set merged \<or> call_key S m \<noteq> None \<or> answers_call m)
            else merged = msgs))
      \<and> store_ok st' \<and> (\<forall>sid. sid \<noteq> uuid \<longrightarrow> messages_of st' sid = messages_of st sid)"
proof -
  from assms(1) obtain sources n d where src: "load_sources st [] srcs = Inr sources"
    and fresh: "uuid \<notin> sr_id ` set (st_sessions st)"
    and ins: "insert_merged uuid 0 (st\<lparr>st_sessions := st_sessions st @ [merged_session S uuid (map fst sources) n d]\<rparr>)
       (fst (merge_messages S dedup {} (map snd sources))) = Inr st'"
    and r: "mg_total_messages r = length (fst (merge_messages S dedup {} (map snd sources)))"
      "mg_deduplicated_calls r = snd (merge_messages S dedup {} (map snd sources))"
    by (rule merge_sessions_Inr)
  obtain merged k where m: "merge_messages S dedup {} (map snd sources) = (merged, k)"
    by (metis prod.collapse)
  have dist: "distinct (map msg_seq ms)" if "ms \<in> set (map snd sources)" for ms
  proof -
    from that load_sources_messages[OF src] obtain sid' where "ms = messages_of st sid'" by blast
    then show ?thesis using messages_of_distinct[OF assms(2,3)] by simp
  qed
  have fk: "foreign_keys st" using assms(2) by (simp add: store_ok_def)
  have written: "messages_of st' uuid = renumber 0 merged"
    using merged_messages[OF ins fk fresh] m by simp
  have ok: "store_ok st'" by (rule store_ok_merge[OF assms(1,2)])
  have others: "\<forall>sid. sid \<noteq> uuid \<longrightarrow> messages_of st' sid = messages_of st sid"
    using merged_others[OF ins] by simp
  let ?msgs = "concat (map snd sources)"
  have "subseq merged ?msgs \<and> length (call_keys S ?msgs) = k + length (call_keys S merged)
     \<and> (if dedup then merged = surviving S {} (map snd sources) \<and> distinct (call_keys S merged) \<and> set (call_keys S merged) = set (call_keys S ?msgs)
                \<and> (\<forall>m \<in> set ?msgs. m \<in> set merged \<or> call_key S m \<noteq> None \<or> answers_call m)
            else merged = ?msgs)"
  proof (cases dedup)
    case True
    with m have "merge_messages S True {} (map snd sources) = (merged, k)" by simp
    from merge_messages_dedup[OF dist this] True show ?thesis
      by (auto simp: distinct_first_keys set_first_keys)
  next
    case False
    with m show ?thesis by (simp add: merge_messages_all)
  qed
  note parts = this
  from r m have r': "mg_total_messages r = length merged" "k = mg_deduplicated_calls r" by simp_all
  from parts show ?thesis
    unfolding Let_def r'
    by (intro exI[of _ sources] exI[of _ merged]) (intro conjI src written r'(1) ok others; blast)
qed

text \<open>Two sessions that hold the same call.\<close>

definition call_serde :: serde where
  "call_serde = \<lparr>parse_json = (\<lambda>s. Some (JObject [])), print_json = (\<lambda>v. []),
     json_pointer = (\<lambda>v p. None), sha256_digest = (\<lambda>s. [])\<rparr>"

definition call_row :: "string \<Rightarrow> message_row" where
  "call_row sid = \<lparr>mr_session_id = sid, mr_seq = 0, mr_ts = 0, mr_direction = ''c2s'',
     mr_message_kind = ''request'', mr_rpc_id = Some ''1'', mr_method = Some ''ping'',
     mr_tool_name = None, mr_payload = ''{}'', mr_payload_bytes = 2, mr_is_error = 0,
     mr_error_code = None\<rparr>"

definition call_session :: "string \<Rightarrow> session_row" where
  "call_session sid = \<lparr>sr_id = sid, sr_client = [], sr_server_command = [],
     sr_transport = ''stdio'', sr_started_at = 0, sr_ended_at = Some 1, sr_total_messages = 1,
     sr_dropped_messages = 0, sr_redaction_policy = ''none'', sr_redaction_keys = ''[]'',
     sr_tags = ''[]''\<rparr>"

definition call_store :: store where
  "call_store = \<lparr>st_sessions = [call_session ''a'', call_session ''b''],
     st_messages = [call_row ''a'', call_row ''b''], st_baselines = [], st_next_baseline_id = 1\<rparr>"

lemmas call_simps = call_serde_def call_row_def call_session_def call_store_def

lemma call_summary:
  "get_session_summary call_store ''a'' = Inr (summary_of_row (call_session ''a''))"
  "get_session_summary call_store ''b'' = Inr (summary_of_row (call_session ''b''))"
  "get_messages call_store ''a'' = Inr [stored_of_row (call_row ''a'')]"
  "get_messages call_store ''b'' = Inr [stored_of_row (call_row ''b'')]"
  by (simp_all add: get_session_summary_def get_messages_def messages_of_def
      resolve_session_id_def call_simps to_ascii_lowercase_def is_ascii_upper_def)

lemma call_sources:
  "load_sources call_store [] [''a'', ''b''] =
     Inr [(summary_of_row (call_session ''a''), [stored_of_row (call_row ''a'')]),
          (summary_of_row (call_session ''b''), [stored_of_row (call_row ''b'')])]"
proof -
  have "su_id (summary_of_row (call_session sid)) = sid" for sid
    by (simp add: summary_of_row_def call_session_def)
  then show ?thesis by (simp add: bind_result_def call_summary)
qed

lemma call_merged:
  "merge_messages call_serde True {} [[stored_of_row (call_row ''a'')], [stored_of_row (call_row ''b'')]]
     = ([stored_of_row (call_row ''a'')], 1)"
  by (simp add: deduplicate_source_messages_def dedup_step_def dedup_request_def dedup_key_def
      stored_of_row_def call_serde_def call_row_def Let_def bt_get_def)

lemma call_inserted:
  "sr_id row = ''c'' \<Longrightarrow>
     \<exists>st'. insert_merged ''c'' 0 (call_store\<lparr>st_sessions := st_sessions call_store @ [row]\<rparr>)
             [stored_of_row (call_row ''a'')] = Inr st'"
  by (simp add: bind_result_def merged_row_def stored_of_row_def i64_try_from_def i64_max_def
      i64_as_u64_def insert_message_def call_row_def call_store_def)

lemma call_merge:
  "\<exists>r st'. merge_sessions call_serde call_store ''c'' [''a'', ''b''] True = Inr (r, st')
     \<and> mg_deduplicated_calls r = 1"
proof -
  let ?ss = "[summary_of_row (call_session ''a''), summary_of_row (call_session ''b'')]"
  have same: "\<not> list_ex (\<lambda>s. \<not> same_configuration s (hd ?ss)) ?ss"
    "checked_sum 0 (map su_dropped_messages ?ss) = Some 0" "''c'' \<notin> sr_id ` set (st_sessions call_store)"
    "i64_try_from 1 = Some 1"
    by (simp_all add: same_configuration_def summary_of_row_def call_session_def call_store_def in_i64_def
        i64_try_from_def i64_max_def)
  obtain st' where "insert_merged ''c'' 0 (call_store\<lparr>st_sessions := st_sessions call_store
      @ [merged_session call_serde ''c'' ?ss 1 0]\<rparr>) [stored_of_row (call_row ''a'')] = Inr st'"
    using call_inserted[OF merged_session_id] by blast
  then show ?thesis
    unfolding merge_sessions_def call_sources bind_result_def
    using same call_merged by (simp del: merge_messages.simps insert_merged.simps checked_sum.simps)
qed

lemma merge_keeps_each_call_once_witness:
  "\<exists>r st' m. merge_sessions call_serde call_store ''c'' [''a'', ''b''] True = Inr (r, st')
     \<and> messages_of st' ''c'' = renumber 0 m \<and> length (call_keys call_serde m) = 1"
proof -
  obtain r st' where run: "merge_sessions call_serde call_store ''c'' [''a'', ''b''] True = Inr (r, st')"
    and one: "mg_deduplicated_calls r = 1" using call_merge by blast
  have "store_ok call_store" "seqs_typed call_store"
    by (simp_all add: store_ok_def foreign_keys_def seqs_typed_def in_i64_def call_store_def
        call_session_def call_row_def)
  from merge_keeps_each_call_once[OF run this] obtain sources m where
    src: "load_sources call_store [] [''a'', ''b''] = Inr sources"
    and m: "messages_of st' ''c'' = renumber 0 m"
      "length (call_keys call_serde (concat (map snd sources))) = mg_deduplicated_calls r + length (call_keys call_serde m)"
    unfolding Let_def by blast
  from src have "length (call_keys call_serde (concat (map snd sources))) = 2"
    unfolding call_sources
    by (auto simp: call_keys_def List.map_filter_def call_key_def dedup_key_def
        stored_of_row_def call_serde_def call_row_def Let_def bt_get_def)
  with run one m show ?thesis by auto
qed

end
