(* ===== verification/RegistryProps.thy ===== *)
theory RegistryProps
  imports Merge
begin

text \<open>
  The baseline registry as a state machine: a step is one command of the registry, and the
  invariants hold in every reachable store.
\<close>

datatype registry_command =
    Candidate string string string string i64
  | Promote string string string string string string string i64
  | Revoke string string string string i64

definition run_command :: "store \<Rightarrow> registry_command \<Rightarrow> store_error + store" where
  "run_command st c =
     (case c of
        Candidate p s e sid now \<Rightarrow>
          (case create_baseline_candidate st p s e sid now of Inl x \<Rightarrow> Inl x | Inr (_, st') \<Rightarrow> Inr st')
      | Promote p s e sid digest by_whom reason now \<Rightarrow> promote_baseline st p s e sid digest by_whom reason now
      | Revoke p s e reason now \<Rightarrow> revoke_baseline st p s e reason now)"

inductive registry_step :: "store \<Rightarrow> store \<Rightarrow> bool" where
  "run_command st c = Inr st' \<Longrightarrow> registry_step st st'"


inductive_cases registry_stepE: "registry_step st st'"

definition approved :: "string \<Rightarrow> string \<Rightarrow> string \<Rightarrow> baseline \<Rightarrow> bool" where
  "approved p s e b \<longleftrightarrow> in_slot p s e b \<and> bl_state b = ''approved''"







section \<open>What the updates do to a row\<close>

definition approve :: "string \<Rightarrow> string \<Rightarrow> i64 \<Rightarrow> string \<Rightarrow> baseline \<Rightarrow> baseline" where
  "approve digest who now reason b =
     b\<lparr>bl_state := ''approved'', bl_digest := Some digest, bl_promoted_by := Some who,
       bl_promoted_at := Some now, bl_promotion_reason := Some reason\<rparr>"

definition revoke :: "string \<Rightarrow> string \<Rightarrow> string \<Rightarrow> i64 \<Rightarrow> string \<Rightarrow> baseline \<Rightarrow> baseline" where
  "revoke p s e now reason b =
     (if approved p s e b
      then b\<lparr>bl_state := ''revoked'', bl_revoked_at := Some now, bl_revoked_reason := Some reason\<rparr>
      else b)"

lemma row_updates [simp]:
  "bl_id (approve digest who now reason b) = bl_id b"
  "bl_id (supersede p s e b) = bl_id b"
  "bl_id (revoke p s e now reason b) = bl_id b"
  "in_slot p' s' e' (approve digest who now reason b) = in_slot p' s' e' b"
  "in_slot p' s' e' (supersede p s e b) = in_slot p' s' e' b"
  "in_slot p' s' e' (revoke p s e now reason b) = in_slot p' s' e' b"
  "bl_state (approve digest who now reason b) = ''approved''"
  by (simp_all add: approve_def supersede_def revoke_def in_slot_def)







section \<open>Each command keeps the invariants\<close>










section \<open>Property\<close>









end
