(* ===== verification/Recorder.thy ===== *)
theory Recorder
  imports Store Protocol "HOL-Library.Product_Lexorder"
begin

text \<open>
  The recording path of \<open>crates/mcptracer-proxy/src/session_writer.rs\<close>: the byte budget of the
  storage queue, the pump that forwards frames and records them, and the single writer thread that
  reorders, redacts and stores them.  The kernel's scheduling is an argument: which writes succeed,
  and how many queued events the writer finds when it drains the channel.
\<close>

section \<open>Limits\<close>

definition STORAGE_QUEUE_MAX_BYTES :: usize where
  "STORAGE_QUEUE_MAX_BYTES = 16 * 1024 * 1024"

definition STORAGE_EVENT_OVERHEAD_BYTES :: usize where
  "STORAGE_EVENT_OVERHEAD_BYTES = 1024"

definition STORAGE_WRITE_BATCH_MESSAGES :: usize where
  "STORAGE_WRITE_BATCH_MESSAGES = 128"

definition STORAGE_REORDER_MAX_MESSAGES :: usize where
  "STORAGE_REORDER_MAX_MESSAGES = 4096"

section \<open>The byte budget\<close>

record storage_queue_budget =
  qb_max_bytes :: usize
  qb_queued_bytes :: usize

definition budget_new :: "usize \<Rightarrow> storage_queue_budget" where
  "budget_new max_bytes = \<lparr>qb_max_bytes = max_bytes, qb_queued_bytes = 0\<rparr>"

definition usize_checked_sub :: "usize \<Rightarrow> usize \<Rightarrow> usize option" where
  "usize_checked_sub a b = (if b \<le> a then Some (a - b) else None)"

text \<open>
  One round of the compare-exchange loop on the shared counter: refuse, succeed, or retry with the
  value observed.  \<open>spurious\<close> says whether the weak exchange fails although the values agree.
\<close>

datatype reserve_round = Refused | Reserved usize | Retry usize

definition try_reserve_round :: "usize \<Rightarrow> usize \<Rightarrow> usize \<Rightarrow> usize \<Rightarrow> bool \<Rightarrow> reserve_round" where
  "try_reserve_round limit bytes current shared spurious =
     (if current > limit then Refused
      else if shared = current \<and> \<not> spurious then Reserved (current + bytes)
      else Retry shared)"

text \<open>The whole call when no other thread interferes.\<close>

definition try_reserve :: "storage_queue_budget \<Rightarrow> usize \<Rightarrow> storage_queue_budget option" where
  "try_reserve b bytes =
     (case usize_checked_sub (qb_max_bytes b) bytes of
        None \<Rightarrow> None
      | Some limit \<Rightarrow>
          (case try_reserve_round limit bytes (qb_queued_bytes b) (qb_queued_bytes b) False of
             Reserved queued \<Rightarrow> Some (b\<lparr>qb_queued_bytes := queued\<rparr>)
           | _ \<Rightarrow> None))"

text \<open>Dropping a reservation returns its bytes.\<close>

definition release :: "storage_queue_budget \<Rightarrow> usize \<Rightarrow> storage_queue_budget" where
  "release b bytes = b\<lparr>qb_queued_bytes := qb_queued_bytes b - bytes\<rparr>"

section \<open>Events and the channel\<close>

datatype storage_event =
    Message mcp_message usize
  | Close i64 u64

record channel =
  ch_queue :: "storage_event list"
  ch_capacity :: usize
  ch_open :: bool

record pump =
  pm_budget :: storage_queue_budget
  pm_channel :: channel
  pm_seq :: u64
  pm_dropped :: u64
  pm_forwarded :: bytes

text \<open>\<open>fetch_add\<close> wraps around.\<close>

definition wrapping_inc :: "u64 \<Rightarrow> u64" where
  "wrapping_inc n = (n + 1) mod (u64_max + 1)"

definition count_drop :: "pump \<Rightarrow> pump" where
  "count_drop p = p\<lparr>pm_dropped := wrapping_inc (pm_dropped p)\<rparr>"

definition try_record :: "pump \<Rightarrow> mcp_message \<Rightarrow> pump" where
  "try_record p message =
     (let reserved_bytes = saturating_add (m_payload_bytes message) STORAGE_EVENT_OVERHEAD_BYTES
      in case try_reserve (pm_budget p) reserved_bytes of
           None \<Rightarrow> count_drop p
         | Some b \<Rightarrow>
             if \<not> ch_open (pm_channel p) \<or> length (ch_queue (pm_channel p)) \<ge> ch_capacity (pm_channel p)
             then count_drop p
             else p\<lparr>pm_budget := b,
                    pm_channel := (pm_channel p)\<lparr>ch_queue := ch_queue (pm_channel p)
                      @ [Message message reserved_bytes]\<rparr>\<rparr>)"

definition reserve_capture_stamp :: "pump \<Rightarrow> u64 \<times> pump" where
  "reserve_capture_stamp p = (pm_seq p, p\<lparr>pm_seq := wrapping_inc (pm_seq p)\<rparr>)"

definition record_frame :: "serde \<Rightarrow> pump \<Rightarrow> stdio_frame \<Rightarrow> direction \<Rightarrow> u64 \<Rightarrow> i64 \<Rightarrow> pump" where
  "record_frame S p frame direction seq timestamp_ns =
     (case stdio_decode_message S (json_bytes frame) direction seq timestamp_ns of
        Inr msg \<Rightarrow> try_record p msg
      | Inl _ \<Rightarrow> count_drop p)"

section \<open>The pump\<close>

text \<open>
  \<open>drain_frames\<close>: \<open>clock\<close> gives the timestamp and \<open>writes\<close> whether forwarding succeeds, both per
  sequence number.  The result is the rest of the buffer, the state, and whether to go on.
\<close>

lemma parse_stdio_frame_consumed:
  "parse_stdio_frame buf = Inr (Some frame) \<Longrightarrow> 0 < consumed frame \<and> consumed frame \<le> length buf"
  by (auto simp: parse_stdio_frame_def Let_def split: option.splits if_splits dest!: position_Some)

function drain_frames ::
  "serde \<Rightarrow> (u64 \<Rightarrow> i64) \<Rightarrow> (u64 \<Rightarrow> bool) \<Rightarrow> direction \<Rightarrow> bytes \<Rightarrow> pump \<Rightarrow> bool \<times> bytes \<times> pump" where
  "drain_frames S clock writes direction buf p =
     (case parse_stdio_frame buf of
        Inl EmptyFrame \<Rightarrow> (False, buf, p)
      | Inr None \<Rightarrow> (True, buf, p)
      | Inr (Some frame) \<Rightarrow>
          if consumed frame > MAX_FRAME_BYTES then (False, buf, p)
          else
            let (seq, p1) = reserve_capture_stamp p
            in if \<not> writes seq then (False, buf, p1)
               else
                 let p2 = p1\<lparr>pm_forwarded := pm_forwarded p1 @ wire_bytes frame\<rparr>
                 in drain_frames S clock writes direction (drop (consumed frame) buf)
                      (record_frame S p2 frame direction seq (clock seq)))"
  by pat_completeness auto

termination
  by (relation "measure (\<lambda>(S, clock, writes, direction, buf, p). length buf)")
    (auto dest!: parse_stdio_frame_consumed)

declare drain_frames.simps [simp del]

section \<open>The session command line\<close>

fun split_once :: "char \<Rightarrow> string \<Rightarrow> (string \<times> string) option" where
  "split_once c [] = None"
| "split_once c (x # xs) =
     (if x = c then Some ([], xs) else map_option (\<lambda>(a, b). (x # a, b)) (split_once c xs))"

fun redact_command_args :: "bool \<Rightarrow> string list \<Rightarrow> string list" where
  "redact_command_args redact_next [] = []"
| "redact_command_args redact_next (arg # args) =
     (if redact_next then REDACTED_PLACEHOLDER # redact_command_args False args
      else case split_once (CHR ''='') arg of
        Some (key, _) \<Rightarrow>
          if is_sensitive_key key
          then (key @ ''='' @ REDACTED_PLACEHOLDER) # redact_command_args False args
          else arg # redact_command_args (prefix ''-'' arg \<and> is_sensitive_key arg) args
      | None \<Rightarrow> arg # redact_command_args (prefix ''-'' arg \<and> is_sensitive_key arg) args)"

definition redact_server_command :: "string list \<Rightarrow> string" where
  "redact_server_command server_args = join '' '' (redact_command_args False server_args)"

end
