(* ===== verification/Writer.thy ===== *)
theory Writer
  imports Recorder
begin

text \<open>
  The storage writer of \<open>crates/mcptracer-proxy/src/session_writer.rs\<close>: one iteration per received
  event, which collects a batch, moves it through the reorder buffer, redacts what is released in
  sequence order and stores it in chunks; the event \<open>Close\<close> settles the accounts.  A store operation
  may fail for reasons of its own (a full disk), so the writer works on a \<open>sink\<close>.
\<close>

section \<open>The sink\<close>

record sink =
  sink_write :: "store \<Rightarrow> string \<Rightarrow> mcp_message list \<Rightarrow> store_error + store"
  sink_increment :: "store \<Rightarrow> string \<Rightarrow> u64 \<Rightarrow> store_error + store"
  sink_close :: "store \<Rightarrow> string \<Rightarrow> i64 \<Rightarrow> store_error + store"

text \<open>The store as the sink, when SQLite itself never fails.\<close>

definition store_sink :: "serde \<Rightarrow> sink" where
  "store_sink S =
     \<lparr>sink_write = write_messages S,
      sink_increment = (\<lambda>st sid n. Inr (increment_dropped_messages st sid n)),
      sink_close = (\<lambda>st sid ended_at. Inr (close_session st sid ended_at))\<rparr>"

section \<open>State\<close>

record writer =
  wr_store :: store
  wr_failed :: u64
  wr_first_failure :: "string option"
  wr_context :: tracker
  wr_pending :: "(u64 \<times> u64, mcp_message) btree"
  wr_next_seq :: u64
  wr_arrival :: u64
  wr_loss_reported :: bool

definition writer_init :: "store \<Rightarrow> writer" where
  "writer_init st =
     \<lparr>wr_store = st, wr_failed = 0, wr_first_failure = None, wr_context = tracker_default,
      wr_pending = [], wr_next_seq = 0, wr_arrival = 0, wr_loss_reported = False\<rparr>"

text \<open>\<open>get_or_insert_with\<close>.\<close>

definition note_failure :: "string \<Rightarrow> writer \<Rightarrow> writer" where
  "note_failure text w =
     w\<lparr>wr_first_failure := (case wr_first_failure w of Some t \<Rightarrow> Some t | None \<Rightarrow> Some text)\<rparr>"

definition count_failed :: "nat \<Rightarrow> string \<Rightarrow> writer \<Rightarrow> writer" where
  "count_failed n text w = note_failure text (w\<lparr>wr_failed := saturating_add (wr_failed w) n\<rparr>)"

section \<open>Collecting a batch\<close>

text \<open>
  The first event comes from \<open>recv\<close>; \<open>avail\<close> further ones are there for \<open>try_recv\<close> before it finds
  the channel empty.  Nothing is taken past a \<open>Close\<close> or a full batch.
\<close>

definition collect_storage_event ::
  "storage_event \<Rightarrow> mcp_message list \<Rightarrow> (i64 \<times> u64) option \<Rightarrow> mcp_message list \<times> (i64 \<times> u64) option" where
  "collect_storage_event event messages close =
     (case event of
        Message m bytes \<Rightarrow> (messages @ [m], close)
      | Close ended_at dropped \<Rightarrow> (messages, Some (ended_at, dropped)))"

fun collect_more ::
  "nat \<Rightarrow> storage_event list \<Rightarrow> mcp_message list \<Rightarrow> (i64 \<times> u64) option
     \<Rightarrow> (mcp_message list \<times> (i64 \<times> u64) option) \<times> storage_event list" where
  "collect_more 0 queue messages close = ((messages, close), queue)"
| "collect_more (Suc avail) queue messages close =
     (if close = None \<and> length messages < STORAGE_WRITE_BATCH_MESSAGES
      then (case queue of
              [] \<Rightarrow> ((messages, close), [])
            | event # rest \<Rightarrow>
                (let (messages', close') = collect_storage_event event messages close
                 in collect_more avail rest messages' close'))
      else ((messages, close), queue))"

section \<open>The reorder buffer\<close>

fun enqueue_messages :: "writer \<Rightarrow> mcp_message list \<Rightarrow> writer" where
  "enqueue_messages w [] = w"
| "enqueue_messages w (item # items) =
     enqueue_messages
       (w\<lparr>wr_pending := bt_insert (m_seq item, wr_arrival w) item (wr_pending w),
          wr_arrival := wrapping_inc (wr_arrival w)\<rparr>) items"

text \<open>
  Messages leave the buffer in key order: the next expected one at once, one beyond a gap only when
  the session closes or the buffer is full.
\<close>

fun release_pending ::
  "bool \<Rightarrow> writer \<Rightarrow> (u64 \<times> u64, mcp_message) btree \<Rightarrow> mcp_message list \<Rightarrow> writer \<times> mcp_message list" where
  "release_pending closing w [] out = (w\<lparr>wr_pending := []\<rparr>, out)"
| "release_pending closing w (((seq, arr), item) # rest) out =
     (let pressure = length (((seq, arr), item) # rest) \<ge> STORAGE_REORDER_MAX_MESSAGES
      in if seq > wr_next_seq w \<and> \<not> closing \<and> \<not> pressure
         then (w\<lparr>wr_pending := ((seq, arr), item) # rest\<rparr>, out)
         else
           let w1 = (if seq > wr_next_seq w \<and> pressure \<and> \<not> wr_loss_reported w
                     then (count_failed 1 ''redaction sequence context was incomplete'' w)
                            \<lparr>wr_loss_reported := True\<rparr>
                     else w);
               w2 = w1\<lparr>wr_next_seq := max (wr_next_seq w1) (saturating_add seq 1)\<rparr>
           in release_pending closing w2 rest (out @ [item]))"

section \<open>Redacting and storing\<close>

fun redact_messages :: "serde \<Rightarrow> redactor \<Rightarrow> writer \<Rightarrow> mcp_message list \<Rightarrow> writer \<times> mcp_message list" where
  "redact_messages S r w [] = (w, [])"
| "redact_messages S r w (message # rest) =
     (let (ctx, t') = observe S (wr_context w) (m_seq message) (as_db_str (m_direction message))
                        (m_payload message);
          w1 = w\<lparr>wr_context := t'\<rparr>;
          w2 = (if is_active r \<and> has_lost_context t' \<and> \<not> wr_loss_reported w1
                then (count_failed 1 ''redaction request context was incomplete'' w1)
                       \<lparr>wr_loss_reported := True\<rparr>
                else w1);
          (w3, out) = redact_messages S r w2 rest
      in (w3, message\<lparr>m_payload := redact_with_context r (m_payload message) ctx\<rparr> # out))"

text \<open>\<open>chunks(n)\<close>.\<close>

function chunks :: "nat \<Rightarrow> 'a list \<Rightarrow> 'a list list" where
  "chunks n xs = (if xs = [] \<or> n = 0 then [] else take n xs # chunks n (drop n xs))"
  by pat_completeness auto

termination
  by (relation "measure (\<lambda>(n, xs). length xs)") auto

declare chunks.simps [simp del]

definition write_batch :: "sink \<Rightarrow> string \<Rightarrow> writer \<Rightarrow> mcp_message list \<Rightarrow> writer" where
  "write_batch K sid w batch =
     (case sink_write K (wr_store w) sid batch of
        Inr st \<Rightarrow> w\<lparr>wr_store := st\<rparr>
      | Inl _ \<Rightarrow> count_failed (length batch) ''failed to persist one or more MCP message records'' w)"

definition store_batches :: "sink \<Rightarrow> string \<Rightarrow> writer \<Rightarrow> mcp_message list \<Rightarrow> writer" where
  "store_batches K sid w messages =
     foldl (write_batch K sid) w (chunks STORAGE_WRITE_BATCH_MESSAGES messages)"

section \<open>Closing\<close>

definition finish_session ::
  "sink \<Rightarrow> string \<Rightarrow> writer \<Rightarrow> i64 \<Rightarrow> u64 \<Rightarrow> writer \<times> (string + unit)" where
  "finish_session K sid w ended_at dropped_messages =
     (let total_dropped = saturating_add dropped_messages (wr_failed w);
          w1 = (if total_dropped > 0
                then (case sink_increment K (wr_store w) sid total_dropped of
                        Inl _ \<Rightarrow> note_failure ''failed to persist dropped-message accounting'' w
                      | Inr st \<Rightarrow>
                          note_failure (''capture lost '' @ nat_dec total_dropped @ '' message record(s)'')
                            (w\<lparr>wr_store := st\<rparr>))
                else w);
          w2 = (case sink_close K (wr_store w1) sid ended_at of
                  Inl _ \<Rightarrow> note_failure ''failed to finalize the recorded session'' w1
                | Inr st \<Rightarrow> w1\<lparr>wr_store := st\<rparr>)
      in (w2, case wr_first_failure w2 of Some message \<Rightarrow> Inl message | None \<Rightarrow> Inr ()))"

section \<open>The loop\<close>

text \<open>One iteration on a collected batch.\<close>

definition writer_batch ::
  "serde \<Rightarrow> sink \<Rightarrow> redactor \<Rightarrow> string \<Rightarrow> writer \<Rightarrow> mcp_message list \<Rightarrow> bool \<Rightarrow> writer" where
  "writer_batch S K r sid w messages closing =
     (let w1 = enqueue_messages w messages;
          (w2, released) = release_pending closing w1 (wr_pending w1) [];
          (w3, redacted) = redact_messages S r w2 released
      in store_batches K sid w3 redacted)"

text \<open>
  \<open>avail\<close> gives, per iteration, how many queued events are there to be drained.  \<open>None\<close>: the channel
  ended without a \<open>Close\<close>, so the thread stops without finalizing.
\<close>

lemma collect_more_shorter: "collect_more n q ms c = (x, q') \<Longrightarrow> length q' \<le> length q"
  by (induction n q ms c arbitrary: x q' rule: collect_more.induct)
    (fastforce split: list.splits if_splits prod.splits)+

function run_writer ::
  "serde \<Rightarrow> sink \<Rightarrow> redactor \<Rightarrow> string \<Rightarrow> nat list \<Rightarrow> writer \<Rightarrow> storage_event list
     \<Rightarrow> writer \<times> (string + unit) option" where
  "run_writer S K r sid avail w [] = (w, None)"
| "run_writer S K r sid avail w (event # queue) =
     (let (messages, close) = collect_storage_event event [] None;
          (batch, rest) =
            collect_more (case avail of [] \<Rightarrow> 0 | n # _ \<Rightarrow> n) queue messages close;
          w1 = writer_batch S K r sid w (fst batch) (snd batch \<noteq> None)
      in case snd batch of
           None \<Rightarrow> run_writer S K r sid (drop 1 avail) w1 rest
         | Some (ended_at, dropped) \<Rightarrow>
             let (w2, outcome) = finish_session K sid w1 ended_at dropped
             in (w2, Some outcome))"
  by pat_completeness auto

termination
  by (relation "measure (\<lambda>(S, K, r, sid, avail, w, queue). length queue)")
    (auto simp: less_Suc_eq_le dest: collect_more_shorter[OF sym])

declare run_writer.simps [simp del]

text \<open>
  \<open>finish_storage_writer\<close>: the caller's view; \<open>sent\<close> says whether the channel took the \<open>Close\<close> and
  \<open>joined\<close> whether the thread ended without a panic.
\<close>

definition finish_storage_writer :: "bool \<Rightarrow> bool \<Rightarrow> (string + unit) option \<Rightarrow> string + unit" where
  "finish_storage_writer sent joined outcome =
     (if \<not> sent then Inl ''storage writer stopped before the session could be finalized''
      else case outcome of
        None \<Rightarrow> Inl ''storage writer stopped without finalizing the session''
      | Some result \<Rightarrow> if \<not> joined then Inl ''storage writer thread panicked'' else result)"

end
