(* ===== verification/RecordCommand.thy ===== *)
theory RecordCommand
  imports Writer
begin

text \<open>
  \<open>crates/mcptracer-proxy/src/commands/record.rs\<close>: the command that starts a server under the recorder,
  runs the two pumps and the storage writer side by side until one side or the operator ends it,
  finalizes the session and reaps the server.  The pumps are futures of one task, so they interleave at
  their awaits only; the writer is a thread, which takes events and returns reservations at any time.
\<close>

section \<open>Starting\<close>

text \<open>
  \<open>spawned\<close> is the outcome of starting the server with both pipes, \<open>opened\<close> the outcome of
  \<open>Store::open\<close>.
\<close>

definition record_start ::
  "serde \<Rightarrow> string + unit \<Rightarrow> string + store \<Rightarrow> string \<Rightarrow> i64 \<Rightarrow> string \<Rightarrow> string \<Rightarrow> string list \<Rightarrow> string list
     \<Rightarrow> string + string \<times> store \<times> redactor" where
  "record_start S spawned opened uuid now client policy_name redact_keys server_args =
     (if server_args = [] then Inl ''missing MCP server command after --''
      else case policy_from_cli policy_name redact_keys of
        Inl e \<Rightarrow> Inl e
      | Inr policy \<Rightarrow>
          (case (spawned, opened) of
             (Inl e, _) \<Rightarrow> Inl e
           | (_, Inl e) \<Rightarrow> Inl e
           | (Inr _, Inr st) \<Rightarrow>
               (case create_session st uuid client (redact_server_command server_args) ''stdio'' now of
                  Inl _ \<Rightarrow> Inl ''failed to create the session''
                | Inr (session_id, st1) \<Rightarrow>
                    let r = redactor_new policy;
                        st2 = (if is_active r
                               then set_redaction_policy S st1 session_id (policy_as_str policy) (policy_custom_keys policy)
                               else st1)
                    in Inr (session_id, st2, r))))"

section \<open>One pump\<close>

text \<open>
  A pump waits for input, or for the other side to take a frame whose stamp is reserved (\<open>nat\<close>: the
  bytes it has taken so far), or has returned.  \<open>pt_in\<close> and \<open>pt_out\<close> are histories: everything read,
  and everything the other side was given.
\<close>

datatype pump_stage =
    AwaitInput
  | AwaitForward stdio_frame u64 i64 nat
  | PumpReturned "string + unit"

record pump_task =
  pt_stage :: pump_stage
  pt_buf :: bytes
  pt_in :: bytes
  pt_out :: bytes

definition pump_task_new :: pump_task where
  "pump_task_new = \<lparr>pt_stage = AwaitInput, pt_buf = [], pt_in = [], pt_out = []\<rparr>"

definition READ_CHUNK_BYTES :: usize where
  "READ_CHUNK_BYTES = 4096"

text \<open>The check of the unterminated rest, after which the pump reads again.\<close>

definition check_unterminated :: "pump_task \<Rightarrow> pump_task" where
  "check_unterminated t =
     t\<lparr>pt_stage := (if length (pt_buf t) > MAX_FRAME_BYTES
          then PumpReturned (Inl ''frame exceeded the limit without a newline'') else AwaitInput)\<rparr>"

text \<open>
  One turn of \<open>drain_frames\<close> up to its first await.  The shared part of the state (budget, channel, both
  counters) is the \<open>pump\<close> of \<open>Recorder\<close>; what was forwarded is kept per direction in \<open>pt_out\<close>.
\<close>

definition next_frame :: "i64 \<Rightarrow> pump_task \<Rightarrow> pump \<Rightarrow> pump_task \<times> pump" where
  "next_frame now t p =
     (case parse_stdio_frame (pt_buf t) of
        Inl _ \<Rightarrow> (t\<lparr>pt_stage := PumpReturned (Inl ''forwarding stopped'')\<rparr>, p)
      | Inr None \<Rightarrow> (check_unterminated t, p)
      | Inr (Some frame) \<Rightarrow>
          if consumed frame > MAX_FRAME_BYTES
          then (t\<lparr>pt_stage := PumpReturned (Inl ''forwarding stopped'')\<rparr>, p)
          else let (seq, p1) = reserve_capture_stamp p
               in (t\<lparr>pt_stage := AwaitForward frame seq now 0\<rparr>, p1))"

text \<open>A chunk is scanned for frames only when it brings a newline.\<close>

definition receive_chunk :: "i64 \<Rightarrow> bytes \<Rightarrow> pump_task \<Rightarrow> pump \<Rightarrow> pump_task \<times> pump" where
  "receive_chunk now chunk t p =
     (let t1 = t\<lparr>pt_buf := pt_buf t @ chunk, pt_in := pt_in t @ chunk\<rparr>
      in if nl \<in> set chunk then next_frame now t1 p else (check_unterminated t1, p))"

text \<open>The frame is out: it is recorded, leaves the buffer, and the next one is looked for.\<close>

definition frame_forwarded ::
  "serde \<Rightarrow> direction \<Rightarrow> i64 \<Rightarrow> stdio_frame \<Rightarrow> u64 \<Rightarrow> i64 \<Rightarrow> pump_task \<Rightarrow> pump \<Rightarrow> pump_task \<times> pump" where
  "frame_forwarded S direction now frame seq timestamp_ns t p =
     next_frame now (t\<lparr>pt_buf := drop (consumed frame) (pt_buf t)\<rparr>)
       (record_frame S p frame direction seq timestamp_ns)"

section \<open>The recorder\<close>

text \<open>\<open>Relaying\<close>: both pumps run; \<open>ClientGone\<close>: the server's output is drained; \<open>Over\<close>: the result, stopped.\<close>

datatype relay_phase =
    Relaying
  | ClientGone "string + unit"
  | Over "string + unit" bool

record forwarded =
  fw_direction :: direction
  fw_line :: bytes
  fw_message :: "mcp_message option"

text \<open>
  \<open>rc_held\<close>: the reservations of the events that the writer has taken and not yet dropped.
  \<open>rc_taken\<close> (those events), \<open>rc_log\<close> (the frames forwarded, with what was queued for each) and
  \<open>rc_stamps\<close> (the stamps reserved) are histories.
\<close>

record recorder =
  rc_c2s :: pump_task
  rc_s2c :: pump_task
  rc_shared :: pump
  rc_held :: "usize list"
  rc_phase :: relay_phase
  rc_taken :: "storage_event list"
  rc_log :: "forwarded list"
  rc_stamps :: nat

definition STORAGE_CHANNEL_CAPACITY :: usize where
  "STORAGE_CHANNEL_CAPACITY = 4096"

definition recorder_init :: recorder where
  "recorder_init =
     \<lparr>rc_c2s = pump_task_new, rc_s2c = pump_task_new,
      rc_shared = \<lparr>pm_budget = budget_new STORAGE_QUEUE_MAX_BYTES,
        pm_channel = \<lparr>ch_queue = [], ch_capacity = STORAGE_CHANNEL_CAPACITY, ch_open = True\<rparr>,
        pm_seq = 0, pm_dropped = 0, pm_forwarded = []\<rparr>,
      rc_held = [], rc_phase = Relaying, rc_taken = [], rc_log = [], rc_stamps = 0\<rparr>"

fun rc_task :: "direction \<Rightarrow> recorder \<Rightarrow> pump_task" where
  "rc_task ClientToServer s = rc_c2s s"
| "rc_task ServerToClient s = rc_s2c s"

fun set_task :: "direction \<Rightarrow> pump_task \<Rightarrow> recorder \<Rightarrow> recorder" where
  "set_task ClientToServer t s = s\<lparr>rc_c2s := t\<rparr>"
| "set_task ServerToClient t s = s\<lparr>rc_s2c := t\<rparr>"

text \<open>Which pumps are polled: both by the first \<open>select\<close>, the server's alone by the drain.\<close>

fun polled :: "relay_phase \<Rightarrow> direction \<Rightarrow> bool" where
  "polled Relaying d \<longleftrightarrow> True"
| "polled (ClientGone r) d \<longleftrightarrow> d = ServerToClient"
| "polled (Over r stopped) d \<longleftrightarrow> False"

text \<open>The state after a turn of a pump; a stamp was reserved exactly when the pump now awaits a write.\<close>

definition pump_turn :: "direction \<Rightarrow> pump_task \<times> pump \<Rightarrow> recorder \<Rightarrow> recorder" where
  "pump_turn d turn s =
     set_task d (fst turn)
       (s\<lparr>rc_shared := snd turn,
          rc_stamps := (case pt_stage (fst turn) of
             AwaitForward f seq ts n \<Rightarrow> Suc (rc_stamps s) | _ \<Rightarrow> rc_stamps s)\<rparr>)"

text \<open>What \<open>record_frame\<close> queues for a frame, for the history only.\<close>

definition queued_message :: "serde \<Rightarrow> pump \<Rightarrow> stdio_frame \<Rightarrow> direction \<Rightarrow> u64 \<Rightarrow> i64 \<Rightarrow> mcp_message option" where
  "queued_message S p frame d seq ts =
     (case stdio_decode_message S (json_bytes frame) d seq ts of
        Inl _ \<Rightarrow> None
      | Inr m \<Rightarrow> if pm_channel (try_record p m) = pm_channel p then None else Some m)"

fun and_result :: "string + unit \<Rightarrow> string + unit \<Rightarrow> string + unit" where
  "and_result (Inl e) _ = Inl e"
| "and_result (Inr _) r = r"

inductive record_step :: "serde \<Rightarrow> recorder \<Rightarrow> recorder \<Rightarrow> bool" for S where
  read_chunk: "polled (rc_phase s) d \<Longrightarrow> pt_stage (rc_task d s) = AwaitInput \<Longrightarrow>
     chunk \<noteq> [] \<Longrightarrow> length chunk \<le> READ_CHUNK_BYTES \<Longrightarrow>
     record_step S s (pump_turn d (receive_chunk now chunk (rc_task d s) (rc_shared s)) s)"
| read_end: "polled (rc_phase s) d \<Longrightarrow> pt_stage (rc_task d s) = AwaitInput \<Longrightarrow>
     result \<in> {Inr (), Inl ''failed to read''} \<Longrightarrow>
     record_step S s (set_task d ((rc_task d s)\<lparr>pt_stage := PumpReturned result\<rparr>) s)"
| write_some: "polled (rc_phase s) d \<Longrightarrow> pt_stage (rc_task d s) = AwaitForward f seq ts n \<Longrightarrow>
     n + k \<le> length (wire_bytes f) \<Longrightarrow>
     record_step S s (set_task d ((rc_task d s)\<lparr>pt_stage := AwaitForward f seq ts (n + k),
        pt_out := pt_out (rc_task d s) @ take k (drop n (wire_bytes f))\<rparr>) s)"
| write_failed: "polled (rc_phase s) d \<Longrightarrow> pt_stage (rc_task d s) = AwaitForward f seq ts n \<Longrightarrow>
     record_step S s (set_task d ((rc_task d s)\<lparr>pt_stage := PumpReturned (Inl ''forwarding stopped'')\<rparr>) s)"
| written: "polled (rc_phase s) d \<Longrightarrow> pt_stage (rc_task d s) = AwaitForward f seq ts (length (wire_bytes f)) \<Longrightarrow>
     record_step S s
       (pump_turn d (frame_forwarded S d now f seq ts (rc_task d s) (rc_shared s))
          (s\<lparr>rc_log := rc_log s @ [\<lparr>fw_direction = d, fw_line = wire_bytes f,
               fw_message = queued_message S (rc_shared s) f d seq ts\<rparr>]\<rparr>))"
| client_closed: "rc_phase s = Relaying \<Longrightarrow> pt_stage (rc_c2s s) = PumpReturned result \<Longrightarrow>
     record_step S s (s\<lparr>rc_phase := ClientGone result\<rparr>)"
| server_closed: "rc_phase s = Relaying \<Longrightarrow> pt_stage (rc_s2c s) = PumpReturned result \<Longrightarrow>
     record_step S s (s\<lparr>rc_phase := Over result False\<rparr>)"
| stop_requested: "rc_phase s = Relaying \<Longrightarrow> record_step S s (s\<lparr>rc_phase := Over (Inr ()) True\<rparr>)"
| drained: "rc_phase s = ClientGone result \<Longrightarrow> pt_stage (rc_s2c s) = PumpReturned drained \<Longrightarrow>
     record_step S s (s\<lparr>rc_phase := Over (and_result result drained) False\<rparr>)"
| drain_cut: "rc_phase s = ClientGone result \<Longrightarrow>
     record_step S s (s\<lparr>rc_phase := Over result stopped\<rparr>)"
| take_event: "ch_queue (pm_channel (rc_shared s)) = Message m bytes # rest \<Longrightarrow>
     record_step S s (s\<lparr>rc_shared := (rc_shared s)\<lparr>pm_channel := (pm_channel (rc_shared s))\<lparr>ch_queue := rest\<rparr>\<rparr>,
        rc_taken := rc_taken s @ [Message m bytes], rc_held := rc_held s @ [bytes]\<rparr>)"
| drop_event: "rc_held s = before @ bytes # after \<Longrightarrow>
     record_step S s (s\<lparr>rc_shared := (rc_shared s)\<lparr>pm_budget := release (pm_budget (rc_shared s)) bytes\<rparr>,
        rc_held := before @ after\<rparr>)"
| writer_gone: "record_step S s
     (s\<lparr>rc_shared := (rc_shared s)\<lparr>pm_channel := (pm_channel (rc_shared s))\<lparr>ch_open := False\<rparr>\<rparr>\<rparr>)"

inductive record_reachable :: "serde \<Rightarrow> recorder \<Rightarrow> bool" for S where
  start: "record_reachable S recorder_init"
| step: "record_reachable S s \<Longrightarrow> record_step S s s' \<Longrightarrow> record_reachable S s'"

section \<open>Finalizing\<close>

text \<open>
  Everything the writer receives: the events taken, the ones still queued, and the \<open>Close\<close> that
  \<open>finish_storage_writer\<close> sends with the drop count.
\<close>

definition writer_events :: "recorder \<Rightarrow> i64 \<Rightarrow> storage_event list" where
  "writer_events s ended_at =
     rc_taken s @ ch_queue (pm_channel (rc_shared s)) @ [Close ended_at (pm_dropped (rc_shared s))]"

text \<open>\<open>tokio::select!\<close> of the wait for the exit, the grace period and a further stop request.\<close>

datatype reap_wait = ServerExited "string + bool" | GraceElapsed | StopAgain

definition reap_server :: "reap_wait \<Rightarrow> string + unit \<Rightarrow> string + bool option \<Rightarrow> string + bool option" where
  "reap_server waited killed tried =
     (case waited of
        ServerExited (Inl e) \<Rightarrow> Inl e
      | ServerExited (Inr success) \<Rightarrow> Inr (Some success)
      | _ \<Rightarrow>
          (case killed of
             Inr _ \<Rightarrow> Inr None
           | Inl error \<Rightarrow>
               (case tried of
                  Inl e \<Rightarrow> Inl e
                | Inr (Some success) \<Rightarrow> Inr (Some success)
                | Inr None \<Rightarrow> Inl error)))"

text \<open>\<open>killed\<close> is \<open>None\<close> when the kill did not finish within the grace period.\<close>

definition cleanup_failed_start :: "(string + unit) option \<Rightarrow> string + bool option \<Rightarrow> string + unit" where
  "cleanup_failed_start killed tried =
     (case killed of
        Some (Inr _) \<Rightarrow> Inr ()
      | Some (Inl error) \<Rightarrow>
          (case tried of
             Inl e \<Rightarrow> Inl e
           | Inr (Some _) \<Rightarrow> Inr ()
           | Inr None \<Rightarrow> Inl ''failed to terminate MCP server after startup failure'')
      | None \<Rightarrow> Inl ''MCP server startup cleanup timed out'')"

text \<open>The result of \<open>run\<close>; \<open>asked\<close>: a stop request has arrived at any time.\<close>

definition record_result ::
  "string + unit \<Rightarrow> bool \<Rightarrow> bool \<Rightarrow> string + unit \<Rightarrow> string + bool option \<Rightarrow> string + unit" where
  "record_result pumps_result pumps_stopped asked storage_result process_result =
     (case pumps_result of
        Inl e \<Rightarrow> Inl e
      | Inr _ \<Rightarrow>
          (case storage_result of
             Inl e \<Rightarrow> Inl e
           | Inr _ \<Rightarrow>
               (case process_result of
                  Inl _ \<Rightarrow> Inl ''failed to wait for MCP server process''
                | Inr (Some success) \<Rightarrow>
                    if \<not> success \<and> \<not> (pumps_stopped \<or> asked) then Inl ''MCP server exited unsuccessfully''
                    else Inr ()
                | Inr None \<Rightarrow> Inr ())))"

end
