(* ===== verification/WriterFacts.thy ===== *)
theory WriterFacts
  imports Writer StoreProps "HOL-Library.Multiset"
begin

text \<open>
  What the writer does when nothing fails: the failure flag only ever rises, and while it is down
  the messages released are the received ones in sequence order, each stored once and redacted in
  the context that the tracker gives it in that order.
\<close>

section \<open>The interface of the store\<close>

text \<open>
  A sink either reports an error, or has done what the store's methods do.  Nothing is assumed of
  when it fails.
\<close>

locale storage_sink =
  fixes S :: serde
    and put :: "store \<Rightarrow> string \<Rightarrow> mcp_message list \<Rightarrow> store_error + store"
    and increment :: "store \<Rightarrow> string \<Rightarrow> u64 \<Rightarrow> store_error + store"
    and close :: "store \<Rightarrow> string \<Rightarrow> i64 \<Rightarrow> store_error + store"
  assumes write_done: "put st sid ms = Inr st' \<Longrightarrow> write_messages S st sid ms = Inr st'"
    and increment_done: "increment st sid n = Inr st' \<Longrightarrow> st' = increment_dropped_messages st sid n"
    and close_done: "close st sid e = Inr st' \<Longrightarrow> st' = close_session st sid e"

definition sound_sink :: "serde \<Rightarrow> sink \<Rightarrow> bool" where
  "sound_sink S K \<longleftrightarrow> storage_sink S (sink_write K) (sink_increment K) (sink_close K)"

interpretation sqlite: storage_sink S "sink_write (store_sink S)" "sink_increment (store_sink S)"
  "sink_close (store_sink S)" for S
  by unfold_locales (simp_all add: store_sink_def)

lemma store_sink_sound: "sound_sink S (store_sink S)"
  unfolding sound_sink_def by (rule sqlite.storage_sink_axioms)

section \<open>Failures persist\<close>

definition failing :: "writer \<Rightarrow> bool" where
  "failing w \<longleftrightarrow> wr_first_failure w \<noteq> None"

lemma failing_simps [simp]:
  "failing (note_failure text w)" "failing (count_failed n text w)"
  "failing (w\<lparr>wr_loss_reported := b\<rparr>) = failing w" "failing (w\<lparr>wr_next_seq := n\<rparr>) = failing w"
  "failing (w\<lparr>wr_context := c\<rparr>) = failing w" "failing (w\<lparr>wr_pending := p\<rparr>) = failing w"
  "failing (w\<lparr>wr_store := s\<rparr>) = failing w" "failing (w\<lparr>wr_arrival := k\<rparr>) = failing w"
  by (simp_all add: failing_def count_failed_def note_failure_def split: option.splits)

lemma release_failing: "failing w \<Longrightarrow> failing (fst (release_pending c w P out))"
  by (induction c w P out rule: release_pending.induct) (auto simp: Let_def)

lemma redact_failing: "failing w \<Longrightarrow> failing (fst (redact_messages S r w ms))"
proof (induction ms arbitrary: w)
  case (Cons m ms)
  obtain ctx t' where o: "observe S (wr_context w) (m_seq m) (as_db_str (m_direction m)) (m_payload m) = (ctx, t')"
    by (metis prod.collapse)
  show ?case using Cons o by (simp add: Let_def case_prod_beta)
qed simp

lemma write_batch_failing: "failing w \<Longrightarrow> failing (write_batch K sid w b)"
  by (auto simp: write_batch_def split: sum.splits)

lemma foldl_write_failing: "failing w \<Longrightarrow> failing (foldl (write_batch K sid) w bs)"
  by (induction bs arbitrary: w) (auto simp: write_batch_failing)

lemma enqueue_fields [simp]:
  "wr_first_failure (enqueue_messages w ms) = wr_first_failure w"
  "failing (enqueue_messages w ms) = failing w"
  "wr_next_seq (enqueue_messages w ms) = wr_next_seq w"
  "wr_context (enqueue_messages w ms) = wr_context w"
  "wr_store (enqueue_messages w ms) = wr_store w"
  "wr_failed (enqueue_messages w ms) = wr_failed w"
  "wr_loss_reported (enqueue_messages w ms) = wr_loss_reported w"
  by (induction w ms rule: enqueue_messages.induct) simp_all

section \<open>The reorder buffer\<close>

definition key_seq :: "(u64 \<times> u64) \<times> mcp_message \<Rightarrow> u64" where
  "key_seq e = fst (fst e)"

definition pend_ok :: "nat \<Rightarrow> (u64 \<times> u64, mcp_message) btree \<Rightarrow> bool" where
  "pend_ok n P \<longleftrightarrow> sorted_wrt (<) (map key_seq P)
     \<and> (\<forall>e \<in> set P. key_seq e = m_seq (snd e) \<and> n \<le> m_seq (snd e) \<and> m_seq (snd e) < u64_max)"

lemma pend_insert:
  assumes "seq \<notin> key_seq ` set P" "sorted_wrt (<) (map key_seq P)"
  shows "sorted_wrt (<) (map key_seq (bt_insert (seq, a) m P))
     \<and> mset (bt_insert (seq, a) m P) = add_mset ((seq, a), m) (mset P)"
  using assms
proof (induction P)
  case (Cons e P)
  obtain s b x where e: "e = ((s, b), x)" by (metis prod.collapse)
  have "key_seq ` set (bt_insert (seq, a) m P) = insert seq (key_seq ` set P)"
    using Cons by (auto dest!: arg_cong[of "mset _" _ set_mset] simp: key_seq_def)
  with Cons e show ?case
    by (auto simp: key_seq_def less_prod_def)
qed (simp add: key_seq_def)

lemma enqueue_pending:
  assumes "pend_ok n (wr_pending w)" "distinct (map m_seq ms)"
    and "\<forall>m \<in> set ms. m_seq m \<notin> key_seq ` set (wr_pending w) \<and> n \<le> m_seq m \<and> m_seq m < u64_max"
  shows "pend_ok n (wr_pending (enqueue_messages w ms))
     \<and> image_mset snd (mset (wr_pending (enqueue_messages w ms))) = image_mset snd (mset (wr_pending w)) + mset ms"
  using assms
proof (induction w ms rule: enqueue_messages.induct)
  case (2 w item items)
  let ?P = "wr_pending w"
  let ?P' = "bt_insert (m_seq item, wr_arrival w) item ?P"
  have ins: "sorted_wrt (<) (map key_seq ?P')"
    "mset ?P' = add_mset ((m_seq item, wr_arrival w), item) (mset ?P)"
    using pend_insert[of "m_seq item" ?P] "2.prems" by (auto simp: pend_ok_def)
  then have set: "set ?P' = insert ((m_seq item, wr_arrival w), item) (set ?P)"
    by (metis set_mset_add_mset_insert set_mset_mset)
  have "pend_ok n ?P'" using ins(1) set "2.prems" by (auto simp: pend_ok_def key_seq_def)
  then show ?case
    using "2.IH" "2.prems" set ins(2) by (simp add: key_seq_def) (metis (no_types, lifting) "2.prems"(2) distinct.simps(2) image_eqI list.set_map list.simps(9))
qed simp

lemma pend_ok_Cons:
  "pend_ok n (e # P) \<Longrightarrow> pend_ok (Suc (m_seq (snd e))) P"
  by (auto simp: pend_ok_def Suc_le_eq)

lemma release_open:
  assumes "release_pending False w P out = (w', out')" "\<not> failing w'"
    "pend_ok (wr_next_seq w) P" "\<not> wr_loss_reported w"
  shows "\<exists>R. out' = out @ R \<and> map snd P = R @ map snd (wr_pending w')
     \<and> map m_seq R = [wr_next_seq w..<wr_next_seq w'] \<and> wr_next_seq w \<le> wr_next_seq w'
     \<and> pend_ok (wr_next_seq w') (wr_pending w')
     \<and> w' = w\<lparr>wr_pending := wr_pending w', wr_next_seq := wr_next_seq w'\<rparr>"
  using assms
proof (induction P arbitrary: w out)
  case (Cons e P)
  obtain s a m where e: "e = ((s, a), m)" by (metis prod.collapse)
  from Cons.prems(3) have s: "s = m_seq m" "wr_next_seq w \<le> s" "s < u64_max"
    by (auto simp: e pend_ok_def key_seq_def)
  show ?case
  proof (cases "wr_next_seq w < s")
    case gap: True
    have "\<not> length (e # P) \<ge> STORAGE_REORDER_MAX_MESSAGES"
    proof
      assume "length (e # P) \<ge> STORAGE_REORDER_MAX_MESSAGES"
      with gap Cons.prems(1,4) obtain w1 where "release_pending False w1 P (out @ [m]) = (w', out')"
        "failing w1" by (auto simp: e Let_def)
      then show False using release_failing[of w1 False P "out @ [m]"] Cons.prems(2) by simp
    qed
    with gap Cons.prems show ?thesis by (auto simp: e)
  next
    case False
    with s have eq: "s = wr_next_seq w" by simp
    let ?w = "w\<lparr>wr_next_seq := Suc s\<rparr>"
    have "release_pending False ?w P (out @ [m]) = (w', out')"
      using Cons.prems(1) eq s(3) by (simp add: e Let_def saturating_add_exact)
    from Cons.IH[OF this Cons.prems(2)] pend_ok_Cons[OF Cons.prems(3)] Cons.prems(4) s(1) obtain R where R:
      "out' = (out @ [m]) @ R" "map snd P = R @ map snd (wr_pending w')"
      "map m_seq R = [Suc s..<wr_next_seq w']" "Suc s \<le> wr_next_seq w'"
      "pend_ok (wr_next_seq w') (wr_pending w')"
      "w' = ?w\<lparr>wr_pending := wr_pending w', wr_next_seq := wr_next_seq w'\<rparr>"
      by (auto simp: e)
    have "map m_seq (m # R) = [wr_next_seq w..<wr_next_seq w']"
      using R(3,4) s(1) eq by (simp add: upt_conv_Cons)
    moreover have "w' = w\<lparr>wr_pending := wr_pending w', wr_next_seq := wr_next_seq w'\<rparr>"
      using R(6) by simp
    ultimately show ?thesis using R eq by (intro exI[of _ "m # R"]) (auto simp: e)
  qed
qed auto

lemma release_closing:
  assumes "release_pending True w P out = (w', out')" "\<not> failing w'"
    "\<not> wr_loss_reported w"
  shows "out' = out @ map snd P \<and> w' = w\<lparr>wr_pending := [], wr_next_seq := wr_next_seq w'\<rparr>"
  using assms
proof (induction P arbitrary: w out)
  case (Cons e P)
  obtain s a m where e: "e = ((s, a), m)" by (metis prod.collapse)
  let ?w = "w\<lparr>wr_next_seq := max (wr_next_seq w) (saturating_add s 1)\<rparr>"
  show ?case
  proof (cases "wr_next_seq w < s \<and> length (e # P) \<ge> STORAGE_REORDER_MAX_MESSAGES")
    case True
    with Cons.prems(1,3) obtain w1 where "release_pending True w1 P (out @ [m]) = (w', out')"
      "failing w1" by (auto simp: e Let_def)
    then show ?thesis using release_failing[of w1 True P "out @ [m]"] Cons.prems(2) by simp
  next
    case False
    then have "release_pending True ?w P (out @ [m]) = (w', out')"
      using Cons.prems(1) by (auto simp: e Let_def)
    from Cons.IH[OF this Cons.prems(2)] Cons.prems(3)
    have "out' = (out @ [m]) @ map snd P" "w' = ?w\<lparr>wr_pending := [], wr_next_seq := wr_next_seq w'\<rparr>"
      by auto
    then show ?thesis by (simp add: e)
  qed
qed auto

section \<open>Redacting and storing\<close>

text \<open>The messages as stored: redacted one after the other, in the tracker's context.\<close>

fun redact_all :: "serde \<Rightarrow> redactor \<Rightarrow> tracker \<Rightarrow> mcp_message list \<Rightarrow> mcp_message list" where
  "redact_all S r t [] = []"
| "redact_all S r t (m # ms) =
     (let (ctx, t') = observe S t (m_seq m) (as_db_str (m_direction m)) (m_payload m)
      in m\<lparr>m_payload := redact_with_context r (m_payload m) ctx\<rparr> # redact_all S r t' ms)"

fun tracker_after :: "serde \<Rightarrow> tracker \<Rightarrow> mcp_message list \<Rightarrow> tracker" where
  "tracker_after S t [] = t"
| "tracker_after S t (m # ms) =
     tracker_after S (snd (observe S t (m_seq m) (as_db_str (m_direction m)) (m_payload m))) ms"

lemma redact_all_append:
  "redact_all S r t (xs @ ys) = redact_all S r t xs @ redact_all S r (tracker_after S t xs) ys"
  by (induction xs arbitrary: t) (auto simp: case_prod_beta Let_def)

lemma tracker_after_append: "tracker_after S t (xs @ ys) = tracker_after S (tracker_after S t xs) ys"
  by (induction xs arbitrary: t) auto

lemma seq_redact_all [simp]: "map m_seq (redact_all S r t ms) = map m_seq ms"
  by (induction ms arbitrary: t) (simp_all add: case_prod_beta Let_def)

lemma length_redact_all [simp]: "length (redact_all S r t ms) = length ms"
  by (metis length_map seq_redact_all)

lemma redact_messages_ok:
  assumes "redact_messages S r w ms = (w', out)" "\<not> failing w'" "\<not> wr_loss_reported w"
    "is_active r \<longrightarrow> \<not> has_lost_context (wr_context w)"
  shows "out = redact_all S r (wr_context w) ms
     \<and> w' = w\<lparr>wr_context := tracker_after S (wr_context w) ms\<rparr>
     \<and> (is_active r \<longrightarrow> \<not> has_lost_context (wr_context w'))"
  using assms
proof (induction ms arbitrary: w out)
  case (Cons m ms)
  obtain ctx t' where o: "observe S (wr_context w) (m_seq m) (as_db_str (m_direction m)) (m_payload m) = (ctx, t')"
    by (metis prod.collapse)
  let ?w = "w\<lparr>wr_context := t'\<rparr>"
  show ?case
  proof (cases "is_active r \<and> has_lost_context t'")
    case True
    let ?w1 = "(count_failed 1 ''redaction request context was incomplete'' ?w)\<lparr>wr_loss_reported := True\<rparr>"
    from True Cons.prems(1,3) o have "w' = fst (redact_messages S r ?w1 ms)"
      by (auto simp: Let_def case_prod_beta)
    then show ?thesis using redact_failing[of ?w1 S r ms] Cons.prems(2) by simp
  next
    case False
    obtain out1 where rest: "redact_messages S r ?w ms = (w', out1)"
      and out: "out = m\<lparr>m_payload := redact_with_context r (m_payload m) ctx\<rparr> # out1"
      using Cons.prems(1) False o by (auto simp: Let_def split: prod.splits if_splits)
    from Cons.IH[OF rest Cons.prems(2)] False Cons.prems(3) out o show ?thesis by auto
  qed
qed auto

lemma concat_chunks: "0 < n \<Longrightarrow> concat (chunks n xs) = xs"
  by (induction n xs rule: chunks.induct) (subst chunks.simps, auto)

lemma insert_messages_append:
  "insert_messages st (xs @ ys) = bind_result (insert_messages st xs) (\<lambda>st'. insert_messages st' ys)"
  by (induction st xs rule: insert_messages.induct) (auto simp: bind_result_def split: sum.splits)

lemma foldl_write_ok:
  assumes K: "sound_sink S K" and "\<not> failing (foldl (write_batch K sid) w bs)"
  shows "\<not> failing w \<and> foldl (write_batch K sid) w bs
           = w\<lparr>wr_store := wr_store (foldl (write_batch K sid) w bs)\<rparr>
     \<and> insert_messages (wr_store w) (map (message_row_of S sid) (concat bs))
         = Inr (wr_store (foldl (write_batch K sid) w bs))"
  using assms(2)
proof (induction bs arbitrary: w)
  case (Cons b bs)
  have ok: "\<not> failing (write_batch K sid w b)" using Cons.prems foldl_write_failing by force
  then obtain st where st: "sink_write K (wr_store w) sid b = Inr st" "write_batch K sid w b = w\<lparr>wr_store := st\<rparr>"
    by (auto simp: write_batch_def split: sum.splits)
  have "insert_messages (wr_store w) (map (message_row_of S sid) b) = Inr st"
    using storage_sink.write_done[OF K[unfolded sound_sink_def] st(1)] by (simp add: write_messages_def)
  then show ?case
    using Cons.IH[of "write_batch K sid w b"] Cons.prems st(2)
    by (auto simp: insert_messages_append bind_result_def)
qed simp

lemma store_batches_ok:
  assumes "sound_sink S K" "\<not> failing (store_batches K sid w ms)"
  shows "\<not> failing w" "store_batches K sid w ms = w\<lparr>wr_store := wr_store (store_batches K sid w ms)\<rparr>"
    "insert_messages (wr_store w) (map (message_row_of S sid) ms) = Inr (wr_store (store_batches K sid w ms))"
  using foldl_write_ok[OF assms[unfolded store_batches_def]]
  by (simp_all add: store_batches_def concat_chunks STORAGE_WRITE_BATCH_MESSAGES_def)

section \<open>The invariant of a run without failure\<close>

text \<open>
  \<open>M\<close> is what was received and \<open>D\<close> what was released so far, which is the messages numbered from 0
  without a gap; the rest waits in the buffer.
\<close>

definition writer_inv ::
  "serde \<Rightarrow> redactor \<Rightarrow> string \<Rightarrow> store \<Rightarrow> mcp_message list \<Rightarrow> mcp_message list \<Rightarrow> writer \<Rightarrow> bool" where
  "writer_inv S r sid st M D w \<longleftrightarrow>
     \<not> failing w \<and> wr_failed w = 0 \<and> \<not> wr_loss_reported w
     \<and> pend_ok (wr_next_seq w) (wr_pending w)
     \<and> mset M = mset D + image_mset snd (mset (wr_pending w))
     \<and> map m_seq D = [0..<wr_next_seq w]
     \<and> wr_context w = tracker_after S tracker_default D
     \<and> (is_active r \<longrightarrow> \<not> has_lost_context (wr_context w))
     \<and> insert_messages st (map (message_row_of S sid) (redact_all S r tracker_default D)) = Inr (wr_store w)"

lemma writer_inv_init: "writer_inv S r sid st [] [] (writer_init st)"
  by (simp add: writer_inv_def writer_init_def failing_def pend_ok_def tracker_default_def has_lost_context_def)

text \<open>The parts of one batch, whatever the closing flag.\<close>

lemma writer_batch_parts:
  assumes inv: "writer_inv S r sid st M D w" and K: "sound_sink S K"
    and fresh: "distinct (map m_seq (M @ ms))" "\<forall>m \<in> set ms. m_seq m < u64_max"
    and ok: "\<not> failing (writer_batch S K r sid w ms closing)"
  obtains w2 R where
    "release_pending closing (enqueue_messages w ms) (wr_pending (enqueue_messages w ms)) [] = (w2, R)"
    "\<not> failing w2" "pend_ok (wr_next_seq w) (wr_pending (enqueue_messages w ms))"
    "mset (M @ ms) = mset D + image_mset snd (mset (wr_pending (enqueue_messages w ms)))"
    "\<And>out w3. redact_messages S r w2 R = (w3, out) \<Longrightarrow>
       \<not> failing w3 \<and> writer_batch S K r sid w ms closing
          = w3\<lparr>wr_store := wr_store (writer_batch S K r sid w ms closing)\<rparr>
       \<and> insert_messages (wr_store w3) (map (message_row_of S sid) out)
           = Inr (wr_store (writer_batch S K r sid w ms closing))"
proof -
  let ?w1 = "enqueue_messages w ms"
  obtain w2 R where rel: "release_pending closing ?w1 (wr_pending ?w1) [] = (w2, R)"
    by (metis prod.collapse)
  obtain w3 out where red: "redact_messages S r w2 R = (w3, out)" by (metis prod.collapse)
  have batch: "writer_batch S K r sid w ms closing = store_batches K sid w3 out"
    by (simp add: writer_batch_def rel red Let_def)
  note stored = store_batches_ok[OF K ok[unfolded batch]]
  have "\<not> failing w2" using redact_failing[of w2 S r R] stored(1) red by auto
  have seqs: "m_seq ` set M = {0..<wr_next_seq w} \<union> key_seq ` set (wr_pending w)"
  proof -
    have "set M = set D \<union> snd ` set (wr_pending w)"
      using inv by (metis set_image_mset set_mset_mset set_mset_union writer_inv_def)
    moreover have "m_seq ` set D = {0..<wr_next_seq w}"
      using inv by (metis list.set_map set_upt writer_inv_def)
    moreover have "m_seq ` snd ` set (wr_pending w) = key_seq ` set (wr_pending w)"
      using inv by (force simp: writer_inv_def pend_ok_def)
    ultimately show ?thesis by (simp add: image_Un)
  qed
  have "\<forall>m \<in> set ms. m_seq m \<notin> m_seq ` set M" using fresh(1) by auto
  with seqs fresh(2) have new: "\<forall>m \<in> set ms. m_seq m \<notin> key_seq ` set (wr_pending w)
      \<and> wr_next_seq w \<le> m_seq m \<and> m_seq m < u64_max" by force
  have "pend_ok (wr_next_seq w) (wr_pending w)" "distinct (map m_seq ms)"
    using inv fresh(1) by (simp_all add: writer_inv_def)
  note enq = enqueue_pending[OF this new]
  have "mset (M @ ms) = mset D + image_mset snd (mset (wr_pending ?w1))"
    using inv enq by (simp add: writer_inv_def)
  with rel \<open>\<not> failing w2\<close> enq stored batch red show thesis by (intro that) auto
qed

lemma writer_batch_open:
  assumes inv: "writer_inv S r sid st M D w" and K: "sound_sink S K"
    and fresh: "distinct (map m_seq (M @ ms))" "\<forall>m \<in> set ms. m_seq m < u64_max"
    and ok: "\<not> failing (writer_batch S K r sid w ms False)"
  shows "\<exists>R. writer_inv S r sid st (M @ ms) (D @ R) (writer_batch S K r sid w ms False)"
proof -
  let ?w1 = "enqueue_messages w ms" and ?w' = "writer_batch S K r sid w ms False"
  from inv have inv_w: "wr_failed w = 0" "\<not> wr_loss_reported w" "map m_seq D = [0..<wr_next_seq w]"
    "wr_context w = tracker_after S tracker_default D" "is_active r \<longrightarrow> \<not> has_lost_context (wr_context w)"
    "insert_messages st (map (message_row_of S sid) (redact_all S r tracker_default D)) = Inr (wr_store w)"
    unfolding writer_inv_def by blast+
  obtain w2 R where rel: "release_pending False ?w1 (wr_pending ?w1) [] = (w2, R)" "\<not> failing w2"
    and pend: "pend_ok (wr_next_seq w) (wr_pending ?w1)"
    and all: "mset (M @ ms) = mset D + image_mset snd (mset (wr_pending ?w1))"
    and rest: "\<And>out w3. redact_messages S r w2 R = (w3, out) \<Longrightarrow>
       \<not> failing w3 \<and> ?w' = w3\<lparr>wr_store := wr_store ?w'\<rparr>
       \<and> insert_messages (wr_store w3) (map (message_row_of S sid) out) = Inr (wr_store ?w')"
    by (rule writer_batch_parts[OF inv K fresh ok]) blast
  from release_open[OF rel(1,2)] pend inv_w(2) have r: "map snd (wr_pending ?w1) = R @ map snd (wr_pending w2)"
    "map m_seq R = [wr_next_seq w..<wr_next_seq w2]" "wr_next_seq w \<le> wr_next_seq w2"
    "pend_ok (wr_next_seq w2) (wr_pending w2)"
    "w2 = ?w1\<lparr>wr_pending := wr_pending w2, wr_next_seq := wr_next_seq w2\<rparr>" by auto
  have w2: "wr_context w2 = wr_context w" "wr_store w2 = wr_store w" "wr_failed w2 = 0" "\<not> wr_loss_reported w2"
    using inv_w by (subst r(5), simp)+
  obtain w3 out where red: "redact_messages S r w2 R = (w3, out)" by (metis prod.collapse)
  note fin = rest[OF red]
  have out: "out = redact_all S r (wr_context w) R" "w3 = w2\<lparr>wr_context := tracker_after S (wr_context w) R\<rparr>"
    "is_active r \<longrightarrow> \<not> has_lost_context (wr_context w3)"
    using redact_messages_ok[OF red] fin w2 inv_w(5) by auto
  have w': "wr_pending ?w' = wr_pending w2" "wr_next_seq ?w' = wr_next_seq w2" "wr_failed ?w' = 0"
    "\<not> wr_loss_reported ?w'" "wr_context ?w' = tracker_after S (wr_context w) R"
  proof -
    obtain st' where "?w' = w2\<lparr>wr_context := tracker_after S (wr_context w) R, wr_store := st'\<rparr>"
      using fin out(2) by metis
    then show "wr_pending ?w' = wr_pending w2" "wr_next_seq ?w' = wr_next_seq w2" "wr_failed ?w' = 0"
      "\<not> wr_loss_reported ?w'" "wr_context ?w' = tracker_after S (wr_context w) R"
      using w2 by simp_all
  qed
  have "image_mset snd (mset (wr_pending ?w1)) = mset R + image_mset snd (mset (wr_pending w2))"
    using r(1) by (metis mset_append mset_map)
  with all have "mset (M @ ms) = mset (D @ R) + image_mset snd (mset (wr_pending ?w'))"
    by (simp add: w')
  moreover have "map m_seq (D @ R) = [0..<wr_next_seq ?w']"
    using r(2,3) inv_w(3) w'(2) by (simp add: upt_add_eq_append[symmetric] le_iff_add) (metis upt_add_eq_append zero_le)
  moreover have "insert_messages st (map (message_row_of S sid) (redact_all S r tracker_default (D @ R)))
      = Inr (wr_store ?w')"
    using fin inv_w(4,6) out(1,2) w2(2)
    by (simp add: redact_all_append insert_messages_append bind_result_def)
  ultimately show ?thesis
    using ok r(4) w' out inv_w(4) by (intro exI[of _ R]) (simp add: writer_inv_def tracker_after_append)
qed

lemma writer_batch_closing:
  assumes inv: "writer_inv S r sid st M D w" and K: "sound_sink S K"
    and fresh: "distinct (map m_seq (M @ ms))" "\<forall>m \<in> set ms. m_seq m < u64_max"
    and ok: "\<not> failing (writer_batch S K r sid w ms True)"
  shows "insert_messages st (map (message_row_of S sid)
             (redact_all S r tracker_default (sort_key m_seq (M @ ms))))
           = Inr (wr_store (writer_batch S K r sid w ms True))
     \<and> wr_failed (writer_batch S K r sid w ms True) = 0
     \<and> (is_active r \<longrightarrow> \<not> has_lost_context (tracker_after S tracker_default (sort_key m_seq (M @ ms))))"
proof -
  let ?w1 = "enqueue_messages w ms" and ?w' = "writer_batch S K r sid w ms True"
  from inv have inv_w: "wr_failed w = 0" "\<not> wr_loss_reported w" "map m_seq D = [0..<wr_next_seq w]"
    "wr_context w = tracker_after S tracker_default D" "is_active r \<longrightarrow> \<not> has_lost_context (wr_context w)"
    "insert_messages st (map (message_row_of S sid) (redact_all S r tracker_default D)) = Inr (wr_store w)"
    unfolding writer_inv_def by blast+
  obtain w2 R where rel: "release_pending True ?w1 (wr_pending ?w1) [] = (w2, R)" "\<not> failing w2"
    and pend: "pend_ok (wr_next_seq w) (wr_pending ?w1)"
    and all: "mset (M @ ms) = mset D + image_mset snd (mset (wr_pending ?w1))"
    and rest: "\<And>out w3. redact_messages S r w2 R = (w3, out) \<Longrightarrow>
       \<not> failing w3 \<and> ?w' = w3\<lparr>wr_store := wr_store ?w'\<rparr>
       \<and> insert_messages (wr_store w3) (map (message_row_of S sid) out) = Inr (wr_store ?w')"
    by (rule writer_batch_parts[OF inv K fresh ok]) blast
  from release_closing[OF rel] inv_w(2) have r: "R = map snd (wr_pending ?w1)"
    "w2 = ?w1\<lparr>wr_pending := [], wr_next_seq := wr_next_seq w2\<rparr>" by auto
  have w2: "wr_context w2 = wr_context w" "wr_store w2 = wr_store w" "wr_failed w2 = 0" "\<not> wr_loss_reported w2"
    using inv_w by (subst r(2), simp)+
  obtain w3 out where red: "redact_messages S r w2 R = (w3, out)" by (metis prod.collapse)
  note fin = rest[OF red]
  have out: "out = redact_all S r (wr_context w) R" "w3 = w2\<lparr>wr_context := tracker_after S (wr_context w) R\<rparr>"
    "is_active r \<longrightarrow> \<not> has_lost_context (wr_context w3)"
    using redact_messages_ok[OF red] fin w2 inv_w(5) by auto
  have "\<exists>st'. ?w' = w2\<lparr>wr_context := tracker_after S (wr_context w) R, wr_store := st'\<rparr>"
    using fin out(2) by metis
  then have "wr_failed ?w' = 0" using w2(3) by auto
  moreover have sorted: "sort_key m_seq (M @ ms) = D @ R"
  proof (rule sort_key_inj_key_eq)
    show "mset (M @ ms) = mset (D @ R)" using all r(1) by simp
    show "inj_on m_seq (set (M @ ms))" using fresh(1) by (simp add: distinct_map del: map_append set_append)
    have "map m_seq R = map key_seq (wr_pending ?w1)" using pend r(1) by (auto simp: pend_ok_def)
    then have "sorted (map m_seq R)" "\<forall>n \<in> set (map m_seq R). wr_next_seq w \<le> n"
      using pend by (auto simp: pend_ok_def intro: strict_sorted_imp_sorted)
    then show "sorted (map m_seq (D @ R))" using inv_w(3) by (auto simp: sorted_append) 
  qed
  ultimately show ?thesis
    using fin inv_w(4,6) out w2(2)
    by (simp add: redact_all_append insert_messages_append bind_result_def tracker_after_append)
qed

section \<open>A whole run\<close>

text \<open>What the writer gets to see of a queue: the messages before the first \<open>Close\<close>, and that event.\<close>

fun received :: "storage_event list \<Rightarrow> mcp_message list" where
  "received [] = []"
| "received (Message m bytes # queue) = m # received queue"
| "received (Close ended_at dropped # queue) = []"

fun closing_of :: "storage_event list \<Rightarrow> (i64 \<times> u64) option" where
  "closing_of [] = None"
| "closing_of (Message m bytes # queue) = closing_of queue"
| "closing_of (Close ended_at dropped # queue) = Some (ended_at, dropped)"

lemma collect_more_received:
  "collect_more n queue ms None = ((ms', c), rest) \<Longrightarrow>
     (case c of
        None \<Rightarrow> ms' @ received rest = ms @ received queue \<and> closing_of rest = closing_of queue
      | Some e \<Rightarrow> ms' = ms @ received queue \<and> closing_of queue = Some e)"
proof (induction n arbitrary: queue ms)
  case (Suc n)
  show ?case
  proof (cases "length ms < STORAGE_WRITE_BATCH_MESSAGES \<and> queue \<noteq> []")
    case True
    then obtain e q where q: "queue = e # q" by (cases queue) auto
    show ?thesis
    proof (cases e)
      case (Message m b)
      with Suc.prems True q have "collect_more n q (ms @ [m]) None = ((ms', c), rest)"
        by (simp add: collect_storage_event_def)
      from Suc.IH[OF this] Message q show ?thesis by (auto split: option.splits)
    next
      case (Close a d)
      with Suc.prems True q show ?thesis
        by (cases n) (auto simp: collect_storage_event_def)
    qed
  qed (use Suc.prems in \<open>auto split: list.splits if_splits\<close>)
qed auto

lemma first_event_received:
  assumes "collect_storage_event event [] None = (ms, c)" "collect_more n queue ms c = ((ms', c'), rest)"
  shows "case c' of
        None \<Rightarrow> ms' @ received rest = received (event # queue) \<and> closing_of rest = closing_of (event # queue)
      | Some e \<Rightarrow> ms' = received (event # queue) \<and> closing_of (event # queue) = Some e"
proof (cases event)
  case (Message m b)
  then show ?thesis
    using assms collect_more_received[of n queue "[m]" ms' c' rest]
    by (auto simp: collect_storage_event_def split: option.splits)
next
  case (Close a d)
  then show ?thesis
    using assms by (cases n) (auto simp: collect_storage_event_def)
qed

lemma finish_session_ok:
  assumes "finish_session K sid w ended_at dropped = (w', Inr ())" "sound_sink S K"
  shows "\<not> failing w" "dropped = 0" "wr_store w' = close_session (wr_store w) sid ended_at"
proof -
  let ?total = "saturating_add dropped (wr_failed w)"
  from assms(1) have nf: "\<not> failing w'"
    by (auto simp: finish_session_def Let_def failing_def split: option.splits)
  have total: "?total = 0"
  proof (rule ccontr)
    assume "?total \<noteq> 0"
    with assms(1) nf show False
      by (auto simp: finish_session_def Let_def split: sum.splits)
  qed
  then show "dropped = 0" by (simp add: saturating_add_def u64_max_def min_def split: if_splits)
  from assms(1) total nf obtain st where st: "sink_close K (wr_store w) sid ended_at = Inr st"
    "w' = w\<lparr>wr_store := st\<rparr>"
    by (auto simp: finish_session_def Let_def split: sum.splits)
  with nf show "\<not> failing w" by simp
  from st storage_sink.close_done[OF assms(2)[unfolded sound_sink_def] st(1)]
  show "wr_store w' = close_session (wr_store w) sid ended_at" by simp
qed

lemma writer_batch_failing: "failing w \<Longrightarrow> failing (writer_batch S K r sid w ms c)"
proof -
  assume "failing w"
  then have "failing (fst (release_pending c (enqueue_messages w ms) (wr_pending (enqueue_messages w ms)) []))"
    by (intro release_failing) simp
  then have "failing (fst (redact_messages S r (fst (release_pending c (enqueue_messages w ms)
      (wr_pending (enqueue_messages w ms)) [])) rel))" for rel by (rule redact_failing)
  then show ?thesis
    by (simp add: writer_batch_def store_batches_def Let_def case_prod_beta foldl_write_failing)
qed

end
