(* ===== verification/PumpProps.thy ===== *)
theory PumpProps
  imports WriterFacts
begin

text \<open>
  The properties of the forwarding side: the byte budget under every interleaving of the threads
  that share its counter, what a pump forwards and records, and what a gap in the sequence does to
  the writer.
\<close>

section \<open>The budget under interleaving\<close>

text \<open>
  The shared counter, the reservations alive (one per queued event), and the calls of \<open>try_reserve\<close>
  in flight, each with the value it last read.
\<close>

record budget_state =
  bs_shared :: usize
  bs_owned :: "usize multiset"
  bs_calls :: "(usize \<times> usize) multiset"

inductive budget_step :: "usize \<Rightarrow> budget_state \<Rightarrow> budget_state \<Rightarrow> bool" for max_bytes where
  call: "usize_checked_sub max_bytes bytes = Some limit \<Longrightarrow>
     budget_step max_bytes s (s\<lparr>bs_calls := add_mset (bytes, bs_shared s) (bs_calls s)\<rparr>)"
| retry: "(bytes, current) \<in># bs_calls s \<Longrightarrow> usize_checked_sub max_bytes bytes = Some limit \<Longrightarrow>
     try_reserve_round limit bytes current (bs_shared s) spurious = Retry observed \<Longrightarrow>
     budget_step max_bytes s
       (s\<lparr>bs_calls := add_mset (bytes, observed) (bs_calls s - {#(bytes, current)#})\<rparr>)"
| refuse: "(bytes, current) \<in># bs_calls s \<Longrightarrow> usize_checked_sub max_bytes bytes = Some limit \<Longrightarrow>
     try_reserve_round limit bytes current (bs_shared s) spurious = Refused \<Longrightarrow>
     budget_step max_bytes s (s\<lparr>bs_calls := bs_calls s - {#(bytes, current)#}\<rparr>)"
| reserve: "(bytes, current) \<in># bs_calls s \<Longrightarrow> usize_checked_sub max_bytes bytes = Some limit \<Longrightarrow>
     try_reserve_round limit bytes current (bs_shared s) spurious = Reserved queued \<Longrightarrow>
     budget_step max_bytes s
       (s\<lparr>bs_shared := queued, bs_owned := add_mset bytes (bs_owned s),
          bs_calls := bs_calls s - {#(bytes, current)#}\<rparr>)"
| drop_reservation: "bytes \<in># bs_owned s \<Longrightarrow>
     budget_step max_bytes s
       (s\<lparr>bs_shared := qb_queued_bytes (release \<lparr>qb_max_bytes = max_bytes, qb_queued_bytes = bs_shared s\<rparr> bytes),
          bs_owned := bs_owned s - {#bytes#}\<rparr>)"

inductive budget_reachable :: "usize \<Rightarrow> budget_state \<Rightarrow> bool" for max_bytes where
  start: "budget_reachable max_bytes \<lparr>bs_shared = qb_queued_bytes (budget_new max_bytes),
     bs_owned = {#}, bs_calls = {#}\<rparr>"
| step: "budget_reachable max_bytes s \<Longrightarrow> budget_step max_bytes s s' \<Longrightarrow> budget_reachable max_bytes s'"

inductive_cases budget_stepE: "budget_step max_bytes s s'"

lemma budget_step_inv:
  assumes "budget_step max_bytes s s'" "bs_shared s = sum_mset (bs_owned s)" "bs_shared s \<le> max_bytes"
  shows "bs_shared s' = sum_mset (bs_owned s') \<and> bs_shared s' \<le> max_bytes"
  using assms
proof (cases rule: budget_step.cases)
  case (reserve bytes current limit spurious queued)
  then have "limit = max_bytes - bytes" "bytes \<le> max_bytes" "bs_shared s = current" "current \<le> limit"
    "queued = current + bytes"
    by (auto simp: usize_checked_sub_def try_reserve_round_def split: if_splits)
  with reserve assms(2) show ?thesis by simp
next
  case (drop_reservation bytes)
  then show ?thesis using assms(2,3) by (simp add: release_def sum_mset_diff)
qed auto

text \<open>
  C18: Under every interleaving of forwarding pumps and the writer, and however often the weak
  compare-exchange fails, the shared counter is the sum of the reservations alive and never exceeds
  the budget; a lone caller is refused exactly when its bytes do not fit.
\<close>

theorem budget_never_exceeded:
  assumes "budget_reachable max_bytes s"
  shows "bs_shared s = sum_mset (bs_owned s) \<and> bs_shared s \<le> max_bytes
     \<and> (try_reserve \<lparr>qb_max_bytes = max_bytes, qb_queued_bytes = bs_shared s\<rparr> bytes
          = (if sum_mset (bs_owned s) + bytes \<le> max_bytes
             then Some \<lparr>qb_max_bytes = max_bytes, qb_queued_bytes = sum_mset (bs_owned s) + bytes\<rparr>
             else None))"
proof -
  have "bs_shared s = sum_mset (bs_owned s) \<and> bs_shared s \<le> max_bytes"
    using assms by induction (auto simp: budget_new_def dest: budget_step_inv)
  then show ?thesis
    by (auto simp: try_reserve_def usize_checked_sub_def try_reserve_round_def)
qed

lemma budget_never_exceeded_witness:
  "\<exists>s. budget_reachable 10 s \<and> bs_owned s = {#4#} \<and> bs_shared s = 4"
proof -
  let ?s0 = "\<lparr>bs_shared = 0, bs_owned = {#}, bs_calls = {#}\<rparr> :: budget_state"
  let ?s1 = "?s0\<lparr>bs_calls := {#(4, 0)#}\<rparr>"
  let ?s2 = "\<lparr>bs_shared = 4, bs_owned = {#4#}, bs_calls = {#}\<rparr> :: budget_state"
  have "budget_reachable 10 ?s0" using budget_reachable.start[of 10] by (simp add: budget_new_def)
  moreover have "budget_step 10 ?s0 ?s1"
    using budget_step.call[of 10 4 6 ?s0] by (simp add: usize_checked_sub_def)
  moreover have "budget_step 10 ?s1 ?s2"
    using budget_step.reserve[of 4 0 ?s1 10 6 False 4]
    by (simp add: usize_checked_sub_def try_reserve_round_def)
  ultimately have "budget_reachable 10 ?s2" by (blast intro: budget_reachable.step)
  from budget_never_exceeded[OF this, of 0] this show ?thesis by auto
qed

section \<open>The pump\<close>

definition wrap_u64 :: "nat \<Rightarrow> u64" where
  "wrap_u64 n = n mod (u64_max + 1)"

lemma wrapping_inc_wrap: "wrapping_inc (wrap_u64 n) = wrap_u64 (Suc n)"
  by (simp add: wrapping_inc_def wrap_u64_def mod_Suc_eq)

text \<open>What an event of the queue says about the frame it was recorded from.\<close>

definition recorded_from :: "serde \<Rightarrow> (u64 \<Rightarrow> i64) \<Rightarrow> direction \<Rightarrow> u64 \<Rightarrow> bytes \<Rightarrow> storage_event \<Rightarrow> bool" where
  "recorded_from S clock d seq line event \<longleftrightarrow>
     (\<exists>m bytes. event = Message m bytes \<and> parse_json S (strip_cr (butlast line)) = Some (m_payload m)
        \<and> m_seq m = seq \<and> m_timestamp_ns m = clock seq \<and> m_direction m = d
        \<and> m_payload_bytes m = length (strip_cr (butlast line)))"

fun accounts :: "serde \<Rightarrow> (u64 \<Rightarrow> i64) \<Rightarrow> direction \<Rightarrow> nat \<Rightarrow> bytes list \<Rightarrow> storage_event list \<Rightarrow> nat \<Rightarrow> bool" where
  "accounts S clock d n [] q k \<longleftrightarrow> q = [] \<and> k = 0"
| "accounts S clock d n (line # ls) q k \<longleftrightarrow>
     (\<exists>e q'. q = e # q' \<and> recorded_from S clock d (wrap_u64 n) line e \<and> accounts S clock d (Suc n) ls q' k)
     \<or> (\<exists>k'. k = Suc k' \<and> accounts S clock d (Suc n) ls q k')"

lemma record_frame_cases:
  "record_frame S p frame d seq ts = count_drop p
   \<or> (\<exists>m b. record_frame S p frame d seq ts
          = p\<lparr>pm_budget := pm_budget (record_frame S p frame d seq ts),
              pm_channel := (pm_channel p)\<lparr>ch_queue := ch_queue (pm_channel p) @ [Message m b]\<rparr>\<rparr>
        \<and> stdio_decode_message S (json_bytes frame) d seq ts = Inr m)"
  by (auto simp: record_frame_def try_record_def Let_def split: sum.splits option.splits)

lemma parse_stdio_frame_Some:
  assumes "parse_stdio_frame buf = Inr (Some f)"
  shows "buf = wire_bytes f @ drop (consumed f) buf" "consumed f = length (wire_bytes f)"
    "json_bytes f = strip_cr (butlast (wire_bytes f))"
    "\<exists>body. wire_bytes f = body @ [nl] \<and> nl \<notin> set body"
proof -
  have "nl \<in> set buf" using assms parse_stdio_frame_pending[of buf] by auto
  then obtain body rest where b: "buf = body @ nl # rest" "nl \<notin> set body"
    using split_first_line by blast
  from assms b show "buf = wire_bytes f @ drop (consumed f) buf" "consumed f = length (wire_bytes f)"
    "json_bytes f = strip_cr (butlast (wire_bytes f))" "\<exists>body. wire_bytes f = body @ [nl] \<and> nl \<notin> set body"
    by (auto simp: parse_stdio_frame_line[OF b(2)] split: if_splits)
qed

text \<open>What a run of the pump has done, with counters that may have wrapped around.\<close>

definition pump_outcome ::
  "serde \<Rightarrow> (u64 \<Rightarrow> i64) \<Rightarrow> direction \<Rightarrow> nat \<Rightarrow> nat \<Rightarrow> bytes \<Rightarrow> pump \<Rightarrow> bool \<times> bytes \<times> pump \<Rightarrow> bool" where
  "pump_outcome S clock d dropped n buf p run \<longleftrightarrow>
     (\<exists>ls q k. buf = concat ls @ fst (snd run)
     \<and> (let p' = snd (snd run) in
          pm_forwarded p' = pm_forwarded p @ concat ls
        \<and> ch_queue (pm_channel p') = ch_queue (pm_channel p) @ q
        \<and> (pm_dropped p = wrap_u64 dropped \<longrightarrow> pm_dropped p' = wrap_u64 (dropped + k))
        \<and> (pm_seq p = wrap_u64 n \<longrightarrow> accounts S clock d n ls q k))
     \<and> (\<forall>l \<in> set ls. length l \<le> MAX_FRAME_BYTES \<and> (\<exists>body. l = body @ [nl] \<and> nl \<notin> set body))
     \<and> (fst run \<longrightarrow> nl \<notin> set (fst (snd run))))"

lemma pump_outcome_stop:
  assumes "go \<longrightarrow> nl \<notin> set buf" "pm_forwarded p' = pm_forwarded p" "pm_channel p' = pm_channel p" "pm_dropped p' = pm_dropped p"
  shows "pump_outcome S clock d dropped n buf p (go, buf, p')"
  unfolding pump_outcome_def using assms by (intro exI[of _ "[]"] exI[of _ 0]) simp

definition frame_line :: "bytes \<Rightarrow> bool" where
  "frame_line l \<longleftrightarrow> length l \<le> MAX_FRAME_BYTES \<and> (\<exists>body. l = body @ [nl] \<and> nl \<notin> set body)"

lemma pump_outcome_lost:
  assumes "pump_outcome S clock d (Suc dropped) (Suc n) rest p3 run" "buf = l @ rest" "frame_line l"
    "pm_forwarded p3 = pm_forwarded p @ l" "pm_channel p3 = pm_channel p"
    "pm_dropped p3 = wrapping_inc (pm_dropped p)" "pm_seq p3 = wrapping_inc (pm_seq p)"
  shows "pump_outcome S clock d dropped n buf p run"
proof -
  from assms(1) obtain ls q k where ih: "rest = concat ls @ fst (snd run)"
      "pm_forwarded (snd (snd run)) = pm_forwarded p3 @ concat ls"
      "ch_queue (pm_channel (snd (snd run))) = ch_queue (pm_channel p3) @ q"
      "pm_dropped p3 = wrap_u64 (Suc dropped) \<longrightarrow> pm_dropped (snd (snd run)) = wrap_u64 (Suc dropped + k)"
      "pm_seq p3 = wrap_u64 (Suc n) \<longrightarrow> accounts S clock d (Suc n) ls q k"
      "\<forall>l \<in> set ls. length l \<le> MAX_FRAME_BYTES \<and> (\<exists>body. l = body @ [nl] \<and> nl \<notin> set body)"
      "fst run \<longrightarrow> nl \<notin> set (fst (snd run))"
    unfolding pump_outcome_def Let_def by blast
  have "pm_seq p = wrap_u64 n \<longrightarrow> accounts S clock d n (l # ls) q (Suc k)"
    using ih(5) assms(7) by (simp add: wrapping_inc_wrap)
  moreover have "pm_dropped p = wrap_u64 dropped \<longrightarrow> pm_dropped (snd (snd run)) = wrap_u64 (dropped + Suc k)"
    using ih(4) assms(6) by (simp add: wrapping_inc_wrap)
  ultimately show ?thesis unfolding pump_outcome_def Let_def using ih assms(2-5)
    by (intro exI[of _ "l # ls"] exI[of _ q] exI[of _ "Suc k"]) (simp add: frame_line_def)
qed

lemma pump_outcome_recorded:
  assumes "pump_outcome S clock d dropped (Suc n) rest p3 run" "buf = l @ rest" "frame_line l"
    "pm_forwarded p3 = pm_forwarded p @ l" "ch_queue (pm_channel p3) = ch_queue (pm_channel p) @ [e]"
    "pm_dropped p3 = pm_dropped p" "pm_seq p3 = wrapping_inc (pm_seq p)" "recorded_from S clock d (pm_seq p) l e"
  shows "pump_outcome S clock d dropped n buf p run"
proof -
  from assms(1) obtain ls q k where ih: "rest = concat ls @ fst (snd run)"
      "pm_forwarded (snd (snd run)) = pm_forwarded p3 @ concat ls"
      "ch_queue (pm_channel (snd (snd run))) = ch_queue (pm_channel p3) @ q"
      "pm_dropped p3 = wrap_u64 dropped \<longrightarrow> pm_dropped (snd (snd run)) = wrap_u64 (dropped + k)"
      "pm_seq p3 = wrap_u64 (Suc n) \<longrightarrow> accounts S clock d (Suc n) ls q k"
      "\<forall>l \<in> set ls. length l \<le> MAX_FRAME_BYTES \<and> (\<exists>body. l = body @ [nl] \<and> nl \<notin> set body)"
      "fst run \<longrightarrow> nl \<notin> set (fst (snd run))"
    unfolding pump_outcome_def Let_def by blast
  have "pm_seq p = wrap_u64 n \<longrightarrow> accounts S clock d n (l # ls) (e # q) k"
  proof
    assume "pm_seq p = wrap_u64 n"
    with ih(5) assms(7,8) show "accounts S clock d n (l # ls) (e # q) k" by (simp only: wrapping_inc_wrap) auto
  qed
  then show ?thesis unfolding pump_outcome_def Let_def using ih assms(2-6)
    by (intro exI[of _ "l # ls"] exI[of _ "e # q"] exI[of _ k]) (simp add: frame_line_def)
qed

lemma drain_frames_step:
  assumes "parse_stdio_frame buf = Inr (Some f)" "\<not> consumed f > MAX_FRAME_BYTES" "writes (pm_seq p)"
    and p3_def: "p3 = record_frame S (p\<lparr>pm_seq := wrapping_inc (pm_seq p), pm_forwarded := pm_forwarded p @ wire_bytes f\<rparr>)
    f d (pm_seq p) (clock (pm_seq p))"
    and rest: "\<And>dropped. pump_outcome S clock d dropped (Suc n) (drop (consumed f) buf) p3 run"
  shows "pump_outcome S clock d dropped n buf p run"
proof -
  let ?p2 = "p\<lparr>pm_seq := wrapping_inc (pm_seq p), pm_forwarded := pm_forwarded p @ wire_bytes f\<rparr>"
  note parts = parse_stdio_frame_Some[OF assms(1)]
  have line: "frame_line (wire_bytes f)" using assms(2) parts(2,4) by (simp add: frame_line_def)
  from record_frame_cases[of S ?p2 f d "pm_seq p" "clock (pm_seq p)"] show ?thesis
  proof (elim disjE exE conjE)
    assume "record_frame S ?p2 f d (pm_seq p) (clock (pm_seq p)) = count_drop ?p2"
    then have "p3 = count_drop ?p2" by (simp add: p3_def)
    then show ?thesis by (intro pump_outcome_lost[OF rest parts(1) line]) (simp_all add: count_drop_def)
  next
    fix m b
    assume rec: "record_frame S ?p2 f d (pm_seq p) (clock (pm_seq p))
          = ?p2\<lparr>pm_budget := pm_budget (record_frame S ?p2 f d (pm_seq p) (clock (pm_seq p))),
              pm_channel := (pm_channel ?p2)\<lparr>ch_queue := ch_queue (pm_channel ?p2) @ [Message m b]\<rparr>\<rparr>"
      and msg: "stdio_decode_message S (json_bytes f) d (pm_seq p) (clock (pm_seq p)) = Inr m"
    have p3: "pm_forwarded p3 = pm_forwarded p @ wire_bytes f" "pm_dropped p3 = pm_dropped p"
      "pm_seq p3 = wrapping_inc (pm_seq p)" "ch_queue (pm_channel p3) = ch_queue (pm_channel p) @ [Message m b]"
      unfolding p3_def by (subst rec, simp)+
    have "recorded_from S clock d (pm_seq p) (wire_bytes f) (Message m b)"
      using stdio.decode_iff[THEN iffD1, OF msg] parts(3) by (simp add: recorded_from_def)
    then show ?thesis by (rule pump_outcome_recorded[OF rest parts(1) line p3(1,4,2,3)])
  qed
qed

lemma drain_frames_outcome: "pump_outcome S clock d dropped n buf p (drain_frames S clock writes d buf p)"
proof (induction "length buf" arbitrary: buf p dropped n rule: less_induct)
  case (less buf p)
  show ?case
  proof (cases "parse_stdio_frame buf")
    case (Inl e)
    then show ?thesis by (cases e) (simp add: drain_frames.simps pump_outcome_stop)
  next
    case (Inr found)
    show ?thesis
    proof (cases found)
      case None
      then show ?thesis using Inr parse_stdio_frame_pending[of buf] by (simp add: drain_frames.simps pump_outcome_stop)
    next
      case (Some f)
      note frame = Inr[unfolded Some]
      show ?thesis
      proof (cases "consumed f > MAX_FRAME_BYTES \<or> \<not> writes (pm_seq p)")
        case True
        then show ?thesis using frame
          by (auto simp: drain_frames.simps[of S clock writes d buf] reserve_capture_stamp_def intro!: pump_outcome_stop)
      next
        case False
        have shorter: "length (drop (consumed f) buf) < length buf" using parse_stdio_frame_consumed[OF frame] by auto
        then have "drain_frames S clock writes d buf p = drain_frames S clock writes d (drop (consumed f) buf)
          (record_frame S (p\<lparr>pm_seq := wrapping_inc (pm_seq p), pm_forwarded := pm_forwarded p @ wire_bytes f\<rparr>)
             f d (pm_seq p) (clock (pm_seq p)))"
          using frame False by (simp add: drain_frames.simps[of S clock writes d buf] reserve_capture_stamp_def)
        then show ?thesis using False less.hyps[OF shorter]
          by (simp only: de_Morgan_disj not_not) (rule drain_frames_step[OF frame _ _ refl], blast+)
      qed
    qed
  qed
qed

text \<open>
  C19: A pump forwards before it records and accounts for every frame: the bytes forwarded followed
  by the bytes left are exactly the bytes it was given; they are complete lines within the frame
  limit; each forwarded line is either recorded, with its own sequence number in order, or counted
  as dropped; and when the pump goes on, no complete line is left.
\<close>

theorem pump_forwards_and_accounts:
  "\<exists>ls q k. buf = concat ls @ fst (snd (drain_frames S clock writes d buf p))
     \<and> (let p' = snd (snd (drain_frames S clock writes d buf p)) in
          pm_forwarded p' = pm_forwarded p @ concat ls
        \<and> ch_queue (pm_channel p') = ch_queue (pm_channel p) @ q
        \<and> (pm_dropped p = wrap_u64 dropped \<longrightarrow> pm_dropped p' = wrap_u64 (dropped + k))
        \<and> (pm_seq p = wrap_u64 n \<longrightarrow> accounts S clock d n ls q k))
     \<and> (\<forall>l \<in> set ls. length l \<le> MAX_FRAME_BYTES \<and> (\<exists>body. l = body @ [nl] \<and> nl \<notin> set body))
     \<and> (fst (drain_frames S clock writes d buf p) \<longrightarrow>
          nl \<notin> set (fst (snd (drain_frames S clock writes d buf p))))"
  by (rule drain_frames_outcome[unfolded pump_outcome_def])

lemma pump_forwards_and_accounts_witness:
  "\<forall>S clock. let p = \<lparr>pm_budget = budget_new 4096, pm_channel = \<lparr>ch_queue = [], ch_capacity = 8, ch_open = True\<rparr>,
       pm_seq = 0, pm_dropped = 0, pm_forwarded = []\<rparr>;
     run = drain_frames S clock (\<lambda>_. True) ClientToServer [CHR ''A'', nl, CHR ''B''] p in
     \<exists>ls q k. [CHR ''A'', nl, CHR ''B''] = concat ls @ fst (snd run) \<and> pm_forwarded (snd (snd run)) = concat ls
       \<and> ch_queue (pm_channel (snd (snd run))) = q \<and> pm_dropped (snd (snd run)) = wrap_u64 k
       \<and> accounts S clock ClientToServer 0 ls q k"
proof (intro allI)
  fix S clock
  let ?p = "\<lparr>pm_budget = budget_new 4096, pm_channel = \<lparr>ch_queue = [], ch_capacity = 8, ch_open = True\<rparr>,
       pm_seq = 0, pm_dropped = 0, pm_forwarded = []\<rparr>"
  have "pm_dropped ?p = wrap_u64 0" "pm_seq ?p = wrap_u64 0" by (simp_all add: wrap_u64_def)
  with pump_forwards_and_accounts[of "[CHR ''A'', nl, CHR ''B'']" S clock "\<lambda>_. True" ClientToServer ?p 0 0]
  show "let p = ?p; run = drain_frames S clock (\<lambda>_. True) ClientToServer [CHR ''A'', nl, CHR ''B''] p in
     \<exists>ls q k. [CHR ''A'', nl, CHR ''B''] = concat ls @ fst (snd run) \<and> pm_forwarded (snd (snd run)) = concat ls
       \<and> ch_queue (pm_channel (snd (snd run))) = q \<and> pm_dropped (snd (snd run)) = wrap_u64 k
       \<and> accounts S clock ClientToServer 0 ls q k"
    unfolding Let_def by (elim exE conjE) (intro exI conjI; simp)
qed

section \<open>What a gap does\<close>

lemma enqueue_all:
  "distinct (map m_seq ms) \<Longrightarrow> pend_ok n (wr_pending w) \<Longrightarrow>
   \<forall>m \<in> set ms. m_seq m \<notin> key_seq ` set (wr_pending w) \<and> n \<le> m_seq m \<and> m_seq m < u64_max \<Longrightarrow>
   image_mset snd (mset (wr_pending (enqueue_messages w ms))) = image_mset snd (mset (wr_pending w)) + mset ms
   \<and> pend_ok n (wr_pending (enqueue_messages w ms))"
  using enqueue_pending by blast

lemma sum_list_ge: "\<forall>x \<in> set xs. c \<le> f x \<Longrightarrow> length xs * c \<le> sum_list (map f xs)" for c :: nat
  by (induction xs) auto

text \<open>
  C37: One lost record starves the recording of large messages: while every message buffered or
  arriving lies beyond a gap and is above 3,072 bytes, the byte budget those messages hold keeps their
  number below the 4,096 that would force the gap open, so until the session closes the writer
  stores none of them.
\<close>

theorem gap_starves_large_messages:
  assumes pend: "pend_ok (Suc (wr_next_seq w)) (wr_pending w)"
    and fresh: "distinct (map m_seq ms)"
      "\<forall>m \<in> set ms. m_seq m \<notin> key_seq ` set (wr_pending w) \<and> wr_next_seq w < m_seq m \<and> m_seq m < u64_max"
    and large: "\<forall>m \<in> snd ` set (wr_pending w) \<union> set ms. 3072 < m_payload_bytes m"
    and budget: "sum_list (map (\<lambda>m. m_payload_bytes m + STORAGE_EVENT_OVERHEAD_BYTES)
        (map snd (wr_pending w) @ ms)) \<le> STORAGE_QUEUE_MAX_BYTES"
  shows "wr_store (writer_batch S K r sid w ms False) = wr_store w
     \<and> wr_next_seq (writer_batch S K r sid w ms False) = wr_next_seq w
     \<and> image_mset snd (mset (wr_pending (writer_batch S K r sid w ms False)))
         = image_mset snd (mset (wr_pending w)) + mset ms"
proof -
  let ?w1 = "enqueue_messages w ms"
  have enq: "image_mset snd (mset (wr_pending ?w1)) = image_mset snd (mset (wr_pending w)) + mset ms"
    "pend_ok (Suc (wr_next_seq w)) (wr_pending ?w1)"
    using enqueue_all[OF fresh(1) pend] fresh(2) by (auto simp: Suc_le_eq)
  let ?all = "map snd (wr_pending w) @ ms"
  have "length ?all * 4097 \<le> sum_list (map (\<lambda>m. m_payload_bytes m + STORAGE_EVENT_OVERHEAD_BYTES) ?all)"
  proof (intro sum_list_ge ballI)
    fix m assume "m \<in> set ?all"
    then have "3072 < m_payload_bytes m" using large by auto
    then show "4097 \<le> m_payload_bytes m + STORAGE_EVENT_OVERHEAD_BYTES"
      by (simp add: STORAGE_EVENT_OVERHEAD_BYTES_def)
  qed
  with budget have "length ?all < STORAGE_REORDER_MAX_MESSAGES"
    by (simp add: STORAGE_QUEUE_MAX_BYTES_def STORAGE_REORDER_MAX_MESSAGES_def)
  moreover have "length (wr_pending ?w1) = length ?all"
    using arg_cong[OF enq(1), of size] by simp
  ultimately have few: "length (wr_pending ?w1) < STORAGE_REORDER_MAX_MESSAGES" by simp
  have "release_pending False ?w1 (wr_pending ?w1) [] = (?w1, [])"
  proof (cases "wr_pending ?w1")
    case (Cons e P)
    obtain s a m where e: "e = ((s, a), m)" by (metis prod.collapse)
    have "wr_next_seq w < s" using enq(2) Cons by (auto simp: e pend_ok_def key_seq_def)
    with few Cons show ?thesis by (simp add: e)
  qed simp
  then have "writer_batch S K r sid w ms False = ?w1"
    by (simp add: writer_batch_def store_batches_def chunks.simps)
  then show ?thesis using enq(1) by simp
qed

lemma gap_starves_large_messages_witness:
  "\<forall>S r sid st. wr_store (writer_batch S (store_sink S) r sid (writer_init st)
     [\<lparr>m_seq = 1, m_timestamp_ns = 0, m_direction = ClientToServer, m_payload = JNull, m_payload_bytes = 4000\<rparr>]
     False) = st"
proof (intro allI)
  fix S r sid st
  let ?m = "\<lparr>m_seq = 1, m_timestamp_ns = 0, m_direction = ClientToServer, m_payload = JNull, m_payload_bytes = 4000\<rparr>"
  show "wr_store (writer_batch S (store_sink S) r sid (writer_init st) [?m] False) = st"
    using gap_starves_large_messages[of "writer_init st" "[?m]" S "store_sink S" r sid]
    by (simp add: writer_init_def pend_ok_def u64_max_def STORAGE_EVENT_OVERHEAD_BYTES_def STORAGE_QUEUE_MAX_BYTES_def)
qed

end
