(* ===== verification/RecordFacts.thy ===== *)
theory RecordFacts
  imports RecordCommand PumpProps
begin

text \<open>
  Invariants of the running recorder, each preserved by every step: what a pump has read and forwarded
  against the log of frames, what the queue and the writer hold against that log, and the stamps.
\<close>

section \<open>The state\<close>

lemma rc_task_set_task [simp]: "rc_task d (set_task e t s) = (if d = e then t else rc_task d s)"
  by (cases d; cases e) auto

lemma set_task_frame [simp]:
  "rc_shared (set_task d t s) = rc_shared s" "rc_held (set_task d t s) = rc_held s"
  "rc_phase (set_task d t s) = rc_phase s" "rc_taken (set_task d t s) = rc_taken s"
  "rc_log (set_task d t s) = rc_log s" "rc_stamps (set_task d t s) = rc_stamps s"
  by (cases d; simp)+

lemma rc_task_frame [simp]:
  "rc_task d (s\<lparr>rc_shared := p\<rparr>) = rc_task d s" "rc_task d (s\<lparr>rc_held := h\<rparr>) = rc_task d s"
  "rc_task d (s\<lparr>rc_phase := ph\<rparr>) = rc_task d s" "rc_task d (s\<lparr>rc_taken := tk\<rparr>) = rc_task d s"
  "rc_task d (s\<lparr>rc_log := l\<rparr>) = rc_task d s" "rc_task d (s\<lparr>rc_stamps := n\<rparr>) = rc_task d s"
  by (cases d; simp)+

text \<open>The stamp of the frame a pump is forwarding.\<close>

definition flight :: "pump_task \<Rightarrow> u64 list" where
  "flight t = (case pt_stage t of AwaitForward f seq ts n \<Rightarrow> [seq] | _ \<Rightarrow> [])"

lemma flight_simps [simp]:
  "pt_stage t = AwaitInput \<Longrightarrow> flight t = []"
  "pt_stage t = AwaitForward f seq ts n \<Longrightarrow> flight t = [seq]"
  "pt_stage t = PumpReturned r \<Longrightarrow> flight t = []"
  by (simp_all add: flight_def)

lemma pump_turn_frame [simp]:
  "rc_shared (pump_turn d (t, p) s) = p" "rc_held (pump_turn d (t, p) s) = rc_held s"
  "rc_phase (pump_turn d (t, p) s) = rc_phase s" "rc_taken (pump_turn d (t, p) s) = rc_taken s"
  "rc_log (pump_turn d (t, p) s) = rc_log s"
  "rc_stamps (pump_turn d (t, p) s) = rc_stamps s + length (flight t)"
  "rc_task e (pump_turn d (t, p) s) = (if e = d then t else rc_task e s)"
  by (auto simp: pump_turn_def flight_def split: pump_stage.splits)

text \<open>The three ways in which a turn of a pump ends.\<close>

lemma next_frame_cases:
  assumes "next_frame now t p = (t', p')"
  obtains (returned) e where "t' = t\<lparr>pt_stage := PumpReturned (Inl e)\<rparr>" "p' = p"
  | (waits) "t' = t\<lparr>pt_stage := AwaitInput\<rparr>" "p' = p" "nl \<notin> set (pt_buf t)" "length (pt_buf t) \<le> MAX_FRAME_BYTES"
  | (frame) f where "t' = t\<lparr>pt_stage := AwaitForward f (pm_seq p) now 0\<rparr>"
      "p' = p\<lparr>pm_seq := wrapping_inc (pm_seq p)\<rparr>" "parse_stdio_frame (pt_buf t) = Inr (Some f)"
      "consumed f \<le> MAX_FRAME_BYTES"
proof (cases "parse_stdio_frame (pt_buf t)")
  case (Inl e)
  with assms show thesis by (intro returned[of "''forwarding stopped''"]) (auto simp: next_frame_def)
next
  case (Inr found)
  show thesis
  proof (cases found)
    case None
    with Inr have "nl \<notin> set (pt_buf t)" by (simp add: parse_stdio_frame_pending)
    moreover from assms Inr None have "t' = check_unterminated t" "p' = p" by (simp_all add: next_frame_def)
    ultimately show thesis by (cases "length (pt_buf t) > MAX_FRAME_BYTES")
        (auto simp: check_unterminated_def intro: returned waits)
  next
    case (Some f)
    with assms Inr show thesis by (cases "consumed f > MAX_FRAME_BYTES")
        (auto simp: next_frame_def reserve_capture_stamp_def intro: returned frame[of f])
  qed
qed

lemma receive_chunk_cases:
  assumes "receive_chunk now chunk t p = (t', p')" "nl \<notin> set (pt_buf t)"
  defines "t1 \<equiv> t\<lparr>pt_buf := pt_buf t @ chunk, pt_in := pt_in t @ chunk\<rparr>"
  obtains (returned) e where "t' = t1\<lparr>pt_stage := PumpReturned (Inl e)\<rparr>" "p' = p"
  | (waits) "t' = t1\<lparr>pt_stage := AwaitInput\<rparr>" "p' = p" "nl \<notin> set (pt_buf t1)" "length (pt_buf t1) \<le> MAX_FRAME_BYTES"
  | (frame) f where "t' = t1\<lparr>pt_stage := AwaitForward f (pm_seq p) now 0\<rparr>"
      "p' = p\<lparr>pm_seq := wrapping_inc (pm_seq p)\<rparr>" "parse_stdio_frame (pt_buf t1) = Inr (Some f)"
      "consumed f \<le> MAX_FRAME_BYTES"
proof (cases "nl \<in> set chunk")
  case True
  then have "next_frame now t1 p = (t', p')" using assms(1) by (simp add: receive_chunk_def t1_def)
  then show thesis by (cases rule: next_frame_cases) (rule that; assumption)+
next
  case False
  then have "t' = check_unterminated t1" "p' = p" using assms(1) by (simp_all add: receive_chunk_def t1_def)
  then show thesis using that(1,2) False assms(2)
    by (auto simp: check_unterminated_def t1_def split: if_splits)
qed

text \<open>What recording a forwarded frame does to the shared state.\<close>

lemma record_frame_queued:
  "queued_message S p f d seq ts = None \<Longrightarrow>
     pm_dropped (record_frame S p f d seq ts) = wrapping_inc (pm_dropped p)
     \<and> pm_channel (record_frame S p f d seq ts) = pm_channel p"
  "queued_message S p f d seq ts = Some m \<Longrightarrow>
     pm_dropped (record_frame S p f d seq ts) = pm_dropped p
     \<and> stdio_decode_message S (json_bytes f) d seq ts = Inr m
     \<and> (\<exists>b. ch_queue (pm_channel (record_frame S p f d seq ts)) = ch_queue (pm_channel p) @ [Message m b])"
  by (auto simp: queued_message_def record_frame_def try_record_def count_drop_def Let_def
      split: sum.splits option.splits if_splits dest: arg_cong[where f = ch_queue])

lemma record_frame_seq [simp]: "pm_seq (record_frame S p f d seq ts) = pm_seq p"
  by (auto simp: record_frame_def try_record_def count_drop_def Let_def split: sum.splits option.splits)

section \<open>What a pump has read and forwarded\<close>

definition lines_of :: "direction \<Rightarrow> recorder \<Rightarrow> bytes list" where
  "lines_of d s = map fw_line (filter (\<lambda>e. fw_direction e = d) (rc_log s))"

fun stage_ok :: "bytes \<Rightarrow> bytes \<Rightarrow> bytes \<Rightarrow> pump_stage \<Rightarrow> bool" where
  "stage_ok sent buf out AwaitInput \<longleftrightarrow> out = sent \<and> nl \<notin> set buf \<and> length buf \<le> MAX_FRAME_BYTES"
| "stage_ok sent buf out (AwaitForward f seq ts n) \<longleftrightarrow> out = sent @ take n buf
     \<and> parse_stdio_frame buf = Inr (Some f) \<and> n \<le> consumed f \<and> consumed f \<le> MAX_FRAME_BYTES"
| "stage_ok sent buf out (PumpReturned (Inr r)) \<longleftrightarrow> out = sent \<and> nl \<notin> set buf"
| "stage_ok sent buf out (PumpReturned (Inl e)) \<longleftrightarrow> (\<exists>n. out = sent @ take n buf)"

definition task_ok :: "bytes list \<Rightarrow> pump_task \<Rightarrow> bool" where
  "task_ok ls t \<longleftrightarrow> pt_in t = concat ls @ pt_buf t \<and> stage_ok (concat ls) (pt_buf t) (pt_out t) (pt_stage t)"

lemma next_frame_ok:
  assumes "next_frame now t p = (t', p')" "pt_in t = concat ls @ pt_buf t" "pt_out t = concat ls"
  shows "task_ok ls t'"
  using assms(1)
proof (cases rule: next_frame_cases)
  case returned
  then show ?thesis using assms(2,3) by (auto simp: task_ok_def intro!: exI[of _ 0])
qed (use assms(2,3) in \<open>simp_all add: task_ok_def\<close>)

lemma receive_chunk_ok:
  assumes "receive_chunk now chunk t p = (t', p')" "task_ok ls t" "pt_stage t = AwaitInput"
  shows "task_ok ls t'"
proof -
  have t: "pt_in t = concat ls @ pt_buf t" "pt_out t = concat ls" "nl \<notin> set (pt_buf t)"
    using assms(2,3) by (simp_all add: task_ok_def)
  from assms(1) t(3) show ?thesis
  proof (cases rule: receive_chunk_cases)
    case returned
    then show ?thesis using t by (auto simp: task_ok_def intro!: exI[of _ 0])
  qed (use t in \<open>simp_all add: task_ok_def\<close>)
qed

lemma written_ok:
  assumes "frame_forwarded S d now f seq ts t p = (t', p')" "task_ok ls t"
    "pt_stage t = AwaitForward f seq ts' (length (wire_bytes f))"
  shows "task_ok (ls @ [wire_bytes f]) t'"
proof -
  have t: "pt_in t = concat ls @ pt_buf t" "pt_out t = concat ls @ take (length (wire_bytes f)) (pt_buf t)"
    "parse_stdio_frame (pt_buf t) = Inr (Some f)"
    using assms(2,3) by (simp_all add: task_ok_def)
  note f = parse_stdio_frame_Some(1,2)[OF t(3)]
  have "take (length (wire_bytes f)) (pt_buf t) = wire_bytes f"
    using arg_cong[OF f(1), of "take (length (wire_bytes f))"] by simp
  then show ?thesis
    using f(1) t by (intro next_frame_ok[OF assms(1)[unfolded frame_forwarded_def]]) simp_all
qed

lemma lines_of_simps [simp]:
  "lines_of d (set_task e t s) = lines_of d s" "lines_of d (pump_turn e turn s) = lines_of d s"
  "lines_of d (s\<lparr>rc_shared := p\<rparr>) = lines_of d s" "lines_of d (s\<lparr>rc_held := h\<rparr>) = lines_of d s"
  "lines_of d (s\<lparr>rc_phase := ph\<rparr>) = lines_of d s" "lines_of d (s\<lparr>rc_taken := tk\<rparr>) = lines_of d s"
  "lines_of d (s\<lparr>rc_log := rc_log s @ [e']\<rparr>) = lines_of d s @ (if fw_direction e' = d then [fw_line e'] else [])"
  by (cases turn; simp add: lines_of_def)+

lemma task_ok_forward:
  "task_ok ls t \<Longrightarrow> pt_stage t = AwaitForward f seq ts n \<Longrightarrow>
     parse_stdio_frame (pt_buf t) = Inr (Some f) \<and> n \<le> length (wire_bytes f) \<and> consumed f \<le> MAX_FRAME_BYTES"
  using parse_stdio_frame_Some(2)[of "pt_buf t" f] by (auto simp: task_ok_def)

lemma task_ok_out:
  "task_ok ls t \<Longrightarrow> \<exists>n. pt_out t = concat ls @ take n (pt_buf t)"
  "task_ok ls t \<Longrightarrow> pt_stage t \<in> {AwaitInput, PumpReturned (Inr ())} \<Longrightarrow>
     pt_out t = concat ls \<and> nl \<notin> set (pt_buf t)"
proof -
  assume t: "task_ok ls t"
  then show "\<exists>n. pt_out t = concat ls @ take n (pt_buf t)"
    unfolding task_ok_def by (elim conjE stage_ok.elims(2)) (auto intro: exI[of _ 0])
  assume "pt_stage t \<in> {AwaitInput, PumpReturned (Inr ())}"
  with t show "pt_out t = concat ls \<and> nl \<notin> set (pt_buf t)" by (auto simp: task_ok_def)
qed

lemma step_tasks_ok:
  assumes "record_step S s s'" "\<forall>d. task_ok (lines_of d s) (rc_task d s)"
  shows "\<forall>d. task_ok (lines_of d s') (rc_task d s')"
  using assms(1)
proof (cases rule: record_step.cases)
  case (read_chunk d chunk now)
  obtain t' p' where r: "receive_chunk now chunk (rc_task d s) (rc_shared s) = (t', p')" by fastforce
  from receive_chunk_ok[OF r assms(2)[rule_format] read_chunk(3)] show ?thesis
    using assms(2) by (simp add: read_chunk(1) r)
next
  case (read_end d result)
  have "task_ok (lines_of d s) ((rc_task d s)\<lparr>pt_stage := PumpReturned result\<rparr>)"
    using assms(2)[rule_format, of d] read_end(3,4) by (auto simp: task_ok_def intro!: exI[of _ 0])
  then show ?thesis using assms(2) by (simp add: read_end(1))
next
  case (write_some d f seq ts n k)
  have ok: "task_ok (lines_of d s) (rc_task d s)" using assms(2) by simp
  from task_ok_forward[OF ok write_some(3)] have "parse_stdio_frame (pt_buf (rc_task d s)) = Inr (Some f)" by simp
  note f = parse_stdio_frame_Some(1,2)[OF this]
  have "take (n + k) (pt_buf (rc_task d s)) = take (n + k) (wire_bytes f)" "take n (pt_buf (rc_task d s)) = take n (wire_bytes f)"
    using write_some(4) by (subst f(1), simp)+
  then have "task_ok (lines_of d s) ((rc_task d s)\<lparr>pt_stage := AwaitForward f seq ts (n + k),
      pt_out := pt_out (rc_task d s) @ take k (drop n (wire_bytes f))\<rparr>)"
    using ok write_some(3,4) f(2) by (simp add: task_ok_def take_add)
  then show ?thesis using assms(2) by (simp add: write_some(1))
next
  case (write_failed d f seq ts n)
  have "task_ok (lines_of d s) ((rc_task d s)\<lparr>pt_stage := PumpReturned (Inl ''forwarding stopped'')\<rparr>)"
    using assms(2)[rule_format, of d] write_failed(3) by (auto simp: task_ok_def)
  then show ?thesis using assms(2) by (simp add: write_failed(1))
next
  case (written d f seq ts now)
  obtain t' p' where r: "frame_forwarded S d now f seq ts (rc_task d s) (rc_shared s) = (t', p')" by fastforce
  from written_ok[OF r assms(2)[rule_format] written(3)] show ?thesis
    using assms(2) by (simp add: written(1) r)
qed (use assms(2) in simp_all)

lemma reachable_tasks_ok: "record_reachable S s \<Longrightarrow> task_ok (lines_of d s) (rc_task d s)"
proof (induction arbitrary: d rule: record_reachable.induct)
  case start
  then show ?case by (cases d) (simp_all add: recorder_init_def pump_task_new_def task_ok_def lines_of_def)
next
  case (step s s')
  then show ?case using step_tasks_ok by blast
qed

section \<open>What the writer receives\<close>

definition line_message :: "serde \<Rightarrow> bytes \<Rightarrow> mcp_message \<Rightarrow> bool" where
  "line_message S line m \<longleftrightarrow> parse_json S (strip_cr (butlast line)) = Some (m_payload m)
     \<and> m_payload_bytes m = length (strip_cr (butlast line))"

definition entry_ok :: "serde \<Rightarrow> forwarded \<Rightarrow> bool" where
  "entry_ok S e \<longleftrightarrow> length (fw_line e) \<le> MAX_FRAME_BYTES \<and> (\<exists>body. fw_line e = body @ [nl] \<and> nl \<notin> set body)
     \<and> (\<forall>m. fw_message e = Some m \<longrightarrow> m_direction m = fw_direction e \<and> line_message S (fw_line e) m)"

definition queued :: "recorder \<Rightarrow> storage_event list" where
  "queued s = rc_taken s @ ch_queue (pm_channel (rc_shared s))"

fun is_message :: "storage_event \<Rightarrow> bool" where
  "is_message (Message m b) \<longleftrightarrow> True"
| "is_message (Close e n) \<longleftrightarrow> False"

lemma received_append: "list_all is_message es \<Longrightarrow> received (es @ fs) = received es @ received fs"
proof (induction es)
  case (Cons e es)
  then show ?case by (cases e) auto
qed simp

lemma closing_append: "list_all is_message es \<Longrightarrow> closing_of (es @ fs) = closing_of fs"
proof (induction es)
  case (Cons e es)
  then show ?case by (cases e) auto
qed simp

definition losses :: "forwarded list \<Rightarrow> nat" where
  "losses es = length (filter (\<lambda>e. fw_message e = None) es)"

definition log_ok :: "serde \<Rightarrow> recorder \<Rightarrow> bool" where
  "log_ok S s \<longleftrightarrow> list_all is_message (queued s) \<and> received (queued s) = List.map_filter fw_message (rc_log s)
     \<and> pm_dropped (rc_shared s) = wrap_u64 (losses (rc_log s)) \<and> list_all (entry_ok S) (rc_log s)"

lemma next_frame_shared:
  "next_frame now t p = (t', p') \<Longrightarrow> pm_channel p' = pm_channel p \<and> pm_dropped p' = pm_dropped p \<and> pt_buf t' = pt_buf t"
  by (cases rule: next_frame_cases[of now t p t' p']) simp_all

lemma receive_chunk_shared:
  "receive_chunk now chunk t p = (t', p') \<Longrightarrow> pm_channel p' = pm_channel p \<and> pm_dropped p' = pm_dropped p"
  by (auto simp: receive_chunk_def Let_def split: if_splits dest!: next_frame_shared)

lemma map_filter_append [simp]: "List.map_filter f (xs @ ys) = List.map_filter f xs @ List.map_filter f ys"
  by (simp add: List.map_filter_def)

lemma map_filter_single [simp]: "List.map_filter f [x] = (case f x of Some y \<Rightarrow> [y] | None \<Rightarrow> [])"
  by (simp add: List.map_filter_def split: option.splits)

lemma entry_written:
  assumes "task_ok ls t" "pt_stage t = AwaitForward f seq ts n"
  shows "entry_ok S \<lparr>fw_direction = d, fw_line = wire_bytes f, fw_message = queued_message S p f d seq ts\<rparr>"
proof -
  note t = task_ok_forward[OF assms]
  note f = parse_stdio_frame_Some[OF conjunct1[OF t]]
  have "m_direction m = d \<and> line_message S (wire_bytes f) m" if "queued_message S p f d seq ts = Some m" for m
    using record_frame_queued(2)[OF that] f(3) by (auto simp: line_message_def stdio.decode_iff)
  then show ?thesis using t f(2,4) by (simp add: entry_ok_def)
qed

lemma step_log_ok:
  assumes "record_step S s s'" "\<forall>d. task_ok (lines_of d s) (rc_task d s)" "log_ok S s"
  shows "log_ok S s'"
  using assms(1)
proof (cases rule: record_step.cases)
  case (read_chunk d chunk now)
  obtain t' p' where r: "receive_chunk now chunk (rc_task d s) (rc_shared s) = (t', p')" by fastforce
  from receive_chunk_shared[OF r] show ?thesis using assms(3) by (simp add: read_chunk(1) r log_ok_def queued_def)
next
  case (written d f seq ts now)
  let ?p = "record_frame S (rc_shared s) f d seq ts"
  obtain t' p' where r: "frame_forwarded S d now f seq ts (rc_task d s) (rc_shared s) = (t', p')" by fastforce
  have p': "pm_channel p' = pm_channel ?p" "pm_dropped p' = pm_dropped ?p"
    using next_frame_shared[OF r[unfolded frame_forwarded_def]] by simp_all
  have e: "entry_ok S \<lparr>fw_direction = d, fw_line = wire_bytes f, fw_message = queued_message S (rc_shared s) f d seq ts\<rparr>"
    by (rule entry_written[OF assms(2)[rule_format] written(3)])
  show ?thesis
  proof (cases "queued_message S (rc_shared s) f d seq ts")
    case None
    from record_frame_queued(1)[OF None] show ?thesis
      using assms(3) e by (simp add: written(1) r log_ok_def queued_def p' None losses_def wrapping_inc_wrap)
  next
    case (Some m)
    from record_frame_queued(2)[OF Some] obtain b where
      "ch_queue (pm_channel ?p) = ch_queue (pm_channel (rc_shared s)) @ [Message m b]" "pm_dropped ?p = pm_dropped (rc_shared s)"
      by auto
    then show ?thesis
      using assms(3) e received_append[of "queued s" "[Message m b]"]
      by (simp add: written(1) r log_ok_def queued_def p' Some losses_def)
  qed
qed (use assms(3) in \<open>simp_all add: log_ok_def queued_def\<close>)

lemma reachable_log_ok: "record_reachable S s \<Longrightarrow> log_ok S s"
proof (induction rule: record_reachable.induct)
  case start
  then show ?case by (simp add: recorder_init_def log_ok_def queued_def losses_def wrap_u64_def List.map_filter_def)
next
  case (step s s')
  then show ?case using step_log_ok reachable_tasks_ok by blast
qed

section \<open>Stamps\<close>

definition stamps_of :: "direction \<Rightarrow> forwarded list \<Rightarrow> u64 list" where
  "stamps_of d es = map m_seq (List.map_filter fw_message (filter (\<lambda>e. fw_direction e = d) es))"

definition used :: "direction \<Rightarrow> recorder \<Rightarrow> u64 list" where
  "used d s = stamps_of d (rc_log s) @ flight (rc_task d s)"

definition separate :: "nat \<Rightarrow> u64 list \<Rightarrow> u64 list \<Rightarrow> bool" where
  "separate n us vs \<longleftrightarrow> sorted_wrt (<) us \<and> sorted_wrt (<) vs \<and> (\<forall>q \<in> set us \<union> set vs. q < n) \<and> set us \<inter> set vs = {}"

lemma separate_sym: "separate n us vs \<longleftrightarrow> separate n vs us"
  by (auto simp: separate_def)

lemma separate_add: "separate n us vs \<Longrightarrow> separate (Suc n) (us @ [n]) vs"
  by (auto simp: separate_def sorted_wrt_append less_Suc_eq)

lemma separate_drop: "separate n (us @ ws) vs \<Longrightarrow> separate n us vs"
  by (auto simp: separate_def sorted_wrt_append)

text \<open>
  While the counter has not wrapped around: the stamps of a direction rise, the two directions share
  none, and every stamp is below the counter.
\<close>

definition stamps_ok :: "recorder \<Rightarrow> bool" where
  "stamps_ok s \<longleftrightarrow> pm_seq (rc_shared s) = wrap_u64 (rc_stamps s)
     \<and> length (rc_log s) + length (flight (rc_c2s s)) + length (flight (rc_s2c s)) \<le> rc_stamps s
     \<and> (rc_stamps s \<le> u64_max \<longrightarrow> separate (rc_stamps s) (used ClientToServer s) (used ServerToClient s))"

lemma stamps_ok_dir: "stamps_ok s \<longleftrightarrow> pm_seq (rc_shared s) = wrap_u64 (rc_stamps s)
     \<and> length (rc_log s) + length (flight (rc_task d s)) + length (flight (rc_task (opposite d) s)) \<le> rc_stamps s
     \<and> (rc_stamps s \<le> u64_max \<longrightarrow> separate (rc_stamps s) (used d s) (used (opposite d) s))"
  by (cases d) (auto simp: stamps_ok_def separate_sym)

lemma next_frame_flight:
  assumes "next_frame now t p = (t', p')"
  obtains "flight t' = []" "pm_seq p' = pm_seq p" | "flight t' = [pm_seq p]" "pm_seq p' = wrapping_inc (pm_seq p)"
  using assms by (cases rule: next_frame_cases) (use that in simp_all)

lemma receive_chunk_flight:
  assumes "receive_chunk now chunk t p = (t', p')"
  obtains "flight t' = []" "pm_seq p' = pm_seq p" | "flight t' = [pm_seq p]" "pm_seq p' = wrapping_inc (pm_seq p)"
proof (cases "nl \<in> set chunk")
  case True
  with assms have "next_frame now (t\<lparr>pt_buf := pt_buf t @ chunk, pt_in := pt_in t @ chunk\<rparr>) p = (t', p')"
    by (simp add: receive_chunk_def)
  then show thesis by (rule next_frame_flight) (rule that; assumption)+
next
  case False
  with assms show thesis by (intro that(1)) (auto simp: receive_chunk_def check_unterminated_def flight_def)
qed

text \<open>A turn of pump \<open>d\<close> from a state in which it forwards nothing.\<close>

lemma turn_stamps_ok:
  assumes "pm_seq p = wrap_u64 (rc_stamps s)"
    "length (rc_log s) + length (flight (rc_task (opposite d) s)) \<le> rc_stamps s"
    "rc_stamps s \<le> u64_max \<longrightarrow> separate (rc_stamps s) (stamps_of d (rc_log s)) (used (opposite d) s)"
    "flight t' = [] \<and> pm_seq p' = pm_seq p \<or> flight t' = [pm_seq p] \<and> pm_seq p' = wrapping_inc (pm_seq p)"
  shows "stamps_ok (pump_turn d (t', p') s)"
  using assms(4)
proof
  assume t': "flight t' = [] \<and> pm_seq p' = pm_seq p"
  then show ?thesis using assms(1-3) by (simp add: stamps_ok_dir[of _ d] used_def)
next
  assume t': "flight t' = [pm_seq p] \<and> pm_seq p' = wrapping_inc (pm_seq p)"
  have "separate (Suc (rc_stamps s)) (stamps_of d (rc_log s) @ [pm_seq p]) (used (opposite d) s)"
    if "Suc (rc_stamps s) \<le> u64_max"
  proof -
    have "pm_seq p = rc_stamps s" using assms(1) that by (simp add: wrap_u64_def)
    then show ?thesis using assms(3) that by (simp add: separate_add)
  qed
  then show ?thesis using t' assms(1,2) by (simp add: stamps_ok_dir[of _ d] used_def wrapping_inc_wrap)
qed

lemma stamps_of_add: "stamps_of d (es @ [e]) =
    stamps_of d es @ (if fw_direction e = d then case fw_message e of Some m \<Rightarrow> [m_seq m] | None \<Rightarrow> [] else [])"
  by (simp add: stamps_of_def split: option.splits)

lemma used_opposite_log:
  "fw_direction e = d \<Longrightarrow> used (opposite d) (s\<lparr>rc_log := rc_log s @ [e]\<rparr>) = used (opposite d) s"
  by (simp add: used_def stamps_of_add)

text \<open>A pump that stops forwarding.\<close>

lemma idle_stamps_ok:
  assumes "stamps_ok s" "flight t = [] \<or> flight t = flight (rc_task d s)"
  shows "stamps_ok (set_task d t s)"
  using assms by (auto simp: stamps_ok_dir[of _ d] used_def separate_drop)

lemma step_stamps_ok:
  assumes "record_step S s s'" "stamps_ok s"
  shows "stamps_ok s'"
  using assms(1)
proof (cases rule: record_step.cases)
  case (read_chunk d chunk now)
  obtain t' p' where r: "receive_chunk now chunk (rc_task d s) (rc_shared s) = (t', p')" by fastforce
  have "stamps_ok (pump_turn d (t', p') s)"
    using assms(2) read_chunk(3) by (intro turn_stamps_ok) (auto simp: stamps_ok_dir[of _ d] used_def
        intro: receive_chunk_flight[OF r])
  then show ?thesis by (simp add: read_chunk(1) r)
next
  case (read_end d result)
  then show ?thesis using idle_stamps_ok[OF assms(2)] by simp
next
  case (write_some d f seq ts n k)
  then show ?thesis using idle_stamps_ok[OF assms(2), where d = d] by simp
next
  case (write_failed d f seq ts n)
  then show ?thesis using idle_stamps_ok[OF assms(2)] by simp
next
  case (written d f seq ts now)
  let ?p = "record_frame S (rc_shared s) f d seq ts"
  let ?e = "\<lparr>fw_direction = d, fw_line = wire_bytes f, fw_message = queued_message S (rc_shared s) f d seq ts\<rparr>"
  obtain t' p' where r: "frame_forwarded S d now f seq ts (rc_task d s) (rc_shared s) = (t', p')" by fastforce
  have "m_seq m = seq" if "queued_message S (rc_shared s) f d seq ts = Some m" for m
    using record_frame_queued(2)[OF that] by (simp add: stdio.decode_iff)
  then have "stamps_of d (rc_log s @ [?e]) = used d s \<or> stamps_of d (rc_log s @ [?e]) = stamps_of d (rc_log s)"
    using written(3) by (auto simp: stamps_of_add used_def split: option.splits)
  then have sep: "rc_stamps s \<le> u64_max \<longrightarrow> separate (rc_stamps s) (stamps_of d (rc_log s @ [?e])) (used (opposite d) s)"
    using assms(2) separate_drop by (auto simp: stamps_ok_dir[of _ d] used_def)
  have "stamps_ok (pump_turn d (t', p') (s\<lparr>rc_log := rc_log s @ [?e]\<rparr>))"
  proof (rule turn_stamps_ok[where p = ?p])
    show "pm_seq ?p = wrap_u64 (rc_stamps (s\<lparr>rc_log := rc_log s @ [?e]\<rparr>))"
      using assms(2) by (simp add: stamps_ok_def)
    show "length (rc_log (s\<lparr>rc_log := rc_log s @ [?e]\<rparr>)) +
        length (flight (rc_task (opposite d) (s\<lparr>rc_log := rc_log s @ [?e]\<rparr>))) \<le> rc_stamps (s\<lparr>rc_log := rc_log s @ [?e]\<rparr>)"
      using assms(2) written(3) by (simp add: stamps_ok_dir[of _ d])
    show "rc_stamps (s\<lparr>rc_log := rc_log s @ [?e]\<rparr>) \<le> u64_max \<longrightarrow> separate (rc_stamps (s\<lparr>rc_log := rc_log s @ [?e]\<rparr>))
        (stamps_of d (rc_log (s\<lparr>rc_log := rc_log s @ [?e]\<rparr>))) (used (opposite d) (s\<lparr>rc_log := rc_log s @ [?e]\<rparr>))"
      using sep by (simp add: used_opposite_log)
    show "flight t' = [] \<and> pm_seq p' = pm_seq ?p \<or> flight t' = [pm_seq ?p] \<and> pm_seq p' = wrapping_inc (pm_seq ?p)"
      by (rule next_frame_flight[OF r[unfolded frame_forwarded_def]]) simp_all
  qed
  then show ?thesis by (simp add: written(1) r)
qed (use assms(2) in \<open>simp_all add: stamps_ok_def used_def\<close>)

lemma reachable_stamps_ok: "record_reachable S s \<Longrightarrow> stamps_ok s"
proof (induction rule: record_reachable.induct)
  case start
  then show ?case by (simp add: recorder_init_def stamps_ok_def wrap_u64_def used_def stamps_of_def
        pump_task_new_def separate_def List.map_filter_def)
next
  case (step s s')
  then show ?case using step_stamps_ok by blast
qed

end
