(* ===== verification/Health.thy ===== *)
theory Health
  imports Store
begin

text \<open>
  The gate that decides whether a stored session may back a passing diff or assertion
  (\<open>crates/mcptracer-proxy/src/session_health.rs\<close>): the integrity report of the capture, the audit
  of its redaction with the same context tracker the recorder used, and the two predicates built on
  it.
\<close>

section \<open>The report\<close>

definition config_issue :: "string \<Rightarrow> integrity_issue" where
  "config_issue detail =
     \<lparr>is_kind = InvalidRedactionConfiguration, is_seq = None, is_detail = detail\<rparr>"

definition context_loss_issue :: "u64 \<Rightarrow> integrity_issue" where
  "context_loss_issue seq =
     \<lparr>is_kind = DroppedMessages, is_seq = Some seq,
      is_detail = ''bounded redaction context was lost; schema completeness is not established''\<rparr>"

definition unredacted_issue :: "redaction_policy \<Rightarrow> u64 \<Rightarrow> string list \<Rightarrow> integrity_issue" where
  "unredacted_issue policy seq keys =
     \<lparr>is_kind = UnredactedSensitiveValue, is_seq = Some seq,
      is_detail = ''stored '' @ policy_as_str policy
        @ '' policy left sensitive field(s) unmasked: '' @ join '', '' keys\<rparr>"

text \<open>One message: the issues it adds, the tracker, and whether the loss has been reported.\<close>

definition redaction_step ::
  "serde \<Rightarrow> redaction_policy \<Rightarrow> tracker \<Rightarrow> bool \<Rightarrow> stored_message
     \<Rightarrow> integrity_issue list \<times> tracker \<times> bool" where
  "redaction_step S policy t reported message =
     (case parse_json S (msg_payload message) of
        None \<Rightarrow> ([], t, reported)
      | Some payload \<Rightarrow>
          let (ctx, t') = observe S t (msg_seq message) (msg_direction message) payload;
              lost = policy \<noteq> PolicyNone \<and> has_lost_context t' \<and> \<not> reported;
              keys = unredacted_sensitive_keys_with_context payload policy ctx
          in ((if lost then [context_loss_issue (msg_seq message)] else [])
              @ (if keys \<noteq> [] then [unredacted_issue policy (msg_seq message) keys] else []),
              t', reported \<or> lost))"

fun redaction_loop ::
  "serde \<Rightarrow> redaction_policy \<Rightarrow> tracker \<Rightarrow> bool \<Rightarrow> stored_message list \<Rightarrow> integrity_issue list" where
  "redaction_loop S policy t reported [] = []"
| "redaction_loop S policy t reported (message # rest) =
     (let (issues, t', reported') = redaction_step S policy t reported message
      in issues @ redaction_loop S policy t' reported' rest)"

definition redaction_issues ::
  "serde \<Rightarrow> stored_message list \<Rightarrow> string \<Rightarrow> string \<Rightarrow> integrity_issue list" where
  "redaction_issues S messages policy_name custom_keys_json =
     (case parse_string_array S custom_keys_json of
        None \<Rightarrow> [config_issue ''stored custom redaction keys are not a JSON string array'']
      | Some custom_keys \<Rightarrow>
          (case policy_from_storage policy_name custom_keys of
             Inl detail \<Rightarrow> [config_issue detail]
           | Inr policy \<Rightarrow> redaction_loop S policy tracker_default False messages))"

definition assess_capture :: "serde \<Rightarrow> session_summary \<Rightarrow> stored_message list \<Rightarrow> integrity_report" where
  "assess_capture S summary messages =
     (let dropped_messages = nat (max (su_dropped_messages summary) 0)
      in validate_session S messages dropped_messages
         @ redaction_issues S messages (su_redaction_policy summary) (su_redaction_keys_json summary)
         @ (if su_ended_at_ns summary = None
            then [\<lparr>is_kind = SessionNotClosed, is_seq = None,
                   is_detail = ''session was never finalized by the recorder''\<rparr>]
            else []))"

section \<open>The gates\<close>

record session_health =
  sh_session_id :: string
  sh_messages :: "stored_message list"
  sh_report :: integrity_report

definition inspect_session :: "serde \<Rightarrow> store \<Rightarrow> string \<Rightarrow> store_error + session_health" where
  "inspect_session S st session_id_or_prefix =
     (case get_session_summary st session_id_or_prefix of
        Inl e \<Rightarrow> Inl e
      | Inr summary \<Rightarrow>
          (case get_messages st (su_id summary) of
             Inl e \<Rightarrow> Inl e
           | Inr messages \<Rightarrow>
               Inr \<lparr>sh_session_id = su_id summary, sh_messages = messages,
                    sh_report = assess_capture S summary messages\<rparr>))"

definition require_healthy_session ::
  "serde \<Rightarrow> store \<Rightarrow> string \<Rightarrow> string \<Rightarrow> store_error + session_health" where
  "require_healthy_session S st session_id_or_prefix operation =
     (case inspect_session S st session_id_or_prefix of
        Inl e \<Rightarrow> Inl e
      | Inr health \<Rightarrow>
          if \<not> is_healthy (sh_report health)
          then Inl (Failed (''session '' @ sh_session_id health
                 @ '' is unhealthy and cannot be used for '' @ operation @ '': ''
                 @ nat_dec (length (sh_report health)) @ '' integrity issue(s); run `mcptracer validate ''
                 @ sh_session_id health @ ''` for details''))
          else Inr health)"

definition require_complete_capture ::
  "serde \<Rightarrow> store \<Rightarrow> string \<Rightarrow> string \<Rightarrow> store_error + unit" where
  "require_complete_capture S st session_id_or_prefix operation =
     (case inspect_session S st session_id_or_prefix of
        Inl e \<Rightarrow> Inl e
      | Inr health \<Rightarrow>
          let integrity_issues =
                length (filter (\<lambda>issue. is_kind issue \<noteq> UnredactedSensitiveValue) (sh_report health))
          in if integrity_issues > 0
             then Inl (Failed (''session '' @ sh_session_id health
                    @ '' has an incomplete capture and cannot be used for '' @ operation @ '': ''
                    @ nat_dec integrity_issues @ '' integrity issue(s); run `mcptracer validate ''
                    @ sh_session_id health @ ''` for details''))
             else Inr ())"

end
