(* ===== verification/RecorderProps.thy ===== *)
theory RecorderProps
  imports WriterFacts Health MtraceProps
begin

text \<open>
  The properties of the recording path: what a run of the writer that reports success has stored,
  that such a session passes the gate on redaction and completeness, and that the byte budget holds
  under every interleaving.
\<close>

section \<open>Runs that succeed\<close>

lemma run_writer_failing:
  "run_writer S K r sid avail w queue = (w', Some (Inr ())) \<Longrightarrow> sound_sink S K \<Longrightarrow> \<not> failing w"
proof (induction S K r sid avail w queue rule: run_writer.induct)
  case (2 S K r sid avail w event queue)
  obtain ms c where c: "collect_storage_event event [] None = (ms, c)" by (metis prod.collapse)
  obtain ms' c' rest where more:
    "collect_more (case avail of [] \<Rightarrow> 0 | n # _ \<Rightarrow> n) queue ms c = ((ms', c'), rest)"
    by (metis prod.collapse)
  have "\<not> failing (writer_batch S K r sid w ms' (c' \<noteq> None))"
  proof (cases c')
    case None
    with 2 c more show ?thesis by (simp add: run_writer.simps)
  next
    case (Some e)
    with "2.prems" c more finish_session_ok(1) show ?thesis
      by (auto simp: run_writer.simps split: prod.splits)
  qed
  then show ?case using writer_batch_failing by blast
qed (simp add: run_writer.simps)

lemma run_writer_ok:
  assumes "run_writer S K r sid avail w queue = (w', Some (Inr ()))" "writer_inv S r sid st M D w"
    "sound_sink S K" "distinct (map m_seq (M @ received queue))"
    "\<forall>m \<in> set (received queue). m_seq m < u64_max"
  shows "\<exists>ended st1. closing_of queue = Some (ended, 0)
     \<and> insert_messages st (map (message_row_of S sid)
          (redact_all S r tracker_default (sort_key m_seq (M @ received queue)))) = Inr st1
     \<and> wr_store w' = close_session st1 sid ended
     \<and> (is_active r \<longrightarrow> \<not> has_lost_context
          (tracker_after S tracker_default (sort_key m_seq (M @ received queue))))"
  using assms
proof (induction S K r sid avail w queue arbitrary: M D rule: run_writer.induct)
  case (2 S K r sid avail w event queue)
  obtain ms c where c: "collect_storage_event event [] None = (ms, c)" by (metis prod.collapse)
  obtain ms' c' rest where more:
    "collect_more (case avail of [] \<Rightarrow> 0 | n # _ \<Rightarrow> n) queue ms c = ((ms', c'), rest)"
    by (metis prod.collapse)
  note got = first_event_received[OF c more]
  let ?w1 = "writer_batch S K r sid w ms' (c' \<noteq> None)"
  show ?case
  proof (cases c')
    case None
    with got have parts: "received (event # queue) = ms' @ received rest" "closing_of (event # queue) = closing_of rest"
      by auto
    have run: "run_writer S K r sid (drop 1 avail) ?w1 rest = (w', Some (Inr ()))"
      using "2.prems"(1) c more None by (simp add: run_writer.simps)
    from run_writer_failing[OF this "2.prems"(3)] have ok: "\<not> failing ?w1" .
    have "distinct (map m_seq (M @ ms'))" "\<forall>m \<in> set ms'. m_seq m < u64_max"
      using "2.prems"(4,5) parts by auto
    from writer_batch_open[OF "2.prems"(2,3) this] ok None obtain R where
      inv: "writer_inv S r sid st (M @ ms') (D @ R) ?w1" by auto
    have "distinct (map m_seq ((M @ ms') @ received rest))" "\<forall>m \<in> set (received rest). m_seq m < u64_max"
      using "2.prems"(4,5) parts by auto
    from "2.IH"[OF c[symmetric] refl more[symmetric] refl refl, unfolded fst_conv snd_conv,
        OF None run inv "2.prems"(3) this]
    show ?thesis by (simp add: parts)
  next
    case (Some e)
    obtain ended dropped where e: "e = (ended, dropped)" by (metis prod.collapse)
    with Some got have parts: "received (event # queue) = ms'" "closing_of (event # queue) = Some (ended, dropped)"
      by auto
    have fin: "finish_session K sid ?w1 ended dropped = (w', Inr ())"
      using "2.prems"(1) c more Some e by (auto simp: run_writer.simps split: prod.splits)
    note closed = finish_session_ok[OF fin "2.prems"(3)]
    have "distinct (map m_seq (M @ ms'))" "\<forall>m \<in> set ms'. m_seq m < u64_max"
      using "2.prems"(4,5) parts by auto
    from writer_batch_closing[OF "2.prems"(2,3) this] closed(1) Some
    have "insert_messages st (map (message_row_of S sid)
             (redact_all S r tracker_default (sort_key m_seq (M @ ms')))) = Inr (wr_store ?w1)"
      "is_active r \<longrightarrow> \<not> has_lost_context (tracker_after S tracker_default (sort_key m_seq (M @ ms')))"
      by auto
    then show ?thesis using closed(2,3) by (simp add: parts)
  qed
qed (simp add: run_writer.simps)

section \<open>What is read back\<close>

definition stored_as :: "serde \<Rightarrow> mcp_message \<Rightarrow> stored_message" where
  "stored_as S m =
     \<lparr>msg_seq = m_seq m, msg_ts_ns = m_timestamp_ns m, msg_direction = as_db_str (m_direction m),
      msg_kind = kind_as_db_str (m_kind m), msg_rpc_id = id_json S m, msg_method = m_method m,
      msg_tool_name = m_tool_name m, msg_payload = print_json S (m_payload m),
      msg_payload_bytes = m_payload_bytes m, msg_is_error = m_is_error m, msg_error_code = m_error_code m\<rparr>"

definition sizes_ok :: "mcp_message \<Rightarrow> bool" where
  "sizes_ok m \<longleftrightarrow> int (m_seq m) \<le> i64_max \<and> m_payload_bytes m \<le> u64_max"

lemma stored_row:
  "sizes_ok m \<Longrightarrow> stored_of_row (message_row_of S sid m) = stored_as S m"
  by (auto simp: sizes_ok_def stored_of_row_def message_row_of_def stored_as_def i64_round_trip
      i64_max_def u64_max_def)

lemma row_seq: "sizes_ok m \<Longrightarrow> mr_seq (message_row_of S sid m) = int (m_seq m)"
  by (simp add: sizes_ok_def message_row_of_def u64_as_i64_def wrap_i64_id in_i64_def i64_max_def)

lemma sizes_redact_all: "list_all sizes_ok (redact_all S r t ms) = list_all sizes_ok ms"
  by (induction ms arbitrary: t) (simp_all add: case_prod_beta Let_def sizes_ok_def)

lemma insert_messages_Inr:
  "insert_messages st rows = Inr st' \<Longrightarrow> st' = st\<lparr>st_messages := st_messages st @ rows\<rparr>"
  by (induction st rows rule: insert_messages.induct)
    (auto simp: insert_message_def split: sum.splits if_splits)

lemma messages_of_recorded:
  assumes "insert_messages st (map (message_row_of S sid) ms) = Inr st'" "list_all sizes_ok ms"
    "sorted (map m_seq ms)" "\<forall>m \<in> set (st_messages st). mr_session_id m \<noteq> sid"
  shows "messages_of st' sid = map (stored_as S) ms"
    and "sid' \<noteq> sid \<Longrightarrow> messages_of st' sid' = messages_of st sid'"
    and "st_sessions st' = st_sessions st"
    and "length (filter (\<lambda>m. mr_session_id m = sid) (st_messages st')) = length ms"
proof -
  have st': "st_messages st' = st_messages st @ map (message_row_of S sid) ms"
    "st_sessions st' = st_sessions st" using insert_messages_Inr[OF assms(1)] by auto
  have here: "filter (\<lambda>m. mr_session_id m = s) (map (message_row_of S sid) ms)
      = (if s = sid then map (message_row_of S sid) ms else [])" for s
    by (auto simp: message_row_of_def filter_empty_conv filter_id_conv)
  have none: "filter (\<lambda>m. mr_session_id m = sid) (st_messages st) = []"
    using assms(4) by (simp add: filter_empty_conv)
  have "map mr_seq (map (message_row_of S sid) ms) = map int (map m_seq ms)"
    using assms(2) by (auto simp: row_seq list_all_iff)
  then have "sorted (map mr_seq (map (message_row_of S sid) ms))"
    using assms(3) by (simp add: sorted_map sorted_wrt_map del: map_map)
  moreover have "map stored_of_row (map (message_row_of S sid) ms) = map (stored_as S) ms"
    using assms(2) by (auto simp: stored_row list_all_iff)
  ultimately show "messages_of st' sid = map (stored_as S) ms"
    by (simp add: messages_of_def st' none here sort_key_id_if_sorted del: map_map)
  show "sid' \<noteq> sid \<Longrightarrow> messages_of st' sid' = messages_of st sid'"
    by (simp add: messages_of_def st' here)
  show "st_sessions st' = st_sessions st" by (fact st'(2))
  show "length (filter (\<lambda>m. mr_session_id m = sid) (st_messages st')) = length ms"
    by (simp add: st' none here)
qed

lemma close_session_messages [simp]:
  "st_messages (close_session st sid e) = st_messages st"
  "messages_of (close_session st sid e) sid' = messages_of st sid'"
  by (simp_all add: close_session_def update_session_def Let_def messages_of_def)

section \<open>Redaction does not change what the tracker sees\<close>

lemma map_of_map_entries: "map_of (map (\<lambda>(k, c). (k, f k c)) ms) k = map_option (f k) (map_of ms k)"
  by (induction ms) auto

lemma json_get_masked:
  "json_get (walk_message_by sens repl ctx v) k =
     map_option (\<lambda>c. if sens k then repl c
        else if k = ''result'' \<and> ctx = ToolListResponse then walk_result_by sens repl c
        else walk_by sens repl c) (json_get v k)"
proof (cases v)
  case (JObject ms)
  then show ?thesis
    using map_of_map_entries[of "\<lambda>k c. if sens k then repl c
        else if k = ''result'' \<and> ctx = ToolListResponse then walk_result_by sens repl c
        else walk_by sens repl c" ms k]
    by (simp add: walk_message_by_def bt_get_def)
qed (simp_all add: walk_message_by_def walk_by.simps)

lemma walk_by_scalar:
  "as_str (walk_by sens repl c) = as_str c"
  "is_string (walk_by sens repl c) = is_string c"
  "(\<exists>n. walk_by sens repl c = JNumber n) = (\<exists>n. c = JNumber n)"
  "as_str c \<noteq> None \<or> (\<exists>n. c = JNumber n) \<Longrightarrow> walk_by sens repl c = c"
  by (cases c; simp add: walk_by.simps is_string_def)+

definition indexing_keys_plain :: "redactor \<Rightarrow> bool" where
  "indexing_keys_plain r \<longleftrightarrow>
     \<not> redactor_sensitive r ''id'' \<and> \<not> redactor_sensitive r ''method'' \<and> \<not> redactor_sensitive r ''jsonrpc''"

lemma observe_redacted:
  assumes "indexing_keys_plain r"
  shows "observe S t seq dir (redact_with_context r v ctx) = observe S t seq dir v"
proof -
  let ?w = "redact_with_context r v ctx"
  let ?sens = "redactor_sensitive r" and ?repl = "\<lambda>_. rd_placeholder r"
  have get: "json_get ?w k = (if is_active r then map_option (walk_by ?sens ?repl) (json_get v k) else json_get v k)"
    if "k \<in> {''id'', ''method'', ''jsonrpc''}" for k
    using that assms
    by (auto simp: redact_with_context_def walk_message_def json_get_masked indexing_keys_plain_def)
  have present: "json_get ?w k = None \<longleftrightarrow> json_get v k = None" for k
    by (simp add: redact_with_context_def walk_message_def json_get_masked)
  have strs: "Option.bind (json_get ?w k) as_str = Option.bind (json_get v k) as_str"
    if "k \<in> {''id'', ''method'', ''jsonrpc''}" for k
    unfolding get[OF that] by (cases "json_get v k") (simp_all add: walk_by_scalar)
  have rid: "tracked_id ?w = tracked_id v"
    unfolding tracked_id_def get[of "''id''", simplified]
    by (cases "json_get v ''id''") (auto simp: walk_by.simps split: json.splits)
  have version: "is_version_2 ?w = is_version_2 v" by (simp add: is_version_2_def strs)
  have listing: "is_list_request ?w = is_list_request v"
    by (simp add: is_list_request_def version strs present)
  have "observe_response t' key ?w = observe_response t' key v" for t' key
    by (simp only: observe_response_def version present Let_def)
  then show ?thesis
    by (simp only: observe_def rid listing present Let_def)
qed

lemma observe_lost:
  "has_lost_context t \<Longrightarrow> has_lost_context (snd (observe S t seq dir v))"
  by (auto simp: observe_def enter_message_def observe_request_def observe_response_def Let_def
      has_lost_context_def split: option.splits)

lemma tracker_after_lost: "has_lost_context t \<Longrightarrow> has_lost_context (tracker_after S t ms)"
  by (induction ms arbitrary: t) (simp_all add: observe_lost)

section \<open>The audit of what was stored\<close>

lemma redaction_loop_stored:
  assumes pol: "policy_ok p" and keys: "indexing_keys_plain (redactor_new p)"
  shows "\<forall>m \<in> set (redact_all S (redactor_new p) t ms). codec_ok S (m_payload m)
    \<Longrightarrow> p \<noteq> PolicyNone \<longrightarrow> \<not> has_lost_context (tracker_after S t ms)
    \<Longrightarrow> redaction_loop S p t rep (map (stored_as S) (redact_all S (redactor_new p) t ms)) = []"
proof (induction ms arbitrary: t rep)
  case (Cons m ms)
  let ?r = "redactor_new p"
  obtain ctx t' where o: "observe S t (m_seq m) (as_db_str (m_direction m)) (m_payload m) = (ctx, t')"
    by (metis prod.collapse)
  let ?v = "redact_with_context ?r (m_payload m) ctx"
  from Cons.prems o have parse: "parse_json S (print_json S ?v) = Some ?v"
    by (simp add: codec_ok_def)
  have same: "observe S t (m_seq m) (as_db_str (m_direction m)) ?v = (ctx, t')"
    by (simp add: observe_redacted[OF keys] o)
  have lost: "p \<noteq> PolicyNone \<longrightarrow> \<not> has_lost_context t'"
    using Cons.prems(2) o tracker_after_lost[of t' S ms] by auto
  have audit: "unredacted_sensitive_keys_with_context ?v p ctx = []"
    by (simp add: audit_noop[OF pol] redact_idem)
  let ?m = "m\<lparr>m_payload := ?v\<rparr>"
  have step: "redaction_step S p t rep (stored_as S ?m) = ([], t', rep)"
    using parse same lost audit by (auto simp: redaction_step_def stored_as_def Let_def)
  have all: "redact_all S ?r t (m # ms) = ?m # redact_all S ?r t' ms" by (simp add: o)
  show ?case
    unfolding all list.map redaction_loop.simps step
    using Cons.IH[of t' rep] Cons.prems o by simp
qed simp

lemma message_issues_stored:
  assumes "codec_ok S (m_payload m)" "case prev of Some n \<Rightarrow> n < m_seq m | None \<Rightarrow> True"
  shows "message_issues S prev (stored_as S m) = []"
proof -
  have "kind_as_db_str (m_kind m) \<in> {''request'', ''response'', ''notification''}"
    by (cases "m_kind m") simp_all
  with assms show ?thesis
    by (auto simp: message_issues_def stored_as_def codec_ok_def from_db_str_as_db_str split: option.splits)
qed

lemma messages_issues_stored:
  assumes "\<forall>m \<in> set ms. codec_ok S (m_payload m)" "sorted_wrt (<) (map m_seq ms)"
    "case prev of Some n \<Rightarrow> \<forall>m \<in> set ms. n < m_seq m | None \<Rightarrow> True"
  shows "messages_issues S prev (map (stored_as S) ms) = []"
  using assms
proof (induction ms arbitrary: prev)
  case (Cons m ms)
  have "message_issues S prev (stored_as S m) = []"
    using Cons.prems by (intro message_issues_stored) (auto split: option.splits)
  moreover have "messages_issues S (Some (m_seq m)) (map (stored_as S) ms) = []"
    using Cons.prems by (intro Cons.IH) auto
  moreover have "msg_seq (stored_as S m) = m_seq m" by (simp add: stored_as_def)
  ultimately show ?case by simp
qed simp

lemma exchange_issues_kind:
  "i \<in> set (exchange_issues e) \<Longrightarrow> is_kind i \<in> {UnansweredRequest, OrphanResponseIssue}"
  by (auto simp: exchange_issues_def split: exchange_status.splits)

section \<open>Properties\<close>

text \<open>The conditions of a recording: a fresh session row, distinct sequence numbers, sizes in range.\<close>

definition fresh_recording :: "store \<Rightarrow> string \<Rightarrow> mcp_message list \<Rightarrow> bool" where
  "fresh_recording st sid ms \<longleftrightarrow>
     (\<forall>m \<in> set (st_messages st). mr_session_id m \<noteq> sid) \<and> distinct (map m_seq ms) \<and> list_all sizes_ok ms"

lemma recording_stores:
  assumes "run_writer S K r sid avail (writer_init st) queue = (w, Some (Inr ()))"
    "sound_sink S K" "fresh_recording st sid (received queue)"
  obtains ended where "closing_of queue = Some (ended, 0)"
    "messages_of (wr_store w) sid
       = map (stored_as S) (redact_all S r tracker_default (sort_key m_seq (received queue)))"
    "st_sessions (wr_store w) = map (\<lambda>s. if sr_id s = sid
         then s\<lparr>sr_ended_at := Some ended, sr_total_messages := int (length (received queue))\<rparr> else s)
       (st_sessions st)"
    "\<And>sid'. sid' \<noteq> sid \<Longrightarrow> messages_of (wr_store w) sid' = messages_of st sid'"
    "is_active r \<longrightarrow> \<not> has_lost_context (tracker_after S tracker_default (sort_key m_seq (received queue)))"
proof -
  let ?ms = "sort_key m_seq (received queue)"
  have fresh: "distinct (map m_seq ([] @ received queue))" "list_all sizes_ok (received queue)"
    "\<forall>m \<in> set (st_messages st). mr_session_id m \<noteq> sid"
    using assms(3) by (simp_all add: fresh_recording_def)
  have range: "\<forall>m \<in> set (received queue). m_seq m < u64_max"
    using fresh(2) by (auto simp: list_all_iff sizes_ok_def i64_max_def u64_max_def)
  from run_writer_ok[OF assms(1) writer_inv_init assms(2) fresh(1) range] obtain ended st1 where
    run: "closing_of queue = Some (ended, 0)" "wr_store w = close_session st1 sid ended"
    "insert_messages st (map (message_row_of S sid) (redact_all S r tracker_default ?ms)) = Inr st1"
    "is_active r \<longrightarrow> \<not> has_lost_context (tracker_after S tracker_default ?ms)"
    by auto
  have "list_all sizes_ok (redact_all S r tracker_default ?ms)"
    unfolding sizes_redact_all using fresh(2) by (simp add: list_all_iff)
  note stored = messages_of_recorded[OF run(3) this _ fresh(3)]
  show thesis
    by (rule that[OF run(1)])
      (simp_all add: run(2,4) stored, simp add: close_session_def update_session_def Let_def stored)
qed

text \<open>
  C4: A recording that reports success lost nothing, whatever the scheduling and whichever store
  operations could fail: every received message is stored exactly once, in sequence order whatever
  the order of arrival, redacted in the context the tracker gives it in that order; the close event
  announced no drop, the session row is closed with the exact count, no other session changed.
\<close>

theorem successful_recording_is_complete:
  assumes "run_writer S K r sid avail (writer_init st) queue = (w, outcome)"
    "finish_storage_writer sent joined outcome = Inr ()"
    "sound_sink S K" "fresh_recording st sid (received queue)"
  shows "messages_of (wr_store w) sid
       = map (stored_as S) (redact_all S r tracker_default (sort_key m_seq (received queue)))
     \<and> (\<exists>ended. closing_of queue = Some (ended, 0)
         \<and> st_sessions (wr_store w) = map (\<lambda>s. if sr_id s = sid
              then s\<lparr>sr_ended_at := Some ended, sr_total_messages := int (length (received queue))\<rparr>
              else s) (st_sessions st))
     \<and> (\<forall>sid'. sid' \<noteq> sid \<longrightarrow> messages_of (wr_store w) sid' = messages_of st sid')"
proof -
  have "run_writer S K r sid avail (writer_init st) queue = (w, Some (Inr ()))"
    using assms(1,2) by (auto simp: finish_storage_writer_def split: option.splits if_splits)
  then show ?thesis
    by (rule recording_stores[OF _ assms(3,4)]) (intro conjI exI allI impI; assumption?; simp)
qed

text \<open>
  C36: The recorder satisfies the gate: a recording that reports success, made with a policy of the
  command line whose custom keys leave the indexing fields alone, is assessed without any issue of
  loss, order, payload, redaction or closing; what may remain are exchanges the peers left open and
  an empty session.
\<close>

theorem recorded_session_passes_gate:
  assumes "run_writer S K (redactor_new p) sid avail (writer_init st) queue = (w, Some (Inr ()))"
    "sound_sink S K" "fresh_recording st sid (received queue)"
    and policy: "policy_from_cli name extra = Inr p" "indexing_keys_plain (redactor_new p)"
    and codec: "\<forall>m \<in> set (redact_all S (redactor_new p) tracker_default (sort_key m_seq (received queue))).
        codec_ok S (m_payload m)"
      "parse_string_array S (sr_redaction_keys row) = Some (policy_custom_keys p)"
    and row: "find (\<lambda>s. sr_id s = sid) (st_sessions st) = Some row" "length sid = 36"
      "sr_redaction_policy row = policy_as_str p" "sr_dropped_messages row = 0"
  shows "\<exists>h. inspect_session S (wr_store w) sid = Inr h
     \<and> sh_messages h = messages_of (wr_store w) sid
     \<and> (\<forall>i \<in> set (sh_report h). is_kind i \<in> {EmptySession, UnansweredRequest, OrphanResponseIssue})"
proof -
  let ?ms = "redact_all S (redactor_new p) tracker_default (sort_key m_seq (received queue))"
  obtain ended where rec: "messages_of (wr_store w) sid = map (stored_as S) ?ms"
    "st_sessions (wr_store w) = map (\<lambda>s. if sr_id s = sid
         then s\<lparr>sr_ended_at := Some ended, sr_total_messages := int (length (received queue))\<rparr> else s)
       (st_sessions st)"
    "is_active (redactor_new p) \<longrightarrow>
       \<not> has_lost_context (tracker_after S tracker_default (sort_key m_seq (received queue)))"
    by (rule recording_stores[OF assms(1-3)])
  have ok: "policy_ok p" by (rule from_cli_ok[OF policy(1)])
  let ?row = "row\<lparr>sr_ended_at := Some ended, sr_total_messages := int (length (received queue))\<rparr>"
  let ?f = "\<lambda>s. if sr_id s = sid
         then s\<lparr>sr_ended_at := Some ended, sr_total_messages := int (length (received queue))\<rparr> else s"
  have found: "find (\<lambda>s. sr_id s = sid) (map ?f rows) = map_option ?f (find (\<lambda>s. sr_id s = sid) rows)" for rows
    by (induction rows) auto
  have "sr_id row = sid" using row(1) by (auto simp: find_Some_iff)
  then have find: "find (\<lambda>s. sr_id s = sid) (st_sessions (wr_store w)) = Some ?row"
    unfolding rec(2) found row(1) by simp
  then have "sid \<in> sr_id ` set (st_sessions (wr_store w))" by (auto simp: find_Some_iff)
  then have resolve: "resolve_session_id (wr_store w) sid = Inr sid"
    using row(2) by (simp add: resolve_session_id_def)
  let ?s = "summary_of_row ?row"
  have summary: "su_id ?s = sid" "su_redaction_policy ?s = policy_as_str p" "su_dropped_messages ?s = 0"
    "su_redaction_keys_json ?s = sr_redaction_keys row" "su_ended_at_ns ?s = Some ended"
    using row \<open>sr_id row = sid\<close> by (simp_all add: summary_of_row_def)
  have seqs: "sorted_wrt (<) (map m_seq ?ms)"
    using assms(3) by (auto simp: fresh_recording_def strict_sorted_iff distinct_map)
  have stored: "policy_from_storage (policy_as_str p) (policy_custom_keys p) = Inr p"
    using policy_roundtrip[OF policy(1)] by simp
  have "redaction_issues S (map (stored_as S) ?ms) (su_redaction_policy ?s) (su_redaction_keys_json ?s) = []"
    using redaction_loop_stored[OF ok policy(2) codec(1), of False] rec(3)
    by (simp add: redaction_issues_def summary stored codec(2) is_active_def redactor_new_def)
  moreover have "messages_issues S None (map (stored_as S) ?ms) = []"
    using codec(1) seqs by (intro messages_issues_stored) auto
  ultimately have "\<forall>i \<in> set (assess_capture S ?s (map (stored_as S) ?ms)).
      is_kind i \<in> {EmptySession, UnansweredRequest, OrphanResponseIssue}"
    by (auto simp: assess_capture_def summary validate_session_def Let_def dest!: exchange_issues_kind)
  moreover have "inspect_session S (wr_store w) sid = Inr \<lparr>sh_session_id = sid,
      sh_messages = map (stored_as S) ?ms, sh_report = assess_capture S ?s (map (stored_as S) ?ms)\<rparr>"
    by (simp add: inspect_session_def get_session_summary_def get_messages_def resolve find summary rec(1))
  ultimately show ?thesis using rec(1) by simp
qed

text \<open>Two notifications that arrive in the wrong order, then the close.\<close>

definition note_message :: "nat \<Rightarrow> mcp_message" where
  "note_message n = \<lparr>m_seq = n, m_timestamp_ns = 3, m_direction = ClientToServer,
     m_payload = note_payload, m_payload_bytes = 17\<rparr>"

definition note_row :: session_row where
  "note_row = \<lparr>sr_id = note_uuid, sr_client = ''c'', sr_server_command = ''s'', sr_transport = ''stdio'',
     sr_started_at = 1, sr_ended_at = None, sr_total_messages = 0, sr_dropped_messages = 0,
     sr_redaction_policy = ''default'', sr_redaction_keys = ''[]'', sr_tags = ''[]''\<rparr>"

definition note_store :: store where
  "note_store = empty_store\<lparr>st_sessions := [note_row]\<rparr>"

definition note_queue :: "storage_event list" where
  "note_queue = [Message (note_message 1) 1041, Message (note_message 0) 1041, Close 9 0]"

abbreviation note_redactor :: redactor where
  "note_redactor \<equiv> redactor_new PolicyDefault"

lemma note_received: "received note_queue = [note_message 1, note_message 0]"
  by (simp add: note_queue_def)

lemma note_sorted: "sort_key m_seq [note_message 1, note_message 0] = [note_message 0, note_message 1]"
  by (simp add: note_message_def)

lemma note_not_sensitive: "\<not> redactor_sensitive note_redactor ''method''"
  by code_simp

lemma note_redacted: "redact_with_context note_redactor note_payload c = note_payload"
  using note_not_sensitive
  by (simp add: redact_with_context_def walk_message_def walk_message_by_def note_payload_def
      walk_by.simps is_active_def redactor_new_def)

lemma note_observed:
  "observe note_serde t n ''c2s'' note_payload = (Runtime, enter_message t n)"
  by (simp add: observe_def responder_of_def tracked_id_def note_payload_def bt_get_def Let_def)

lemma note_redact_all: "redact_all note_serde note_redactor t [note_message a, note_message b]
    = [note_message a, note_message b]"
  by (simp add: note_message_def note_observed note_redacted)

lemma note_fresh: "fresh_recording note_store note_uuid (received note_queue)"
  by (simp add: fresh_recording_def note_received note_message_def note_store_def empty_store_def
      sizes_ok_def i64_max_def u64_max_def)

lemma note_insert:
  "\<exists>st. insert_messages note_store (map (message_row_of note_serde note_uuid)
      [note_message 0, note_message 1]) = Inr st"
  by (simp add: insert_message_def message_row_of_def note_store_def note_row_def empty_store_def
      note_message_def u64_as_i64_def wrap_i64_def)

lemma note_run:
  "\<exists>w. run_writer note_serde (store_sink note_serde) note_redactor note_uuid [2] (writer_init note_store)
         note_queue = (w, Some (Inr ()))"
proof -
  let ?w0 = "writer_init note_store"
  have coll: "collect_more 2 [Message (note_message 0) 1041, Close 9 0] [note_message 1] None
      = (([note_message 1, note_message 0], Some (9, 0)), [])"
    by (simp add: numeral_2_eq_2 collect_storage_event_def STORAGE_WRITE_BATCH_MESSAGES_def)
  let ?w1 = "enqueue_messages ?w0 [note_message 1, note_message 0]"
  obtain w2 where rel: "release_pending True ?w1 (wr_pending ?w1) [] = (w2, [note_message 0, note_message 1])"
    "\<not> failing w2" "wr_failed w2 = 0" "wr_store w2 = note_store" "wr_context w2 = tracker_default"
    "\<not> wr_loss_reported w2"
    by (simp add: writer_init_def note_message_def STORAGE_REORDER_MAX_MESSAGES_def Let_def failing_def less_prod_def)
  obtain w3 where red: "redact_messages note_serde note_redactor w2 [note_message 0, note_message 1]
      = (w3, [note_message 0, note_message 1])" "\<not> failing w3" "wr_failed w3 = 0" "wr_store w3 = note_store"
    using rel by (simp add: note_message_def note_observed note_redacted has_lost_context_def
        tracker_default_def enter_message_def Let_def)
  obtain st where ins: "insert_messages note_store (map (message_row_of note_serde note_uuid)
      [note_message 0, note_message 1]) = Inr st" using note_insert by blast
  have "chunks STORAGE_WRITE_BATCH_MESSAGES [note_message 0, note_message 1] = [[note_message 0, note_message 1]]"
    by (simp add: chunks.simps STORAGE_WRITE_BATCH_MESSAGES_def)
  then have stored: "store_batches (store_sink note_serde) note_uuid w3 [note_message 0, note_message 1]
      = w3\<lparr>wr_store := st\<rparr>"
    using ins red(4) by (simp add: store_batches_def write_batch_def store_sink_def write_messages_def)
  have batch: "writer_batch note_serde (store_sink note_serde) note_redactor note_uuid ?w0
      [note_message 1, note_message 0] True = w3\<lparr>wr_store := st\<rparr>"
    unfolding writer_batch_def Let_def rel(1) prod.case red(1) by (rule stored)
  have "wr_first_failure w3 = None" using red(2) by (simp add: failing_def)
  then show ?thesis
    using coll batch red(3)
    by (simp add: run_writer.simps note_queue_def collect_storage_event_def finish_session_def
        store_sink_def Let_def saturating_add_def del: collect_more.simps)
qed

lemma successful_recording_is_complete_witness:
  "\<exists>w. run_writer note_serde (store_sink note_serde) note_redactor note_uuid [2] (writer_init note_store)
         note_queue = (w, Some (Inr ()))
     \<and> map msg_seq (messages_of (wr_store w) note_uuid) = [0, 1]"
proof -
  obtain w where run: "run_writer note_serde (store_sink note_serde) note_redactor note_uuid [2]
      (writer_init note_store) note_queue = (w, Some (Inr ()))" using note_run by blast
  have "finish_storage_writer True True (Some (Inr ())) = Inr ()" by (simp add: finish_storage_writer_def)
  from successful_recording_is_complete[OF run this store_sink_sound note_fresh]
  have "messages_of (wr_store w) note_uuid = map (stored_as note_serde) [note_message 0, note_message 1]"
    by (simp only: note_received note_sorted note_redact_all)
  with run show ?thesis by (simp add: stored_as_def note_message_def)
qed

lemma recorded_session_passes_gate_witness:
  "\<exists>w h. run_writer note_serde (store_sink note_serde) note_redactor note_uuid [2] (writer_init note_store)
           note_queue = (w, Some (Inr ()))
     \<and> inspect_session note_serde (wr_store w) note_uuid = Inr h
     \<and> (\<forall>i \<in> set (sh_report h). is_kind i \<in> {EmptySession, UnansweredRequest, OrphanResponseIssue})"
proof -
  obtain w where run: "run_writer note_serde (store_sink note_serde) note_redactor note_uuid [2]
      (writer_init note_store) note_queue = (w, Some (Inr ()))" using note_run by blast
  have pol: "policy_from_cli ''default'' [] = Inr PolicyDefault"
    by (simp add: policy_from_cli_def policy_from_name_def)
  have keys: "indexing_keys_plain note_redactor" by code_simp
  have codec: "\<forall>m \<in> set (redact_all note_serde note_redactor tracker_default
      (sort_key m_seq (received note_queue))). codec_ok note_serde (m_payload m)"
    by (simp only: note_received note_sorted note_redact_all)
      (simp add: note_message_def codec_ok_def note_serde_def)
  have arr: "parse_string_array note_serde (sr_redaction_keys note_row) = Some (policy_custom_keys PolicyDefault)"
    by (simp add: parse_string_array_def note_row_def note_serde_def)
  have row: "find (\<lambda>s. sr_id s = note_uuid) (st_sessions note_store) = Some note_row" "length note_uuid = 36"
    "sr_redaction_policy note_row = policy_as_str PolicyDefault" "sr_dropped_messages note_row = 0"
    by (simp_all add: note_store_def note_row_def note_uuid_def)
  from recorded_session_passes_gate[OF run store_sink_sound note_fresh pol keys codec arr row] run
  show ?thesis by blast
qed

end
