(* ===== verification/RecordProps.thy ===== *)
theory RecordProps
  imports RecordFacts RecorderProps
begin

text \<open>
  What the \<open>record\<close> command promises as a whole, from its arguments to the stored session, and the one
  frame that an interrupted recording may have forwarded without a trace.
\<close>

section \<open>Starting\<close>

lemma record_start_store:
  assumes "record_start S spawned (Inr st0) uuid now client policy_name redact_keys server_args = Inr (sid, st, r)"
    "store_ok st0"
  shows "sid = uuid" "st_messages st = st_messages st0" "\<forall>m \<in> set (st_messages st). mr_session_id m \<noteq> sid"
    "\<exists>policy. policy_from_cli policy_name redact_keys = Inr policy \<and> r = redactor_new policy"
proof -
  have "sid = uuid \<and> st_messages st = st_messages st0 \<and> uuid \<notin> sr_id ` set (st_sessions st0)
      \<and> (\<exists>policy. policy_from_cli policy_name redact_keys = Inr policy \<and> r = redactor_new policy)"
    using assms(1)
    by (auto simp: record_start_def create_session_def set_redaction_policy_def update_session_def Let_def
        split: if_splits sum.splits)
  with assms(2) show "sid = uuid" "st_messages st = st_messages st0" "\<forall>m \<in> set (st_messages st). mr_session_id m \<noteq> sid"
    "\<exists>policy. policy_from_cli policy_name redact_keys = Inr policy \<and> r = redactor_new policy"
    by (auto simp: store_ok_def foreign_keys_def)
qed

section \<open>What a run has queued\<close>

lemma run_received:
  assumes "record_reachable S s" "pm_dropped (rc_shared s) = 0" "rc_stamps s \<le> u64_max"
  shows "received (writer_events s ended) = map (the \<circ> fw_message) (rc_log s)"
    and "\<forall>e \<in> set (rc_log s). \<exists>m. fw_message e = Some m"
proof -
  note inv = reachable_log_ok[OF assms(1)] reachable_stamps_ok[OF assms(1)]
  have "losses (rc_log s) \<le> length (rc_log s)" by (simp add: losses_def)
  also have "\<dots> \<le> u64_max" using inv(2) assms(3) by (simp add: stamps_ok_def)
  finally have "losses (rc_log s) = 0" using inv(1) assms(2) by (simp add: log_ok_def wrap_u64_def)
  then show kept: "\<forall>e \<in> set (rc_log s). \<exists>m. fw_message e = Some m"
    by (auto simp: losses_def filter_empty_conv)
  have "received (writer_events s ended) = received (queued s)"
    using inv(1) received_append[of "queued s" "[Close ended (pm_dropped (rc_shared s))]"]
    by (simp add: log_ok_def writer_events_def queued_def)
  also have "\<dots> = List.map_filter fw_message (rc_log s)" using inv(1) by (simp add: log_ok_def)
  also have "\<dots> = map (the \<circ> fw_message) (rc_log s)"
    using kept by (induction "rc_log s") (auto simp: List.map_filter_def)
  finally show "received (writer_events s ended) = map (the \<circ> fw_message) (rc_log s)" .
qed

lemma run_closing:
  "record_reachable S s \<Longrightarrow> closing_of (writer_events s ended) = Some (ended, pm_dropped (rc_shared s))"
  using closing_append[of "queued s" "[Close ended (pm_dropped (rc_shared s))]"] reachable_log_ok[of S s]
  by (simp add: log_ok_def writer_events_def queued_def)

text \<open>The stamps of all recorded messages are distinct, and those of a direction rise.\<close>

lemma stamps_of_Cons: "stamps_of d (e # es) =
    (if fw_direction e = d then case fw_message e of Some m \<Rightarrow> [m_seq m] | None \<Rightarrow> [] else []) @ stamps_of d es"
  by (simp add: stamps_of_def List.map_filter_def split: option.splits)

lemma all_stamps: "set (map m_seq (List.map_filter fw_message es)) =
    set (stamps_of ClientToServer es) \<union> set (stamps_of ServerToClient es)"
proof (induction es)
  case (Cons e es)
  then show ?case by (cases "fw_direction e") (auto simp: stamps_of_Cons List.map_filter_def split: option.splits)
qed (simp add: stamps_of_def List.map_filter_def)

lemma stamps_distinct:
  assumes "separate n (stamps_of ClientToServer es) (stamps_of ServerToClient es)"
  shows "distinct (map m_seq (List.map_filter fw_message es))"
  using assms
proof (induction es)
  case (Cons e es)
  have rest: "separate n (stamps_of ClientToServer es) (stamps_of ServerToClient es)"
    using Cons.prems by (cases "fw_direction e"; cases "fw_message e") (auto simp: separate_def stamps_of_Cons)
  show ?case
  proof (cases "fw_message e")
    case None
    then show ?thesis using Cons.IH[OF rest] by (simp add: List.map_filter_def)
  next
    case (Some m)
    then have "m_seq m \<notin> set (stamps_of ClientToServer es) \<union> set (stamps_of ServerToClient es)"
      using Cons.prems by (cases "fw_direction e") (auto simp: separate_def stamps_of_Cons)
    then have "m_seq m \<notin> set (map m_seq (List.map_filter fw_message es))" unfolding all_stamps .
    then show ?thesis using Cons.IH[OF rest] Some by (simp add: List.map_filter_def)
  qed
qed (simp add: List.map_filter_def)

lemma kept_map_filter:
  "\<forall>e \<in> set es. \<exists>m. fw_message e = Some m \<Longrightarrow> List.map_filter fw_message es = map (the \<circ> fw_message) es"
  by (induction es) (auto simp: List.map_filter_def)

lemma direction_messages:
  assumes "list_all (entry_ok S) es" "\<forall>e \<in> set es. \<exists>m. fw_message e = Some m"
  shows "filter (\<lambda>m. m_direction m = d) (map (the \<circ> fw_message) es)
       = map (the \<circ> fw_message) (filter (\<lambda>e. fw_direction e = d) es)"
    and "list_all2 (line_message S) (map fw_line (filter (\<lambda>e. fw_direction e = d) es))
       (map (the \<circ> fw_message) (filter (\<lambda>e. fw_direction e = d) es))"
  using assms by (induction es) (auto simp: entry_ok_def)

lemma line_message_size: "line_message S line m \<Longrightarrow> m_payload_bytes m \<le> length line"
proof -
  have "length (strip_cr xs) \<le> length xs" for xs by (auto simp: strip_cr_def)
  then show "line_message S line m \<Longrightarrow> m_payload_bytes m \<le> length line"
    unfolding line_message_def by (metis diff_le_self le_trans length_butlast)
qed

text \<open>The messages of a run without loss, in the order of their stamps.\<close>

lemma run_messages:
  assumes "record_reachable S s" "pm_dropped (rc_shared s) = 0" "int (rc_stamps s) \<le> i64_max"
    and ms_def: "ms = received (writer_events s ended)"
  shows "distinct (map m_seq ms)" "list_all sizes_ok ms"
    "list_all2 (line_message S) (lines_of d s) (filter (\<lambda>m. m_direction m = d) (sort_key m_seq ms))"
proof -
  let ?log = "rc_log s"
  have stamps: "rc_stamps s \<le> u64_max" using assms(3) by (simp add: i64_max_def u64_max_def)
  note got = run_received(1)[OF assms(1,2) stamps, of ended, folded ms_def] run_received(2)[OF assms(1,2) stamps]
  have log: "list_all (entry_ok S) ?log" using reachable_log_ok[OF assms(1)] by (simp add: log_ok_def)
  note filt = direction_messages[OF log got(2)]
  have ms: "ms = List.map_filter fw_message ?log" using got by (simp add: kept_map_filter)
  have "separate (rc_stamps s) (used ClientToServer s) (used ServerToClient s)"
    using reachable_stamps_ok[OF assms(1)] stamps by (simp add: stamps_ok_def)
  then have sep: "separate (rc_stamps s) (stamps_of ClientToServer ?log) (stamps_of ServerToClient ?log)"
    unfolding used_def by (metis separate_drop separate_sym)
  show "distinct (map m_seq ms)" using stamps_distinct[OF sep] by (simp add: ms)
  have below: "m_seq m < rc_stamps s" if "m \<in> set ms" for m
  proof -
    have "m_seq m \<in> set (map m_seq (List.map_filter fw_message ?log))" using that by (simp add: ms)
    then show ?thesis using sep by (auto simp only: all_stamps separate_def)
  qed
  show "list_all sizes_ok ms" unfolding list_all_iff
  proof
    fix m assume m: "m \<in> set ms"
    then obtain e where e: "e \<in> set ?log" "fw_message e = Some m" using got by fastforce
    then have "line_message S (fw_line e) m" "length (fw_line e) \<le> MAX_FRAME_BYTES"
      using log by (auto simp: list_all_iff entry_ok_def)
    then have "m_payload_bytes m \<le> MAX_FRAME_BYTES" using line_message_size le_trans by blast
    then show "sizes_ok m" using below[OF m] assms(3) by (simp add: sizes_ok_def MAX_FRAME_BYTES_def u64_max_def)
  qed
  have "sorted_wrt (<) (stamps_of d ?log)" using sep by (cases d) (simp_all add: separate_def)
  moreover have "stamps_of d ?log = map m_seq (filter (\<lambda>m. m_direction m = d) ms)"
    using got(2) by (simp add: stamps_of_def kept_map_filter filt(1) got(1))
  ultimately have "sorted (map m_seq (filter (\<lambda>m. m_direction m = d) ms))"
    by (simp add: strict_sorted_iff)
  then show "list_all2 (line_message S) (lines_of d s) (filter (\<lambda>m. m_direction m = d) (sort_key m_seq ms))"
    using filt by (simp add: filter_sort sort_key_id_if_sorted got(1) lines_of_def)
qed

lemma run_writer_closing:
  "run_writer S K r sid avail w queue = (w', Some (Inr ())) \<Longrightarrow> sound_sink S K \<Longrightarrow> \<exists>ended. closing_of queue = Some (ended, 0)"
proof (induction S K r sid avail w queue rule: run_writer.induct)
  case (2 S K r sid avail w event queue)
  obtain ms c where c: "collect_storage_event event [] None = (ms, c)" by (metis prod.collapse)
  obtain ms' c' rest where more:
    "collect_more (case avail of [] \<Rightarrow> 0 | n # _ \<Rightarrow> n) queue ms c = ((ms', c'), rest)"
    by (metis prod.collapse)
  note got = first_event_received[OF c more]
  show ?case
  proof (cases c')
    case None
    then have "run_writer S K r sid (drop 1 avail) (writer_batch S K r sid w ms' (c' \<noteq> None)) rest = (w', Some (Inr ()))"
      using "2.prems"(1) c more by (simp add: run_writer.simps)
    from "2.IH"[OF c[symmetric] refl more[symmetric] refl refl, unfolded fst_conv snd_conv, OF None this "2.prems"(2)]
    show ?thesis using got None by simp
  next
    case (Some e)
    obtain ended dropped where e: "e = (ended, dropped)" by (metis prod.collapse)
    have "finish_session K sid (writer_batch S K r sid w ms' (c' \<noteq> None)) ended dropped = (w', Inr ())"
      using "2.prems"(1) c more Some e by (auto simp: run_writer.simps split: prod.splits)
    from finish_session_ok(2)[OF this "2.prems"(2)] show ?thesis using got Some e by auto
  qed
qed (simp add: run_writer.simps)

section \<open>The command\<close>

text \<open>
  C1: A \<open>record\<close> command that reports success, from any store, under any interleaving of the pumps, the
  writer and the stop requests, any chunking of the input and any partial write, has stored exactly the
  lines its pumps finished: what each side sent (what its pump read) is a sequence of finished lines,
  each given to the other side unchanged and in order, and a rest that was read but not finished; the
  stored session is the redaction, in the order of the stamps, of one message per finished line, the
  messages of a direction being the finished lines of that direction in order; no other session
  changed.  When a pump was waiting for input or had ended well, its rest holds no complete line and
  nothing of it went to the other side.  The exception is a pump abandoned in the middle of a line, by
  a stop request, the end of the server's output or the end of the drain: its rest may hold complete
  lines, and a beginning of the rest, even a whole line, may have reached the other side without being
  stored or counted (\<open>interrupted_frame_untraced\<close> shows such a run).
\<close>

theorem record_command_complete:
  assumes start: "record_start S spawned (Inr st0) uuid now client policy_name redact_keys server_args = Inr (sid, st, r)"
      "store_ok st0"
    and run: "record_reachable S s" "rc_phase s = Over outcome stopped" "int (rc_stamps s) \<le> i64_max"
    and writer: "run_writer S K r sid avail (writer_init st) (writer_events s ended) = (w, thread)" "sound_sink S K"
    and result: "record_result outcome stopped asked (finish_storage_writer sent joined thread) process = Inr ()"
  shows "\<exists>ls ms. messages_of (wr_store w) sid = map (stored_as S) (redact_all S r tracker_default ms)
     \<and> sorted_wrt (<) (map m_seq ms)
     \<and> (\<forall>d. let t = rc_task d s in
            pt_in t = concat (ls d) @ pt_buf t
          \<and> list_all2 (line_message S) (ls d) (filter (\<lambda>m. m_direction m = d) ms)
          \<and> (\<exists>n. pt_out t = concat (ls d) @ take n (pt_buf t))
          \<and> (pt_stage t \<in> {AwaitInput, PumpReturned (Inr ())} \<longrightarrow> pt_out t = concat (ls d) \<and> nl \<notin> set (pt_buf t)))
     \<and> (\<forall>sid'. sid' \<noteq> sid \<longrightarrow> messages_of (wr_store w) sid' = messages_of st0 sid')"
proof -
  let ?ms = "received (writer_events s ended)"
  have thread: "run_writer S K r sid avail (writer_init st) (writer_events s ended) = (w, Some (Inr ()))"
    using writer(1) result by (auto simp: record_result_def finish_storage_writer_def split: sum.splits option.splits if_splits)
  note store = record_start_store[OF start]
  have dropped: "pm_dropped (rc_shared s) = 0"
  proof -
    from run_writer_closing[OF thread writer(2)] show ?thesis using run_closing[OF run(1), of ended] by auto
  qed
  note got = run_messages[OF run(1) dropped run(3) refl, where ended = ended]
  have fresh: "fresh_recording st sid ?ms" using store(3) got(1,2) by (simp add: fresh_recording_def)
  from recording_stores[OF thread writer(2) fresh] obtain end_time where
    rec: "messages_of (wr_store w) sid = map (stored_as S) (redact_all S r tracker_default (sort_key m_seq ?ms))"
    "\<And>sid'. sid' \<noteq> sid \<Longrightarrow> messages_of (wr_store w) sid' = messages_of st sid'" by blast
  have other: "messages_of st sid' = messages_of st0 sid'" for sid' by (simp add: messages_of_def store(2))
  have "sorted_wrt (<) (map m_seq (sort_key m_seq ?ms))"
    using got(1) by (simp add: strict_sorted_iff distinct_map)
  moreover note ok = reachable_tasks_ok[OF run(1)]
  have "pt_in (rc_task d s) = concat (lines_of d s) @ pt_buf (rc_task d s)" for d
    using ok[of d] by (simp add: task_ok_def)
  ultimately show ?thesis
    unfolding Let_def using rec got(3) other task_ok_out[OF ok]
    by (intro exI[of _ "\<lambda>d. lines_of d s"] exI[of _ "sort_key m_seq ?ms"] conjI allI impI) (simp_all only: not_False_eq_True)
qed

text \<open>One line from the client, then the server closes its output.\<close>

abbreviation line_in :: bytes where "line_in \<equiv> [CHR ''n'', nl]"

definition line_frame :: stdio_frame where
  "line_frame = \<lparr>json_bytes = ''n'', wire_bytes = line_in, consumed = 2\<rparr>"

definition line_recorded :: mcp_message where
  "line_recorded = \<lparr>m_seq = 0, m_timestamp_ns = 3, m_direction = ClientToServer, m_payload = note_payload,
     m_payload_bytes = 1\<rparr>"

definition line_awaited :: "nat \<Rightarrow> recorder" where
  "line_awaited n = recorder_init\<lparr>rc_c2s := \<lparr>pt_stage = AwaitForward line_frame 0 3 n, pt_buf = line_in, pt_in = line_in,
       pt_out = take n line_in\<rparr>, rc_shared := (rc_shared recorder_init)\<lparr>pm_seq := 1\<rparr>, rc_stamps := 1\<rparr>"

definition line_relayed :: recorder where
  "line_relayed = (line_awaited 2)\<lparr>rc_c2s := \<lparr>pt_stage = AwaitInput, pt_buf = [], pt_in = line_in, pt_out = line_in\<rparr>,
     rc_shared := record_frame note_serde (rc_shared (line_awaited 2)) line_frame ClientToServer 0 3,
     rc_log := [\<lparr>fw_direction = ClientToServer, fw_line = line_in, fw_message = Some line_recorded\<rparr>]\<rparr>"

lemma line_parsed: "parse_stdio_frame line_in = Inr (Some line_frame)"
  using parse_stdio_frame_line[of "''n''" "[]"] by (simp add: line_frame_def strip_cr_def)

lemma line_read: "record_step note_serde recorder_init (line_awaited 0)"
proof -
  let ?t = "rc_task ClientToServer recorder_init"
  have "receive_chunk 3 line_in ?t (rc_shared recorder_init)
      = (rc_c2s (line_awaited 0), rc_shared (line_awaited 0))"
    by (simp add: receive_chunk_def next_frame_def recorder_init_def pump_task_new_def line_parsed line_awaited_def
        wrapping_inc_def u64_max_def MAX_FRAME_BYTES_def line_frame_def)
      (simp add: reserve_capture_stamp_def wrapping_inc_def u64_max_def)
  then have "pump_turn ClientToServer (receive_chunk 3 line_in ?t (rc_shared recorder_init)) recorder_init = line_awaited 0"
    by (simp add: pump_turn_def line_awaited_def recorder_init_def)
  with record_step.read_chunk[of recorder_init ClientToServer line_in note_serde 3] show ?thesis
    by (simp add: recorder_init_def pump_task_new_def READ_CHUNK_BYTES_def)
qed

lemma line_written: "record_step note_serde (line_awaited 0) (line_awaited 2)"
  using record_step.write_some[of "line_awaited 0" ClientToServer line_frame 0 3 0 2 note_serde]
  by (simp add: line_awaited_def recorder_init_def line_frame_def numeral_2_eq_2)

lemma line_queued:
  "queued_message note_serde (rc_shared (line_awaited 2)) line_frame ClientToServer 0 3 = Some line_recorded"
  "pm_dropped (rc_shared line_relayed) = 0"
  "ch_queue (pm_channel (rc_shared line_relayed)) = [Message line_recorded 1025]"
  by (simp_all add: queued_message_def line_frame_def note_serde_def stdio_decode_message_def decode_json_message_def
      line_recorded_def try_record_def try_reserve_def usize_checked_sub_def try_reserve_round_def line_awaited_def
      recorder_init_def budget_new_def STORAGE_QUEUE_MAX_BYTES_def STORAGE_EVENT_OVERHEAD_BYTES_def
      STORAGE_CHANNEL_CAPACITY_def saturating_add_def u64_max_def line_relayed_def record_frame_def)

lemma line_done: "record_step note_serde (line_awaited 2) line_relayed"
proof -
  have turn: "frame_forwarded note_serde ClientToServer 4 line_frame 0 3 (rc_task ClientToServer (line_awaited 2)) (rc_shared (line_awaited 2))
      = (rc_c2s line_relayed, rc_shared line_relayed)"
    by (simp add: frame_forwarded_def next_frame_def check_unterminated_def
        parse_stdio_frame_def line_relayed_def line_awaited_def line_frame_def)
  from record_step.written[of "line_awaited 2" ClientToServer line_frame 0 3 note_serde 4]
  have "record_step note_serde (line_awaited 2) (pump_turn ClientToServer
      (frame_forwarded note_serde ClientToServer 4 line_frame 0 3 (rc_task ClientToServer (line_awaited 2)) (rc_shared (line_awaited 2)))
      ((line_awaited 2)\<lparr>rc_log := rc_log (line_awaited 2) @ [\<lparr>fw_direction = ClientToServer, fw_line = wire_bytes line_frame,
        fw_message = queued_message note_serde (rc_shared (line_awaited 2)) line_frame ClientToServer 0 3\<rparr>]\<rparr>))"
    by (simp add: line_awaited_def recorder_init_def line_frame_def)
  then show ?thesis
    unfolding turn line_queued(1)
    by (simp add: pump_turn_def line_relayed_def) (simp add: line_awaited_def line_frame_def recorder_init_def)
qed

lemma line_reachable: "record_reachable note_serde (line_awaited 2)" "record_reachable note_serde line_relayed"
  using line_read line_written line_done by (blast intro: record_reachable.intros)+

definition line_end :: recorder where
  "line_end = line_relayed\<lparr>rc_s2c := pump_task_new\<lparr>pt_stage := PumpReturned (Inr ())\<rparr>, rc_phase := Over (Inr ()) False\<rparr>"

lemma line_end_reachable: "record_reachable note_serde line_end"
proof -
  let ?s = "set_task ServerToClient ((rc_task ServerToClient line_relayed)\<lparr>pt_stage := PumpReturned (Inr ())\<rparr>) line_relayed"
  have fields: "rc_phase line_relayed = Relaying" "rc_s2c line_relayed = pump_task_new"
    by (simp_all add: line_relayed_def line_awaited_def recorder_init_def)
  then have "record_step note_serde line_relayed ?s"
    by (intro record_step.read_end) (simp_all add: pump_task_new_def)
  moreover have "record_step note_serde ?s line_end"
    using record_step.server_closed[of ?s "Inr ()" note_serde] fields by (simp add: line_end_def)
  ultimately show ?thesis using line_reachable(2) by (blast intro: record_reachable.step)
qed

lemma line_start: "\<exists>st. record_start note_serde (Inr ()) (Inr empty_store) note_uuid 1 ''c'' ''none'' [] [''s'']
    = Inr (note_uuid, st, redactor_new PolicyNone) \<and> st_messages st = [] \<and> sr_id ` set (st_sessions st) = {note_uuid}"
  by (simp add: record_start_def policy_from_cli_def policy_from_name_def create_session_def empty_store_def
      is_active_def redactor_new_def)

lemma line_unredacted: "redact_all note_serde (redactor_new PolicyNone) t [line_recorded] = [line_recorded]"
  by (simp add: redact_with_context_def is_active_def redactor_new_def line_recorded_def split: prod.split)

lemma line_run:
  assumes "st_messages st = []" "sr_id ` set (st_sessions st) = {note_uuid}"
  shows "\<exists>w. run_writer note_serde (store_sink note_serde) (redactor_new PolicyNone) note_uuid [1] (writer_init st)
     (writer_events line_end 9) = (w, Some (Inr ()))"
proof -
  let ?r = "redactor_new PolicyNone"
  have events: "writer_events line_end 9 = [Message line_recorded 1025, Close 9 0]"
    using line_queued(2,3) by (simp add: writer_events_def line_end_def)
      (simp add: line_relayed_def line_awaited_def recorder_init_def)
  have coll: "collect_more 1 [Close 9 0] [line_recorded] None = (([line_recorded], Some (9, 0)), [])"
    by (simp add: collect_storage_event_def STORAGE_WRITE_BATCH_MESSAGES_def)
  let ?w1 = "enqueue_messages (writer_init st) [line_recorded]"
  obtain w2 where rel: "release_pending True ?w1 (wr_pending ?w1) [] = (w2, [line_recorded])"
    "\<not> failing w2" "wr_failed w2 = 0" "wr_store w2 = st"
    by (simp add: writer_init_def line_recorded_def STORAGE_REORDER_MAX_MESSAGES_def Let_def failing_def)
  obtain w3 where red: "redact_messages note_serde ?r w2 [line_recorded] = (w3, [line_recorded])" "\<not> failing w3"
      "wr_failed w3 = 0" "wr_store w3 = st"
    using rel by (simp add: is_active_def redactor_new_def redact_with_context_def line_recorded_def Let_def failing_def
        note_observed)
  obtain st' where ins: "insert_messages st [message_row_of note_serde note_uuid line_recorded] = Inr st'"
    using assms by (simp add: insert_message_def message_row_of_def line_recorded_def u64_as_i64_def wrap_i64_def)
  have "chunks STORAGE_WRITE_BATCH_MESSAGES [line_recorded] = [[line_recorded]]"
    by (simp add: chunks.simps STORAGE_WRITE_BATCH_MESSAGES_def)
  then have stored: "store_batches (store_sink note_serde) note_uuid w3 [line_recorded] = w3\<lparr>wr_store := st'\<rparr>"
    using ins red(4) by (simp add: store_batches_def write_batch_def store_sink_def write_messages_def)
  have batch: "writer_batch note_serde (store_sink note_serde) ?r note_uuid (writer_init st) [line_recorded] True
      = w3\<lparr>wr_store := st'\<rparr>"
    unfolding writer_batch_def Let_def rel(1) prod.case red(1) by (rule stored)
  have "wr_first_failure w3 = None" using red(2) by (simp add: failing_def)
  then show ?thesis using coll batch red(3) unfolding events
    by (simp add: run_writer.simps collect_storage_event_def finish_session_def store_sink_def Let_def
        saturating_add_def del: collect_more.simps)
qed

lemma record_command_complete_witness:
  "\<exists>st (w :: writer) ls ms. record_start note_serde (Inr ()) (Inr empty_store) note_uuid 1 ''c'' ''none'' [] [''s'']
       = Inr (note_uuid, st, redactor_new PolicyNone)
     \<and> messages_of (wr_store w) note_uuid = map (stored_as note_serde) (redact_all note_serde (redactor_new PolicyNone) tracker_default ms)
     \<and> concat (ls ClientToServer) = line_in
     \<and> list_all2 (line_message note_serde) (ls ClientToServer) (filter (\<lambda>m. m_direction m = ClientToServer) ms)"
proof -
  obtain st where st: "record_start note_serde (Inr ()) (Inr empty_store) note_uuid 1 ''c'' ''none'' [] [''s'']
      = Inr (note_uuid, st, redactor_new PolicyNone)" "st_messages st = []" "sr_id ` set (st_sessions st) = {note_uuid}"
    using line_start by blast
  obtain w where run: "run_writer note_serde (store_sink note_serde) (redactor_new PolicyNone) note_uuid [1]
      (writer_init st) (writer_events line_end 9) = (w, Some (Inr ()))" using line_run[OF st(2,3)] by blast
  have ok: "store_ok empty_store" by (simp add: store_ok_def foreign_keys_def empty_store_def)
  have phase: "rc_phase line_end = Over (Inr ()) False" "int (rc_stamps line_end) \<le> i64_max"
    by (simp_all add: line_end_def line_relayed_def line_awaited_def i64_max_def)
  have result: "record_result (Inr ()) False False (finish_storage_writer True True (Some (Inr ()))) (Inr (Some True)) = Inr ()"
    by (simp add: record_result_def finish_storage_writer_def)
  have client: "rc_task ClientToServer line_end = \<lparr>pt_stage = AwaitInput, pt_buf = [], pt_in = line_in, pt_out = line_in\<rparr>"
    by (simp add: line_end_def line_relayed_def)
  from record_command_complete[OF st(1) ok line_end_reachable phase run store_sink_sound result] obtain ls ms where
    got: "messages_of (wr_store w) note_uuid = map (stored_as note_serde)
       (redact_all note_serde (redactor_new PolicyNone) tracker_default ms)"
      "let t = rc_task ClientToServer line_end in pt_in t = concat (ls ClientToServer) @ pt_buf t
       \<and> list_all2 (line_message note_serde) (ls ClientToServer) (filter (\<lambda>m. m_direction m = ClientToServer) ms)"
    unfolding Let_def by blast
  then have "concat (ls ClientToServer) = line_in"
    "list_all2 (line_message note_serde) (ls ClientToServer) (filter (\<lambda>m. m_direction m = ClientToServer) ms)"
    by (simp_all add: client[simplified] Let_def)
  with st(1) got(1) show ?thesis
    by blast
qed

section \<open>A frame in flight\<close>

text \<open>
  A stop request (like the end of the server's output, or of the drain) abandons a pump whose frame the
  other side already has, while its write has not been reported as finished: nothing is queued, nothing
  is counted, and the command still reports success.
\<close>

lemma interrupted_frame_untraced:
  "\<exists>s. record_reachable note_serde s \<and> rc_phase s = Over (Inr ()) True \<and> pt_out (rc_task ClientToServer s) = line_in
     \<and> writer_events s ended = [Close ended 0]
     \<and> record_result (Inr ()) True True (Inr ()) (Inr status) = Inr ()"
proof -
  let ?s = "(line_awaited 2)\<lparr>rc_phase := Over (Inr ()) True\<rparr>"
  have "record_step note_serde (line_awaited 2) ?s"
    by (rule record_step.stop_requested) (simp add: line_awaited_def recorder_init_def)
  then have "record_reachable note_serde ?s" using line_reachable(1) by (blast intro: record_reachable.step)
  moreover have "record_result (Inr ()) True True (Inr ()) (Inr status) = Inr ()"
    by (simp add: record_result_def split: option.splits)
  ultimately show ?thesis
    by (intro exI[of _ ?s]) (simp add: writer_events_def line_awaited_def recorder_init_def)
qed

end
