(* ===== verification/Eval.thy ===== *)
theory Eval
  imports Assertions
begin

text \<open>
  \<open>crates/mcptracer-model/src/eval.rs\<close>: scoring a session against a list of expected tool calls, in
  order or in any order, and of forbidden tools.  Reading TOML text is a parameter.
\<close>

section \<open>The spec\<close>

record expected_call =
  xc_tool :: string
  xc_required_arguments :: "toml option"

record forbidden_call =
  fc_tool :: string

record eval_spec =
  es_ordered :: bool
  es_expected :: "expected_call list"
  es_forbidden :: "forbidden_call list"

definition parse_eval_spec :: "(string \<Rightarrow> string + eval_spec) \<Rightarrow> string \<Rightarrow> string + eval_spec" where
  "parse_eval_spec from_str input =
     (case from_str input of
        Inl e \<Rightarrow> Inl e
      | Inr spec \<Rightarrow>
          if es_expected spec = [] \<and> es_forbidden spec = []
          then Inl ''spec contains no [[expect]] or [[forbidden]] entries''
          else Inr spec)"

record expectation_result =
  xr_description :: string
  xr_satisfied :: bool
  xr_reason :: "string option"

record eval_report =
  rp_accuracy :: f64
  rp_results :: "expectation_result list"

section \<open>Calls\<close>

type_synonym tool_call = "exchange \<times> json"

definition call_arguments :: "(u64, json) btree \<Rightarrow> exchange \<Rightarrow> json" where
  "call_arguments payloads e =
     (case Option.bind (Option.bind (Option.bind (ex_request_seq e) (bt_get payloads))
             (\<lambda>payload. json_get payload ''params'')) (\<lambda>params. json_get params ''arguments'') of
        Some arguments \<Rightarrow> arguments
      | None \<Rightarrow> JNull)"

definition tool_calls :: "serde \<Rightarrow> stored_message list \<Rightarrow> tool_call list" where
  "tool_calls S msgs =
     map (\<lambda>e. (e, call_arguments (payloads_by_seq S msgs) e))
       (filter (\<lambda>e. ex_tool_name e \<noteq> None) (exchanges (correlate S msgs)))"

definition arguments_subset :: "json \<Rightarrow> json \<Rightarrow> bool" where
  "arguments_subset required actual =
     (case required of
        JObject required_map \<Rightarrow>
          (case actual of
             JObject actual_map \<Rightarrow> list_all (\<lambda>(key, v). bt_get actual_map key = Some v) required_map
           | _ \<Rightarrow> False)
      | other \<Rightarrow> other = actual)"

section \<open>Expectations\<close>

text \<open>What a call must be to satisfy an expectation, its position apart.\<close>

definition call_matches :: "expected_call \<Rightarrow> tool_call \<Rightarrow> bool" where
  "call_matches x c \<longleftrightarrow>
     ex_tool_name (fst c) = Some (xc_tool x)
     \<and> (case map_option toml_to_json (xc_required_arguments x) of
          Some required \<Rightarrow> arguments_subset required (snd c)
        | None \<Rightarrow> True)"

definition position_allowed :: "bool \<Rightarrow> bool list \<Rightarrow> usize option \<Rightarrow> usize \<Rightarrow> bool" where
  "position_allowed ordered used last_matched p \<longleftrightarrow>
     \<not> used ! p \<and> (ordered \<longrightarrow> (case last_matched of Some l \<Rightarrow> l < p | None \<Rightarrow> True))"

definition find_call :: "bool \<Rightarrow> tool_call list \<Rightarrow> bool list \<Rightarrow> usize option \<Rightarrow> expected_call \<Rightarrow> usize option" where
  "find_call ordered calls used last_matched x =
     position (\<lambda>(p, c). position_allowed ordered used last_matched p \<and> call_matches x c)
       (zip [0..<length calls] calls)"

definition expectation_outcome :: "bool \<Rightarrow> expected_call \<Rightarrow> bool \<Rightarrow> expectation_result" where
  "expectation_outcome ordered x found =
     \<lparr>xr_description = ''expect '' @ xc_tool x, xr_satisfied = found,
      xr_reason = (if found then None
        else Some (''no matching call to `'' @ xc_tool x @ ''` found''
               @ (if ordered then '' in the expected order'' else [])))\<rparr>"

fun expect_loop :: "bool \<Rightarrow> tool_call list \<Rightarrow> bool list \<Rightarrow> usize option \<Rightarrow> expected_call list \<Rightarrow> expectation_result list" where
  "expect_loop ordered calls used last_matched [] = []"
| "expect_loop ordered calls used last_matched (x # xs) =
     (case find_call ordered calls used last_matched x of
        Some p \<Rightarrow> expectation_outcome ordered x True # expect_loop ordered calls (used[p := True]) (Some p) xs
      | None \<Rightarrow> expectation_outcome ordered x False # expect_loop ordered calls used last_matched xs)"

definition forbidden_result :: "tool_call list \<Rightarrow> forbidden_call \<Rightarrow> expectation_result" where
  "forbidden_result calls f =
     (let violated = list_ex (\<lambda>c. ex_tool_name (fst c) = Some (fc_tool f)) calls
      in \<lparr>xr_description = ''forbidden '' @ fc_tool f, xr_satisfied = \<not> violated,
          xr_reason = (if violated then Some (''forbidden tool `'' @ fc_tool f @ ''` was called'') else None)\<rparr>)"

definition report_of :: "expectation_result list \<Rightarrow> eval_report" where
  "report_of results =
     \<lparr>rp_accuracy =
        (if results = [] then 1
         else f64_div (f64_of_int (int (length (filter xr_satisfied results)))) (f64_of_int (int (length results)))),
      rp_results = results\<rparr>"

definition evaluate :: "serde \<Rightarrow> eval_spec \<Rightarrow> stored_message list \<Rightarrow> eval_report" where
  "evaluate S spec msgs =
     (let calls = tool_calls S msgs
      in report_of
           (expect_loop (es_ordered spec) calls (replicate (length calls) False) None (es_expected spec)
            @ map (forbidden_result calls) (es_forbidden spec)))"

end
