(* ===== verification/EvalProps.thy ===== *)
theory EvalProps
  imports Eval Capture "HOL-Library.Sublist"
begin

text \<open>
  What a score says: which expectations are satisfied, what an unsatisfied one means, and when the
  accuracy is one.
\<close>

section \<open>The calls taken\<close>

text \<open>The positions the loop takes, expectation by expectation.\<close>

fun taken :: "bool \<Rightarrow> tool_call list \<Rightarrow> bool list \<Rightarrow> usize option \<Rightarrow> expected_call list \<Rightarrow> usize option list" where
  "taken ordered calls used last_matched [] = []"
| "taken ordered calls used last_matched (x # xs) =
     (case find_call ordered calls used last_matched x of
        Some p \<Rightarrow> Some p # taken ordered calls (used[p := True]) (Some p) xs
      | None \<Rightarrow> None # taken ordered calls used last_matched xs)"

lemma expect_loop_taken:
  "expect_loop ordered calls used last_matched xs
   = map2 (\<lambda>x t. expectation_outcome ordered x (t \<noteq> None)) xs (taken ordered calls used last_matched xs)"
  by (induction xs arbitrary: used last_matched) (auto split: option.splits)

lemma length_taken [simp]: "length (taken ordered calls used last_matched xs) = length xs"
  by (induction xs arbitrary: used last_matched) (auto split: option.splits)

lemma find_call_Some:
  assumes "find_call ordered calls used last_matched x = Some p"
  shows "p < length calls" "position_allowed ordered used last_matched p" "call_matches x (calls ! p)"
    "\<forall>q < p. \<not> (position_allowed ordered used last_matched q \<and> call_matches x (calls ! q))"
  using position_Some[OF assms[unfolded find_call_def]] by auto

lemma find_call_None:
  "find_call ordered calls used last_matched x = None \<longleftrightarrow>
   (\<forall>p < length calls. \<not> (position_allowed ordered used last_matched p \<and> call_matches x (calls ! p)))"
  by (simp add: find_call_def position_None all_set_conv_all_nth)

definition later_than :: "bool \<Rightarrow> usize option list \<Rightarrow> nat \<Rightarrow> usize \<Rightarrow> bool" where
  "later_than ordered ts i p \<longleftrightarrow> (\<forall>j < i. \<forall>q. ts ! j = Some q \<longrightarrow> p \<noteq> q \<and> (ordered \<longrightarrow> q < p))"

lemma later_than_Cons:
  "later_than ordered (t # ts) (Suc i) p \<longleftrightarrow>
     (\<forall>q. t = Some q \<longrightarrow> p \<noteq> q \<and> (ordered \<longrightarrow> q < p)) \<and> later_than ordered ts i p"
  unfolding later_than_def by (auto simp: less_Suc_eq_0_disj)

lemma position_allowed_taken:
  assumes "position_allowed ordered used last_matched p" "q < length used"
  shows "position_allowed ordered (used[p := True]) (Some p) q \<longleftrightarrow>
    position_allowed ordered used last_matched q \<and> q \<noteq> p \<and> (ordered \<longrightarrow> p < q)"
  using assms by (cases "q = p") (auto simp: position_allowed_def split: option.splits)

lemma taken_first:
  fixes ordered last_matched
  assumes "length used = length calls" "i < length xs"
  defines "ts \<equiv> taken ordered calls used last_matched xs"
  defines "ok \<equiv> \<lambda>p. position_allowed ordered used last_matched p \<and> later_than ordered ts i p
    \<and> call_matches (xs ! i) (calls ! p)"
  shows "(\<forall>p. ts ! i = Some p \<longrightarrow> p < length calls \<and> ok p \<and> (\<forall>q < p. \<not> ok q))
    \<and> (ts ! i = None \<longrightarrow> (\<forall>p < length calls. \<not> ok p))"
  using assms(1,2) unfolding ts_def ok_def
proof (induction xs arbitrary: used last_matched i)
  case (Cons x xs)
  let ?f = "find_call ordered calls used last_matched x"
  show ?case
  proof (cases i)
    case 0
    then show ?thesis
      using find_call_Some[of ordered calls used last_matched x] find_call_None[of ordered calls used last_matched x]
      by (auto simp: later_than_def split: option.split)
  next
    case (Suc k)
    then have k: "k < length xs" using Cons.prems(2) by simp
    show ?thesis
    proof (cases ?f)
      case None
      with Cons.IH[OF Cons.prems(1) k, of last_matched] show ?thesis by (simp add: Suc later_than_Cons)
    next
      case (Some p)
      note p = find_call_Some[OF Some]
      have len: "length (used[p := True]) = length calls" using Cons.prems(1) by simp
      have allowed: "position_allowed ordered (used[p := True]) (Some p) q \<longleftrightarrow>
          position_allowed ordered used last_matched q \<and> q \<noteq> p \<and> (ordered \<longrightarrow> p < q)" if "q < length calls" for q
        using position_allowed_taken[OF p(2)] that Cons.prems(1) by simp
      let ?ts = "taken ordered calls (used[p := True]) (Some p) xs"
      define ok1 where "ok1 q \<longleftrightarrow> position_allowed ordered (used[p := True]) (Some p) q \<and> later_than ordered ?ts k q
        \<and> call_matches (xs ! k) (calls ! q)" for q
      have ok: "ok1 q \<longleftrightarrow> position_allowed ordered used last_matched q \<and> later_than ordered (Some p # ?ts) (Suc k) q
        \<and> call_matches (xs ! k) (calls ! q)" if "q < length calls" for q
        unfolding ok1_def allowed[OF that] later_than_Cons by auto
      have ih: "(\<forall>q. ?ts ! k = Some q \<longrightarrow> q < length calls \<and> ok1 q \<and> (\<forall>r < q. \<not> ok1 r))
          \<and> (?ts ! k = None \<longrightarrow> (\<forall>q < length calls. \<not> ok1 q))"
        unfolding ok1_def by (rule Cons.IH[OF len k])
      have ts: "taken ordered calls used last_matched (x # xs) = Some p # ?ts" using Some by simp
      show ?thesis
        unfolding Suc ts nth_Cons_Suc
      proof (intro conjI allI impI)
        fix q assume q: "?ts ! k = Some q"
        with ih have lt: "q < length calls" "ok1 q" "\<And>r. r < q \<Longrightarrow> \<not> ok1 r" by auto
        show "q < length calls" by (rule lt)
        show "position_allowed ordered used last_matched q" "later_than ordered (Some p # ?ts) (Suc k) q"
          "call_matches (xs ! k) (calls ! q)" using ok[OF lt(1)] lt(2) by auto
        show "\<not> (position_allowed ordered used last_matched r \<and> later_than ordered (Some p # ?ts) (Suc k) r
          \<and> call_matches (xs ! k) (calls ! r))" if "r < q" for r
          using ok[of r] lt(1) lt(3)[OF that] that by auto
      next
        fix q assume "?ts ! k = None" "q < length calls"
        then show "\<not> (position_allowed ordered used last_matched q \<and> later_than ordered (Some p # ?ts) (Suc k) q
          \<and> call_matches (xs ! k) (calls ! q))" using ih ok[of q] by auto
      qed
    qed
  qed
qed simp

lemma taken_initially:
  fixes calls
  assumes "i < length xs"
  defines "ts \<equiv> \<lambda>ordered. taken ordered calls (replicate (length calls) False) None xs"
  shows "ts ordered ! i = Some p \<Longrightarrow> p < length calls \<and> later_than ordered (ts ordered) i p \<and> call_matches (xs ! i) (calls ! p)"
    and "ts ordered ! i = Some p \<Longrightarrow> q < p \<Longrightarrow> later_than ordered (ts ordered) i q \<Longrightarrow> \<not> call_matches (xs ! i) (calls ! q)"
    and "ts ordered ! i = None \<Longrightarrow> q < length calls \<Longrightarrow> later_than ordered (ts ordered) i q \<Longrightarrow> \<not> call_matches (xs ! i) (calls ! q)"
  using taken_first[of "replicate (length calls) False" calls i xs ordered None] assms(1)
  by (auto simp: ts_def position_allowed_def)

section \<open>Selections of calls\<close>

lemma subseq_positions:
  "subseq cs calls \<Longrightarrow> \<exists>g. (\<forall>i < length cs. g i < length calls \<and> calls ! g i = cs ! i)
     \<and> (\<forall>i < length cs. \<forall>j < i. g j < g i)"
proof (induction rule: list_emb.induct)
  case (list_emb_Cons xs ys y)
  then obtain g where g: "\<forall>i < length xs. g i < length ys \<and> ys ! g i = xs ! i" "\<forall>i < length xs. \<forall>j < i. g j < g i" by blast
  show ?case by (rule exI[of _ "\<lambda>i. Suc (g i)"]) (use g in auto)
next
  case (list_emb_Cons2 x y xs ys)
  then obtain g where g: "\<forall>i < length xs. g i < length ys \<and> ys ! g i = xs ! i" "\<forall>i < length xs. \<forall>j < i. g j < g i" by blast
  show ?case
    by (rule exI[of _ "\<lambda>i. case i of 0 \<Rightarrow> 0 | Suc k \<Rightarrow> Suc (g k)"])
      (use g list_emb_Cons2.hyps in \<open>auto simp: less_Suc_eq_0_disj split: nat.split\<close>)
qed simp

lemma positions_subseq:
  "(\<forall>i < length ps. ps ! i < length calls) \<Longrightarrow> sorted_wrt (<) ps \<Longrightarrow> subseq (map ((!) calls) ps) calls"
proof (induction calls arbitrary: ps)
  case (Cons c calls)
  show ?case
  proof (cases ps)
    case (Cons p qs)
    have shift: "\<exists>rs. map ((!) (c # calls)) qs' = map ((!) calls) rs \<and> sorted_wrt (<) rs \<and> (\<forall>i < length rs. rs ! i < length calls)"
      if "\<forall>q \<in> set qs'. 0 < q \<and> q < Suc (length calls)" "sorted_wrt (<) qs'" for qs'
    proof (intro exI[of _ "map (\<lambda>q. q - 1) qs'"] conjI allI impI)
      show "map ((!) (c # calls)) qs' = map ((!) calls) (map (\<lambda>q. q - 1) qs')" using that(1) by auto
      show "sorted_wrt (<) (map (\<lambda>q. q - 1) qs')"
        unfolding sorted_wrt_map by (rule sorted_wrt_mono_rel[OF _ that(2)]) (use that(1) in \<open>auto simp: diff_less_mono Suc_leI\<close>)
      fix i assume "i < length (map (\<lambda>q. q - 1) qs')"
      then have i: "i < length qs'" by simp
      then have "0 < qs' ! i \<and> qs' ! i < Suc (length calls)" using that(1) nth_mem[OF i] by blast
      then show "map (\<lambda>q. q - 1) qs' ! i < length calls" using i by auto
    qed
    have range: "\<forall>q \<in> set ps. q < Suc (length calls)" using Cons.prems(1) by (auto simp: in_set_conv_nth)
    show ?thesis
    proof (cases "p = 0")
      case True
      have "\<forall>q \<in> set qs. 0 < q \<and> q < Suc (length calls)" "sorted_wrt (<) qs"
        using range Cons.prems(2) Cons True by auto
      from shift[OF this] Cons.IH show ?thesis by (auto simp: Cons True)
    next
      case False
      have "\<forall>q \<in> set ps. 0 < q \<and> q < Suc (length calls)"
        using range Cons.prems(2) Cons False by auto
      from shift[OF this Cons.prems(2)] Cons.IH show ?thesis by auto
    qed
  qed simp
next
  case Nil
  then have "ps = []" by (cases ps) auto
  then show ?case by simp
qed

lemma positions_submultiset:
  assumes "\<forall>p \<in> set ps. p < length calls" "distinct ps"
  shows "mset (map ((!) calls) ps) \<subseteq># mset calls"
proof -
  have "mset ps = mset_set (set ps)" using assms(2) by (simp add: mset_set_set)
  also have "\<dots> \<subseteq># mset_set {0..<length calls}" using assms(1) by (intro subset_imp_msubset_mset_set) auto
  finally have "image_mset ((!) calls) (mset ps) \<subseteq># image_mset ((!) calls) (mset [0..<length calls])"
    by (intro image_mset_subseteq_mono) simp
  moreover have "image_mset ((!) calls) (mset [0..<length calls]) = mset calls"
    by (metis map_nth mset_map)
  ultimately show ?thesis by (simp del: mset_upt)
qed

section \<open>Accuracy\<close>

lemma accuracy_one:
  assumes "a \<le> b" "0 < b" "b < 2 ^ 53"
  shows "f64_div (f64_of_int (int a)) (f64_of_int (int b)) = 1 \<longleftrightarrow> a = b"
proof -
  have exact: "f64_of_int (int a) = of_nat a" "f64_of_int (int b) = of_nat b"
    using assms by (simp_all add: f64_of_int_exact)
  have one: "rnd 1 = 1" using rnd_pos_int[of 1] by (simp add: rnd_def)
  have "f64_div (of_nat a) (of_nat b) < 1" if "a \<noteq> b"
  proof -
    let ?y = "of_int (2 ^ 53 - 1) * 2 powi (- 53) :: rat"
    have "rnd ?y = ?y" using rnd_pos_scaled[of "2 ^ 53 - 1" "- 53"] by (simp add: rnd_def power_int_minus)
    moreover have "of_nat a / of_nat b \<le> ?y"
    proof -
      have "a + 1 \<le> b" using that assms(1) by simp
      then have "(of_nat a + 1 :: rat) \<le> of_nat b" by (metis of_nat_1 of_nat_add of_nat_le_iff)
      moreover have "(of_nat b :: rat) \<le> 2 ^ 53"
        using assms(3) by (metis less_imp_le of_nat_le_iff of_nat_numeral of_nat_power)
      ultimately show ?thesis using assms(2) by (simp add: divide_simps power_int_minus)
    qed
    ultimately have "f64_div (of_nat a) (of_nat b) \<le> ?y"
      using rnd_mono[of "of_nat a / of_nat b" ?y] by (simp add: f64_div_def)
    also have "?y < 1" by (simp add: power_int_minus)
    finally show ?thesis .
  qed
  moreover have "f64_div (of_nat b) (of_nat b) = 1" using assms(2) by (simp add: f64_div_def one)
  ultimately show ?thesis unfolding exact by (cases "a = b") auto
qed

lemma report_accuracy_one:
  assumes "length rs < 2 ^ 53"
  shows "rp_accuracy (report_of rs) = 1 \<longleftrightarrow> (\<forall>r \<in> set rs. xr_satisfied r)"
proof (cases "rs = []")
  case False
  then have "rp_accuracy (report_of rs) = 1 \<longleftrightarrow> length (filter xr_satisfied rs) = length rs"
    using assms accuracy_one[of "length (filter xr_satisfied rs)" "length rs"] by (simp add: report_of_def)
  then show ?thesis by (metis filter_True length_filter_less less_irrefl)
qed (simp add: report_of_def)

definition forbidden_called :: "forbidden_call list \<Rightarrow> tool_call list \<Rightarrow> bool" where
  "forbidden_called fs calls \<longleftrightarrow> (\<exists>f \<in> set fs. \<exists>c \<in> set calls. ex_tool_name (fst c) = Some (fc_tool f))"

text \<open>Greedy choice takes the least position every increasing assignment allows.\<close>

lemma ordered_greedy:
  fixes calls xs
  defines "ts \<equiv> taken True calls (replicate (length calls) False) None xs"
  assumes g: "\<forall>i < length xs. g i < length calls \<and> call_matches (xs ! i) (calls ! g i)"
    and increasing: "\<forall>i < length xs. \<forall>j < i. g j < g i"
  shows "i < length xs \<Longrightarrow> \<exists>p. ts ! i = Some p \<and> p \<le> g i"
proof (induction i rule: less_induct)
  case (less i)
  have "later_than True ts i (g i)"
    unfolding later_than_def
  proof (intro allI impI)
    fix j q assume "j < i" "ts ! j = Some q"
    with less.IH[of j] less.prems have "q \<le> g j" by auto
    moreover have "g j < g i" using increasing less.prems \<open>j < i\<close> by blast
    ultimately show "g i \<noteq> q \<and> (True \<longrightarrow> q < g i)" by simp
  qed
  with less.prems g taken_initially(2,3)[OF less.prems, where calls = calls and ordered = True, folded ts_def] show ?case
    by (metis not_le option.exhaust)
qed

lemma taken_selects:
  fixes calls xs ordered
  defines "ts \<equiv> taken ordered calls (replicate (length calls) False) None xs"
  assumes "None \<notin> set ts"
  shows "list_all2 call_matches xs (map ((!) calls) (map the ts))"
    "\<forall>p \<in> set (map the ts). p < length calls" "distinct (map the ts)"
    "ordered \<Longrightarrow> sorted_wrt (<) (map the ts)"
proof -
  have len: "length ts = length xs" by (simp add: ts_def)
  have some: "ts ! i = Some (the (ts ! i))" if "i < length xs" for i
    using assms(2) that nth_mem[of i ts] len by (metis option.collapse)
  note t = taken_initially(1)[OF _ some[unfolded ts_def], folded ts_def]
  show "list_all2 call_matches xs (map ((!) calls) (map the ts))"
    using t by (simp add: list_all2_conv_all_nth len)
  show "\<forall>p \<in> set (map the ts). p < length calls" using t by (auto simp: in_set_conv_nth len)
  have later: "the (ts ! i) \<noteq> the (ts ! j) \<and> (ordered \<longrightarrow> the (ts ! j) < the (ts ! i))" if "j < i" "i < length xs" for i j
    using t[OF that(2,2)] some[of j] that unfolding later_than_def by force
  show "distinct (map the ts)" unfolding distinct_conv_nth using later len by (metis length_map nat_neq_iff nth_map)
  show "sorted_wrt (<) (map the ts)" if ordered using later that len by (auto simp: sorted_wrt_iff_nth_less)
qed

text \<open>
  C38: What a perfect score means.  In an ordered spec the accuracy is one exactly when the session's
  tool calls contain, in this order, a call for every expectation and no call of a forbidden tool; in
  an unordered one an accuracy of one guarantees a separate call for every expectation.
\<close>

theorem perfect_score:
  assumes "length (es_expected spec) + length (es_forbidden spec) < 2 ^ 53"
  shows "(es_ordered spec \<longrightarrow>
      (rp_accuracy (evaluate S spec msgs) = 1 \<longleftrightarrow>
        (\<exists>cs. subseq cs (tool_calls S msgs) \<and> list_all2 call_matches (es_expected spec) cs)
        \<and> \<not> forbidden_called (es_forbidden spec) (tool_calls S msgs)))
    \<and> (rp_accuracy (evaluate S spec msgs) = 1 \<longrightarrow>
        (\<exists>cs. mset cs \<subseteq># mset (tool_calls S msgs) \<and> list_all2 call_matches (es_expected spec) cs)
        \<and> \<not> forbidden_called (es_forbidden spec) (tool_calls S msgs))"
proof -
  let ?calls = "tool_calls S msgs" and ?xs = "es_expected spec" and ?o = "es_ordered spec"
  let ?ts = "taken ?o ?calls (replicate (length ?calls) False) None ?xs"
  have "(\<forall>r \<in> set (expect_loop ?o ?calls (replicate (length ?calls) False) None ?xs). xr_satisfied r)
      \<longleftrightarrow> None \<notin> set ?ts"
    by (auto simp: expect_loop_taken expectation_outcome_def in_set_conv_nth all_set_conv_all_nth)
  moreover have "(\<forall>r \<in> set (map (forbidden_result ?calls) (es_forbidden spec)). xr_satisfied r)
      \<longleftrightarrow> \<not> forbidden_called (es_forbidden spec) ?calls"
    by (auto simp: forbidden_result_def forbidden_called_def Let_def list_ex_iff)
  ultimately have score: "rp_accuracy (evaluate S spec msgs) = 1 \<longleftrightarrow>
      None \<notin> set ?ts \<and> \<not> forbidden_called (es_forbidden spec) ?calls"
    using assms by (simp add: evaluate_def Let_def report_accuracy_one expect_loop_taken ball_Un)
  have "\<exists>cs. mset cs \<subseteq># mset ?calls \<and> list_all2 call_matches ?xs cs" if "None \<notin> set ?ts"
    using taken_selects(1-3)[OF that] positions_submultiset by blast
  moreover have "\<exists>cs. subseq cs ?calls \<and> list_all2 call_matches ?xs cs" if "None \<notin> set ?ts" ?o
    using taken_selects[OF that(1)] positions_subseq[of "map the ?ts" ?calls] that(2) nth_mem by metis
  moreover have "None \<notin> set ?ts" if "subseq cs ?calls" "list_all2 call_matches ?xs cs" ?o for cs
  proof -
    note sub = that
    obtain g where "\<forall>i < length cs. g i < length ?calls \<and> ?calls ! g i = cs ! i" "\<forall>i < length cs. \<forall>j < i. g j < g i"
      using subseq_positions[OF sub(1)] by blast
    with sub(2) ordered_greedy[where xs = ?xs and calls = ?calls and g = g] sub(3)
    have "\<forall>i < length ?xs. ?ts ! i \<noteq> None" by (fastforce simp: list_all2_conv_all_nth)
    then show ?thesis by (auto simp: in_set_conv_nth)
  qed
  ultimately show ?thesis unfolding score by blast
qed

section \<open>Two calls of one tool\<close>

text \<open>
  A session that calls \<open>a\<close> with \<open>x = 1\<close> and then with no arguments; an unordered spec that expects
  any call of \<open>a\<close> and one with \<open>x = 1\<close>.
\<close>

definition call_message :: "u64 \<Rightarrow> string \<Rightarrow> stored_message" where
  "call_message n payload =
     \<lparr>msg_seq = n, msg_ts_ns = 0, msg_direction = ''c2s'', msg_kind = ''request'',
      msg_rpc_id = Some payload, msg_method = Some ''tools/call'', msg_tool_name = Some ''a'',
      msg_payload = payload, msg_payload_bytes = 1, msg_is_error = False, msg_error_code = None\<rparr>"

definition x_is_1 :: json where
  "x_is_1 = JObject [(''x'', JNumber (PosInt 1))]"

definition two_call_serde :: serde where
  "two_call_serde = sample_serde\<lparr>parse_json := (\<lambda>s. if s = ''p''
     then Some (JObject [(''params'', JObject [(''arguments'', x_is_1)])]) else Some (JObject []))\<rparr>"

definition two_calls :: "stored_message list" where
  "two_calls = [call_message 0 ''p'', call_message 1 ''q'']"

definition any_and_x :: "bool \<Rightarrow> eval_spec" where
  "any_and_x ordered =
     \<lparr>es_ordered = ordered,
      es_expected = [\<lparr>xc_tool = ''a'', xc_required_arguments = None\<rparr>,
        \<lparr>xc_tool = ''a'', xc_required_arguments = Some (TTable [(''x'', TInteger 1)])\<rparr>],
      es_forbidden = []\<rparr>"

lemma two_calls_of_a:
  "tool_calls two_call_serde two_calls
   = [(new_request (call_message 0 ''p'') ClientToServer, x_is_1), (new_request (call_message 1 ''q'') ClientToServer, JNull)]"
  by code_simp

lemma a_matches:
  "call_matches \<lparr>xc_tool = ''a'', xc_required_arguments = None\<rparr> (new_request (call_message n p) d, v)"
  "call_matches \<lparr>xc_tool = ''a'', xc_required_arguments = Some (TTable [(''x'', TInteger 1)])\<rparr>
     (new_request (call_message n p) d, v) \<longleftrightarrow> arguments_subset x_is_1 v"
  by (simp_all add: call_matches_def new_request_def call_message_def x_is_1_def bt_collect_def)

lemma x_subset: "arguments_subset x_is_1 x_is_1" "\<not> arguments_subset x_is_1 JNull"
  by code_simp+

lemma perfect_score_witness:
  "rp_accuracy (evaluate two_call_serde (any_and_x True\<lparr>es_expected := tl (es_expected (any_and_x True))\<rparr>) two_calls) = 1"
proof -
  let ?spec = "any_and_x True\<lparr>es_expected := tl (es_expected (any_and_x True))\<rparr>"
  have "\<exists>cs. subseq cs (tool_calls two_call_serde two_calls) \<and> list_all2 call_matches (es_expected ?spec) cs"
    by (rule exI[of _ "[(new_request (call_message 0 ''p'') ClientToServer, x_is_1)]"])
      (simp add: two_calls_of_a any_and_x_def a_matches x_subset)
  moreover have "length (es_expected ?spec) + length (es_forbidden ?spec) < 2 ^ 53" "es_ordered ?spec"
    "\<not> forbidden_called (es_forbidden ?spec) (tool_calls two_call_serde two_calls)"
    by (simp_all add: any_and_x_def forbidden_called_def)
  ultimately show ?thesis using perfect_score[of ?spec two_call_serde two_calls] by blast
qed

text \<open>
  The converse fails for unordered specs: each expectation takes the first call that satisfies
  it, so a session with a separate call for every expectation can score below one.
\<close>

theorem unordered_score_misses_matching:
  "mset (rev (tool_calls two_call_serde two_calls)) \<subseteq># mset (tool_calls two_call_serde two_calls)
   \<and> list_all2 call_matches (es_expected (any_and_x False)) (rev (tool_calls two_call_serde two_calls))
   \<and> \<not> forbidden_called (es_forbidden (any_and_x False)) (tool_calls two_call_serde two_calls)
   \<and> map xr_satisfied (rp_results (evaluate two_call_serde (any_and_x False) two_calls)) = [True, False]
   \<and> rp_accuracy (evaluate two_call_serde (any_and_x False) two_calls) \<noteq> 1"
proof (intro conjI)
  have results: "map xr_satisfied (rp_results (evaluate two_call_serde (any_and_x False) two_calls)) = [True, False]"
    by (simp add: evaluate_def report_of_def two_calls_of_a any_and_x_def find_call_def position_allowed_def
        a_matches x_subset expectation_outcome_def)
  then show "map xr_satisfied (rp_results (evaluate two_call_serde (any_and_x False) two_calls)) = [True, False]" .
  let ?rs = "rp_results (evaluate two_call_serde (any_and_x False) two_calls)"
  have "length ?rs < 2 ^ 53" using arg_cong[OF results, of length] by simp
  moreover have "evaluate two_call_serde (any_and_x False) two_calls = report_of ?rs"
    by (simp add: evaluate_def report_of_def Let_def)
  moreover have "\<not> (\<forall>r \<in> set ?rs. xr_satisfied r)"
    using arg_cong[OF results, of set] by auto
  ultimately show "rp_accuracy (evaluate two_call_serde (any_and_x False) two_calls) \<noteq> 1"
    using report_accuracy_one by metis
qed (simp_all add: two_calls_of_a any_and_x_def a_matches x_subset forbidden_called_def)

end
