(* ===== verification/Plan.thy ===== *)
theory Plan
  imports Catalog
begin

text \<open>
  \<open>crates/mcptracer-model/src/plan.rs\<close>: which recorded client messages a run would send, which of
  them the tool filters let through, and what the session itself says about their risk.
\<close>

section \<open>Data\<close>

record tool_annotations =
  ta_destructive_hint :: "bool option"
  ta_read_only_hint :: "bool option"
  ta_idempotent_hint :: "bool option"
  ta_open_world_hint :: "bool option"

datatype risk_level = RiskReadOnly | RiskDestructive | RiskUnknown

record planned_call =
  pc_seq :: u64
  pc_kind :: string
  pc_method :: "string option"
  pc_tool_name :: "string option"
  pc_rpc_id :: "string option"
  pc_annotations :: "tool_annotations option"
  pc_risk :: risk_level
  pc_contains_redacted_placeholder :: bool
  pc_allowed :: bool

record plan =
  pl_total_calls :: usize
  pl_allowed_calls :: usize
  pl_filtered_out_calls :: usize
  pl_destructive_calls :: usize
  pl_unknown_risk_calls :: usize
  pl_redacted_placeholder_calls :: usize
  pl_requires_acknowledgement :: bool
  pl_calls :: "planned_call list"

definition annotations_from_value :: "json \<Rightarrow> tool_annotations" where
  "annotations_from_value v =
     \<lparr>ta_destructive_hint = Option.bind (json_get v ''destructiveHint'') as_bool,
      ta_read_only_hint = Option.bind (json_get v ''readOnlyHint'') as_bool,
      ta_idempotent_hint = Option.bind (json_get v ''idempotentHint'') as_bool,
      ta_open_world_hint = Option.bind (json_get v ''openWorldHint'') as_bool\<rparr>"

definition no_annotations :: tool_annotations where
  "no_annotations =
     \<lparr>ta_destructive_hint = None, ta_read_only_hint = None, ta_idempotent_hint = None, ta_open_world_hint = None\<rparr>"

section \<open>The driven messages\<close>

definition is_driven :: "stored_message \<Rightarrow> bool" where
  "is_driven m \<longleftrightarrow> msg_direction m = ''c2s'' \<and> (msg_kind m = ''request'' \<or> msg_kind m = ''notification'')"

definition is_initialize :: "stored_message \<Rightarrow> bool" where
  "is_initialize m \<longleftrightarrow> msg_method m = Some ''initialize''"

definition driven_messages :: "stored_message list \<Rightarrow> stored_message list" where
  "driven_messages source =
     (let driven = filter is_driven source
      in case position is_initialize driven of
           Some init_pos \<Rightarrow>
             if init_pos \<noteq> 0
             then driven ! init_pos # take init_pos driven @ drop (Suc init_pos) driven
             else driven
         | None \<Rightarrow> driven)"

definition tool_is_allowed :: "string option \<Rightarrow> string list \<Rightarrow> string list \<Rightarrow> bool" where
  "tool_is_allowed tool_name allow_tools deny_tools =
     (case tool_name of
        None \<Rightarrow> True
      | Some name \<Rightarrow>
          \<not> list_ex (\<lambda>deny. deny = name) deny_tools
          \<and> (allow_tools = [] \<or> list_ex (\<lambda>allow. allow = name) allow_tools))"

section \<open>Observed annotations and risk\<close>

definition insert_tool :: "(string, tool_annotations) btree \<Rightarrow> json \<Rightarrow> (string, tool_annotations) btree" where
  "insert_tool annotations tool =
     (case get_str tool ''name'' of
        None \<Rightarrow> annotations
      | Some name \<Rightarrow>
          bt_insert name
            (case json_get tool ''annotations'' of Some v \<Rightarrow> annotations_from_value v | None \<Rightarrow> no_annotations)
            annotations)"

definition listed_tools :: "serde \<Rightarrow> stored_message \<Rightarrow> json list" where
  "listed_tools S m =
     (if msg_direction m \<noteq> ''s2c'' then []
      else case Option.bind (parse_json S (msg_payload m))
          (\<lambda>payload. Option.bind (json_pointer S payload ''/result/tools'') as_array) of
        None \<Rightarrow> []
      | Some tools \<Rightarrow> tools)"

definition observed_tool_annotations :: "serde \<Rightarrow> stored_message list \<Rightarrow> (string, tool_annotations) btree" where
  "observed_tool_annotations S source =
     foldl (\<lambda>annotations m. foldl insert_tool annotations (listed_tools S m)) [] source"

definition risk_for :: "string option \<Rightarrow> tool_annotations option \<Rightarrow> risk_level" where
  "risk_for tool_name annotations =
     (if tool_name = None then RiskReadOnly
      else case annotations of
        Some hints \<Rightarrow>
          if ta_destructive_hint hints = Some True then RiskDestructive
          else if ta_read_only_hint hints = Some True then RiskReadOnly
          else RiskUnknown
      | None \<Rightarrow> RiskUnknown)"

section \<open>The plan\<close>

definition plan_call ::
  "(string, tool_annotations) btree \<Rightarrow> string list \<Rightarrow> string list \<Rightarrow> stored_message \<Rightarrow> planned_call" where
  "plan_call known_annotations allow_tools deny_tools m =
     (let annotations = Option.bind (msg_tool_name m) (bt_get known_annotations)
      in \<lparr>pc_seq = msg_seq m,
          pc_kind = (if msg_kind m = ''request'' then ''request'' else ''notification''),
          pc_method = msg_method m, pc_tool_name = msg_tool_name m, pc_rpc_id = msg_rpc_id m,
          pc_annotations = annotations,
          pc_risk = risk_for (msg_tool_name m) annotations,
          pc_contains_redacted_placeholder = str_contains (msg_payload m) REDACTED_PLACEHOLDER,
          pc_allowed = tool_is_allowed (msg_tool_name m) allow_tools deny_tools\<rparr>)"

definition plan_of :: "planned_call list \<Rightarrow> plan" where
  "plan_of calls =
     (let allowed_calls = length (filter pc_allowed calls);
          destructive_calls = length (filter (\<lambda>c. pc_allowed c \<and> pc_risk c = RiskDestructive) calls);
          unknown_risk_calls = length (filter (\<lambda>c. pc_allowed c \<and> pc_risk c = RiskUnknown) calls);
          redacted_placeholder_calls = length (filter (\<lambda>c. pc_allowed c \<and> pc_contains_redacted_placeholder c) calls)
      in \<lparr>pl_total_calls = length calls,
          pl_allowed_calls = allowed_calls,
          pl_filtered_out_calls = length calls - allowed_calls,
          pl_destructive_calls = destructive_calls,
          pl_unknown_risk_calls = unknown_risk_calls,
          pl_redacted_placeholder_calls = redacted_placeholder_calls,
          pl_requires_acknowledgement = (destructive_calls > 0 \<or> redacted_placeholder_calls > 0),
          pl_calls = calls\<rparr>)"

definition build_plan :: "serde \<Rightarrow> stored_message list \<Rightarrow> string list \<Rightarrow> string list \<Rightarrow> plan" where
  "build_plan S source allow_tools deny_tools =
     plan_of (map (plan_call (observed_tool_annotations S source) allow_tools deny_tools) (driven_messages source))"

end
