(* ===== verification/Replay.thy ===== *)
theory Replay
  imports Plan Recorder
begin

text \<open>
  \<open>crates/mcptracer-proxy/src/commands/replay.rs\<close>: the recorded client messages are sent to a live
  server again, one request at a time; the server's own requests are answered from the recording.
  What the server does is an argument: the results of successive reads of its output, in which
  the expiry of the current wait is one, and which writes to its input succeed.
\<close>

section \<open>What is driven\<close>

definition expected_cancellation :: "serde \<Rightarrow> u64 \<Rightarrow> json \<Rightarrow> stored_message \<Rightarrow> bool" where
  "expected_cancellation S request_seq expected_rpc_id m \<longleftrightarrow>
     \<not> (msg_seq m \<le> request_seq \<or> msg_direction m \<noteq> ''c2s'' \<or> msg_kind m \<noteq> ''notification''
        \<or> msg_method m \<noteq> Some ''notifications/cancelled'')
     \<and> Option.bind (parse_json S (msg_payload m)) (\<lambda>payload. json_pointer S payload ''/params/requestId'')
         = Some expected_rpc_id"

definition cancellation_of :: "serde \<Rightarrow> stored_message list \<Rightarrow> exchange \<Rightarrow> (u64 \<times> stored_message) option" where
  "cancellation_of S messages e =
     (if ex_status e \<noteq> Cancelled then None
      else case (ex_request_seq e, ex_rpc_id e) of
        (Some request_seq, Some rpc_id) \<Rightarrow>
          (case parse_json S rpc_id of
             None \<Rightarrow> None
           | Some expected_rpc_id \<Rightarrow>
               map_option (Pair request_seq) (List.find (expected_cancellation S request_seq expected_rpc_id) messages))
      | _ \<Rightarrow> None)"

definition cancellation_notifications :: "serde \<Rightarrow> stored_message list \<Rightarrow> (u64, stored_message) btree" where
  "cancellation_notifications S messages =
     bt_collect (List.map_filter (cancellation_of S messages) (exchanges (correlate S messages)))"

definition recorded_answer :: "stored_message list \<Rightarrow> exchange \<Rightarrow> (string \<times> string) option" where
  "recorded_answer source e =
     (if ex_origin e \<noteq> ServerToClient then None
      else case (ex_rpc_id e, ex_response_seq e) of
        (Some rpc_id, Some response_seq) \<Rightarrow>
          map_option (\<lambda>m. (rpc_id, msg_payload m)) (List.find (\<lambda>m. msg_seq m = response_seq) source)
      | _ \<Rightarrow> None)"

definition server_initiated_responses :: "serde \<Rightarrow> stored_message list \<Rightarrow> (string, string) btree" where
  "server_initiated_responses S source =
     bt_collect (List.map_filter (recorded_answer source) (exchanges (correlate S source)))"

text \<open>
  The cancellations of driven requests; a request whose cancellation does not come right after it
  is an error (the loop runs over a hash map, whose order only decides which one is reported).
\<close>

fun adjacent_cancellations ::
  "stored_message list \<Rightarrow> (u64 \<times> stored_message) list \<Rightarrow> (u64, stored_message) btree
     \<Rightarrow> string + (u64, stored_message) btree" where
  "adjacent_cancellations driven [] cancellations = Inr cancellations"
| "adjacent_cancellations driven ((request_seq, cancellation) # rest) cancellations =
     (case position (\<lambda>m. msg_seq m = request_seq) driven of
        None \<Rightarrow> adjacent_cancellations driven rest cancellations
      | Some p \<Rightarrow>
          if (if p + 1 < length driven then Some (msg_seq (driven ! (p + 1))) else None)
               \<noteq> Some (msg_seq cancellation)
          then Inl (''cannot replay cancellation for request seq '' @ nat_dec request_seq
            @ '' because another client message precedes the cancellation; concurrent request replay is not supported'')
          else adjacent_cancellations driven rest (bt_insert request_seq cancellation cancellations))"

definition allowed_messages :: "stored_message list \<Rightarrow> string list \<Rightarrow> string list \<Rightarrow> stored_message list" where
  "allowed_messages source allow deny =
     filter (\<lambda>m. tool_is_allowed (msg_tool_name m) allow deny) (driven_messages source)"

definition keep_message :: "(u64, stored_message) btree \<Rightarrow> stored_message \<Rightarrow> bool" where
  "keep_message cancellations m \<longleftrightarrow>
     msg_method m \<noteq> Some ''notifications/cancelled'' \<or> msg_seq m \<in> set (map (msg_seq \<circ> snd) cancellations)"

definition replay_calls ::
  "serde \<Rightarrow> stored_message list \<Rightarrow> string list \<Rightarrow> string list
     \<Rightarrow> string + stored_message list \<times> (u64, stored_message) btree" where
  "replay_calls S source allow deny =
     (let driven = allowed_messages source allow deny
      in case adjacent_cancellations driven (cancellation_notifications S source) [] of
           Inl e \<Rightarrow> Inl e
         | Inr cancellations \<Rightarrow>
             let kept = filter (keep_message cancellations) driven
             in if kept = []
                then Inl ''source session has no client-originated requests or notifications to replay (after any --allow-tool/--deny-tool filtering)''
                else Inr (kept, cancellations))"

section \<open>Warnings\<close>

definition call_label :: "stored_message \<Rightarrow> string option" where
  "call_label m =
     (case (msg_method m, msg_tool_name m) of
        (Some method, Some tool) \<Rightarrow> Some (method @ '' '' @ tool)
      | (Some method, None) \<Rightarrow> Some method
      | (None, _) \<Rightarrow> None)"

definition side_effect_counts :: "stored_message list \<Rightarrow> (string, usize) btree" where
  "side_effect_counts driven = foldl bump [] (List.map_filter call_label driven)"

definition redacted_replay_counts :: "stored_message list \<Rightarrow> (string, usize) btree" where
  "redacted_replay_counts driven =
     side_effect_counts (filter (\<lambda>m. str_contains (msg_payload m) REDACTED_PLACEHOLDER) driven)"

section \<open>Sending and recording\<close>

text \<open>What the run depends on: the codec, the clock, which writes succeed, and the options.\<close>

record replay_env =
  re_serde :: serde
  re_clock :: "u64 \<Rightarrow> i64"
  re_writes :: "u64 \<Rightarrow> bool"
  re_strict :: bool
  re_realtime :: bool

datatype read_result = Expired | ServerClosed | ReadFailed | ServerBytes bytes

text \<open>The recorder, the bytes read but not yet parsed, and the server's behaviour to come.\<close>

record live =
  lv_pump :: pump
  lv_buf :: bytes
  lv_reads :: "read_result list"

datatype 'a outcome = Failed string | Returned 'a

definition send_frame :: "replay_env \<Rightarrow> json \<Rightarrow> live \<Rightarrow> live option" where
  "send_frame env v l =
     (if re_writes env (pm_seq (lv_pump l))
      then Some (l\<lparr>lv_pump := (lv_pump l)\<lparr>pm_forwarded := pm_forwarded (lv_pump l)
             @ encode_stdio_frame (re_serde env) v\<rparr>\<rparr>)
      else None)"

definition record_value :: "replay_env \<Rightarrow> direction \<Rightarrow> json \<Rightarrow> usize \<Rightarrow> live \<Rightarrow> mcp_message \<times> live" where
  "record_value env d v n l =
     (let (sq, p) = reserve_capture_stamp (lv_pump l);
          m = \<lparr>m_seq = sq, m_timestamp_ns = re_clock env sq, m_direction = d, m_payload = v, m_payload_bytes = n\<rparr>
      in (m, l\<lparr>lv_pump := try_record p m\<rparr>))"

definition send_and_record :: "replay_env \<Rightarrow> json \<Rightarrow> live \<Rightarrow> (mcp_message \<times> live) option" where
  "send_and_record env v l =
     map_option (record_value env ClientToServer v (length (print_json (re_serde env) v))) (send_frame env v l)"

definition not_supported :: "json \<Rightarrow> json" where
  "not_supported request =
     JObject [(''error'', JObject [(''code'', JNumber (NegInt (- 32601))),
                (''message'', JString ''method not supported by mcptracer replay'')]),
              (''id'', case json_get request ''id'' of Some i \<Rightarrow> i | None \<Rightarrow> JNull),
              (''jsonrpc'', JString ''2.0'')]"

definition answer_for :: "replay_env \<Rightarrow> (string, string) btree \<Rightarrow> json \<Rightarrow> string \<Rightarrow> json outcome" where
  "answer_for env lookaside request request_id =
     (case bt_get lookaside request_id of
        Some payload \<Rightarrow>
          (case parse_json (re_serde env) payload of
             Some v \<Rightarrow> Returned v
           | None \<Rightarrow> Failed ''stored source response is not valid JSON'')
      | None \<Rightarrow>
          if re_strict env
          then Failed ''server sent a request the source session never answered''
          else Returned (not_supported request))"

definition handle_server_request ::
  "replay_env \<Rightarrow> (string, string) btree \<Rightarrow> json \<Rightarrow> live \<Rightarrow> unit outcome \<times> live" where
  "handle_server_request env lookaside request l =
     (case map_option (print_json (re_serde env)) (json_get request ''id'') of
        None \<Rightarrow> (Returned (), l)
      | Some request_id \<Rightarrow>
          (case answer_for env lookaside request request_id of
             Failed e \<Rightarrow> (Failed e, l)
           | Returned response \<Rightarrow>
               (case send_and_record env response l of
                  None \<Rightarrow> (Failed ''failed to write to server stdin'', l)
                | Some (_, l') \<Rightarrow> (Returned (), l'))))"

section \<open>Waiting for a response\<close>

lemma record_value_buf [simp]: "lv_buf (snd (record_value env d v n l)) = lv_buf l"
  and record_value_reads [simp]: "lv_reads (snd (record_value env d v n l)) = lv_reads l"
  by (simp_all add: record_value_def Let_def split: prod.split)

lemma send_and_record_buf: "send_and_record env v l = Some (m, l') \<Longrightarrow> lv_buf l' = lv_buf l \<and> lv_reads l' = lv_reads l"
  by (auto simp: send_and_record_def send_frame_def record_value_def Let_def split: if_splits prod.splits)

lemma handle_server_request_buf:
  "handle_server_request env lookaside request l = (r, l') \<Longrightarrow> lv_buf l' = lv_buf l \<and> lv_reads l' = lv_reads l"
  by (auto simp: handle_server_request_def dest: send_and_record_buf split: option.splits outcome.splits)

lemma take_frames_shrinks:
  assumes "parse_stdio_frame (lv_buf l) = Inr (Some frame)" "(m, l1) = record_value env d v n l"
    "(r, l3) = (if c then handle_server_request env lookaside v (l1\<lparr>lv_buf := drop (consumed frame) (lv_buf l1)\<rparr>)
       else (x, l1\<lparr>lv_buf := drop (consumed frame) (lv_buf l1)\<rparr>))"
  shows "length (lv_buf l3) < length (lv_buf l)"
proof -
  have "lv_buf l1 = lv_buf l" using assms(2) by (metis record_value_buf snd_conv)
  moreover have "lv_buf l3 = drop (consumed frame) (lv_buf l1)"
    using assms(3) handle_server_request_buf by (auto split: if_splits) (metis live.select_convs(2) live.surjective live.update_convs(2))
  ultimately show ?thesis using parse_stdio_frame_consumed[OF assms(1)] by auto
qed

text \<open>The inner loop: every complete frame in the buffer, until the expected response.\<close>

function take_frames ::
  "replay_env \<Rightarrow> (string, string) btree \<Rightarrow> string \<Rightarrow> live \<Rightarrow> bool outcome \<times> live" where
  "take_frames env lookaside expected l =
     (case parse_stdio_frame (lv_buf l) of
        Inl EmptyFrame \<Rightarrow> (Failed ''empty frame'', l)
      | Inr None \<Rightarrow> (Returned False, l)
      | Inr (Some frame) \<Rightarrow>
          (case parse_json_payload (re_serde env) (json_bytes frame) of
             Inl InvalidJson \<Rightarrow> (Failed ''invalid JSON'', l)
           | Inr v \<Rightarrow>
               let (m, l1) = record_value env ServerToClient v (length (json_bytes frame)) l;
                   matched = (m_kind m = Response \<and> id_json (re_serde env) m = Some expected);
                   l2 = l1\<lparr>lv_buf := drop (consumed frame) (lv_buf l1)\<rparr>
               in case (if m_kind m = Request then handle_server_request env lookaside v l2 else (Returned (), l2)) of
                    (Failed e, l3) \<Rightarrow> (Failed e, l3)
                  | (Returned _, l3) \<Rightarrow>
                      if matched then (Returned True, l3) else take_frames env lookaside expected l3))"
  by pat_completeness auto

termination
  by (relation "measure (\<lambda>(env, lookaside, expected, l). length (lv_buf l))")
    (auto simp only: wf_measure in_measure prod.case intro: take_frames_shrinks)

declare take_frames.simps [simp del]

text \<open>
  The outer loop: a read that brings bytes goes on; the expiry of the wait and the end of the output
  return without a response; past the frame limit the run fails.  When \<open>lv_reads\<close> is used up the
  wait expires.
\<close>

fun wait_loop ::
  "replay_env \<Rightarrow> (string, string) btree \<Rightarrow> string \<Rightarrow> live \<Rightarrow> read_result list \<Rightarrow> bool outcome \<times> live" where
  "wait_loop env lookaside expected l reads =
     (case take_frames env lookaside expected l of
        (Failed e, l1) \<Rightarrow> (Failed e, l1\<lparr>lv_reads := reads\<rparr>)
      | (Returned True, l1) \<Rightarrow> (Returned True, l1\<lparr>lv_reads := reads\<rparr>)
      | (Returned False, l1) \<Rightarrow>
          (case reads of
             [] \<Rightarrow> (Returned False, l1\<lparr>lv_reads := []\<rparr>)
           | Expired # rest \<Rightarrow> (Returned False, l1\<lparr>lv_reads := rest\<rparr>)
           | ServerClosed # rest \<Rightarrow> (Returned False, l1\<lparr>lv_reads := rest\<rparr>)
           | ReadFailed # rest \<Rightarrow> (Failed ''failed to read server stdout'', l1\<lparr>lv_reads := rest\<rparr>)
           | ServerBytes bs # rest \<Rightarrow>
               let l2 = l1\<lparr>lv_buf := lv_buf l1 @ bs\<rparr>
               in if length (lv_buf l2) > MAX_FRAME_BYTES
                  then (Failed ''server frame exceeded the limit without a newline'', l2\<lparr>lv_reads := rest\<rparr>)
                  else wait_loop env lookaside expected l2 rest))"

declare wait_loop.simps [simp del]

definition wait_for_response ::
  "replay_env \<Rightarrow> (string, string) btree \<Rightarrow> string \<Rightarrow> live \<Rightarrow> bool outcome \<times> live" where
  "wait_for_response env lookaside expected l = wait_loop env lookaside expected l (lv_reads l)"

section \<open>Driving\<close>

text \<open>
  A cancelled request: in realtime mode the server may still send for the recorded interval; then
  the cancellation is sent without waiting for a response.
\<close>

definition send_cancellation ::
  "replay_env \<Rightarrow> (string, string) btree \<Rightarrow> stored_message \<Rightarrow> string \<Rightarrow> stored_message \<Rightarrow> live \<Rightarrow> unit outcome \<times> live" where
  "send_cancellation env lookaside request rpc_id cancel l =
     (case (if re_realtime env \<and> msg_ts_ns cancel - msg_ts_ns request > 0
            then wait_for_response env lookaside rpc_id l else (Returned False, l)) of
        (Failed e, l1) \<Rightarrow> (Failed e, l1)
      | (Returned _, l1) \<Rightarrow>
          (case parse_json (re_serde env) (msg_payload cancel) of
             None \<Rightarrow> (Failed ''cancellation message is not valid JSON'', l1)
           | Some v \<Rightarrow>
               (case send_and_record env v l1 of
                  None \<Rightarrow> (Failed ''failed to write to server stdin'', l1)
                | Some (_, l2) \<Rightarrow> (Returned (), l2))))"

text \<open>One driven message: the sequence number of the cancellation sent with it, if any.\<close>

definition drive_message ::
  "replay_env \<Rightarrow> (u64, stored_message) btree \<Rightarrow> (string, string) btree \<Rightarrow> stored_message \<Rightarrow> live
     \<Rightarrow> u64 option outcome \<times> live" where
  "drive_message env cancellations lookaside msg l =
     (case parse_json (re_serde env) (msg_payload msg) of
        None \<Rightarrow> (Failed ''source message is not valid JSON'', l)
      | Some v \<Rightarrow>
          (case send_and_record env v l of
             None \<Rightarrow> (Failed ''failed to write to server stdin'', l)
           | Some (sent, l1) \<Rightarrow>
               (case (m_kind sent = Request, id_json (re_serde env) sent) of
                  (True, Some rpc_id) \<Rightarrow>
                    (case bt_get cancellations (msg_seq msg) of
                       Some cancel \<Rightarrow>
                         (case send_cancellation env lookaside msg rpc_id cancel l1 of
                            (Failed e, l2) \<Rightarrow> (Failed e, l2)
                          | (Returned _, l2) \<Rightarrow> (Returned (Some (msg_seq cancel)), l2))
                     | None \<Rightarrow>
                         (case wait_for_response env lookaside rpc_id l1 of
                            (Failed e, l2) \<Rightarrow> (Failed e, l2)
                          | (Returned _, l2) \<Rightarrow> (Returned None, l2)))
                | _ \<Rightarrow> (Returned None, l1))))"

fun drive ::
  "replay_env \<Rightarrow> (u64, stored_message) btree \<Rightarrow> (string, string) btree \<Rightarrow> u64 list \<Rightarrow> stored_message list \<Rightarrow> live
     \<Rightarrow> unit outcome \<times> live" where
  "drive env cancellations lookaside sent_cancellations [] l = (Returned (), l)"
| "drive env cancellations lookaside sent_cancellations (msg # msgs) l =
     (if msg_seq msg \<in> set sent_cancellations then drive env cancellations lookaside sent_cancellations msgs l
      else case drive_message env cancellations lookaside msg l of
        (Failed e, l1) \<Rightarrow> (Failed e, l1)
      | (Returned None, l1) \<Rightarrow> drive env cancellations lookaside sent_cancellations msgs l1
      | (Returned (Some c), l1) \<Rightarrow> drive env cancellations lookaside (c # sent_cancellations) msgs l1)"

text \<open>The run, up to the processes and the storage writer around it.\<close>

definition replay ::
  "replay_env \<Rightarrow> stored_message list \<Rightarrow> string list \<Rightarrow> string list \<Rightarrow> live \<Rightarrow> unit outcome \<times> live" where
  "replay env source allow deny l =
     (if source = [] then (Failed ''source session has no recorded messages'', l)
      else case replay_calls (re_serde env) source allow deny of
        Inl e \<Rightarrow> (Failed e, l)
      | Inr (driven, cancellations) \<Rightarrow>
          drive env cancellations (server_initiated_responses (re_serde env) source) [] driven l)"

end
