(* ===== verification/PlanProps.thy ===== *)
theory PlanProps
  imports Plan "HOL-Library.Sublist"
begin

text \<open>What a plan says: the order of the driven messages, the counts, and when it asks for an acknowledgement.\<close>

section \<open>The order of the driven messages\<close>

lemma driven_messages_cases:
  "(\<exists>pre i post. filter is_driven source = pre @ i # post \<and> is_initialize i \<and> (\<forall>m \<in> set pre. \<not> is_initialize m)
      \<and> driven_messages source = i # pre @ post)
   \<or> ((\<forall>m \<in> set (filter is_driven source). \<not> is_initialize m) \<and> driven_messages source = filter is_driven source)"
proof (cases "position is_initialize (filter is_driven source)")
  case (Some n)
  let ?d = "filter is_driven source"
  note p = position_split[OF Some]
  have "driven_messages source = ?d ! n # take n ?d @ drop (Suc n) ?d"
    using Some p position_Some[OF Some] by (cases "n = 0") (auto simp: driven_messages_def Let_def Cons_nth_drop_Suc)
  then show ?thesis using p by blast
next
  case None
  then have "driven_messages source = filter is_driven source" by (simp add: driven_messages_def)
  moreover have "\<forall>m \<in> set (filter is_driven source). \<not> is_initialize m" using None by (simp only: position_None)
  ultimately show ?thesis by blast
qed

lemma mset_driven_messages: "mset (driven_messages source) = mset (filter is_driven source)"
  using driven_messages_cases[of source]
  by (elim disjE exE conjE) (simp_all only: mset.simps mset_append union_mset_add_mset_left union_mset_add_mset_right)

lemma set_driven_messages: "set (driven_messages source) = {m \<in> set source. is_driven m}"
  using arg_cong[OF mset_driven_messages[of source], of set_mset] by simp

lemma initialize_first:
  "filter (\<lambda>m. \<not> is_initialize m) (driven_messages source) = filter (\<lambda>m. is_driven m \<and> \<not> is_initialize m) source
   \<and> filter is_initialize (driven_messages source) = filter (\<lambda>m. is_driven m \<and> is_initialize m) source
   \<and> ((\<exists>m \<in> set source. is_driven m \<and> is_initialize m) \<longleftrightarrow>
        driven_messages source \<noteq> [] \<and> is_initialize (hd (driven_messages source)))"
proof -
  have eqs: "filter (\<lambda>m. is_driven m \<and> \<not> is_initialize m) source = filter (\<lambda>m. \<not> is_initialize m) (filter is_driven source)"
    "filter (\<lambda>m. is_driven m \<and> is_initialize m) source = filter is_initialize (filter is_driven source)"
    by (simp_all add: conj_commute)
  have ex: "(\<exists>m \<in> set source. is_driven m \<and> is_initialize m) \<longleftrightarrow> (\<exists>m \<in> set (filter is_driven source). is_initialize m)" by auto
  from driven_messages_cases[of source] show ?thesis
  proof (elim disjE exE conjE)
    fix pre i post
    assume d: "filter is_driven source = pre @ i # post" "is_initialize i" "\<forall>m \<in> set pre. \<not> is_initialize m"
      "driven_messages source = i # pre @ post"
    then have "filter is_initialize pre = []" by (simp add: filter_empty_conv)
    with d(2) show ?thesis unfolding eqs ex d(1,4) by simp
  next
    assume d: "\<forall>m \<in> set (filter is_driven source). \<not> is_initialize m" "driven_messages source = filter is_driven source"
    then show ?thesis unfolding eqs ex d(2)
      by (metis list.set_sel(1) filter_is_subset)
  qed
qed

section \<open>The last listing of a tool\<close>

definition last_listing :: "serde \<Rightarrow> stored_message list \<Rightarrow> string \<Rightarrow> json option" where
  "last_listing S source name =
     List.find (\<lambda>tool. get_str tool ''name'' = Some name) (rev (concat (map (listed_tools S) source)))"

lemma insert_tools:
  "bt_wf t \<Longrightarrow> bt_wf (foldl insert_tool t tools) \<and>
   bt_get (foldl insert_tool t tools) name =
     (case List.find (\<lambda>tool. get_str tool ''name'' = Some name) (rev tools) of
        Some tool \<Rightarrow> Some (case json_get tool ''annotations'' of Some v \<Rightarrow> annotations_from_value v | None \<Rightarrow> no_annotations)
      | None \<Rightarrow> bt_get t name)"
proof (induction tools rule: rev_induct)
  case (snoc tool tools)
  then show ?case
    by (auto simp: insert_tool_def bt.get_insert bt.wf_insert split: option.splits)
qed simp

lemma foldl_foldl: "foldl (\<lambda>a m. foldl f a (g m)) a ms = foldl f a (concat (map g ms))"
  by (induction ms arbitrary: a) auto

lemma observed_last_listing:
  "bt_get (observed_tool_annotations S source) name =
     map_option (\<lambda>tool. case json_get tool ''annotations'' of Some v \<Rightarrow> annotations_from_value v | None \<Rightarrow> no_annotations)
       (last_listing S source name)"
proof -
  have "observed_tool_annotations S source = foldl insert_tool [] (concat (map (listed_tools S) source))"
    unfolding observed_tool_annotations_def by (rule foldl_foldl)
  then show ?thesis
    using insert_tools[of "[]" "concat (map (listed_tools S) source)" name]
    by (auto simp: last_listing_def bt.get_empty split: option.splits)
qed

section \<open>The plan\<close>

definition declared_destructive :: "serde \<Rightarrow> stored_message list \<Rightarrow> stored_message \<Rightarrow> bool" where
  "declared_destructive S source m \<longleftrightarrow>
     (\<exists>name tool hints. msg_tool_name m = Some name \<and> last_listing S source name = Some tool
        \<and> json_get tool ''annotations'' = Some hints
        \<and> Option.bind (json_get hints ''destructiveHint'') as_bool = Some True)"

lemma risk_destructive:
  "risk_for (msg_tool_name m) (Option.bind (msg_tool_name m) (bt_get (observed_tool_annotations S source))) = RiskDestructive
   \<longleftrightarrow> declared_destructive S source m"
  by (auto simp: risk_for_def declared_destructive_def observed_last_listing annotations_from_value_def no_annotations_def
      split: option.splits)

lemma length_filter_pos: "0 < length (filter P xs) \<longleftrightarrow> (\<exists>x \<in> set xs. P x)"
  by (simp add: filter_empty_conv)

text \<open>
  A plan lists exactly the client's requests and notifications, the first \<open>initialize\<close> before
  everything else and the others in recorded order; its counts partition them; it asks for an
  acknowledgement exactly when some call that passes the filters has a payload with the redaction
  placeholder or is of a tool whose last listing in the session declares it destructive.
\<close>

theorem plan_exact:
  "map pc_seq (pl_calls (build_plan S source allow deny)) = map msg_seq (driven_messages source)
   \<and> filter (\<lambda>m. \<not> is_initialize m) (driven_messages source) = filter (\<lambda>m. is_driven m \<and> \<not> is_initialize m) source
   \<and> filter is_initialize (driven_messages source) = filter (\<lambda>m. is_driven m \<and> is_initialize m) source
   \<and> ((\<exists>m \<in> set source. is_driven m \<and> is_initialize m) \<longleftrightarrow>
        driven_messages source \<noteq> [] \<and> is_initialize (hd (driven_messages source)))
   \<and> pl_allowed_calls (build_plan S source allow deny) + pl_filtered_out_calls (build_plan S source allow deny)
        = pl_total_calls (build_plan S source allow deny)
   \<and> pl_total_calls (build_plan S source allow deny) = length (driven_messages source)
   \<and> (pl_requires_acknowledgement (build_plan S source allow deny) \<longleftrightarrow>
        (\<exists>m \<in> set source. is_driven m \<and> tool_is_allowed (msg_tool_name m) allow deny
           \<and> (declared_destructive S source m \<or> str_contains (msg_payload m) REDACTED_PLACEHOLDER)))"
proof -
  let ?f = "plan_call (observed_tool_annotations S source) allow deny"
  have seqs: "map pc_seq (map ?f ms) = map msg_seq ms" for ms by (simp add: plan_call_def Let_def)
  have ack: "pl_requires_acknowledgement (build_plan S source allow deny) \<longleftrightarrow>
      (\<exists>m \<in> set (driven_messages source). pc_allowed (?f m) \<and> (pc_risk (?f m) = RiskDestructive \<or> pc_contains_redacted_placeholder (?f m)))"
    by (simp only: build_plan_def plan_of_def Let_def plan.simps length_filter_pos set_map) blast
  have counts: "pl_allowed_calls (plan_of cs) + pl_filtered_out_calls (plan_of cs) = pl_total_calls (plan_of cs)"
    "pl_total_calls (plan_of cs) = length cs" "pl_calls (plan_of cs) = cs" for cs
    by (simp_all add: plan_of_def Let_def)
  show ?thesis
    unfolding ack
    by (intro conjI) (use initialize_first[of source] in \<open>auto simp: build_plan_def counts seqs set_driven_messages
      plan_call_def Let_def risk_destructive\<close>)
qed

end
