(* ===== verification/ReplayProps.thy ===== *)
theory ReplayProps
  imports Replay PlanProps Capture
begin

text \<open>
  What a replay sends: the recorded client messages that pass the filters, in the planned order, and
  answers the recording holds for the server's own requests; nothing else.
\<close>

section \<open>Frames sent\<close>

datatype sent = Driven stored_message | Answer json

text \<open>What the frame of a driven message, and of an answer to a server's request, must carry.\<close>

definition carries :: "replay_env \<Rightarrow> (string, string) btree \<Rightarrow> sent \<Rightarrow> json \<Rightarrow> bool" where
  "carries env lookaside s v \<longleftrightarrow>
     (case s of
        Driven m \<Rightarrow> parse_json (re_serde env) (msg_payload m) = Some v
      | Answer request \<Rightarrow> \<exists>rid. json_get request ''id'' = Some rid
          \<and> (case bt_get lookaside (print_json (re_serde env) rid) of
                Some payload \<Rightarrow> parse_json (re_serde env) payload = Some v
              | None \<Rightarrow> \<not> re_strict env \<and> v = not_supported request))"

definition sends :: "replay_env \<Rightarrow> (string, string) btree \<Rightarrow> live \<Rightarrow> (sent \<times> json) list \<Rightarrow> live \<Rightarrow> bool" where
  "sends env lookaside l ss l' \<longleftrightarrow>
     pm_forwarded (lv_pump l') = pm_forwarded (lv_pump l) @ concat (map (encode_stdio_frame (re_serde env) \<circ> snd) ss)
     \<and> (\<forall>(s, v) \<in> set ss. carries env lookaside s v)"

fun driven_part :: "(sent \<times> json) list \<Rightarrow> stored_message list" where
  "driven_part [] = []"
| "driven_part ((Driven m, _) # ss) = m # driven_part ss"
| "driven_part ((Answer _, _) # ss) = driven_part ss"

fun answer_part :: "(sent \<times> json) list \<Rightarrow> json list" where
  "answer_part [] = []"
| "answer_part ((Driven m, _) # ss) = answer_part ss"
| "answer_part ((Answer request, _) # ss) = request # answer_part ss"

lemma answer_part_append [simp]: "answer_part (ss @ ts) = answer_part ss @ answer_part ts"
  by (induction ss rule: answer_part.induct) auto

lemma driven_part_append [simp]: "driven_part (ss @ ts) = driven_part ss @ driven_part ts"
  by (induction ss rule: driven_part.induct) auto

lemma sends_refl: "pm_forwarded (lv_pump l') = pm_forwarded (lv_pump l) \<Longrightarrow> sends env lookaside l [] l'"
  by (simp add: sends_def)

lemma sends_trans: "sends env lookaside l ss l' \<Longrightarrow> sends env lookaside l' ts l'' \<Longrightarrow> sends env lookaside l (ss @ ts) l''"
  by (auto simp: sends_def)

lemma sends_update [simp]:
  "sends env lookaside (l\<lparr>lv_buf := b\<rparr>) ss l' \<longleftrightarrow> sends env lookaside l ss l'"
  "sends env lookaside (l\<lparr>lv_reads := r\<rparr>) ss l' \<longleftrightarrow> sends env lookaside l ss l'"
  "sends env lookaside l ss (l'\<lparr>lv_buf := b\<rparr>) \<longleftrightarrow> sends env lookaside l ss l'"
  "sends env lookaside l ss (l'\<lparr>lv_reads := r\<rparr>) \<longleftrightarrow> sends env lookaside l ss l'"
  by (simp_all add: sends_def)

lemma try_record_forwarded [simp]: "pm_forwarded (try_record p m) = pm_forwarded p"
  by (auto simp: try_record_def count_drop_def Let_def split: option.splits)

lemma record_value_sends: "record_value env d v n l = (m, l') \<Longrightarrow> sends env lookaside l [] l'"
  by (rule sends_refl) (auto simp: record_value_def reserve_capture_stamp_def Let_def)

lemma send_and_record_sends:
  assumes "send_and_record env v l = Some (m, l')" "carries env lookaside s v"
  shows "sends env lookaside l [(s, v)] l'" "m_payload m = v"
  using assms by (auto simp: send_and_record_def send_frame_def record_value_def reserve_capture_stamp_def Let_def
      sends_def split: if_splits)

section \<open>Frames heard\<close>

text \<open>
  What the server wrote, as lines that each hold a JSON value: the bytes still buffered and those of
  the reads that were used up are exactly these lines and the buffer left over.
\<close>

definition written :: "read_result list \<Rightarrow> bytes" where
  "written reads = concat (map (\<lambda>r. case r of ServerBytes bs \<Rightarrow> bs | _ \<Rightarrow> []) reads)"

definition json_line :: "serde \<Rightarrow> bytes \<Rightarrow> json \<Rightarrow> bool" where
  "json_line S raw v \<longleftrightarrow> (\<exists>line. raw = line @ [nl] \<and> nl \<notin> set line \<and> parse_json S (strip_cr line) = Some v)"

definition hears :: "serde \<Rightarrow> bytes \<Rightarrow> read_result list \<Rightarrow> json list \<Rightarrow> bytes \<Rightarrow> read_result list \<Rightarrow> bool" where
  "hears S buf reads hs buf' reads' \<longleftrightarrow>
     (\<exists>raws used. reads = used @ reads' \<and> buf @ written used = concat raws @ buf' \<and> list_all2 (json_line S) raws hs)"

text \<open>A message of the server that asks for an answer: a request with an identifier.\<close>

definition asks :: "json \<Rightarrow> bool" where
  "asks v \<longleftrightarrow> json_get v ''id'' \<noteq> None \<and> Option.bind (json_get v ''method'') as_str \<noteq> None"

lemma written_append [simp]: "written (rs @ ts) = written rs @ written ts"
  by (simp add: written_def)

lemma hears_refl [simp]: "hears S buf reads [] buf reads"
  unfolding hears_def by (intro exI[of _ "[]"]) (simp add: written_def)

lemma hears_trans:
  assumes "hears S buf reads hs buf1 reads1" "hears S buf1 reads1 gs buf2 reads2"
  shows "hears S buf reads (hs @ gs) buf2 reads2"
proof -
  from assms obtain raws used raws' used' where
    "reads = used @ reads1" "buf @ written used = concat raws @ buf1" "list_all2 (json_line S) raws hs"
    "reads1 = used' @ reads2" "buf1 @ written used' = concat raws' @ buf2" "list_all2 (json_line S) raws' gs"
    unfolding hears_def by blast
  moreover from this have "buf @ written (used @ used') = concat (raws @ raws') @ buf2"
    by (metis append.assoc concat_append written_append)
  ultimately show ?thesis
    unfolding hears_def by (intro exI[of _ "raws @ raws'"] exI[of _ "used @ used'"]) (auto intro: list_all2_appendI)
qed

lemma hears_frame:
  assumes "parse_stdio_frame buf = Inr (Some frame)" "parse_json_payload S (json_bytes frame) = Inr v"
  shows "hears S buf reads [v] (drop (consumed frame) buf) reads"
proof -
  have "nl \<in> set buf" using assms(1) parse_stdio_frame_pending[of buf] by auto
  then obtain body rest where b: "buf = body @ nl # rest" "nl \<notin> set body" using split_first_line by blast
  then have "json_line S (body @ [nl]) v" "drop (consumed frame) buf = rest"
    using assms by (auto simp: json_line_def parse_stdio_frame_line[OF b(2)] parse_json_payload_def split: if_splits option.splits)
  then show ?thesis
    unfolding hears_def using b by (intro exI[of _ "[body @ [nl]]"] exI[of _ "[]"]) (simp add: written_def)
qed

lemma hears_read:
  "hears S buf (r # reads) [] (case r of ServerBytes bs \<Rightarrow> buf @ bs | _ \<Rightarrow> buf) reads"
  unfolding hears_def by (intro exI[of _ "[]"] exI[of _ "[r]"]) (simp add: written_def split: read_result.split)

section \<open>Parts of a run\<close>

text \<open>
  A part of a run: what it sent and heard, with every request it heard answered, in order, but for
  the one a failing part ends at.
\<close>

definition part ::
  "replay_env \<Rightarrow> (string, string) btree \<Rightarrow> bool \<Rightarrow> live \<Rightarrow> read_result list \<Rightarrow> (sent \<times> json) list \<Rightarrow> json list
     \<Rightarrow> live \<Rightarrow> read_result list \<Rightarrow> bool" where
  "part env lookaside failed l reads ss hs l' reads' \<longleftrightarrow>
     sends env lookaside l ss l' \<and> hears (re_serde env) (lv_buf l) reads hs (lv_buf l') reads'
     \<and> (answer_part ss = filter asks hs \<or> failed \<and> (\<exists>v. filter asks hs = answer_part ss @ [v]))"

lemma part_refl [simp]: "part env lookaside failed l reads [] [] l reads"
  by (simp add: part_def sends_refl)

lemma part_trans:
  assumes "part env lookaside False l reads ss hs l1 reads1" "part env lookaside failed l1 reads1 ts gs l2 reads2"
  shows "part env lookaside failed l reads (ss @ ts) (hs @ gs) l2 reads2"
  using assms sends_trans hears_trans unfolding part_def by fastforce

lemma part_failed: "part env lookaside False l reads ss hs l' reads' \<Longrightarrow> part env lookaside failed l reads ss hs l' reads'"
  by (auto simp: part_def)

text \<open>Only answers are sent between two driven messages.\<close>

definition answers_only ::
  "replay_env \<Rightarrow> (string, string) btree \<Rightarrow> bool \<Rightarrow> live \<Rightarrow> read_result list \<Rightarrow> live \<Rightarrow> read_result list \<Rightarrow> bool" where
  "answers_only env lookaside failed l reads l' reads' \<longleftrightarrow>
     (\<exists>ss hs. part env lookaside failed l reads ss hs l' reads' \<and> driven_part ss = [])"

lemma answers_only_refl [simp]: "answers_only env lookaside failed l reads l reads"
  unfolding answers_only_def by (rule exI[of _ "[]"], rule exI[of _ "[]"]) simp

lemma answers_only_trans:
  assumes "answers_only env lookaside False l reads l1 reads1" "answers_only env lookaside failed l1 reads1 l2 reads2"
  shows "answers_only env lookaside failed l reads l2 reads2"
proof -
  from assms obtain ss hs ts gs where "part env lookaside False l reads ss hs l1 reads1"
    "part env lookaside failed l1 reads1 ts gs l2 reads2" "driven_part ss = []" "driven_part ts = []"
    unfolding answers_only_def by blast
  with part_trans show ?thesis
    unfolding answers_only_def by (intro exI[of _ "ss @ ts"] exI[of _ "hs @ gs"]) simp
qed

lemma answers_only_failed: "answers_only env lookaside False l reads l' reads' \<Longrightarrow> answers_only env lookaside failed l reads l' reads'"
  unfolding answers_only_def using part_failed by blast

lemma answers_only_reads [simp]:
  "answers_only env lookaside failed l reads (l'\<lparr>lv_reads := r\<rparr>) reads' \<longleftrightarrow> answers_only env lookaside failed l reads l' reads'"
  by (simp add: answers_only_def part_def)

lemma answers_only_read:
  "answers_only env lookaside failed l (ServerBytes bs # reads) (l\<lparr>lv_buf := lv_buf l @ bs\<rparr>) reads"
  "\<forall>bs. r \<noteq> ServerBytes bs \<Longrightarrow> answers_only env lookaside failed l (r # reads) l reads"
  unfolding answers_only_def part_def using hears_read[of "re_serde env" "lv_buf l" "ServerBytes bs" reads]
    hears_read[of "re_serde env" "lv_buf l" r reads]
  by (auto intro!: exI[of _ "[]"] simp: sends_refl split: read_result.splits)

text \<open>One frame: recorded, taken from the buffer, and answered when it is a request.\<close>

lemma record_value_m: "record_value env d v n l = (m, l') \<Longrightarrow> m_payload m = v \<and> lv_buf l' = lv_buf l"
  by (auto simp: record_value_def reserve_capture_stamp_def Let_def)

lemma request_asks: "m_kind m = Request \<and> json_get (m_payload m) ''id'' \<noteq> None \<longleftrightarrow> asks (m_payload m)"
  by (auto simp: m_kind_def is_response_def is_notification_def m_id_def m_method_def asks_def split: if_splits)

lemma frame_answers:
  assumes "parse_stdio_frame (lv_buf l) = Inr (Some frame)" "parse_json_payload (re_serde env) (json_bytes frame) = Inr v"
    and "record_value env ServerToClient v n l = (m, l1)"
    and "(if m_kind m = Request then handle_server_request env lookaside v (l1\<lparr>lv_buf := drop (consumed frame) (lv_buf l1)\<rparr>)
       else (Returned (), l1\<lparr>lv_buf := drop (consumed frame) (lv_buf l1)\<rparr>)) = (r, l3)"
  shows "answers_only env lookaside (r \<noteq> Returned ()) l reads l3 reads"
proof -
  let ?l2 = "l1\<lparr>lv_buf := drop (consumed frame) (lv_buf l1)\<rparr>"
  note m = record_value_m[OF assms(3)]
  have heard: "hears (re_serde env) (lv_buf l) reads [v] (lv_buf ?l2) reads" using hears_frame[OF assms(1,2)] m by simp
  have quiet: "sends env lookaside l [] ?l2" using record_value_sends[OF assms(3)] by simp
  show ?thesis
  proof (cases "asks v")
    case False
    then have "r = Returned () \<and> l3 = ?l2"
      using assms(4) request_asks[of m] m by (auto simp: handle_server_request_def split: if_splits)
    with False heard quiet show ?thesis
      unfolding answers_only_def part_def by (intro exI[of _ "[]"] exI[of _ "[v]"]) simp
  next
    case True
    with request_asks[of m] m have "m_kind m = Request" by simp
    with assms(4) have h: "handle_server_request env lookaside v ?l2 = (r, l3)" by simp
    from True obtain rid where id: "json_get v ''id'' = Some rid" by (auto simp: asks_def)
    show ?thesis
    proof (cases "r = Returned ()")
      case False
      with h id have "l3 = ?l2" by (auto simp: handle_server_request_def split: option.splits outcome.splits)
      with False True heard quiet show ?thesis
        unfolding answers_only_def part_def by (intro exI[of _ "[]"] exI[of _ "[v]"]) simp
    next
      case answered: True
      with h id obtain a sent where a: "answer_for env lookaside v (print_json (re_serde env) rid) = Returned a"
        and s: "send_and_record env a ?l2 = Some (sent, l3)"
        by (auto simp: handle_server_request_def split: option.splits outcome.splits)
      have "carries env lookaside (Answer v) a"
        using id a by (auto simp: carries_def answer_for_def split: option.splits if_splits)
      from sends_trans[OF quiet send_and_record_sends(1)[OF s this]] have "sends env lookaside l [(Answer v, a)] l3" by simp
      moreover have "lv_buf l3 = lv_buf ?l2" using send_and_record_buf[OF s] by simp
      ultimately show ?thesis
        unfolding answers_only_def part_def using True heard by (intro exI[of _ "[(Answer v, a)]"] exI[of _ "[v]"]) simp
    qed
  qed
qed

lemma take_frames_answers:
  "take_frames env lookaside expected l = (r, l') \<Longrightarrow> answers_only env lookaside (\<exists>e. r = Failed e) l reads l' reads"
proof (induction "length (lv_buf l)" arbitrary: l rule: less_induct)
  case less
  show ?case
  proof (cases "\<exists>frame v. parse_stdio_frame (lv_buf l) = Inr (Some frame)
      \<and> parse_json_payload (re_serde env) (json_bytes frame) = Inr v")
    case True
    then obtain frame v where f: "parse_stdio_frame (lv_buf l) = Inr (Some frame)"
      and v: "parse_json_payload (re_serde env) (json_bytes frame) = Inr v" by blast
    obtain m l1 where rec: "record_value env ServerToClient v (length (json_bytes frame)) l = (m, l1)" by fastforce
    let ?l2 = "l1\<lparr>lv_buf := drop (consumed frame) (lv_buf l1)\<rparr>"
    obtain x l3 where h: "(if m_kind m = Request then handle_server_request env lookaside v ?l2 else (Returned (), ?l2)) = (x, l3)"
      by fastforce
    note a = frame_answers[OF f v rec h, of reads]
    have shrinks: "length (lv_buf l3) < length (lv_buf l)"
      using take_frames_shrinks[OF f rec[symmetric] h[symmetric]] .
    show ?thesis
    proof (cases "x = Returned ()")
      case False
      with less.prems show ?thesis
        using a by (cases x) (auto simp: take_frames.simps[of env lookaside expected l] f v rec h)
    next
      case True
      with a have ok: "answers_only env lookaside False l reads l3 reads" by simp
      show ?thesis
      proof (cases "m_kind m = Response \<and> id_json (re_serde env) m = Some expected")
        case matched: True
        with less.prems True h have "l' = l3"
          by (auto simp: take_frames.simps[of env lookaside expected l] f v rec)
        with ok show ?thesis by (simp add: answers_only_failed)
      next
        case False
        with less.prems True have "take_frames env lookaside expected l3 = (r, l')"
          by (auto simp: take_frames.simps[of env lookaside expected l] f v rec h)
        from answers_only_trans[OF ok less.hyps[OF shrinks this]] show ?thesis .
      qed
    qed
  next
    case False
    with less.prems have "l' = l"
      by (auto simp: take_frames.simps[of env lookaside expected l] split: sum.splits frame_error.splits option.splits decode_error.splits)
    then show ?thesis by simp
  qed
qed

lemma wait_loop_answers:
  "wait_loop env lookaside expected l reads = (r, l') \<Longrightarrow> answers_only env lookaside (\<exists>e. r = Failed e) l reads l' (lv_reads l')"
proof (induction reads arbitrary: l)
  case Nil
  obtain x l1 where t: "take_frames env lookaside expected l = (x, l1)" by fastforce
  from take_frames_answers[OF t, of "[]"] Nil show ?case
    by (auto simp: wait_loop.simps[of _ _ _ _ "[]"] t split: outcome.splits bool.splits)
next
  case (Cons rd reads)
  obtain x l1 where t: "take_frames env lookaside expected l = (x, l1)" by fastforce
  note a = take_frames_answers[OF t, of "rd # reads"]
  consider (failed) e where "x = Failed e" | (found) "x = Returned True" | (none) "x = Returned False"
    by (cases x) auto
  then show ?case
  proof cases
    case none
    with a have a: "answers_only env lookaside False l (rd # reads) l1 (rd # reads)" by simp
    show ?thesis
    proof (cases rd)
      case (ServerBytes bs)
      note one = answers_only_trans[OF a[unfolded ServerBytes] answers_only_read(1)[of env lookaside False l1 bs reads]]
      show ?thesis
      proof (cases "length (lv_buf l1 @ bs) > MAX_FRAME_BYTES")
        case True
        with Cons.prems none ServerBytes t have "l' = l1\<lparr>lv_buf := lv_buf l1 @ bs\<rparr>\<lparr>lv_reads := reads\<rparr>"
          by (auto simp: wait_loop.simps[of _ _ _ _ "ServerBytes bs # reads"] Let_def)
        with answers_only_failed[OF one] ServerBytes show ?thesis by (simp only: answers_only_reads) simp
      next
        case False
        with Cons.prems none ServerBytes t have
          "wait_loop env lookaside expected (l1\<lparr>lv_buf := lv_buf l1 @ bs\<rparr>) reads = (r, l')"
          by (auto simp: wait_loop.simps[of _ _ _ _ "ServerBytes bs # reads"] Let_def)
        from answers_only_trans[OF one Cons.IH[OF this]] ServerBytes show ?thesis by simp
      qed
    qed (use a Cons.prems none t answers_only_trans[OF a answers_only_read(2)] in
        \<open>auto simp: wait_loop.simps[of _ _ _ _ "Expired # reads"] wait_loop.simps[of _ _ _ _ "ServerClosed # reads"]
          wait_loop.simps[of _ _ _ _ "ReadFailed # reads"]\<close>)
  qed (use a Cons.prems t in \<open>auto simp: wait_loop.simps[of _ _ _ _ "rd # reads"]\<close>)
qed

lemma wait_for_response_answers:
  "wait_for_response env lookaside expected l = (r, l') \<Longrightarrow>
     answers_only env lookaside (\<exists>e. r = Failed e) l (lv_reads l) l' (lv_reads l')"
  using wait_loop_answers[of env lookaside expected l "lv_reads l"] by (simp add: wait_for_response_def)

section \<open>Driving\<close>

text \<open>What one driven message and the cancellation sent with it come to.\<close>

lemma sent_part:
  assumes "send_and_record env v l = Some (m, l')" "parse_json (re_serde env) (msg_payload d) = Some v"
  shows "part env lookaside failed l (lv_reads l) [(Driven d, v)] [] l' (lv_reads l')"
proof -
  have "carries env lookaside (Driven d) v" using assms(2) by (simp add: carries_def)
  from send_and_record_sends(1)[OF assms(1) this] send_and_record_buf[OF assms(1)] show ?thesis
    by (simp add: part_def)
qed

lemma send_cancellation_sends:
  assumes "send_cancellation env lookaside request rpc_id cancel l = (r, l')"
  shows "\<exists>ss hs. part env lookaside (r \<noteq> Returned ()) l (lv_reads l) ss hs l' (lv_reads l')
    \<and> (driven_part ss = [cancel] \<or> r \<noteq> Returned () \<and> driven_part ss = [])"
proof -
  obtain x l1 where w: "(if re_realtime env \<and> msg_ts_ns cancel - msg_ts_ns request > 0
      then wait_for_response env lookaside rpc_id l else (Returned False, l)) = (x, l1)" by fastforce
  then have a: "answers_only env lookaside (\<exists>e. x = Failed e) l (lv_reads l) l1 (lv_reads l1)"
    using wait_for_response_answers[of env lookaside rpc_id l x l1] by (auto split: if_splits)
  then obtain ss hs where ss: "part env lookaside (\<exists>e. x = Failed e) l (lv_reads l) ss hs l1 (lv_reads l1)" "driven_part ss = []"
    by (auto simp: answers_only_def)
  show ?thesis
  proof (cases "r = Returned ()")
    case True
    with assms w obtain v m where v: "parse_json (re_serde env) (msg_payload cancel) = Some v"
      and s: "send_and_record env v l1 = Some (m, l')" and x: "\<not> (\<exists>e. x = Failed e)"
      by (auto simp: send_cancellation_def split: outcome.splits option.splits)
    from part_trans[OF ss(1)[unfolded x[THEN Eq_FalseI]] sent_part[OF s v, of lookaside False]] ss(2) True show ?thesis
      by (intro exI[of _ "ss @ [(Driven cancel, v)]"]) auto
  next
    case False
    with assms w have "l' = l1" by (auto simp: send_cancellation_def split: outcome.splits option.splits)
    with ss False show ?thesis by (auto simp: part_def)
  qed
qed

lemma drive_message_sends:
  assumes "drive_message env cancellations lookaside msg l = (r, l')"
  shows "\<exists>ss hs. part env lookaside (\<exists>e. r = Failed e) l (lv_reads l) ss hs l' (lv_reads l') \<and>
    (case r of
       Failed e \<Rightarrow> driven_part ss = [] \<or> driven_part ss = [msg]
         \<or> (\<exists>c. bt_get cancellations (msg_seq msg) = Some c \<and> driven_part ss = [msg, c])
     | Returned None \<Rightarrow> driven_part ss = [msg]
     | Returned (Some n) \<Rightarrow> \<exists>c. bt_get cancellations (msg_seq msg) = Some c \<and> n = msg_seq c \<and> driven_part ss = [msg, c])"
proof (cases "\<exists>v m l1. parse_json (re_serde env) (msg_payload msg) = Some v \<and> send_and_record env v l = Some (m, l1)")
  case True
  then obtain v m l1 where v: "parse_json (re_serde env) (msg_payload msg) = Some v"
    and s: "send_and_record env v l = Some (m, l1)" by blast
  note first = sent_part[OF s v, of lookaside]
  show ?thesis
  proof (cases "m_kind m = Request \<and> id_json (re_serde env) m \<noteq> None")
    case False
    with assms v s have "r = Returned None" "l' = l1"
      by (auto simp: drive_message_def split: option.splits bool.splits)
    with first show ?thesis by (intro exI[of _ "[(Driven msg, v)]"] exI[of _ "[]"]) simp
  next
    case True
    then obtain rpc_id where k: "m_kind m = Request" "id_json (re_serde env) m = Some rpc_id" by blast
    show ?thesis
    proof (cases "bt_get cancellations (msg_seq msg)")
      case None
      then obtain x where w: "wait_for_response env lookaside rpc_id l1 = (x, l')"
        and r: "r = (case x of Failed e \<Rightarrow> Failed e | Returned _ \<Rightarrow> Returned None)"
        using assms v s k by (auto simp: drive_message_def split: prod.splits outcome.splits)
      from wait_for_response_answers[OF w] obtain ss hs where
        ss: "part env lookaside (\<exists>e. x = Failed e) l1 (lv_reads l1) ss hs l' (lv_reads l')" "driven_part ss = []"
        by (auto simp: answers_only_def)
      from part_trans[OF first ss(1)] ss(2) r show ?thesis
        by (intro exI[of _ "[(Driven msg, v)] @ ss"] exI[of _ "[] @ hs"]) (cases x; simp)
    next
      case (Some c)
      then obtain x where w: "send_cancellation env lookaside msg rpc_id c l1 = (x, l')"
        and r: "r = (case x of Failed e \<Rightarrow> Failed e | Returned _ \<Rightarrow> Returned (Some (msg_seq c)))"
        using assms v s k by (auto simp: drive_message_def split: prod.splits outcome.splits)
      from send_cancellation_sends[OF w] obtain ss hs where
        ss: "part env lookaside (x \<noteq> Returned ()) l1 (lv_reads l1) ss hs l' (lv_reads l')"
          "driven_part ss = [c] \<or> x \<noteq> Returned () \<and> driven_part ss = []" by blast
      from part_trans[OF first ss(1)] ss(2) r Some show ?thesis
        by (intro exI[of _ "[(Driven msg, v)] @ ss"] exI[of _ "[] @ hs"]) (cases x; auto)
    qed
  qed
next
  case False
  with assms have "l' = l" "\<exists>e. r = Failed e"
    by (auto simp: drive_message_def split: option.splits)
  then show ?thesis by (auto intro!: exI[of _ "[]"])
qed

text \<open>Every cancellation the driver is given comes right after its request.\<close>

definition paired :: "(u64, stored_message) btree \<Rightarrow> stored_message list \<Rightarrow> bool" where
  "paired cancellations msgs \<longleftrightarrow>
     (\<forall>pre m post c. msgs = pre @ m # post \<longrightarrow> bt_get cancellations (msg_seq m) = Some c \<longrightarrow>
        (\<exists>post'. post = c # post'))"

lemma paired_tail: "paired cancellations (xs @ msgs) \<Longrightarrow> paired cancellations msgs"
  unfolding paired_def by (metis append.assoc)

lemma paired_Cons: "paired cancellations (m # msgs) \<Longrightarrow> paired cancellations msgs"
  using paired_tail[of cancellations "[m]" msgs] by simp

lemma drive_sends:
  assumes "paired cancellations msgs" "distinct (map msg_seq msgs)" "\<forall>m \<in> set msgs. msg_seq m \<notin> set done_seqs"
    "drive env cancellations lookaside done_seqs msgs l = (r, l')"
  shows "\<exists>ss hs. part env lookaside (r \<noteq> Returned ()) l (lv_reads l) ss hs l' (lv_reads l')
    \<and> prefix (driven_part ss) msgs \<and> (r = Returned () \<longrightarrow> driven_part ss = msgs)"
  using assms
proof (induction "length msgs" arbitrary: msgs done_seqs l rule: less_induct)
  case less
  show ?case
  proof (cases msgs)
    case Nil
    with less.prems(4) show ?thesis by (intro exI[of _ "[]"]) simp
  next
    case (Cons msg rest)
    obtain x l1 where d: "drive_message env cancellations lookaside msg l = (x, l1)" by fastforce
    from drive_message_sends[OF d] obtain ss hs where ss: "part env lookaside (\<exists>e. x = Failed e) l (lv_reads l) ss hs l1 (lv_reads l1)"
      "case x of
         Failed e \<Rightarrow> driven_part ss = [] \<or> driven_part ss = [msg]
           \<or> (\<exists>c. bt_get cancellations (msg_seq msg) = Some c \<and> driven_part ss = [msg, c])
       | Returned None \<Rightarrow> driven_part ss = [msg]
       | Returned (Some n) \<Rightarrow> \<exists>c. bt_get cancellations (msg_seq msg) = Some c \<and> n = msg_seq c \<and> driven_part ss = [msg, c]"
      by blast
    have new: "msg_seq msg \<notin> set done_seqs" using less.prems(3) Cons by simp
    have follows: "\<exists>rest'. rest = c # rest'" if "bt_get cancellations (msg_seq msg) = Some c" for c
      using less.prems(1) Cons that unfolding paired_def by (metis append_Nil)
    have combine: ?thesis if "part env lookaside (r \<noteq> Returned ()) l1 (lv_reads l1) ts gs l' (lv_reads l')"
      "driven_part ss @ driven_part ts = msgs'" "prefix msgs' msgs" "r = Returned () \<longrightarrow> msgs' = msgs" "\<not> (\<exists>e. x = Failed e)"
      for ts gs msgs'
      using part_trans[OF ss(1)[unfolded that(5)[THEN Eq_FalseI]] that(1)] that(2-4)
      by (intro exI[of _ "ss @ ts"] exI[of _ "hs @ gs"]) simp
    show ?thesis
    proof (cases x)
      case (Failed e)
      then have "r = Failed e" "l' = l1" using less.prems(4) Cons new d by simp_all
      with ss Failed follows show ?thesis
        by (intro exI[of _ ss] exI[of _ hs]) (auto simp: Cons)
    next
      case (Returned n)
      show ?thesis
      proof (cases n)
        case None
        with Returned less.prems(4) Cons new d have run: "drive env cancellations lookaside done_seqs rest l1 = (r, l')" by simp
        have "\<exists>ts gs. part env lookaside (r \<noteq> Returned ()) l1 (lv_reads l1) ts gs l' (lv_reads l')
            \<and> prefix (driven_part ts) rest \<and> (r = Returned () \<longrightarrow> driven_part ts = rest)"
          using less.prems Cons paired_Cons by (intro less.hyps[OF _ _ _ _ run]) auto
        then obtain ts gs where "part env lookaside (r \<noteq> Returned ()) l1 (lv_reads l1) ts gs l' (lv_reads l')"
          "prefix (driven_part ts) rest" "r = Returned () \<longrightarrow> driven_part ts = rest"
          by blast
        with ss(2) Returned None show ?thesis
          by (intro combine[of ts gs "msg # driven_part ts"]) (simp_all add: Cons)
      next
        case (Some k)
        with ss(2) Returned obtain c where c: "bt_get cancellations (msg_seq msg) = Some c" "k = msg_seq c" "driven_part ss = [msg, c]" by auto
        from follows[OF c(1)] obtain rest' where rest: "rest = c # rest'" by blast
        have run: "drive env cancellations lookaside (k # done_seqs) rest' l1 = (r, l')"
          using less.prems(4) Cons new d Returned Some rest c(2) by simp
        have "paired cancellations rest'" using less.prems(1) Cons rest paired_Cons by blast
        moreover have "distinct (map msg_seq rest')" "\<forall>m \<in> set rest'. msg_seq m \<notin> set (k # done_seqs)"
          using less.prems(2,3) Cons rest c(2) by (auto simp: rev_image_eqI)
        ultimately have "\<exists>ts gs. part env lookaside (r \<noteq> Returned ()) l1 (lv_reads l1) ts gs l' (lv_reads l')
            \<and> prefix (driven_part ts) rest' \<and> (r = Returned () \<longrightarrow> driven_part ts = rest')"
          using Cons rest by (intro less.hyps[OF _ _ _ _ run]) auto
        then obtain ts gs where "part env lookaside (r \<noteq> Returned ()) l1 (lv_reads l1) ts gs l' (lv_reads l')"
          "prefix (driven_part ts) rest'" "r = Returned () \<longrightarrow> driven_part ts = rest'"
          by blast
        with c(3) show ?thesis
          by (intro combine[of ts gs "msg # c # driven_part ts"]) (simp_all add: Cons rest Returned)
      qed
    qed
  qed
qed

section \<open>The selection\<close>

lemma distinct_allowed:
  assumes "distinct (map msg_seq source)"
  shows "distinct (map msg_seq (allowed_messages source allow deny))"
proof -
  have "distinct (map msg_seq (filter is_driven source))" using assms by (rule distinct_map_filter)
  moreover have "mset (map msg_seq (driven_messages source)) = mset (map msg_seq (filter is_driven source))"
    using mset_driven_messages[of source] by (metis mset_map)
  ultimately have "distinct (map msg_seq (driven_messages source))" using mset_eq_imp_distinct_iff by blast
  then show ?thesis unfolding allowed_messages_def by (rule distinct_map_filter)
qed

lemma set_allowed_messages: "set (allowed_messages source allow deny) \<subseteq> set source"
  by (auto simp: allowed_messages_def set_driven_messages)

lemma adjacent_cancellations_entry:
  "adjacent_cancellations driven entries acc = Inr cs \<Longrightarrow> bt_wf acc \<Longrightarrow>
   bt_wf cs \<and> (bt_get cs n = Some c \<longrightarrow> bt_get acc n = Some c \<or> (n, c) \<in> set entries
     \<and> (\<exists>p. p + 1 < length driven \<and> msg_seq (driven ! p) = n \<and> msg_seq (driven ! (p + 1)) = msg_seq c))"
proof (induction driven entries acc rule: adjacent_cancellations.induct)
  case (2 driven request_seq cancellation rest acc)
  show ?case
  proof (cases "position (\<lambda>m. msg_seq m = request_seq) driven")
    case None
    with 2 show ?thesis by auto
  next
    case (Some p)
    with 2(3) have next_seq: "p + 1 < length driven" "msg_seq (driven ! (p + 1)) = msg_seq cancellation"
      and rec: "adjacent_cancellations driven rest (bt_insert request_seq cancellation acc) = Inr cs"
      by (auto split: if_splits)
    have not_err: "\<not> ((if p + 1 < length driven then Some (msg_seq (driven ! (p + 1))) else None) \<noteq> Some (msg_seq cancellation))"
      using next_seq by simp
    from 2(2)[OF Some not_err rec bt.wf_insert[OF 2(4)]] position_Some[OF Some] next_seq show ?thesis
      by (auto simp: bt.get_insert[OF 2(4)] split: if_splits)
  qed
qed simp

lemma cancellation_in_source:
  assumes "(n, c) \<in> set (cancellation_notifications S source)"
  shows "c \<in> set source"
proof -
  have "bt_get (cancellation_notifications S source) n = Some c"
    using assms by (intro bt_get_distinct) (simp_all add: cancellation_notifications_def bt_simps)
  then have "(n, c) \<in> set (List.map_filter (cancellation_of S source) (exchanges (correlate S source)))"
    by (auto simp: cancellation_notifications_def bt_simps dest!: map_of_SomeD)
  then obtain e where "cancellation_of S source e = Some (n, c)" by (auto simp: List.map_filter_def)
  then show ?thesis
    by (auto simp: cancellation_of_def find_Some_iff split: if_splits option.splits)
qed

lemma replay_calls_paired:
  assumes "distinct (map msg_seq source)" "replay_calls S source allow deny = Inr (driven, cancellations)"
  shows "driven = filter (keep_message cancellations) (allowed_messages source allow deny)"
    "paired cancellations driven" "distinct (map msg_seq driven)"
proof -
  let ?all = "allowed_messages source allow deny"
  note dist = distinct_allowed[OF assms(1), of allow deny]
  have adj: "adjacent_cancellations ?all (cancellation_notifications S source) [] = Inr cancellations"
    and driven: "driven = filter (keep_message cancellations) ?all"
    using assms(2) by (auto simp: replay_calls_def Let_def split: sum.splits if_splits)
  show "driven = filter (keep_message cancellations) ?all" by (rule driven)
  show dd: "distinct (map msg_seq driven)" unfolding driven by (rule distinct_map_filter[OF dist])
  show "paired cancellations driven"
    unfolding paired_def
  proof (intro allI impI)
    fix pre m post c
    assume split: "driven = pre @ m # post" and c: "bt_get cancellations (msg_seq m) = Some c"
    from adjacent_cancellations_entry[OF adj, of "msg_seq m" c] c
    obtain p where wf: "bt_wf cancellations" and entry: "(msg_seq m, c) \<in> set (cancellation_notifications S source)"
      and p: "p + 1 < length ?all" "msg_seq (?all ! p) = msg_seq m" "msg_seq (?all ! (p + 1)) = msg_seq c"
      by (auto simp: bt.get_empty)
    have "m \<in> set ?all" using split driven by (metis filter_is_subset in_set_conv_decomp subsetD)
    then have m: "?all ! p = m" using p(1,2) dist by (metis Suc_eq_plus1 Suc_lessD inj_on_eq_iff distinct_map nth_mem)
    have "?all ! (p + 1) \<in> set source" using p(1) set_allowed_messages nth_mem by blast
    then have c': "?all ! (p + 1) = c"
      using p(3) cancellation_in_source[OF entry] assms(1) by (metis inj_on_eq_iff distinct_map)
    have all: "?all = take p ?all @ m # c # drop (p + 2) ?all"
      using p(1) m c' id_take_nth_drop[of p ?all] Cons_nth_drop_Suc[of "p + 1" ?all] by simp
    have "(msg_seq m, c) \<in> set cancellations" using c bt_get_wf_iff[OF wf] by simp
    then have "keep_message cancellations c" by (force simp: keep_message_def)
    moreover have "keep_message cancellations m" using split driven by (metis in_set_conv_decomp mem_Collect_eq set_filter)
    ultimately have "driven = filter (keep_message cancellations) (take p ?all) @ m # c #
        filter (keep_message cancellations) (drop (p + 2) ?all)"
      unfolding driven by (subst all) simp
    moreover have "m \<notin> set pre" "m \<notin> set post" using dd split by (auto simp: distinct_map)
    ultimately show "\<exists>post'. post = c # post'" using split append_Cons_eq_iff by metis
  qed
qed

section \<open>The run\<close>

text \<open>
  C39: If the selection of messages fails, a replay sends nothing.  Otherwise the bytes it writes to
  the server are frames that each carry either a recorded client message, in the planned order and
  without one that the tool filters exclude, or the answer to a request the server sent: the answer
  the recording holds for the request's identifier or, when it holds none and the run is not strict,
  the synthetic error that says the method is not supported.  A run that is not aborted sends all the
  driven messages, an aborted one a prefix.  What the server wrote up to the end of the run is a
  sequence of lines with JSON values and an unread rest, and the requests answered are exactly the
  requests among them, each once and in order, but for the last one if the run was aborted at it.
\<close>

theorem replay_sends_recorded:
  assumes "distinct (map msg_seq source)"
  shows "case replay_calls (re_serde env) source allow deny of
      Inl e \<Rightarrow> snd (replay env source allow deny l) = l \<and> fst (replay env source allow deny l) \<noteq> Returned ()
    | Inr (driven, cancellations) \<Rightarrow>
        driven = filter (keep_message cancellations)
          (filter (\<lambda>m. tool_is_allowed (msg_tool_name m) allow deny) (driven_messages source))
        \<and> (\<exists>ss hs. pm_forwarded (lv_pump (snd (replay env source allow deny l)))
               = pm_forwarded (lv_pump l) @ concat (map (encode_stdio_frame (re_serde env) \<circ> snd) ss)
             \<and> (\<forall>(s, v) \<in> set ss. carries env (server_initiated_responses (re_serde env) source) s v)
             \<and> hears (re_serde env) (lv_buf l) (lv_reads l) hs
                 (lv_buf (snd (replay env source allow deny l))) (lv_reads (snd (replay env source allow deny l)))
             \<and> (answer_part ss = filter asks hs \<or> fst (replay env source allow deny l) \<noteq> Returned ()
                 \<and> (\<exists>v. filter asks hs = answer_part ss @ [v]))
             \<and> prefix (driven_part ss) driven
             \<and> (fst (replay env source allow deny l) = Returned () \<longrightarrow> driven_part ss = driven))"
proof (cases "replay_calls (re_serde env) source allow deny")
  case (Inl e)
  then show ?thesis by (simp add: replay_def)
next
  case (Inr dc)
  obtain driven cancellations where dc: "dc = (driven, cancellations)" by fastforce
  note calls = replay_calls_paired[OF assms Inr[unfolded dc]]
  have "source \<noteq> []"
    using Inr by (auto simp: dc replay_calls_def allowed_messages_def driven_messages_def Let_def split: sum.splits if_splits)
  then have run: "replay env source allow deny l =
      drive env cancellations (server_initiated_responses (re_serde env) source) [] driven l"
    by (simp add: replay_def Inr dc)
  from drive_sends[OF calls(2,3), of "[]" env _ l, OF _ prod.collapse[symmetric]]
  show ?thesis
    unfolding Inr dc run part_def sends_def calls(1) allowed_messages_def prod.case sum.case by simp
qed

lemma sample_replay:
  "replay_calls sample_serde [sample_request, sample_response] [] [] = Inr ([sample_request], [])"
  by code_simp

lemma replay_sends_recorded_witness:
  "\<exists>ss. pm_forwarded (lv_pump (snd (replay \<lparr>re_serde = sample_serde, re_clock = (\<lambda>_. 0), re_writes = (\<lambda>_. True),
        re_strict = True, re_realtime = False\<rparr> [sample_request, sample_response] [] []
        \<lparr>lv_pump = \<lparr>pm_budget = budget_new 4096, pm_channel = \<lparr>ch_queue = [], ch_capacity = 8, ch_open = True\<rparr>,
           pm_seq = 0, pm_dropped = 0, pm_forwarded = []\<rparr>, lv_buf = [], lv_reads = []\<rparr>)))
     = concat (map (encode_stdio_frame sample_serde \<circ> snd) ss) \<and> driven_part ss = [sample_request]"
proof -
  let ?env = "\<lparr>re_serde = sample_serde, re_clock = (\<lambda>_. 0), re_writes = (\<lambda>_. True), re_strict = True, re_realtime = False\<rparr>"
  let ?l = "\<lparr>lv_pump = \<lparr>pm_budget = budget_new 4096, pm_channel = \<lparr>ch_queue = [], ch_capacity = 8, ch_open = True\<rparr>,
           pm_seq = 0, pm_dropped = 0, pm_forwarded = []\<rparr>, lv_buf = [], lv_reads = []\<rparr>"
  have dist: "distinct (map msg_seq [sample_request, sample_response])" by (simp add: sample_request_def sample_response_def)
  have parse: "parse_json sample_serde (msg_payload sample_request) = Some JNull"
    by (simp add: sample_serde_def sample_request_def)
  have no_id: "m_payload m = JNull \<Longrightarrow> id_json S m = None" for S m by (simp add: id_json_def m_id_def)
  have "\<exists>l'. drive_message ?env [] lookaside sample_request ?l = (Returned None, l')" for lookaside
    by (simp add: drive_message_def parse send_and_record_def send_frame_def record_value_def reserve_capture_stamp_def
        Let_def no_id split: bool.split)
  then obtain l' where "drive_message ?env [] (server_initiated_responses sample_serde [sample_request, sample_response])
      sample_request ?l = (Returned None, l')" by blast
  then have "fst (replay ?env [sample_request, sample_response] [] [] ?l) = Returned ()"
    by (simp add: replay_def sample_replay)
  with replay_sends_recorded[OF dist, of ?env "[]" "[]" ?l] show ?thesis by (auto simp: sample_replay)
qed

section \<open>The plan and the run\<close>

text \<open>
  The plan also lists cancellations that end no driven request, which the run drops: with one such
  notification the plan announces two calls and one is sent.
\<close>

definition stray_cancellation :: stored_message where
  "stray_cancellation = sample_response\<lparr>msg_direction := ''c2s'', msg_kind := ''notification'',
     msg_rpc_id := None, msg_method := Some ''notifications/cancelled''\<rparr>"

lemma plan_lists_unsent_cancellation:
  "map pc_seq (filter pc_allowed (pl_calls (build_plan sample_serde [sample_request, stray_cancellation] [] []))) = [0, 1]
   \<and> replay_calls sample_serde [sample_request, stray_cancellation] [] [] = Inr ([sample_request], [])"
  by code_simp

end
