(* ===== verification/Files.thy ===== *)
theory Files
  imports Prelude
begin

text \<open>
  The file operations of the tools, and the two ways they publish a file: \<open>write_file_with\<close> of
  \<open>crates/mcptracer-storage/src/mtrace.rs\<close> (a temporary file hard-linked to a name that must be
  free) and \<open>replace_file\<close> of \<open>crates/mcptracer-proxy/src/commands/setup.rs\<close> (a temporary file
  renamed over the old one).  A path is its directory and its file name.  Each system call takes an
  outcome: it works, or it fails having written that much of what it was to write.  As the code stops
  at the first failure, the states that failures leave include the states that a crash leaves.
\<close>

type_synonym path = "string \<times> string"
type_synonym files = "path \<Rightarrow> bytes option"

datatype io = Works | Fails "nat option"

datatype 'a io_result = IoError string | IoOk 'a

section \<open>System calls\<close>

text \<open>\<open>fs::write\<close> and \<open>write_all\<close>: a failure can leave a part of the contents.\<close>

definition fs_write :: "io \<Rightarrow> path \<Rightarrow> bytes \<Rightarrow> files \<Rightarrow> bool \<times> files" where
  "fs_write i p bs fs =
     (case i of
        Works \<Rightarrow> (True, fs(p \<mapsto> bs))
      | Fails None \<Rightarrow> (False, fs)
      | Fails (Some k) \<Rightarrow> (False, fs(p \<mapsto> take k bs)))"

definition fs_rename :: "io \<Rightarrow> path \<Rightarrow> path \<Rightarrow> files \<Rightarrow> bool \<times> files" where
  "fs_rename i p q fs =
     (case (i, fs p) of
        (Works, Some bs) \<Rightarrow> (True, (fs(q \<mapsto> bs))(p := None))
      | _ \<Rightarrow> (False, fs))"

definition fs_remove :: "io \<Rightarrow> path \<Rightarrow> files \<Rightarrow> bool \<times> files" where
  "fs_remove i p fs =
     (case (i, fs p) of
        (Works, Some _) \<Rightarrow> (True, fs(p := None))
      | _ \<Rightarrow> (False, fs))"

text \<open>\<open>hard_link\<close> fails when the new name exists.\<close>

definition fs_hard_link :: "io \<Rightarrow> path \<Rightarrow> path \<Rightarrow> files \<Rightarrow> bool \<times> files" where
  "fs_hard_link i p q fs =
     (case (i, fs p, fs q) of
        (Works, Some bs, None) \<Rightarrow> (True, fs(q \<mapsto> bs))
      | _ \<Rightarrow> (False, fs))"

section \<open>Replacing a file\<close>

definition config_temp_path :: "path \<Rightarrow> path" where
  "config_temp_path p = (fst p, ''.'' @ snd p @ ''.mcptracer.tmp'')"

definition replace_file :: "io \<Rightarrow> io \<Rightarrow> path \<Rightarrow> bytes \<Rightarrow> files \<Rightarrow> unit io_result \<times> files" where
  "replace_file write_io rename_io p contents fs =
     (let temp = config_temp_path p
      in if fs temp \<noteq> None then (IoError ''refusing to overwrite temporary configuration file'', fs)
         else
           case fs_write write_io temp contents fs of
             (False, fs1) \<Rightarrow> (IoError ''failed to write temporary configuration'', fs1)
           | (True, fs1) \<Rightarrow>
               (case fs_rename rename_io temp p fs1 of
                  (False, fs2) \<Rightarrow> (IoError ''failed to replace configuration'', fs2)
                | (True, fs2) \<Rightarrow> (IoOk (), fs2)))"

section \<open>Publishing a new file\<close>

definition export_temp_path :: "nat \<Rightarrow> path \<Rightarrow> nat \<Rightarrow> path" where
  "export_temp_path pid p sq =
     (fst p, ''.'' @ snd p @ ''.mcptracer-export-'' @ nat_dec pid @ ''-'' @ nat_dec sq @ ''.tmp'')"

text \<open>The outcomes of one publication: opening, securing, writing and syncing, linking, cleaning up.\<close>

record publish_io =
  pb_pid :: nat
  pb_sequences :: "nat list"
  pb_open :: io
  pb_permissions :: io
  pb_write :: io
  pb_link :: io
  pb_cleanup :: io

text \<open>\<open>pb_sequences\<close>: the (at most 32) counter values this call draws.\<close>

definition write_file :: "publish_io \<Rightarrow> path \<Rightarrow> bytes \<Rightarrow> files \<Rightarrow> unit io_result \<times> files" where
  "write_file pio p contents fs =
     (case List.find (\<lambda>c. fs c = None) (map (export_temp_path (pb_pid pio) p) (take 32 (pb_sequences pio))) of
        None \<Rightarrow> (IoError ''could not allocate a unique temporary artifact file'', fs)
      | Some temp \<Rightarrow>
          if pb_open pio \<noteq> Works then (IoError ''could not allocate a temporary artifact file'', fs)
          else
            let fs1 = fs(temp \<mapsto> [])
            in if pb_permissions pio \<noteq> Works
               then (IoError ''failed to secure temporary artifact'', snd (fs_remove (pb_cleanup pio) temp fs1))
               else
                 case fs_write (pb_write pio) temp contents fs1 of
                   (False, fs2) \<Rightarrow> (IoError ''failed to write'', snd (fs_remove (pb_cleanup pio) temp fs2))
                 | (True, fs2) \<Rightarrow>
                     (case fs_hard_link (pb_link pio) temp p fs2 of
                        (False, fs3) \<Rightarrow> (IoError ''failed to create'', snd (fs_remove (pb_cleanup pio) temp fs3))
                      | (True, fs3) \<Rightarrow> (IoOk (), snd (fs_remove (pb_cleanup pio) temp fs3))))"

section \<open>What they guarantee\<close>

lemma config_temp_other [simp]: "config_temp_path p \<noteq> p" "p \<noteq> config_temp_path p"
proof -
  have "length (snd (config_temp_path p)) \<noteq> length (snd p)" by (simp add: config_temp_path_def)
  then show "config_temp_path p \<noteq> p" "p \<noteq> config_temp_path p" by metis+
qed

lemma export_temp_other [simp]: "export_temp_path pid p n \<noteq> p"
proof -
  have "length (snd (export_temp_path pid p n)) \<noteq> length (snd p)" by (simp add: export_temp_path_def)
  then show ?thesis by metis
qed

lemma replace_file_cases:
  assumes "replace_file wio rio p contents fs = (r, fs')"
  shows "(r = IoOk () \<and> fs' p = Some contents) \<or> (r \<noteq> IoOk () \<and> fs' p = fs p)"
    and "q \<noteq> p \<Longrightarrow> q \<noteq> config_temp_path p \<Longrightarrow> fs' q = fs q"
    and "fs (config_temp_path p) = None \<Longrightarrow> r = IoOk () \<Longrightarrow> fs' (config_temp_path p) = None"
  using assms
  by (auto simp: replace_file_def fs_write_def fs_rename_def Let_def split: if_splits io.splits option.splits prod.splits)

lemma replace_file_works:
  "fs (config_temp_path p) = None \<Longrightarrow>
   replace_file Works Works p contents fs = (IoOk (), fs(p \<mapsto> contents))"
  by (auto simp: replace_file_def fs_write_def fs_rename_def)

lemma fs_remove_cases: "snd (fs_remove i p fs) q = (if q = p \<and> i = Works then None else fs q)"
  by (auto simp: fs_remove_def split: io.splits option.splits)

lemma write_file_cases:
  assumes "write_file pio p contents fs = (r, fs')"
  shows "(r = IoOk () \<and> fs p = None \<and> fs' p = Some contents) \<or> (r \<noteq> IoOk () \<and> fs' p = fs p)"
    and "fs q = Some bs \<Longrightarrow> fs' q = Some bs"
proof -
  have find: "fs t = None \<and> t \<noteq> p" if "List.find (\<lambda>c. fs c = None) (map (export_temp_path (pb_pid pio) p) (take 32 (pb_sequences pio))) = Some t" for t
    using that by (auto simp: find_Some_iff)
  show "(r = IoOk () \<and> fs p = None \<and> fs' p = Some contents) \<or> (r \<noteq> IoOk () \<and> fs' p = fs p)"
    using assms find
    by (auto simp: write_file_def fs_write_def fs_hard_link_def fs_remove_cases Let_def
        split: if_splits io.splits option.splits prod.splits)
  show "fs q = Some bs \<Longrightarrow> fs' q = Some bs"
    using assms find
    by (auto simp: write_file_def fs_write_def fs_hard_link_def fs_remove_cases Let_def
        split: if_splits io.splits option.splits prod.splits)
qed

end
