(* ===== verification/Setup.thy ===== *)
theory Setup
  imports Files Assertions Lint
begin

text \<open>
  \<open>crates/mcptracer-proxy/src/commands/setup.rs\<close>: rewriting a client's configuration so that its
  stdio servers start under the recorder, with a backup and ownership metadata, and undoing it.
  Reading and printing TOML, pretty-printing JSON and the metadata's codec are parameters.
\<close>

section \<open>Clients\<close>

datatype setup_client = ClaudeDesktop | ClaudeCode | Cursor | Codex | Vscode

fun display_name :: "setup_client \<Rightarrow> string" where
  "display_name ClaudeDesktop = ''claude-desktop''"
| "display_name ClaudeCode = ''claude-code''"
| "display_name Cursor = ''cursor''"
| "display_name Codex = ''codex''"
| "display_name Vscode = ''vscode''"

definition is_toml :: "setup_client \<Rightarrow> bool" where
  "is_toml c \<longleftrightarrow> c = Codex"

fun json_server_key :: "setup_client \<Rightarrow> string option" where
  "json_server_key ClaudeDesktop = Some ''mcpServers''"
| "json_server_key ClaudeCode = Some ''mcpServers''"
| "json_server_key Cursor = Some ''mcpServers''"
| "json_server_key Vscode = Some ''servers''"
| "json_server_key Codex = None"

record undo_metadata =
  um_format_version :: nat
  um_client :: string
  um_expected_config_sha256 :: string

record setup_env =
  se_serde :: serde
  se_pretty :: "json \<Rightarrow> string"
  se_toml_from_str :: "string \<Rightarrow> toml option"
  se_toml_pretty :: "toml \<Rightarrow> string"
  se_metadata_to_vec :: "undo_metadata \<Rightarrow> bytes"
  se_metadata_from_slice :: "bytes \<Rightarrow> undo_metadata option"
  se_utf8 :: "bytes \<Rightarrow> bool"

section \<open>JSON with comments\<close>

datatype jsonc_state = Normal | InString | StringEscape | LineComment | BlockComment | BlockCommentMaybeEnd

definition quote :: char where "quote = CHR 0x22"
definition backslash :: char where "backslash = CHR 0x5C"
definition newline :: char where "newline = CHR 0x0A"

fun strip_comments_from :: "jsonc_state \<Rightarrow> string \<Rightarrow> string option" where
  "strip_comments_from st [] = (if st = InString \<or> st = StringEscape then None else Some [])"
| "strip_comments_from Normal (c # cs) =
     (if c = quote then map_option ((#) c) (strip_comments_from InString cs)
      else if c = CHR ''/'' then
        (case cs of
           d # ds \<Rightarrow>
             if d = CHR ''/'' then strip_comments_from LineComment ds
             else if d = CHR ''*'' then strip_comments_from BlockComment ds
             else map_option ((#) c) (strip_comments_from Normal cs)
         | [] \<Rightarrow> map_option ((#) c) (strip_comments_from Normal cs))
      else map_option ((#) c) (strip_comments_from Normal cs))"
| "strip_comments_from InString (c # cs) =
     (if c = backslash then map_option ((#) c) (strip_comments_from StringEscape cs)
      else if c = quote then map_option ((#) c) (strip_comments_from Normal cs)
      else if c = newline then None
      else map_option ((#) c) (strip_comments_from InString cs))"
| "strip_comments_from StringEscape (c # cs) = map_option ((#) c) (strip_comments_from InString cs)"
| "strip_comments_from LineComment (c # cs) =
     (if c = newline then map_option ((#) c) (strip_comments_from Normal cs)
      else strip_comments_from LineComment cs)"
| "strip_comments_from BlockComment (c # cs) =
     (if c = CHR ''*'' then strip_comments_from BlockCommentMaybeEnd cs else strip_comments_from BlockComment cs)"
| "strip_comments_from BlockCommentMaybeEnd (c # cs) =
     (if c = CHR ''/'' then strip_comments_from Normal cs
      else if c = CHR ''*'' then strip_comments_from BlockCommentMaybeEnd cs
      else strip_comments_from BlockComment cs)"

definition strip_jsonc_comments :: "string \<Rightarrow> string option" where
  "strip_jsonc_comments text_in = strip_comments_from Normal text_in"

definition closes_next :: "string \<Rightarrow> bool" where
  "closes_next cs \<longleftrightarrow> (case trim_start cs of c # _ \<Rightarrow> c = CHR ''}'' \<or> c = CHR '']'' | [] \<Rightarrow> False)"

fun strip_commas_from :: "bool \<Rightarrow> bool \<Rightarrow> string \<Rightarrow> string" where
  "strip_commas_from in_string escaped [] = []"
| "strip_commas_from in_string escaped (c # cs) =
     (if in_string then
        c # (if escaped then strip_commas_from True False cs
             else if c = backslash then strip_commas_from True True cs
             else if c = quote then strip_commas_from False False cs
             else strip_commas_from True False cs)
      else if c = quote then c # strip_commas_from True escaped cs
      else if c = CHR '','' \<and> closes_next cs then strip_commas_from False escaped cs
      else c # strip_commas_from False escaped cs)"

definition strip_trailing_commas :: "string \<Rightarrow> string" where
  "strip_trailing_commas text_in = strip_commas_from False False text_in"

definition strip_jsonc :: "string \<Rightarrow> string" where
  "strip_jsonc text_in =
     (case strip_jsonc_comments text_in of
        Some without_comments \<Rightarrow> strip_trailing_commas without_comments
      | None \<Rightarrow> text_in)"

section \<open>Wrapping one server\<close>

definition json_args :: "json option \<Rightarrow> string + string list" where
  "json_args v =
     (case v of
        None \<Rightarrow> Inr []
      | Some v \<Rightarrow>
          (case Option.bind (as_array v) (\<lambda>items. those (map as_str items)) of
             Some args \<Rightarrow> Inr args
           | None \<Rightarrow> Inl ''MCP server `args` must be an array of strings''))"

fun toml_str :: "toml \<Rightarrow> string option" where
  "toml_str (TString s) = Some s"
| "toml_str _ = None"

fun toml_array :: "toml \<Rightarrow> toml list option" where
  "toml_array (TArray items) = Some items"
| "toml_array _ = None"

fun toml_table :: "toml \<Rightarrow> (string \<times> toml) list option" where
  "toml_table (TTable t) = Some t"
| "toml_table _ = None"

definition toml_args :: "toml option \<Rightarrow> string + string list" where
  "toml_args v =
     (case v of
        None \<Rightarrow> Inr []
      | Some v \<Rightarrow>
          (case Option.bind (toml_array v) (\<lambda>items. those (map toml_str items)) of
             Some args \<Rightarrow> Inr args
           | None \<Rightarrow> Inl ''Codex MCP server `args` must be an array of strings''))"

text \<open>\<open>db_path\<close> is a path that is a valid string (others are rejected before).\<close>

definition wrapped_args :: "setup_client \<Rightarrow> string \<Rightarrow> string list \<Rightarrow> string option \<Rightarrow> string list" where
  "wrapped_args client command args db_path =
     (case db_path of Some db \<Rightarrow> [''--db'', db] | None \<Rightarrow> [])
     @ [''record'', ''--client'', display_name client, ''--'', command] @ args"

text \<open>\<open>Path::file_name\<close>: the last component, unless it is \<open>..\<close>.\<close>

definition path_file_name :: "string \<Rightarrow> string option" where
  "path_file_name p =
     (case rev (filter (\<lambda>w. w \<noteq> [] \<and> w \<noteq> ''.'') (split_on (\<lambda>c. c = CHR ''/'') p)) of
        [] \<Rightarrow> None
      | w # _ \<Rightarrow> if w = ''..'' then None else Some w)"

definition arg_is :: "string list \<Rightarrow> nat \<Rightarrow> string \<Rightarrow> bool" where
  "arg_is args i s \<longleftrightarrow> i < length args \<and> args ! i = s"

definition is_mcptracer_record_wrapper :: "string \<Rightarrow> string list \<Rightarrow> bool" where
  "is_mcptracer_record_wrapper command args =
     (let executable = map to_ascii_lowercase (case path_file_name command of Some name \<Rightarrow> name | None \<Rightarrow> command);
          command_index = (if arg_is args 0 ''--db'' \<and> 3 \<le> length args then 2 else 0)
      in (executable = ''mcptracer'' \<or> executable = ''mcptracer.exe'')
         \<and> arg_is args command_index ''record'' \<and> arg_is args (command_index + 1) ''--client'')"

definition wrap_json_server ::
  "setup_client \<Rightarrow> string \<Rightarrow> string option \<Rightarrow> (string, json) btree \<Rightarrow> string + (bool \<times> (string, json) btree)" where
  "wrap_json_server client mcptracer_command db_path server =
     (case Option.bind (bt_get server ''command'') as_str of
        None \<Rightarrow> Inl ''MCP server `command` must be a string''
      | Some command \<Rightarrow>
          (case json_args (bt_get server ''args'') of
             Inl e \<Rightarrow> Inl e
           | Inr args \<Rightarrow>
               if is_mcptracer_record_wrapper command args then Inr (False, server)
               else Inr (True, bt_insert ''args'' (JArray (map JString (wrapped_args client command args db_path)))
                                 (bt_insert ''command'' (JString mcptracer_command) server))))"

definition wrap_toml_server ::
  "setup_client \<Rightarrow> string \<Rightarrow> string option \<Rightarrow> (string, toml) btree \<Rightarrow> string + (bool \<times> (string, toml) btree)" where
  "wrap_toml_server client mcptracer_command db_path server =
     (case Option.bind (bt_get server ''command'') toml_str of
        None \<Rightarrow> Inl ''Codex MCP server `command` must be a string''
      | Some command \<Rightarrow>
          (case toml_args (bt_get server ''args'') of
             Inl e \<Rightarrow> Inl e
           | Inr args \<Rightarrow>
               if is_mcptracer_record_wrapper command args then Inr (False, server)
               else Inr (True, bt_insert ''args'' (TArray (map TString (wrapped_args client command args db_path)))
                                 (bt_insert ''command'' (TString mcptracer_command) server))))"

section \<open>Rewriting a configuration\<close>

fun wrap_json_servers ::
  "setup_client \<Rightarrow> string \<Rightarrow> string option \<Rightarrow> (string, json) btree \<Rightarrow> string + (string, json) btree \<times> usize \<times> usize" where
  "wrap_json_servers client cmd db_path [] = Inr ([], 0, 0)"
| "wrap_json_servers client cmd db_path ((name, server) # rest) =
     (case as_object server of
        None \<Rightarrow> Inl (''MCP server `'' @ name @ ''` must be an object'')
      | Some server_object \<Rightarrow>
          (case (if bt_get server_object ''command'' = None then Inr (False, server_object)
                 else wrap_json_server client cmd db_path server_object) of
             Inl e \<Rightarrow> Inl e
           | Inr (wrapped, server') \<Rightarrow>
               (case wrap_json_servers client cmd db_path rest of
                  Inl e \<Rightarrow> Inl e
                | Inr (rest', total_stdio, wrapped_servers) \<Rightarrow>
                    Inr ((name, JObject server') # rest',
                      (if bt_get server_object ''command'' = None then total_stdio else total_stdio + 1),
                      (if wrapped then wrapped_servers + 1 else wrapped_servers)))))"

definition parse_config :: "setup_env \<Rightarrow> string \<Rightarrow> json option" where
  "parse_config env original =
     (case parse_json (se_serde env) original of
        Some document \<Rightarrow> Some document
      | None \<Rightarrow> parse_json (se_serde env) (strip_jsonc original))"

definition inject_json_value ::
  "setup_client \<Rightarrow> string \<Rightarrow> string option \<Rightarrow> json \<Rightarrow> string + json \<times> usize \<times> usize" where
  "inject_json_value client cmd db_path document =
     (case as_object document of
        None \<Rightarrow> Inl ''JSON MCP configuration must be an object''
      | Some root_object \<Rightarrow>
          let server_key = the (json_server_key client)
          in case Option.bind (bt_get root_object server_key) as_object of
               None \<Rightarrow> Inl (''JSON MCP configuration must contain an object `'' @ server_key @ ''`'')
             | Some servers \<Rightarrow>
                 (case wrap_json_servers client cmd db_path servers of
                    Inl e \<Rightarrow> Inl e
                  | Inr (servers', total_stdio, wrapped_servers) \<Rightarrow>
                      Inr (JObject (bt_insert server_key (JObject servers') root_object), total_stdio, wrapped_servers)))"

definition inject_json_with_db ::
  "setup_env \<Rightarrow> string \<Rightarrow> setup_client \<Rightarrow> string \<Rightarrow> string option \<Rightarrow> string + string \<times> usize \<times> usize" where
  "inject_json_with_db env original client cmd db_path =
     (case parse_config env original of
        None \<Rightarrow> Inl ''refusing to modify an invalid JSON MCP configuration''
      | Some document \<Rightarrow>
          (case inject_json_value client cmd db_path document of
             Inl e \<Rightarrow> Inl e
           | Inr (document', total_stdio, wrapped_servers) \<Rightarrow>
               Inr (se_pretty env document' @ [newline], total_stdio, wrapped_servers)))"

fun wrap_toml_servers ::
  "setup_client \<Rightarrow> string \<Rightarrow> string option \<Rightarrow> (string, toml) btree \<Rightarrow> string + (string, toml) btree \<times> usize \<times> usize" where
  "wrap_toml_servers client cmd db_path [] = Inr ([], 0, 0)"
| "wrap_toml_servers client cmd db_path ((name, server) # rest) =
     (case toml_table server of
        None \<Rightarrow> Inl (''Codex MCP server `'' @ name @ ''` must be a table'')
      | Some server_table \<Rightarrow>
          (case (if bt_get server_table ''command'' = None then Inr (False, server_table)
                 else wrap_toml_server client cmd db_path server_table) of
             Inl e \<Rightarrow> Inl e
           | Inr (wrapped, server') \<Rightarrow>
               (case wrap_toml_servers client cmd db_path rest of
                  Inl e \<Rightarrow> Inl e
                | Inr (rest', total_stdio, wrapped_servers) \<Rightarrow>
                    Inr ((name, TTable server') # rest',
                      (if bt_get server_table ''command'' = None then total_stdio else total_stdio + 1),
                      (if wrapped then wrapped_servers + 1 else wrapped_servers)))))"

definition inject_toml_value ::
  "setup_client \<Rightarrow> string \<Rightarrow> string option \<Rightarrow> toml \<Rightarrow> string + toml \<times> usize \<times> usize" where
  "inject_toml_value client cmd db_path document =
     (case Option.bind (Option.bind (toml_table document) (\<lambda>t. bt_get t ''mcp_servers'')) toml_table of
        None \<Rightarrow> Inl ''Codex configuration must contain a `[mcp_servers]` table''
      | Some servers \<Rightarrow>
          (case wrap_toml_servers client cmd db_path servers of
             Inl e \<Rightarrow> Inl e
           | Inr (servers', total_stdio, wrapped_servers) \<Rightarrow>
               Inr (TTable (bt_insert ''mcp_servers'' (TTable servers') (the (toml_table document))), total_stdio, wrapped_servers)))"

definition inject_toml_with_db ::
  "setup_env \<Rightarrow> string \<Rightarrow> setup_client \<Rightarrow> string \<Rightarrow> string option \<Rightarrow> string + string \<times> usize \<times> usize" where
  "inject_toml_with_db env original client cmd db_path =
     (case se_toml_from_str env original of
        None \<Rightarrow> Inl ''refusing to modify an invalid TOML MCP configuration''
      | Some document \<Rightarrow>
          (case inject_toml_value client cmd db_path document of
             Inl e \<Rightarrow> Inl e
           | Inr (document', total_stdio, wrapped_servers) \<Rightarrow>
               Inr (se_toml_pretty env document', total_stdio, wrapped_servers)))"

section \<open>Setup\<close>

definition backup_path :: "path \<Rightarrow> path" where
  "backup_path p = (fst p, snd p @ ''.mcptracer.bak'')"

definition backup_metadata_path :: "path \<Rightarrow> path" where
  "backup_metadata_path p = (fst p, snd p @ ''.mcptracer.bak.meta'')"

definition config_sha256 :: "setup_env \<Rightarrow> bytes \<Rightarrow> string" where
  "config_sha256 env bs = sha256_hex (se_serde env) bs"

text \<open>The outcomes of the system calls of one setup.\<close>

record setup_io =
  si_backup :: io
  si_meta_write :: io
  si_meta_rename :: io
  si_config_write :: io
  si_config_rename :: io
  si_meta_cleanup :: io

definition write_with_backup ::
  "setup_env \<Rightarrow> setup_io \<Rightarrow> setup_client \<Rightarrow> path \<Rightarrow> string \<Rightarrow> bytes \<Rightarrow> files \<Rightarrow> unit io_result \<times> files" where
  "write_with_backup env sio client p original updated fs =
     (case fs_write (si_backup sio) (backup_path p) original fs of
        (False, fs1) \<Rightarrow> (IoError ''failed to write configuration backup'', fs1)
      | (True, fs1) \<Rightarrow>
          let metadata = \<lparr>um_format_version = 1, um_client = display_name client,
                um_expected_config_sha256 = config_sha256 env updated\<rparr>
          in case replace_file (si_meta_write sio) (si_meta_rename sio) (backup_metadata_path p)
                (se_metadata_to_vec env metadata) fs1 of
               (IoError e, fs2) \<Rightarrow> (IoError ''failed to write undo ownership metadata'', fs2)
             | (IoOk _, fs2) \<Rightarrow>
                 (case replace_file (si_config_write sio) (si_config_rename sio) p updated fs2 of
                    (IoError e, fs3) \<Rightarrow>
                      (IoError ''configuration replacement failed; original is retained'',
                       snd (fs_remove (si_meta_cleanup sio) (backup_metadata_path p) fs3))
                  | (IoOk _, fs3) \<Rightarrow> (IoOk (), fs3)))"

record setup_result =
  sx_wrapped_servers :: usize
  sx_total_stdio_servers :: usize
  sx_backup_path :: "path option"

definition inject_config_with_db ::
  "setup_env \<Rightarrow> setup_io \<Rightarrow> setup_client \<Rightarrow> string \<Rightarrow> path \<Rightarrow> string option \<Rightarrow> files \<Rightarrow> setup_result io_result \<times> files" where
  "inject_config_with_db env sio client cmd p db_path fs =
     (case Option.bind (fs p) (\<lambda>bs. if se_utf8 env bs then Some bs else None) of
        None \<Rightarrow> (IoError ''failed to read configuration'', fs)
      | Some original \<Rightarrow>
          (case (if is_toml client then inject_toml_with_db env original client cmd db_path
                 else inject_json_with_db env original client cmd db_path) of
             Inl e \<Rightarrow> (IoError e, fs)
           | Inr (updated, total_stdio, wrapped_servers) \<Rightarrow>
               if wrapped_servers = 0
               then (IoOk \<lparr>sx_wrapped_servers = 0, sx_total_stdio_servers = total_stdio, sx_backup_path = None\<rparr>, fs)
               else if fs (backup_path p) \<noteq> None
               then (IoError ''refusing to overwrite existing MCPTracer backup'', fs)
               else if fs (backup_metadata_path p) \<noteq> None
               then (IoError ''refusing to overwrite existing MCPTracer undo metadata'', fs)
               else case write_with_backup env sio client p original updated fs of
                   (IoError e, fs1) \<Rightarrow> (IoError e, fs1)
                 | (IoOk _, fs1) \<Rightarrow>
                     (IoOk \<lparr>sx_wrapped_servers = wrapped_servers, sx_total_stdio_servers = total_stdio,
                        sx_backup_path = Some (backup_path p)\<rparr>, fs1)))"

section \<open>Undo\<close>

record restore_io =
  ri_config_write :: io
  ri_config_rename :: io
  ri_meta_remove :: io
  ri_backup_remove :: io

definition backup_parses :: "setup_env \<Rightarrow> setup_client \<Rightarrow> bytes \<Rightarrow> bool" where
  "backup_parses env client backup \<longleftrightarrow>
     se_utf8 env backup \<and>
     (if is_toml client then se_toml_from_str env backup \<noteq> None
      else parse_json (se_serde env) (strip_jsonc backup) \<noteq> None)"

text \<open>Whether undo owns the active configuration: its metadata is for this client and this content.\<close>

definition ownership_error :: "setup_env \<Rightarrow> setup_client \<Rightarrow> bytes option \<Rightarrow> bytes \<Rightarrow> string option" where
  "ownership_error env client metadata_bytes current =
     (case metadata_bytes of
        None \<Rightarrow> Some ''undo ownership cannot be verified''
      | Some bs \<Rightarrow>
          (case se_metadata_from_slice env bs of
             None \<Rightarrow> Some ''MCPTracer backup ownership metadata is invalid''
           | Some metadata \<Rightarrow>
               if um_format_version metadata \<noteq> 1 \<or> um_client metadata \<noteq> display_name client
               then Some ''MCPTracer backup ownership metadata does not match this client''
               else if config_sha256 env current \<noteq> um_expected_config_sha256 metadata
               then Some ''refusing to overwrite; it changed after MCPTracer setup''
               else None))"

definition finish_restore :: "restore_io \<Rightarrow> path \<Rightarrow> files \<Rightarrow> unit io_result \<times> files" where
  "finish_restore rio p fs =
     (if fs (backup_metadata_path p) \<noteq> None \<and> \<not> fst (fs_remove (ri_meta_remove rio) (backup_metadata_path p) fs)
      then (IoError ''failed to remove undo metadata'', fs)
      else
        let fs1 = snd (fs_remove (ri_meta_remove rio) (backup_metadata_path p) fs)
        in case fs_remove (ri_backup_remove rio) (backup_path p) fs1 of
             (False, fs2) \<Rightarrow> (IoError ''failed to remove restored backup'', fs2)
           | (True, fs2) \<Rightarrow> (IoOk (), fs2))"

definition restore_config ::
  "setup_env \<Rightarrow> restore_io \<Rightarrow> setup_client \<Rightarrow> path \<Rightarrow> bool \<Rightarrow> files \<Rightarrow> unit io_result \<times> files" where
  "restore_config env rio client p force fs =
     (case fs (backup_path p) of
        None \<Rightarrow> (IoError ''no MCPTracer backup exists; cannot undo'', fs)
      | Some backup \<Rightarrow>
          if \<not> backup_parses env client backup then (IoError ''refusing to restore an invalid backup'', fs)
          else if fs p = None \<and> \<not> force then (IoError ''cannot verify whether the configuration changed after MCPTracer setup'', fs)
          else
            let already_restored = (fs p = Some backup)
            in case (if \<not> already_restored \<and> \<not> force
                     then ownership_error env client (fs (backup_metadata_path p)) (the (fs p)) else None) of
                 Some e \<Rightarrow> (IoError e, fs)
               | None \<Rightarrow>
                   (case (if \<not> already_restored
                          then replace_file (ri_config_write rio) (ri_config_rename rio) p backup fs
                          else (IoOk (), fs)) of
                      (IoError e, fs1) \<Rightarrow> (IoError e, fs1)
                    | (IoOk _, fs1) \<Rightarrow> finish_restore rio p fs1))"

end
