(* ===== verification/SetupProps.thy ===== *)
theory SetupProps
  imports Setup
begin

text \<open>
  What setup guarantees: the original configuration survives every failure and crash, undo gives it
  back byte for byte, and the rewriting wraps each stdio server once and touches nothing else.
\<close>

section \<open>Names\<close>

lemma path_lengths:
  "length (snd (backup_path p)) = length (snd p) + 14" "length (snd (backup_metadata_path p)) = length (snd p) + 19"
  "length (snd (config_temp_path p)) = length (snd p) + 15"
  by (simp_all add: backup_path_def backup_metadata_path_def config_temp_path_def)

lemma path_last:
  "last (snd (backup_path p)) = CHR ''k''" "last (snd (backup_metadata_path p)) = CHR ''a''"
  "last (snd (config_temp_path p)) = CHR ''p''"
  by (simp_all add: backup_path_def backup_metadata_path_def config_temp_path_def)

lemma setup_paths_distinct:
  "backup_path p \<noteq> p" "backup_metadata_path p \<noteq> p" "backup_path p \<noteq> backup_metadata_path p"
  "config_temp_path (backup_metadata_path p) \<noteq> p"
  by (auto dest!: arg_cong[where f = "\<lambda>q. length (snd q)"] simp: path_lengths)

lemma setup_temp_distinct: "backup_path p \<noteq> config_temp_path q" "backup_metadata_path p \<noteq> config_temp_path q"
  by (auto dest!: arg_cong[where f = "\<lambda>q. last (snd q)"] simp: path_last)

lemmas setup_paths [simp] = setup_paths_distinct setup_paths_distinct[symmetric] setup_temp_distinct
  setup_temp_distinct[symmetric]

section \<open>Crash safety\<close>

definition rewrite_config ::
  "setup_env \<Rightarrow> setup_client \<Rightarrow> string \<Rightarrow> string option \<Rightarrow> string \<Rightarrow> string + string \<times> usize \<times> usize" where
  "rewrite_config env client cmd db_path original =
     (if is_toml client then inject_toml_with_db env original client cmd db_path
      else inject_json_with_db env original client cmd db_path)"

text \<open>Any number of setups and undos, for any clients, with any failures.\<close>

inductive setup_history :: "setup_env \<Rightarrow> path \<Rightarrow> bytes \<Rightarrow> files \<Rightarrow> bool" for env p orig where
  configured: "fs p = Some orig \<Longrightarrow> fs (backup_path p) = None \<Longrightarrow> fs (backup_metadata_path p) = None
    \<Longrightarrow> setup_history env p orig fs"
| set_up: "setup_history env p orig fs \<Longrightarrow> inject_config_with_db env sio client cmd p db_path fs = (r, fs')
    \<Longrightarrow> setup_history env p orig fs'"
| undone: "setup_history env p orig fs \<Longrightarrow> restore_config env rio client p False fs = (r', fs')
    \<Longrightarrow> setup_history env p orig fs'"

definition recoverable :: "path \<Rightarrow> bytes \<Rightarrow> files \<Rightarrow> bool" where
  "recoverable p orig fs \<longleftrightarrow>
     fs (backup_path p) = Some orig \<or> fs p = Some orig \<and> fs (backup_metadata_path p) = None"

definition whole :: "setup_env \<Rightarrow> path \<Rightarrow> bytes \<Rightarrow> files \<Rightarrow> bool" where
  "whole env p orig fs \<longleftrightarrow> fs p = Some orig \<or>
     (\<exists>client cmd db_path updated n k. rewrite_config env client cmd db_path orig = Inr (updated, n, k) \<and> fs p = Some updated)"

lemma write_with_backup_cases:
  assumes "write_with_backup env sio client p orig updated fs = (r, fs')" "fs p = Some orig"
    "fs (backup_metadata_path p) = None"
  shows "recoverable p orig fs'" "fs' p = Some orig \<or> fs' p = Some updated"
proof -
  obtain ok fs1 where w: "fs_write (si_backup sio) (backup_path p) orig fs = (ok, fs1)" by fastforce
  have fs1: "fs1 p = Some orig" "fs1 (backup_metadata_path p) = None" "ok \<Longrightarrow> fs1 (backup_path p) = Some orig"
    using w assms(2,3) by (auto simp: fs_write_def split: io.splits option.splits)
  let ?m = "se_metadata_to_vec env \<lparr>um_format_version = 1, um_client = display_name client,
      um_expected_config_sha256 = config_sha256 env updated\<rparr>"
  obtain r2 fs2 where m: "replace_file (si_meta_write sio) (si_meta_rename sio) (backup_metadata_path p) ?m fs1 = (r2, fs2)"
    by fastforce
  have fs2: "fs2 p = fs1 p" "fs2 (backup_path p) = fs1 (backup_path p)"
    using replace_file_cases(2)[OF m, of p] replace_file_cases(2)[OF m, of "backup_path p"] by simp_all
  obtain r3 fs3 where c: "replace_file (si_config_write sio) (si_config_rename sio) p updated fs2 = (r3, fs3)" by fastforce
  have fs3: "fs3 (backup_path p) = fs2 (backup_path p)" "fs3 p = fs2 p \<or> fs3 p = Some updated"
    using replace_file_cases(1)[OF c] replace_file_cases(2)[OF c, of "backup_path p"] by auto
  show "recoverable p orig fs'" "fs' p = Some orig \<or> fs' p = Some updated"
    using assms(1) w m c fs1 fs2 fs3
    by (auto simp: write_with_backup_def recoverable_def fs_remove_cases split: bool.splits io_result.splits)
qed

lemma inject_config_cases:
  assumes "inject_config_with_db env sio client cmd p db_path fs = (r, fs')"
  shows "fs' = fs \<or> (\<exists>original updated n k r'. fs p = Some original \<and> fs (backup_path p) = None
      \<and> fs (backup_metadata_path p) = None \<and> rewrite_config env client cmd db_path original = Inr (updated, n, k)
      \<and> write_with_backup env sio client p original updated fs = (r', fs'))"
proof (cases "\<exists>original. fs p = Some original \<and> se_utf8 env original")
  case True
  then obtain original where o: "fs p = Some original" "se_utf8 env original" by blast
  show ?thesis
  proof (cases "rewrite_config env client cmd db_path original")
    case (Inr unk)
    obtain updated n k where unk: "unk = (updated, n, k)" by (cases unk)
    obtain r' fs1 where w: "write_with_backup env sio client p original updated fs = (r', fs1)" by fastforce
    have run: "inject_config_with_db env sio client cmd p db_path fs =
        (if k = 0 then (IoOk \<lparr>sx_wrapped_servers = 0, sx_total_stdio_servers = n, sx_backup_path = None\<rparr>, fs)
         else if fs (backup_path p) \<noteq> None then (IoError ''refusing to overwrite existing MCPTracer backup'', fs)
         else if fs (backup_metadata_path p) \<noteq> None then (IoError ''refusing to overwrite existing MCPTracer undo metadata'', fs)
         else (case r' of IoError e \<Rightarrow> (IoError e, fs1)
               | IoOk _ \<Rightarrow> (IoOk \<lparr>sx_wrapped_servers = k, sx_total_stdio_servers = n, sx_backup_path = Some (backup_path p)\<rparr>, fs1)))"
      using o Inr[unfolded rewrite_config_def unk] w by (simp add: inject_config_with_db_def split: io_result.split)
    show ?thesis
    proof (cases "k = 0 \<or> fs (backup_path p) \<noteq> None \<or> fs (backup_metadata_path p) \<noteq> None")
      case True
      with assms run have "fs' = fs" by (auto split: if_splits)
      then show ?thesis ..
    next
      case False
      with assms run have "fs' = fs1" by (cases r') simp_all
      with o Inr unk w False show ?thesis by auto
    qed
  qed (use assms o in \<open>simp add: inject_config_with_db_def rewrite_config_def\<close>)
next
  case False
  then have "Option.bind (fs p) (\<lambda>bs. if se_utf8 env bs then Some bs else None) = None"
    by (cases "fs p") auto
  with assms show ?thesis by (simp add: inject_config_with_db_def)
qed

lemma finish_restore_cases:
  assumes "finish_restore rio p fs = (r, fs')"
  shows "fs' p = fs p" "fs' (backup_path p) = fs (backup_path p) \<or> fs' (backup_metadata_path p) = None"
  using assms by (auto simp: finish_restore_def fs_remove_def Let_def split: if_splits io.splits option.splits prod.splits)

lemma restore_config_cases:
  assumes "restore_config env rio client p force fs = (r, fs')"
  shows "fs' = fs \<or> (\<exists>backup. fs (backup_path p) = Some backup
    \<and> (fs p = Some backup \<or> force \<or> fs (backup_metadata_path p) \<noteq> None)
    \<and> (fs' p = fs p \<and> fs' (backup_path p) = Some backup
        \<or> fs' p = Some backup \<and> (fs' (backup_path p) = Some backup \<or> fs' (backup_metadata_path p) = None)))"
proof (cases "fs (backup_path p)")
  case None
  with assms show ?thesis by (simp add: restore_config_def)
next
  case (Some backup)
  show ?thesis
  proof (cases "fs p = Some backup")
    case True
    with assms Some show ?thesis
      using finish_restore_cases[of rio p fs r fs'] by (auto simp: restore_config_def Let_def split: if_splits)
  next
    case False
    obtain x fs1 where w: "replace_file (ri_config_write rio) (ri_config_rename rio) p backup fs = (x, fs1)" by fastforce
    have fs1: "fs1 (backup_path p) = Some backup" "x = IoOk () \<and> fs1 p = Some backup \<or> x \<noteq> IoOk () \<and> fs1 p = fs p"
      using replace_file_cases(1)[OF w] replace_file_cases(2)[OF w, of "backup_path p"] Some by auto
    show ?thesis
    proof (cases x)
      case (IoError e)
      with assms Some False w fs1 show ?thesis
        by (auto simp: restore_config_def ownership_error_def Let_def split: if_splits option.splits)
    next
      case (IoOk u)
      with assms Some False w fs1 finish_restore_cases[of rio p fs1 r fs'] show ?thesis
        by (auto simp: restore_config_def ownership_error_def Let_def split: if_splits option.splits)
    qed
  qed
qed

text \<open>
  However many setups and undos ran on a configuration, for whichever clients, and wherever
  each of them failed or was cut off, the original bytes are still in the configuration or in the
  complete backup, and the configuration holds the original or one whole rewriting of it.
\<close>

theorem setup_crash_safe:
  assumes "setup_history env p orig fs"
  shows "(fs (backup_path p) = Some orig \<or> fs p = Some orig \<and> fs (backup_metadata_path p) = None)
    \<and> (fs p = Some orig \<or> (\<exists>client cmd db_path updated n k.
         rewrite_config env client cmd db_path orig = Inr (updated, n, k) \<and> fs p = Some updated))"
proof -
  have "recoverable p orig fs \<and> whole env p orig fs"
    using assms
  proof induction
    case (set_up fs sio client cmd db_path r fs')
    from inject_config_cases[OF set_up.hyps(2)] show ?case
    proof (elim disjE exE conjE)
      fix original updated n k r'
      assume h: "fs p = Some original" "fs (backup_path p) = None" "fs (backup_metadata_path p) = None"
        "rewrite_config env client cmd db_path original = Inr (updated, n, k)"
        "write_with_backup env sio client p original updated fs = (r', fs')"
      then have o: "original = orig" using set_up.IH by (auto simp: recoverable_def)
      from write_with_backup_cases[OF h(5,1,3)] h(4) show ?thesis
        unfolding o whole_def by blast
    qed (use set_up.IH in simp)
  next
    case (undone fs rio client r' fs')
    from restore_config_cases[OF undone.hyps(2)] show ?case
    proof (elim disjE exE conjE)
      assume "fs' = fs"
      then show ?thesis using undone.IH by simp
    qed (use undone.IH in \<open>auto simp: recoverable_def whole_def\<close>)
  qed (auto simp: recoverable_def whole_def)
  then show ?thesis by (simp add: recoverable_def whole_def)
qed

text \<open>A configuration with one server, whose path holds a \<open>//\<close>, and nothing set up yet.\<close>

definition one_server_text :: string where
  "one_server_text = map (\<lambda>c. if c = CHR ''$'' then quote else c) ''{$mcpServers$: {$a$: {$command$: $//bin/x$}}}''"

definition one_server_files :: files where
  "one_server_files = [(''d'', ''c.json'') \<mapsto> one_server_text]"

lemma setup_crash_safe_witness:
  "\<forall>env sio. recoverable (''d'', ''c.json'') one_server_text
     (snd (inject_config_with_db env sio Cursor ''mcptracer'' (''d'', ''c.json'') None one_server_files))"
proof (intro allI)
  fix env sio
  have "setup_history env (''d'', ''c.json'') one_server_text one_server_files"
    by (rule configured) (simp_all add: one_server_files_def backup_path_def backup_metadata_path_def)
  from set_up[OF this prod.collapse[symmetric], of sio Cursor "''mcptracer''" None]
  have "setup_history env (''d'', ''c.json'') one_server_text
      (snd (inject_config_with_db env sio Cursor ''mcptracer'' (''d'', ''c.json'') None one_server_files))" .
  from setup_crash_safe[OF this] show "recoverable (''d'', ''c.json'') one_server_text
     (snd (inject_config_with_db env sio Cursor ''mcptracer'' (''d'', ''c.json'') None one_server_files))"
    by (simp add: recoverable_def)
qed

section \<open>Undo\<close>

definition all_work :: setup_io where
  "all_work = \<lparr>si_backup = Works, si_meta_write = Works, si_meta_rename = Works, si_config_write = Works,
     si_config_rename = Works, si_meta_cleanup = Works\<rparr>"

definition all_restore :: restore_io where
  "all_restore = \<lparr>ri_config_write = Works, ri_config_rename = Works, ri_meta_remove = Works, ri_backup_remove = Works\<rparr>"

lemma config_temps_differ [simp]: "config_temp_path (backup_metadata_path p) \<noteq> config_temp_path p"
  by (auto dest!: arg_cong[where f = "\<lambda>q. length (snd q)"] simp: path_lengths)

lemma inject_writes:
  assumes "inject_config_with_db env all_work client cmd p db_path fs = (IoOk res, fs1)" "sx_wrapped_servers res \<noteq> 0"
    "fs p = Some orig" "fs (config_temp_path p) = None" "fs (config_temp_path (backup_metadata_path p)) = None"
  shows "\<exists>updated n k. se_utf8 env orig \<and> rewrite_config env client cmd db_path orig = Inr (updated, n, k)
    \<and> fs1 = fs(backup_path p \<mapsto> orig, backup_metadata_path p \<mapsto> se_metadata_to_vec env
         \<lparr>um_format_version = 1, um_client = display_name client, um_expected_config_sha256 = config_sha256 env updated\<rparr>,
         p \<mapsto> updated)"
proof -
  have written: "write_with_backup env all_work client p orig updated fs = (IoOk (),
      fs(backup_path p \<mapsto> orig, backup_metadata_path p \<mapsto> se_metadata_to_vec env
         \<lparr>um_format_version = 1, um_client = display_name client, um_expected_config_sha256 = config_sha256 env updated\<rparr>,
         p \<mapsto> updated))" for updated
    using assms(4,5) by (simp add: write_with_backup_def all_work_def fs_write_def replace_file_works)
  from assms(1-3) show ?thesis
    by (auto simp: inject_config_with_db_def rewrite_config_def written split: if_splits sum.splits prod.splits)
qed

section \<open>Strict JSON has nothing to strip\<close>

text \<open>
  The lexical rules of RFC 8259, which \<open>serde_json\<close> documents it keeps: a string literal ends and
  holds no raw line feed; outside the literals there are only structural characters, blanks and the
  characters of numbers, \<open>true\<close>, \<open>false\<close> and \<open>null\<close>; no comma stands directly before a closing
  bracket. This says nothing about the program: the stripper is proved to keep such a text.
\<close>

fun literal_rest :: "string \<Rightarrow> string option" where
  "literal_rest [] = None"
| "literal_rest (c # cs) =
     (if c = quote then Some cs
      else if c = newline then None
      else if c = backslash then (case cs of [] \<Rightarrow> None | _ # ds \<Rightarrow> literal_rest ds)
      else literal_rest cs)"

definition json_blank :: "char \<Rightarrow> bool" where
  "json_blank c \<longleftrightarrow> c = CHR '' '' \<or> c = CHR 0x09 \<or> c = newline \<or> c = CHR 0x0D"

definition json_token :: "char \<Rightarrow> bool" where
  "json_token c \<longleftrightarrow> json_blank c \<or> c \<in> set ''{}[]:,+-.0123456789Eaeflnrstu''"

definition json_closes :: "string \<Rightarrow> bool" where
  "json_closes cs \<longleftrightarrow> (case dropWhile json_blank cs of c # _ \<Rightarrow> c = CHR ''}'' \<or> c = CHR '']'' | [] \<Rightarrow> False)"

lemma literal_rest_length: "literal_rest cs = Some rest \<Longrightarrow> length rest < length cs"
  by (induction cs rule: literal_rest.induct) (auto split: if_splits list.splits)

function json_lexical :: "string \<Rightarrow> bool" where
  "json_lexical [] \<longleftrightarrow> True"
| "json_lexical (c # cs) \<longleftrightarrow>
     (if c = quote then (case literal_rest cs of None \<Rightarrow> False | Some rest \<Rightarrow> json_lexical rest)
      else json_token c \<and> (c = CHR '','' \<longrightarrow> \<not> json_closes cs) \<and> json_lexical cs)"
  by pat_completeness auto
termination
  by (relation "measure length") (auto dest: literal_rest_length)

lemma literal_split:
  assumes "literal_rest cs = Some rest"
  shows "\<exists>lit. cs = lit @ rest
    \<and> strip_comments_from InString cs = map_option ((@) lit) (strip_comments_from Normal rest)
    \<and> strip_commas_from True False cs = lit @ strip_commas_from False False rest"
  using assms
proof (induction cs rule: literal_rest.induct)
  case (2 c cs)
  consider "c = quote" | "c = backslash" "c \<noteq> quote" | "c \<noteq> quote" "c \<noteq> backslash" by blast
  then show ?case
  proof cases
    case 1
    with 2 show ?thesis by (intro exI[of _ "[quote]"]) (simp add: quote_def backslash_def)
  next
    case 2
    with "2.prems" obtain d ds where cs: "cs = d # ds" "literal_rest ds = Some rest"
      by (auto simp: newline_def backslash_def split: list.splits if_splits)
    with "2.IH"(1) 2 obtain lit where "ds = lit @ rest"
      "strip_comments_from InString ds = map_option ((@) lit) (strip_comments_from Normal rest)"
      "strip_commas_from True False ds = lit @ strip_commas_from False False rest"
      by (auto simp: newline_def backslash_def)
    with 2 cs show ?thesis
      by (intro exI[of _ "c # d # lit"]) (cases "strip_comments_from Normal rest"; simp)
  next
    case 3
    with "2.prems" "2.IH"(2) obtain lit where "cs = lit @ rest"
      "strip_comments_from InString cs = map_option ((@) lit) (strip_comments_from Normal rest)"
      "strip_commas_from True False cs = lit @ strip_commas_from False False rest" "c \<noteq> newline"
      by (auto split: if_splits)
    with 3 show ?thesis
      by (intro exI[of _ "c # lit"]) (cases "strip_comments_from Normal rest"; simp)
  qed
qed simp

lemma whitespace_bytes:
  "list_all (\<lambda>w. w \<noteq> [] \<and> (of_char (hd w) < (128::nat) \<longrightarrow> length w = 1)) whitespace"
  by code_simp

lemma whitespace_blanks: "list_all (\<lambda>c. [c] \<in> set whitespace) [CHR 0x09, newline, CHR 0x0D, CHR '' '']"
  by code_simp

lemma whitespace_tokens: "list_all (\<lambda>c. \<not> [c] \<in> set whitespace) (quote # ''{}[]:,+-.0123456789Eaeflnrstu'')"
  by code_simp

lemma ascii_tokens:
  "list_all (\<lambda>c. of_char c < (128::nat)) (quote # CHR 0x09 # newline # CHR 0x0D # '' {}[]:,+-.0123456789Eaeflnrstu'')"
  by code_simp

lemma leading_len_ascii:
  assumes "of_char c < (128::nat)"
  shows "leading_len whitespace (c # cs) = (if [c] \<in> set whitespace then 1 else 0)"
proof (cases "find (\<lambda>w. w \<noteq> [] \<and> prefix w (c # cs)) whitespace")
  case None
  then have "[c] \<notin> set whitespace" by (auto simp: find_None_iff)
  with None show ?thesis by (simp add: leading_len_def)
next
  case (Some w)
  then have w: "w \<in> set whitespace" "w \<noteq> []" "prefix w (c # cs)"
    by (auto simp: find_Some_iff)
  from w(3,2) have "hd w = c" by (auto simp: prefix_Cons)
  with w(1) assms whitespace_bytes have "length w = 1" by (auto simp: list_all_iff)
  with \<open>hd w = c\<close> have "w = [c]" by (auto simp: length_Suc_conv)
  with w Some show ?thesis by (simp add: leading_len_def)
qed

lemma trim_start_token:
  "json_blank c \<Longrightarrow> trim_start (c # cs) = trim_start cs"
  "c = quote \<or> json_token c \<Longrightarrow> \<not> json_blank c \<Longrightarrow> trim_start (c # cs) = c # cs"
  "trim_start [] = []"
proof -
  assume "json_blank c"
  then have "of_char c < (128::nat)" "[c] \<in> set whitespace"
    using ascii_tokens whitespace_blanks by (auto simp: json_blank_def list_all_iff)
  then show "trim_start (c # cs) = trim_start cs"
    unfolding trim_start_def by (subst trim_with.simps) (simp add: leading_len_ascii)
next
  assume "c = quote \<or> json_token c" "\<not> json_blank c"
  then have "c \<in> set (quote # ''{}[]:,+-.0123456789Eaeflnrstu'')" by (auto simp: json_token_def)
  then have "of_char c < (128::nat)" "[c] \<notin> set whitespace"
    using ascii_tokens whitespace_tokens by (auto simp: list_all_iff)
  then show "trim_start (c # cs) = c # cs"
    unfolding trim_start_def by (subst trim_with.simps) (simp add: leading_len_ascii)
next
  have "leading_len whitespace [] = 0" by (auto simp: leading_len_def find_Some_iff split: option.splits)
  then show "trim_start [] = []" unfolding trim_start_def by (subst trim_with.simps) simp
qed

lemma closes_next_lexical:
  assumes "json_lexical cs"
  shows "closes_next cs = json_closes cs"
proof -
  have "trim_start cs = dropWhile json_blank cs"
    using assms
  proof (induction cs)
    case (Cons c cs)
    show ?case
    proof (cases "json_blank c")
      case True
      then have "c \<noteq> quote" by (auto simp: json_blank_def quote_def newline_def)
      with Cons True show ?thesis by (simp add: trim_start_token(1))
    next
      case False
      moreover have "c = quote \<or> json_token c" using Cons.prems by (auto split: if_splits)
      ultimately show ?thesis by (simp add: trim_start_token(2))
    qed
  qed (simp add: trim_start_token(3))
  then show ?thesis by (simp add: closes_next_def json_closes_def)
qed

lemma strip_jsonc_strict:
  assumes "json_lexical s"
  shows "strip_jsonc s = s"
proof -
  have "strip_comments_from Normal s = Some s \<and> strip_commas_from False False s = s"
    using assms
  proof (induction s rule: json_lexical.induct)
    case (2 c cs)
    show ?case
    proof (cases "c = quote")
      case True
      with "2.prems" obtain rest where rest: "literal_rest cs = Some rest" "json_lexical rest"
        by (auto split: option.splits)
      with "2.IH"(1)[OF True rest(1) rest(2)] literal_split[OF rest(1)] True show ?thesis
        by (auto simp: quote_def)
    next
      case False
      with "2.prems" have p: "json_token c" "c = CHR '','' \<longrightarrow> \<not> json_closes cs" "json_lexical cs" by auto
      from p(1) have "c \<noteq> CHR ''/''" by (auto simp: json_token_def json_blank_def newline_def)
      with "2.IH"(2)[OF False p(3)] False p closes_next_lexical[OF p(3)] show ?thesis by auto
    qed
  qed simp
  then show ?thesis
    by (simp add: strip_jsonc_def strip_jsonc_comments_def strip_trailing_commas_def)
qed

text \<open>
  C17: Undo reverses setup: after a setup that changed a configuration, undo puts back the original
  bytes, removes the backup and the metadata and touches no other file; if the configuration was
  edited in between (its hash differs), undo refuses and changes nothing. The hypotheses: the file
  and both temporary names were free of leftovers, every system call works, the metadata codec reads
  back what it wrote, and \<open>serde_json\<close> accepts only texts that obey the lexical rules of JSON
  (\<open>json_lexical\<close>). That the comment and trailing-comma stripper, which undo runs on the backup and
  setup does not run on strict JSON, keeps such a text (comment marks and commas in strings included)
  is proved (\<open>strip_jsonc_strict\<close>).
\<close>

theorem setup_undo_roundtrip:
  assumes changed: "inject_config_with_db env all_work client cmd p db_path fs = (IoOk res, fs1)" "sx_wrapped_servers res \<noteq> 0"
    and orig: "fs p = Some orig"
    and temps: "fs (config_temp_path p) = None" "fs (config_temp_path (backup_metadata_path p)) = None"
    and codec: "\<And>h. se_metadata_from_slice env (se_metadata_to_vec env
        \<lparr>um_format_version = 1, um_client = display_name client, um_expected_config_sha256 = h\<rparr>)
      = Some \<lparr>um_format_version = 1, um_client = display_name client, um_expected_config_sha256 = h\<rparr>"
    and serde_strict: "\<And>s v. parse_json (se_serde env) s = Some v \<Longrightarrow> json_lexical s"
  shows "restore_config env all_restore client p False fs1
      = (IoOk (), fs1(p \<mapsto> orig, backup_metadata_path p := None, backup_path p := None))
    \<and> (\<forall>edited rio. edited \<noteq> orig \<longrightarrow> config_sha256 env edited \<noteq> config_sha256 env (the (fs1 p)) \<longrightarrow>
         fst (restore_config env rio client p False (fs1(p \<mapsto> edited))) \<noteq> IoOk ()
       \<and> snd (restore_config env rio client p False (fs1(p \<mapsto> edited))) = fs1(p \<mapsto> edited))"
proof -
  from inject_writes[OF changed orig temps] obtain updated n k where u: "se_utf8 env orig"
    "rewrite_config env client cmd db_path orig = Inr (updated, n, k)"
    and fs1: "fs1 = fs(backup_path p \<mapsto> orig, backup_metadata_path p \<mapsto> se_metadata_to_vec env
         \<lparr>um_format_version = 1, um_client = display_name client, um_expected_config_sha256 = config_sha256 env updated\<rparr>,
         p \<mapsto> updated)" by blast
  have parses: "backup_parses env client orig"
    using u strip_jsonc_strict[OF serde_strict]
    by (auto simp: backup_parses_def rewrite_config_def inject_toml_with_db_def inject_json_with_db_def parse_config_def
        split: if_splits option.splits)
  have temp: "fs1 (config_temp_path p) = None" using temps(1) by (simp add: fs1)
  have owned: "ownership_error env client (fs1 (backup_metadata_path p)) updated = None"
    by (simp add: ownership_error_def fs1 codec del: One_nat_def)
  have "finish_restore all_restore p fs2 = (IoOk (), fs2(backup_metadata_path p := None, backup_path p := None))"
    if "fs2 (backup_path p) \<noteq> None" "fs2 (backup_metadata_path p) \<noteq> None" for fs2
    using that by (auto simp: finish_restore_def all_restore_def fs_remove_def)
  note finish = this
  have vals: "fs1 p = Some updated" "fs1 (backup_path p) = Some orig" "fs1 (backup_metadata_path p) \<noteq> None"
    by (simp_all add: fs1)
  have "restore_config env all_restore client p False fs1
      = (IoOk (), fs1(p \<mapsto> orig, backup_metadata_path p := None, backup_path p := None))"
  proof (cases "updated = orig")
    case True
    then have "fs1(p \<mapsto> orig) = fs1" using vals(1) by auto
    with True show ?thesis
      using finish[of fs1] vals by (simp add: restore_config_def parses)
  next
    case False
    have r: "replace_file (ri_config_write all_restore) (ri_config_rename all_restore) p orig fs1 = (IoOk (), fs1(p \<mapsto> orig))"
      using temp by (simp add: all_restore_def replace_file_works)
    with False show ?thesis
      using finish[of "fs1(p \<mapsto> orig)"] vals by (simp add: restore_config_def parses owned)
  qed
  moreover have "fst (restore_config env rio client p False (fs1(p \<mapsto> edited))) \<noteq> IoOk ()
       \<and> snd (restore_config env rio client p False (fs1(p \<mapsto> edited))) = fs1(p \<mapsto> edited)"
    if "edited \<noteq> orig" "config_sha256 env edited \<noteq> config_sha256 env (the (fs1 p))" for edited rio
    using that by (simp add: restore_config_def parses ownership_error_def fs1 codec del: One_nat_def)
  ultimately show ?thesis by blast
qed

text \<open>Setting up a client whose configuration has one stdio server.\<close>

definition one_server :: json where
  "one_server = JObject [(''mcpServers'', JObject [(''a'', JObject [(''command'', JString ''//bin/x'')])])]"

definition one_server_env :: setup_env where
  "one_server_env =
     \<lparr>se_serde = \<lparr>parse_json = (\<lambda>s. if s = one_server_text then Some one_server else None), print_json = (\<lambda>v. []),
        json_pointer = (\<lambda>v p. None), sha256_digest = (\<lambda>s. s)\<rparr>,
      se_pretty = (\<lambda>v. ''u''), se_toml_from_str = (\<lambda>s. None), se_toml_pretty = (\<lambda>t. []),
      se_metadata_to_vec = um_expected_config_sha256,
      se_metadata_from_slice = (\<lambda>h. Some \<lparr>um_format_version = 1, um_client = ''cursor'', um_expected_config_sha256 = h\<rparr>),
      se_utf8 = (\<lambda>bs. True)\<rparr>"

lemma one_server_injected:
  "\<exists>fs1. inject_config_with_db one_server_env all_work Cursor ''mcptracer'' (''d'', ''c.json'') None one_server_files
    = (IoOk \<lparr>sx_wrapped_servers = 1, sx_total_stdio_servers = 1, sx_backup_path = Some (backup_path (''d'', ''c.json''))\<rparr>, fs1)"
proof -
  have j: "inject_json_value Cursor ''mcptracer'' None one_server
      = Inr (JObject [(''mcpServers'', JObject [(''a'', JObject [(''args'', JArray (map JString [''record'', ''--client'', ''cursor'', ''--'', ''//bin/x''])),
          (''command'', JString ''mcptracer'')])])], 1, 1)"
    by code_simp
  have i: "inject_json_with_db one_server_env one_server_text Cursor ''mcptracer'' None = Inr (''u'' @ [newline], 1, 1)"
    by (simp add: inject_json_with_db_def parse_config_def j) (simp add: one_server_env_def j)
  have free: "one_server_files (''d'', ''c.json'') = Some one_server_text" "one_server_files (backup_path (''d'', ''c.json'')) = None"
    "one_server_files (backup_metadata_path (''d'', ''c.json'')) = None"
    "one_server_files (config_temp_path (''d'', ''c.json'')) = None"
    "one_server_files (config_temp_path (backup_metadata_path (''d'', ''c.json''))) = None"
    by (simp_all add: one_server_files_def backup_path_def backup_metadata_path_def config_temp_path_def)
  have utf: "se_utf8 one_server_env bs" for bs by (simp add: one_server_env_def)
  show ?thesis
    by (simp add: inject_config_with_db_def free utf is_toml_def i write_with_backup_def all_work_def fs_write_def
        replace_file_works)
qed

lemma setup_undo_roundtrip_witness:
  "\<exists>fs1. snd (inject_config_with_db one_server_env all_work Cursor ''mcptracer'' (''d'', ''c.json'') None one_server_files) = fs1
    \<and> snd (restore_config one_server_env all_restore Cursor (''d'', ''c.json'') False fs1) (''d'', ''c.json'') = Some one_server_text"
proof -
  obtain fs1 where i: "inject_config_with_db one_server_env all_work Cursor ''mcptracer'' (''d'', ''c.json'') None one_server_files
    = (IoOk \<lparr>sx_wrapped_servers = 1, sx_total_stdio_servers = 1, sx_backup_path = Some (backup_path (''d'', ''c.json''))\<rparr>, fs1)"
    using one_server_injected by blast
  have "json_lexical one_server_text" by code_simp
  then have "restore_config one_server_env all_restore Cursor (''d'', ''c.json'') False fs1
      = (IoOk (), fs1((''d'', ''c.json'') \<mapsto> one_server_text, backup_metadata_path (''d'', ''c.json'') := None,
          backup_path (''d'', ''c.json'') := None))"
    by (intro conjunct1[OF setup_undo_roundtrip[OF i]])
      (simp_all add: one_server_files_def backup_path_def backup_metadata_path_def config_temp_path_def one_server_env_def
        split: if_splits)
  then show ?thesis by (simp add: i)
qed

end
