(* ===== verification/WrapProps.thy ===== *)
theory WrapProps
  imports SetupProps
begin

text \<open>
  The rewriting of a configuration: the interface \<open>server_table\<close> states what the JSON and the TOML
  rewriting of one server share, \<open>server_tables\<close> extends it to a table of servers, their lemmas say
  what wrapping does, and the interpretations discharge both for both formats.
\<close>

section \<open>What wrapping means\<close>

text \<open>
  For either format, given how it reads a string, an argument list and a table: the command line of a
  server, whether it is started by a command that is not the recorder, and what becomes of it.
\<close>

definition command_line ::
  "('v \<Rightarrow> string option) \<Rightarrow> ('v option \<Rightarrow> string + string list) \<Rightarrow> (string, 'v) btree \<Rightarrow> (string \<times> string list) option" where
  "command_line str args_of server =
     (case (Option.bind (bt_get server ''command'') str, args_of (bt_get server ''args'')) of
        (Some c, Inr a) \<Rightarrow> Some (c, a)
      | _ \<Rightarrow> None)"

definition needs_wrapping ::
  "('v \<Rightarrow> string option) \<Rightarrow> ('v option \<Rightarrow> string + string list) \<Rightarrow> (string, 'v) btree \<Rightarrow> bool" where
  "needs_wrapping str args_of server \<longleftrightarrow>
     (case command_line str args_of server of Some (c, a) \<Rightarrow> \<not> is_mcptracer_record_wrapper c a | None \<Rightarrow> False)"

definition wrapped_as ::
  "('v \<Rightarrow> string option) \<Rightarrow> ('v option \<Rightarrow> string + string list) \<Rightarrow> setup_client \<Rightarrow> string \<Rightarrow> string option
    \<Rightarrow> (string, 'v) btree \<Rightarrow> (string, 'v) btree \<Rightarrow> bool" where
  "wrapped_as str args_of client cmd db server server' \<longleftrightarrow>
     (if needs_wrapping str args_of server
      then \<exists>c a. command_line str args_of server = Some (c, a)
        \<and> command_line str args_of server' = Some (cmd, wrapped_args client c a db)
        \<and> (\<forall>k. k \<noteq> ''command'' \<longrightarrow> k \<noteq> ''args'' \<longrightarrow> bt_get server' k = bt_get server k)
      else server' = server)"


text \<open>The recorder recognises its own wrapper by the name of the program file.\<close>

definition recorder_name :: "string \<Rightarrow> bool" where
  "recorder_name cmd \<longleftrightarrow>
     map to_ascii_lowercase (case path_file_name cmd of Some name \<Rightarrow> name | None \<Rightarrow> cmd) \<in> {''mcptracer'', ''mcptracer.exe''}"

lemma wrapped_recognised: "is_mcptracer_record_wrapper cmd (wrapped_args client c a db) \<longleftrightarrow> recorder_name cmd"
  by (auto simp: recorder_name_def is_mcptracer_record_wrapper_def wrapped_args_def arg_is_def Let_def split: option.splits)

section \<open>The interface\<close>

locale server_table =
  fixes str :: "'v \<Rightarrow> string option"
    and mk_str :: "string \<Rightarrow> 'v"
    and args_of :: "'v option \<Rightarrow> string + string list"
    and mk_args :: "string list \<Rightarrow> 'v"
    and wrap :: "setup_client \<Rightarrow> string \<Rightarrow> string option \<Rightarrow> (string, 'v) btree \<Rightarrow> string + bool \<times> (string, 'v) btree"
  assumes str_mk: "str (mk_str s) = Some s"
    and args_mk: "args_of (Some (mk_args ss)) = Inr ss"
    and wrap_Some: "Option.bind (bt_get server ''command'') str = Some c \<Longrightarrow> args_of (bt_get server ''args'') = Inr a \<Longrightarrow>
      wrap client cmd db server =
        (if is_mcptracer_record_wrapper c a then Inr (False, server)
         else Inr (True, bt_insert ''args'' (mk_args (wrapped_args client c a db)) (bt_insert ''command'' (mk_str cmd) server)))"
    and wrap_None: "Option.bind (bt_get server ''command'') str = None \<or> (\<exists>e. args_of (bt_get server ''args'') = Inl e) \<Longrightarrow>
      \<exists>e. wrap client cmd db server = Inl e"
begin

lemma wrap_Inr:
  assumes "wrap client cmd db server = Inr (w, server')" "bt_wf server"
  shows "\<exists>c a. Option.bind (bt_get server ''command'') str = Some c \<and> args_of (bt_get server ''args'') = Inr a
    \<and> (w \<longleftrightarrow> \<not> is_mcptracer_record_wrapper c a)
    \<and> (if w then bt_get server' ''command'' = Some (mk_str cmd)
               \<and> bt_get server' ''args'' = Some (mk_args (wrapped_args client c a db))
               \<and> (\<forall>k. k \<noteq> ''command'' \<longrightarrow> k \<noteq> ''args'' \<longrightarrow> bt_get server' k = bt_get server k)
             else server' = server)
    \<and> bt_wf server'"
proof -
  obtain c a where ca: "Option.bind (bt_get server ''command'') str = Some c" "args_of (bt_get server ''args'') = Inr a"
    using assms(1) wrap_None[of server client cmd db]
    by (cases "Option.bind (bt_get server ''command'') str"; cases "args_of (bt_get server ''args'')") fastforce+
  have wf: "bt_wf (bt_insert ''command'' (mk_str cmd) server)" using assms(2) by (rule bt_wf_insert)
  from wrap_Some[OF ca, of client cmd db] assms show ?thesis
    by (cases "is_mcptracer_record_wrapper c a") (auto simp: ca bt.get_insert[OF wf] bt.get_insert[OF assms(2)] bt_wf_insert)
qed

lemma wrap_one:
  assumes "(if bt_get server ''command'' = None then Inr (False, server) else wrap client cmd db server)
      = Inr (w, server')" "bt_wf server"
  shows "wrapped_as str args_of client cmd db server server'" "w \<longleftrightarrow> needs_wrapping str args_of server"
    "bt_get server' ''command'' = None \<longleftrightarrow> bt_get server ''command'' = None" "bt_wf server'"
proof -
  have "wrapped_as str args_of client cmd db server server' \<and> (w \<longleftrightarrow> needs_wrapping str args_of server)
      \<and> (bt_get server' ''command'' = None \<longleftrightarrow> bt_get server ''command'' = None) \<and> bt_wf server'"
  proof (cases "bt_get server ''command''")
    case None
    with assms show ?thesis by (auto simp: wrapped_as_def needs_wrapping_def command_line_def)
  next
    case (Some v)
    with assms(1) have "wrap client cmd db server = Inr (w, server')" by simp
    from wrap_Inr[OF this assms(2)] obtain c a where ca: "Option.bind (bt_get server ''command'') str = Some c"
      "args_of (bt_get server ''args'') = Inr a" "w = (\<not> is_mcptracer_record_wrapper c a)" and wf: "bt_wf server'"
      and s': "if w then bt_get server' ''command'' = Some (mk_str cmd)
          \<and> bt_get server' ''args'' = Some (mk_args (wrapped_args client c a db))
          \<and> (\<forall>k. k \<noteq> ''command'' \<longrightarrow> k \<noteq> ''args'' \<longrightarrow> bt_get server' k = bt_get server k)
        else server' = server" by blast
    have line: "command_line str args_of server = Some (c, a)" using ca by (simp add: command_line_def)
    then have needs: "needs_wrapping str args_of server = w" using ca(3) by (simp add: needs_wrapping_def)
    show ?thesis
    proof (cases w)
      case True
      with s' have "command_line str args_of server' = Some (cmd, wrapped_args client c a db)"
        by (simp add: command_line_def str_mk args_mk)
      with True s' line needs wf Some show ?thesis by (simp add: wrapped_as_def)
    next
      case False
      with s' needs wf show ?thesis by (simp add: wrapped_as_def)
    qed
  qed
  then show "wrapped_as str args_of client cmd db server server'" "w \<longleftrightarrow> needs_wrapping str args_of server"
    "bt_get server' ''command'' = None \<longleftrightarrow> bt_get server ''command'' = None" "bt_wf server'" by blast+
qed

lemma needs_again:
  assumes "wrapped_as str args_of client cmd db server server'"
  shows "needs_wrapping str args_of server' \<longleftrightarrow> needs_wrapping str args_of server \<and> \<not> recorder_name cmd"
  using assms wrapped_recognised[of cmd client _ _ db]
  by (cases "needs_wrapping str args_of server") (auto simp: wrapped_as_def needs_wrapping_def)

lemma wrap_again:
  assumes "(if bt_get server ''command'' = None then Inr (False, server) else wrap client cmd db server)
      = Inr (w, server')" "bt_wf server"
  shows "\<exists>server''. (if bt_get server' ''command'' = None then Inr (False, server') else wrap client cmd db server')
        = Inr (w \<and> \<not> recorder_name cmd, server'') \<and> (recorder_name cmd \<longrightarrow> server'' = server')"
proof (cases w)
  case True
  with wrap_one(1,2)[OF assms] obtain c a where
    line: "command_line str args_of server' = Some (cmd, wrapped_args client c a db)"
    by (auto simp: wrapped_as_def)
  then have "Option.bind (bt_get server' ''command'') str = Some cmd"
    "args_of (bt_get server' ''args'') = Inr (wrapped_args client c a db)"
    by (auto simp: command_line_def split: option.splits sum.splits)
  moreover from this(1) have "bt_get server' ''command'' \<noteq> None" by (cases "bt_get server' ''command''") auto
  ultimately show ?thesis
    using wrap_Some[of server' cmd _ client cmd db] True wrapped_recognised[of cmd client c a db] by auto
next
  case False
  with wrap_one(1,2)[OF assms] have "server' = server" by (simp add: wrapped_as_def)
  with False assms(1) show ?thesis by auto
qed

end


lemma those_map_inverse: "(\<And>x. f (g x) = Some x) \<Longrightarrow> those (map f (map g xs)) = Some xs"
  by (induction xs) simp_all

interpretation json_server: server_table as_str JString json_args "\<lambda>ss. JArray (map JString ss)" wrap_json_server
proof unfold_locales
  show "json_args (Some (JArray (map JString ss))) = Inr ss" for ss
    using those_map_inverse[of as_str JString ss] by (simp add: json_args_def del: map_map)
qed (auto simp: wrap_json_server_def split: option.split sum.split)

interpretation toml_server: server_table toml_str TString toml_args "\<lambda>ss. TArray (map TString ss)" wrap_toml_server
proof unfold_locales
  show "toml_args (Some (TArray (map TString ss))) = Inr ss" for ss
    using those_map_inverse[of toml_str TString ss] by (simp add: toml_args_def del: map_map)
qed (auto simp: wrap_toml_server_def split: option.split sum.split)





section \<open>A whole configuration\<close>








end
