(* ===== verification/Evidence.thy ===== *)
theory Evidence
  imports Health Mtrace Diff Assertions Files
begin

text \<open>
  Evidence manifests: \<open>crates/mcptracer-model/src/manifest.rs\<close>, the \<open>assert\<close> command that writes
  them (\<open>crates/mcptracer-proxy/src/commands/assertions.rs\<close>) and the \<open>verify\<close> command that checks
  them offline (\<open>commands/verify.rs\<close>).  Printing results is left out; the manifest's JSON codec and
  the reading of a TOML spec are parameters.
\<close>

section \<open>Manifests\<close>

definition SCHEMA_VERSION :: nat where "SCHEMA_VERSION = 1"

datatype evidence_outcome = Pass | Fail

text \<open>A \<open>ManifestDigest\<close> is its one field.\<close>

type_synonym manifest_digest = string

definition digest_of :: "serde \<Rightarrow> bytes \<Rightarrow> manifest_digest" where
  "digest_of S bs = sha256_hex S bs"

definition digest_matches :: "serde \<Rightarrow> manifest_digest \<Rightarrow> bytes \<Rightarrow> bool" where
  "digest_matches S d bs \<longleftrightarrow> d = sha256_hex S bs"

record evidence_manifest =
  em_schema_version :: nat
  em_mcptracer_version :: string
  em_generated_at_ns :: i64
  em_artifact :: manifest_digest
  em_baseline :: "manifest_digest option"
  em_assertion_spec :: "manifest_digest option"
  em_outcome :: evidence_outcome
  em_signed :: bool

datatype manifest_error =
    NotJson string
  | UnsupportedVersion nat
  | ClaimsSigned
  | BothDigests
  | NoDigest
  | MalformedDigest string string

definition is_valid_sha256_hex :: "string \<Rightarrow> bool" where
  "is_valid_sha256_hex s \<longleftrightarrow>
     length s = 64 \<and> list_all (\<lambda>b. (CHR ''0'' \<le> b \<and> b \<le> CHR ''9'') \<or> (CHR ''a'' \<le> b \<and> b \<le> CHR ''f'')) s"

definition validate_digest :: "manifest_digest \<Rightarrow> string \<Rightarrow> manifest_error + unit" where
  "validate_digest d field = (if \<not> is_valid_sha256_hex d then Inl (MalformedDigest field d) else Inr ())"

definition validate_option :: "manifest_digest option \<Rightarrow> string \<Rightarrow> manifest_error + unit" where
  "validate_option d field = (case d of Some d \<Rightarrow> validate_digest d field | None \<Rightarrow> Inr ())"

definition validate_manifest :: "evidence_manifest \<Rightarrow> manifest_error + unit" where
  "validate_manifest m =
     (if em_schema_version m \<noteq> SCHEMA_VERSION then Inl (UnsupportedVersion (em_schema_version m))
      else if em_signed m then Inl ClaimsSigned
      else case (em_baseline m, em_assertion_spec m) of
        (Some _, Some _) \<Rightarrow> Inl BothDigests
      | (None, None) \<Rightarrow> Inl NoDigest
      | _ \<Rightarrow>
          bind_result (validate_digest (em_artifact m) ''artifact'') (\<lambda>_.
          bind_result (validate_option (em_baseline m) ''baseline'') (\<lambda>_.
          validate_option (em_assertion_spec m) ''assertion_spec'')))"

record manifest_codec =
  mc_from_str :: "string \<Rightarrow> string + evidence_manifest"
  mc_to_string_pretty :: "evidence_manifest \<Rightarrow> string"

definition from_json :: "manifest_codec \<Rightarrow> string \<Rightarrow> manifest_error + evidence_manifest" where
  "from_json M input =
     (case mc_from_str M input of
        Inl e \<Rightarrow> Inl (NotJson e)
      | Inr m \<Rightarrow> bind_result (validate_manifest m) (\<lambda>_. Inr m))"

section \<open>Verify\<close>

record verify_args =
  va_manifest :: path
  va_artifact :: path
  va_baseline :: "path option"
  va_assert_spec :: "path option"
  va_allow_partial :: bool

datatype verify_error =
    Unreadable path
  | InvalidManifest manifest_error
  | BaselineNotGiven
  | AssertSpecNotGiven
  | NothingRecorded
  | InvalidArtifact string

record verdict =
  vd_all_matched :: bool
  vd_partial :: bool
  vd_outcome :: evidence_outcome

definition read_bytes :: "files \<Rightarrow> path \<Rightarrow> verify_error + bytes" where
  "read_bytes fs p = (case fs p of Some bs \<Rightarrow> Inr bs | None \<Rightarrow> Inl (Unreadable p))"

definition read_file :: "serde \<Rightarrow> codec \<Rightarrow> files \<Rightarrow> path \<Rightarrow> bool \<Rightarrow> verify_error + mtrace_document" where
  "read_file S C fs p strict =
     bind_result (read_bytes fs p) (\<lambda>bs.
       case decode S C (take (MAX_COMPRESSED_BYTES + 1) bs) strict of
         Inl e \<Rightarrow> Inl (InvalidArtifact e)
       | Inr d \<Rightarrow> Inr d)"

text \<open>One recorded digest against one given file: the match, or \<open>None\<close> when there is nothing to check.\<close>

definition check_baseline ::
  "serde \<Rightarrow> codec \<Rightarrow> files \<Rightarrow> manifest_digest option \<Rightarrow> path option \<Rightarrow> verify_error + bool option" where
  "check_baseline S C fs expected given =
     (case (expected, given) of
        (Some e, Some p) \<Rightarrow> bind_result (read_file S C fs p False) (\<lambda>d. Inr (Some (e = canonical_digest S d)))
      | _ \<Rightarrow> Inr None)"

definition check_spec ::
  "serde \<Rightarrow> files \<Rightarrow> manifest_digest option \<Rightarrow> path option \<Rightarrow> verify_error + bool option" where
  "check_spec S fs expected given =
     (case (expected, given) of
        (Some e, Some p) \<Rightarrow> bind_result (read_bytes fs p) (\<lambda>bs. Inr (Some (digest_matches S e bs)))
      | _ \<Rightarrow> Inr None)"

definition verify :: "serde \<Rightarrow> codec \<Rightarrow> manifest_codec \<Rightarrow> files \<Rightarrow> verify_args \<Rightarrow> verify_error + verdict" where
  "verify S C M fs args =
     bind_result (read_bytes fs (va_manifest args)) (\<lambda>manifest_json.
     case from_json M manifest_json of
       Inl e \<Rightarrow> Inl (InvalidManifest e)
     | Inr m \<Rightarrow>
         if em_baseline m \<noteq> None \<and> va_baseline args = None \<and> \<not> va_allow_partial args then Inl BaselineNotGiven
         else if em_assertion_spec m \<noteq> None \<and> va_assert_spec args = None \<and> \<not> va_allow_partial args
         then Inl AssertSpecNotGiven
         else if (va_baseline args \<noteq> None \<and> em_baseline m = None)
             \<or> (va_assert_spec args \<noteq> None \<and> em_assertion_spec m = None)
         then Inl NothingRecorded
         else
           bind_result (read_file S C fs (va_artifact args) False) (\<lambda>artifact.
           bind_result (check_baseline S C fs (em_baseline m) (va_baseline args)) (\<lambda>baseline.
           bind_result (check_spec S fs (em_assertion_spec m) (va_assert_spec args)) (\<lambda>spec.
             Inr \<lparr>vd_all_matched = (em_artifact m = canonical_digest S artifact
                      \<and> baseline \<noteq> Some False \<and> spec \<noteq> Some False),
                  vd_partial = (em_baseline m \<noteq> None \<and> va_baseline args = None
                      \<or> em_assertion_spec m \<noteq> None \<and> va_assert_spec args = None),
                  vd_outcome = em_outcome m\<rparr>))))"

text \<open>The process's exit code: an error is 1 as well.\<close>

definition verify_exit_code :: "verify_error + verdict \<Rightarrow> nat" where
  "verify_exit_code r = (case r of Inl _ \<Rightarrow> 1 | Inr v \<Rightarrow> if vd_all_matched v then 0 else 1)"

section \<open>Assert\<close>

record assert_args =
  aa_session_id :: string
  aa_spec :: "path option"
  aa_golden :: "string option"
  aa_manifest :: "path option"
  aa_redact :: "string option"
  aa_allow_unredacted :: bool

text \<open>What \<open>assert\<close> runs on: the codecs, the outcomes of the publication, the clock and the version.\<close>

record assert_env =
  ae_serde :: serde
  ae_manifest_codec :: manifest_codec
  ae_toml_from_str :: "string \<Rightarrow> string + assert_spec"
  ae_publish :: publish_io
  ae_now :: i64
  ae_version :: string

definition manifest_export_options :: "assert_args \<Rightarrow> string + export_options" where
  "manifest_export_options args =
     (case (case aa_redact args of
              None \<Rightarrow> Inr False
            | Some v \<Rightarrow> if v = ''default'' then Inr True
                else Inl (''unsupported manifest redaction policy: '' @ v @ '' (expected default)'')) of
        Inl e \<Rightarrow> Inl e
      | Inr force \<Rightarrow>
          if force \<and> aa_allow_unredacted args
          then Inl ''--redact default cannot be combined with --allow-unredacted''
          else Inr \<lparr>force_default_redaction = force, allow_unredacted = aa_allow_unredacted args\<rparr>)"

definition session_digest :: "assert_env \<Rightarrow> store \<Rightarrow> export_options \<Rightarrow> string \<Rightarrow> store_error + manifest_digest" where
  "session_digest env st options session_id =
     bind_result (export_mtrace_document (ae_serde env) st session_id options (ae_now env) (ae_version env))
       (\<lambda>document. Inr (canonical_digest (ae_serde env) document))"

definition build_manifest ::
  "assert_env \<Rightarrow> store \<Rightarrow> assert_args \<Rightarrow> string option \<Rightarrow> bytes option \<Rightarrow> evidence_outcome
     \<Rightarrow> store_error + evidence_manifest" where
  "build_manifest env st args baseline_session assertion_spec outc =
     bind_result (lift_failed (manifest_export_options args)) (\<lambda>options.
     bind_result (session_digest env st options (aa_session_id args)) (\<lambda>artifact.
     bind_result (case baseline_session of
         None \<Rightarrow> Inr None
       | Some session_id \<Rightarrow> bind_result (session_digest env st options session_id) (\<lambda>d. Inr (Some d))) (\<lambda>baseline.
       let m = \<lparr>em_schema_version = SCHEMA_VERSION, em_mcptracer_version = ae_version env,
                em_generated_at_ns = ae_now env, em_artifact = artifact, em_baseline = baseline,
                em_assertion_spec = map_option (digest_of (ae_serde env)) assertion_spec,
                em_outcome = outc, em_signed = False\<rparr>
       in case validate_manifest m of
            Inl e \<Rightarrow> Inl (Failed ''internal error building evidence manifest'')
          | Inr _ \<Rightarrow> Inr m)))"

definition write_manifest ::
  "assert_env \<Rightarrow> store \<Rightarrow> assert_args \<Rightarrow> path \<Rightarrow> string option \<Rightarrow> bytes option \<Rightarrow> evidence_outcome \<Rightarrow> files
     \<Rightarrow> store_error + files" where
  "write_manifest env st args p baseline_session assertion_spec outc fs =
     bind_result (build_manifest env st args baseline_session assertion_spec outc) (\<lambda>m.
       case write_file (ae_publish env) p (mc_to_string_pretty (ae_manifest_codec env) m) fs of
         (IoError e, _) \<Rightarrow> Inl (Failed e)
       | (IoOk _, fs') \<Rightarrow> Inr fs')"

text \<open>The manifest, when one is asked for, then the exit code.\<close>

definition finish_assert ::
  "assert_env \<Rightarrow> store \<Rightarrow> assert_args \<Rightarrow> string option \<Rightarrow> bytes option \<Rightarrow> bool \<Rightarrow> files \<Rightarrow> store_error + nat \<times> files" where
  "finish_assert env st args baseline_session assertion_spec passed fs =
     bind_result (case aa_manifest args of
         None \<Rightarrow> Inr fs
       | Some p \<Rightarrow> write_manifest env st args p baseline_session assertion_spec (if passed then Pass else Fail) fs)
       (\<lambda>fs'. Inr (if passed then 0 else 1, fs'))"

definition golden_options :: diff_options where
  "golden_options = diff_options_default\<lparr>do_ignore_latency := True\<rparr>"

text \<open>
  The command: golden mode compares with another session, rule mode evaluates a spec; a broken
  spec is exit code 2, a panic (which a validated spec rules out) 101.
\<close>

definition assert_run :: "assert_env \<Rightarrow> store \<Rightarrow> assert_args \<Rightarrow> files \<Rightarrow> store_error + nat \<times> files" where
  "assert_run env st args fs =
     bind_result (require_healthy_session (ae_serde env) st (aa_session_id args) ''assert'') (\<lambda>session.
       case aa_golden args of
         Some golden \<Rightarrow>
           bind_result (require_healthy_session (ae_serde env) st golden ''assert'') (\<lambda>golden_session.
             finish_assert env st args (Some golden) None
               (report_is_empty (diff_sessions (ae_serde env) (sh_messages golden_session) (sh_messages session) golden_options)) fs)
       | None \<Rightarrow>
           (case fs (the (aa_spec args)) of
              None \<Rightarrow> Inr (2, fs)
            | Some spec_src \<Rightarrow>
                (case parse_spec (ae_toml_from_str env) spec_src of
                   Inl e \<Rightarrow> Inr (2, fs)
                 | Inr spec \<Rightarrow>
                     (case evaluate_spec (ae_serde env) spec (sh_messages session) of
                        None \<Rightarrow> Inr (101, fs)
                      | Some results \<Rightarrow>
                          finish_assert env st args None (Some spec_src) (list_all ar_passed results) fs))))"

end
