(* ===== verification/EvidenceProps.thy ===== *)
theory EvidenceProps
  imports Evidence
begin

text \<open>
  What evidence is worth: a verified manifest vouches for every digest it records, and the manifest
  an assertion run writes is verified against exports of the sessions it checked.
\<close>

section \<open>Digests\<close>

lemma hex_lower_valid:
  "n < 16 \<Longrightarrow> (CHR ''0'' \<le> hex_lower n \<and> hex_lower n \<le> CHR ''9'') \<or> (CHR ''a'' \<le> hex_lower n \<and> hex_lower n \<le> CHR ''f'')"
  by (auto simp: hex_lower_def less_eq_char_def)

lemma hex_pair_valid:
  "list_all (\<lambda>b. (CHR ''0'' \<le> b \<and> b \<le> CHR ''9'') \<or> (CHR ''a'' \<le> b \<and> b \<le> CHR ''f''))
     [hex_lower (of_char c div 16), hex_lower (of_char c mod 16)]"
proof -
  have "(of_char c :: nat) < 256" by simp
  then have "(of_char c :: nat) div 16 < 16" by (intro less_mult_imp_div_less) simp
  then show ?thesis using hex_lower_valid[of "of_char c div 16"] hex_lower_valid[of "of_char c mod 16"] by simp
qed

lemma hex_valid:
  assumes "length bs = 32"
  shows "is_valid_sha256_hex (concat (map (\<lambda>b. [hex_lower (of_char b div 16), hex_lower (of_char b mod 16)]) bs))"
proof -
  have "length (concat (map (\<lambda>b. [hex_lower (of_char b div 16), hex_lower (of_char b mod 16)]) bs)) = 2 * length bs"
    by (induction bs) simp_all
  moreover have "list_all (\<lambda>b. (CHR ''0'' \<le> b \<and> b \<le> CHR ''9'') \<or> (CHR ''a'' \<le> b \<and> b \<le> CHR ''f''))
      (concat (map (\<lambda>b. [hex_lower (of_char b div 16), hex_lower (of_char b mod 16)]) bs))"
    using hex_pair_valid unfolding list_all_iff by fastforce
  ultimately show ?thesis using assms by (simp add: is_valid_sha256_hex_def)
qed

definition sha256_sized :: "serde \<Rightarrow> bool" where
  "sha256_sized S \<longleftrightarrow> (\<forall>bs. length (sha256_digest S bs) = 32)"

lemma digests_valid:
  assumes "sha256_sized S"
  shows "is_valid_sha256_hex (canonical_digest S d)" "is_valid_sha256_hex (digest_of S bs)"
  using assms hex_valid
  by (auto simp: sha256_sized_def canonical_digest_def hex_bytes_def digest_of_def sha256_hex_def hex_byte_def[abs_def])

lemma validate_manifest_Inr:
  "validate_manifest m = Inr () \<longleftrightarrow>
     em_schema_version m = SCHEMA_VERSION \<and> \<not> em_signed m
     \<and> (em_baseline m = None \<longleftrightarrow> em_assertion_spec m \<noteq> None)
     \<and> is_valid_sha256_hex (em_artifact m)
     \<and> (\<forall>d. em_baseline m = Some d \<longrightarrow> is_valid_sha256_hex d)
     \<and> (\<forall>d. em_assertion_spec m = Some d \<longrightarrow> is_valid_sha256_hex d)"
  by (auto simp: validate_manifest_def bind_result_Inr validate_digest_def validate_option_def split: option.splits)

lemma from_json_Inr:
  "from_json M input = Inr m \<longleftrightarrow> mc_from_str M input = Inr m \<and> validate_manifest m = Inr ()"
  by (auto simp: from_json_def bind_result_Inr split: sum.splits)

section \<open>Verification\<close>

text \<open>What it takes for a recorded digest to be vouched for.\<close>

definition baseline_checked :: "serde \<Rightarrow> codec \<Rightarrow> files \<Rightarrow> path option \<Rightarrow> manifest_digest \<Rightarrow> bool" where
  "baseline_checked S C fs given e \<longleftrightarrow> (\<exists>p d. given = Some p \<and> read_file S C fs p False = Inr d \<and> canonical_digest S d = e)"

definition spec_checked :: "serde \<Rightarrow> files \<Rightarrow> path option \<Rightarrow> manifest_digest \<Rightarrow> bool" where
  "spec_checked S fs given e \<longleftrightarrow> (\<exists>p bs. given = Some p \<and> fs p = Some bs \<and> sha256_hex S bs = e)"

lemma check_baseline_Inr:
  "check_baseline S C fs expected given = Inr r \<Longrightarrow> r \<noteq> Some False \<Longrightarrow> expected = Some e \<Longrightarrow> given \<noteq> None
   \<Longrightarrow> baseline_checked S C fs given e"
  by (auto simp: check_baseline_def baseline_checked_def bind_result_Inr)

lemma check_spec_Inr:
  "check_spec S fs expected given = Inr r \<Longrightarrow> r \<noteq> Some False \<Longrightarrow> expected = Some e \<Longrightarrow> given \<noteq> None
   \<Longrightarrow> spec_checked S fs given e"
  by (auto simp: check_spec_def spec_checked_def bind_result_Inr read_bytes_def digest_matches_def split: option.splits)

text \<open>
  C21: Verification is complete and fails closed: when it succeeds, the manifest is of the supported
  version, claims no signature, records exactly one of a baseline and a spec, the artifact given
  decodes to a valid document with the recorded canonical digest, and every other recorded digest
  was checked against the file given for it; something may be skipped only when a partial check was
  asked for, and then the verdict says so.
\<close>

theorem verify_sound:
  assumes "verify S C M fs args = Inr v" "vd_all_matched v"
  shows "\<exists>bs m. fs (va_manifest args) = Some bs \<and> mc_from_str M bs = Inr m
    \<and> em_schema_version m = 1 \<and> \<not> em_signed m \<and> (em_baseline m = None \<longleftrightarrow> em_assertion_spec m \<noteq> None)
    \<and> vd_outcome v = em_outcome m
    \<and> baseline_checked S C fs (Some (va_artifact args)) (em_artifact m)
    \<and> (\<forall>e. em_baseline m = Some e \<longrightarrow>
         baseline_checked S C fs (va_baseline args) e \<or> va_baseline args = None \<and> va_allow_partial args \<and> vd_partial v)
    \<and> (\<forall>e. em_assertion_spec m = Some e \<longrightarrow>
         spec_checked S fs (va_assert_spec args) e \<or> va_assert_spec args = None \<and> va_allow_partial args \<and> vd_partial v)
    \<and> (vd_partial v \<longrightarrow> va_allow_partial args)"
proof -
  from assms(1) obtain bs m where bs: "fs (va_manifest args) = Some bs" and m: "from_json M bs = Inr m"
    by (auto simp: verify_def bind_result_Inr read_bytes_def split: option.splits sum.splits)
  note valid = m[unfolded from_json_Inr, THEN conjunct2, unfolded validate_manifest_Inr]
  have given: "em_baseline m \<noteq> None \<Longrightarrow> va_baseline args = None \<Longrightarrow> va_allow_partial args"
    "em_assertion_spec m \<noteq> None \<Longrightarrow> va_assert_spec args = None \<Longrightarrow> va_allow_partial args"
    using assms(1) by (auto simp: verify_def bind_result_Inr read_bytes_def bs m split: if_splits)
  from assms(1) obtain d b s where d: "read_file S C fs (va_artifact args) False = Inr d"
    and b: "check_baseline S C fs (em_baseline m) (va_baseline args) = Inr b"
    and s: "check_spec S fs (em_assertion_spec m) (va_assert_spec args) = Inr s"
    and v: "v = \<lparr>vd_all_matched = (em_artifact m = canonical_digest S d \<and> b \<noteq> Some False \<and> s \<noteq> Some False),
        vd_partial = (em_baseline m \<noteq> None \<and> va_baseline args = None \<or> em_assertion_spec m \<noteq> None \<and> va_assert_spec args = None),
        vd_outcome = em_outcome m\<rparr>"
    by (auto simp: verify_def bind_result_Inr read_bytes_def bs m split: if_splits)
  have matched: "em_artifact m = canonical_digest S d" "b \<noteq> Some False" "s \<noteq> Some False" using assms(2) by (simp_all add: v)
  show ?thesis
  proof (intro exI[of _ bs] exI[of _ m] conjI)
    show "mc_from_str M bs = Inr m" using m by (simp add: from_json_Inr)
    show "baseline_checked S C fs (Some (va_artifact args)) (em_artifact m)"
      using d matched(1) by (simp add: baseline_checked_def)
    show "\<forall>e. em_baseline m = Some e \<longrightarrow>
         baseline_checked S C fs (va_baseline args) e \<or> va_baseline args = None \<and> va_allow_partial args \<and> vd_partial v"
      using check_baseline_Inr[OF b matched(2)] given(1) by (cases "va_baseline args") (auto simp: v)
    show "\<forall>e. em_assertion_spec m = Some e \<longrightarrow>
         spec_checked S fs (va_assert_spec args) e \<or> va_assert_spec args = None \<and> va_allow_partial args \<and> vd_partial v"
      using check_spec_Inr[OF s matched(3)] given(2) by (cases "va_assert_spec args") (auto simp: v)
  qed (use bs valid given in \<open>auto simp: v SCHEMA_VERSION_def\<close>)
qed

section \<open>From assertion to verification\<close>

text \<open>The digest does not depend on when and by which version the session is exported.\<close>

lemma export_digest:
  assumes "export_mtrace_document S st sid options now ver = Inr d"
    "export_mtrace_document S st sid options now' ver' = Inr d'"
  shows "canonical_digest S d = canonical_digest S d'"
  using assms
  by (auto simp: export_mtrace_document_def bind_result_Inr canonical_digest_def canonical_identity_def split: if_splits)

lemma session_digest_Inr:
  "session_digest env st options sid = Inr x \<longleftrightarrow>
     (\<exists>d. export_mtrace_document (ae_serde env) st sid options (ae_now env) (ae_version env) = Inr d
        \<and> x = canonical_digest (ae_serde env) d)"
  by (auto simp: session_digest_def bind_result_Inr)

lemma build_manifest_Inr:
  assumes "build_manifest env st args golden spec outc = Inr m"
  shows "\<exists>options. manifest_export_options args = Inr options \<and> validate_manifest m = Inr ()
    \<and> session_digest env st options (aa_session_id args) = Inr (em_artifact m)
    \<and> (case golden of None \<Rightarrow> em_baseline m = None
        | Some sid \<Rightarrow> \<exists>x. em_baseline m = Some x \<and> session_digest env st options sid = Inr x)
    \<and> em_assertion_spec m = map_option (digest_of (ae_serde env)) spec \<and> em_outcome m = outc
    \<and> em_mcptracer_version m = ae_version env \<and> em_generated_at_ns m = ae_now env"
proof -
  from assms obtain options a b where o: "manifest_export_options args = Inr options"
    and a: "session_digest env st options (aa_session_id args) = Inr a"
    and b: "(case golden of None \<Rightarrow> Inr None
       | Some session_id \<Rightarrow> bind_result (session_digest env st options session_id) (\<lambda>d. Inr (Some d))) = Inr b"
    and m: "(let m = \<lparr>em_schema_version = SCHEMA_VERSION, em_mcptracer_version = ae_version env,
                em_generated_at_ns = ae_now env, em_artifact = a, em_baseline = b,
                em_assertion_spec = map_option (digest_of (ae_serde env)) spec,
                em_outcome = outc, em_signed = False\<rparr>
       in case validate_manifest m of
            Inl e \<Rightarrow> Inl (Failed ''internal error building evidence manifest'') | Inr _ \<Rightarrow> Inr m) = Inr m"
    by (auto simp: build_manifest_def bind_result_Inr lift_failed_def split: sum.splits)
  from m a b o show ?thesis
    by (auto simp: Let_def bind_result_Inr split: sum.splits option.splits)
qed

lemma write_manifest_Inr:
  assumes "write_manifest env st args p golden spec outc fs = Inr fs'"
  shows "\<exists>m. build_manifest env st args golden spec outc = Inr m
    \<and> write_file (ae_publish env) p (mc_to_string_pretty (ae_manifest_codec env) m) fs = (IoOk (), fs')"
proof -
  from assms obtain m where m: "build_manifest env st args golden spec outc = Inr m"
    and w: "(case write_file (ae_publish env) p (mc_to_string_pretty (ae_manifest_codec env) m) fs of
       (IoError e, _) \<Rightarrow> Inl (Failed e) | (IoOk _, fs') \<Rightarrow> Inr fs') = Inr fs'"
    by (auto simp: write_manifest_def bind_result_Inr)
  obtain r fs1 where "write_file (ae_publish env) p (mc_to_string_pretty (ae_manifest_codec env) m) fs = (r, fs1)" by fastforce
  with m w show ?thesis by (cases r) auto
qed

text \<open>Which publication of a manifest a run that writes one ends with.\<close>

lemma assert_run_manifest:
  assumes "assert_run env st args fs = Inr (code, fs')" "aa_manifest args = Some p" "code \<le> 1"
    "aa_golden args = None \<Longrightarrow> aa_spec args = Some sp"
  shows "\<exists>m spec. build_manifest env st args (aa_golden args) spec (if code = 0 then Pass else Fail) = Inr m
    \<and> (case aa_golden args of Some _ \<Rightarrow> spec = None | None \<Rightarrow> spec \<noteq> None \<and> fs sp = spec)
    \<and> write_file (ae_publish env) p (mc_to_string_pretty (ae_manifest_codec env) m) fs = (IoOk (), fs')"
proof -
  have finish: "\<exists>m. build_manifest env st args golden spec (if code = 0 then Pass else Fail) = Inr m
      \<and> write_file (ae_publish env) p (mc_to_string_pretty (ae_manifest_codec env) m) fs = (IoOk (), fs')"
    if "finish_assert env st args golden spec ok fs = Inr (code, fs')" for golden spec ok
  proof -
    have "write_manifest env st args p golden spec (if ok then Pass else Fail) fs = Inr fs'" "code = (if ok then 0 else 1)"
      using that assms(2) by (auto simp: finish_assert_def bind_result_Inr)
    then show ?thesis using write_manifest_Inr by (cases ok) fastforce+
  qed
  show ?thesis
  proof (cases "aa_golden args")
    case (Some golden)
    with assms(1) obtain ok where "finish_assert env st args (Some golden) None ok fs = Inr (code, fs')"
      by (auto simp: assert_run_def bind_result_Inr)
    from finish[OF this] Some show ?thesis by auto
  next
    case None
    from assms(1)[unfolded assert_run_def bind_result_Inr None option.case] obtain h :: session_health
      where r: "case_option (Inr (2, fs)) (\<lambda>src. case_sum (\<lambda>e. Inr (2, fs)) (\<lambda>spec.
          case_option (Inr (101, fs)) (\<lambda>results. finish_assert env st args None (Some src) (list_all ar_passed results) fs)
            (evaluate_spec (ae_serde env) spec (sh_messages h))) (parse_spec (ae_toml_from_str env) src))
          (fs (the (aa_spec args))) = Inr (code, fs')" by (elim exE conjE) (rule that)
    obtain src where src: "fs sp = Some src"
      using r assms(3) assms(4)[OF None] by (cases "fs sp") auto
    obtain spec where spec: "parse_spec (ae_toml_from_str env) src = Inr spec"
      using r src assms(3) assms(4)[OF None] by (cases "parse_spec (ae_toml_from_str env) src") auto
    obtain ok where "finish_assert env st args None (Some src) ok fs = Inr (code, fs')"
      using r src spec assms(3) assms(4)[OF None]
      by (cases "evaluate_spec (ae_serde env) spec (sh_messages h)") auto
    note src this
    with finish[OF this(2)] None show ?thesis by auto
  qed
qed

text \<open>
  C20: What an assertion run attests verifies: if a run with \<open>--manifest\<close> ends, then later, given the
  manifest, an artifact exported from the checked session with the same options and, for a golden
  run, one of the golden session, or the unchanged spec file, verification succeeds completely and
  reports the outcome of the run.
\<close>

theorem assert_then_verify:
  assumes run: "assert_run env st args fs = Inr (code, fs')" "code \<le> 1" and mp: "aa_manifest args = Some p"
    and mode: "aa_golden args = None \<Longrightarrow> aa_spec args = Some sp"
    and codec: "\<And>m. validate_manifest m = Inr () \<Longrightarrow> em_mcptracer_version m = ae_version env \<Longrightarrow>
      em_generated_at_ns m = ae_now env \<Longrightarrow> mc_from_str (ae_manifest_codec env) (mc_to_string_pretty (ae_manifest_codec env) m) = Inr m"
    and options: "manifest_export_options args = Inr options"
    and artifact: "export_mtrace_document (ae_serde env) st (aa_session_id args) options now ver = Inr d"
      "read_file (ae_serde env) C fs'' ap False = Inr d"
    and baseline: "\<And>g. aa_golden args = Some g \<Longrightarrow>
      \<exists>b. export_mtrace_document (ae_serde env) st g options now ver = Inr b \<and> read_file (ae_serde env) C fs'' bp False = Inr b"
    and kept: "fs'' p = fs' p" "aa_golden args = None \<Longrightarrow> fs'' sp = fs' sp"
  shows "verify (ae_serde env) C (ae_manifest_codec env) fs''
      \<lparr>va_manifest = p, va_artifact = ap, va_baseline = (if aa_golden args = None then None else Some bp),
       va_assert_spec = (if aa_golden args = None then Some sp else None), va_allow_partial = False\<rparr>
    = Inr \<lparr>vd_all_matched = True, vd_partial = False, vd_outcome = (if code = 0 then Pass else Fail)\<rparr>"
proof -
  from assert_run_manifest[OF run(1) mp run(2) mode] obtain m spec
    where m: "build_manifest env st args (aa_golden args) spec (if code = 0 then Pass else Fail) = Inr m"
      and spec: "case aa_golden args of Some _ \<Rightarrow> spec = None | None \<Rightarrow> spec \<noteq> None \<and> fs sp = spec"
      and w: "write_file (ae_publish env) p (mc_to_string_pretty (ae_manifest_codec env) m) fs = (IoOk (), fs')" by blast
  from build_manifest_Inr[OF m] options have valid: "validate_manifest m = Inr ()"
    and a: "session_digest env st options (aa_session_id args) = Inr (em_artifact m)"
    and b: "case aa_golden args of None \<Rightarrow> em_baseline m = None
        | Some sid \<Rightarrow> \<exists>x. em_baseline m = Some x \<and> session_digest env st options sid = Inr x"
    and s: "em_assertion_spec m = map_option (digest_of (ae_serde env)) spec"
    and o: "em_outcome m = (if code = 0 then Pass else Fail)"
    and made: "em_mcptracer_version m = ae_version env" "em_generated_at_ns m = ae_now env" by auto
  have read: "fs'' p = Some (mc_to_string_pretty (ae_manifest_codec env) m)"
    using write_file_cases(1)[OF w] kept(1) by auto
  have json: "from_json (ae_manifest_codec env) (mc_to_string_pretty (ae_manifest_codec env) m) = Inr m"
    using codec[OF valid made] valid by (simp add: from_json_Inr)
  have art: "em_artifact m = canonical_digest (ae_serde env) d"
    using a export_digest[OF _ artifact(1)] by (auto simp: session_digest_Inr)
  show ?thesis
  proof (cases "aa_golden args")
    case None
    with spec obtain src where src: "spec = Some src" "fs sp = Some src" by auto
    then have "fs'' sp = Some src" using write_file_cases(2)[OF w src(2)] kept(2)[OF None] by simp
    with None b s src(1) show ?thesis
      by (simp add: verify_def bind_result_def read_bytes_def read json artifact(2) art check_baseline_def check_spec_def
          digest_matches_def digest_of_def o)
  next
    case (Some g)
    then obtain gd where gd: "export_mtrace_document (ae_serde env) st g options now ver = Inr gd"
      "read_file (ae_serde env) C fs'' bp False = Inr gd" using baseline by blast
    from Some b obtain x where x: "em_baseline m = Some x" "session_digest env st options g = Inr x" by auto
    then have "x = canonical_digest (ae_serde env) gd"
      using export_digest[OF _ gd(1)] by (auto simp: session_digest_Inr)
    with Some x(1) s spec show ?thesis
      by (simp add: verify_def bind_result_def read_bytes_def read json artifact(2) art check_baseline_def check_spec_def gd(2) o)
  qed
qed

section \<open>A run and its verification\<close>

text \<open>A closed session with one notification, checked by the rule that no exchange failed.\<close>

definition attest_payload :: json where
  "attest_payload = JObject [(''method'', JString ''ping'')]"

definition attest_serde :: serde where
  "attest_serde = \<lparr>parse_json = (\<lambda>s. if s = ''n'' then Some attest_payload else if s = ''e'' then Some (JArray []) else None),
     print_json = (\<lambda>v. ''n''), json_pointer = (\<lambda>v p. None), sha256_digest = (\<lambda>s. replicate 32 CHR ''a'')\<rparr>"

definition attest_store :: store where
  "attest_store = \<lparr>st_sessions = [\<lparr>sr_id = ''s'', sr_client = [], sr_server_command = [], sr_transport = ''stdio'',
       sr_started_at = 0, sr_ended_at = Some 1, sr_total_messages = 1, sr_dropped_messages = 0,
       sr_redaction_policy = ''none'', sr_redaction_keys = ''e'', sr_tags = ''e''\<rparr>],
     st_messages = [\<lparr>mr_session_id = ''s'', mr_seq = 0, mr_ts = 0, mr_direction = ''c2s'',
       mr_message_kind = ''notification'', mr_rpc_id = None, mr_method = Some ''ping'', mr_tool_name = None,
       mr_payload = ''n'', mr_payload_bytes = 1, mr_is_error = 0, mr_error_code = None\<rparr>],
     st_baselines = [], st_next_baseline_id = 1\<rparr>"

definition attest_document :: mtrace_document where
  "attest_document = \<lparr>md_format = FORMAT, md_version = VERSION, md_exported_at_ns = 9, md_exporter = ''mcptracer/1'',
     md_session = \<lparr>ms_client = [], ms_server_command = [], ms_transport = ''stdio'', ms_started_at_ns = 0,
       ms_ended_at_ns = Some 1, ms_redaction_policy = ''none'', ms_redaction_keys = [], ms_dropped_messages = 0, ms_tags = []\<rparr>,
     md_messages = [\<lparr>mm_seq = 0, mm_ts_ns = 0, mm_direction = ''c2s'', mm_message_kind = ''notification'',
       mm_rpc_id = None, mm_method = Some ''ping'', mm_tool_name = None, mm_payload = attest_payload,
       mm_payload_bytes = 1, mm_is_error = False, mm_error_code = None\<rparr>]\<rparr>"

text \<open>
  A manifest codec that is right on the manifests of this run: outcome, then the one optional digest
  after its kind, then the artifact's digest.
\<close>

definition attest_to_string :: "evidence_manifest \<Rightarrow> string" where
  "attest_to_string m =
     (if em_outcome m = Pass then ''P'' else ''F'')
     @ (case em_baseline m of Some b \<Rightarrow> ''B'' @ b | None \<Rightarrow> ''S'' @ the (em_assertion_spec m)) @ em_artifact m"

definition attest_from_str :: "string \<Rightarrow> string + evidence_manifest" where
  "attest_from_str s = Inr \<lparr>em_schema_version = 1, em_mcptracer_version = ''1'', em_generated_at_ns = 5,
     em_artifact = drop 66 s,
     em_baseline = (if s ! 1 = CHR ''B'' then Some (take 64 (drop 2 s)) else None),
     em_assertion_spec = (if s ! 1 = CHR ''B'' then None else Some (take 64 (drop 2 s))),
     em_outcome = (if s ! 0 = CHR ''P'' then Pass else Fail), em_signed = False\<rparr>"

lemma attest_codec:
  assumes "validate_manifest m = Inr ()" "em_mcptracer_version m = ''1''" "em_generated_at_ns m = 5"
  shows "attest_from_str (attest_to_string m) = Inr m"
proof -
  have v: "em_schema_version m = 1" "\<not> em_signed m" "em_baseline m = None \<longleftrightarrow> em_assertion_spec m \<noteq> None"
    "\<forall>d. em_baseline m = Some d \<longrightarrow> length d = 64" "\<forall>d. em_assertion_spec m = Some d \<longrightarrow> length d = 64"
    using assms(1) by (auto simp: validate_manifest_Inr SCHEMA_VERSION_def is_valid_sha256_hex_def)
  show ?thesis
  proof (cases "em_baseline m")
    case None
    with v(3) obtain s where "em_assertion_spec m = Some s" by auto
    with None v assms(2,3) show ?thesis
      by (cases "em_outcome m") (auto simp: attest_from_str_def attest_to_string_def intro!: evidence_manifest.equality)
  next
    case (Some b)
    with v have "em_assertion_spec m = None" by auto
    with Some v assms(2,3) show ?thesis
      by (cases "em_outcome m") (auto simp: attest_from_str_def attest_to_string_def intro!: evidence_manifest.equality)
  qed
qed

definition attest_env :: assert_env where
  "attest_env = \<lparr>ae_serde = attest_serde,
     ae_manifest_codec = \<lparr>mc_from_str = attest_from_str, mc_to_string_pretty = attest_to_string\<rparr>,
     ae_toml_from_str = (\<lambda>s. Inr [\<lparr>ae_description = None, ae_rule = NoErrors None\<rparr>]),
     ae_publish = \<lparr>pb_pid = 1, pb_sequences = [0], pb_open = Works, pb_permissions = Works, pb_write = Works,
       pb_link = Works, pb_cleanup = Works\<rparr>,
     ae_now = 5, ae_version = ''1''\<rparr>"

definition attest_args :: assert_args where
  "attest_args = \<lparr>aa_session_id = ''s'', aa_spec = Some (''d'', ''t''), aa_golden = None,
     aa_manifest = Some (''d'', ''m''), aa_redact = None, aa_allow_unredacted = True\<rparr>"

definition attest_files :: files where
  "attest_files = (\<lambda>p. if p = (''d'', ''t'') then Some ''x'' else None)"

definition attest_mtrace_codec :: codec where
  "attest_mtrace_codec = \<lparr>gzip = (\<lambda>b. b), gunzip = (\<lambda>b. Some b), document_to_vec = (\<lambda>d. ''n''),
     document_from_value = (\<lambda>v. Some attest_document)\<rparr>"

lemma attest_healthy:
  "map_sum (\<lambda>_. ()) sh_messages (require_healthy_session attest_serde attest_store ''s'' ''assert'')
   = Inr [\<lparr>msg_seq = 0, msg_ts_ns = 0, msg_direction = ''c2s'', msg_kind = ''notification'', msg_rpc_id = None,
      msg_method = Some ''ping'', msg_tool_name = None, msg_payload = ''n'', msg_payload_bytes = 1, msg_is_error = False,
      msg_error_code = None\<rparr>]"
  by code_simp

lemma attest_export:
  "export_mtrace_document attest_serde attest_store ''s'' \<lparr>force_default_redaction = False, allow_unredacted = True\<rparr> 9 ''1''
    = Inr attest_document"
  by code_simp

lemma attest_build: "map_sum (\<lambda>_. ()) em_outcome (build_manifest attest_env attest_store attest_args None (Some ''x'') Pass) = Inr Pass"
  by code_simp

lemma attest_run: "\<exists>fs'. assert_run attest_env attest_store attest_args attest_files = Inr (0, fs')"
proof -
  obtain m where m: "build_manifest attest_env attest_store attest_args None (Some ''x'') Pass = Inr m"
    using attest_build by (cases "build_manifest attest_env attest_store attest_args None (Some ''x'') Pass") auto
  obtain h where h: "require_healthy_session attest_serde attest_store ''s'' ''assert'' = Inr h"
    and msgs: "sh_messages h = [\<lparr>msg_seq = 0, msg_ts_ns = 0, msg_direction = ''c2s'', msg_kind = ''notification'', msg_rpc_id = None,
      msg_method = Some ''ping'', msg_tool_name = None, msg_payload = ''n'', msg_payload_bytes = 1, msg_is_error = False,
      msg_error_code = None\<rparr>]"
    using attest_healthy by (cases "require_healthy_session attest_serde attest_store ''s'' ''assert''") auto
  have spec: "map_option (list_all ar_passed) (evaluate_spec attest_serde [\<lparr>ae_description = None, ae_rule = NoErrors None\<rparr>] (sh_messages h))
      = Some True" unfolding msgs by code_simp
  have "write_file (ae_publish attest_env) (''d'', ''m'') bs attest_files = (IoOk (), attest_files((''d'', ''m'') \<mapsto> bs))" for bs
    by (auto simp: write_file_def attest_env_def attest_files_def export_temp_path_def fs_write_def fs_hard_link_def fs_remove_def fun_eq_iff)
  note written = this
  obtain results where results: "evaluate_spec attest_serde [\<lparr>ae_description = None, ae_rule = NoErrors None\<rparr>] (sh_messages h) = Some results"
    "list_all ar_passed results" using spec by auto
  have env: "ae_serde attest_env = attest_serde" "parse_spec (ae_toml_from_str attest_env) t = Inr [\<lparr>ae_description = None, ae_rule = NoErrors None\<rparr>]" for t
    by (simp_all add: attest_env_def parse_spec_def entry_error_def)
  have args: "aa_session_id attest_args = ''s''" "aa_golden attest_args = None" "the (aa_spec attest_args) = (''d'', ''t'')"
    "aa_manifest attest_args = Some (''d'', ''m'')" "attest_files (''d'', ''t'') = Some ''x''"
    by (simp_all add: attest_args_def attest_files_def)
  have "finish_assert attest_env attest_store attest_args None (Some ''x'') True attest_files
      = Inr (0, attest_files((''d'', ''m'') \<mapsto> mc_to_string_pretty (ae_manifest_codec attest_env) m))"
    by (simp add: finish_assert_def args write_manifest_def m bind_result_def written)
  then show ?thesis
    by (simp add: assert_run_def bind_result_def args env h results)
qed

lemma attest_read: "fs p = Some ''n'' \<Longrightarrow> read_file attest_serde attest_mtrace_codec fs p False = Inr attest_document"
proof -
  assume "fs p = Some ''n''"
  moreover have "validate attest_serde attest_document = Inr ()"
    by (simp add: validate_def attest_document_def validate_message_def Let_def attest_payload_def
        reject_message_field_payload_mismatch_def from_db_str_def m_kind_def is_response_def is_notification_def m_id_def
        m_method_def id_json_def m_tool_name_def m_is_error_def m_error_code_def observe_def enter_message_def
        responder_of_def tracked_id_def unredacted_sensitive_keys_with_context_def policy_from_storage_def
        policy_from_name_def tracker_default_def is_gap_def bt_get_def is_object_def FORMAT_def VERSION_def MAX_MESSAGES_def)
  ultimately show ?thesis
    by (simp add: read_file_def read_bytes_def bind_result_def decode_def attest_mtrace_codec_def attest_serde_def
        MAX_COMPRESSED_BYTES_def MAX_UNCOMPRESSED_BYTES_def)
qed

lemma assert_then_verify_witness:
  "\<exists>fs'. assert_run attest_env attest_store attest_args attest_files = Inr (0, fs')
    \<and> verify attest_serde attest_mtrace_codec (ae_manifest_codec attest_env) (fs'((''d'', ''a'') \<mapsto> ''n''))
        \<lparr>va_manifest = (''d'', ''m''), va_artifact = (''d'', ''a''), va_baseline = None,
         va_assert_spec = Some (''d'', ''t''), va_allow_partial = False\<rparr>
      = Inr \<lparr>vd_all_matched = True, vd_partial = False, vd_outcome = Pass\<rparr>"
proof -
  obtain fs' where run: "assert_run attest_env attest_store attest_args attest_files = Inr (0, fs')" using attest_run by blast
  let ?fs = "fs'((''d'', ''a'') \<mapsto> ''n'')"
  have S: "ae_serde attest_env = attest_serde" by (simp add: attest_env_def)
  have "verify (ae_serde attest_env) attest_mtrace_codec (ae_manifest_codec attest_env) ?fs
      \<lparr>va_manifest = (''d'', ''m''), va_artifact = (''d'', ''a''), va_baseline = (if aa_golden attest_args = None then None else Some (''d'', ''b'')),
       va_assert_spec = (if aa_golden attest_args = None then Some (''d'', ''t'') else None), va_allow_partial = False\<rparr>
    = Inr \<lparr>vd_all_matched = True, vd_partial = False, vd_outcome = (if (0::nat) = 0 then Pass else Fail)\<rparr>"
  proof (rule assert_then_verify[OF run])
    show "export_mtrace_document (ae_serde attest_env) attest_store (aa_session_id attest_args)
        \<lparr>force_default_redaction = False, allow_unredacted = True\<rparr> 9 ''1'' = Inr attest_document"
      using attest_export by (simp add: S attest_args_def)
    show "read_file (ae_serde attest_env) attest_mtrace_codec ?fs (''d'', ''a'') False = Inr attest_document"
      unfolding S by (rule attest_read) simp
    show "\<And>m. validate_manifest m = Inr () \<Longrightarrow> em_mcptracer_version m = ae_version attest_env \<Longrightarrow>
        em_generated_at_ns m = ae_now attest_env \<Longrightarrow>
        mc_from_str (ae_manifest_codec attest_env) (mc_to_string_pretty (ae_manifest_codec attest_env) m) = Inr m"
      using attest_codec by (simp add: attest_env_def)
  qed (simp_all add: attest_args_def manifest_export_options_def)
  then show ?thesis using run by (auto simp: S attest_args_def)
qed

definition attest_manifest :: evidence_manifest where
  "attest_manifest = \<lparr>em_schema_version = 1, em_mcptracer_version = ''1'', em_generated_at_ns = 5,
     em_artifact = canonical_digest attest_serde attest_document, em_baseline = None,
     em_assertion_spec = Some (digest_of attest_serde ''t''), em_outcome = Pass, em_signed = False\<rparr>"

lemma verify_sound_witness:
  "baseline_checked attest_serde attest_mtrace_codec [(''d'', ''m'') \<mapsto> ''x'', (''d'', ''a'') \<mapsto> ''n'', (''d'', ''t'') \<mapsto> ''t'']
     (Some (''d'', ''a'')) (em_artifact attest_manifest)
   \<and> spec_checked attest_serde [(''d'', ''m'') \<mapsto> ''x'', (''d'', ''a'') \<mapsto> ''n'', (''d'', ''t'') \<mapsto> ''t'']
     (Some (''d'', ''t'')) (digest_of attest_serde ''t'')"
proof -
  let ?fs = "[(''d'', ''m'') \<mapsto> ''x'', (''d'', ''a'') \<mapsto> ''n'', (''d'', ''t'') \<mapsto> ''t''] :: files"
  let ?M = "\<lparr>mc_from_str = (\<lambda>_. Inr attest_manifest), mc_to_string_pretty = (\<lambda>_. [])\<rparr>"
  let ?args = "\<lparr>va_manifest = (''d'', ''m''), va_artifact = (''d'', ''a''), va_baseline = None,
         va_assert_spec = Some (''d'', ''t''), va_allow_partial = False\<rparr>"
  have sized: "sha256_sized attest_serde" by (simp add: sha256_sized_def attest_serde_def)
  then have "validate_manifest attest_manifest = Inr ()"
    using digests_valid by (simp add: validate_manifest_Inr attest_manifest_def SCHEMA_VERSION_def)
  then have m: "from_json ?M ''x'' = Inr attest_manifest" by (simp add: from_json_Inr)
  have "read_file attest_serde attest_mtrace_codec ?fs (''d'', ''a'') False = Inr attest_document"
    by (rule attest_read) simp
  then have v: "verify attest_serde attest_mtrace_codec ?M ?fs ?args
      = Inr \<lparr>vd_all_matched = True, vd_partial = False, vd_outcome = Pass\<rparr>"
    by (simp add: verify_def bind_result_def read_bytes_def m check_baseline_def check_spec_def)
      (simp add: attest_manifest_def digest_matches_def digest_of_def bind_result_def read_bytes_def)
  from verify_sound[OF v] show ?thesis by (auto simp: attest_manifest_def)
qed

end
