(* ===== verification/Memory.thy ===== *)
theory Memory
  imports Store "HOL-Library.Product_Lexorder"
begin

text \<open>
  The derived-memory tables of \<open>crates/mcptracer-storage/src/lib.rs\<close> and the methods of \<open>Store\<close> that
  replace and list them.  A table is the list of its rows in the order of their ids, which only ever
  decide an order; the id of a tool version is kept, because the supersession order reads it.
\<close>

section \<open>Rows\<close>

record memory_fact =
  mf_fact_type :: string
  mf_subject_type :: string
  mf_subject_key :: string
  mf_object_type :: "string option"
  mf_object_key :: "string option"
  mf_value_json :: string
  mf_confidence :: f64
  mf_session_id :: "string option"
  mf_seq_start :: "u64 option"
  mf_seq_end :: "u64 option"
  mf_source :: string
  mf_observed_at_ns :: i64
  mf_created_at_ns :: i64

record memory_edge =
  me_edge_type :: string
  me_from_type :: string
  me_from_key :: string
  me_to_type :: string
  me_to_key :: string
  me_value_json :: string
  me_session_id :: "string option"
  me_source :: string
  me_observed_at_ns :: i64
  me_created_at_ns :: i64

record tool_version =
  tv_server_key :: string
  tv_tool_name :: string
  tv_description_hash :: "string option"
  tv_schema_hash :: "string option"
  tv_contract_hash :: "string option"
  tv_description_redacted :: "string option"
  tv_input_schema_redacted :: "string option"
  tv_first_session_id :: string
  tv_first_seen_at_ns :: i64
  tv_last_seen_at_ns :: i64

record tool_version_row = tool_version +
  tv_id :: nat

record tool_observation =
  to_session_id :: string
  to_server_key :: string
  to_tool_name :: string
  to_version_key :: string
  to_description_hash :: "string option"
  to_schema_hash :: "string option"
  to_contract_hash :: "string option"
  to_seq :: "u64 option"
  to_observed_at_ns :: i64

record memory =
  mt_facts :: "memory_fact list"
  mt_edges :: "memory_edge list"
  mt_versions :: "tool_version_row list"
  mt_next_version_id :: nat
  mt_observations :: "tool_observation list"

section \<open>Rebuilding the rows of one session\<close>

text \<open>A sequence number is stored as an \<open>i64\<close> and read back as a \<open>u64\<close>.\<close>

definition stored_seq :: "u64 option \<Rightarrow> u64 option" where
  "stored_seq seq = map_option (\<lambda>n. i64_as_u64 (u64_as_i64 n)) seq"

definition stored_fact :: "memory_fact \<Rightarrow> memory_fact" where
  "stored_fact f = f\<lparr>mf_seq_start := stored_seq (mf_seq_start f), mf_seq_end := stored_seq (mf_seq_end f)\<rparr>"

text \<open>\<open>ON CONFLICT\<close> on a unique key: two rows agree on it, and no column of it is \<open>NULL\<close>.\<close>

definition version_conflict :: "'a tool_version_scheme \<Rightarrow> 'b tool_version_scheme \<Rightarrow> bool" where
  "version_conflict r v \<longleftrightarrow> tv_server_key r = tv_server_key v \<and> tv_tool_name r = tv_tool_name v
     \<and> tv_description_hash r = tv_description_hash v \<and> tv_description_hash r \<noteq> None
     \<and> tv_schema_hash r = tv_schema_hash v \<and> tv_schema_hash r \<noteq> None
     \<and> tv_contract_hash r = tv_contract_hash v \<and> tv_contract_hash r \<noteq> None"

definition update_version :: "tool_version_row \<Rightarrow> tool_version \<Rightarrow> tool_version_row" where
  "update_version r v =
     r\<lparr>tv_first_session_id := (if tv_first_seen_at_ns v < tv_first_seen_at_ns r
          then tv_first_session_id v else tv_first_session_id r),
       tv_first_seen_at_ns := min (tv_first_seen_at_ns r) (tv_first_seen_at_ns v),
       tv_last_seen_at_ns := max (tv_last_seen_at_ns r) (tv_last_seen_at_ns v)\<rparr>"

definition upsert_version :: "memory \<Rightarrow> tool_version \<Rightarrow> memory" where
  "upsert_version mem v =
     (if list_ex (\<lambda>r. version_conflict r v) (mt_versions mem)
      then mem\<lparr>mt_versions := map (\<lambda>r. if version_conflict r v then update_version r v else r) (mt_versions mem)\<rparr>
      else mem\<lparr>mt_versions := mt_versions mem @ [tool_version.extend v \<lparr>tv_id = mt_next_version_id mem\<rparr>],
              mt_next_version_id := mt_next_version_id mem + 1\<rparr>)"

definition observation_conflict :: "tool_observation \<Rightarrow> tool_observation \<Rightarrow> bool" where
  "observation_conflict r v \<longleftrightarrow> to_session_id r = to_session_id v \<and> to_server_key r = to_server_key v
     \<and> to_tool_name r = to_tool_name v \<and> to_version_key r = to_version_key v"

definition upsert_observation :: "tool_observation list \<Rightarrow> tool_observation \<Rightarrow> tool_observation list" where
  "upsert_observation rows v =
     (let row = v\<lparr>to_seq := stored_seq (to_seq v)\<rparr>
      in if list_ex (\<lambda>r. observation_conflict r v) rows
         then map (\<lambda>r. if observation_conflict r v
                then r\<lparr>to_description_hash := to_description_hash row, to_schema_hash := to_schema_hash row,
                       to_contract_hash := to_contract_hash row, to_seq := to_seq row,
                       to_observed_at_ns := to_observed_at_ns row\<rparr>
                else r) rows
         else rows @ [row])"

definition rebuild_memory_for_session ::
  "memory \<Rightarrow> string \<Rightarrow> memory_fact list \<Rightarrow> memory_edge list \<Rightarrow> tool_version list \<Rightarrow> tool_observation list \<Rightarrow> memory" where
  "rebuild_memory_for_session mem session_id facts edges tool_versions observations =
     (let mem1 = mem\<lparr>mt_facts := filter (\<lambda>f. mf_session_id f \<noteq> Some session_id) (mt_facts mem) @ map stored_fact facts,
            mt_edges := filter (\<lambda>e. me_session_id e \<noteq> Some session_id) (mt_edges mem) @ edges\<rparr>;
          mem2 = foldl upsert_version mem1 tool_versions
      in mem2\<lparr>mt_observations :=
           foldl upsert_observation
             (filter (\<lambda>r. to_session_id r \<noteq> session_id) (mt_observations mem2)) observations\<rparr>)"

definition replace_supersession_edges :: "memory \<Rightarrow> memory_edge list \<Rightarrow> memory" where
  "replace_supersession_edges mem edges =
     mem\<lparr>mt_edges := filter (\<lambda>e. me_edge_type e \<noteq> ''version_supersedes'') (mt_edges mem) @ edges\<rparr>"

section \<open>Reading\<close>

definition all_session_ids :: "store \<Rightarrow> string list" where
  "all_session_ids st = map sr_id (sort_key (\<lambda>r. (sr_started_at r, sr_id r)) (st_sessions st))"

definition session_column :: "(session_row \<Rightarrow> string) \<Rightarrow> store \<Rightarrow> string \<Rightarrow> store_error + string" where
  "session_column column st session_id_or_prefix =
     (case resolve_session_id st session_id_or_prefix of
        Inl e \<Rightarrow> Inl e
      | Inr sid \<Rightarrow>
          (case find (\<lambda>r. sr_id r = sid) (st_sessions st) of
             None \<Rightarrow> Inl SqlError
           | Some r \<Rightarrow> Inr (column r)))"

definition get_server_command :: "store \<Rightarrow> string \<Rightarrow> store_error + string" where
  "get_server_command st session_id_or_prefix = session_column sr_server_command st session_id_or_prefix"

definition get_redaction_policy :: "store \<Rightarrow> string \<Rightarrow> store_error + string" where
  "get_redaction_policy st session_id_or_prefix = session_column sr_redaction_policy st session_id_or_prefix"

definition list_rows ::
  "('a \<Rightarrow> string option) \<Rightarrow> store \<Rightarrow> 'a list \<Rightarrow> string option \<Rightarrow> store_error + 'a list" where
  "list_rows owner st rows session_id_or_prefix =
     (case session_id_or_prefix of
        None \<Rightarrow> Inr rows
      | Some session \<Rightarrow>
          (case resolve_session_id st session of
             Inl e \<Rightarrow> Inl e
           | Inr sid \<Rightarrow> Inr (filter (\<lambda>r. owner r = Some sid) rows)))"

definition list_memory_facts :: "store \<Rightarrow> memory \<Rightarrow> string option \<Rightarrow> store_error + memory_fact list" where
  "list_memory_facts st mem session = list_rows mf_session_id st (mt_facts mem) session"

definition list_memory_edges :: "store \<Rightarrow> memory \<Rightarrow> string option \<Rightarrow> store_error + memory_edge list" where
  "list_memory_edges st mem session = list_rows me_session_id st (mt_edges mem) session"

definition list_tool_version_observations ::
  "store \<Rightarrow> memory \<Rightarrow> string option \<Rightarrow> store_error + tool_observation list" where
  "list_tool_version_observations st mem session =
     list_rows (\<lambda>r. Some (to_session_id r)) st (mt_observations mem) session"

definition list_tool_versions :: "memory \<Rightarrow> tool_version_row list" where
  "list_tool_versions mem =
     sort_key (\<lambda>r. (tv_server_key r, tv_tool_name r, tv_first_seen_at_ns r, tv_id r)) (mt_versions mem)"

end
