(* ===== verification/Intel.thy ===== *)
theory Intel
  imports Memory Catalog
begin

text \<open>
  Session intelligence: \<open>crates/mcptracer-intel/src/lib.rs\<close>, which derives facts, edges and tool versions
  from a correlated session, and the \<open>index rebuild\<close> command of
  \<open>crates/mcptracer-proxy/src/commands/index.rs\<close>, which stores them for every session.
\<close>

section \<open>Values\<close>

definition EXTRACTOR_SOURCE :: string where
  "EXTRACTOR_SOURCE = ''mcptracer-intel:v1''"

definition SUPERSESSION_SOURCE :: string where
  "SUPERSESSION_SOURCE = ''mcptracer-intel:supersession:v1''"

text \<open>\<open>json!\<close> on an object, on integers and on optional values.\<close>

definition json_object :: "(string \<times> json) list \<Rightarrow> json" where
  "json_object members = JObject (bt_collect members)"

definition json_u64 :: "u64 \<Rightarrow> json" where
  "json_u64 n = JNumber (PosInt n)"

definition json_i64 :: "i64 \<Rightarrow> json" where
  "json_i64 i = JNumber (if 0 \<le> i then PosInt (nat i) else NegInt i)"

definition json_option :: "('a \<Rightarrow> json) \<Rightarrow> 'a option \<Rightarrow> json" where
  "json_option f x = (case x of None \<Rightarrow> JNull | Some y \<Rightarrow> f y)"

definition or_else :: "'a option \<Rightarrow> 'a option \<Rightarrow> 'a option" where
  "or_else x y = (case x of None \<Rightarrow> y | Some _ \<Rightarrow> x)"

definition unwrap_or :: "'a \<Rightarrow> 'a option \<Rightarrow> 'a" where
  "unwrap_or y x = (case x of None \<Rightarrow> y | Some z \<Rightarrow> z)"

fun status_name :: "exchange_status \<Rightarrow> string" where
  "status_name Ok = ''ok''"
| "status_name Subscribed = ''subscribed''"
| "status_name Error = ''error''"
| "status_name ToolError = ''tool_error''"
| "status_name Unanswered = ''unanswered''"
| "status_name Cancelled = ''cancelled''"
| "status_name OrphanResponse = ''orphan_response''"

section \<open>Keys\<close>

definition derive_server_key :: "serde \<Rightarrow> string \<Rightarrow> string" where
  "derive_server_key S server_command = ''server:'' @ sha256_hex S server_command"

definition tool_key :: "string \<Rightarrow> string \<Rightarrow> string" where
  "tool_key server_key tool_name = server_key @ ''::'' @ tool_name"

definition tool_version_key :: "string \<Rightarrow> string \<Rightarrow> string \<Rightarrow> string \<Rightarrow> string \<Rightarrow> string" where
  "tool_version_key server_key tool_name description_hash schema_hash contract_hash =
     server_key @ ''::'' @ tool_name @ ''::'' @ description_hash @ ''::'' @ schema_hash @ ''::'' @ contract_hash"

definition tool_version_key_from_row :: "tool_version_row \<Rightarrow> string" where
  "tool_version_key_from_row row =
     tool_version_key (tv_server_key row) (tv_tool_name row) (unwrap_or [] (tv_description_hash row))
       (unwrap_or [] (tv_schema_hash row)) (unwrap_or [] (tv_contract_hash row))"

definition exchange_key_name :: "exchange \<Rightarrow> string" where
  "exchange_key_name e =
     (case (ex_request_seq e, ex_response_seq e) of
        (Some request, Some response) \<Rightarrow> ''request:'' @ nat_dec request @ '':response:'' @ nat_dec response
      | (Some request, None) \<Rightarrow> ''request:'' @ nat_dec request
      | (None, Some response) \<Rightarrow> ''response:'' @ nat_dec response
      | (None, None) \<Rightarrow> ''exchange:unknown'')"

definition exchange_seq_range :: "exchange \<Rightarrow> u64 option \<times> u64 option" where
  "exchange_seq_range e =
     (case (ex_request_seq e, ex_response_seq e) of
        (Some request, Some response) \<Rightarrow> (Some (min request response), Some (max request response))
      | (Some seq, None) \<Rightarrow> (Some seq, Some seq)
      | (None, Some seq) \<Rightarrow> (Some seq, Some seq)
      | (None, None) \<Rightarrow> (None, None))"

definition exchange_observed_at :: "exchange \<Rightarrow> i64" where
  "exchange_observed_at e = unwrap_or 0 (or_else (ex_response_ts_ns e) (ex_request_ts_ns e))"

definition session_seq_range :: "stored_message list \<Rightarrow> u64 option \<times> u64 option" where
  "session_seq_range messages =
     (if messages = [] then (None, None)
      else (Some (msg_seq (hd messages)), Some (msg_seq (last messages))))"

definition session_observed_at :: "stored_message list \<Rightarrow> i64" where
  "session_observed_at messages = (if messages = [] then 0 else msg_ts_ns (last messages))"

text \<open>\<open>rfind\<close>: the last exchange of a catalog listing that was answered.\<close>

definition latest_tools_list_provenance :: "session_model \<Rightarrow> (u64 option \<times> i64) option" where
  "latest_tools_list_provenance model =
     map_option (\<lambda>e. (or_else (ex_response_seq e) (ex_request_seq e), exchange_observed_at e))
       (find (\<lambda>e. ex_method e = Some ''tools/list'' \<and> ex_status e = Ok) (rev (exchanges model)))"

section \<open>Building facts and edges\<close>

record extraction_input =
  xi_session_id :: string
  xi_server_key :: string
  xi_redaction_policy :: string
  xi_messages :: "stored_message list"
  xi_model :: session_model

record memory_extraction =
  xt_facts :: "memory_fact list"
  xt_edges :: "memory_edge list"
  xt_tool_versions :: "tool_version list"
  xt_observations :: "tool_observation list"

record provenance =
  pv_seq_start :: "u64 option"
  pv_seq_end :: "u64 option"
  pv_observed_at_ns :: i64

record fact_spec =
  fs_fact_type :: string
  fs_subject :: "string \<times> string"
  fs_object :: "(string \<times> string) option"
  fs_value :: json
  fs_provenance :: provenance

definition build_fact :: "serde \<Rightarrow> string \<Rightarrow> fact_spec \<Rightarrow> memory_fact" where
  "build_fact S session_id spec =
     \<lparr>mf_fact_type = fs_fact_type spec, mf_subject_type = fst (fs_subject spec), mf_subject_key = snd (fs_subject spec),
      mf_object_type = map_option fst (fs_object spec), mf_object_key = map_option snd (fs_object spec),
      mf_value_json = print_json S (fs_value spec), mf_confidence = 1, mf_session_id = Some session_id,
      mf_seq_start = pv_seq_start (fs_provenance spec), mf_seq_end = pv_seq_end (fs_provenance spec),
      mf_source = EXTRACTOR_SOURCE, mf_observed_at_ns = pv_observed_at_ns (fs_provenance spec),
      mf_created_at_ns = pv_observed_at_ns (fs_provenance spec)\<rparr>"

definition intel_edge ::
  "serde \<Rightarrow> extraction_input \<Rightarrow> string \<Rightarrow> string \<times> string \<Rightarrow> string \<times> string \<Rightarrow> json \<Rightarrow> i64 \<Rightarrow> memory_edge" where
  "intel_edge S input edge_type from_node to_node v observed_at_ns =
     \<lparr>me_edge_type = edge_type, me_from_type = fst from_node, me_from_key = snd from_node, me_to_type = fst to_node,
      me_to_key = snd to_node, me_value_json = print_json S v, me_session_id = Some (xi_session_id input),
      me_source = EXTRACTOR_SOURCE, me_observed_at_ns = observed_at_ns, me_created_at_ns = observed_at_ns\<rparr>"

definition push_fact :: "memory_fact \<Rightarrow> memory_extraction \<Rightarrow> memory_extraction" where
  "push_fact f out = out\<lparr>xt_facts := xt_facts out @ [f]\<rparr>"

definition push_edge :: "memory_edge \<Rightarrow> memory_extraction \<Rightarrow> memory_extraction" where
  "push_edge e out = out\<lparr>xt_edges := xt_edges out @ [e]\<rparr>"

section \<open>Tool versions\<close>

definition extract_tool ::
  "serde \<Rightarrow> extraction_input \<Rightarrow> u64 option \<times> i64 \<Rightarrow> memory_extraction \<Rightarrow> string \<times> tool_def \<Rightarrow> memory_extraction" where
  "extract_tool S input listing out tool =
     (let tool_name = fst tool; def = snd tool;
          hash = (\<lambda>v. sha256_hex S (print_json S v));
          description_hash = hash (JString (unwrap_or [] (td_description def)));
          schema_hash = hash (opt_json (td_input_schema def));
          contract_hash = hash (json_object
            [(''title'', opt_str (td_title def)), (''outputSchema'', opt_json (td_output_schema def)),
             (''annotations'', opt_json (td_annotations def))]);
          tkey = tool_key (xi_server_key input) tool_name;
          version_key = tool_version_key (xi_server_key input) tool_name description_hash schema_hash contract_hash;
          version = \<lparr>tv_server_key = xi_server_key input, tv_tool_name = tool_name,
            tv_description_hash = Some description_hash, tv_schema_hash = Some schema_hash,
            tv_contract_hash = Some contract_hash, tv_description_redacted = None, tv_input_schema_redacted = None,
            tv_first_session_id = xi_session_id input, tv_first_seen_at_ns = snd listing,
            tv_last_seen_at_ns = snd listing\<rparr>;
          observation = \<lparr>to_session_id = xi_session_id input, to_server_key = xi_server_key input,
            to_tool_name = tool_name, to_version_key = version_key, to_description_hash = Some description_hash,
            to_schema_hash = Some schema_hash, to_contract_hash = Some contract_hash, to_seq = fst listing,
            to_observed_at_ns = snd listing\<rparr>;
          hashes = [(''description_hash'', JString description_hash), (''schema_hash'', JString schema_hash),
            (''contract_hash'', JString contract_hash)];
          fact = build_fact S (xi_session_id input)
            \<lparr>fs_fact_type = ''tool_has_version'', fs_subject = (''tool'', tkey),
             fs_object = Some (''tool_version'', version_key),
             fs_value = json_object ([(''server_key'', JString (xi_server_key input)), (''tool_name'', JString tool_name)] @ hashes),
             fs_provenance = \<lparr>pv_seq_start = fst listing, pv_seq_end = fst listing, pv_observed_at_ns = snd listing\<rparr>\<rparr>
      in push_edge (intel_edge S input ''tool_has_version'' (''tool'', tkey) (''tool_version'', version_key)
             (json_object hashes) (snd listing))
           (push_fact fact
              (out\<lparr>xt_tool_versions := xt_tool_versions out @ [version],
                   xt_observations := xt_observations out @ [observation]\<rparr>)))"

definition extract_tool_versions :: "serde \<Rightarrow> extraction_input \<Rightarrow> memory_extraction \<Rightarrow> memory_extraction" where
  "extract_tool_versions S input out =
     (let tools = extract_tools S (xi_messages input)
      in if tools = [] then out
         else let listing = unwrap_or (None, session_observed_at (xi_messages input))
                    (latest_tools_list_provenance (xi_model input))
              in foldl (extract_tool S input listing) out tools)"

section \<open>Exchanges\<close>

definition exchange_provenance :: "exchange \<Rightarrow> provenance" where
  "exchange_provenance e =
     \<lparr>pv_seq_start = fst (exchange_seq_range e), pv_seq_end = snd (exchange_seq_range e),
      pv_observed_at_ns = exchange_observed_at e\<rparr>"

definition push_exchange_status_fact ::
  "serde \<Rightarrow> extraction_input \<Rightarrow> exchange \<Rightarrow> string \<Rightarrow> string \<Rightarrow> memory_extraction \<Rightarrow> memory_extraction" where
  "push_exchange_status_fact S input e fact_type object_kind out =
     push_fact (build_fact S (xi_session_id input)
       \<lparr>fs_fact_type = fact_type, fs_subject = (''session'', xi_session_id input),
        fs_object = Some (''exchange'', exchange_key_name e),
        fs_value = json_object
          [(''kind'', JString object_kind), (''method'', opt_str (ex_method e)), (''tool_name'', opt_str (ex_tool_name e)),
           (''status'', JString (status_name (ex_status e))), (''origin'', JString (as_db_str (ex_origin e))),
           (''request_seq'', json_option json_u64 (ex_request_seq e)),
           (''response_seq'', json_option json_u64 (ex_response_seq e)),
           (''error_code'', json_option json_i64 (ex_error_code e))],
        fs_provenance = exchange_provenance e\<rparr>) out"

definition push_called_tool :: "serde \<Rightarrow> extraction_input \<Rightarrow> exchange \<Rightarrow> string \<Rightarrow> memory_extraction \<Rightarrow> memory_extraction" where
  "push_called_tool S input e tool_name out =
     (let tkey = tool_key (xi_server_key input) tool_name;
          fact = build_fact S (xi_session_id input)
            \<lparr>fs_fact_type = ''session_called_tool'', fs_subject = (''session'', xi_session_id input),
             fs_object = Some (''tool'', tkey),
             fs_value = json_object
               [(''method'', JString ''tools/call''), (''tool_name'', JString tool_name),
                (''status'', JString (status_name (ex_status e))), (''origin'', JString (as_db_str (ex_origin e))),
                (''latency_ns'', json_option json_i64 (ex_latency_ns e)),
                (''error_code'', json_option json_i64 (ex_error_code e))],
             fs_provenance = exchange_provenance e\<rparr>
      in push_edge (intel_edge S input ''session_called_tool'' (''session'', xi_session_id input) (''tool'', tkey)
             (json_object [(''status'', JString (status_name (ex_status e))),
                (''request_seq'', json_option json_u64 (ex_request_seq e)),
                (''response_seq'', json_option json_u64 (ex_response_seq e))])
             (exchange_observed_at e))
           (push_fact fact out))"

definition extract_exchange :: "serde \<Rightarrow> extraction_input \<Rightarrow> memory_extraction \<Rightarrow> exchange \<Rightarrow> memory_extraction" where
  "extract_exchange S input out e =
     (let out1 = (if ex_method e = Some ''tools/call''
                  then (case ex_tool_name e of
                          Some tool_name \<Rightarrow> push_called_tool S input e tool_name out
                        | None \<Rightarrow> out)
                  else out);
          push = (\<lambda>fact_type kind. push_exchange_status_fact S input e fact_type kind out1)
      in case ex_status e of
           Error \<Rightarrow> push ''session_has_error'' ''error''
         | ToolError \<Rightarrow> push ''session_has_error'' ''tool_execution_error''
         | OrphanResponse \<Rightarrow> push ''session_has_orphan_response'' ''orphan_response''
         | Unanswered \<Rightarrow> push ''session_has_unanswered_request'' ''unanswered_request''
         | Cancelled \<Rightarrow> push ''session_had_cancelled_request'' ''cancelled_request''
         | Ok \<Rightarrow> out1
         | Subscribed \<Rightarrow> out1)"

definition extract_exchange_facts :: "serde \<Rightarrow> extraction_input \<Rightarrow> memory_extraction \<Rightarrow> memory_extraction" where
  "extract_exchange_facts S input out = foldl (extract_exchange S input) out (exchanges (xi_model input))"

section \<open>One session\<close>

definition session_fact :: "serde \<Rightarrow> extraction_input \<Rightarrow> string \<Rightarrow> (string \<times> string) option \<Rightarrow> json \<Rightarrow> memory_fact" where
  "session_fact S input fact_type object v =
     build_fact S (xi_session_id input)
       \<lparr>fs_fact_type = fact_type, fs_subject = (''session'', xi_session_id input), fs_object = object, fs_value = v,
        fs_provenance = \<lparr>pv_seq_start = fst (session_seq_range (xi_messages input)),
          pv_seq_end = snd (session_seq_range (xi_messages input)),
          pv_observed_at_ns = session_observed_at (xi_messages input)\<rparr>\<rparr>"

definition latency_summary :: "session_stats \<Rightarrow> json" where
  "latency_summary st =
     json_object
       [(''total_exchanges'', json_u64 (total_exchanges st)), (''ok'', json_u64 (ok_count st)),
        (''errors'', json_u64 (errors_count st)), (''unanswered'', json_u64 (unanswered_count st)),
        (''orphan_responses'', json_u64 (orphan_responses st)), (''notifications'', json_u64 (notifications_count st)),
        (''latency_p50_ns'', json_option json_i64 (latency_p50_ns st)),
        (''latency_p95_ns'', json_option json_i64 (latency_p95_ns st)),
        (''latency_max_ns'', json_option json_i64 (latency_max_ns st)),
        (''tool_call_counts'', JArray (map (\<lambda>(tool, n).
           json_object [(''tool'', JString tool), (''count'', json_u64 n)]) (tool_call_counts st)))]"

definition extract_session_memory :: "serde \<Rightarrow> extraction_input \<Rightarrow> memory_extraction" where
  "extract_session_memory S input =
     (let server = (''server'', xi_server_key input);
          out = \<lparr>xt_facts = [session_fact S input ''session_observed_server'' (Some server)
                    (json_object [(''server_key'', JString (xi_server_key input))])],
                 xt_edges = [intel_edge S input ''session_observed_server'' (''session'', xi_session_id input) server
                    (json_object []) (session_observed_at (xi_messages input))],
                 xt_tool_versions = [], xt_observations = []\<rparr>
      in push_fact (session_fact S input ''session_redaction_policy'' None
             (json_object [(''policy'', JString (xi_redaction_policy input)), (''payload_text_persisted'', JBool False)]))
           (push_fact (session_fact S input ''session_latency_summary'' None (latency_summary (stats (xi_model input))))
              (extract_exchange_facts S input (extract_tool_versions S input out))))"

section \<open>Supersession\<close>

definition same_tool :: "tool_version_row \<Rightarrow> tool_version_row \<Rightarrow> bool" where
  "same_tool a b \<longleftrightarrow> tv_server_key a = tv_server_key b \<and> tv_tool_name a = tv_tool_name b"

definition supersedes_edge :: "serde \<Rightarrow> tool_version_row \<Rightarrow> tool_version_row \<Rightarrow> memory_edge" where
  "supersedes_edge S older newer =
     \<lparr>me_edge_type = ''version_supersedes'', me_from_type = ''tool_version'', me_from_key = tool_version_key_from_row newer,
      me_to_type = ''tool_version'', me_to_key = tool_version_key_from_row older,
      me_value_json = print_json S (json_object
        [(''server_key'', JString (tv_server_key newer)), (''tool_name'', JString (tv_tool_name newer)),
         (''from_description_hash'', opt_str (tv_description_hash newer)),
         (''from_schema_hash'', opt_str (tv_schema_hash newer)),
         (''to_description_hash'', opt_str (tv_description_hash older)),
         (''to_schema_hash'', opt_str (tv_schema_hash older))]),
      me_session_id = None, me_source = SUPERSESSION_SOURCE, me_observed_at_ns = tv_first_seen_at_ns newer,
      me_created_at_ns = tv_first_seen_at_ns newer\<rparr>"

text \<open>\<open>windows(2)\<close>, and the loop over the runs of rows of one tool.\<close>

fun windows2 :: "'a list \<Rightarrow> ('a \<times> 'a) list" where
  "windows2 (x # y # xs) = (x, y) # windows2 (y # xs)"
| "windows2 xs = []"

function supersession_groups :: "serde \<Rightarrow> tool_version_row list \<Rightarrow> memory_edge list" where
  "supersession_groups S [] = []"
| "supersession_groups S (r # rs) =
     map (\<lambda>(older, newer). supersedes_edge S older newer) (windows2 (r # takeWhile (\<lambda>q. same_tool q r) rs))
     @ supersession_groups S (dropWhile (\<lambda>q. same_tool q r) rs)"
  by pat_completeness auto

termination
  by (relation "measure (\<lambda>(S, rs). length rs)") (auto simp: length_dropWhile_le less_Suc_eq_le)

definition compute_version_supersessions :: "serde \<Rightarrow> tool_version_row list \<Rightarrow> memory_edge list" where
  "compute_version_supersessions S versions =
     supersession_groups S
       (sort_key (\<lambda>r. (tv_server_key r, tv_tool_name r, tv_first_seen_at_ns r, tv_id r)) versions)"

section \<open>The index command\<close>

definition session_extraction :: "serde \<Rightarrow> store \<Rightarrow> string \<Rightarrow> store_error + memory_extraction" where
  "session_extraction S st session_id =
     (case get_messages st session_id of
        Inl e \<Rightarrow> Inl e
      | Inr messages \<Rightarrow>
          (case get_server_command st session_id of
             Inl e \<Rightarrow> Inl e
           | Inr server_command \<Rightarrow>
               (case get_redaction_policy st session_id of
                  Inl e \<Rightarrow> Inl e
                | Inr policy \<Rightarrow>
                    Inr (extract_session_memory S
                      \<lparr>xi_session_id = session_id, xi_server_key = derive_server_key S server_command,
                       xi_redaction_policy = policy, xi_messages = messages, xi_model = correlate S messages\<rparr>))))"

text \<open>A session that cannot be read ends the command; the sessions before it stay rebuilt.\<close>

fun rebuild_sessions :: "serde \<Rightarrow> store \<Rightarrow> memory \<Rightarrow> string list \<Rightarrow> (store_error + unit) \<times> memory" where
  "rebuild_sessions S st mem [] = (Inr (), mem)"
| "rebuild_sessions S st mem (session_id # rest) =
     (case session_extraction S st session_id of
        Inl e \<Rightarrow> (Inl e, mem)
      | Inr x \<Rightarrow>
          rebuild_sessions S st
            (rebuild_memory_for_session mem session_id (xt_facts x) (xt_edges x) (xt_tool_versions x) (xt_observations x))
            rest)"

definition index_rebuild :: "serde \<Rightarrow> store \<Rightarrow> memory \<Rightarrow> string option \<Rightarrow> (store_error + unit) \<times> memory" where
  "index_rebuild S st mem session =
     (case (case session of
              Some pre \<Rightarrow> map_sum id (\<lambda>sid. [sid]) (resolve_session_id st pre)
            | None \<Rightarrow> Inr (all_session_ids st)) of
        Inl e \<Rightarrow> (Inl e, mem)
      | Inr session_ids \<Rightarrow>
          (case rebuild_sessions S st mem session_ids of
             (Inl e, mem1) \<Rightarrow> (Inl e, mem1)
           | (Inr _, mem1) \<Rightarrow>
               (Inr (), replace_supersession_edges mem1 (compute_version_supersessions S (list_tool_versions mem1)))))"

end
