(* ===== verification/IntelProps.thy ===== *)
theory IntelProps
  imports Intel StoreProps
begin

text \<open>
  What \<open>index rebuild\<close> leaves in the derived tables: for every rebuilt session exactly the rows derived
  from it, one supersession edge per pair of consecutive versions of a tool, and nothing that a second
  rebuild would change.
\<close>

section \<open>What an extraction holds\<close>

definition owned :: "string \<Rightarrow> memory_extraction \<Rightarrow> bool" where
  "owned sid x \<longleftrightarrow> (\<forall>f \<in> set (xt_facts x). mf_session_id f = Some sid)
     \<and> (\<forall>e \<in> set (xt_edges x). me_session_id e = Some sid \<and> me_edge_type e \<noteq> ''version_supersedes'')
     \<and> (\<forall>v \<in> set (xt_tool_versions x). tv_description_hash v \<noteq> None \<and> tv_schema_hash v \<noteq> None \<and> tv_contract_hash v \<noteq> None)
     \<and> (\<forall>r \<in> set (xt_observations x). to_session_id r = sid)"

lemma owned_push_fact: "mf_session_id f = Some sid \<Longrightarrow> owned sid out \<Longrightarrow> owned sid (push_fact f out)"
  by (auto simp: owned_def push_fact_def)

lemma owned_push_edge:
  "me_session_id e = Some sid \<Longrightarrow> me_edge_type e \<noteq> ''version_supersedes'' \<Longrightarrow> owned sid out \<Longrightarrow> owned sid (push_edge e out)"
  by (auto simp: owned_def push_edge_def)

lemma built_owner [simp]: "mf_session_id (build_fact S sid spec) = Some sid"
  "me_session_id (intel_edge S input t a b v n) = Some (xi_session_id input)"
  "me_edge_type (intel_edge S input t a b v n) = t"
  by (simp_all add: build_fact_def intel_edge_def)

lemma extract_tool_owned: "owned (xi_session_id input) out \<Longrightarrow> owned (xi_session_id input) (extract_tool S input listing out tool)"
  unfolding extract_tool_def Let_def
  by (intro owned_push_edge owned_push_fact) (auto simp: owned_def)

lemma extract_exchange_owned: "owned (xi_session_id input) out \<Longrightarrow> owned (xi_session_id input) (extract_exchange S input out e)"
  by (auto simp: extract_exchange_def push_called_tool_def push_exchange_status_fact_def Let_def
      intro!: owned_push_edge owned_push_fact split: exchange_status.split option.split)

lemma foldl_keeps: "P x \<Longrightarrow> (\<And>x y. P x \<Longrightarrow> P (f x y)) \<Longrightarrow> P (foldl f x ys)"
  by (induction ys arbitrary: x) auto

lemma extraction_owned: "owned (xi_session_id input) (extract_session_memory S input)"
proof -
  let ?P = "owned (xi_session_id input)"
  have tools: "?P (extract_tool_versions S input out)" if "?P out" for out
    using that by (auto simp: extract_tool_versions_def Let_def intro!: foldl_keeps[where P = ?P] extract_tool_owned)
  have "?P (extract_exchange_facts S input out)" if "?P out" for out
    unfolding extract_exchange_facts_def by (rule foldl_keeps[where P = ?P, OF that extract_exchange_owned])
  with tools show ?thesis unfolding extract_session_memory_def Let_def
    by (intro owned_push_fact) (auto simp: session_fact_def owned_def[of _ "\<lparr>xt_facts = _, xt_edges = _, xt_tool_versions = _, xt_observations = _\<rparr>"])
qed

text \<open>One observation per tool of the catalog.\<close>

lemma observations_frame [simp]:
  "xt_observations (push_fact f out) = xt_observations out" "xt_observations (push_edge e out) = xt_observations out"
  by (simp_all add: push_fact_def push_edge_def)

lemma extract_exchange_observations [simp]: "xt_observations (extract_exchange S input out e) = xt_observations out"
  by (simp add: extract_exchange_def push_called_tool_def push_exchange_status_fact_def Let_def
      split: exchange_status.split option.split)

lemma extract_exchanges_observations [simp]: "xt_observations (foldl (extract_exchange S input) out es) = xt_observations out"
  by (induction es arbitrary: out) auto

lemma extract_tools_observed:
  "map to_tool_name (xt_observations (foldl (extract_tool S input listing) out tools))
     = map to_tool_name (xt_observations out) @ map fst tools"
  by (induction tools arbitrary: out) (auto simp: extract_tool_def Let_def)

lemma extraction_observed: "distinct (map to_tool_name (xt_observations (extract_session_memory S input)))"
  using bt_wf_distinct[OF extract_tools_wf]
  by (simp add: extract_session_memory_def extract_exchange_facts_def extract_tool_versions_def Let_def extract_tools_observed)

section \<open>Replacing the rows of a session\<close>

lemma replace_rows:
  assumes "distinct (map fst ps)" "\<forall>p \<in> set ps. \<forall>r \<in> set (snd p). own r = Some (fst p)"
  shows "foldl (\<lambda>rows p. filter (\<lambda>r. own r \<noteq> Some (fst p)) rows @ snd p) rows ps
       = filter (\<lambda>r. own r \<notin> Some ` fst ` set ps) rows @ concat (map snd ps)"
  using assms
proof (induction ps arbitrary: rows)
  case (Cons p ps)
  have "filter (\<lambda>r. own r \<notin> Some ` fst ` set ps) (snd p) = snd p"
    using Cons.prems by (intro filter_True) auto
  moreover have "filter (\<lambda>r. own r \<notin> Some ` fst ` set ps) (filter (\<lambda>r. own r \<noteq> Some (fst p)) rows)
      = filter (\<lambda>r. own r \<notin> Some ` fst ` set (p # ps)) rows"
    unfolding filter_filter by (intro filter_cong) auto
  ultimately show ?case using Cons by simp
qed simp

text \<open>Replacing twice is replacing once.\<close>

lemma replace_rows_again:
  assumes "\<forall>p \<in> set ps. \<forall>r \<in> set (snd p). own r = Some (fst p)"
  shows "filter (\<lambda>r. own r \<notin> Some ` fst ` set ps) (filter (\<lambda>r. own r \<notin> Some ` fst ` set ps) rows @ concat (map snd ps))
       = filter (\<lambda>r. own r \<notin> Some ` fst ` set ps) rows"
  using assms by (auto simp: filter_empty_conv)

lemma upsert_observations_fresh:
  assumes "distinct (map to_tool_name os)" "\<forall>r \<in> set os. to_session_id r = sid"
    "\<forall>r \<in> set rows. to_session_id r = sid \<longrightarrow> to_tool_name r \<notin> to_tool_name ` set os"
  shows "foldl upsert_observation rows os = rows @ map (\<lambda>r. r\<lparr>to_seq := stored_seq (to_seq r)\<rparr>) os"
  using assms
proof (induction os arbitrary: rows)
  case (Cons v os)
  have "\<not> list_ex (\<lambda>r. observation_conflict r v) rows"
    using Cons.prems(2,3) by (auto simp: list_ex_iff observation_conflict_def)
  then show ?case using Cons by (auto simp: upsert_observation_def Let_def)
qed simp

section \<open>Tool versions\<close>

definition memory_ok :: "memory \<Rightarrow> bool" where
  "memory_ok mem \<longleftrightarrow> distinct (map tv_id (mt_versions mem)) \<and> (\<forall>r \<in> set (mt_versions mem). tv_id r < mt_next_version_id mem)"

definition absorbs :: "tool_version_row list \<Rightarrow> tool_version \<Rightarrow> bool" where
  "absorbs rows v \<longleftrightarrow> (\<exists>r \<in> set rows. version_conflict r v)
     \<and> (\<forall>r \<in> set rows. version_conflict r v \<longrightarrow>
          tv_first_seen_at_ns r \<le> tv_first_seen_at_ns v \<and> tv_last_seen_at_ns v \<le> tv_last_seen_at_ns r)"

definition version_key :: "'a tool_version_scheme \<Rightarrow> (string \<times> string) \<times> string option \<times> string option \<times> string option" where
  "version_key v = ((tv_server_key v, tv_tool_name v), tv_description_hash v, tv_schema_hash v, tv_contract_hash v)"

definition hashed :: "'a tool_version_scheme \<Rightarrow> bool" where
  "hashed v \<longleftrightarrow> tv_description_hash v \<noteq> None \<and> tv_schema_hash v \<noteq> None \<and> tv_contract_hash v \<noteq> None"

lemma version_conflict_iff: "version_conflict r v \<longleftrightarrow> version_key r = version_key v \<and> hashed v"
  by (simp only: version_conflict_def version_key_def hashed_def prod.inject) metis

lemma version_key_hashed: "version_key u = version_key v \<Longrightarrow> hashed u \<longleftrightarrow> hashed v"
  by (simp add: version_key_def hashed_def)

lemma update_version_simps [simp]:
  "version_key (update_version r u) = version_key r" "tv_id (update_version r u) = tv_id r"
  "tv_first_seen_at_ns (update_version r u) = min (tv_first_seen_at_ns r) (tv_first_seen_at_ns u)"
  "tv_last_seen_at_ns (update_version r u) = max (tv_last_seen_at_ns r) (tv_last_seen_at_ns u)"
  by (simp_all add: update_version_def version_key_def)

lemma extend_simps [simp]:
  "version_key (tool_version.extend u x) = version_key u" "tv_first_seen_at_ns (tool_version.extend u x) = tv_first_seen_at_ns u"
  "tv_last_seen_at_ns (tool_version.extend u x) = tv_last_seen_at_ns u"
  by (simp_all add: version_key_def tool_version.defs)

lemma upsert_absorbed: "absorbs (mt_versions mem) v \<Longrightarrow> upsert_version mem v = mem"
proof -
  assume a: "absorbs (mt_versions mem) v"
  then have "map (\<lambda>r. if version_conflict r v then update_version r v else r) (mt_versions mem) = mt_versions mem"
    by (intro map_idI) (auto simp: absorbs_def update_version_def)
  with a show ?thesis by (simp add: upsert_version_def absorbs_def list_ex_iff)
qed

lemma absorbs_self: "hashed v \<Longrightarrow> absorbs (mt_versions (upsert_version mem v)) v"
proof (cases "list_ex (\<lambda>r. version_conflict r v) (mt_versions mem)")
  case True
  then obtain r where "r \<in> set (mt_versions mem)" "version_conflict r v" by (auto simp: list_ex_iff)
  then have "\<exists>q \<in> set (mt_versions (upsert_version mem v)). version_conflict q v"
    using True by (intro bexI[of _ "update_version r v"]) (auto simp: upsert_version_def version_conflict_iff)
  moreover have "\<forall>q \<in> set (mt_versions (upsert_version mem v)). version_conflict q v \<longrightarrow>
      tv_first_seen_at_ns q \<le> tv_first_seen_at_ns v \<and> tv_last_seen_at_ns v \<le> tv_last_seen_at_ns q"
    using True by (auto simp: upsert_version_def)
  ultimately show ?thesis by (simp add: absorbs_def)
next
  case False
  assume "hashed v"
  with False show ?thesis by (auto simp: upsert_version_def absorbs_def list_ex_iff version_conflict_iff)
qed

lemma absorbs_keep: "absorbs (mt_versions mem) v \<Longrightarrow> absorbs (mt_versions (upsert_version mem u)) v"
proof (cases "list_ex (\<lambda>r. version_conflict r u) (mt_versions mem)")
  case True
  assume a: "absorbs (mt_versions mem) v"
  then obtain r where "r \<in> set (mt_versions mem)" "version_conflict r v" by (auto simp: absorbs_def)
  then have "\<exists>q \<in> set (mt_versions (upsert_version mem u)). version_conflict q v"
    using True by (intro bexI[of _ "if version_conflict r u then update_version r u else r"])
      (auto simp: upsert_version_def version_conflict_iff)
  moreover have "tv_first_seen_at_ns q \<le> tv_first_seen_at_ns v \<and> tv_last_seen_at_ns v \<le> tv_last_seen_at_ns q"
    if q: "q \<in> set (mt_versions (upsert_version mem u))" "version_conflict q v" for q
  proof -
    from q(1) True obtain r where r: "r \<in> set (mt_versions mem)" "q = r \<or> q = update_version r u"
      by (auto simp: upsert_version_def split: if_splits)
    with q(2) have "version_conflict r v" by (auto simp: version_conflict_iff)
    with a r show ?thesis by (force simp: absorbs_def)
  qed
  ultimately show ?thesis by (simp add: absorbs_def)
next
  case False
  assume a: "absorbs (mt_versions mem) v"
  then have "\<not> version_conflict u v" 
    using False version_key_hashed[of u v] by (auto simp: absorbs_def list_ex_iff version_conflict_iff)
  with a False show ?thesis by (auto simp: upsert_version_def absorbs_def version_conflict_iff)
qed

lemma absorbs_fold: "absorbs (mt_versions mem) v \<Longrightarrow> absorbs (mt_versions (foldl upsert_version mem us)) v"
  by (rule foldl_keeps[where P = "\<lambda>m. absorbs (mt_versions m) v"]) (auto intro: absorbs_keep)

lemma upserts_absorb:
  assumes "\<forall>v \<in> set vs. hashed v" "v \<in> set vs"
  shows "absorbs (mt_versions (foldl upsert_version mem vs)) v"
  using assms
proof (induction vs arbitrary: mem)
  case (Cons u vs)
  then show ?case by (cases "v = u") (auto intro: absorbs_fold absorbs_self)
qed simp

lemma upserts_absorbed: "\<forall>v \<in> set vs. absorbs (mt_versions mem) v \<Longrightarrow> foldl upsert_version mem vs = mem"
  by (induction vs) (auto simp: upsert_absorbed)

lemma upsert_version_ok: "memory_ok mem \<Longrightarrow> memory_ok (upsert_version mem v)"
  by (auto simp: memory_ok_def upsert_version_def tool_version.defs comp_def if_distrib cong: if_cong)

lemma foldl_memory_ok: "memory_ok mem \<Longrightarrow> memory_ok (foldl upsert_version mem vs)"
  by (rule foldl_keeps[where P = memory_ok]) (auto intro: upsert_version_ok)

section \<open>Supersession\<close>

abbreviation version_order :: "tool_version_row \<Rightarrow> string \<times> string \<times> i64 \<times> nat" where
  "version_order r \<equiv> (tv_server_key r, tv_tool_name r, tv_first_seen_at_ns r, tv_id r)"

text \<open>\<open>b\<close> is the next version of the same tool after \<open>a\<close>.\<close>

definition next_version :: "tool_version_row list \<Rightarrow> tool_version_row \<Rightarrow> tool_version_row \<Rightarrow> bool" where
  "next_version rows a b \<longleftrightarrow> a \<in> set rows \<and> b \<in> set rows \<and> same_tool a b \<and> version_order a < version_order b
     \<and> \<not> (\<exists>c \<in> set rows. version_order a < version_order c \<and> version_order c < version_order b)"

lemma windows2_append: "windows2 (xs @ x # y # ys) = windows2 (xs @ [x]) @ (x, y) # windows2 (y # ys)"
  by (induction xs rule: windows2.induct) auto

lemma windows2_set: "sorted_wrt (<) (map f xs) \<Longrightarrow>
    (a, b) \<in> set (windows2 xs) \<longleftrightarrow> a \<in> set xs \<and> b \<in> set xs \<and> f a < f b \<and> \<not> (\<exists>c \<in> set xs. f a < f c \<and> f c < f b)"
  for f :: "'a \<Rightarrow> 'k :: linorder"
proof (induction xs rule: windows2.induct)
  case (1 x y xs)
  then have order: "\<forall>c \<in> set (y # xs). f x < f c" "\<forall>c \<in> set xs. f y < f c" by auto
  have IH: "(a, b) \<in> set (windows2 (y # xs)) \<longleftrightarrow>
      a \<in> set (y # xs) \<and> b \<in> set (y # xs) \<and> f a < f b \<and> \<not> (\<exists>c \<in> set (y # xs). f a < f c \<and> f c < f b)"
    using 1 by simp
  show ?case
  proof (cases "a = x")
    case True
    then have "a \<notin> set (y # xs)" using order(1) by blast
    then have "(a, b) \<in> set (windows2 (x # y # xs)) \<longleftrightarrow> b = y" using True IH by auto
    also have "\<dots> \<longleftrightarrow> b \<in> set (x # y # xs) \<and> f x < f b \<and> \<not> (\<exists>c \<in> set (x # y # xs). f x < f c \<and> f c < f b)"
      using order by (auto dest: less_asym)
    finally show ?thesis using True by simp
  next
    case False
    then have "(a, b) \<in> set (windows2 (x # y # xs)) \<longleftrightarrow> (a, b) \<in> set (windows2 (y # xs))" by simp
    moreover have "\<not> f a < f x" if "a \<in> set (y # xs)" using order(1) that by (blast dest: less_asym)
    ultimately show ?thesis using IH False by auto
  qed
qed auto

lemma supersession_groups_windows:
  "supersession_groups S rows = map (\<lambda>(a, b). supersedes_edge S a b) (filter (\<lambda>(a, b). same_tool a b) (windows2 rows))"
proof (induction S rows rule: supersession_groups.induct)
  case (2 S r rs)
  let ?g = "takeWhile (\<lambda>q. same_tool q r) rs"
  let ?rest = "dropWhile (\<lambda>q. same_tool q r) rs"
  have group: "filter (\<lambda>(a, b). same_tool a b) (windows2 (r # ?g)) = windows2 (r # ?g)"
  proof (intro filter_True ballI)
    fix p assume "p \<in> set (windows2 (r # ?g))"
    moreover have "set (windows2 xs) \<subseteq> set xs \<times> set xs" for xs :: "tool_version_row list"
      by (induction xs rule: windows2.induct) auto
    ultimately have "fst p \<in> set (r # ?g)" "snd p \<in> set (r # ?g)" by fastforce+
    then have "same_tool (fst p) r" "same_tool (snd p) r" by (auto dest: set_takeWhileD simp: same_tool_def)
    then show "case p of (a, b) \<Rightarrow> same_tool a b" by (auto simp: same_tool_def split: prod.split)
  qed
  show ?case
  proof (cases ?rest)
    case Nil
    then have "rs = ?g" using takeWhile_dropWhile_id[of "\<lambda>q. same_tool q r" rs] by (metis append_Nil2)
    then have "windows2 (r # rs) = windows2 (r # ?g)" by simp
    then show ?thesis unfolding supersession_groups.simps Nil by (simp only: group append_Nil2 supersession_groups.simps)
  next
    case (Cons q qs)
    then have other: "\<not> same_tool q r" using hd_dropWhile[of "\<lambda>q. same_tool q r" rs] by simp
    obtain ys y where g: "r # ?g = ys @ [y]" by (metis rev_exhaust list.distinct(1))
    then have "y \<in> set (r # ?g)" by simp
    then have "same_tool y r" by (auto dest: set_takeWhileD simp: same_tool_def)
    with other have "\<not> same_tool y q" by (auto simp: same_tool_def)
    moreover have split: "r # rs = ys @ y # q # qs"
      using takeWhile_dropWhile_id[of "\<lambda>q. same_tool q r" rs] g Cons by (metis append.assoc append_Cons append_Nil)
    ultimately have "filter (\<lambda>(a, b). same_tool a b) (windows2 (r # rs))
        = windows2 (r # ?g) @ filter (\<lambda>(a, b). same_tool a b) (windows2 ?rest)"
      unfolding split windows2_append Cons using group g by simp
    then show ?thesis unfolding supersession_groups.simps(2) "2.IH" by simp
  qed
qed simp

lemma supersessions_exact:
  assumes "distinct (map tv_id rows)"
  shows "set (compute_version_supersessions S rows) = {supersedes_edge S a b | a b. next_version rows a b}"
    and "\<forall>e \<in> set (compute_version_supersessions S rows). me_session_id e = None \<and> me_edge_type e = ''version_supersedes''"
proof -
  let ?xs = "sort_key version_order rows"
  have "distinct (map version_order ?xs)"
    using assms by (auto simp: distinct_map inj_on_def)
  then have sorted: "sorted_wrt (<) (map version_order ?xs)" by (simp add: strict_sorted_iff)
  show "set (compute_version_supersessions S rows) = {supersedes_edge S a b | a b. next_version rows a b}"
  proof -
    have "(a, b) \<in> set (windows2 ?xs) \<and> same_tool a b \<longleftrightarrow> next_version rows a b" for a b
      unfolding windows2_set[OF sorted] set_sort next_version_def by blast
    then show ?thesis
      unfolding compute_version_supersessions_def supersession_groups_windows by (force simp only: set_map set_filter image_def split: prod.splits)
  qed
  show "\<forall>e \<in> set (compute_version_supersessions S rows). me_session_id e = None \<and> me_edge_type e = ''version_supersedes''"
    by (auto simp: compute_version_supersessions_def supersession_groups_windows supersedes_edge_def)
qed

section \<open>A rebuild as a fold\<close>

definition rebuild_one :: "memory \<Rightarrow> string \<times> memory_extraction \<Rightarrow> memory" where
  "rebuild_one mem p = rebuild_memory_for_session mem (fst p) (xt_facts (snd p)) (xt_edges (snd p))
     (xt_tool_versions (snd p)) (xt_observations (snd p))"

definition derived :: "serde \<Rightarrow> store \<Rightarrow> (string \<times> memory_extraction) list \<Rightarrow> bool" where
  "derived S st ps \<longleftrightarrow> (\<forall>p \<in> set ps. session_extraction S st (fst p) = Inr (snd p)) \<and> distinct (map fst ps)"

lemma rebuild_sessions_fold:
  "rebuild_sessions S st mem sids = (Inr (), mem') \<Longrightarrow>
     \<exists>ps. map fst ps = sids \<and> (\<forall>p \<in> set ps. session_extraction S st (fst p) = Inr (snd p)) \<and> mem' = foldl rebuild_one mem ps"
proof (induction S st mem sids rule: rebuild_sessions.induct)
  case (2 S st mem sid rest)
  then obtain x where x: "session_extraction S st sid = Inr x" by (auto split: sum.splits)
  have "rebuild_sessions S st (rebuild_one mem (sid, x)) rest = (Inr (), mem')"
    using "2.prems" x by (simp add: rebuild_one_def)
  from "2.IH"[OF x this[unfolded rebuild_one_def fst_conv snd_conv]] obtain ps where ps: "map fst ps = rest"
    "\<forall>p \<in> set ps. session_extraction S st (fst p) = Inr (snd p)"
    "mem' = foldl rebuild_one (rebuild_one mem (sid, x)) ps" unfolding rebuild_one_def[of mem] fst_conv snd_conv by blast
  with x show ?case by (intro exI[of _ "(sid, x) # ps"]) simp
qed simp

lemma rebuild_sessions_derived: "derived S st ps \<Longrightarrow> rebuild_sessions S st mem (map fst ps) = (Inr (), foldl rebuild_one mem ps)"
  by (induction ps arbitrary: mem) (auto simp: derived_def rebuild_one_def)

lemma derived_owned:
  assumes "derived S st ps" "p \<in> set ps"
  shows "owned (fst p) (snd p)" "distinct (map to_tool_name (xt_observations (snd p)))"
proof -
  have "session_extraction S st (fst p) = Inr (snd p)" using assms by (simp add: derived_def)
  then have "\<exists>input. snd p = extract_session_memory S input \<and> xi_session_id input = fst p"
    by (auto simp: session_extraction_def split: sum.splits intro!: exI conjI[OF sym])
  then obtain input where "snd p = extract_session_memory S input" "xi_session_id input = fst p" by blast
  then show "owned (fst p) (snd p)" "distinct (map to_tool_name (xt_observations (snd p)))"
    using extraction_owned[of input S] extraction_observed by metis+
qed

abbreviation stored_observation :: "tool_observation \<Rightarrow> tool_observation" where
  "stored_observation r \<equiv> r\<lparr>to_seq := stored_seq (to_seq r)\<rparr>"

lemma upserts_frame [simp]:
  "mt_facts (foldl upsert_version mem vs) = mt_facts mem" "mt_edges (foldl upsert_version mem vs) = mt_edges mem"
  "mt_observations (foldl upsert_version mem vs) = mt_observations mem"
  by (rule foldl_keeps[where P = "\<lambda>m. mt_facts m = mt_facts mem"], simp, simp add: upsert_version_def)
    (rule foldl_keeps[where P = "\<lambda>m. mt_edges m = mt_edges mem"], simp, simp add: upsert_version_def,
     rule foldl_keeps[where P = "\<lambda>m. mt_observations m = mt_observations mem"], simp, simp add: upsert_version_def)

lemma upserts_commute:
  "foldl upsert_version (mem\<lparr>mt_facts := fs, mt_edges := es\<rparr>) vs = (foldl upsert_version mem vs)\<lparr>mt_facts := fs, mt_edges := es\<rparr>"
proof -
  have "upsert_version (m\<lparr>mt_facts := fs, mt_edges := es\<rparr>) v = (upsert_version m v)\<lparr>mt_facts := fs, mt_edges := es\<rparr>" for m v
    by (simp add: upsert_version_def)
  then show ?thesis by (induction vs arbitrary: mem) simp_all
qed

lemma rebuild_one_rows:
  assumes "owned (fst p) (snd p)" "distinct (map to_tool_name (xt_observations (snd p)))"
  shows "mt_facts (rebuild_one mem p) = filter (\<lambda>f. mf_session_id f \<noteq> Some (fst p)) (mt_facts mem) @ map stored_fact (xt_facts (snd p))"
    "mt_edges (rebuild_one mem p) = filter (\<lambda>e. me_session_id e \<noteq> Some (fst p)) (mt_edges mem) @ xt_edges (snd p)"
    "mt_observations (rebuild_one mem p) = filter (\<lambda>r. Some (to_session_id r) \<noteq> Some (fst p)) (mt_observations mem)
       @ map stored_observation (xt_observations (snd p))"
    "mt_versions (rebuild_one mem p) = mt_versions (foldl upsert_version mem (xt_tool_versions (snd p)))"
    "mt_next_version_id (rebuild_one mem p) = mt_next_version_id (foldl upsert_version mem (xt_tool_versions (snd p)))"
proof -
  have "foldl upsert_observation (filter (\<lambda>r. to_session_id r \<noteq> fst p) (mt_observations mem)) (xt_observations (snd p))
      = filter (\<lambda>r. to_session_id r \<noteq> fst p) (mt_observations mem) @ map stored_observation (xt_observations (snd p))"
    using assms by (intro upsert_observations_fresh[where sid = "fst p"]) (auto simp: owned_def)
  then show "mt_observations (rebuild_one mem p) = filter (\<lambda>r. Some (to_session_id r) \<noteq> Some (fst p)) (mt_observations mem)
       @ map stored_observation (xt_observations (snd p))"
    by (simp add: rebuild_one_def rebuild_memory_for_session_def Let_def)
qed (simp_all add: rebuild_one_def rebuild_memory_for_session_def Let_def upserts_commute)

text \<open>The rows of every table after a rebuild.\<close>

definition replaced :: "('r \<Rightarrow> string option) \<Rightarrow> string set \<Rightarrow> 'r list \<Rightarrow> 'r list list \<Rightarrow> 'r list" where
  "replaced own sids rows new = filter (\<lambda>r. own r \<notin> Some ` sids) rows @ concat new"

lemma replaced_fold:
  assumes "\<And>mem p. p \<in> set ps \<Longrightarrow> table (rebuild_one mem p) = filter (\<lambda>r. own r \<noteq> Some (fst p)) (table mem) @ new p"
    "\<forall>p \<in> set ps. \<forall>r \<in> set (new p). own r = Some (fst p)" "distinct (map fst ps)"
  shows "table (foldl rebuild_one mem ps) = replaced own (fst ` set ps) (table mem) (map new ps)"
proof -
  let ?ps = "map (\<lambda>p. (fst p, new p)) ps"
  have "table (foldl rebuild_one mem ps) = foldl (\<lambda>rows p. filter (\<lambda>r. own r \<noteq> Some (fst p)) rows @ snd p) (table mem) ?ps"
    using assms(1) by (induction ps arbitrary: mem) auto
  also have "\<dots> = replaced own (fst ` set ps) (table mem) (map new ps)"
    using assms(2,3) replace_rows[of ?ps own "table mem"] by (simp add: replaced_def image_image comp_def)
  finally show ?thesis .
qed

lemma rebuilt_tables:
  assumes "derived S st ps"
    and mem1: "mem1 = foldl rebuild_one mem ps" and sids: "sids = fst ` set ps"
  shows "mt_facts mem1 = replaced mf_session_id sids (mt_facts mem) (map (\<lambda>p. map stored_fact (xt_facts (snd p))) ps)"
    "mt_edges mem1 = replaced me_session_id sids (mt_edges mem) (map (\<lambda>p. xt_edges (snd p)) ps)"
    "mt_observations mem1 = replaced (\<lambda>r. Some (to_session_id r)) sids (mt_observations mem)
       (map (\<lambda>p. map stored_observation (xt_observations (snd p))) ps)"
  unfolding mem1 sids using assms(1)
  by (intro replaced_fold rebuild_one_rows derived_owned[OF assms(1)];
      fastforce simp: derived_def owned_def stored_fact_def dest: derived_owned(1)[OF assms(1)])+

text \<open>The versions after a rebuild, and why a second one finds nothing to do.\<close>

lemma upserts_cong:
  "mt_versions m = mt_versions m' \<Longrightarrow> mt_next_version_id m = mt_next_version_id m' \<Longrightarrow>
     mt_versions (foldl upsert_version m vs) = mt_versions (foldl upsert_version m' vs)
     \<and> mt_next_version_id (foldl upsert_version m vs) = mt_next_version_id (foldl upsert_version m' vs)"
proof (induction vs arbitrary: m m')
  case (Cons v vs)
  have "mt_versions (upsert_version m v) = mt_versions (upsert_version m' v)
      \<and> mt_next_version_id (upsert_version m v) = mt_next_version_id (upsert_version m' v)"
    using Cons.prems by (simp add: upsert_version_def)
  from Cons.IH[OF conjunct1[OF this] conjunct2[OF this]] show ?case by simp
qed simp

lemma rebuilt_versions:
  assumes "derived S st ps"
  shows "memory_ok mem \<Longrightarrow> memory_ok (foldl rebuild_one mem ps)"
    "\<forall>p \<in> set ps. \<forall>v \<in> set (xt_tool_versions (snd p)). absorbs (mt_versions (foldl rebuild_one mem ps)) v"
    "\<forall>p \<in> set ps. \<forall>v \<in> set (xt_tool_versions (snd p)). absorbs (mt_versions mem) v \<Longrightarrow>
       mt_versions (foldl rebuild_one mem ps) = mt_versions mem
       \<and> mt_next_version_id (foldl rebuild_one mem ps) = mt_next_version_id mem"
proof -
  let ?vs = "concat (map (\<lambda>p. xt_tool_versions (snd p)) ps)"
  have fold: "mt_versions (foldl rebuild_one mem ps) = mt_versions (foldl upsert_version mem ?vs)
      \<and> mt_next_version_id (foldl rebuild_one mem ps) = mt_next_version_id (foldl upsert_version mem ?vs)"
  proof -
    from assms have own: "\<forall>p \<in> set ps. owned (fst p) (snd p) \<and> distinct (map to_tool_name (xt_observations (snd p)))"
      using derived_owned by blast
    have "mt_versions m = mt_versions m' \<Longrightarrow> mt_next_version_id m = mt_next_version_id m' \<Longrightarrow>
        mt_versions (foldl rebuild_one m ps) = mt_versions (foldl upsert_version m' ?vs)
        \<and> mt_next_version_id (foldl rebuild_one m ps) = mt_next_version_id (foldl upsert_version m' ?vs)" for m m'
      using own
    proof (induction ps arbitrary: m m')
      case (Cons p ps)
      note step = upserts_cong[OF Cons.prems(1,2), of "xt_tool_versions (snd p)"]
      have "mt_versions (rebuild_one m p) = mt_versions (foldl upsert_version m' (xt_tool_versions (snd p)))"
        "mt_next_version_id (rebuild_one m p) = mt_next_version_id (foldl upsert_version m' (xt_tool_versions (snd p)))"
        using rebuild_one_rows(4,5)[of p m] Cons.prems(3) step by simp_all
      from Cons.IH[OF this] Cons.prems show ?case by simp
    qed simp
    then show ?thesis by blast
  qed
  then show "memory_ok mem \<Longrightarrow> memory_ok (foldl rebuild_one mem ps)"
    using foldl_memory_ok[of mem ?vs] by (simp add: memory_ok_def)
  have "\<forall>v \<in> set ?vs. hashed v" using derived_owned(1)[OF assms] by (fastforce simp: owned_def hashed_def)
  from upserts_absorb[OF this]
  show "\<forall>p \<in> set ps. \<forall>v \<in> set (xt_tool_versions (snd p)). absorbs (mt_versions (foldl rebuild_one mem ps)) v"
    using fold by fastforce
  assume "\<forall>p \<in> set ps. \<forall>v \<in> set (xt_tool_versions (snd p)). absorbs (mt_versions mem) v"
  then have "foldl upsert_version mem ?vs = mem" by (intro upserts_absorbed) auto
  with fold show "mt_versions (foldl rebuild_one mem ps) = mt_versions mem
       \<and> mt_next_version_id (foldl rebuild_one mem ps) = mt_next_version_id mem" by simp
qed

section \<open>The index command\<close>

definition rebuilt_ids :: "store \<Rightarrow> string option \<Rightarrow> string set" where
  "rebuilt_ids st session = (case session of
     None \<Rightarrow> set (all_session_ids st) | Some pre \<Rightarrow> {sid. resolve_session_id st pre = Inr sid})"

lemma index_rebuild_fold:
  assumes "index_rebuild S st mem session = (Inr (), mem1)" "store_ok st"
  obtains ps where "derived S st ps" "fst ` set ps = rebuilt_ids st session"
    "mem1 = replace_supersession_edges (foldl rebuild_one mem ps)
       (compute_version_supersessions S (list_tool_versions (foldl rebuild_one mem ps)))"
    "\<And>m. index_rebuild S st m session = (Inr (), replace_supersession_edges (foldl rebuild_one m ps)
       (compute_version_supersessions S (list_tool_versions (foldl rebuild_one m ps))))"
proof -
  have ids: "distinct (all_session_ids st)"
    using assms(2) by (simp add: all_session_ids_def store_ok_def distinct_map)
  let ?ids = "case session of Some pre \<Rightarrow> map_sum id (\<lambda>sid. [sid]) (resolve_session_id st pre) | None \<Rightarrow> Inr (all_session_ids st)"
  obtain sids where sids: "?ids = Inr sids"
    using assms(1) by (cases ?ids) (auto simp: index_rebuild_def)
  have set: "set sids = rebuilt_ids st session \<and> distinct sids"
  proof (cases session)
    case None
    with sids ids show ?thesis by (simp add: rebuilt_ids_def)
  next
    case (Some pre)
    with sids show ?thesis by (cases "resolve_session_id st pre") (auto simp: rebuilt_ids_def)
  qed
  obtain mem0 where run: "rebuild_sessions S st mem sids = (Inr (), mem0)"
    using assms(1) sids by (cases "rebuild_sessions S st mem sids") (auto simp: index_rebuild_def split: sum.splits)
  from rebuild_sessions_fold[OF run] obtain ps where ps: "map fst ps = sids"
    "\<forall>p \<in> set ps. session_extraction S st (fst p) = Inr (snd p)" by blast
  then have derived: "derived S st ps" using set by (simp add: derived_def)
  have all: "index_rebuild S st m session = (Inr (), replace_supersession_edges (foldl rebuild_one m ps)
       (compute_version_supersessions S (list_tool_versions (foldl rebuild_one m ps))))" for m
    using rebuild_sessions_derived[OF derived] sids ps(1) by (simp add: index_rebuild_def)
  have "fst ` set ps = rebuilt_ids st session" using set ps(1) by (metis list.set_map)
  moreover have "mem1 = replace_supersession_edges (foldl rebuild_one mem ps)
       (compute_version_supersessions S (list_tool_versions (foldl rebuild_one mem ps)))"
    using all[of mem] assms(1) by simp
  ultimately show thesis by (rule that[OF derived _ _ all])
qed

lemma replaced_again:
  assumes "\<forall>rs \<in> set new. \<forall>r \<in> set rs. own r \<in> Some ` sids"
  shows "replaced own sids (replaced own sids rows new) new = replaced own sids rows new"
  using assms by (auto simp: replaced_def filter_empty_conv)

lemma replaced_own:
  assumes "distinct (map fst ps)" "\<forall>p \<in> set ps. \<forall>r \<in> set (new p). own r = Some (fst p)" "p \<in> set ps"
  shows "filter (\<lambda>r. own r = Some (fst p)) (replaced own (fst ` set ps) rows (map new ps)) = new p"
proof -
  have "filter (\<lambda>r. own r = Some (fst p)) (concat (map new ps)) = new p"
    using assms
  proof (induction ps)
    case (Cons q ps)
    have tag: "\<forall>r \<in> set (new p'). own r = Some (fst p')" if "p' \<in> set (q # ps)" for p' using Cons.prems(2) that by blast
    have diff: "fst p' \<noteq> fst q" if "p' \<in> set ps" for p' using Cons.prems(1) that by (auto simp: image_iff)
    have other: "filter (\<lambda>r. own r = Some (fst p)) (concat (map new ps)) = []" if "p = q"
    proof -
      have "own r \<noteq> Some (fst p)" if "r \<in> set (concat (map new ps))" for r
      proof -
        from that obtain p' where p': "p' \<in> set ps" "r \<in> set (new p')" by (auto simp del: set_concat simp: set_concat)
        with tag[of p'] diff[of p'] \<open>p = q\<close> show ?thesis by simp
      qed
      then show ?thesis by (auto simp: filter_empty_conv)
    qed
    have "filter (\<lambda>r. own r = Some (fst p)) (new q) = (if p = q then new q else [])"
      using tag[of q] diff[of p] Cons.prems(3) by (auto simp: filter_empty_conv filter_id_conv)
    with other Cons show ?case by auto
  qed simp
  moreover have "filter (\<lambda>r. own r = Some (fst p)) (filter (\<lambda>r. own r \<notin> Some ` fst ` set ps) rows) = []"
    using assms(3) by (auto simp: filter_empty_conv)
  ultimately show ?thesis by (simp add: replaced_def)
qed

lemma edges_again:
  assumes "\<forall>rs \<in> set new. \<forall>r \<in> set rs. own r \<in> Some ` sids \<and> ns r" "\<forall>r \<in> set cross. own r \<notin> Some ` sids \<and> \<not> ns r"
  shows "filter ns (replaced own sids (filter ns (replaced own sids rows new) @ cross) new) = filter ns (replaced own sids rows new)"
proof -
  have "filter ns (concat new) = concat new" "filter ns cross = []" "filter (\<lambda>r. own r \<notin> Some ` sids) (concat new) = []"
    "filter (\<lambda>r. own r \<notin> Some ` sids) cross = cross"
    using assms by (auto simp: filter_id_conv filter_empty_conv)
  then show ?thesis by (auto simp: replaced_def conj_ac)
qed

lemma next_version_cong: "set rows = set rows' \<Longrightarrow> next_version rows a b \<longleftrightarrow> next_version rows' a b"
  by (simp add: next_version_def)

text \<open>
  A successful index rebuild leaves the derived tables exact and is idempotent: a second rebuild
  changes nothing; every rebuilt session has exactly the facts, edges and observations derived from it,
  the rows of every other session are untouched, and the supersession edges are exactly one per pair of
  consecutive versions of one tool.
\<close>

lemma index_rebuild_exact:
  assumes "store_ok st" "memory_ok mem" "index_rebuild S st mem session = (Inr (), mem1)"
  shows "index_rebuild S st mem1 session = (Inr (), mem1)
     \<and> (\<forall>sid \<in> rebuilt_ids st session. \<exists>x. session_extraction S st sid = Inr x
         \<and> filter (\<lambda>f. mf_session_id f = Some sid) (mt_facts mem1) = map stored_fact (xt_facts x)
         \<and> filter (\<lambda>e. me_session_id e = Some sid) (mt_edges mem1) = xt_edges x
         \<and> filter (\<lambda>r. to_session_id r = sid) (mt_observations mem1) = map stored_observation (xt_observations x))
     \<and> (\<forall>sid. sid \<notin> rebuilt_ids st session \<longrightarrow>
           filter (\<lambda>f. mf_session_id f = Some sid) (mt_facts mem1) = filter (\<lambda>f. mf_session_id f = Some sid) (mt_facts mem))
     \<and> {e \<in> set (mt_edges mem1). me_edge_type e = ''version_supersedes''}
         = {supersedes_edge S a b | a b. next_version (mt_versions mem1) a b}"
proof -
  obtain ps where ps: "derived S st ps" "fst ` set ps = rebuilt_ids st session"
    "mem1 = replace_supersession_edges (foldl rebuild_one mem ps)
       (compute_version_supersessions S (list_tool_versions (foldl rebuild_one mem ps)))"
    "\<And>m. index_rebuild S st m session = (Inr (), replace_supersession_edges (foldl rebuild_one m ps)
       (compute_version_supersessions S (list_tool_versions (foldl rebuild_one m ps))))"
    using index_rebuild_fold[OF assms(3,1)] by blast
  let ?m = "foldl rebuild_one mem ps" and ?again = "foldl rebuild_one mem1 ps"
  let ?cross = "compute_version_supersessions S (list_tool_versions ?m)"
  have own: "owned (fst p) (snd p)" if "p \<in> set ps" for p using derived_owned(1)[OF ps(1) that] .
  have distinct: "distinct (map fst ps)" using ps(1) by (simp add: derived_def)
  note first = rebuilt_tables[OF ps(1) refl refl, of mem] and second = rebuilt_tables[OF ps(1) refl refl, of mem1]
  have mem1: "mt_facts mem1 = mt_facts ?m" "mt_observations mem1 = mt_observations ?m" "mt_versions mem1 = mt_versions ?m"
    "mt_next_version_id mem1 = mt_next_version_id ?m"
    "mt_edges mem1 = filter (\<lambda>e. me_edge_type e \<noteq> ''version_supersedes'') (mt_edges ?m) @ ?cross"
    by (simp_all add: ps(3) replace_supersession_edges_def)
  have ids: "distinct (map tv_id (list_tool_versions ?m))"
    using rebuilt_versions(1)[OF ps(1) assms(2)] by (simp add: memory_ok_def list_tool_versions_def distinct_map)
  note cross = supersessions_exact[OF ids, of S]
  have versions: "mt_versions ?again = mt_versions ?m" "mt_next_version_id ?again = mt_next_version_id ?m"
    using rebuilt_versions(3)[OF ps(1), of mem1] rebuilt_versions(2)[OF ps(1), of mem] mem1(3,4) by auto
  have facts: "mt_facts ?again = mt_facts ?m"
    unfolding second(1) mem1(1) first(1) using own by (intro replaced_again) (auto simp: owned_def stored_fact_def)
  have observations: "mt_observations ?again = mt_observations ?m"
    unfolding second(3) mem1(2) first(3) using own by (intro replaced_again) (auto simp: owned_def)
  have edges: "filter (\<lambda>e. me_edge_type e \<noteq> ''version_supersedes'') (mt_edges ?again)
      = filter (\<lambda>e. me_edge_type e \<noteq> ''version_supersedes'') (mt_edges ?m)"
    unfolding second(2) mem1(5) first(2) using own cross(2) by (intro edges_again) (auto simp: owned_def)
  have "index_rebuild S st mem1 session = (Inr (), mem1)"
  proof -
    have "replace_supersession_edges ?again (compute_version_supersessions S (list_tool_versions ?again)) = mem1"
      using facts observations versions edges mem1
      by (intro memory.equality) (simp_all add: replace_supersession_edges_def list_tool_versions_def)
    then show ?thesis using ps(4)[of mem1] by simp
  qed
  moreover have "\<exists>x. session_extraction S st sid = Inr x
         \<and> filter (\<lambda>f. mf_session_id f = Some sid) (mt_facts mem1) = map stored_fact (xt_facts x)
         \<and> filter (\<lambda>e. me_session_id e = Some sid) (mt_edges mem1) = xt_edges x
         \<and> filter (\<lambda>r. to_session_id r = sid) (mt_observations mem1) = map stored_observation (xt_observations x)"
    if "sid \<in> rebuilt_ids st session" for sid
  proof -
    from that[folded ps(2)] obtain p where p: "p \<in> set ps" "fst p = sid" by auto
    have "session_extraction S st sid = Inr (snd p)" using ps(1) p by (auto simp: derived_def)
    moreover have "filter (\<lambda>f. mf_session_id f = Some sid) (mt_facts mem1) = map stored_fact (xt_facts (snd p))"
      unfolding mem1(1) first(1) p(2)[symmetric] using own
      by (intro replaced_own[OF distinct _ p(1)]) (auto simp: owned_def stored_fact_def)
    moreover have "filter (\<lambda>r. Some (to_session_id r) = Some (fst p)) (mt_observations mem1)
        = map stored_observation (xt_observations (snd p))"
      unfolding mem1(2) first(3) using own by (intro replaced_own[OF distinct _ p(1)]) (auto simp: owned_def)
    moreover have "filter (\<lambda>e. me_session_id e = Some sid) (mt_edges mem1) = xt_edges (snd p)"
    proof -
      have "filter (\<lambda>e. me_session_id e = Some sid) (mt_edges ?m) = xt_edges (snd p)"
        unfolding first(2) p(2)[symmetric] using own by (intro replaced_own[OF distinct _ p(1)]) (auto simp: owned_def)
      moreover have "filter (\<lambda>e. me_edge_type e \<noteq> ''version_supersedes'') (xt_edges (snd p)) = xt_edges (snd p)"
        using own[OF p(1)] by (auto simp: owned_def)
      moreover have "filter (\<lambda>e. me_session_id e = Some sid) ?cross = []" using cross(2) by (auto simp: filter_empty_conv)
      ultimately show ?thesis unfolding mem1(5) by (metis (no_types, lifting) append_Nil2 filter_append filter_filter filter_cong)
    qed
    ultimately show ?thesis using p(2) by auto
  qed
  moreover have "filter (\<lambda>f. mf_session_id f = Some sid) (mt_facts mem1) = filter (\<lambda>f. mf_session_id f = Some sid) (mt_facts mem)"
    if "sid \<notin> rebuilt_ids st session" for sid
  proof -
    have "filter (\<lambda>f. mf_session_id f = Some sid) (concat (map (\<lambda>p. map stored_fact (xt_facts (snd p))) ps)) = []"
      using own that ps(2) by (auto simp: filter_empty_conv owned_def stored_fact_def)
    then show ?thesis unfolding mem1(1) first(1) replaced_def filter_append filter_filter
      using that ps(2) by (auto intro!: filter_cong)
  qed
  moreover have "{e \<in> set (mt_edges mem1). me_edge_type e = ''version_supersedes''}
         = {supersedes_edge S a b | a b. next_version (mt_versions mem1) a b}"
  proof -
    have "{e \<in> set (mt_edges mem1). me_edge_type e = ''version_supersedes''} = set ?cross"
      unfolding mem1(5) using cross(2) by auto
    moreover have "next_version (list_tool_versions ?m) a b = next_version (mt_versions ?m) a b" for a b
      by (rule next_version_cong) (simp add: list_tool_versions_def)
    ultimately show ?thesis using cross(1) mem1(3) by simp
  qed
  ultimately show ?thesis by blast
qed

end
