(* ===== verification/HttpAdmission.thy ===== *)
theory HttpAdmission
  imports Writer "HOL-Library.AList"
begin

text \<open>
  The control plane of \<open>crates/mcptracer-proxy/src/commands/record_http.rs\<close>: which recorded session an
  HTTP exchange belongs to, the admission of exchanges under the two semaphores, the lease that counts
  an exchange against its session, idle retirement, finalization and the shutdown sequence of \<open>run\<close>.
  The tasks of the async runtime are a list; one step runs one task up to its next release of the
  registry lock or of a permit, so the steps interleave as the lock sections of the code do.
\<close>

section \<open>Session keys\<close>

datatype logical_session_key = Established string | StatelessGroup string | Provisional u64

text \<open>A \<open>HeaderMap\<close> in its iteration order: lower-case names with the bytes of the value.\<close>

type_synonym header_map = "(string \<times> bytes) list"

definition header_get :: "header_map \<Rightarrow> string \<Rightarrow> bytes option" where
  "header_get headers name = map_of headers name"

text \<open>
  The options, and the conversion of a header value to text (\<open>HeaderValue::to_str\<close> of the \<open>http\<close> crate),
  which fails on values that are not text.
\<close>

record http_config =
  hc_to_str :: "bytes \<Rightarrow> string option"
  hc_group_header :: "string option"
  hc_max_sessions :: nat
  hc_max_exchanges :: nat
  hc_idle :: nat

definition header_text :: "http_config \<Rightarrow> header_map \<Rightarrow> string \<Rightarrow> string option" where
  "header_text cfg headers name =
     Option.bind (Option.bind (header_get headers name) (hc_to_str cfg))
       (\<lambda>v. if v \<noteq> [] then Some v else None)"

section \<open>State\<close>

text \<open>
  A session entry names its \<open>HttpSession\<close>, whose counters and channel are shared by every holder, by a
  number; the cells \<open>dropped_messages\<close> are kept apart under that number.
\<close>

record session_entry =
  se_session :: nat
  se_active :: usize
  se_last :: nat
  se_retiring :: bool

text \<open>
  The points at which a task can be suspended: about to take a capture permit, about to collect idle
  sessions, about to look its session up (both with the permit), refused, capturing under a lease,
  releasing the lease, and finalizing a session that left the registry, maybe with a capture permit.
\<close>

datatype http_task =
    AdmitTask logical_session_key bool
  | ResolveTask logical_session_key bool
  | LookupTask logical_session_key bool
  | RejectTask logical_session_key bool
  | LeaseTask logical_session_key nat bool
  | ReleaseTask logical_session_key bool
  | FinishTask session_entry bool

datatype http_phase = Serving | Draining | Sealed | Stopped

text \<open>
  \<open>hs_finished\<close> and \<open>hs_rejected\<close> are histories: the finalized sessions with the loss reported for them
  and the result, and the number of exchanges refused.
\<close>

record http_state =
  hs_phase :: http_phase
  hs_sessions :: "(logical_session_key \<times> session_entry) list"
  hs_provisional :: u64
  hs_writer_slots :: nat
  hs_capture_slots :: nat
  hs_omitted :: u64
  hs_failures :: u64
  hs_created :: nat
  hs_dropped :: "nat \<Rightarrow> u64"
  hs_tasks :: "http_task list"
  hs_finished :: "(nat \<times> u64 \<times> (string + unit)) list"
  hs_rejected :: nat

definition http_init :: "http_config \<Rightarrow> http_state" where
  "http_init cfg =
     \<lparr>hs_phase = Serving, hs_sessions = [], hs_provisional = 0, hs_writer_slots = hc_max_sessions cfg,
      hs_capture_slots = hc_max_exchanges cfg, hs_omitted = 0, hs_failures = 0, hs_created = 0,
      hs_dropped = (\<lambda>_. 0), hs_tasks = [], hs_finished = [], hs_rejected = 0\<rparr>"

definition session_key_for_request ::
  "http_config \<Rightarrow> header_map \<Rightarrow> http_state \<Rightarrow> logical_session_key \<times> http_state" where
  "session_key_for_request cfg headers st =
     (case header_text cfg headers ''mcp-session-id'' of
        Some sid \<Rightarrow> (Established sid, st)
      | None \<Rightarrow>
          (case Option.bind (hc_group_header cfg) (header_text cfg headers) of
             Some g \<Rightarrow> (StatelessGroup g, st)
           | None \<Rightarrow> (Provisional (hs_provisional st),
                      st\<lparr>hs_provisional := wrapping_inc (hs_provisional st)\<rparr>)))"

fun is_provisional :: "logical_session_key \<Rightarrow> bool" where
  "is_provisional (Provisional _) = True"
| "is_provisional _ = False"

text \<open>A one-shot exchange, or a \<open>DELETE\<close> that ends the session it names.\<close>

definition close_after_exchange :: "bool \<Rightarrow> logical_session_key \<Rightarrow> bool" where
  "close_after_exchange is_delete key \<longleftrightarrow> is_provisional key \<or> (is_delete \<and> \<not> is_provisional key)"

section \<open>The lock sections\<close>

definition is_idle :: "http_config \<Rightarrow> nat \<Rightarrow> session_entry \<Rightarrow> bool" where
  "is_idle cfg now e \<longleftrightarrow> se_active e = 0 \<and> hc_idle cfg \<le> now - se_last e"

definition take_idle_sessions :: "http_config \<Rightarrow> nat \<Rightarrow> http_state \<Rightarrow> session_entry list \<times> http_state" where
  "take_idle_sessions cfg now st =
     (map snd (filter (\<lambda>(_, e). is_idle cfg now e) (hs_sessions st)),
      st\<lparr>hs_sessions := filter (\<lambda>(_, e). \<not> is_idle cfg now e) (hs_sessions st)\<rparr>)"

text \<open>
  The second half of \<open>resolve_session\<close>: the handle of the session, or an error.  \<open>created\<close> says whether
  \<open>create_http_session\<close> succeeds; when it does not, the writer permit is dropped again.
\<close>

definition resolve_session ::
  "nat \<Rightarrow> bool \<Rightarrow> logical_session_key \<Rightarrow> bool \<Rightarrow> http_state \<Rightarrow> nat option \<times> http_state" where
  "resolve_session now created key close st =
     (case map_of (hs_sessions st) key of
        Some e \<Rightarrow>
          if se_retiring e then (None, st)
          else (Some (se_session e),
                st\<lparr>hs_sessions := AList.update key
                     (e\<lparr>se_active := se_active e + 1, se_retiring := se_retiring e \<or> close\<rparr>) (hs_sessions st)\<rparr>)
      | None \<Rightarrow>
          if hs_writer_slots st = 0 then (None, st)
          else if \<not> created then (None, st)
          else (Some (hs_created st),
                st\<lparr>hs_writer_slots := hs_writer_slots st - 1,
                   hs_created := hs_created st + 1,
                   hs_dropped := (hs_dropped st)(hs_created st := 0),
                   hs_sessions := AList.update key
                     \<lparr>se_session = hs_created st, se_active = 1, se_last = now, se_retiring = close\<rparr>
                     (hs_sessions st)\<rparr>))"

text \<open>An entry that is retiring and has no exchange left is taken out of the registry.\<close>

definition put_or_remove ::
  "logical_session_key \<Rightarrow> session_entry \<Rightarrow> http_state \<Rightarrow> session_entry option \<times> http_state" where
  "put_or_remove key e st =
     (if se_active e = 0 \<and> se_retiring e
      then (Some e, st\<lparr>hs_sessions := AList.delete key (hs_sessions st)\<rparr>)
      else (None, st\<lparr>hs_sessions := AList.update key e (hs_sessions st)\<rparr>))"

definition release_exchange ::
  "nat \<Rightarrow> logical_session_key \<Rightarrow> bool \<Rightarrow> http_state \<Rightarrow> session_entry option \<times> http_state" where
  "release_exchange now key close st =
     (case map_of (hs_sessions st) key of
        None \<Rightarrow> (None, st)
      | Some e \<Rightarrow>
          put_or_remove key
            (e\<lparr>se_active := se_active e - 1, se_last := now, se_retiring := se_retiring e \<or> close\<rparr>) st)"

definition count_session_drop :: "nat \<Rightarrow> http_state \<Rightarrow> http_state" where
  "count_session_drop s st = st\<lparr>hs_dropped := (hs_dropped st)(s := wrapping_inc (hs_dropped st s))\<rparr>"

text \<open>The end of \<open>admit_capture\<close> for an exchange that is forwarded without capture.\<close>

definition reject_exchange ::
  "logical_session_key \<Rightarrow> bool \<Rightarrow> http_state \<Rightarrow> session_entry option \<times> http_state" where
  "reject_exchange key close st =
     (let st1 = st\<lparr>hs_omitted := wrapping_inc (hs_omitted st), hs_rejected := hs_rejected st + 1\<rparr>
      in case map_of (hs_sessions st1) key of
           None \<Rightarrow> (None, st1)
         | Some e \<Rightarrow>
             put_or_remove key (e\<lparr>se_retiring := se_retiring e \<or> close\<rparr>) (count_session_drop (se_session e) st1))"

definition finalize_session_entry :: "session_entry \<Rightarrow> string + unit \<Rightarrow> http_state \<Rightarrow> http_state" where
  "finalize_session_entry e result st =
     st\<lparr>hs_failures := (if result \<noteq> Inr () then wrapping_inc (hs_failures st) else hs_failures st),
        hs_finished := hs_finished st @ [(se_session e, hs_dropped st (se_session e), result)],
        hs_writer_slots := hs_writer_slots st + 1\<rparr>"

definition close_all_sessions :: "http_state \<Rightarrow> session_entry list \<times> http_state" where
  "close_all_sessions st = (map snd (hs_sessions st), st\<lparr>hs_sessions := []\<rparr>)"

text \<open>Finalizations that continue as tasks of their own, and with the permit of the releasing lease.\<close>

definition finish_tasks :: "session_entry list \<Rightarrow> http_task list" where
  "finish_tasks es = map (\<lambda>e. FinishTask e False) es"

fun finish_option :: "session_entry option \<Rightarrow> bool \<Rightarrow> http_task list" where
  "finish_option None _ = []"
| "finish_option (Some e) holds = [FinishTask e holds]"

section \<open>Steps\<close>

fun is_admission :: "http_task \<Rightarrow> bool" where
  "is_admission (AdmitTask _ _) = True"
| "is_admission (ResolveTask _ _) = True"
| "is_admission (LookupTask _ _) = True"
| "is_admission (RejectTask _ _) = True"
| "is_admission _ = False"

text \<open>
  Who decides on an action. From outside come a request, a loss counted by a capture task, the end of an
  exchange (its client and the upstream decide when the body ends, and a stream may stay open for ever),
  and the end of serving (\<open>axum::serve\<close> returns only after the operator's stop request). All others are
  the program's own work.
\<close>

datatype http_action = Arrival | CaptureLoss | ExchangeEnd | ServeEnd | Work

text \<open>
  What joining the writer thread of a session can give, when \<open>dropped\<close> messages are reported to it: the
  \<open>Close\<close> may not be taken, the thread may panic or stop early, and otherwise the result is that of
  \<open>finish_session\<close> in the writer's state.
\<close>

inductive writer_result :: "u64 \<Rightarrow> string + unit \<Rightarrow> bool" where
  lost: "writer_result dropped (finish_storage_writer sent joined None)"
| settled: "writer_result dropped
    (finish_storage_writer sent joined (Some (snd (finish_session K sid w ended_at dropped))))"

inductive http_step :: "http_config \<Rightarrow> http_action \<Rightarrow> http_state \<Rightarrow> http_state \<Rightarrow> bool" for cfg where
  arrive: "hs_phase st = Serving \<Longrightarrow> session_key_for_request cfg headers st = (key, st1) \<Longrightarrow>
    http_step cfg Arrival st
      (st1\<lparr>hs_tasks := hs_tasks st1 @ [AdmitTask key (close_after_exchange is_delete key)]\<rparr>)"
| admit_full: "hs_tasks st = pre @ AdmitTask key close # post \<Longrightarrow> hs_capture_slots st = 0 \<Longrightarrow>
    http_step cfg Work st (st\<lparr>hs_tasks := pre @ RejectTask key close # post\<rparr>)"
| admit: "hs_tasks st = pre @ AdmitTask key close # post \<Longrightarrow> hs_capture_slots st > 0 \<Longrightarrow>
    http_step cfg Work st
      (st\<lparr>hs_capture_slots := hs_capture_slots st - 1, hs_tasks := pre @ ResolveTask key close # post\<rparr>)"
| resolve: "hs_tasks st = pre @ ResolveTask key close # post \<Longrightarrow> take_idle_sessions cfg now st = (es, st1) \<Longrightarrow>
    http_step cfg Work st (st1\<lparr>hs_tasks := pre @ LookupTask key close # post @ finish_tasks es\<rparr>)"
| lookup: "hs_tasks st = pre @ LookupTask key close # post \<Longrightarrow>
    resolve_session now created key close st = (Some s, st1) \<Longrightarrow>
    http_step cfg Work st (st1\<lparr>hs_tasks := pre @ LeaseTask key s close # post\<rparr>)"
| lookup_failed: "hs_tasks st = pre @ LookupTask key close # post \<Longrightarrow>
    resolve_session now created key close st = (None, st1) \<Longrightarrow>
    http_step cfg Work st
      (st1\<lparr>hs_capture_slots := hs_capture_slots st1 + 1, hs_tasks := pre @ RejectTask key close # post\<rparr>)"
| reject: "hs_tasks st = pre @ RejectTask key close # post \<Longrightarrow> reject_exchange key close st = (e, st1) \<Longrightarrow>
    http_step cfg Work st (st1\<lparr>hs_tasks := pre @ post @ finish_option e False\<rparr>)"
| capture_loss: "LeaseTask key s close \<in> set (hs_tasks st) \<Longrightarrow>
    http_step cfg CaptureLoss st (count_session_drop s st)"
| drop_lease: "hs_tasks st = pre @ LeaseTask key s close # post \<Longrightarrow>
    http_step cfg ExchangeEnd st (st\<lparr>hs_tasks := pre @ ReleaseTask key close # post\<rparr>)"
| release: "hs_tasks st = pre @ ReleaseTask key close # post \<Longrightarrow> release_exchange now key close st = (None, st1) \<Longrightarrow>
    http_step cfg Work st (st1\<lparr>hs_capture_slots := hs_capture_slots st1 + 1, hs_tasks := pre @ post\<rparr>)"
| release_last: "hs_tasks st = pre @ ReleaseTask key close # post \<Longrightarrow>
    release_exchange now key close st = (Some e, st1) \<Longrightarrow>
    http_step cfg Work st (st1\<lparr>hs_tasks := pre @ FinishTask e True # post\<rparr>)"
| reap: "hs_phase st = Serving \<Longrightarrow> take_idle_sessions cfg now st = (es, st1) \<Longrightarrow> es \<noteq> [] \<Longrightarrow>
    http_step cfg Work st (st1\<lparr>hs_tasks := hs_tasks st1 @ finish_tasks es\<rparr>)"
| finish: "hs_tasks st = pre @ FinishTask e holds # post \<Longrightarrow>
    writer_result (hs_dropped st (se_session e)) result \<Longrightarrow>
    finalize_session_entry e result st = st1 \<Longrightarrow>
    http_step cfg Work st
      (st1\<lparr>hs_capture_slots := (if holds then hs_capture_slots st1 + 1 else hs_capture_slots st1),
           hs_tasks := pre @ post\<rparr>)"
| stop: "hs_phase st = Serving \<Longrightarrow> \<forall>t \<in> set (hs_tasks st). \<not> is_admission t \<Longrightarrow>
    http_step cfg ServeEnd st (st\<lparr>hs_phase := Draining\<rparr>)"
| seal: "hs_phase st = Draining \<Longrightarrow> hs_capture_slots st = hc_max_exchanges cfg \<Longrightarrow>
    close_all_sessions st = (es, st1) \<Longrightarrow>
    http_step cfg Work st
      (st1\<lparr>hs_phase := Sealed, hs_capture_slots := 0, hs_tasks := hs_tasks st1 @ finish_tasks es\<rparr>)"
| exit: "hs_phase st = Sealed \<Longrightarrow> hs_writer_slots st = hc_max_sessions cfg \<Longrightarrow>
    http_step cfg Work st (st\<lparr>hs_phase := Stopped\<rparr>)"

inductive http_reachable :: "http_config \<Rightarrow> http_state \<Rightarrow> bool" for cfg where
  init: "http_reachable cfg (http_init cfg)"
| step: "http_reachable cfg st \<Longrightarrow> http_step cfg a st st' \<Longrightarrow> http_reachable cfg st'"

text \<open>The result of \<open>run\<close>.\<close>

definition http_result :: "http_state \<Rightarrow> string + unit" where
  "http_result st =
     (if hs_omitted st > 0 \<or> hs_failures st > 0
      then Inl (''HTTP recording incomplete: '' @ nat_dec (hs_omitted st) @ '' exchange(s) omitted; ''
                @ nat_dec (hs_failures st) @ '' session finalization failure(s)'')
      else Inr ())"

end
