(* ===== verification/HttpAdmissionFacts.thy ===== *)
theory HttpAdmissionFacts
  imports HttpAdmission "HOL-Library.Multiset"
begin

text \<open>
  Invariants of the HTTP recording registry, each preserved by every step: the accounts of the two
  semaphores, the count of exchanges per session, the state of retiring entries, the histories.
\<close>

section \<open>The registry as a map and as a multiset\<close>

lemma delete_absent: "map_of al k = None \<Longrightarrow> AList.delete k al = al"
  by (simp add: map_of_eq_None_iff)

lemma mset_delete:
  "distinct (map fst al) \<Longrightarrow> map_of al k = Some e \<Longrightarrow> mset al = add_mset (k, e) (mset (AList.delete k al))"
  by (induction al) (auto simp: map_of_eq_None_iff split: if_split_asm)

lemma mset_update:
  "distinct (map fst al) \<Longrightarrow> mset (AList.update k v al) = add_mset (k, v) (mset (AList.delete k al))"
  by (induction al) (auto simp: map_of_eq_None_iff)

lemma mset_map_partition:
  "mset (map f xs) = mset (map f (filter P xs)) + mset (map f (filter (\<lambda>x. \<not> P x) xs))"
  by (induction xs) auto

lemma map_of_filter_entries:
  "distinct (map fst al) \<Longrightarrow>
   map_of (filter (\<lambda>(_, e). P e) al) k = Option.bind (map_of al k) (\<lambda>e. if P e then Some e else None)"
  by (induction al) (auto simp: map_of_eq_None_iff image_iff)

definition keys_distinct :: "http_state \<Rightarrow> bool" where
  "keys_distinct st \<longleftrightarrow> distinct (map fst (hs_sessions st))"

text \<open>The sessions in the registry, by number.\<close>

definition open_ids :: "http_state \<Rightarrow> nat multiset" where
  "open_ids st = mset (map (se_session \<circ> snd) (hs_sessions st))"

lemma size_open_ids: "size (open_ids st) = length (hs_sessions st)"
  by (simp add: open_ids_def)

lemma open_ids_update_present:
  assumes "keys_distinct st" "map_of (hs_sessions st) k = Some e" "se_session e' = se_session e"
  shows "open_ids (st\<lparr>hs_sessions := AList.update k e' (hs_sessions st)\<rparr>) = open_ids st"
  using assms mset_delete[of "hs_sessions st" k e] by (simp add: open_ids_def keys_distinct_def mset_update)

lemma open_ids_update_absent:
  assumes "keys_distinct st" "map_of (hs_sessions st) k = None"
  shows "open_ids (st\<lparr>hs_sessions := AList.update k e (hs_sessions st)\<rparr>) = add_mset (se_session e) (open_ids st)"
  using assms by (simp add: open_ids_def keys_distinct_def mset_update delete_absent)

lemma open_ids_delete:
  assumes "keys_distinct st" "map_of (hs_sessions st) k = Some e"
  shows "open_ids st = add_mset (se_session e) (open_ids (st\<lparr>hs_sessions := AList.delete k (hs_sessions st)\<rparr>))"
  using assms mset_delete[of "hs_sessions st" k e] by (simp add: open_ids_def keys_distinct_def)

section \<open>The lock sections\<close>

definition entry_ids :: "session_entry list \<Rightarrow> nat multiset" where
  "entry_ids es = mset (map se_session es)"

abbreviation option_ids :: "session_entry option \<Rightarrow> nat multiset" where
  "option_ids e \<equiv> entry_ids (case e of None \<Rightarrow> [] | Some x \<Rightarrow> [x])"

text \<open>What a lock section leaves alone.\<close>

definition same_tasks :: "http_state \<Rightarrow> http_state \<Rightarrow> bool" where
  "same_tasks st st' \<longleftrightarrow> hs_tasks st' = hs_tasks st \<and> hs_finished st' = hs_finished st \<and> hs_phase st' = hs_phase st
     \<and> hs_failures st' = hs_failures st \<and> hs_capture_slots st' = hs_capture_slots st"

lemma take_idle_facts:
  assumes "take_idle_sessions cfg now st = (es, st')"
  shows "same_tasks st st'" "open_ids st = entry_ids es + open_ids st'" "keys_distinct st \<Longrightarrow> keys_distinct st'"
    "hs_writer_slots st' = hs_writer_slots st" "hs_created st' = hs_created st" "hs_omitted st' = hs_omitted st"
    "hs_rejected st' = hs_rejected st" "set (hs_sessions st') \<subseteq> set (hs_sessions st)"
    "keys_distinct st \<Longrightarrow> map_of (hs_sessions st') k =
       Option.bind (map_of (hs_sessions st) k) (\<lambda>e. if is_idle cfg now e then None else Some e)"
proof -
  have es: "es = map snd (filter (\<lambda>(_, e). is_idle cfg now e) (hs_sessions st))"
    and st': "st' = st\<lparr>hs_sessions := filter (\<lambda>(_, e). \<not> is_idle cfg now e) (hs_sessions st)\<rparr>"
    using assms by (auto simp: take_idle_sessions_def)
  show "open_ids st = entry_ids es + open_ids st'"
    using mset_map_partition[of "se_session \<circ> snd" "hs_sessions st" "\<lambda>(_, e). is_idle cfg now e"]
    by (simp add: open_ids_def entry_ids_def es st' case_prod_unfold comp_def)
  show "keys_distinct st \<Longrightarrow> map_of (hs_sessions st') k =
       Option.bind (map_of (hs_sessions st) k) (\<lambda>e. if is_idle cfg now e then None else Some e)"
    by (cases "map_of (hs_sessions st) k") (simp_all add: keys_distinct_def st' map_of_filter_entries)
qed (use assms in \<open>auto simp: take_idle_sessions_def same_tasks_def keys_distinct_def distinct_map_filter\<close>)

lemma put_or_remove_facts:
  assumes "put_or_remove k e' st = (r, st')" "keys_distinct st" "map_of (hs_sessions st) k = Some e"
    "se_session e' = se_session e"
  shows "same_tasks st st'" "open_ids st = option_ids r + open_ids st'" "keys_distinct st'"
    "hs_writer_slots st' = hs_writer_slots st" "hs_created st' = hs_created st" "hs_omitted st' = hs_omitted st"
    "hs_rejected st' = hs_rejected st"
    "map_of (hs_sessions st') =
       (map_of (hs_sessions st))(k := (if se_active e' = 0 \<and> se_retiring e' then None else Some e'))"
    "r = (if se_active e' = 0 \<and> se_retiring e' then Some e' else None)"
proof -
  show "open_ids st = option_ids r + open_ids st'"
    using assms open_ids_delete[OF assms(2,3)] open_ids_update_present[OF assms(2,3,4)]
    by (auto simp: put_or_remove_def entry_ids_def split: if_splits)
  show "keys_distinct st'"
    using assms(1,2) by (auto simp: put_or_remove_def keys_distinct_def distinct_update distinct_delete split: if_splits)
qed (use assms in \<open>auto simp: put_or_remove_def same_tasks_def update_conv' delete_conv' split: if_splits\<close>)

lemma resolve_cases:
  assumes "resolve_session now created k close st = (r, st')"
  obtains (refused) "r = None" "st' = st"
  | (joined) e where "map_of (hs_sessions st) k = Some e" "\<not> se_retiring e" "r = Some (se_session e)"
      "st' = st\<lparr>hs_sessions := AList.update k (e\<lparr>se_active := se_active e + 1, se_retiring := close\<rparr>) (hs_sessions st)\<rparr>"
  | (opened) "map_of (hs_sessions st) k = None" "0 < hs_writer_slots st" "r = Some (hs_created st)"
      "st' = st\<lparr>hs_writer_slots := hs_writer_slots st - 1, hs_created := hs_created st + 1,
         hs_dropped := (hs_dropped st)(hs_created st := 0),
         hs_sessions := AList.update k
           \<lparr>se_session = hs_created st, se_active = 1, se_last = now, se_retiring = close\<rparr> (hs_sessions st)\<rparr>"
proof (cases "map_of (hs_sessions st) k")
  case None
  have "resolve_session now created k close st = (None, st) \<or> 0 < hs_writer_slots st \<and>
     resolve_session now created k close st = (Some (hs_created st),
      st\<lparr>hs_writer_slots := hs_writer_slots st - 1, hs_created := hs_created st + 1,
         hs_dropped := (hs_dropped st)(hs_created st := 0),
         hs_sessions := AList.update k
           \<lparr>se_session = hs_created st, se_active = 1, se_last = now, se_retiring = close\<rparr> (hs_sessions st)\<rparr>)"
    by (simp add: resolve_session_def None)
  then show ?thesis unfolding assms prod.inject using None refused opened by blast
next
  case (Some e)
  have "resolve_session now created k close st = (None, st) \<or> \<not> se_retiring e \<and>
     resolve_session now created k close st = (Some (se_session e),
       st\<lparr>hs_sessions := AList.update k (e\<lparr>se_active := se_active e + 1, se_retiring := close\<rparr>) (hs_sessions st)\<rparr>)"
    by (simp add: resolve_session_def Some)
  then show ?thesis unfolding assms prod.inject using Some refused joined by blast
qed

lemma reject_cases:
  assumes "reject_exchange k close st = (r, st')"
  obtains (absent) "map_of (hs_sessions st) k = None" "r = None"
      "st' = st\<lparr>hs_omitted := wrapping_inc (hs_omitted st), hs_rejected := hs_rejected st + 1\<rparr>"
  | (present) e where "map_of (hs_sessions st) k = Some e"
      "put_or_remove k (e\<lparr>se_retiring := se_retiring e \<or> close\<rparr>)
         (count_session_drop (se_session e)
           (st\<lparr>hs_omitted := wrapping_inc (hs_omitted st), hs_rejected := hs_rejected st + 1\<rparr>)) = (r, st')"
  using assms by (auto simp: reject_exchange_def Let_def split: option.splits)

lemma release_cases:
  assumes "release_exchange now k close st = (r, st')"
  obtains (absent) "map_of (hs_sessions st) k = None" "r = None" "st' = st"
  | (present) e where "map_of (hs_sessions st) k = Some e"
      "put_or_remove k (e\<lparr>se_active := se_active e - 1, se_last := now, se_retiring := se_retiring e \<or> close\<rparr>) st = (r, st')"
  using assms by (auto simp: release_exchange_def split: option.splits)

lemma key_request_frame:
  "session_key_for_request cfg headers st = (key, st') \<Longrightarrow>
   st' = st \<or> (is_provisional key \<and> st' = st\<lparr>hs_provisional := wrapping_inc (hs_provisional st)\<rparr>)"
  by (auto simp: session_key_for_request_def split: option.splits)

section \<open>The accounts of sessions and writers\<close>

fun task_entries :: "http_task \<Rightarrow> session_entry list" where
  "task_entries (FinishTask e _) = [e]"
| "task_entries _ = []"

definition finishing_ids :: "http_task list \<Rightarrow> nat multiset" where
  "finishing_ids ts = entry_ids (concat (map task_entries ts))"

lemma finishing_ids_simps [simp]:
  "finishing_ids [] = {#}"
  "finishing_ids (t # ts) = entry_ids (task_entries t) + finishing_ids ts"
  "finishing_ids (ts @ us) = finishing_ids ts + finishing_ids us"
  "finishing_ids (finish_tasks es) = entry_ids es"
  "finishing_ids (finish_option r holds) = option_ids r"
  by (simp_all add: finishing_ids_def entry_ids_def finish_tasks_def comp_def split: option.splits)

lemma entry_ids_simps [simp]:
  "entry_ids [] = {#}" "entry_ids (e # es) = add_mset (se_session e) (entry_ids es)"
  by (simp_all add: entry_ids_def)

definition finished_ids :: "http_state \<Rightarrow> nat multiset" where
  "finished_ids st = mset (map fst (hs_finished st))"

text \<open>
  Every session created is in the registry, being finalized or finalized, and in one of these only
  once; each of the first two holds one writer permit.
\<close>

definition accounts_ok :: "http_config \<Rightarrow> http_state \<Rightarrow> bool" where
  "accounts_ok cfg st \<longleftrightarrow>
     keys_distinct st \<and>
     open_ids st + finishing_ids (hs_tasks st) + finished_ids st = mset [0..<hs_created st] \<and>
     hs_writer_slots st + size (open_ids st) + size (finishing_ids (hs_tasks st)) = hc_max_sessions cfg"

lemma accounts_init: "accounts_ok cfg (http_init cfg)"
  by (simp add: accounts_ok_def keys_distinct_def http_init_def open_ids_def finished_ids_def)

lemma frame_facts [simp]:
  "keys_distinct (st\<lparr>hs_tasks := ts\<rparr>) = keys_distinct st" "open_ids (st\<lparr>hs_tasks := ts\<rparr>) = open_ids st"
  "finished_ids (st\<lparr>hs_tasks := ts\<rparr>) = finished_ids st"
  "keys_distinct (st\<lparr>hs_capture_slots := c\<rparr>) = keys_distinct st" "open_ids (st\<lparr>hs_capture_slots := c\<rparr>) = open_ids st"
  "finished_ids (st\<lparr>hs_capture_slots := c\<rparr>) = finished_ids st"
  "keys_distinct (st\<lparr>hs_phase := p\<rparr>) = keys_distinct st" "open_ids (st\<lparr>hs_phase := p\<rparr>) = open_ids st"
  "finished_ids (st\<lparr>hs_phase := p\<rparr>) = finished_ids st"
  "keys_distinct (st\<lparr>hs_provisional := q\<rparr>) = keys_distinct st" "open_ids (st\<lparr>hs_provisional := q\<rparr>) = open_ids st"
  "finished_ids (st\<lparr>hs_provisional := q\<rparr>) = finished_ids st"
  "keys_distinct (count_session_drop s st) = keys_distinct st" "open_ids (count_session_drop s st) = open_ids st"
  "finished_ids (count_session_drop s st) = finished_ids st"
  by (simp_all add: keys_distinct_def open_ids_def finished_ids_def count_session_drop_def)

lemma count_session_drop_fields [simp]:
  "hs_phase (count_session_drop s st) = hs_phase st" "hs_sessions (count_session_drop s st) = hs_sessions st"
  "hs_writer_slots (count_session_drop s st) = hs_writer_slots st" "hs_omitted (count_session_drop s st) = hs_omitted st"
  "hs_capture_slots (count_session_drop s st) = hs_capture_slots st" "hs_failures (count_session_drop s st) = hs_failures st"
  "hs_created (count_session_drop s st) = hs_created st" "hs_tasks (count_session_drop s st) = hs_tasks st"
  "hs_finished (count_session_drop s st) = hs_finished st" "hs_rejected (count_session_drop s st) = hs_rejected st"
  by (simp_all add: count_session_drop_def)

lemma accounts_transfer:
  assumes "accounts_ok cfg st" "keys_distinct st'"
    "open_ids st + finishing_ids (hs_tasks st) = open_ids st' + finishing_ids (hs_tasks st')"
    "hs_finished st' = hs_finished st" "hs_created st' = hs_created st" "hs_writer_slots st' = hs_writer_slots st"
  shows "accounts_ok cfg st'"
proof -
  have "size (open_ids st) + size (finishing_ids (hs_tasks st)) = size (open_ids st') + size (finishing_ids (hs_tasks st'))"
    using assms(3) by (metis size_union)
  with assms show ?thesis by (simp add: accounts_ok_def finished_ids_def)
qed

lemma reject_accounts:
  assumes "reject_exchange k close st = (r, st')" "keys_distinct st"
  shows "same_tasks st st' \<and> open_ids st = option_ids r + open_ids st' \<and> keys_distinct st' \<and>
    hs_writer_slots st' = hs_writer_slots st \<and> hs_created st' = hs_created st \<and>
    hs_omitted st' = wrapping_inc (hs_omitted st) \<and> hs_rejected st' = hs_rejected st + 1"
  using assms(1)
proof (cases rule: reject_cases)
  case absent
  then show ?thesis using assms(2) by (simp add: same_tasks_def open_ids_def keys_distinct_def)
next
  case (present e)
  let ?st = "count_session_drop (se_session e)
    (st\<lparr>hs_omitted := wrapping_inc (hs_omitted st), hs_rejected := hs_rejected st + 1\<rparr>)"
  have k: "keys_distinct ?st" "map_of (hs_sessions ?st) k = Some e" "open_ids ?st = open_ids st"
    using assms(2) present(1) by (simp_all add: keys_distinct_def open_ids_def)
  from put_or_remove_facts[OF present(2) k(1,2)] k(3) show ?thesis by (simp add: same_tasks_def)
qed

lemma release_accounts:
  assumes "release_exchange now k close st = (r, st')" "keys_distinct st"
  shows "same_tasks st st' \<and> open_ids st = option_ids r + open_ids st' \<and> keys_distinct st' \<and>
    hs_writer_slots st' = hs_writer_slots st \<and> hs_created st' = hs_created st \<and>
    hs_omitted st' = hs_omitted st \<and> hs_rejected st' = hs_rejected st"
  using assms(1)
proof (cases rule: release_cases)
  case absent
  then show ?thesis using assms(2) by (simp add: same_tasks_def)
next
  case (present e)
  from put_or_remove_facts[OF present(2) assms(2) present(1)] show ?thesis by simp
qed

lemma resolve_accounts:
  assumes "resolve_session now created k close st = (r, st')" "accounts_ok cfg st"
  shows "accounts_ok cfg st' \<and> same_tasks st st'"
  using assms(1)
proof (cases rule: resolve_cases)
  case refused
  then show ?thesis using assms(2) by (simp add: same_tasks_def)
next
  case (joined e)
  have "keys_distinct st" using assms(2) by (simp add: accounts_ok_def)
  then show ?thesis
    using assms(2) open_ids_update_present[OF _ joined(1), of "e\<lparr>se_active := se_active e + 1, se_retiring := close\<rparr>"]
    by (auto simp: joined(4) same_tasks_def keys_distinct_def distinct_update intro!: accounts_transfer[OF assms(2)])
next
  case opened
  let ?e = "\<lparr>se_session = hs_created st, se_active = 1, se_last = now, se_retiring = close\<rparr>"
  have k: "keys_distinct st" using assms(2) by (simp add: accounts_ok_def)
  have "open_ids st' = add_mset (hs_created st) (open_ids st)" "keys_distinct st'"
    using open_ids_update_absent[OF k opened(1), of ?e] k
    by (simp_all add: opened(4) open_ids_def keys_distinct_def distinct_update)
  moreover have "hs_finished st' = hs_finished st" "hs_tasks st' = hs_tasks st" "hs_created st' = hs_created st + 1"
      "hs_writer_slots st' = hs_writer_slots st - 1"
    by (simp_all add: opened(4))
  ultimately show ?thesis
    using assms(2) opened(2) by (auto simp: accounts_ok_def finished_ids_def same_tasks_def opened(4))
qed

lemma accounts_step:
  assumes "http_step cfg a st st'" "accounts_ok cfg st"
  shows "accounts_ok cfg st'"
proof -
  have kd: "keys_distinct st" using assms(2) by (simp add: accounts_ok_def)
  from assms(1) show ?thesis
  proof (cases rule: http_step.cases)
    case (arrive headers key st1 is_delete)
    then show ?thesis using assms(2) key_request_frame[OF arrive(4)]
      by (auto simp: finishing_ids_def intro!: accounts_transfer[OF assms(2)] kd)
  next
    case (resolve pre key close post now es st1)
    with take_idle_facts[OF resolve(4)] kd show ?thesis
      by (auto simp: same_tasks_def intro!: accounts_transfer[OF assms(2)])
  next
    case (lookup pre key close post now created s st1)
    with resolve_accounts[OF lookup(4) assms(2)] show ?thesis
      by (auto simp: same_tasks_def accounts_ok_def intro!: accounts_transfer[where st = st1])
  next
    case (lookup_failed pre key close post now created st1)
    with resolve_accounts[OF lookup_failed(4) assms(2)] show ?thesis
      by (auto simp: same_tasks_def accounts_ok_def intro!: accounts_transfer[where st = st1])
  next
    case (reject pre key close post e st1)
    with reject_accounts[OF reject(4) kd] show ?thesis
      by (auto simp: same_tasks_def intro!: accounts_transfer[OF assms(2)])
  next
    case (release pre key close post now st1)
    with release_accounts[OF release(4) kd] show ?thesis
      by (auto simp: same_tasks_def intro!: accounts_transfer[OF assms(2)])
  next
    case (release_last pre key close post now e st1)
    with release_accounts[OF release_last(4) kd] show ?thesis
      by (auto simp: same_tasks_def intro!: accounts_transfer[OF assms(2)])
  next
    case (reap now es st1)
    with take_idle_facts[OF reap(4)] kd show ?thesis
      by (auto simp: same_tasks_def intro!: accounts_transfer[OF assms(2)])
  next
    case (finish pre e holds post result st1)
    then show ?thesis using assms(2)
      by (auto simp: accounts_ok_def finalize_session_entry_def keys_distinct_def open_ids_def finished_ids_def)
  next
    case (seal es st1)
    then have "open_ids st' = {#}" "entry_ids es = open_ids st" "keys_distinct st'"
      by (auto simp: close_all_sessions_def open_ids_def entry_ids_def keys_distinct_def multiset.map_comp)
    with seal show ?thesis by (auto simp: close_all_sessions_def intro!: accounts_transfer[OF assms(2)])
  qed (use assms(2) kd in \<open>auto intro!: accounts_transfer[OF assms(2)]\<close>)
qed

section \<open>Exchanges under way\<close>

fun captures_in :: "logical_session_key \<Rightarrow> http_task \<Rightarrow> bool" where
  "captures_in k (LeaseTask k' _ _) \<longleftrightarrow> k' = k"
| "captures_in k (ReleaseTask k' _) \<longleftrightarrow> k' = k"
| "captures_in k _ \<longleftrightarrow> False"

definition live_exchanges :: "logical_session_key \<Rightarrow> http_task list \<Rightarrow> nat" where
  "live_exchanges k ts = length (filter (captures_in k) ts)"

lemma live_exchanges_simps [simp]:
  "live_exchanges k [] = 0"
  "live_exchanges k (t # ts) = (if captures_in k t then 1 else 0) + live_exchanges k ts"
  "live_exchanges k (ts @ us) = live_exchanges k ts + live_exchanges k us"
  "live_exchanges k (finish_tasks es) = 0"
  "live_exchanges k (finish_option r holds) = 0"
  by (simp_all add: live_exchanges_def finish_tasks_def filter_empty_conv) (cases r; simp)

definition active_of :: "logical_session_key \<Rightarrow> http_state \<Rightarrow> nat" where
  "active_of k st = (case map_of (hs_sessions st) k of None \<Rightarrow> 0 | Some e \<Rightarrow> se_active e)"

definition lease_ok :: "http_state \<Rightarrow> http_task \<Rightarrow> bool" where
  "lease_ok st t \<longleftrightarrow>
     (\<forall>k s c. t = LeaseTask k s c \<longrightarrow> (\<exists>e. map_of (hs_sessions st) k = Some e \<and> se_session e = s))"

text \<open>
  The counter of an entry is the number of its exchanges, and the session a lease records into is the
  one in the registry.
\<close>

definition exchanges_ok :: "http_state \<Rightarrow> bool" where
  "exchanges_ok st \<longleftrightarrow>
     keys_distinct st \<and> (\<forall>k. active_of k st = live_exchanges k (hs_tasks st)) \<and> (\<forall>t \<in> set (hs_tasks st). lease_ok st t)"

lemma live_lease: "LeaseTask k s c \<in> set ts \<Longrightarrow> 0 < live_exchanges k ts"
  by (force simp: live_exchanges_def filter_empty_conv)

text \<open>A change of the registry that keeps every session with an exchange keeps the leases.\<close>

lemma leases_kept:
  assumes "\<forall>t \<in> set ts. lease_ok st t" "\<forall>k. 0 < live_exchanges k ts \<longrightarrow>
      map_option se_session (map_of (hs_sessions st') k) = map_option se_session (map_of (hs_sessions st) k)"
  shows "\<forall>t \<in> set ts. lease_ok st' t"
proof
  fix t assume t: "t \<in> set ts"
  show "lease_ok st' t" unfolding lease_ok_def
  proof (intro allI impI)
    fix k s c assume l: "t = LeaseTask k s c"
    from assms(1) t l have "lease_ok st (LeaseTask k s c)" by blast
    then obtain e where "map_of (hs_sessions st) k = Some e" "se_session e = s"
      by (auto simp: lease_ok_def)
    moreover from live_lease t l have "0 < live_exchanges k ts" by metis
    ultimately show "\<exists>e. map_of (hs_sessions st') k = Some e \<and> se_session e = s"
      using assms(2)[rule_format, of k] by auto
  qed
qed

lemma lease_ok_frame [simp]:
  "lease_ok (st\<lparr>hs_tasks := ts\<rparr>) t = lease_ok st t" "lease_ok (st\<lparr>hs_capture_slots := c\<rparr>) t = lease_ok st t"
  "lease_ok (st\<lparr>hs_phase := p\<rparr>) t = lease_ok st t" "lease_ok (st\<lparr>hs_provisional := q\<rparr>) t = lease_ok st t"
  "lease_ok (count_session_drop i st) t = lease_ok st t"
  "active_of k (st\<lparr>hs_tasks := ts\<rparr>) = active_of k st" "active_of k (st\<lparr>hs_capture_slots := c\<rparr>) = active_of k st"
  "active_of k (st\<lparr>hs_phase := p\<rparr>) = active_of k st" "active_of k (st\<lparr>hs_provisional := q\<rparr>) = active_of k st"
  "active_of k (count_session_drop i st) = active_of k st"
  "lease_ok (finalize_session_entry x result st) t = lease_ok st t"
  "active_of k (finalize_session_entry x result st) = active_of k st"
  "keys_distinct (finalize_session_entry x result st) = keys_distinct st"
  by (simp_all add: lease_ok_def active_of_def finalize_session_entry_def keys_distinct_def)

lemma lease_ok_other [simp]:
  "lease_ok st (AdmitTask k c)" "lease_ok st (ResolveTask k c)" "lease_ok st (LookupTask k c)"
  "lease_ok st (RejectTask k c)" "lease_ok st (ReleaseTask k c)" "lease_ok st (FinishTask e h)"
  "t \<in> set (finish_tasks es) \<Longrightarrow> lease_ok st t" "t \<in> set (finish_option r h) \<Longrightarrow> lease_ok st t"
  by (auto simp: lease_ok_def finish_tasks_def) (cases r; simp)

lemma exchanges_init: "exchanges_ok (http_init cfg)"
  by (simp add: exchanges_ok_def http_init_def keys_distinct_def active_of_def)

text \<open>Taking idle sessions and refusing an exchange leave the active counts alone.\<close>

lemma quiet_exchanges:
  assumes "exchanges_ok st" "keys_distinct st'"
    "\<And>k. map_option (\<lambda>e. (se_session e, se_active e)) (map_of (hs_sessions st') k)
          = map_option (\<lambda>e. (se_session e, se_active e)) (map_of (hs_sessions st) k)
        \<or> (active_of k st = 0 \<and> map_of (hs_sessions st') k = None)"
  shows "(\<forall>k. active_of k st' = live_exchanges k (hs_tasks st)) \<and> (\<forall>t \<in> set (hs_tasks st). lease_ok st' t)"
proof
  have act: "active_of k st' = active_of k st" for k
    using assms(3)[of k] by (auto simp: active_of_def split: option.splits)
  then show "\<forall>k. active_of k st' = live_exchanges k (hs_tasks st)" using assms(1) by (simp add: exchanges_ok_def)
  show "\<forall>t \<in> set (hs_tasks st). lease_ok st' t"
  proof (rule leases_kept)
    show "\<forall>t \<in> set (hs_tasks st). lease_ok st t" using assms(1) by (simp add: exchanges_ok_def)
    show "\<forall>k. 0 < live_exchanges k (hs_tasks st) \<longrightarrow>
      map_option se_session (map_of (hs_sessions st') k) = map_option se_session (map_of (hs_sessions st) k)"
    proof (intro allI impI)
      fix k assume "0 < live_exchanges k (hs_tasks st)"
      with assms(1) have "0 < active_of k st" by (simp add: exchanges_ok_def)
      with assms(3)[of k] show "map_option se_session (map_of (hs_sessions st') k) = map_option se_session (map_of (hs_sessions st) k)"
        by (cases "map_of (hs_sessions st') k"; cases "map_of (hs_sessions st) k") auto
    qed
  qed
qed

lemma take_idle_exchanges:
  assumes "take_idle_sessions cfg now st = (es, st')" "exchanges_ok st"
  shows "(\<forall>k. active_of k st' = live_exchanges k (hs_tasks st)) \<and> (\<forall>t \<in> set (hs_tasks st). lease_ok st' t)"
proof (rule quiet_exchanges[OF assms(2)])
  have kd: "keys_distinct st" using assms(2) by (simp add: exchanges_ok_def)
  then show "keys_distinct st'" using take_idle_facts(3)[OF assms(1)] by simp
  show "map_option (\<lambda>e. (se_session e, se_active e)) (map_of (hs_sessions st') k)
          = map_option (\<lambda>e. (se_session e, se_active e)) (map_of (hs_sessions st) k)
        \<or> (active_of k st = 0 \<and> map_of (hs_sessions st') k = None)" for k
    using take_idle_facts(9)[OF assms(1) kd, of k]
    by (cases "map_of (hs_sessions st) k") (auto simp: active_of_def is_idle_def)
qed

lemma reject_exchanges:
  assumes "reject_exchange k close st = (r, st')" "exchanges_ok st"
  shows "(\<forall>k. active_of k st' = live_exchanges k (hs_tasks st)) \<and> (\<forall>t \<in> set (hs_tasks st). lease_ok st' t)"
proof (rule quiet_exchanges[OF assms(2)])
  have kd: "keys_distinct st" using assms(2) by (simp add: exchanges_ok_def)
  then show "keys_distinct st'" using reject_accounts[OF assms(1)] by simp
  show "map_option (\<lambda>e. (se_session e, se_active e)) (map_of (hs_sessions st') j)
          = map_option (\<lambda>e. (se_session e, se_active e)) (map_of (hs_sessions st) j)
        \<or> (active_of j st = 0 \<and> map_of (hs_sessions st') j = None)" for j
    using assms(1)
  proof (cases rule: reject_cases)
    case absent
    then show ?thesis by simp
  next
    case (present e)
    let ?st = "count_session_drop (se_session e)
      (st\<lparr>hs_omitted := wrapping_inc (hs_omitted st), hs_rejected := hs_rejected st + 1\<rparr>)"
    have k: "keys_distinct ?st" "map_of (hs_sessions ?st) k = Some e"
      using kd present(1) by (simp_all add: keys_distinct_def)
    from put_or_remove_facts(8)[OF present(2) k] present(1) show ?thesis by (simp add: active_of_def)
  qed
qed

text \<open>
  Joining or opening a session adds one exchange to it, releasing takes one away; the other entries are
  those of before.
\<close>

lemma entry_exchanges:
  assumes "exchanges_ok st" "keys_distinct st'" "map_of (hs_sessions st') = (map_of (hs_sessions st))(k := e')"
    "case_option 0 se_active e' = live_exchanges k ts'" "\<And>j. j \<noteq> k \<Longrightarrow> live_exchanges j ts' = live_exchanges j (hs_tasks st)"
    "\<And>s c. LeaseTask k s c \<in> set ts' \<Longrightarrow> map_option se_session e' = Some s"
    "\<And>j s c. j \<noteq> k \<Longrightarrow> LeaseTask j s c \<in> set ts' \<Longrightarrow> LeaseTask j s c \<in> set (hs_tasks st)"
  shows "exchanges_ok (st'\<lparr>hs_tasks := ts'\<rparr>)"
proof -
  have "active_of j st' = live_exchanges j ts'" for j
    using assms(1,3-5) by (cases "j = k") (auto simp: exchanges_ok_def active_of_def)
  moreover have "lease_ok st' t" if t: "t \<in> set ts'" for t unfolding lease_ok_def
  proof (intro allI impI)
    fix j s c assume l: "t = LeaseTask j s c"
    show "\<exists>e. map_of (hs_sessions st') j = Some e \<and> se_session e = s"
    proof (cases "j = k")
      case True
      with assms(3) assms(6)[of s c] t l show ?thesis by simp
    next
      case False
      with assms(7) t l have "LeaseTask j s c \<in> set (hs_tasks st)" by blast
      with assms(1) have "lease_ok st (LeaseTask j s c)" by (simp add: exchanges_ok_def)
      with assms(3) False show ?thesis by (simp add: lease_ok_def)
    qed
  qed
  ultimately show ?thesis using assms(2) by (simp add: exchanges_ok_def)
qed

lemma lease_entry:
  "exchanges_ok st \<Longrightarrow> LeaseTask k s c \<in> set (hs_tasks st) \<Longrightarrow> map_option se_session (map_of (hs_sessions st) k) = Some s"
  by (auto simp: exchanges_ok_def lease_ok_def)

lemma lookup_exchanges:
  assumes "resolve_session now created key close st = (Some s, st1)" "exchanges_ok st"
    "hs_tasks st = pre @ LookupTask key close # post"
  shows "exchanges_ok (st1\<lparr>hs_tasks := pre @ LeaseTask key s close # post\<rparr>)"
proof -
  have kd: "keys_distinct st" and act: "active_of key st = live_exchanges key (pre @ post)"
    using assms(2,3) by (simp_all add: exchanges_ok_def)
  have old: "map_option se_session (map_of (hs_sessions st) key) = Some s'" if "LeaseTask key s' c \<in> set (pre @ post)" for s' c
    using lease_entry[OF assms(2), of key s' c] that assms(3) by auto
  from assms(1) show ?thesis
  proof (cases rule: resolve_cases)
    case (joined e)
    let ?e = "e\<lparr>se_active := se_active e + 1, se_retiring := close\<rparr>"
    show ?thesis
    proof (rule entry_exchanges[OF assms(2), of _ key "Some ?e"])
      show "keys_distinct st1" using kd by (simp add: joined(4) keys_distinct_def distinct_update)
      show "map_of (hs_sessions st1) = (map_of (hs_sessions st))(key \<mapsto> ?e)" by (simp add: joined(4) update_conv')
      show "case_option 0 se_active (Some ?e) = live_exchanges key (pre @ LeaseTask key s close # post)"
        using act joined(1) by (simp add: active_of_def)
      show "map_option se_session (Some ?e) = Some s'" if "LeaseTask key s' c \<in> set (pre @ LeaseTask key s close # post)" for s' c
        using that old[of s' c] joined(1,3) by auto
    qed (use assms(3) in auto)
  next
    case opened
    let ?e = "\<lparr>se_session = hs_created st, se_active = 1, se_last = now, se_retiring = close\<rparr>"
    show ?thesis
    proof (rule entry_exchanges[OF assms(2), of _ key "Some ?e"])
      show "keys_distinct st1" using kd by (simp add: opened(4) keys_distinct_def distinct_update)
      show "map_of (hs_sessions st1) = (map_of (hs_sessions st))(key \<mapsto> ?e)" by (simp add: opened(4) update_conv')
      show "case_option 0 se_active (Some ?e) = live_exchanges key (pre @ LeaseTask key s close # post)"
        using act opened(1) by (simp add: active_of_def)
      show "map_option se_session (Some ?e) = Some s'" if "LeaseTask key s' c \<in> set (pre @ LeaseTask key s close # post)" for s' c
        using that old[of s' c] opened(1,3) by auto
    qed (use assms(3) in auto)
  qed simp
qed

lemma release_exchanges:
  assumes "release_exchange now key close st = (r, st1)" "exchanges_ok st"
    "hs_tasks st = pre @ ReleaseTask key close # post"
  shows "exchanges_ok (st1\<lparr>hs_tasks := pre @ finish_option r True @ post\<rparr>)"
proof -
  have kd: "keys_distinct st" and act: "active_of key st = Suc (live_exchanges key (pre @ post))"
    using assms(2,3) by (simp_all add: exchanges_ok_def)
  then obtain e where e: "map_of (hs_sessions st) key = Some e" "se_active e = Suc (live_exchanges key (pre @ post))"
    by (auto simp: active_of_def split: option.splits)
  let ?e = "e\<lparr>se_active := se_active e - 1, se_last := now, se_retiring := se_retiring e \<or> close\<rparr>"
  from assms(1) have p: "put_or_remove key ?e st = (r, st1)"
    by (cases rule: release_cases) (use e(1) in auto)
  note facts = put_or_remove_facts[OF p kd e(1)]
  let ?e' = "if se_active ?e = 0 \<and> se_retiring ?e then None else Some ?e"
  show ?thesis
  proof (rule entry_exchanges[OF assms(2), of _ key ?e'])
    show "keys_distinct st1" using facts(3) by simp
    show "map_of (hs_sessions st1) = (map_of (hs_sessions st))(key := ?e')" using facts(8) by simp
    show "case_option 0 se_active ?e' = live_exchanges key (pre @ finish_option r True @ post)"
      using e(2) by simp
    show "map_option se_session ?e' = Some s'" if "LeaseTask key s' c \<in> set (pre @ finish_option r True @ post)" for s' c
    proof -
      have l: "LeaseTask key s' c \<in> set (pre @ post)" using that by (cases r) auto
      then have "0 < live_exchanges key (pre @ post)" by (rule live_lease)
      moreover have "se_session e = s'" using lease_entry[OF assms(2), of key s' c] l assms(3) e(1) by auto
      ultimately show ?thesis using e(2) by auto
    qed
    show "live_exchanges j (pre @ finish_option r True @ post) = live_exchanges j (hs_tasks st)" if "j \<noteq> key" for j
      using that assms(3) by simp
    show "LeaseTask j s c \<in> set (hs_tasks st)" if "LeaseTask j s c \<in> set (pre @ finish_option r True @ post)" for j s c
      using that assms(3) by (cases r) auto
  qed
qed

lemma exchanges_frame:
  "exchanges_ok (st\<lparr>hs_tasks := ts\<rparr>) \<Longrightarrow> exchanges_ok (st\<lparr>hs_capture_slots := c, hs_tasks := ts\<rparr>)"
  by (simp add: exchanges_ok_def)

lemma exchanges_step:
  assumes "http_step cfg a st st'" "exchanges_ok st"
    "hs_phase st = Draining \<Longrightarrow> hs_capture_slots st = hc_max_exchanges cfg \<Longrightarrow> \<forall>k. live_exchanges k (hs_tasks st) = 0"
  shows "exchanges_ok st'"
proof -
  have kd: "keys_distinct st" using assms(2) by (simp add: exchanges_ok_def)
  from assms(1) show ?thesis
  proof (cases rule: http_step.cases)
    case (arrive headers key st1 is_delete)
    then show ?thesis using assms(2) key_request_frame[OF arrive(4)] by (auto simp: exchanges_ok_def)
  next
    case (resolve pre key close post now es st1)
    with take_idle_facts(1,3)[OF resolve(4)] take_idle_exchanges[OF resolve(4) assms(2)] kd show ?thesis
      by (auto simp: exchanges_ok_def)
  next
    case (lookup_failed pre key close post now created st1)
    from lookup_failed(4) have "st1 = st" by (cases rule: resolve_cases) auto
    with lookup_failed assms(2) show ?thesis by (auto simp: exchanges_ok_def)
  next
    case (reject pre key close post e st1)
    with reject_accounts[OF reject(4) kd] reject_exchanges[OF reject(4) assms(2)] show ?thesis
      by (auto simp: exchanges_ok_def)
  next
    case (reap now es st1)
    with take_idle_facts(1,3)[OF reap(4)] take_idle_exchanges[OF reap(4) assms(2)] kd show ?thesis
      by (auto simp: exchanges_ok_def same_tasks_def)
  next
    case (finish pre e holds post result st1)
    then show ?thesis using assms(2) by (auto simp: exchanges_ok_def)
  next
    case (lookup pre key close post now created s st1)
    then show ?thesis using lookup_exchanges[OF lookup(4) assms(2) lookup(3)] by simp
  next
    case (release pre key close post now st1)
    then show ?thesis using release_exchanges[OF release(4) assms(2) release(3)] by (simp add: exchanges_frame)
  next
    case (release_last pre key close post now e st1)
    then show ?thesis using release_exchanges[OF release_last(4) assms(2) release_last(3)] by simp
  next
    case (seal es st1)
    have none: "live_exchanges k (hs_tasks st) = 0" for k using assms(3) seal(3,4) by simp
    have "LeaseTask k s c \<notin> set (hs_tasks st)" for k s c using live_lease[of k s c] none[of k] by fastforce
    then have "lease_ok st' t" if "t \<in> set (hs_tasks st)" for t using that by (auto simp: lease_ok_def)
    with seal none show ?thesis
      by (auto simp: exchanges_ok_def close_all_sessions_def keys_distinct_def active_of_def)
  qed (use assms(2) in \<open>auto simp: exchanges_ok_def\<close>)
qed

section \<open>Retiring sessions\<close>

text \<open>
  A retiring entry has an exchange under way, or it would have left the registry; one-shot keys are
  always retiring, and the tasks that carry such a key close it.
\<close>

fun one_shot_ok :: "http_task \<Rightarrow> bool" where
  "one_shot_ok (AdmitTask k c) \<longleftrightarrow> is_provisional k \<longrightarrow> c"
| "one_shot_ok (ResolveTask k c) \<longleftrightarrow> is_provisional k \<longrightarrow> c"
| "one_shot_ok (LookupTask k c) \<longleftrightarrow> is_provisional k \<longrightarrow> c"
| "one_shot_ok _ \<longleftrightarrow> True"

definition entry_ok :: "logical_session_key \<Rightarrow> session_entry \<Rightarrow> bool" where
  "entry_ok k e \<longleftrightarrow> (se_retiring e \<longrightarrow> 0 < se_active e) \<and> (is_provisional k \<longrightarrow> se_retiring e)"

definition retiring_ok :: "http_state \<Rightarrow> bool" where
  "retiring_ok st \<longleftrightarrow> keys_distinct st \<and>
     (\<forall>k e. map_of (hs_sessions st) k = Some e \<longrightarrow> entry_ok k e) \<and> (\<forall>t \<in> set (hs_tasks st). one_shot_ok t)"

lemma one_shot_finish [simp]:
  "t \<in> set (finish_tasks es) \<Longrightarrow> one_shot_ok t" "t \<in> set (finish_option r h) \<Longrightarrow> one_shot_ok t"
  by (auto simp: finish_tasks_def) (cases r; simp)

lemma retiring_init: "retiring_ok (http_init cfg)"
  by (simp add: retiring_ok_def http_init_def keys_distinct_def)

lemma retiring_transfer:
  assumes "retiring_ok st" "keys_distinct st'"
    "\<And>k e. map_of (hs_sessions st') k = Some e \<Longrightarrow> map_of (hs_sessions st) k = Some e \<or> entry_ok k e"
    "\<And>t. t \<in> set (hs_tasks st') \<Longrightarrow> t \<in> set (hs_tasks st) \<or> one_shot_ok t"
  shows "retiring_ok st'"
  using assms unfolding retiring_ok_def by blast

lemma put_entry_ok:
  assumes "put_or_remove k e' st = (r, st')" "keys_distinct st" "map_of (hs_sessions st) k = Some e"
    "se_session e' = se_session e" "is_provisional k \<Longrightarrow> se_retiring e'" "map_of (hs_sessions st') j = Some x"
  shows "map_of (hs_sessions st) j = Some x \<or> entry_ok j x"
  using put_or_remove_facts(8)[OF assms(1-4)] assms(5,6)
  by (cases "j = k") (auto simp: entry_ok_def split: if_splits)

lemma retiring_step:
  assumes "http_step cfg a st st'" "retiring_ok st"
  shows "retiring_ok st'"
proof -
  have kd: "keys_distinct st" using assms(2) by (simp add: retiring_ok_def)
  have one: "one_shot_ok t" if "t \<in> set (hs_tasks st)" for t using that assms(2) by (simp add: retiring_ok_def)
  have ent: "entry_ok k e" if "map_of (hs_sessions st) k = Some e" for k e using that assms(2) by (simp add: retiring_ok_def)
  note trans = retiring_transfer[OF assms(2)]
  from assms(1) show ?thesis
  proof (cases rule: http_step.cases)
    case (arrive headers key st1 is_delete)
    with key_request_frame[OF arrive(4)] kd show ?thesis
      by (intro trans) (auto simp: close_after_exchange_def)
  next
    case (admit pre key close post)
    with one[of "AdmitTask key close"] kd show ?thesis by (intro trans) auto
  next
    case (resolve pre key close post now es st1)
    note facts = take_idle_facts(1,3)[OF resolve(4)] take_idle_facts(9)[OF resolve(4) kd]
    have "map_of (hs_sessions st) k = Some e" if "map_of (hs_sessions st1) k = Some e" for k e
      using that facts(3)[of k] by (cases "map_of (hs_sessions st) k") (auto split: if_splits)
    with resolve facts(1,2) one[of "ResolveTask key close"] kd show ?thesis by (intro trans) auto
  next
    case (lookup pre key close post now created s st1)
    have c: "is_provisional key \<Longrightarrow> close" using one[of "LookupTask key close"] lookup(3) by simp
    from lookup(4) show ?thesis
    proof (cases rule: resolve_cases)
      case (joined e)
      from ent[OF joined(1)] joined(2) have "\<not> is_provisional key" by (auto simp: entry_ok_def)
      then show ?thesis using lookup joined kd
        by (intro trans) (auto simp: update_conv' keys_distinct_def distinct_update entry_ok_def split: if_splits)
    next
      case opened
      then show ?thesis using lookup kd c
        by (intro trans) (auto simp: update_conv' keys_distinct_def distinct_update entry_ok_def split: if_splits)
    qed simp
  next
    case (lookup_failed pre key close post now created st1)
    from lookup_failed(4) have "st1 = st" by (cases rule: resolve_cases) auto
    with lookup_failed kd show ?thesis by (intro trans) auto
  next
    case (reject pre key close post e st1)
    note facts = reject_accounts[OF reject(4) kd]
    have new: "map_of (hs_sessions st) j = Some x \<or> entry_ok j x" if m: "map_of (hs_sessions st1) j = Some x" for j x
      using reject(4)
    proof (cases rule: reject_cases)
      case absent
      then show ?thesis using m by simp
    next
      case (present e)
      show ?thesis
        using put_entry_ok[OF present(2) _ _ _ _ m, of e] kd present(1) ent[OF present(1)]
        by (auto simp: keys_distinct_def entry_ok_def)
    qed
    show ?thesis using reject(1,2,3) facts new by (intro trans) auto
  next
    case (release pre key close post now st1)
    note facts = release_accounts[OF release(4) kd]
    have new: "map_of (hs_sessions st) j = Some x \<or> entry_ok j x" if m: "map_of (hs_sessions st1) j = Some x" for j x
      using release(4)
    proof (cases rule: release_cases)
      case (present e)
      show ?thesis
        using put_entry_ok[OF present(2) kd present(1) _ _ m] ent[OF present(1)] by (auto simp: entry_ok_def)
    qed (use m in simp)
    show ?thesis using release(1,2,3) facts new by (intro trans) auto
  next
    case (release_last pre key close post now e st1)
    note facts = release_accounts[OF release_last(4) kd]
    have new: "map_of (hs_sessions st) j = Some x \<or> entry_ok j x" if m: "map_of (hs_sessions st1) j = Some x" for j x
      using release_last(4)
    proof (cases rule: release_cases)
      case (present e)
      show ?thesis
        using put_entry_ok[OF present(2) kd present(1) _ _ m] ent[OF present(1)] by (auto simp: entry_ok_def)
    qed (use m in simp)
    show ?thesis using release_last(1,2,3) facts new by (intro trans) auto
  next
    case (reap now es st1)
    note facts = take_idle_facts(1,3)[OF reap(4)] take_idle_facts(9)[OF reap(4) kd]
    have "map_of (hs_sessions st) k = Some e" if "map_of (hs_sessions st1) k = Some e" for k e
      using that facts(3)[of k] by (cases "map_of (hs_sessions st) k") (auto split: if_splits)
    with reap facts(1,2) kd show ?thesis by (intro trans) (auto simp: same_tasks_def)
  next
    case (finish pre e holds post result st1)
    with kd show ?thesis by (intro trans) (auto simp: finalize_session_entry_def keys_distinct_def)
  next
    case (seal es st1)
    with kd show ?thesis by (intro trans) (auto simp: close_all_sessions_def keys_distinct_def)
  qed (use kd in \<open>auto intro!: trans\<close>)
qed

end
