(* ===== verification/HttpAdmissionProps.thy ===== *)
theory HttpAdmissionProps
  imports HttpAdmissionFacts
begin

text \<open>
  What the HTTP recorder promises about its sessions: bounded writers and captures, exact accounts, no
  capture into a finalized session, a shutdown that ends, and a successful exit only without any loss.
\<close>

section \<open>Capture permits and phases\<close>

fun holds_capture :: "http_task \<Rightarrow> bool" where
  "holds_capture (ResolveTask _ _) \<longleftrightarrow> True"
| "holds_capture (LookupTask _ _) \<longleftrightarrow> True"
| "holds_capture (LeaseTask _ _ _) \<longleftrightarrow> True"
| "holds_capture (ReleaseTask _ _) \<longleftrightarrow> True"
| "holds_capture (FinishTask _ h) \<longleftrightarrow> h"
| "holds_capture _ \<longleftrightarrow> False"

definition holders :: "http_task list \<Rightarrow> nat" where
  "holders ts = length (filter holds_capture ts)"

lemma holders_simps [simp]:
  "holders [] = 0"
  "holders (t # ts) = (if holds_capture t then 1 else 0) + holders ts"
  "holders (ts @ us) = holders ts + holders us"
  "holders (finish_tasks es) = 0"
  "holders (finish_option r False) = 0"
  by (simp_all add: holders_def finish_tasks_def filter_empty_conv) (cases r; simp)

lemma finish_not_admission [simp]:
  "t \<in> set (finish_tasks es) \<Longrightarrow> \<not> is_admission t" "t \<in> set (finish_option r h) \<Longrightarrow> \<not> is_admission t"
  by (auto simp: finish_tasks_def) (cases r; simp)

definition permits_ok :: "http_config \<Rightarrow> http_state \<Rightarrow> bool" where
  "permits_ok cfg st \<longleftrightarrow>
     (hs_phase st \<in> {Serving, Draining} \<longrightarrow> hs_capture_slots st + holders (hs_tasks st) = hc_max_exchanges cfg) \<and>
     (hs_phase st \<noteq> Serving \<longrightarrow> (\<forall>t \<in> set (hs_tasks st). \<not> is_admission t)) \<and>
     (hs_phase st \<in> {Sealed, Stopped} \<longrightarrow> holders (hs_tasks st) = 0 \<and> hs_sessions st = []) \<and>
     (hs_phase st = Stopped \<longrightarrow> hs_tasks st = [])"

lemma permits_init: "permits_ok cfg (http_init cfg)"
  by (simp add: permits_ok_def http_init_def)

lemma captures_hold: "live_exchanges k ts \<le> holders ts"
proof (induction ts)
  case (Cons t ts)
  then show ?case by (cases t) auto
qed simp

text \<open>What the registry operations do not touch, as needed here.\<close>

lemma resolve_frame:
  assumes "resolve_session now created k close st = (r, st')"
  shows "hs_tasks st' = hs_tasks st \<and> hs_phase st' = hs_phase st \<and> hs_capture_slots st' = hs_capture_slots st \<and>
   hs_finished st' = hs_finished st \<and> hs_omitted st' = hs_omitted st \<and> hs_rejected st' = hs_rejected st \<and>
   hs_failures st' = hs_failures st"
  using assms by (cases rule: resolve_cases) simp_all

lemma only_finishing:
  assumes "\<forall>t \<in> set ts. \<not> is_admission t" "holders ts = 0" "finishing_ids ts = {#}"
  shows "ts = []"
proof (cases ts)
  case (Cons t us)
  with assms show ?thesis by (cases t) auto
qed simp

lemma permits_transfer:
  assumes "permits_ok cfg st" "hs_phase st' = hs_phase st"
    "hs_capture_slots st' + holders (hs_tasks st') = hs_capture_slots st + holders (hs_tasks st)"
    "\<forall>t \<in> set (hs_tasks st'). is_admission t \<longrightarrow> hs_phase st = Serving"
    "hs_phase st = Serving \<or> (holders (hs_tasks st') \<le> holders (hs_tasks st) \<and> (hs_sessions st = [] \<longrightarrow> hs_sessions st' = [])
       \<and> hs_tasks st \<noteq> [])"
  shows "permits_ok cfg st'"
proof (cases "hs_phase st = Serving")
  case True
  with assms(1-3) show ?thesis by (simp add: permits_ok_def)
next
  case False
  with assms show ?thesis by (cases "hs_phase st") (simp_all add: permits_ok_def)
qed

lemma put_keeps_empty:
  "put_or_remove k e st = (r, st') \<Longrightarrow> map_of (hs_sessions st) k = Some e0 \<Longrightarrow> hs_sessions st \<noteq> []"
  by auto

lemma release_keeps_empty:
  assumes "release_exchange now k close st = (r, st')" "hs_sessions st = []"
  shows "hs_sessions st' = []"
  using assms(1) by (cases rule: release_cases) (use assms(2) in auto)

text \<open>Tasks of an admission run only while requests are served.\<close>

lemma admission_serving:
  "permits_ok cfg st \<Longrightarrow> t \<in> set (hs_tasks st) \<Longrightarrow> is_admission t \<Longrightarrow> hs_phase st = Serving"
  by (auto simp: permits_ok_def)

lemma permits_step:
  assumes "http_step cfg a st st'" "permits_ok cfg st" "accounts_ok cfg st"
  shows "permits_ok cfg st'"
proof -
  have kd: "keys_distinct st" using assms(3) by (simp add: accounts_ok_def)
  note serving = admission_serving[OF assms(2)]
  note trans = permits_transfer[OF assms(2)]
  from assms(1) show ?thesis
  proof (cases rule: http_step.cases)
    case (arrive headers key st1 is_delete)
    with key_request_frame[OF arrive(4)] show ?thesis by (intro trans) auto
  next
    case (admit_full pre key close post)
    with serving[of "AdmitTask key close"] show ?thesis by (intro trans) auto
  next
    case (admit pre key close post)
    with serving[of "AdmitTask key close"] show ?thesis by (intro trans) auto
  next
    case (resolve pre key close post now es st1)
    with take_idle_facts(1)[OF resolve(4)] serving[of "ResolveTask key close"] show ?thesis
      by (intro trans) (auto simp: same_tasks_def)
  next
    case (lookup pre key close post now created s st1)
    with resolve_frame[OF lookup(4)] serving[of "LookupTask key close"] show ?thesis by (intro trans) auto
  next
    case (lookup_failed pre key close post now created st1)
    with resolve_frame[OF lookup_failed(4)] serving[of "LookupTask key close"] show ?thesis by (intro trans) auto
  next
    case (reject pre key close post e st1)
    with reject_accounts[OF reject(4) kd] serving[of "RejectTask key close"] show ?thesis
      by (intro trans) (auto simp: same_tasks_def)
  next
    case (capture_loss key s close)
    then show ?thesis using serving by (intro trans) auto
  next
    case (drop_lease pre key s close post)
    then show ?thesis using serving by (intro trans) auto
  next
    case (release pre key close post now st1)
    with release_accounts[OF release(4) kd] release_keeps_empty[OF release(4)] serving show ?thesis
      by (intro trans) (auto simp: same_tasks_def)
  next
    case (release_last pre key close post now e st1)
    with release_accounts[OF release_last(4) kd] release_keeps_empty[OF release_last(4)] serving show ?thesis
      by (intro trans) (auto simp: same_tasks_def)
  next
    case (reap now es st1)
    with take_idle_facts(1)[OF reap(4)] serving show ?thesis by (intro trans) (auto simp: same_tasks_def)
  next
    case (finish pre e holds post result st1)
    then have "hs_phase st1 = hs_phase st" "hs_capture_slots st1 = hs_capture_slots st" "hs_sessions st1 = hs_sessions st"
      by (auto simp: finalize_session_entry_def)
    with finish(1-3) serving show ?thesis by (intro trans) auto
  next
    case stop
    with assms(2) show ?thesis by (simp add: permits_ok_def)
  next
    case (seal es st1)
    with assms(2) have "holders (hs_tasks st) = 0" "\<forall>t \<in> set (hs_tasks st). \<not> is_admission t" "st1 = st\<lparr>hs_sessions := []\<rparr>"
      by (simp_all add: permits_ok_def close_all_sessions_def)
    with seal(2) show ?thesis by (auto simp: permits_ok_def)
  next
    case exit
    have "finishing_ids (hs_tasks st) = {#}"
      using assms(3) exit(4) by (simp add: accounts_ok_def size_eq_0_iff_empty)
    moreover from exit(3) assms(2) have "holders (hs_tasks st) = 0" "\<forall>t \<in> set (hs_tasks st). \<not> is_admission t"
        "hs_sessions st = []"
      by (simp_all add: permits_ok_def)
    ultimately show ?thesis using only_finishing exit(2) by (simp add: permits_ok_def)
  qed
qed

section \<open>Histories\<close>

lemma writer_result_complete:
  assumes "writer_result dropped (Inr ())"
  shows "dropped = 0"
  using assms
proof (cases rule: writer_result.cases)
  case (lost sent joined)
  then show ?thesis by (auto simp: finish_storage_writer_def split: if_splits)
next
  case (settled sent joined K sid w ended_at)
  then have ok: "snd (finish_session K sid w ended_at dropped) = Inr ()"
    by (auto simp: finish_storage_writer_def split: if_splits)
  show ?thesis
  proof (rule ccontr)
    assume "dropped \<noteq> 0"
    then have "saturating_add dropped (wr_failed w) > 0" by (simp add: saturating_add_def u64_max_def)
    then have "snd (finish_session K sid w ended_at dropped) \<noteq> Inr ()"
      by (auto simp: finish_session_def Let_def note_failure_def split: sum.splits option.splits)
    with ok show False by simp
  qed
qed

text \<open>
  The counters of omissions and failures count modulo the word size, and what was reported for a
  finalized session is still what its shared counter says: no loss is counted after the report.
\<close>

definition failed_results :: "http_state \<Rightarrow> nat" where
  "failed_results st = length (filter (\<lambda>(_, _, r). r \<noteq> Inr ()) (hs_finished st))"

definition histories_ok :: "http_state \<Rightarrow> bool" where
  "histories_ok st \<longleftrightarrow>
     hs_omitted st = hs_rejected st mod (u64_max + 1) \<and>
     hs_failures st = failed_results st mod (u64_max + 1) \<and>
     (\<forall>(s, d, r) \<in> set (hs_finished st). hs_dropped st s = d \<and> (r = Inr () \<longrightarrow> d = 0))"

lemma wrapping_inc_mod: "wrapping_inc (n mod Suc u64_max) = Suc n mod Suc u64_max"
  by (simp add: wrapping_inc_def mod_Suc_eq)

lemma histories_init: "histories_ok (http_init cfg)"
  by (simp add: histories_ok_def http_init_def failed_results_def)

lemma histories_transfer:
  assumes "histories_ok st" "hs_omitted st' = hs_omitted st" "hs_rejected st' = hs_rejected st"
    "hs_failures st' = hs_failures st" "hs_finished st' = hs_finished st"
    "\<And>s. s \<in># finished_ids st \<Longrightarrow> hs_dropped st' s = hs_dropped st s"
  shows "histories_ok st'"
  using assms unfolding histories_ok_def failed_results_def finished_ids_def by (force simp: image_iff)

text \<open>A session in the registry is not finalized.\<close>

lemma registered_not_finished:
  assumes "accounts_ok cfg st" "map_of (hs_sessions st) k = Some e"
  shows "se_session e \<notin># finished_ids st" "se_session e \<notin># finishing_ids (hs_tasks st)"
proof -
  have o: "se_session e \<in># open_ids st"
    using map_of_SomeD[OF assms(2)] by (force simp: open_ids_def image_iff)
  have d: "count (open_ids st) i + count (finishing_ids (hs_tasks st)) i + count (finished_ids st) i \<le> 1" for i
  proof -
    have "count (mset [0..<hs_created st]) i \<le> 1" by (simp add: count_mset_set')
    with assms(1) show ?thesis by (metis accounts_ok_def count_union)
  qed
  from o have "0 < count (open_ids st) (se_session e)" by simp
  with d[of "se_session e"] have "count (finished_ids st) (se_session e) = 0"
      "count (finishing_ids (hs_tasks st)) (se_session e) = 0"
    by linarith+
  then show "se_session e \<notin># finished_ids st" "se_session e \<notin># finishing_ids (hs_tasks st)"
    by (simp_all add: not_in_iff)
qed

lemma finished_created: "accounts_ok cfg st \<Longrightarrow> s \<in># finished_ids st \<Longrightarrow> s < hs_created st"
  by (metis UnCI accounts_ok_def atLeastLessThan_iff set_mset_union set_mset_mset set_upt)

lemma failed_results_cong: "hs_finished st' = hs_finished st \<Longrightarrow> failed_results st' = failed_results st"
  by (simp add: failed_results_def)

lemma reject_dropped:
  assumes "reject_exchange k close st = (r, st')" "accounts_ok cfg st" "s \<in># finished_ids st"
  shows "hs_dropped st' s = hs_dropped st s"
  using assms(1)
proof (cases rule: reject_cases)
  case (present e)
  then have "s \<noteq> se_session e" using registered_not_finished(1)[OF assms(2) present(1)] assms(3) by auto
  with present(2) show ?thesis by (auto simp: put_or_remove_def count_session_drop_def split: if_splits)
qed simp

lemma release_dropped: "release_exchange now k close st = (r, st') \<Longrightarrow> hs_dropped st' = hs_dropped st"
  by (auto simp: release_exchange_def put_or_remove_def split: option.splits if_splits)

lemma histories_step:
  assumes "http_step cfg a st st'" "histories_ok st" "accounts_ok cfg st" "exchanges_ok st"
  shows "histories_ok st'"
proof -
  have kd: "keys_distinct st" using assms(3) by (simp add: accounts_ok_def)
  note trans = histories_transfer[OF assms(2)]
  from assms(1) show ?thesis
  proof (cases rule: http_step.cases)
    case (arrive headers key st1 is_delete)
    with key_request_frame[OF arrive(4)] show ?thesis by (intro trans) auto
  next
    case (resolve pre key close post now es st1)
    then have "hs_omitted st1 = hs_omitted st" "hs_rejected st1 = hs_rejected st" "hs_failures st1 = hs_failures st"
      "hs_finished st1 = hs_finished st" "hs_dropped st1 = hs_dropped st"
      by (auto simp: take_idle_sessions_def)
    with resolve(2) show ?thesis by (intro trans) auto
  next
    case (lookup pre key close post now created s st1)
    have "hs_dropped st1 i = hs_dropped st i" if "i \<in># finished_ids st" for i
      using lookup(4) by (cases rule: resolve_cases) (use finished_created[OF assms(3) that] in auto)
    with resolve_frame[OF lookup(4)] lookup(2) show ?thesis by (intro trans) auto
  next
    case (lookup_failed pre key close post now created st1)
    from lookup_failed(4) have "st1 = st" by (cases rule: resolve_cases) auto
    with lookup_failed(2) show ?thesis by (intro trans) auto
  next
    case (reject pre key close post e st1)
    note facts = reject_accounts[OF reject(4) kd] 
    have fields: "hs_finished st' = hs_finished st" "hs_failures st' = hs_failures st" "hs_dropped st' = hs_dropped st1"
      "hs_omitted st' = wrapping_inc (hs_omitted st)" "hs_rejected st' = Suc (hs_rejected st)"
      using facts reject(2) by (simp_all add: same_tasks_def)
    have "hs_dropped st' s = d \<and> (r = Inr () \<longrightarrow> d = 0)" if "(s, d, r) \<in> set (hs_finished st)" for s d r
    proof -
      have "s \<in># finished_ids st" using that by (force simp: finished_ids_def image_iff)
      from reject_dropped[OF reject(4) assms(3) this] have "hs_dropped st' s = hs_dropped st s" by (simp add: fields)
      moreover from assms(2) that have "hs_dropped st s = d \<and> (r = Inr () \<longrightarrow> d = 0)"
        unfolding histories_ok_def by blast
      ultimately show ?thesis by simp
    qed
    then have "\<forall>(s, d, r) \<in> set (hs_finished st'). hs_dropped st' s = d \<and> (r = Inr () \<longrightarrow> d = 0)"
      unfolding fields(1) by blast
    with assms(2) show ?thesis
      by (simp add: histories_ok_def fields failed_results_cong[OF fields(1)] wrapping_inc_mod)
  next
    case (capture_loss key s close)
    from capture_loss(3) assms(4) have "lease_ok st (LeaseTask key s close)" by (simp add: exchanges_ok_def)
    then obtain e where "map_of (hs_sessions st) key = Some e" "se_session e = s" by (auto simp: lease_ok_def)
    with registered_not_finished(1)[OF assms(3)] have "s \<notin># finished_ids st" by auto
    with capture_loss(2) show ?thesis by (intro trans) (auto simp: count_session_drop_def)
  next
    case (release pre key close post now st1)
    with release_accounts[OF release(4) kd] release_dropped[OF release(4)] show ?thesis
      by (intro trans) (auto simp: same_tasks_def)
  next
    case (release_last pre key close post now e st1)
    with release_accounts[OF release_last(4) kd] release_dropped[OF release_last(4)] show ?thesis
      by (intro trans) (auto simp: same_tasks_def)
  next
    case (reap now es st1)
    then have "hs_omitted st1 = hs_omitted st" "hs_rejected st1 = hs_rejected st" "hs_failures st1 = hs_failures st"
      "hs_finished st1 = hs_finished st" "hs_dropped st1 = hs_dropped st"
      by (auto simp: take_idle_sessions_def)
    with reap(2) show ?thesis by (intro trans) auto
  next
    case (finish pre e holds post result st1)
    have d: "result = Inr () \<Longrightarrow> hs_dropped st (se_session e) = 0"
      using writer_result_complete finish(4) by simp
    have "failed_results st1 = failed_results st + (if result \<noteq> Inr () then 1 else 0)" "hs_dropped st1 = hs_dropped st"
      "hs_finished st1 = hs_finished st @ [(se_session e, hs_dropped st (se_session e), result)]"
      "hs_omitted st1 = hs_omitted st" "hs_rejected st1 = hs_rejected st"
      "hs_failures st1 = (if result \<noteq> Inr () then wrapping_inc (hs_failures st) else hs_failures st)"
      using finish(5) by (auto simp: failed_results_def finalize_session_entry_def)
    with assms(2) d finish(2) show ?thesis
      by (auto simp: histories_ok_def failed_results_def wrapping_inc_mod)
  next
    case (seal es st1)
    then show ?thesis by (intro trans) (auto simp: close_all_sessions_def)
  qed (auto intro!: trans)
qed

section \<open>Reachable states\<close>

lemma reachable_invariants:
  assumes "http_reachable cfg st"
  shows "accounts_ok cfg st \<and> exchanges_ok st \<and> retiring_ok st \<and> permits_ok cfg st \<and> histories_ok st"
  using assms
proof induction
  case init
  show ?case by (simp add: accounts_init exchanges_init retiring_init permits_init histories_init)
next
  case (step st a st')
  have "\<forall>k. live_exchanges k (hs_tasks st) = 0"
    if "hs_phase st = Draining" "hs_capture_slots st = hc_max_exchanges cfg"
    using that step.IH captures_hold[of _ "hs_tasks st"] by (simp add: permits_ok_def)
  with step show ?case
    by (simp add: accounts_step[of cfg a st st'] exchanges_step[of cfg a st st'] retiring_step[of cfg a st st']
        permits_step[of cfg a st st'] histories_step[of cfg a st st'])
qed

lemma finishing_entries:
  "FinishTask e h \<in> set ts \<Longrightarrow> se_session e \<in># finishing_ids ts"
  by (force simp: finishing_ids_def entry_ids_def)

text \<open>
  C22: in every state the HTTP recorder can reach, under any interleaving of requests, captures, idle
  retirement and finalizations: the writer permits are exactly those not held by a session in the
  registry or by one being finalized, the capture permits exactly those not held by an exchange, the
  counter of every entry is the number of exchanges recording into it, and every lease records into
  the session registered under its key, which is neither finalized nor being finalized.
\<close>

theorem http_sessions_accounted:
  assumes "http_reachable cfg st"
  shows "hs_writer_slots st + length (hs_sessions st) + size (finishing_ids (hs_tasks st)) = hc_max_sessions cfg
    \<and> (hs_phase st \<in> {Serving, Draining} \<longrightarrow> hs_capture_slots st + holders (hs_tasks st) = hc_max_exchanges cfg)
    \<and> (\<forall>k e. map_of (hs_sessions st) k = Some e \<longrightarrow>
         se_active e = live_exchanges k (hs_tasks st) \<and>
         (se_retiring e \<or> is_provisional k \<longrightarrow> 0 < live_exchanges k (hs_tasks st)))
    \<and> (\<forall>k s c. LeaseTask k s c \<in> set (hs_tasks st) \<longrightarrow>
         (\<exists>e. map_of (hs_sessions st) k = Some e \<and> se_session e = s) \<and>
         s \<notin># finished_ids st \<and> s \<notin># finishing_ids (hs_tasks st))"
proof -
  note inv = reachable_invariants[OF assms]
  then have "hs_writer_slots st + length (hs_sessions st) + size (finishing_ids (hs_tasks st)) = hc_max_sessions cfg"
    by (simp add: accounts_ok_def size_open_ids)
  moreover have "hs_phase st \<in> {Serving, Draining} \<longrightarrow> hs_capture_slots st + holders (hs_tasks st) = hc_max_exchanges cfg"
    using inv by (simp add: permits_ok_def)
  moreover have "se_active e = live_exchanges k (hs_tasks st) \<and>
      (se_retiring e \<or> is_provisional k \<longrightarrow> 0 < live_exchanges k (hs_tasks st))"
    if e: "map_of (hs_sessions st) k = Some e" for k e
  proof -
    have "active_of k st = live_exchanges k (hs_tasks st)" using inv by (simp add: exchanges_ok_def)
    then have a: "se_active e = live_exchanges k (hs_tasks st)" using e by (simp add: active_of_def)
    moreover have "entry_ok k e" using inv e by (simp add: retiring_ok_def)
    ultimately show ?thesis by (auto simp: entry_ok_def)
  qed
  moreover have "(\<exists>e. map_of (hs_sessions st) k = Some e \<and> se_session e = s) \<and>
      s \<notin># finished_ids st \<and> s \<notin># finishing_ids (hs_tasks st)"
    if l: "LeaseTask k s c \<in> set (hs_tasks st)" for k s c
  proof -
    have "lease_ok st (LeaseTask k s c)" using inv l by (simp add: exchanges_ok_def)
    then obtain e where e: "map_of (hs_sessions st) k = Some e" "se_session e = s" by (auto simp: lease_ok_def)
    with registered_not_finished[OF conjunct1[OF inv] e(1)] show ?thesis by blast
  qed
  ultimately show ?thesis by blast
qed

text \<open>
  C3: when the recorder exits without an error (and fewer than 2 to the 64th exchanges were refused and
  sessions opened), no exchange was refused, every session ever opened was finalized exactly once and
  its writer reported success, and no message of any of them was lost.
\<close>

theorem http_clean_exit_complete:
  assumes "http_reachable cfg st" "hs_phase st = Stopped" "http_result st = Inr ()"
    "hs_rejected st \<le> u64_max" "hs_created st \<le> u64_max"
  shows "hs_rejected st = 0 \<and> hs_tasks st = [] \<and> hs_sessions st = []
    \<and> mset (map fst (hs_finished st)) = mset [0..<hs_created st]
    \<and> (\<forall>(s, d, r) \<in> set (hs_finished st). r = Inr () \<and> d = 0 \<and> hs_dropped st s = 0)"
proof -
  note inv = reachable_invariants[OF assms(1)]
  have empty: "hs_tasks st = []" "hs_sessions st = []" using inv assms(2) by (simp_all add: permits_ok_def)
  then have ids: "finished_ids st = mset [0..<hs_created st]"
    using inv by (simp add: accounts_ok_def open_ids_def)
  then have "length (hs_finished st) = hs_created st"
    by (metis finished_ids_def length_map length_upt minus_nat.diff_0 size_mset)
  then have "failed_results st \<le> u64_max"
    using assms(5) length_filter_le[of "\<lambda>(_, _, r). r \<noteq> Inr ()" "hs_finished st"] by (simp add: failed_results_def)
  with inv assms(3,4) have none: "hs_rejected st = 0" "failed_results st = 0"
    by (simp_all add: histories_ok_def http_result_def split: if_splits)
  have ok: "r = Inr () \<and> d = 0 \<and> hs_dropped st s = 0" if "(s, d, r) \<in> set (hs_finished st)" for s d r
  proof -
    have "hs_dropped st s = d \<and> (r = Inr () \<longrightarrow> d = 0)" using inv that unfolding histories_ok_def by blast
    moreover have "r = Inr ()" using none(2) that by (force simp: failed_results_def filter_empty_conv)
    ultimately show ?thesis by simp
  qed
  show ?thesis using empty none(1) ids ok by (auto simp: finished_ids_def)
qed

section \<open>Shutdown\<close>

fun task_work :: "http_task \<Rightarrow> nat" where
  "task_work (AdmitTask _ _) = 8"
| "task_work (ResolveTask _ _) = 7"
| "task_work (LookupTask _ _) = 6"
| "task_work (LeaseTask _ _ _) = 3"
| "task_work (ReleaseTask _ _) = 2"
| "task_work (RejectTask _ _) = 1"
| "task_work (FinishTask _ _) = 1"

fun phase_work :: "http_phase \<Rightarrow> nat" where
  "phase_work Serving = 3"
| "phase_work Draining = 2"
| "phase_work Sealed = 1"
| "phase_work Stopped = 0"

definition tasks_work :: "http_task list \<Rightarrow> nat" where
  "tasks_work ts = sum_list (map task_work ts)"

definition http_work :: "http_state \<Rightarrow> nat" where
  "http_work st = phase_work (hs_phase st) + 2 * size (open_ids st) + tasks_work (hs_tasks st)"

lemma tasks_work_simps [simp]:
  "tasks_work [] = 0" "tasks_work (t # ts) = task_work t + tasks_work ts"
  "tasks_work (ts @ us) = tasks_work ts + tasks_work us" "tasks_work (finish_tasks es) = length es"
  "tasks_work (finish_option r h) = size (option_ids r)"
  by (simp_all add: tasks_work_def finish_tasks_def comp_def sum_list_triv) (cases r; simp)

lemma size_entry_ids: "size (entry_ids es) = length es"
  by (simp add: entry_ids_def)

lemma resolve_work:
  assumes "resolve_session now created k close st = (r, st')" "keys_distinct st"
  shows "size (open_ids st') \<le> Suc (size (open_ids st)) \<and> (r = None \<longrightarrow> st' = st)"
  using assms(1)
proof (cases rule: resolve_cases)
  case (joined e)
  have "open_ids st' = open_ids st"
    unfolding joined(4) by (rule open_ids_update_present[OF assms(2) joined(1)]) simp
  with joined(3) show ?thesis by simp
next
  case opened
  have "size (open_ids st') = Suc (size (open_ids st))"
    using open_ids_update_absent[OF assms(2) opened(1)] by (simp add: opened(4) open_ids_def)
  with opened(3) show ?thesis by simp
qed simp

lemma work_decreases:
  assumes "http_step cfg a st st'" "a \<noteq> Arrival" "a \<noteq> CaptureLoss" "keys_distinct st"
  shows "http_work st' < http_work st"
  using assms(1)
proof (cases rule: http_step.cases)
  case (resolve pre key close post now es st1)
  with take_idle_facts(1,2)[OF resolve(4)] show ?thesis
    by (simp add: http_work_def same_tasks_def size_entry_ids)
next
  case (lookup pre key close post now created s st1)
  with resolve_work[OF lookup(4) assms(4)] resolve_frame[OF lookup(4)] show ?thesis by (simp add: http_work_def)
next
  case (lookup_failed pre key close post now created st1)
  with resolve_work[OF lookup_failed(4) assms(4)] show ?thesis by (simp add: http_work_def)
next
  case (reject pre key close post e st1)
  with reject_accounts[OF reject(4) assms(4)] show ?thesis by (simp add: http_work_def same_tasks_def)
next
  case (release pre key close post now st1)
  with release_accounts[OF release(4) assms(4)] show ?thesis by (simp add: http_work_def same_tasks_def)
next
  case (release_last pre key close post now e st1)
  with release_accounts[OF release_last(4) assms(4)] show ?thesis by (simp add: http_work_def same_tasks_def)
next
  case (reap now es st1)
  with take_idle_facts(1,2)[OF reap(4)] show ?thesis
    by (simp add: http_work_def same_tasks_def size_entry_ids)
next
  case (finish pre e holds post result st1)
  then show ?thesis by (auto simp: http_work_def finalize_session_entry_def open_ids_def)
next
  case (seal es st1)
  then have "size (open_ids st) = length es" "st1 = st\<lparr>hs_sessions := []\<rparr>" "open_ids st1 = {#}"
    by (auto simp: close_all_sessions_def open_ids_def)
  with seal show ?thesis by (simp add: http_work_def)
qed (use assms(2,3) in \<open>simp_all add: http_work_def\<close>)

text \<open>A task that is not an open exchange can always take its next step by itself.\<close>

fun is_lease :: "http_task \<Rightarrow> bool" where
  "is_lease (LeaseTask _ _ _) = True"
| "is_lease _ = False"

lemma task_progress:
  assumes "t \<in> set (hs_tasks st)" "\<not> is_lease t"
  shows "\<exists>st'. http_step cfg Work st st'"
proof -
  obtain pre post where ts: "hs_tasks st = pre @ t # post" using assms(1) by (auto simp: in_set_conv_decomp)
  show ?thesis
  proof (cases t)
    case (AdmitTask key close)
    then show ?thesis using ts http_step.admit http_step.admit_full by (cases "hs_capture_slots st = 0") blast+
  next
    case (ResolveTask key close)
    obtain es st1 where "take_idle_sessions cfg 0 st = (es, st1)" by fastforce
    with ts ResolveTask show ?thesis using http_step.resolve by blast
  next
    case (LookupTask key close)
    obtain r st1 where r: "resolve_session 0 True key close st = (r, st1)" by fastforce
    with ts LookupTask show ?thesis using http_step.lookup http_step.lookup_failed by (cases r) blast+
  next
    case (RejectTask key close)
    obtain r st1 where r: "reject_exchange key close st = (r, st1)" by fastforce
    with ts RejectTask show ?thesis using http_step.reject by blast
  next
    case (ReleaseTask key close)
    obtain r st1 where r: "release_exchange 0 key close st = (r, st1)" by fastforce
    with ts ReleaseTask show ?thesis using http_step.release http_step.release_last by (cases r) blast+
  next
    case (FinishTask e h)
    with ts show ?thesis using http_step.finish writer_result.lost by blast
  qed (use assms(2) in simp)
qed

lemma holders_no_lease: "holders ts = 0 \<Longrightarrow> t \<in> set ts \<Longrightarrow> \<not> is_lease t"
  by (cases t) (auto simp: holders_def filter_empty_conv)

text \<open>After serving ended and with no exchange open, some step of the program is possible until the exit.\<close>

lemma drain_progress:
  assumes "http_reachable cfg st" "hs_phase st \<noteq> Serving" "\<forall>t \<in> set (hs_tasks st). \<not> is_lease t" "hs_phase st \<noteq> Stopped"
  shows "\<exists>st'. http_step cfg Work st st'"
proof (cases "hs_tasks st")
  case (Cons t ts)
  then show ?thesis using assms(3) by (intro task_progress[of t]) auto
next
  case Nil
  have inv: "accounts_ok cfg st" "permits_ok cfg st" using assms(1) reachable_invariants by blast+
  show ?thesis
  proof (cases "hs_phase st")
    case Draining
    with inv(2) Nil have "hs_capture_slots st = hc_max_exchanges cfg" by (simp add: permits_ok_def)
    moreover obtain es st1 where "close_all_sessions st = (es, st1)" by fastforce
    ultimately show ?thesis using Draining http_step.seal by blast
  next
    case Sealed
    with inv Nil have "hs_writer_slots st = hc_max_sessions cfg"
      by (simp add: accounts_ok_def permits_ok_def open_ids_def)
    then show ?thesis using Sealed http_step.exit by blast
  qed (use assms(2,4) in simp_all)
qed

text \<open>No step brings serving or an exchange back, and only the program's own steps are left.\<close>

lemma finish_tasks_lease [simp]: "t \<in> set (finish_tasks es) \<Longrightarrow> \<not> is_lease t" "t \<in> set (finish_option r h) \<Longrightarrow> \<not> is_lease t"
  by (auto simp: finish_tasks_def) (cases r; simp)

lemma drain_step:
  assumes "http_step cfg a st st'" "permits_ok cfg st" "accounts_ok cfg st" "hs_phase st \<noteq> Serving"
    "\<forall>t \<in> set (hs_tasks st). \<not> is_lease t"
  shows "a = Work \<and> hs_phase st' \<noteq> Serving \<and> (\<forall>t \<in> set (hs_tasks st'). \<not> is_lease t)"
proof -
  have kd: "keys_distinct st" using assms(3) by (simp add: accounts_ok_def)
  note serving = admission_serving[OF assms(2)]
  from assms(1) show ?thesis
  proof (cases rule: http_step.cases)
    case (release pre key close post now st1)
    with release_accounts[OF release(4) kd] assms(4,5) show ?thesis by (auto simp: same_tasks_def)
  next
    case (release_last pre key close post now e st1)
    with release_accounts[OF release_last(4) kd] assms(4,5) show ?thesis by (auto simp: same_tasks_def)
  next
    case (finish pre e holds post result st1)
    then show ?thesis using assms(4,5) by (auto simp: finalize_session_entry_def)
  next
    case (seal es st1)
    then show ?thesis using assms(5) by (auto simp: close_all_sessions_def)
  qed (use assms(4,5) serving in fastforce)+
qed

text \<open>Whatever step is taken, a state with the property is reached in the end.\<close>

inductive inevitably :: "http_config \<Rightarrow> (http_state \<Rightarrow> bool) \<Rightarrow> http_state \<Rightarrow> bool" for cfg P where
  now: "P st \<Longrightarrow> inevitably cfg P st"
| later: "\<exists>a st'. http_step cfg a st st' \<Longrightarrow> (\<And>a st'. http_step cfg a st st' \<Longrightarrow> inevitably cfg P st') \<Longrightarrow> inevitably cfg P st"

lemma drain_inevitable:
  assumes "http_reachable cfg st" "hs_phase st \<noteq> Serving" "\<forall>t \<in> set (hs_tasks st). \<not> is_lease t"
  shows "inevitably cfg (\<lambda>st. hs_phase st = Stopped) st"
  using assms
proof (induction "http_work st" arbitrary: st rule: less_induct)
  case less
  note inv = reachable_invariants[OF less.prems(1)]
  show ?case
  proof (cases "hs_phase st = Stopped")
    case False
    show ?thesis
    proof (rule inevitably.later)
      show "\<exists>a st'. http_step cfg a st st'" using drain_progress[OF less.prems False] by blast
      show "inevitably cfg (\<lambda>st. hs_phase st = Stopped) st'" if "http_step cfg a st st'" for a st'
      proof -
        have "a = Work \<and> hs_phase st' \<noteq> Serving \<and> (\<forall>t \<in> set (hs_tasks st'). \<not> is_lease t)"
          using drain_step[OF that] inv less.prems(2,3) by blast
        moreover from this inv that have "http_work st' < http_work st"
          by (intro work_decreases[OF that]) (auto simp: exchanges_ok_def)
        ultimately show ?thesis using less.hyps http_reachable.step[OF less.prems(1) that] by blast
      qed
    qed
  qed (rule inevitably.now)
qed

text \<open>
  C24: The shutdown completes, under conditions that only the outside can meet. Between two requests
  (and without losses) the recorder takes finitely many steps. It has none of its own left only when it
  waits for the outside: still serving, or draining with an exchange open, with nothing but open
  exchanges under way, or when it has stopped. And once serving has ended, which takes the operator's
  stop request, and the open exchanges have ended, every order of the steps that are possible then
  reaches the exit: no permit is missing, nothing blocks and nothing runs for ever. Without a stop
  request the recorder serves on, and an exchange that stays open, such as an event stream, holds
  the shutdown; the theorem promises nothing then.
\<close>

theorem http_shutdown_completes:
  "wfP (\<lambda>st' st. http_reachable cfg st \<and> (\<exists>a. a \<noteq> Arrival \<and> a \<noteq> CaptureLoss \<and> http_step cfg a st st')) \<and>
   (\<forall>st. http_reachable cfg st \<and> \<not> (\<exists>st'. http_step cfg Work st st') \<longrightarrow>
      (\<forall>t \<in> set (hs_tasks st). is_lease t)
      \<and> (hs_phase st = Serving \<or> hs_phase st = Draining \<and> hs_tasks st \<noteq> [] \<or> hs_phase st = Stopped)) \<and>
   (\<forall>st. http_reachable cfg st \<and> hs_phase st \<noteq> Serving \<and> (\<forall>t \<in> set (hs_tasks st). \<not> is_lease t) \<longrightarrow>
      inevitably cfg (\<lambda>st. hs_phase st = Stopped) st)"
proof (intro conjI allI impI; (elim conjE)?)
  have "http_work st' < http_work st"
    if "http_reachable cfg st \<and> (\<exists>a. a \<noteq> Arrival \<and> a \<noteq> CaptureLoss \<and> http_step cfg a st st')" for st st'
    using that reachable_invariants[of cfg st] work_decreases by (auto simp: exchanges_ok_def)
  then show "wfP (\<lambda>st' st. http_reachable cfg st \<and> (\<exists>a. a \<noteq> Arrival \<and> a \<noteq> CaptureLoss \<and> http_step cfg a st st'))"
    unfolding wfp_def by (rule_tac wf_subset[OF wf_measure[of http_work]]) (clarsimp, blast)
next
  fix st assume r: "http_reachable cfg st" "\<nexists>st'. http_step cfg Work st st'"
  then show leases: "\<forall>t \<in> set (hs_tasks st). is_lease t" using task_progress by blast
  have "accounts_ok cfg st" "permits_ok cfg st" using r(1) reachable_invariants by blast+
  then have "hs_phase st = Sealed \<longrightarrow> (\<forall>t \<in> set (hs_tasks st). \<not> is_lease t)"
    using holders_no_lease by (auto simp: permits_ok_def)
  then show "hs_phase st = Serving \<or> hs_phase st = Draining \<and> hs_tasks st \<noteq> [] \<or> hs_phase st = Stopped"
    using drain_progress[OF r(1)] r(2) by (cases "hs_phase st") auto
qed (rule drain_inevitable)

section \<open>A sample run\<close>

text \<open>One exchange without a session id, recorded from its arrival to the exit of the recorder.\<close>

definition sample_cfg :: http_config where
  "sample_cfg = \<lparr>hc_to_str = Some, hc_group_header = None, hc_max_sessions = 1, hc_max_exchanges = 1, hc_idle = 300\<rparr>"

definition sample_entry :: session_entry where
  "sample_entry = \<lparr>se_session = 0, se_active = 1, se_last = 0, se_retiring = True\<rparr>"

abbreviation sample_key :: logical_session_key where
  "sample_key \<equiv> Provisional 0"

definition sample_state ::
  "http_phase \<Rightarrow> (logical_session_key \<times> session_entry) list \<Rightarrow> nat \<Rightarrow> nat \<Rightarrow> nat \<Rightarrow> http_task list
    \<Rightarrow> (nat \<times> u64 \<times> (string + unit)) list \<Rightarrow> http_state" where
  "sample_state phase sessions writers captures created tasks finished =
     \<lparr>hs_phase = phase, hs_sessions = sessions, hs_provisional = 1, hs_writer_slots = writers,
      hs_capture_slots = captures, hs_omitted = 0, hs_failures = 0, hs_created = created,
      hs_dropped = (\<lambda>_. 0), hs_tasks = tasks, hs_finished = finished, hs_rejected = 0\<rparr>"

lemma sample_step:
  "http_reachable sample_cfg st \<Longrightarrow> http_step sample_cfg a st st1 \<Longrightarrow> st1 = st' \<Longrightarrow> http_reachable sample_cfg st'"
  using http_reachable.step by blast

lemma sample_written: "writer_result 0 (Inr ())"
proof -
  let ?K = "\<lparr>sink_write = (\<lambda>st _ _. Inr st), sink_increment = (\<lambda>st _ _. Inr st), sink_close = (\<lambda>st _ _. Inr st)\<rparr>"
  have "snd (finish_session ?K sid (writer_init st) ended_at 0) = Inr ()" for sid st ended_at
    by (simp add: finish_session_def writer_init_def)
  then have "finish_storage_writer True True (Some (snd (finish_session ?K sid (writer_init st) ended_at 0))) = Inr ()" for sid st ended_at
    by (simp add: finish_storage_writer_def)
  then show ?thesis using writer_result.settled by metis
qed

lemma sample_lease:
  "http_reachable sample_cfg (sample_state Serving [(sample_key, sample_entry)] 0 0 1 [LeaseTask sample_key 0 True] [])"
proof -
  have "http_reachable sample_cfg (sample_state Serving [] 1 1 0 [AdmitTask sample_key True] [])"
    by (rule sample_step[OF http_reachable.init http_step.arrive[where headers = "[]" and is_delete = False]])
      (auto simp: http_init_def session_key_for_request_def header_text_def header_get_def sample_cfg_def sample_state_def
        close_after_exchange_def wrapping_inc_def u64_max_def)
  then have "http_reachable sample_cfg (sample_state Serving [] 1 0 0 [ResolveTask sample_key True] [])"
    by (rule sample_step[OF _ http_step.admit[where pre = "[]" and post = "[]"]]) (auto simp: sample_state_def)
  then have "http_reachable sample_cfg (sample_state Serving [] 1 0 0 [LookupTask sample_key True] [])"
    by (rule sample_step[OF _ http_step.resolve[where pre = "[]" and post = "[]" and now = 0]])
      (auto simp: sample_state_def take_idle_sessions_def finish_tasks_def)
  then show ?thesis
    by (rule sample_step[OF _ http_step.lookup[where pre = "[]" and post = "[]" and now = 0 and created = True]])
      (auto simp: sample_state_def resolve_session_def sample_entry_def fun_eq_iff)
qed

lemma http_sessions_accounted_witness:
  "se_active sample_entry = live_exchanges sample_key [LeaseTask sample_key 0 True]"
  using http_sessions_accounted[OF sample_lease] by (simp add: sample_state_def)

lemma sample_release:
  "http_reachable sample_cfg (sample_state Draining [(sample_key, sample_entry)] 0 0 1 [ReleaseTask sample_key True] [])"
proof -
  from sample_lease have "http_reachable sample_cfg
      (sample_state Draining [(sample_key, sample_entry)] 0 0 1 [LeaseTask sample_key 0 True] [])"
    by (rule sample_step[OF _ http_step.stop]) (auto simp: sample_state_def)
  then show ?thesis
    by (rule sample_step[OF _ http_step.drop_lease[where pre = "[]" and post = "[]"]]) (auto simp: sample_state_def)
qed

lemma sample_exit: "http_reachable sample_cfg (sample_state Stopped [] 1 0 1 [] [(0, 0, Inr ())])"
proof -
  let ?e = "sample_entry\<lparr>se_active := 0\<rparr>"
  from sample_release have "http_reachable sample_cfg (sample_state Draining [] 0 0 1 [FinishTask ?e True] [])"
    by (rule sample_step[OF _ http_step.release_last[where pre = "[]" and post = "[]" and now = 0]])
      (auto simp: sample_state_def release_exchange_def put_or_remove_def sample_entry_def)
  then have "http_reachable sample_cfg (sample_state Draining [] 1 1 1 [] [(0, 0, Inr ())])"
    by (rule sample_step[OF _ http_step.finish[where pre = "[]" and post = "[]" and result = "Inr ()"]])
      (auto simp: sample_state_def sample_entry_def finalize_session_entry_def sample_written)
  then have "http_reachable sample_cfg (sample_state Sealed [] 1 0 1 [] [(0, 0, Inr ())])"
    by (rule sample_step[OF _ http_step.seal])
      (auto simp: sample_state_def sample_cfg_def close_all_sessions_def finish_tasks_def)
  then show ?thesis
    by (rule sample_step[OF _ http_step.exit]) (auto simp: sample_state_def sample_cfg_def)
qed

lemma http_clean_exit_complete_witness:
  "mset (map fst (hs_finished (sample_state Stopped [] 1 0 1 [] [(0, 0, Inr ())]))) = mset [0..<1]"
  using http_clean_exit_complete[OF sample_exit] by (simp add: sample_state_def http_result_def u64_max_def)

lemma http_shutdown_completes_witness:
  "inevitably sample_cfg (\<lambda>st. hs_phase st = Stopped)
     (sample_state Draining [(sample_key, sample_entry)] 0 0 1 [ReleaseTask sample_key True] [])"
  using conjunct2[OF conjunct2[OF http_shutdown_completes[of sample_cfg]]] sample_release by (simp add: sample_state_def)

end
