(* ===== verification/HttpRelay.thy ===== *)
theory HttpRelay
  imports HttpAdmission Sse Lint
begin

text \<open>
  The data plane of \<open>crates/mcptracer-proxy/src/commands/record_http.rs\<close>: a request body forwarded chunk by
  chunk while it is captured, a response body that passes the tap of the client's stream and a bounded
  channel to its capture task, the headers and the upstream address.  The shared handles of an
  \<open>HttpSession\<close> (sequence and loss counters, byte budget, channel) are a \<open>pump\<close>.
\<close>

definition REQUEST_FORWARD_CHANNEL_CAPACITY :: usize where
  "REQUEST_FORWARD_CHANNEL_CAPACITY = 16"

definition RESPONSE_CAPTURE_CHANNEL_CAPACITY :: usize where
  "RESPONSE_CAPTURE_CHANNEL_CAPACITY = 64"

section \<open>Recording one payload\<close>

definition record_message_at :: "serde \<Rightarrow> pump \<Rightarrow> bytes \<Rightarrow> direction \<Rightarrow> u64 \<Rightarrow> i64 \<Rightarrow> pump" where
  "record_message_at S p bs direction seq timestamp =
     (case http_decode_message S bs direction seq timestamp of
        Inr message \<Rightarrow> try_record p message
      | Inl _ \<Rightarrow> count_drop p)"

text \<open>\<open>clock\<close> gives the time at which a sequence number is taken.\<close>

definition record_message :: "serde \<Rightarrow> (u64 \<Rightarrow> i64) \<Rightarrow> pump \<Rightarrow> bytes \<Rightarrow> direction \<Rightarrow> pump" where
  "record_message S clock p bs direction =
     (let (seq, p1) = reserve_capture_stamp p in record_message_at S p1 bs direction seq (clock seq))"

fun record_sse_event :: "serde \<Rightarrow> (u64 \<Rightarrow> i64) \<Rightarrow> pump \<Rightarrow> sse_event \<Rightarrow> pump" where
  "record_sse_event S clock p (SseJson bs) = record_message S clock p bs ServerToClient"
| "record_sse_event S clock p SseOversized = count_drop p"
| "record_sse_event S clock p SseIncomplete = count_drop p"

section \<open>The request body\<close>

text \<open>
  What one turn of the loop meets: the upstream side closed its receiver, the client's stream failed, or
  a chunk arrived, which the upstream side takes or not.  The end of the list is the end of the stream.
\<close>

datatype body_event = ReceiverClosed | BodyFailed | BodyChunk bytes bool

record forwarding =
  fw_pump :: pump
  fw_captured :: bytes
  fw_too_large :: bool
  fw_length :: u64

definition count_if :: "bool \<Rightarrow> forwarding \<Rightarrow> forwarding" where
  "count_if capture f = (if capture then f\<lparr>fw_pump := count_drop (fw_pump f)\<rparr> else f)"

definition forward_chunk :: "bool \<Rightarrow> bytes \<Rightarrow> forwarding \<Rightarrow> forwarding" where
  "forward_chunk capture bs f =
     (let f1 = f\<lparr>fw_pump := (fw_pump f)\<lparr>pm_forwarded := pm_forwarded (fw_pump f) @ bs\<rparr>,
                 fw_length := saturating_add (fw_length f) (length bs)\<rparr>
      in if capture \<and> \<not> fw_too_large f1
         then if saturating_add (length (fw_captured f1)) (length bs) \<le> MAX_FRAME_BYTES
              then f1\<lparr>fw_captured := fw_captured f1 @ bs\<rparr>
              else f1\<lparr>fw_too_large := True, fw_captured := []\<rparr>
         else f1)"

text \<open>The loop; the first component says whether it ended without an early return.\<close>

fun forward_chunks :: "u64 option \<Rightarrow> bool \<Rightarrow> body_event list \<Rightarrow> forwarding \<Rightarrow> bool \<times> forwarding" where
  "forward_chunks expected capture [] f = (True, f)"
| "forward_chunks expected capture (ev # evs) f =
     (if expected = Some (fw_length f) then (True, f)
      else case ev of
        ReceiverClosed \<Rightarrow> (False, count_if capture f)
      | BodyFailed \<Rightarrow> (False, count_if capture f)
      | BodyChunk bs sent \<Rightarrow>
          if \<not> sent then (False, count_if capture f)
          else let f1 = forward_chunk capture bs f
               in if expected = Some (fw_length f1) then (True, f1) else forward_chunks expected capture evs f1)"

definition forward_request_body ::
  "serde \<Rightarrow> (u64 \<Rightarrow> i64) \<Rightarrow> bool \<Rightarrow> u64 option \<Rightarrow> body_event list \<Rightarrow> pump \<Rightarrow> pump" where
  "forward_request_body S clock capture expected evs p =
     (let (seq, p0) = (if capture then reserve_capture_stamp p else (0, p));
          (finished, f) = forward_chunks expected capture evs
             \<lparr>fw_pump = p0, fw_captured = [], fw_too_large = False, fw_length = 0\<rparr>
      in if \<not> finished \<or> \<not> capture then fw_pump f
         else if fw_too_large f then count_drop (fw_pump f)
         else if expected \<noteq> None \<and> expected \<noteq> Some (fw_length f) then count_drop (fw_pump f)
         else record_message_at S (fw_pump f) (fw_captured f) ClientToServer seq (clock seq))"

section \<open>The response body\<close>

datatype capture_kind = CaptureJson | CaptureSse

text \<open>
  The tap on the client's stream, the channel and the capture task.  \<open>rs_delivered\<close> is what the client was
  given and \<open>rs_eof\<close> whether the upstream stream was seen to end; both are histories.
\<close>

record response =
  rs_kind :: capture_kind
  rs_expected :: "u64 option"
  rs_observed :: u64
  rs_complete :: bool
  rs_overflowed :: bool
  rs_queue :: "bytes list"
  rs_sender :: bool
  rs_receiver :: bool
  rs_captured :: bytes
  rs_too_large :: bool
  rs_decoder :: sse_decoder
  rs_pump :: pump
  rs_delivered :: bytes
  rs_eof :: bool

definition response_init :: "capture_kind \<Rightarrow> u64 option \<Rightarrow> pump \<Rightarrow> response" where
  "response_init kind expected p =
     \<lparr>rs_kind = kind, rs_expected = expected, rs_observed = 0, rs_complete = (expected = Some 0),
      rs_overflowed = False, rs_queue = [], rs_sender = True, rs_receiver = True, rs_captured = [],
      rs_too_large = False, rs_decoder = sse_default, rs_pump = p, rs_delivered = [], rs_eof = False\<rparr>"

definition mark_incomplete :: "response \<Rightarrow> response" where
  "mark_incomplete r =
     (if rs_overflowed r then r else r\<lparr>rs_overflowed := True, rs_pump := count_drop (rs_pump r)\<rparr>)"

text \<open>\<open>try_send\<close>: fails on a full channel and without a receiver.\<close>

definition capture_send :: "bytes \<Rightarrow> response \<Rightarrow> response" where
  "capture_send bs r =
     (if rs_receiver r \<and> length (rs_queue r) < RESPONSE_CAPTURE_CHANNEL_CAPACITY
      then r\<lparr>rs_queue := rs_queue r @ [bs]\<rparr> else mark_incomplete r)"

definition observe_chunk :: "bytes \<Rightarrow> response \<Rightarrow> response" where
  "observe_chunk bs r =
     (if rs_overflowed r then r
      else
        let r1 = r\<lparr>rs_observed := saturating_add (rs_observed r) (length bs)\<rparr>;
            r2 = (case rs_expected r1 of
                    None \<Rightarrow> r1
                  | Some expected \<Rightarrow>
                      let r3 = r1\<lparr>rs_complete := (rs_observed r1 = expected)\<rparr>
                      in if rs_observed r1 > expected then mark_incomplete r3 else r3)
        in capture_send bs r2)"

definition observe_error :: "response \<Rightarrow> response" where
  "observe_error r = (if rs_overflowed r then r else mark_incomplete r)"

definition observe_end :: "response \<Rightarrow> response" where
  "observe_end r =
     r\<lparr>rs_eof := True,
       rs_complete := (case rs_expected r of None \<Rightarrow> True | Some expected \<Rightarrow> expected = rs_observed r)\<rparr>"

text \<open>Dropping the tap marks before it closes the channel.\<close>

definition drop_tap :: "response \<Rightarrow> response" where
  "drop_tap r =
     (let r1 = (if \<not> rs_complete r \<and> (rs_kind r \<noteq> CaptureSse \<or> rs_expected r \<noteq> None) then mark_incomplete r else r)
      in r1\<lparr>rs_sender := False\<rparr>)"

text \<open>One turn of the capture task: a chunk, or the end once the channel is closed and empty.\<close>

definition capture_json_chunk :: "bytes \<Rightarrow> response \<Rightarrow> response" where
  "capture_json_chunk bs r =
     (if \<not> rs_too_large r \<and> \<not> rs_overflowed r
      then if saturating_add (length (rs_captured r)) (length bs) \<le> MAX_FRAME_BYTES
           then r\<lparr>rs_captured := rs_captured r @ bs\<rparr>
           else r\<lparr>rs_too_large := True, rs_captured := []\<rparr>
      else r)"

definition capture_json_end :: "serde \<Rightarrow> (u64 \<Rightarrow> i64) \<Rightarrow> response \<Rightarrow> response" where
  "capture_json_end S clock r =
     (if \<not> rs_too_large r \<and> \<not> rs_overflowed r \<and> rs_captured r \<noteq> []
      then r\<lparr>rs_pump := record_message S clock (rs_pump r) (rs_captured r) ServerToClient\<rparr>
      else if rs_too_large r then r\<lparr>rs_pump := count_drop (rs_pump r)\<rparr>
      else r)"

definition record_events :: "serde \<Rightarrow> (u64 \<Rightarrow> i64) \<Rightarrow> sse_decoder \<times> sse_event list \<Rightarrow> response \<Rightarrow> response" where
  "record_events S clock de r =
     r\<lparr>rs_decoder := fst de, rs_pump := foldl (record_sse_event S clock) (rs_pump r) (snd de)\<rparr>"

definition capture_turn :: "serde \<Rightarrow> (u64 \<Rightarrow> i64) \<Rightarrow> response \<Rightarrow> response" where
  "capture_turn S clock r =
     (if \<not> rs_receiver r then r
      else case rs_queue r of
        bs # queue \<Rightarrow>
          let r1 = r\<lparr>rs_queue := queue\<rparr>
          in (case rs_kind r of
                CaptureJson \<Rightarrow> capture_json_chunk bs r1
              | CaptureSse \<Rightarrow>
                  if rs_overflowed r1 then r1\<lparr>rs_receiver := False\<rparr>
                  else record_events S clock (sse_push (rs_decoder r1) bs) r1)
      | [] \<Rightarrow>
          if rs_sender r then r
          else (case rs_kind r of
                  CaptureJson \<Rightarrow> capture_json_end S clock r
                | CaptureSse \<Rightarrow> if rs_overflowed r then r else record_events S clock (sse_finish (rs_decoder r)) r)
               \<lparr>rs_receiver := False\<rparr>)"

text \<open>
  An interleaving: chunks and errors as the client's stream is polled, its end, the drop of the tap, and
  turns of the capture task.  Nothing passes a tap that is gone, and nothing follows the end.
\<close>

datatype response_action = UpstreamChunk bytes | UpstreamError | UpstreamEnd | TapDropped | CaptureTurn

fun response_step :: "serde \<Rightarrow> (u64 \<Rightarrow> i64) \<Rightarrow> response_action \<Rightarrow> response \<Rightarrow> response" where
  "response_step S clock (UpstreamChunk bs) r =
     (if rs_sender r \<and> \<not> rs_eof r then observe_chunk bs (r\<lparr>rs_delivered := rs_delivered r @ bs\<rparr>) else r)"
| "response_step S clock UpstreamError r = (if rs_sender r \<and> \<not> rs_eof r then observe_error r else r)"
| "response_step S clock UpstreamEnd r = (if rs_sender r \<and> \<not> rs_eof r then observe_end r else r)"
| "response_step S clock TapDropped r = (if rs_sender r then drop_tap r else r)"
| "response_step S clock CaptureTurn r = capture_turn S clock r"

definition response_run :: "serde \<Rightarrow> (u64 \<Rightarrow> i64) \<Rightarrow> response_action list \<Rightarrow> response \<Rightarrow> response" where
  "response_run S clock acts r = fold (response_step S clock) acts r"

text \<open>The capture task has returned.\<close>

definition response_done :: "response \<Rightarrow> bool" where
  "response_done r \<longleftrightarrow> \<not> rs_sender r \<and> \<not> rs_receiver r"

section \<open>Headers and addresses\<close>

definition response_capture_kind :: "http_config \<Rightarrow> header_map \<Rightarrow> capture_kind option" where
  "response_capture_kind cfg headers =
     Option.bind (header_get headers ''content-type'') (\<lambda>v.
     Option.bind (hc_to_str cfg v) (\<lambda>s.
       let content_type = map to_ascii_lowercase s
       in if prefix ''text/event-stream'' content_type then Some CaptureSse
          else if prefix ''application/json'' content_type then Some CaptureJson
          else None))"

definition is_hop_by_hop_header :: "string \<Rightarrow> bool" where
  "is_hop_by_hop_header name \<longleftrightarrow>
     name \<in> {''connection'', ''keep-alive'', ''proxy-authenticate'', ''proxy-authorization'', ''te'', ''trailer'',
             ''transfer-encoding'', ''upgrade''}"

text \<open>Names that a \<open>Connection\<close> header lists are for this hop only, as are the fixed ones.\<close>

definition connection_named :: "http_config \<Rightarrow> header_map \<Rightarrow> string set" where
  "connection_named cfg headers =
     set (concat (map (\<lambda>(_, v). case hc_to_str cfg v of
        None \<Rightarrow> []
      | Some s \<Rightarrow> map (\<lambda>name. map to_ascii_lowercase (trim name)) (split_on (\<lambda>c. c = CHR '','') s))
       (filter (\<lambda>(name, _). name = ''connection'') headers)))"

definition end_to_end_headers :: "http_config \<Rightarrow> header_map \<Rightarrow> bool \<Rightarrow> header_map" where
  "end_to_end_headers cfg headers upstream_request =
     filter (\<lambda>(name, _). \<not> (is_hop_by_hop_header name \<or> name \<in> connection_named cfg headers
       \<or> (upstream_request \<and> name = ''host''))) headers"

text \<open>
  The operations of the \<open>url\<close> crate on an address, as parameters: parsing, the parts, and the setters,
  which normalize what they are given.
\<close>

record 'u url_api =
  ua_parse :: "string \<Rightarrow> 'u option"
  ua_scheme :: "'u \<Rightarrow> string"
  ua_host_str :: "'u \<Rightarrow> string option"
  ua_username :: "'u \<Rightarrow> string"
  ua_password :: "'u \<Rightarrow> string option"
  ua_path :: "'u \<Rightarrow> string"
  ua_query :: "'u \<Rightarrow> string option"
  ua_fragment :: "'u \<Rightarrow> string option"
  ua_set_username :: "string \<Rightarrow> 'u \<Rightarrow> 'u"
  ua_set_password :: "string option \<Rightarrow> 'u \<Rightarrow> 'u"
  ua_set_path :: "string \<Rightarrow> 'u \<Rightarrow> 'u"
  ua_set_query :: "string option \<Rightarrow> 'u \<Rightarrow> 'u"
  ua_set_fragment :: "string option \<Rightarrow> 'u \<Rightarrow> 'u"
  ua_to_string :: "'u \<Rightarrow> string"

definition parse_target :: "'u url_api \<Rightarrow> string \<Rightarrow> string + 'u" where
  "parse_target U raw =
     (case ua_parse U raw of
        None \<Rightarrow> Inl ''--target must be an absolute URL''
      | Some target \<Rightarrow>
          if ua_scheme U target \<notin> {''http'', ''https''} then Inl ''--target must use the http or https scheme''
          else if ua_host_str U target = None then Inl ''--target must include a host''
          else if ua_username U target \<noteq> [] \<or> ua_password U target \<noteq> None \<or> ua_query U target \<noteq> None
                  \<or> ua_fragment U target \<noteq> None
          then Inl ''--target cannot contain user info, query parameters, or a fragment''
          else Inr target)"

definition trim_end_slashes :: "string \<Rightarrow> string" where
  "trim_end_slashes s = rev (dropWhile (\<lambda>c. c = CHR ''/'') (rev s))"

definition trim_start_slashes :: "string \<Rightarrow> string" where
  "trim_start_slashes s = dropWhile (\<lambda>c. c = CHR ''/'') s"

definition sanitized_target :: "'u url_api \<Rightarrow> 'u \<Rightarrow> string" where
  "sanitized_target U target =
     trim_end_slashes (ua_to_string U (ua_set_fragment U None (ua_set_query U None
       (ua_set_password U None (ua_set_username U [] target)))))"

definition target_path :: "string \<Rightarrow> string \<Rightarrow> string" where
  "target_path base incoming =
     (let base_path = trim_end_slashes base; incoming_path = trim_start_slashes incoming
      in if incoming_path = [] then (if base_path = [] then ''/'' else base_path)
         else if base_path = [] \<or> base_path = ''/'' then ''/'' @ incoming_path
         else base_path @ ''/'' @ incoming_path)"

definition target_url :: "'u url_api \<Rightarrow> 'u \<Rightarrow> string \<Rightarrow> string option \<Rightarrow> string + 'u" where
  "target_url U base path query =
     (if list_ex (\<lambda>segment. segment = ''..'') (split_on (\<lambda>c. c = CHR ''/'') path)
      then Inl ''request path cannot contain parent-directory segments''
      else Inr (ua_set_query U query (ua_set_path U (target_path (ua_path U base) path) base)))"

end
