(* ===== verification/HttpRelayProps.thy ===== *)
theory HttpRelayProps
  imports HttpRelay Capture
begin

text \<open>
  What the HTTP relay promises about bodies: capturing never changes what is forwarded, and every captured
  request and response is recorded whole or counted as lost, whatever the interleaving.
\<close>

lemma frame_limit: "saturating_add a b \<le> MAX_FRAME_BYTES \<longleftrightarrow> a + b \<le> MAX_FRAME_BYTES"
  by (auto simp: saturating_add_def MAX_FRAME_BYTES_def u64_max_def)

lemma count_drop_fields [simp]:
  "pm_seq (count_drop p) = pm_seq p" "pm_channel (count_drop p) = pm_channel p" "pm_budget (count_drop p) = pm_budget p"
  "pm_forwarded (count_drop p) = pm_forwarded p" "pm_dropped (count_drop p) = wrapping_inc (pm_dropped p)"
  by (simp_all add: count_drop_def)

section \<open>The request body\<close>

text \<open>The chunks of a run that the upstream side took: up to the expected length or the first failure.\<close>

fun taken_chunks :: "u64 option \<Rightarrow> u64 \<Rightarrow> body_event list \<Rightarrow> bytes" where
  "taken_chunks expected n [] = []"
| "taken_chunks expected n (ev # evs) =
     (if expected = Some n then []
      else case ev of
        BodyChunk bs True \<Rightarrow> bs @ taken_chunks expected (saturating_add n (length bs)) evs
      | _ \<Rightarrow> [])"

text \<open>Whether the loop gets to the end of the body: the announced length or the end of the stream.\<close>

fun body_ends :: "u64 option \<Rightarrow> u64 \<Rightarrow> body_event list \<Rightarrow> bool" where
  "body_ends expected n [] \<longleftrightarrow> True"
| "body_ends expected n (ev # evs) \<longleftrightarrow>
     expected = Some n \<or>
     (case ev of BodyChunk bs True \<Rightarrow> body_ends expected (saturating_add n (length bs)) evs | _ \<Rightarrow> False)"

lemma expected_reached: "body_ends (Some n) n evs" "taken_chunks (Some n) n evs = []"
  by (cases evs; simp)+

lemma limit_below_max: "MAX_FRAME_BYTES < u64_max"
  by (simp add: MAX_FRAME_BYTES_def u64_max_def)

text \<open>What the loop keeps: the forwarded bytes, their number, and the captured copy.\<close>

definition captures :: "bool \<Rightarrow> bytes \<Rightarrow> forwarding \<Rightarrow> bool" where
  "captures capture body f \<longleftrightarrow>
     fw_length f = min (length body) u64_max \<and>
     (capture \<longrightarrow> fw_too_large f = (length body > MAX_FRAME_BYTES) \<and> fw_captured f = (if fw_too_large f then [] else body))"

lemma forward_chunk_captures:
  "captures capture body f \<Longrightarrow> captures capture (body @ bs) (forward_chunk capture bs f)"
  using limit_below_max by (auto simp: captures_def forward_chunk_def Let_def frame_limit saturating_add_def)

lemma forward_chunk_pump:
  "fw_pump (forward_chunk capture bs f) = (fw_pump f)\<lparr>pm_forwarded := pm_forwarded (fw_pump f) @ bs\<rparr>"
  by (simp add: forward_chunk_def Let_def)

lemma forward_chunk_length: "fw_length (forward_chunk capture bs f) = saturating_add (fw_length f) (length bs)"
  by (simp add: forward_chunk_def Let_def)

lemma forward_chunks_run:
  assumes "captures capture body f" "forward_chunks expected capture evs f = (finished, f')"
  shows "finished = body_ends expected (fw_length f) evs \<and>
    captures capture (body @ taken_chunks expected (fw_length f) evs) f' \<and>
    fw_pump f' = (if finished \<or> \<not> capture then id else count_drop)
      ((fw_pump f)\<lparr>pm_forwarded := pm_forwarded (fw_pump f) @ taken_chunks expected (fw_length f) evs\<rparr>)"
  using assms
proof (induction evs arbitrary: body f)
  case Nil
  then show ?case by simp
next
  case (Cons ev evs)
  show ?case
  proof (cases "expected = Some (fw_length f)")
    case True
    with Cons.prems show ?thesis by simp
  next
    case False
    note here = False
    show ?thesis
    proof (cases ev)
      case (BodyChunk bs sent)
      show ?thesis
      proof (cases sent)
        case True
        let ?f1 = "forward_chunk capture bs f"
        have c: "captures capture (body @ bs) ?f1" by (rule forward_chunk_captures[OF Cons.prems(1)])
        show ?thesis
        proof (cases "expected = Some (fw_length ?f1)")
          case True
          with Cons.prems(2) here \<open>sent\<close> BodyChunk have "finished" "f' = ?f1" by auto
          with c here \<open>sent\<close> BodyChunk True show ?thesis
            by (simp add: forward_chunk_pump forward_chunk_length expected_reached)
        next
          case False
          with Cons.prems(2) here \<open>sent\<close> BodyChunk have "forward_chunks expected capture evs ?f1 = (finished, f')" by simp
          from Cons.IH[OF c this] show ?thesis using here \<open>sent\<close> BodyChunk
            by (simp add: forward_chunk_pump forward_chunk_length)
        qed
      qed (use Cons.prems here BodyChunk in \<open>auto simp: count_if_def captures_def\<close>)
    qed (use Cons.prems here in \<open>auto simp: count_if_def captures_def\<close>)
  qed
qed

text \<open>
  C23: forwarding a request body.  The upstream side gets the chunks up to the announced length or the first
  failure, the same whether or not the exchange is captured.  Without capture nothing else changes; with
  capture the body is handed to the recorder under the sequence number reserved before its first byte,
  byte for byte as forwarded, when it was forwarded to its end, is within the frame limit and has
  the announced length, and otherwise exactly one loss is counted and nothing recorded.
\<close>

theorem http_request_recorded_or_counted:
  "let body = taken_chunks expected 0 evs;
       sent = p\<lparr>pm_forwarded := pm_forwarded p @ body\<rparr>;
       reserved = sent\<lparr>pm_seq := wrapping_inc (pm_seq p)\<rparr>
   in forward_request_body S clock capture expected evs p =
        (if \<not> capture then sent
         else if body_ends expected 0 evs \<and> length body \<le> MAX_FRAME_BYTES \<and> expected \<in> {None, Some (length body)}
         then record_message_at S reserved body ClientToServer (pm_seq p) (clock (pm_seq p))
         else count_drop reserved)"
proof -
  let ?body = "taken_chunks expected 0 evs" and ?f = "\<lambda>q. \<lparr>fw_pump = q, fw_captured = [], fw_too_large = False, fw_length = 0\<rparr>"
  let ?p0 = "if capture then p\<lparr>pm_seq := wrapping_inc (pm_seq p)\<rparr> else p"
  obtain finished f where f: "forward_chunks expected capture evs (?f ?p0) = (finished, f)" by fastforce
  have init: "captures capture [] (?f q)" for q by (simp add: captures_def MAX_FRAME_BYTES_def)
  note run = forward_chunks_run[OF init f, simplified]
  have result: "forward_request_body S clock capture expected evs p =
      (if \<not> finished \<or> \<not> capture then fw_pump f
       else if fw_too_large f then count_drop (fw_pump f)
       else if expected \<noteq> None \<and> expected \<noteq> Some (fw_length f) then count_drop (fw_pump f)
       else record_message_at S (fw_pump f) (fw_captured f) ClientToServer (pm_seq p) (clock (pm_seq p)))"
    using f by (cases capture) (simp_all add: forward_request_body_def reserve_capture_stamp_def)
  show ?thesis
  proof (cases "capture \<and> finished \<and> \<not> fw_too_large f")
    case True
    then have "length ?body \<le> MAX_FRAME_BYTES" "fw_length f = length ?body" "fw_captured f = ?body"
        "fw_pump f = p\<lparr>pm_forwarded := pm_forwarded p @ ?body, pm_seq := wrapping_inc (pm_seq p)\<rparr>" "body_ends expected 0 evs"
      using run limit_below_max by (simp_all add: captures_def)
    with True show ?thesis unfolding Let_def result by (cases expected) simp_all
  next
    case False
    with run show ?thesis unfolding Let_def result
      by (cases capture; cases "body_ends expected 0 evs") (auto simp: captures_def)
  qed
qed

section \<open>The response body\<close>

text \<open>What the sequential reading of a JSON body and of an event stream would record.\<close>

definition json_outcome :: "serde \<Rightarrow> (u64 \<Rightarrow> i64) \<Rightarrow> bytes \<Rightarrow> pump \<Rightarrow> pump" where
  "json_outcome S clock body p =
     (if body = [] then p
      else if length body > MAX_FRAME_BYTES then count_drop p
      else record_message S clock p body ServerToClient)"

definition stream_events :: "bytes \<Rightarrow> sse_event list" where
  "stream_events body = snd (sse_push sse_default body)"

definition record_all :: "serde \<Rightarrow> (u64 \<Rightarrow> i64) \<Rightarrow> sse_event list \<Rightarrow> pump \<Rightarrow> pump" where
  "record_all S clock es p = foldl (record_sse_event S clock) p es"

definition stream_outcome :: "serde \<Rightarrow> (u64 \<Rightarrow> i64) \<Rightarrow> bytes \<Rightarrow> pump \<Rightarrow> pump" where
  "stream_outcome S clock body p =
     record_all S clock (stream_events body @ snd (sse_finish (fst (sse_push sse_default body)))) p"

text \<open>The tap, before anything was marked: its byte count, and what \<open>complete\<close> means.\<close>

definition whole :: "response \<Rightarrow> bool" where
  "whole r \<longleftrightarrow> (rs_expected r = None \<and> rs_eof r) \<or> rs_expected r = Some (min (length (rs_delivered r)) u64_max)"

definition tap_ok :: "response \<Rightarrow> bool" where
  "tap_ok r \<longleftrightarrow> (\<not> rs_overflowed r \<longrightarrow>
     rs_observed r = min (length (rs_delivered r)) u64_max \<and>
     (rs_complete r \<longrightarrow> whole r) \<and>
     (\<not> rs_sender r \<longrightarrow> rs_complete r \<or> (rs_kind r = CaptureSse \<and> rs_expected r = None)))"

definition json_ok :: "serde \<Rightarrow> (u64 \<Rightarrow> i64) \<Rightarrow> pump \<Rightarrow> response \<Rightarrow> bool" where
  "json_ok S clock p r \<longleftrightarrow> rs_kind r = CaptureJson \<and>
     (if rs_receiver r
      then rs_pump r = (if rs_overflowed r then count_drop p else p) \<and>
           (\<not> rs_overflowed r \<longrightarrow> (\<exists>taken. rs_delivered r = taken @ concat (rs_queue r) \<and>
              rs_too_large r = (length taken > MAX_FRAME_BYTES) \<and>
              rs_captured r = (if rs_too_large r then [] else taken)))
      else \<not> rs_sender r \<and>
           (if rs_overflowed r then rs_pump r \<in> {count_drop p, count_drop (count_drop p)}
            else rs_pump r = json_outcome S clock (rs_delivered r) p))"

definition sse_state_ok :: "serde \<Rightarrow> (u64 \<Rightarrow> i64) \<Rightarrow> pump \<Rightarrow> response \<Rightarrow> bool" where
  "sse_state_ok S clock p r \<longleftrightarrow> rs_kind r = CaptureSse \<and>
     (if rs_overflowed r
      then \<exists>es. prefix es (stream_events (rs_delivered r)) \<and> rs_pump r = count_drop (record_all S clock es p)
      else if rs_receiver r
      then \<exists>taken. rs_delivered r = taken @ concat (rs_queue r) \<and> rs_decoder r = fst (sse_push sse_default taken) \<and>
             rs_pump r = record_all S clock (stream_events taken) p
      else \<not> rs_sender r \<and> rs_pump r = stream_outcome S clock (rs_delivered r) p)"

lemma stream_events_append:
  "stream_events (xs @ ys) = stream_events xs @ snd (sse_push (fst (sse_push sse_default xs)) ys)"
  "fst (sse_push sse_default (xs @ ys)) = fst (sse_push (fst (sse_push sse_default xs)) ys)"
  by (simp_all add: stream_events_def sse.push_append Let_def split: prod.splits)

lemma stream_events_prefix: "prefix (stream_events xs) (stream_events (xs @ ys))"
  by (simp add: stream_events_append)

lemma mark_fields [simp]:
  "rs_kind (mark_incomplete r) = rs_kind r" "rs_expected (mark_incomplete r) = rs_expected r"
  "rs_overflowed (mark_incomplete r)" "rs_receiver (mark_incomplete r) = rs_receiver r"
  "rs_sender (mark_incomplete r) = rs_sender r" "rs_delivered (mark_incomplete r) = rs_delivered r"
  "rs_queue (mark_incomplete r) = rs_queue r" "rs_eof (mark_incomplete r) = rs_eof r"
  "rs_too_large (mark_incomplete r) = rs_too_large r" "rs_captured (mark_incomplete r) = rs_captured r"
  "rs_pump (mark_incomplete r) = (if rs_overflowed r then rs_pump r else count_drop (rs_pump r))"
  by (simp_all add: mark_incomplete_def)

lemma mark_marked [simp]: "rs_overflowed r \<Longrightarrow> mark_incomplete r = r"
  by (simp add: mark_incomplete_def)

text \<open>Both kinds; a channel whose receiver is gone was left by the capture task for a reason.\<close>

definition response_ok :: "serde \<Rightarrow> (u64 \<Rightarrow> i64) \<Rightarrow> pump \<Rightarrow> response \<Rightarrow> bool" where
  "response_ok S clock p r \<longleftrightarrow> tap_ok r \<and> (json_ok S clock p r \<or> sse_state_ok S clock p r)"

lemma response_init_ok: "response_ok S clock p (response_init kind expected p)"
  by (cases kind) (auto simp: response_ok_def tap_ok_def json_ok_def sse_state_ok_def response_init_def whole_def
      stream_events_def record_all_def sse.push_nil)

lemma min_add_max: "saturating_add (min a u64_max) b = min (a + b) u64_max"
  by (simp add: saturating_add_def)

text \<open>Marking the response incomplete, once it was not: one loss is counted.\<close>

lemma mark_ok:
  assumes "response_ok S clock p r" "\<not> rs_overflowed r" "rs_sender r"
  shows "response_ok S clock p (mark_incomplete (r\<lparr>rs_observed := n, rs_complete := c\<rparr>))"
proof -
  have "tap_ok (mark_incomplete (r\<lparr>rs_observed := n, rs_complete := c\<rparr>))" by (simp add: tap_ok_def)
  moreover have "json_ok S clock p (mark_incomplete (r\<lparr>rs_observed := n, rs_complete := c\<rparr>))" if "json_ok S clock p r"
    using that assms(2,3) by (auto simp: json_ok_def split: if_splits)
  moreover have "sse_state_ok S clock p (mark_incomplete (r\<lparr>rs_observed := n, rs_complete := c\<rparr>))" if "sse_state_ok S clock p r"
  proof -
    from that assms(2,3) obtain taken where "rs_delivered r = taken @ concat (rs_queue r)"
        "rs_pump r = record_all S clock (stream_events taken) p"
      by (auto simp: sse_state_ok_def split: if_splits)
    moreover have "prefix (stream_events taken) (stream_events (taken @ concat (rs_queue r)))" by (rule stream_events_prefix)
    ultimately show ?thesis using that assms(2) by (auto simp: sse_state_ok_def)
  qed
  ultimately show ?thesis using assms(1) by (auto simp: response_ok_def)
qed

lemma deliver_overflowed:
  assumes "response_ok S clock p r" "rs_overflowed r" "rs_sender r"
  shows "response_ok S clock p (r\<lparr>rs_delivered := rs_delivered r @ bs\<rparr>)"
proof -
  have "sse_state_ok S clock p (r\<lparr>rs_delivered := rs_delivered r @ bs\<rparr>)" if "sse_state_ok S clock p r"
    using that assms(2) prefix_order.trans[OF _ stream_events_prefix, of _ "rs_delivered r" bs] by (auto simp: sse_state_ok_def)
  with assms show ?thesis by (auto simp: response_ok_def tap_ok_def json_ok_def split: if_splits)
qed

text \<open>A chunk that is delivered and queued.\<close>

lemma queue_ok:
  assumes "response_ok S clock p r" "\<not> rs_overflowed r" "rs_sender r" "\<not> rs_eof r" "rs_receiver r"
    "n = saturating_add (rs_observed r) (length bs)" "rs_expected r = None \<or> (\<exists>e. rs_expected r = Some e \<and> c = (n = e))"
    "rs_expected r = None \<Longrightarrow> c = rs_complete r"
  shows "response_ok S clock p (r\<lparr>rs_delivered := rs_delivered r @ bs, rs_observed := n, rs_complete := c,
     rs_queue := rs_queue r @ [bs]\<rparr>)"
proof -
  let ?r = "r\<lparr>rs_delivered := rs_delivered r @ bs, rs_observed := n, rs_complete := c, rs_queue := rs_queue r @ [bs]\<rparr>"
  have t: "tap_ok r" using assms(1) by (simp add: response_ok_def)
  then have n: "n = min (length (rs_delivered r @ bs)) u64_max"
    using assms(2,6) by (simp add: tap_ok_def min_add_max)
  have "tap_ok ?r"
    using t assms(2-4,7,8) n by (auto simp: tap_ok_def whole_def)
  moreover have "json_ok S clock p ?r" if "json_ok S clock p r"
    using that assms(2,5) by (auto simp: json_ok_def)
  moreover have "sse_state_ok S clock p ?r" if "sse_state_ok S clock p r"
    using that assms(2,5) by (auto simp: sse_state_ok_def)
  ultimately show ?thesis using assms(1) by (auto simp: response_ok_def)
qed

lemma receiver_present:
  "response_ok S clock p r \<Longrightarrow> \<not> rs_overflowed r \<Longrightarrow> rs_sender r \<Longrightarrow> rs_receiver r"
  by (auto simp: response_ok_def json_ok_def sse_state_ok_def split: if_splits)

lemma marked_delivery:
  assumes "response_ok S clock p r" "\<not> rs_overflowed r" "rs_sender r"
  shows "response_ok S clock p (mark_incomplete (r\<lparr>rs_delivered := rs_delivered r @ bs, rs_observed := n, rs_complete := c\<rparr>))"
proof -
  have eq: "mark_incomplete (r\<lparr>rs_delivered := rs_delivered r @ bs, rs_observed := n, rs_complete := c\<rparr>)
      = (mark_incomplete (r\<lparr>rs_observed := n, rs_complete := c\<rparr>))\<lparr>rs_delivered := rs_delivered (mark_incomplete
          (r\<lparr>rs_observed := n, rs_complete := c\<rparr>)) @ bs\<rparr>"
    using assms(2) by (simp add: mark_incomplete_def)
  show ?thesis unfolding eq
    by (rule deliver_overflowed[OF mark_ok[OF assms]]) (use assms(3) in simp_all)
qed

lemma queue_overflowed:
  "response_ok S clock p r \<Longrightarrow> rs_overflowed r \<Longrightarrow> response_ok S clock p (r\<lparr>rs_queue := q\<rparr>)"
  by (auto simp: response_ok_def tap_ok_def json_ok_def sse_state_ok_def split: if_splits)

lemma send_overflowed:
  "response_ok S clock p r \<Longrightarrow> rs_overflowed r \<Longrightarrow> response_ok S clock p (capture_send bs r)"
  by (simp add: capture_send_def queue_overflowed)

lemma chunk_ok:
  assumes "response_ok S clock p r" "rs_sender r" "\<not> rs_eof r"
  shows "response_ok S clock p (observe_chunk bs (r\<lparr>rs_delivered := rs_delivered r @ bs\<rparr>))"
proof (cases "rs_overflowed r")
  case True
  then show ?thesis using deliver_overflowed[OF assms(1) True assms(2)] by (simp add: observe_chunk_def)
next
  case False
  let ?n = "saturating_add (rs_observed r) (length bs)"
  let ?r = "\<lambda>c. r\<lparr>rs_delivered := rs_delivered r @ bs, rs_observed := ?n, rs_complete := c\<rparr>"
  have rec: "rs_receiver r" by (rule receiver_present[OF assms(1) False assms(2)])
  have send: "response_ok S clock p (capture_send bs (?r c))"
    if "rs_expected r = None \<or> (\<exists>e. rs_expected r = Some e \<and> c = (?n = e))" "rs_expected r = None \<Longrightarrow> c = rs_complete r" for c
    using queue_ok[OF assms(1) False assms(2,3) rec refl that] marked_delivery[OF assms(1) False assms(2), where bs = bs and n = ?n and c = c]
    by (simp add: capture_send_def)
  show ?thesis
  proof (cases "rs_expected r")
    case None
    with False have "observe_chunk bs (r\<lparr>rs_delivered := rs_delivered r @ bs\<rparr>) = capture_send bs (?r (rs_complete r))"
      by (simp add: observe_chunk_def)
    with send[of "rs_complete r"] None show ?thesis by simp
  next
    case (Some e)
    show ?thesis
    proof (cases "?n > e")
      case True
      with Some False have "observe_chunk bs (r\<lparr>rs_delivered := rs_delivered r @ bs\<rparr>)
          = capture_send bs (mark_incomplete (?r (?n = e)))"
        by (simp add: observe_chunk_def)
      with send_overflowed[OF marked_delivery[OF assms(1) False assms(2)]] show ?thesis by simp
    next
      case False
      with Some \<open>\<not> rs_overflowed r\<close> have "observe_chunk bs (r\<lparr>rs_delivered := rs_delivered r @ bs\<rparr>) = capture_send bs (?r (?n = e))"
        by (simp add: observe_chunk_def)
      with send[of "?n = e"] Some show ?thesis by simp
    qed
  qed
qed

lemma same_counters: "r\<lparr>rs_observed := rs_observed r, rs_complete := rs_complete r\<rparr> = r"
  by simp

lemma error_ok: "response_ok S clock p r \<Longrightarrow> rs_sender r \<Longrightarrow> response_ok S clock p (observe_error r)"
  using mark_ok[of S clock p r, where n = "rs_observed r" and c = "rs_complete r"] by (simp add: observe_error_def)

lemma end_ok:
  assumes "response_ok S clock p r" "rs_sender r"
  shows "response_ok S clock p (observe_end r)"
proof -
  have "tap_ok (observe_end r)"
    using assms by (auto simp: response_ok_def tap_ok_def observe_end_def whole_def split: option.splits)
  then show ?thesis using assms
    by (auto simp: response_ok_def json_ok_def sse_state_ok_def observe_end_def split: if_splits)
qed

lemma drop_ok:
  assumes "response_ok S clock p r" "rs_sender r"
  shows "response_ok S clock p (drop_tap r)"
proof -
  have close: "response_ok S clock p (q\<lparr>rs_sender := False\<rparr>)"
    if "response_ok S clock p q" "rs_sender q" "rs_overflowed q \<or> rs_complete q \<or> (rs_kind q = CaptureSse \<and> rs_expected q = None)" for q
    using that by (auto simp: response_ok_def tap_ok_def json_ok_def sse_state_ok_def whole_def split: if_splits)
  show ?thesis
  proof (cases "\<not> rs_complete r \<and> (rs_kind r \<noteq> CaptureSse \<or> rs_expected r \<noteq> None)")
    case True
    have m: "response_ok S clock p (mark_incomplete r)"
      using mark_ok[OF assms(1) _ assms(2), where n = "rs_observed r" and c = "rs_complete r"] assms(1) by (cases "rs_overflowed r") simp_all
    from True have "drop_tap r = (mark_incomplete r)\<lparr>rs_sender := False\<rparr>" by (simp add: drop_tap_def)
    with close[OF m] assms(2) show ?thesis by simp
  next
    case False
    then have "drop_tap r = r\<lparr>rs_sender := False\<rparr>" by (auto simp: drop_tap_def)
    with close[OF assms] False show ?thesis by auto
  qed
qed

lemma json_turn_ok:
  assumes "json_ok S clock p r" "tap_ok r"
  shows "json_ok S clock p (capture_turn S clock r) \<and> tap_ok (capture_turn S clock r)"
proof (cases "rs_receiver r")
  case False
  then show ?thesis using assms by (simp add: capture_turn_def)
next
  case True
  have kind: "rs_kind r = CaptureJson" using assms(1) by (simp add: json_ok_def)
  show ?thesis
  proof (cases "rs_queue r")
    case Nil
    show ?thesis
    proof (cases "rs_sender r")
      case False
      have "json_ok S clock p ((capture_json_end S clock r)\<lparr>rs_receiver := False\<rparr>)"
        using assms(1) True False Nil
        by (auto simp: json_ok_def capture_json_end_def json_outcome_def split: if_splits)
      moreover have "tap_ok ((capture_json_end S clock r)\<lparr>rs_receiver := False\<rparr>)"
        using assms(2) by (auto simp: tap_ok_def whole_def capture_json_end_def)
      ultimately show ?thesis using True Nil False kind by (simp add: capture_turn_def)
    qed (use assms True Nil in \<open>simp add: capture_turn_def\<close>)
  next
    case (Cons bs queue)
    let ?r = "capture_json_chunk bs (r\<lparr>rs_queue := queue\<rparr>)"
    have "json_ok S clock p ?r"
    proof (cases "rs_overflowed r")
      case ov: True
      then show ?thesis using assms(1) True by (simp add: json_ok_def capture_json_chunk_def)
    next
      case False
      with assms(1) True obtain taken where "rs_delivered r = (taken @ bs) @ concat queue"
          "rs_too_large r = (length taken > MAX_FRAME_BYTES)" "rs_captured r = (if rs_too_large r then [] else taken)"
          "rs_pump r = p"
        using Cons by (auto simp: json_ok_def)
      moreover from this have "rs_too_large ?r = (length (taken @ bs) > MAX_FRAME_BYTES)"
          "rs_captured ?r = (if rs_too_large ?r then [] else taken @ bs)" "rs_pump ?r = p" "rs_delivered ?r = rs_delivered r"
          "rs_queue ?r = queue" "rs_overflowed ?r = rs_overflowed r" "rs_receiver ?r = rs_receiver r" "rs_kind ?r = rs_kind r"
        using False by (auto simp: capture_json_chunk_def frame_limit)
      ultimately show ?thesis using True kind False by (auto simp: json_ok_def)
    qed
    moreover have "tap_ok ?r" using assms(2) by (auto simp: tap_ok_def whole_def capture_json_chunk_def)
    ultimately show ?thesis using True Cons kind by (simp add: capture_turn_def)
  qed
qed

lemma record_all_append: "record_all S clock (xs @ ys) p = record_all S clock ys (record_all S clock xs p)"
  by (simp add: record_all_def)

lemma sse_turn_ok:
  assumes "sse_state_ok S clock p r" "tap_ok r"
  shows "sse_state_ok S clock p (capture_turn S clock r) \<and> tap_ok (capture_turn S clock r)"
proof (cases "rs_receiver r")
  case False
  then show ?thesis using assms by (simp add: capture_turn_def)
next
  case True
  have kind: "rs_kind r = CaptureSse" using assms(1) by (simp add: sse_state_ok_def)
  show ?thesis
  proof (cases "rs_overflowed r")
    case ov: True
    have "sse_state_ok S clock p (r\<lparr>rs_queue := q, rs_receiver := b\<rparr>) \<and> tap_ok (r\<lparr>rs_queue := q, rs_receiver := b\<rparr>)"
        "sse_state_ok S clock p (r\<lparr>rs_receiver := b\<rparr>) \<and> tap_ok (r\<lparr>rs_receiver := b\<rparr>)" for q b
      using assms ov by (simp_all add: sse_state_ok_def tap_ok_def)
    then show ?thesis using assms ov True kind by (simp add: capture_turn_def split: list.split)
  next
    case False
    with assms(1) True obtain taken where t: "rs_delivered r = taken @ concat (rs_queue r)"
        "rs_decoder r = fst (sse_push sse_default taken)" "rs_pump r = record_all S clock (stream_events taken) p"
      by (auto simp: sse_state_ok_def)
    show ?thesis
    proof (cases "rs_queue r")
      case Nil
      show ?thesis
      proof (cases "rs_sender r")
        case closed: False
        then have "capture_turn S clock r = (record_events S clock (sse_finish (rs_decoder r)) r)\<lparr>rs_receiver := False\<rparr>"
          using True Nil kind False by (simp add: capture_turn_def)
        moreover have "sse_state_ok S clock p \<dots>"
          using t Nil kind False closed
          by (simp add: sse_state_ok_def record_events_def stream_outcome_def record_all_append)
            (simp add: record_all_def)
        moreover have "tap_ok ((record_events S clock (sse_finish (rs_decoder r)) r)\<lparr>rs_receiver := False\<rparr>)"
          using assms(2) by (simp add: tap_ok_def whole_def record_events_def)
        ultimately show ?thesis by simp
      qed (use assms True Nil in \<open>simp add: capture_turn_def\<close>)
    next
      case (Cons bs queue)
      let ?r = "record_events S clock (sse_push (rs_decoder r) bs) (r\<lparr>rs_queue := queue\<rparr>)"
      have "rs_delivered ?r = (taken @ bs) @ concat (rs_queue ?r)" "rs_decoder ?r = fst (sse_push sse_default (taken @ bs))"
          "rs_pump ?r = record_all S clock (stream_events (taken @ bs)) p"
        using t Cons by (simp_all add: record_events_def stream_events_append record_all_append)
          (simp add: record_all_def)
      moreover have "rs_overflowed ?r = rs_overflowed r" "rs_receiver ?r = rs_receiver r" "rs_kind ?r = rs_kind r"
        by (simp_all add: record_events_def)
      ultimately have "sse_state_ok S clock p ?r" using True kind False unfolding sse_state_ok_def by metis
      moreover have "tap_ok ?r" using assms(2) by (simp add: tap_ok_def whole_def record_events_def)
      ultimately show ?thesis using True Cons kind False by (simp add: capture_turn_def)
    qed
  qed
qed

lemma response_step_ok: "response_ok S clock p r \<Longrightarrow> response_ok S clock p (response_step S clock a r)"
  using json_turn_ok[of S clock p r] sse_turn_ok[of S clock p r]
  by (cases a) (auto simp: chunk_ok error_ok end_ok drop_ok response_ok_def[of S clock p "capture_turn S clock r"]
      response_ok_def[of S clock p r])

lemma response_run_ok: "response_ok S clock p r \<Longrightarrow> response_ok S clock p (response_run S clock acts r)"
  by (induction acts arbitrary: r) (simp_all add: response_run_def response_step_ok)

lemma capture_turn_fixed:
  "rs_kind (capture_turn S clock r) = rs_kind r \<and> rs_expected (capture_turn S clock r) = rs_expected r"
  by (auto simp: capture_turn_def capture_json_chunk_def capture_json_end_def record_events_def Let_def
      split: list.splits capture_kind.splits)

lemma capture_send_fixed [simp]:
  "rs_kind (capture_send bs r) = rs_kind r" "rs_expected (capture_send bs r) = rs_expected r"
  by (simp_all add: capture_send_def)

lemma response_step_fixed:
  "rs_kind (response_step S clock a r) = rs_kind r \<and> rs_expected (response_step S clock a r) = rs_expected r"
  by (cases a) (auto simp: observe_chunk_def observe_error_def observe_end_def drop_tap_def Let_def capture_turn_fixed
      split: option.splits)

lemma response_run_fixed:
  "rs_kind (response_run S clock acts r) = rs_kind r \<and> rs_expected (response_run S clock acts r) = rs_expected r"
  by (induction acts arbitrary: r) (simp_all add: response_run_def response_step_fixed)

text \<open>
  C2: a captured response, under any interleaving of the client's polls, upstream errors, an early end of
  the client's connection and the turns of the capture task behind its bounded channel.  When the task
  has returned and nothing was marked incomplete, the client got the whole body (for an event stream
  without an announced length, as much as it read) and the records are those of a sequential reading
  of exactly the delivered bytes: a JSON body recorded once or counted as too large, a stream event by event.
  Otherwise a loss was counted, no JSON body was recorded, and of a stream only a prefix of its events.
\<close>

theorem http_response_recorded_or_counted:
  assumes "response_done (response_run S clock acts (response_init kind expected p))"
  shows "let r = response_run S clock acts (response_init kind expected p)
    in if \<not> rs_overflowed r
       then (kind = CaptureJson \<or> expected \<noteq> None \<longrightarrow> whole r) \<and>
            rs_pump r = (case kind of CaptureJson \<Rightarrow> json_outcome S clock (rs_delivered r) p
                         | CaptureSse \<Rightarrow> stream_outcome S clock (rs_delivered r) p)
       else case kind of
              CaptureJson \<Rightarrow> rs_pump r \<in> {count_drop p, count_drop (count_drop p)}
            | CaptureSse \<Rightarrow> \<exists>es. prefix es (stream_events (rs_delivered r)) \<and> rs_pump r = count_drop (record_all S clock es p)"
proof -
  let ?r = "response_run S clock acts (response_init kind expected p)"
  have fixed: "rs_kind ?r = kind" "rs_expected ?r = expected"
    by (simp_all add: response_run_fixed) (simp_all add: response_init_def)
  have ok: "response_ok S clock p ?r" by (rule response_run_ok[OF response_init_ok])
  have gone: "\<not> rs_sender ?r" "\<not> rs_receiver ?r" using assms by (simp_all add: response_done_def)
  have w: "whole ?r" if "\<not> rs_overflowed ?r" "kind = CaptureJson \<or> expected \<noteq> None"
    using ok that gone fixed by (auto simp: response_ok_def tap_ok_def)
  show ?thesis
  proof (cases kind)
    case CaptureJson
    then have "json_ok S clock p ?r" using ok fixed(1) by (auto simp: response_ok_def sse_state_ok_def)
    with CaptureJson w gone show ?thesis by (simp add: json_ok_def Let_def split: if_splits)
  next
    case CaptureSse
    then have "sse_state_ok S clock p ?r" using ok fixed(1) by (auto simp: response_ok_def json_ok_def)
    with CaptureSse w gone show ?thesis by (simp add: sse_state_ok_def Let_def split: if_splits)
  qed
qed

definition sample_schedule :: "response_action list" where
  "sample_schedule = [UpstreamChunk ''nu'', CaptureTurn, UpstreamChunk ''ll'', UpstreamEnd, TapDropped, CaptureTurn, CaptureTurn]"

definition sample_pump :: pump where
  "sample_pump = \<lparr>pm_budget = budget_new 4096, pm_channel = \<lparr>ch_queue = [], ch_capacity = 8, ch_open = True\<rparr>,
     pm_seq = 0, pm_dropped = 0, pm_forwarded = []\<rparr>"

lemma http_response_recorded_or_counted_witness:
  "rs_pump (response_run sample_serde (\<lambda>_. 0) sample_schedule (response_init CaptureJson (Some 4) sample_pump))
     = record_message sample_serde (\<lambda>_. 0) sample_pump ''null'' ServerToClient"
proof -
  let ?r = "response_run sample_serde (\<lambda>_. 0) sample_schedule (response_init CaptureJson (Some 4) sample_pump)"
  have "response_done ?r \<and> \<not> rs_overflowed ?r \<and> rs_delivered ?r = ''null''"
    by (simp add: response_run_def sample_schedule_def response_init_def observe_chunk_def capture_send_def observe_end_def
        drop_tap_def capture_turn_def capture_json_chunk_def capture_json_end_def RESPONSE_CAPTURE_CHANNEL_CAPACITY_def
        frame_limit saturating_add_exact u64_max_def MAX_FRAME_BYTES_def response_done_def)
  with http_response_recorded_or_counted[of sample_serde "\<lambda>_. 0" sample_schedule CaptureJson "Some 4" sample_pump]
  show ?thesis by (simp add: Let_def json_outcome_def MAX_FRAME_BYTES_def)
qed

section \<open>Headers and addresses\<close>

text \<open>
  Every header that is not for one hop is forwarded with its value, in order; none of those named by a
  \<open>Connection\<close> header is.
\<close>

lemma end_to_end_headers_exact:
  "subseq (end_to_end_headers cfg headers up) headers \<and>
   ((name, v) \<in> set (end_to_end_headers cfg headers up) \<longleftrightarrow>
      (name, v) \<in> set headers \<and> \<not> is_hop_by_hop_header name \<and> name \<notin> connection_named cfg headers \<and> \<not> (up \<and> name = ''host''))"
  by (auto simp: end_to_end_headers_def)

text \<open>
  The guard looks for the literal segment \<open>..\<close> only: the percent-encoded one passes to the setter of the
  \<open>url\<close> crate, which by the URL standard resolves it as a parent segment too.
\<close>

lemma encoded_parent_segment_accepted:
  "ua_path U base = ''/mcp'' \<Longrightarrow>
   target_url U base ''/%2e%2e/admin'' None = Inr (ua_set_query U None (ua_set_path U ''/mcp/%2e%2e/admin'' base))"
  by (simp add: target_url_def target_path_def trim_end_slashes_def trim_start_slashes_def)

end
