(* ===== verification/HttpReplay.thy ===== *)
theory HttpReplay
  imports HttpRelay Plan Mtrace
begin

text \<open>
  The requests of \<open>crates/mcptracer-proxy/src/commands/replay_http.rs\<close>: the headers of a replayed request,
  the \<open>Mcp-Param-*\<close> headers derived from the captured tool schemas, and the retry of a call whose answer
  asked for more input.  The texts of errors are abridged.
\<close>

section \<open>Header values\<close>

text \<open>What is used of the crates \<open>http\<close> and \<open>base64\<close>.\<close>

record http_codec =
  hk_header_name :: "string \<Rightarrow> string option"
  hk_header_value :: "string \<Rightarrow> bytes option"
  hk_base64 :: "bytes \<Rightarrow> string"

definition RESERVED_HEADERS :: "string list" where
  "RESERVED_HEADERS =
     [''host'', ''content-type'', ''content-length'', ''mcp-session-id'', ''mcp-protocol-version'', ''mcp-method'',
      ''mcp-name'', ''connection'', ''transfer-encoding'']"

definition parse_header :: "string \<Rightarrow> string + string \<times> string" where
  "parse_header raw =
     (case split_once (CHR '':'') raw of
        None \<Rightarrow> Inl ''must be in the form Name: value''
      | Some (raw_name, raw_value) \<Rightarrow>
          let name = trim raw_name; value = trim raw_value
          in if name = [] then Inl ''header name cannot be empty''
             else if map to_ascii_lowercase name \<in> set RESERVED_HEADERS
             then Inl (''--header cannot set the reserved header '' @ name)
             else Inr (name, value))"

text \<open>\<open>HeaderMap::insert\<close> replaces every value of the name, \<open>append\<close> adds one.\<close>

definition header_insert :: "string \<Rightarrow> bytes \<Rightarrow> header_map \<Rightarrow> header_map" where
  "header_insert name v headers = filter (\<lambda>(n, _). n \<noteq> name) headers @ [(name, v)]"

definition starts_ends :: "string \<Rightarrow> bool" where
  "starts_ends v \<longleftrightarrow> prefix ''=?base64?'' v \<and> suffix ''?='' v"

definition is_plain_header_byte :: "char \<Rightarrow> bool" where
  "is_plain_header_byte c \<longleftrightarrow> (0x20 \<le> (of_char c :: nat) \<and> of_char c \<le> (0x7e :: nat)) \<or> c = CHR 0x09"

definition is_blank :: "char \<Rightarrow> bool" where
  "is_blank c \<longleftrightarrow> c = CHR '' '' \<or> c = CHR 0x09"

definition encode_mcp_header_value :: "http_codec \<Rightarrow> string \<Rightarrow> string" where
  "encode_mcp_header_value K v =
     (let plain = v \<noteq> [] \<and> list_all is_plain_header_byte v \<and> \<not> is_blank (hd v) \<and> \<not> is_blank (last v) \<and> \<not> starts_ends v
      in if plain then v else ''=?base64?'' @ hk_base64 K v @ ''?='')"

section \<open>Modern requests\<close>

definition modern_protocol_version :: "json \<Rightarrow> string option" where
  "modern_protocol_version request =
     (let key = ''io.modelcontextprotocol/protocolVersion'';
          in_params = Option.bind (json_get request ''params'') (\<lambda>params.
            Option.bind (json_get params ''_meta'') (\<lambda>meta. json_get meta key))
      in Option.bind
           (case in_params of
              Some v \<Rightarrow> Some v
            | None \<Rightarrow> Option.bind (json_get request ''_meta'') (\<lambda>meta. json_get meta key))
           as_str)"

definition request_method :: "json \<Rightarrow> string option" where
  "request_method request = Option.bind (json_get request ''method'') as_str"

definition required_name_field :: "string \<Rightarrow> string option" where
  "required_name_field m =
     (if m \<in> {''tools/call'', ''prompts/get''} then Some ''name''
      else if m = ''resources/read'' then Some ''uri''
      else None)"

definition modern_tool_name :: "json \<Rightarrow> string + string option" where
  "modern_tool_name request =
     (if modern_protocol_version request = None \<or> request_method request \<noteq> Some ''tools/call'' then Inr None
      else case Option.bind (json_get request ''params'') (\<lambda>params. Option.bind (json_get params ''name'') as_str) of
        Some name \<Rightarrow> Inr (Some name)
      | None \<Rightarrow> Inl ''modern MCP tools/call request is missing string params.name'')"

section \<open>Header annotations of a tool schema\<close>

datatype tool_param_type = ParamString | ParamInteger | ParamBoolean

record tool_header_binding =
  th_header_name :: string
  th_path :: "string list"
  th_value_type :: tool_param_type

abbreviation x_mcp_header :: string where
  "x_mcp_header \<equiv> ''x-mcp-header''"

fun contains_header_annotation :: "json \<Rightarrow> bool" where
  "contains_header_annotation (JObject members) \<longleftrightarrow>
     list_ex (\<lambda>(k, _). k = x_mcp_header) members \<or> list_ex (\<lambda>(_, v). contains_header_annotation v) members"
| "contains_header_annotation (JArray vs) \<longleftrightarrow> list_ex contains_header_annotation vs"
| "contains_header_annotation _ \<longleftrightarrow> False"

definition is_http_token :: "string \<Rightarrow> bool" where
  "is_http_token v \<longleftrightarrow> list_all (\<lambda>c. is_ascii_alphanumeric c \<or> c \<in> set ''!#$%&*+-.^_|~'' \<or> c = CHR 0x27 \<or> c = CHR 0x60) v"

definition param_type_of :: "string option \<Rightarrow> string + tool_param_type" where
  "param_type_of t =
     (case t of
        None \<Rightarrow> Inl ''x-mcp-header property must declare type string, integer, or boolean''
      | Some name \<Rightarrow>
          if name = ''string'' then Inr ParamString
          else if name = ''integer'' then Inr ParamInteger
          else if name = ''boolean'' then Inr ParamBoolean
          else Inl ''x-mcp-header property has an unsupported type'')"

type_synonym binding_state = "tool_header_binding list \<times> string set"

text \<open>The annotation of one object, if it has one.\<close>

definition bind_annotation ::
  "http_codec \<Rightarrow> string list \<Rightarrow> bool \<Rightarrow> (string \<times> json) list \<Rightarrow> binding_state \<Rightarrow> string + binding_state" where
  "bind_annotation K path allowed schema st =
     (case bt_get schema x_mcp_header of
        None \<Rightarrow> Inr st
      | Some value \<Rightarrow>
          if \<not> allowed
          then Inl ''x-mcp-header is allowed only on a primitive property reached through inputSchema.properties''
          else case as_str value of
            None \<Rightarrow> Inl ''x-mcp-header must be a non-empty HTTP token string''
          | Some annotation \<Rightarrow>
              if annotation = [] \<or> \<not> is_http_token annotation then Inl ''x-mcp-header must be a non-empty HTTP token string''
              else bind_result (param_type_of (Option.bind (bt_get schema ''type'') as_str)) (\<lambda>value_type.
                case hk_header_name K (''mcp-param-'' @ annotation) of
                  None \<Rightarrow> Inl ''x-mcp-header does not form a valid Mcp-Param header name''
                | Some header_name \<Rightarrow>
                    let seen_name = map to_ascii_lowercase header_name
                    in if seen_name \<in> snd st
                       then Inl ''x-mcp-header is duplicated case-insensitively in one inputSchema''
                       else Inr (fst st @ [\<lparr>th_header_name = header_name, th_path = path, th_value_type = value_type\<rparr>],
                                 insert seen_name (snd st))))"

lemma members_size: "size_list (\<lambda>e. size (snd e)) ms \<le> size_list (size_prod (\<lambda>_. 0) size) ms"
  by (induction ms) auto

function (sequential) visit_value ::
    "http_codec \<Rightarrow> string list \<Rightarrow> bool \<Rightarrow> bool \<Rightarrow> json \<Rightarrow> binding_state \<Rightarrow> string + binding_state"
  and visit_members ::
    "http_codec \<Rightarrow> string list \<Rightarrow> bool \<Rightarrow> (string \<times> json) list \<Rightarrow> binding_state \<Rightarrow> string + binding_state"
  and visit_properties ::
    "http_codec \<Rightarrow> string list \<Rightarrow> bool \<Rightarrow> (string \<times> json) list \<Rightarrow> binding_state \<Rightarrow> string + binding_state"
  and visit_items :: "http_codec \<Rightarrow> string list \<Rightarrow> json list \<Rightarrow> binding_state \<Rightarrow> string + binding_state" where
  "visit_value K path properties_only is_property (JObject schema) st =
     bind_result (bind_annotation K path (properties_only \<and> is_property) schema st) (\<lambda>st1.
     visit_members K path properties_only schema st1)"
| "visit_value K path properties_only is_property (JArray vs) st = visit_items K path vs st"
| "visit_value K path properties_only is_property v st = Inr st"
| "visit_members K path properties_only [] st = Inr st"
| "visit_members K path properties_only ((keyword, value) # members) st =
     bind_result
       (if keyword = x_mcp_header then Inr st
        else if keyword = ''properties''
        then (case value of
                JObject properties \<Rightarrow> visit_properties K path properties_only properties st
              | _ \<Rightarrow> if contains_header_annotation value then Inl ''inputSchema.properties must be an object'' else Inr st)
        else if contains_header_annotation value then visit_value K path False False value st
        else Inr st)
       (\<lambda>st1. visit_members K path properties_only members st1)"
| "visit_properties K path properties_only [] st = Inr st"
| "visit_properties K path properties_only ((name, child) # properties) st =
     bind_result (visit_value K (path @ [name]) properties_only True child st) (\<lambda>st1.
     visit_properties K path properties_only properties st1)"
| "visit_items K path [] st = Inr st"
| "visit_items K path (v # vs) st =
     bind_result (visit_value K path False False v st) (\<lambda>st1. visit_items K path vs st1)"
  by pat_completeness auto

termination
  by (relation "measure (case_sum
      (case_sum (\<lambda>(K, path, po, ip, v, st). size v) (\<lambda>(K, path, po, ms, st). size_list (\<lambda>e. size (snd e)) ms))
      (case_sum (\<lambda>(K, path, po, ps, st). size_list (\<lambda>e. size (snd e)) ps) (\<lambda>(K, path, vs, st). size_list size vs)))")
    (auto simp: less_Suc_eq_le intro: members_size le_SucI trans_le_add1[OF members_size])

definition collect_tool_header_bindings :: "http_codec \<Rightarrow> json \<Rightarrow> string + tool_header_binding list" where
  "collect_tool_header_bindings K schema =
     (case as_object schema of
        None \<Rightarrow> Inl ''inputSchema must be a JSON object''
      | Some members \<Rightarrow> map_sum id fst (visit_value K [] True False (JObject members) ([], {})))"

section \<open>The schemas captured before a call\<close>

text \<open>The last request with the response's id before it was \<open>tools/list\<close>.\<close>

definition is_tools_list_response :: "stored_message list \<Rightarrow> nat \<Rightarrow> bool" where
  "is_tools_list_response messages response_index =
     (case msg_rpc_id (messages ! response_index) of
        None \<Rightarrow> False
      | Some rpc_id \<Rightarrow>
          (case List.find (\<lambda>m. msg_direction m = ''c2s'' \<and> msg_rpc_id m = Some rpc_id) (rev (take response_index messages)) of
             None \<Rightarrow> False
           | Some request \<Rightarrow> msg_kind request = ''request'' \<and> msg_method request = Some ''tools/list''))"

definition bindings_in_listing :: "http_codec \<Rightarrow> string \<Rightarrow> json list \<Rightarrow> string + tool_header_binding list" where
  "bindings_in_listing K tool_name tools =
     (case List.find (\<lambda>t. Option.bind (json_get t ''name'') as_str = Some tool_name) tools of
        None \<Rightarrow> Inl ''the latest captured tools/list response does not define the tool''
      | Some tool \<Rightarrow>
          (case json_get tool ''inputSchema'' of
             None \<Rightarrow> Inr []
           | Some schema \<Rightarrow> collect_tool_header_bindings K schema))"

text \<open>The search goes from the last message to the first: \<open>index\<close> messages are left.\<close>

fun bindings_before ::
  "serde \<Rightarrow> http_codec \<Rightarrow> stored_message list \<Rightarrow> u64 \<Rightarrow> string \<Rightarrow> nat \<Rightarrow> string + tool_header_binding list" where
  "bindings_before S K messages call_seq tool_name 0 =
     Inl ''no prior captured tools/list definition is available to derive Mcp-Param-* headers''"
| "bindings_before S K messages call_seq tool_name (Suc index) =
     (let response = messages ! index
      in if msg_seq response \<ge> call_seq \<or> msg_direction response \<noteq> ''s2c'' \<or> \<not> is_tools_list_response messages index
         then bindings_before S K messages call_seq tool_name index
         else case parse_json S (msg_payload response) of
           None \<Rightarrow> Inl ''captured tools/list response is not valid JSON''
         | Some payload \<Rightarrow>
             (case Option.bind (json_get payload ''result'') (\<lambda>result. Option.bind (json_get result ''tools'') as_array) of
                None \<Rightarrow> bindings_before S K messages call_seq tool_name index
              | Some tools \<Rightarrow> bindings_in_listing K tool_name tools))"

definition tool_header_bindings_at ::
  "serde \<Rightarrow> http_codec \<Rightarrow> stored_message list \<Rightarrow> u64 \<Rightarrow> string \<Rightarrow> string + tool_header_binding list" where
  "tool_header_bindings_at S K messages call_seq tool_name =
     bindings_before S K messages call_seq tool_name (length messages)"

section \<open>Request headers\<close>

fun value_at_property_path :: "json \<Rightarrow> string list \<Rightarrow> json option" where
  "value_at_property_path v [] = Some v"
| "value_at_property_path v (property # path) =
     Option.bind (json_get v property) (\<lambda>child. value_at_property_path child path)"

definition MAX_SAFE_INTEGER :: int where
  "MAX_SAFE_INTEGER = 9007199254740991"

definition safe_integer :: "json \<Rightarrow> i64 option" where
  "safe_integer v =
     (let integer = (case as_i64 v of
            Some i \<Rightarrow> Some i
          | None \<Rightarrow> Option.bind (as_u64 v) (\<lambda>n. if int n \<le> i64_max then Some (int n) else None))
      in Option.bind integer (\<lambda>i. if \<bar>i\<bar> \<le> MAX_SAFE_INTEGER then Some i else None))"

definition encode_tool_header_value :: "http_codec \<Rightarrow> json \<Rightarrow> tool_header_binding \<Rightarrow> string + string" where
  "encode_tool_header_value K v b =
     (case th_value_type b of
        ParamString \<Rightarrow>
          (case as_str v of None \<Rightarrow> Inl ''argument must be a string'' | Some s \<Rightarrow> Inr (encode_mcp_header_value K s))
      | ParamBoolean \<Rightarrow>
          (case as_bool v of
             None \<Rightarrow> Inl ''argument must be a boolean''
           | Some x \<Rightarrow> Inr (if x then ''true'' else ''false''))
      | ParamInteger \<Rightarrow>
          (case safe_integer v of
             None \<Rightarrow> Inl ''argument must be a JavaScript-safe integer''
           | Some i \<Rightarrow> Inr (int_dec i)))"

fun insert_tool_headers ::
  "http_codec \<Rightarrow> json \<Rightarrow> tool_header_binding list \<Rightarrow> header_map \<Rightarrow> string + header_map" where
  "insert_tool_headers K request [] headers = Inr headers"
| "insert_tool_headers K request (b # bs) headers =
     (case Option.bind (Option.bind (json_get request ''params'') (\<lambda>params. json_get params ''arguments''))
             (\<lambda>arguments. value_at_property_path arguments (th_path b)) of
        None \<Rightarrow> insert_tool_headers K request bs headers
      | Some v \<Rightarrow>
          bind_result (encode_tool_header_value K v b) (\<lambda>encoded.
          case hk_header_value K encoded of
            None \<Rightarrow> Inl ''derived value is not a valid HTTP header value''
          | Some w \<Rightarrow> insert_tool_headers K request bs (header_insert (th_header_name b) w headers)))"

definition insert_header :: "http_codec \<Rightarrow> string \<Rightarrow> string \<Rightarrow> header_map \<Rightarrow> string + header_map" where
  "insert_header K name v headers =
     (case hk_header_value K v of
        None \<Rightarrow> Inl ''modern MCP request has an invalid header value''
      | Some w \<Rightarrow> Inr (header_insert name w headers))"

text \<open>The standard headers of a modern request; the session header of any other.\<close>

definition insert_routing_headers ::
  "http_codec \<Rightarrow> string option \<Rightarrow> json \<Rightarrow> header_map \<Rightarrow> string + header_map" where
  "insert_routing_headers K session_id request headers =
     (case modern_protocol_version request of
        Some version \<Rightarrow>
          bind_result (insert_header K ''mcp-protocol-version'' version headers) (\<lambda>h1.
          case request_method request of
            None \<Rightarrow> Inl ''modern MCP request is missing a string method''
          | Some mt \<Rightarrow>
              bind_result (insert_header K ''mcp-method'' mt h1) (\<lambda>h2.
              case required_name_field mt of
                None \<Rightarrow> Inr h2
              | Some name_field \<Rightarrow>
                  (case Option.bind (json_get request ''params'') (\<lambda>params. Option.bind (json_get params name_field) as_str) of
                     None \<Rightarrow> Inl ''modern MCP request is missing the string parameter required for Mcp-Name''
                   | Some name \<Rightarrow> insert_header K ''mcp-name'' (encode_mcp_header_value K name) h2)))
      | None \<Rightarrow>
          (case Option.bind session_id (hk_header_value K) of
             None \<Rightarrow> Inr headers
           | Some w \<Rightarrow> Inr (header_insert ''mcp-session-id'' w headers)))"

definition build_request_headers ::
  "http_codec \<Rightarrow> header_map \<Rightarrow> string option \<Rightarrow> json \<Rightarrow> tool_header_binding list \<Rightarrow> string + header_map" where
  "build_request_headers K extra session_id request tool_headers =
     bind_result (modern_tool_name request) (\<lambda>tool.
       let modern_tool = (tool \<noteq> None);
           h0 = filter (\<lambda>(name, _). \<not> modern_tool \<or> \<not> prefix ''mcp-param-'' name) extra
       in bind_result (if modern_tool then insert_tool_headers K request tool_headers h0 else Inr h0) (\<lambda>h1.
          let h2 = header_insert ''accept'' ''application/json, text/event-stream''
                     (header_insert ''content-type'' ''application/json'' h1)
          in insert_routing_headers K session_id request h2))"

section \<open>Retries with more input\<close>

definition MAX_MRTR_ROUNDS :: usize where
  "MAX_MRTR_ROUNDS = 10"

record input_required =
  ir_input_response_keys :: "string set"
  ir_request_state :: "string option"

definition is_mrtr_capable_request :: "json \<Rightarrow> bool" where
  "is_mrtr_capable_request request \<longleftrightarrow>
     modern_protocol_version request \<noteq> None \<and>
     request_method request \<in> {Some ''tools/call'', Some ''prompts/get'', Some ''resources/read''}"

text \<open>\<open>get_mut\<close> on an object: the value under a key of an object, replaced.\<close>

definition object_params :: "(string \<times> json) list \<Rightarrow> (string \<times> json) list option" where
  "object_params members = Option.bind (bt_get members ''params'') as_object"

definition request_without_mrtr_fields :: "json \<Rightarrow> string + json" where
  "request_without_mrtr_fields request =
     (case as_object request of
        None \<Rightarrow> Inl ''MRTR recorded request must be a JSON object''
      | Some members \<Rightarrow>
          let object = bt_remove ''id'' members
          in case object_params object of
               None \<Rightarrow> Inl ''MRTR recorded request is missing object params''
             | Some params \<Rightarrow>
                 Inr (JObject (bt_insert ''params''
                   (JObject (bt_remove ''requestState'' (bt_remove ''inputResponses'' params))) object)))"

text \<open>The keys of an object member, none when it is absent, an error when it is something else.\<close>

definition member_keys :: "(string \<times> json) list \<Rightarrow> string \<Rightarrow> string \<Rightarrow> string + string set" where
  "member_keys members name text_if_other =
     (case bt_get members name of
        None \<Rightarrow> Inr {}
      | Some (JObject entries) \<Rightarrow> Inr (set (bt_keys entries))
      | Some _ \<Rightarrow> Inl text_if_other)"

definition member_state :: "(string \<times> json) list \<Rightarrow> string \<Rightarrow> string + string option" where
  "member_state members text_if_other =
     (case bt_get members ''requestState'' of
        None \<Rightarrow> Inr None
      | Some (JString state) \<Rightarrow> Inr (Some state)
      | Some _ \<Rightarrow> Inl text_if_other)"

definition retry_with :: "json \<Rightarrow> (string \<times> json) list \<Rightarrow> input_required \<Rightarrow> json \<Rightarrow> json" where
  "retry_with recorded_retry retry_params input replay_id =
     (let params = (case ir_request_state input of
            Some state \<Rightarrow> bt_insert ''requestState'' (JString state) retry_params
          | None \<Rightarrow> bt_remove ''requestState'' retry_params)
      in case recorded_retry of
           JObject members \<Rightarrow> JObject (bt_insert ''id'' replay_id (bt_insert ''params'' (JObject params) members))
         | other \<Rightarrow> other)"

definition build_mrtr_retry_request :: "json \<Rightarrow> json \<Rightarrow> input_required \<Rightarrow> json \<Rightarrow> string + json" where
  "build_mrtr_retry_request source_request recorded_retry input replay_id =
     (case (request_method source_request, request_method recorded_retry) of
        (None, _) \<Rightarrow> Inl ''MRTR source request is missing a string method''
      | (_, None) \<Rightarrow> Inl ''MRTR recorded retry is missing a string method''
      | (Some source_method, Some retry_method) \<Rightarrow>
          if source_method \<noteq> retry_method then Inl ''MRTR recorded retry method does not match original method''
          else
            bind_result (request_without_mrtr_fields source_request) (\<lambda>base.
            bind_result (request_without_mrtr_fields recorded_retry) (\<lambda>retry_base.
            if base \<noteq> retry_base
            then Inl ''MRTR recorded retry does not preserve the original request outside inputResponses, requestState, and JSON-RPC id''
            else case Option.bind (json_get recorded_retry ''params'') as_object of
              None \<Rightarrow> Inl ''MRTR recorded retry is missing object params''
            | Some retry_params \<Rightarrow>
                bind_result (member_keys retry_params ''inputResponses'' ''MRTR recorded retry has non-object inputResponses'') (\<lambda>keys.
                if keys \<noteq> ir_input_response_keys input
                then Inl ''MRTR recorded inputResponses keys do not match the target inputRequests keys''
                else bind_result (member_state retry_params ''MRTR recorded retry has non-string requestState'') (\<lambda>recorded_state.
                if (recorded_state \<noteq> None) \<noteq> (ir_request_state input \<noteq> None)
                then Inl ''MRTR recorded retry requestState presence does not match the target input_required result''
                else Inr (retry_with recorded_retry retry_params input replay_id))))))"

definition input_required_from_bytes :: "serde \<Rightarrow> bytes \<Rightarrow> string + input_required option" where
  "input_required_from_bytes S bs =
     (case Option.bind (parse_json S bs) (\<lambda>payload. Option.bind (json_get payload ''result'') as_object) of
        None \<Rightarrow> Inr None
      | Some result \<Rightarrow>
          if Option.bind (bt_get result ''resultType'') as_str \<noteq> Some ''input_required'' then Inr None
          else
            bind_result (member_keys result ''inputRequests'' ''target input_required result has non-object inputRequests'') (\<lambda>keys.
            bind_result (member_state result ''target input_required result has non-string requestState'') (\<lambda>state.
            if bt_get result ''inputRequests'' = None \<and> state = None
            then Inl ''target input_required result must contain inputRequests or requestState''
            else Inr (Some \<lparr>ir_input_response_keys = keys, ir_request_state = state\<rparr>))))"

end
