(* ===== verification/HttpReplayProps.thy ===== *)
theory HttpReplayProps
  imports HttpReplay
begin

text \<open>
  What an HTTP replay promises about its requests: header values that decode to what was recorded, exactly
  the bindings the captured schema declares, and retries that differ from the recording only in the id
  and the state the target handed out.
\<close>

section \<open>Header values\<close>

text \<open>How a reader of the header gets the value back; \<open>unbase64\<close> is the inverse of the encoder.\<close>

definition decode_mcp_header_value :: "(string \<Rightarrow> bytes option) \<Rightarrow> string \<Rightarrow> string option" where
  "decode_mcp_header_value unbase64 s =
     (if starts_ends s then unbase64 (take (length s - 11) (drop 9 s)) else Some s)"

definition base64_ok :: "http_codec \<Rightarrow> (string \<Rightarrow> bytes option) \<Rightarrow> bool" where
  "base64_ok K unbase64 \<longleftrightarrow> (\<forall>bs. unbase64 (hk_base64 K bs) = Some bs \<and>
     list_all (\<lambda>c. is_ascii_alphanumeric c \<or> c \<in> set ''+/='') (hk_base64 K bs))"

lemma base64_char_plain: "is_ascii_alphanumeric c \<or> c \<in> set ''+/='' \<Longrightarrow> is_plain_header_byte c"
  by (auto simp: is_ascii_alphanumeric_def is_ascii_digit_def is_ascii_upper_def is_ascii_lower_def is_plain_header_byte_def)

text \<open>
  C25: a header value made from a recorded string can always be sent and is understood: whatever the string
  holds (line breaks, other bytes, blanks at the ends, the sentinel itself), the value has printable ASCII
  and tabs only, is not empty, has no blank at either end, and decodes to the string.
\<close>

theorem mcp_header_roundtrip:
  assumes "base64_ok K unbase64"
  shows "decode_mcp_header_value unbase64 (encode_mcp_header_value K v) = Some v \<and>
    list_all is_plain_header_byte (encode_mcp_header_value K v) \<and> encode_mcp_header_value K v \<noteq> [] \<and>
    \<not> is_blank (hd (encode_mcp_header_value K v)) \<and> \<not> is_blank (last (encode_mcp_header_value K v))"
proof (cases "v \<noteq> [] \<and> list_all is_plain_header_byte v \<and> \<not> is_blank (hd v) \<and> \<not> is_blank (last v) \<and> \<not> starts_ends v")
  case True
  then show ?thesis by (simp add: encode_mcp_header_value_def decode_mcp_header_value_def)
next
  case False
  let ?s = "''=?base64?'' @ hk_base64 K v @ ''?=''"
  have enc: "encode_mcp_header_value K v = ?s" unfolding encode_mcp_header_value_def Let_def using False by (simp only: if_False)
  have "starts_ends ?s" by (simp add: starts_ends_def suffix_def)
  then have "decode_mcp_header_value unbase64 ?s = Some v"
    using assms by (simp add: decode_mcp_header_value_def base64_ok_def)
  moreover have "list_all is_plain_header_byte (hk_base64 K v)"
    using assms base64_char_plain unfolding base64_ok_def list_all_iff by blast
  ultimately show ?thesis unfolding enc by (simp add: is_plain_header_byte_def is_blank_def)
qed

section \<open>Retries\<close>

lemma bt_eqI: "bt_wf m \<Longrightarrow> bt_wf n \<Longrightarrow> (\<And>k. bt_get m k = bt_get n k) \<Longrightarrow> m = n"
  by (rule bt_ext)

lemma json_wf_object: "json_wf (JObject m) \<Longrightarrow> bt_wf m"
  by simp

lemma build_mrtr_parts:
  assumes "build_mrtr_retry_request source recorded input replay_id = Inr retry"
  obtains m members params where "request_method source = Some m" "request_method recorded = Some m"
    "request_without_mrtr_fields source = request_without_mrtr_fields recorded"
    "recorded = JObject members" "bt_get members ''params'' = Some (JObject params)"
    "member_keys params ''inputResponses'' ''MRTR recorded retry has non-object inputResponses'' = Inr (ir_input_response_keys input)"
    "retry = retry_with recorded params input replay_id"
proof -
  from assms obtain m params where "request_method source = Some m" "request_method recorded = Some m"
    "request_without_mrtr_fields source = request_without_mrtr_fields recorded"
    "Option.bind (json_get recorded ''params'') as_object = Some params"
    "member_keys params ''inputResponses'' ''MRTR recorded retry has non-object inputResponses'' = Inr (ir_input_response_keys input)"
    "retry = retry_with recorded params input replay_id"
    by (auto simp: build_mrtr_retry_request_def bind_result_def split: option.splits sum.splits if_splits)
  then show thesis using that by (cases recorded) (auto simp: bind_eq_Some_conv)
qed

definition retry_params :: "(string \<times> json) list \<Rightarrow> input_required \<Rightarrow> (string \<times> json) list" where
  "retry_params params input = (case ir_request_state input of
     Some state \<Rightarrow> bt_insert ''requestState'' (JString state) params | None \<Rightarrow> bt_remove ''requestState'' params)"

lemma retry_with_object:
  "retry_with (JObject members) params input replay_id
     = JObject (bt_insert ''id'' replay_id (bt_insert ''params'' (JObject (retry_params params input)) members))"
  by (simp add: retry_with_def retry_params_def Let_def)

lemma retry_with_get:
  "bt_wf members \<Longrightarrow> json_get (retry_with (JObject members) params input replay_id) k =
     (if k = ''id'' then Some replay_id else if k = ''params'' then Some (JObject (retry_params params input)) else bt_get members k)"
  by (simp add: retry_with_object bt.get_insert bt.wf_insert)

lemma retry_params_facts:
  assumes "bt_wf params"
  shows "bt_wf (retry_params params input)"
    "bt_get (retry_params params input) k = (if k = ''requestState'' then map_option JString (ir_request_state input) else bt_get params k)"
  using assms by (auto simp: retry_params_def bt.get_insert bt.get_remove intro: bt.wf_insert bt.wf_remove split: option.split)

text \<open>Apart from the id, the answers and the state, the retry is the recorded request.\<close>

lemma retry_with_keeps:
  assumes "bt_wf members" "bt_wf params" "bt_get members ''params'' = Some (JObject params)"
  shows "request_without_mrtr_fields (retry_with (JObject members) params input replay_id) = request_without_mrtr_fields (JObject members)"
    "request_method (retry_with (JObject members) params input replay_id) = request_method (JObject members)"
proof -
  let ?ps = "retry_params params input" let ?ms = "bt_insert ''params'' (JObject ?ps) members"
  note wfp = retry_params_facts(1)[OF assms(2), of input] and wf1 = bt.wf_insert[OF assms(1), of "''params''" "JObject ?ps"]
  have strip: "bt_remove ''requestState'' (bt_remove ''inputResponses'' ?ps) = bt_remove ''requestState'' (bt_remove ''inputResponses'' params)"
    by (rule bt_eqI) (simp_all add: bt.wf_remove assms(2) wfp bt.get_remove retry_params_facts(2))
  have drop_id: "bt_remove ''id'' (bt_insert ''id'' replay_id ?ms) = bt_insert ''params'' (JObject ?ps) (bt_remove ''id'' members)"
    by (rule bt_eqI) (simp_all add: bt.wf_remove bt.wf_insert assms(1) wf1 bt.get_remove bt.get_insert)
  have again: "bt_insert ''params'' x (bt_insert ''params'' y (bt_remove ''id'' members)) = bt_insert ''params'' x (bt_remove ''id'' members)" for x y
    by (rule bt_eqI) (simp_all add: bt.wf_remove bt.wf_insert assms(1) bt.get_insert)
  show "request_without_mrtr_fields (retry_with (JObject members) params input replay_id) = request_without_mrtr_fields (JObject members)"
    unfolding retry_with_object request_without_mrtr_fields_def as_object.simps option.case Let_def drop_id
    by (simp add: object_params_def bt.get_insert bt.get_remove bt.wf_remove assms(1,3) strip again)
  show "request_method (retry_with (JObject members) params input replay_id) = request_method (JObject members)"
    by (simp add: request_method_def retry_with_get[OF assms(1)])
qed

text \<open>
  C26: a retry of a replayed call.  When it is built, it carries the new id, echoes exactly the state the target
  handed out (and none when it gave none), keeps the recorded answers, which are for exactly the inputs
  the target asked for, and is the recorded request everywhere else, which is the request it retries.
\<close>

theorem mrtr_retry_exact:
  assumes "build_mrtr_retry_request source recorded input replay_id = Inr retry" "json_wf recorded"
  shows "json_get retry ''id'' = Some replay_id
    \<and> Option.bind (json_get retry ''params'') (\<lambda>p. json_get p ''requestState'') = map_option JString (ir_request_state input)
    \<and> Option.bind (json_get retry ''params'') (\<lambda>p. json_get p ''inputResponses'')
        = Option.bind (json_get recorded ''params'') (\<lambda>p. json_get p ''inputResponses'')
    \<and> (case Option.bind (json_get retry ''params'') (\<lambda>p. json_get p ''inputResponses'') of
         None \<Rightarrow> ir_input_response_keys input = {}
       | Some answers \<Rightarrow> (\<exists>entries. answers = JObject entries \<and> ir_input_response_keys input = set (bt_keys entries)))
    \<and> request_without_mrtr_fields retry = request_without_mrtr_fields source
    \<and> request_method retry = request_method source"
  using assms(1)
proof (cases rule: build_mrtr_parts)
  case (1 m members params)
  have wf: "bt_wf members" using assms(2) 1(4) by simp
  have wfp: "bt_wf params" using json_get_wf[OF assms(2), of "''params''"] 1(4,5) by simp
  have "case bt_get params ''inputResponses'' of None \<Rightarrow> ir_input_response_keys input = {}
       | Some answers \<Rightarrow> (\<exists>entries. answers = JObject entries \<and> ir_input_response_keys input = set (bt_keys entries))"
    using 1(6) by (auto simp: member_keys_def split: option.splits json.splits)
  then show ?thesis
    using retry_with_keeps[OF wf wfp 1(5)] 1 by (simp add: retry_with_get[OF wf] retry_params_facts(2)[OF wfp])
qed

section \<open>Header annotations\<close>

definition property_of :: "json \<Rightarrow> string \<Rightarrow> json option" where
  "property_of v name = Option.bind (json_get v ''properties'') (\<lambda>ps. json_get ps name)"

definition schema_at :: "json \<Rightarrow> string list \<Rightarrow> json option" where
  "schema_at tool path = foldl (\<lambda>v name. Option.bind v (\<lambda>v. property_of v name)) (Some tool) path"

definition binding_declared :: "http_codec \<Rightarrow> json \<Rightarrow> tool_header_binding \<Rightarrow> bool" where
  "binding_declared K tool b \<longleftrightarrow> (\<exists>schema annotation. schema_at tool (th_path b) = Some (JObject schema)
     \<and> bt_get schema x_mcp_header = Some (JString annotation) \<and> annotation \<noteq> [] \<and> is_http_token annotation
     \<and> hk_header_name K (''mcp-param-'' @ annotation) = Some (th_header_name b)
     \<and> param_type_of (Option.bind (bt_get schema ''type'') as_str) = Inr (th_value_type b))"

definition header_key :: "tool_header_binding \<Rightarrow> string" where
  "header_key b = map to_ascii_lowercase (th_header_name b)"

definition bindings_inv :: "http_codec \<Rightarrow> json \<Rightarrow> binding_state \<Rightarrow> bool" where
  "bindings_inv K tool st \<longleftrightarrow> list_all (binding_declared K tool) (fst st) \<and> distinct (map header_key (fst st))
     \<and> snd st = header_key ` set (fst st)"

declare bind_result_simps [simp] bind_result_Inr [simp]

lemma bind_annotation_inv:
  assumes "bind_annotation K path allowed schema st = Inr st'" "bindings_inv K tool st"
    "allowed \<Longrightarrow> schema_at tool path = Some (JObject schema)"
  shows "bindings_inv K tool st'"
proof (cases "bt_get schema x_mcp_header")
  case None
  then show ?thesis using assms by (simp add: bind_annotation_def)
next
  case (Some v)
  with assms(1) obtain annotation ty name where parts: "allowed" "v = JString annotation" "annotation \<noteq> []"
      "is_http_token annotation" "param_type_of (Option.bind (bt_get schema ''type'') as_str) = Inr ty"
      "hk_header_name K (''mcp-param-'' @ annotation) = Some name" "map to_ascii_lowercase name \<notin> snd st"
      and st': "st' = (fst st @ [\<lparr>th_header_name = name, th_path = path, th_value_type = ty\<rparr>],
        insert (map to_ascii_lowercase name) (snd st))"
    by (cases v) (auto simp: bind_annotation_def Let_def split: if_splits option.splits)
  have "binding_declared K tool \<lparr>th_header_name = name, th_path = path, th_value_type = ty\<rparr>"
    using assms(3) parts Some by (simp add: binding_declared_def)
  then show ?thesis using assms(2) parts(7) st' by (auto simp: bindings_inv_def header_key_def)
qed

lemma schema_at_property:
  assumes "schema_at tool path = Some (JObject vv)" "bt_wf vv" "(''properties'', JObject ps) \<in> set vv"
    "bt_wf ps" "(name, child) \<in> set ps"
  shows "schema_at tool (path @ [name]) = Some child"
  using assms bt_get_wf_iff[OF assms(2), of "''properties''" "JObject ps"] bt_get_wf_iff[OF assms(4), of name child]
  by (simp add: schema_at_def property_of_def)

lemma visit_inv:
  "visit_value K path po ip v st = Inr st' \<Longrightarrow> bindings_inv K tool st \<Longrightarrow> json_wf v \<Longrightarrow>
     (po \<Longrightarrow> schema_at tool path = Some v) \<Longrightarrow> bindings_inv K tool st'"
  "visit_members K path po ms st = Inr st' \<Longrightarrow> bindings_inv K tool st \<Longrightarrow> \<forall>e \<in> set ms. json_wf (snd e) \<Longrightarrow>
     (po \<Longrightarrow> \<exists>vv. schema_at tool path = Some (JObject vv) \<and> bt_wf vv \<and> set ms \<subseteq> set vv) \<Longrightarrow> bindings_inv K tool st'"
  "visit_properties K path po ps st = Inr st' \<Longrightarrow> bindings_inv K tool st \<Longrightarrow> \<forall>e \<in> set ps. json_wf (snd e) \<Longrightarrow>
     (po \<Longrightarrow> \<forall>(name, child) \<in> set ps. schema_at tool (path @ [name]) = Some child) \<Longrightarrow> bindings_inv K tool st'"
  "visit_items K path vs st = Inr st' \<Longrightarrow> bindings_inv K tool st \<Longrightarrow> \<forall>v \<in> set vs. json_wf v \<Longrightarrow> bindings_inv K tool st'"
proof (induction K path po ip v st and K path po ms st and K path po ps st and K path vs st
    arbitrary: st' and st' and st' and st'
    rule: visit_value_visit_members_visit_properties_visit_items.induct)
  case (1 K path po ip schema st)
  obtain st1 where st1: "bind_annotation K path (po \<and> ip) schema st = Inr st1" "visit_members K path po schema st1 = Inr st'"
    using "1.prems"(1) by auto
  have "bindings_inv K tool st1" by (rule bind_annotation_inv[OF st1(1) "1.prems"(2)]) (use "1.prems"(4) in simp)
  then show ?case using st1 "1.IH"[of st1 st'] "1.prems"(3,4) by auto
next
  case (5 K path po keyword v members st)
  obtain st1 where first: "(if keyword = x_mcp_header then Inr st
        else if keyword = ''properties''
        then (case v of
               JObject properties \<Rightarrow> visit_properties K path po properties st
             | _ \<Rightarrow> if contains_header_annotation v then Inl ''inputSchema.properties must be an object'' else Inr st)
        else if contains_header_annotation v then visit_value K path False False v st
        else Inr st) = Inr st1" and rest: "visit_members K path po members st1 = Inr st'"
    using "5.prems"(1) by (auto simp del: if_split)
  have wf: "json_wf v" "\<forall>e \<in> set members. json_wf (snd e)" using "5.prems"(3) by auto
  have props: "\<forall>(name, child) \<in> set ps. schema_at tool (path @ [name]) = Some child"
    if at: "keyword = ''properties''" "v = JObject ps" "po" for ps
  proof -
    obtain vv where vv: "schema_at tool path = Some (JObject vv)" "bt_wf vv" "(''properties'', JObject ps) \<in> set vv"
      using "5.prems"(4)[OF at(3)] at(1,2) by auto
    have "bt_wf ps" using wf(1) at(2) by simp
    then show ?thesis using schema_at_property[OF vv] by auto
  qed
  have "bindings_inv K tool st1"
  proof (cases "keyword = ''properties'' \<and> keyword \<noteq> x_mcp_header")
    case True
    then show ?thesis using first "5.IH"(1) "5.prems"(2) wf(1) props
      by (auto split: json.splits if_splits)
  next
    case False
    then show ?thesis using first "5.IH"(2) "5.prems"(2) wf(1) by (auto split: if_splits)
  qed
  then show ?case using "5.IH"(3)[of st1 st'] rest wf(2) "5.prems"(4) by auto
next
  case (7 K path po name child properties st)
  then obtain st1 where st1: "visit_value K (path @ [name]) po True child st = Inr st1"
      "visit_properties K path po properties st1 = Inr st'" by auto
  have "bindings_inv K tool st1" by (rule "7.IH"(1)[OF st1(1)]) (use "7.prems" in auto)
  then show ?case by (rule "7.IH"(2)[OF st1(2)]) (use "7.prems" in auto)
next
  case (9 K path v vs st)
  then obtain st1 where st1: "visit_value K path False False v st = Inr st1" "visit_items K path vs st1 = Inr st'" by auto
  have "bindings_inv K tool st1" by (rule "9.IH"(1)[OF st1(1)]) (use "9.prems" in auto)
  then show ?case by (rule "9.IH"(2)[OF st1(2)]) (use "9.prems" in auto)
qed auto

text \<open>
  only declared bindings are sent.  When the walk over an input schema returns its bindings, each of them
  comes from an annotation that the schema holds at the very property path of the binding: its header
  name is \<open>Mcp-Param-\<close> and the annotated token, its type the declared primitive one, and no two bindings
  have the same name in another case.
\<close>

theorem tool_bindings_declared:
  assumes "collect_tool_header_bindings K tool = Inr bindings" "json_wf tool"
  shows "(\<forall>b \<in> set bindings. binding_declared K tool b) \<and> distinct (map header_key bindings)"
proof -
  from assms(1) obtain members st where t: "tool = JObject members" "visit_value K [] True False (JObject members) ([], {}) = Inr st"
      and b: "bindings = fst st"
    by (cases tool) (auto simp: collect_tool_header_bindings_def map_sum_def split: sum.splits)
  have "bindings_inv K tool st"
    by (rule visit_inv(1)[OF t(2)]) (use assms(2) t(1) in \<open>auto simp: bindings_inv_def schema_at_def\<close>)
  then show ?thesis by (simp add: bindings_inv_def b list_all_iff)
qed

section \<open>Examples\<close>

text \<open>A codec that writes each byte as its eight bits.\<close>

fun bits_of :: "char \<Rightarrow> string" where
  "bits_of (Char b0 b1 b2 b3 b4 b5 b6 b7) = map (\<lambda>b. if b then CHR ''b'' else CHR ''a'') [b0, b1, b2, b3, b4, b5, b6, b7]"

fun of_bits :: "string \<Rightarrow> bytes option" where
  "of_bits (c0 # c1 # c2 # c3 # c4 # c5 # c6 # c7 # cs) = map_option ((#) (Char (c0 = CHR ''b'') (c1 = CHR ''b'')
     (c2 = CHR ''b'') (c3 = CHR ''b'') (c4 = CHR ''b'') (c5 = CHR ''b'') (c6 = CHR ''b'') (c7 = CHR ''b''))) (of_bits cs)"
| "of_bits [] = Some []"
| "of_bits _ = None"

definition bit_codec :: http_codec where
  "bit_codec = \<lparr>hk_header_name = Some, hk_header_value = Some, hk_base64 = (\<lambda>bs. concat (map bits_of bs))\<rparr>"

lemma of_bits_bits_of: "of_bits (bits_of c @ cs) = map_option ((#) c) (of_bits cs)"
  by (cases c) simp

lemma bit_codec_ok: "base64_ok bit_codec of_bits"
proof -
  have "of_bits (concat (map bits_of bs)) = Some bs" for bs
    by (induction bs) (simp_all add: of_bits_bits_of)
  moreover have "list_all (\<lambda>c. c \<in> {CHR ''a'', CHR ''b''}) (concat (map bits_of bs))" for bs
  proof (induction bs)
    case (Cons c cs)
    then show ?case by (cases c) simp
  qed simp
  then have "list_all (\<lambda>c. is_ascii_alphanumeric c \<or> c \<in> set ''+/='') (concat (map bits_of bs))" for bs
    by (rule list.pred_mono_strong) (auto simp: is_ascii_alphanumeric_def is_ascii_lower_def)
  ultimately show ?thesis by (simp add: base64_ok_def bit_codec_def)
qed

lemma mcp_header_roundtrip_witness:
  "decode_mcp_header_value of_bits (encode_mcp_header_value bit_codec '' a'') = Some '' a''
   \<and> encode_mcp_header_value bit_codec '' a'' = ''=?base64?aaaaabaabaaaabba?=''"
  using mcp_header_roundtrip[OF bit_codec_ok, of "'' a''"] by (simp, code_simp)

definition example_request :: json where
  "example_request = JObject [(''id'', JNumber (PosInt 1)), (''method'', JString ''tools/call''), (''params'', JObject [(''name'', JString ''deploy'')])]"

definition example_recorded_retry :: json where
  "example_recorded_retry = JObject [(''id'', JNumber (PosInt 2)), (''method'', JString ''tools/call''),
     (''params'', JObject [(''inputResponses'', JObject [(''confirm'', JBool True)]), (''name'', JString ''deploy''),
       (''requestState'', JString ''recorded'')])]"

definition example_retry :: json where
  "example_retry = JObject [(''id'', JNumber (PosInt 7)), (''method'', JString ''tools/call''),
     (''params'', JObject [(''inputResponses'', JObject [(''confirm'', JBool True)]), (''name'', JString ''deploy''),
       (''requestState'', JString ''fresh'')])]"

lemma mrtr_retry_exact_witness:
  "request_without_mrtr_fields example_retry = request_without_mrtr_fields example_request"
proof -
  have "build_mrtr_retry_request example_request example_recorded_retry
      \<lparr>ir_input_response_keys = {''confirm''}, ir_request_state = Some ''fresh''\<rparr> (JNumber (PosInt 7)) = Inr example_retry"
    by code_simp
  moreover have "json_wf example_recorded_retry" by code_simp
  ultimately show ?thesis using mrtr_retry_exact by blast
qed

definition example_schema :: json where
  "example_schema = JObject [(''properties'', JObject [(''region'', JObject [(''type'', JString ''string''), (x_mcp_header, JString ''Region'')])])]"

lemma tool_bindings_declared_witness:
  "binding_declared bit_codec example_schema
     \<lparr>th_header_name = ''mcp-param-Region'', th_path = [''region''], th_value_type = ParamString\<rparr>"
proof -
  have "collect_tool_header_bindings bit_codec example_schema
      = Inr [\<lparr>th_header_name = ''mcp-param-Region'', th_path = [''region''], th_value_type = ParamString\<rparr>]"
    by code_simp
  moreover have "json_wf example_schema" by code_simp
  ultimately show ?thesis using tool_bindings_declared by fastforce
qed

end
