(* ===== verification/HttpSubscription.thy ===== *)
theory HttpSubscription
  imports HttpReplay
begin

text \<open>
  The \<open>subscriptions/listen\<close> part of \<open>crates/mcptracer-proxy/src/commands/replay_http.rs\<close>: the evidence that
  a recorded subscription stream must give, and the capture of the target's stream against it.  Error
  messages are abbreviated to their fixed text.
\<close>

section \<open>Filters\<close>

record subscription_filter =
  sf_tools_list_changed :: bool
  sf_prompts_list_changed :: bool
  sf_resources_list_changed :: bool
  sf_resource_subscriptions :: "string set"

definition no_notifications :: subscription_filter where
  "no_notifications = \<lparr>sf_tools_list_changed = False, sf_prompts_list_changed = False,
     sf_resources_list_changed = False, sf_resource_subscriptions = {}\<rparr>"

fun insert_uris :: "json list \<Rightarrow> string set \<Rightarrow> string + string set" where
  "insert_uris [] uris = Inr uris"
| "insert_uris (v # vs) uris =
     (case as_str v of
        None \<Rightarrow> Inl ''notifications.resourceSubscriptions entries must be strings''
      | Some uri \<Rightarrow>
          if uri \<in> uris then Inl ''notifications.resourceSubscriptions contains a duplicate''
          else insert_uris vs (insert uri uris))"

text \<open>One turn of the loop over the members.\<close>

definition filter_setting :: "string \<Rightarrow> json \<Rightarrow> subscription_filter \<Rightarrow> string + subscription_filter" where
  "filter_setting name setting f =
     (if name = ''toolsListChanged'' then
        (case as_bool setting of
           None \<Rightarrow> Inl ''notifications.toolsListChanged must be boolean''
         | Some b \<Rightarrow> Inr (f\<lparr>sf_tools_list_changed := b\<rparr>))
      else if name = ''promptsListChanged'' then
        (case as_bool setting of
           None \<Rightarrow> Inl ''notifications.promptsListChanged must be boolean''
         | Some b \<Rightarrow> Inr (f\<lparr>sf_prompts_list_changed := b\<rparr>))
      else if name = ''resourcesListChanged'' then
        (case as_bool setting of
           None \<Rightarrow> Inl ''notifications.resourcesListChanged must be boolean''
         | Some b \<Rightarrow> Inr (f\<lparr>sf_resources_list_changed := b\<rparr>))
      else if name = ''resourceSubscriptions'' then
        (case as_array setting of
           None \<Rightarrow> Inl ''notifications.resourceSubscriptions must be an array''
         | Some uris \<Rightarrow>
             bind_result (insert_uris uris (sf_resource_subscriptions f)) (\<lambda>all_uris.
               Inr (f\<lparr>sf_resource_subscriptions := all_uris\<rparr>)))
      else Inl ''requests an unsupported notification filter'')"

fun filter_settings :: "(string \<times> json) list \<Rightarrow> subscription_filter \<Rightarrow> string + subscription_filter" where
  "filter_settings [] f = Inr f"
| "filter_settings ((name, setting) # members) f =
     bind_result (filter_setting name setting f) (filter_settings members)"

definition subscription_filter_from_value :: "json \<Rightarrow> string + subscription_filter" where
  "subscription_filter_from_value v =
     (case as_object v of
        None \<Rightarrow> Inl ''notifications must be an object''
      | Some members \<Rightarrow> filter_settings members no_notifications)"

definition params_notifications :: "json \<Rightarrow> json option" where
  "params_notifications payload = Option.bind (json_get payload ''params'') (\<lambda>p. json_get p ''notifications'')"

definition subscription_filter_from_request :: "json \<Rightarrow> string + subscription_filter" where
  "subscription_filter_from_request request =
     (case params_notifications request of
        None \<Rightarrow> Inl ''is missing params.notifications''
      | Some settings \<Rightarrow> subscription_filter_from_value settings)"

section \<open>Frames\<close>

definition is_modern_subscription_listen :: "json \<Rightarrow> bool" where
  "is_modern_subscription_listen request \<longleftrightarrow>
     modern_protocol_version request \<noteq> None \<and> request_method request = Some ''subscriptions/listen''"

definition request_id :: "json \<Rightarrow> string + json" where
  "request_id request =
     (case json_get request ''id'' of
        Some (JString i) \<Rightarrow> Inr (JString i)
      | Some (JNumber n) \<Rightarrow> Inr (JNumber n)
      | _ \<Rightarrow> Inl ''must carry a string or numeric JSON-RPC id'')"

definition subscription_id_from_notification :: "json \<Rightarrow> json option" where
  "subscription_id_from_notification payload =
     Option.bind (json_get payload ''params'') (\<lambda>p.
     Option.bind (json_get p ''_meta'') (\<lambda>meta. json_get meta ''io.modelcontextprotocol/subscriptionId''))"

definition filter_subset :: "subscription_filter \<Rightarrow> subscription_filter \<Rightarrow> bool" where
  "filter_subset accepted f \<longleftrightarrow>
     \<not> (sf_tools_list_changed accepted \<and> \<not> sf_tools_list_changed f
        \<or> sf_prompts_list_changed accepted \<and> \<not> sf_prompts_list_changed f
        \<or> sf_resources_list_changed accepted \<and> \<not> sf_resources_list_changed f
        \<or> \<not> sf_resource_subscriptions accepted \<subseteq> sf_resource_subscriptions f)"

definition validate_subscription_notification ::
  "json \<Rightarrow> json \<Rightarrow> subscription_filter \<Rightarrow> usize \<Rightarrow> string + unit" where
  "validate_subscription_notification payload subscription_id f frame_index =
     (if Option.bind (json_get payload ''jsonrpc'') as_str \<noteq> Some ''2.0'' then Inl ''subscription frame is missing jsonrpc=2.0''
      else if json_get payload ''id'' \<noteq> None then Inl ''subscription stream must not contain JSON-RPC requests''
      else if subscription_id_from_notification payload \<noteq> Some subscription_id
      then Inl ''subscription frame is missing the originating io.modelcontextprotocol/subscriptionId''
      else case request_method payload of
        None \<Rightarrow> Inl ''subscription frame is missing a string notification method''
      | Some m \<Rightarrow>
          if frame_index = 0 then
            if m \<noteq> ''notifications/subscriptions/acknowledged''
            then Inl ''first subscription frame must be notifications/subscriptions/acknowledged''
            else (case params_notifications payload of
              None \<Rightarrow> Inl ''subscription acknowledgment is missing params.notifications''
            | Some settings \<Rightarrow>
                bind_result (subscription_filter_from_value settings) (\<lambda>accepted.
                if \<not> filter_subset accepted f
                then Inl ''subscription acknowledgment accepts notifications outside the requested filter''
                else Inr ()))
          else if m = ''notifications/tools/list_changed'' \<and> sf_tools_list_changed f then Inr ()
          else if m = ''notifications/prompts/list_changed'' \<and> sf_prompts_list_changed f then Inr ()
          else if m = ''notifications/resources/list_changed'' \<and> sf_resources_list_changed f then Inr ()
          else if m = ''notifications/resources/updated'' \<and> sf_resource_subscriptions f \<noteq> {} then
            (case Option.bind (json_get payload ''params'') (\<lambda>p. Option.bind (json_get p ''uri'') as_str) of
               Some uri \<Rightarrow>
                 if uri \<in> sf_resource_subscriptions f then Inr ()
                 else Inl ''notifications/resources/updated uri is outside the requested filter''
             | None \<Rightarrow> Inl ''notifications/resources/updated must include a non-empty params.uri'')
          else Inl ''subscription stream emitted a method which is not in the requested filter'')"

text \<open>The \<open>expect\<close> of the code holds because the validation has passed: the empty object is never read.\<close>

definition subscription_acknowledgment_filter :: "json \<Rightarrow> json \<Rightarrow> subscription_filter \<Rightarrow> string + subscription_filter" where
  "subscription_acknowledgment_filter payload subscription_id requested =
     bind_result (validate_subscription_notification payload subscription_id requested 0) (\<lambda>_.
       case params_notifications payload of
         Some accepted \<Rightarrow> subscription_filter_from_value accepted
       | None \<Rightarrow> subscription_filter_from_value (JObject []))"

definition validate_subscription_acknowledgment ::
  "json \<Rightarrow> json \<Rightarrow> subscription_filter \<Rightarrow> subscription_filter \<Rightarrow> string + unit" where
  "validate_subscription_acknowledgment payload subscription_id requested expected =
     bind_result (subscription_acknowledgment_filter payload subscription_id requested) (\<lambda>accepted.
       if accepted \<noteq> expected then Inl ''subscription acknowledgment accepted a different filter than the source recording''
       else Inr ())"

definition is_subscription_terminal_response :: "json \<Rightarrow> json \<Rightarrow> bool" where
  "is_subscription_terminal_response payload subscription_id \<longleftrightarrow>
     json_get payload ''id'' = Some subscription_id \<and>
     (json_get payload ''result'' \<noteq> None \<or> json_get payload ''error'' \<noteq> None)"

section \<open>What the recording expects\<close>

record subscription_expectation =
  sx_subscription_id :: json
  sx_filter :: subscription_filter
  sx_accepted_filter :: subscription_filter
  sx_expected_frames :: usize

text \<open>
  The loop over the source messages.  The accepted filter is known as soon as one frame was counted, so the
  filter used for a later frame is the one that was accepted (the code's \<open>expect\<close>).
\<close>

fun expectation_frames ::
  "serde \<Rightarrow> u64 \<Rightarrow> json \<Rightarrow> subscription_filter \<Rightarrow> stored_message list \<Rightarrow> subscription_filter option \<Rightarrow> usize
     \<Rightarrow> string + subscription_filter option \<times> usize" where
  "expectation_frames S listen_seq sid f [] accepted n = Inr (accepted, n)"
| "expectation_frames S listen_seq sid f (m # ms) accepted n =
     (if msg_direction m \<noteq> ''s2c'' then expectation_frames S listen_seq sid f ms accepted n
      else case parse_json S (msg_payload m) of
        None \<Rightarrow> Inl ''source message is not valid JSON''
      | Some payload \<Rightarrow>
          if subscription_id_from_notification payload \<noteq> Some sid
          then expectation_frames S listen_seq sid f ms accepted n
          else if msg_seq m \<le> listen_seq
          then Inl ''source subscriptions/listen notification precedes its request''
          else if n = 0
          then bind_result (subscription_acknowledgment_filter payload sid f) (\<lambda>a.
                 expectation_frames S listen_seq sid f ms (Some a) (n + 1))
          else bind_result (validate_subscription_notification payload sid (the accepted) n) (\<lambda>_.
                 expectation_frames S listen_seq sid f ms accepted (n + 1)))"

definition expectation_for ::
  "serde \<Rightarrow> stored_message list \<Rightarrow> stored_message \<Rightarrow> json \<Rightarrow> string + subscription_expectation" where
  "expectation_for S source listen request =
     bind_result (request_id request) (\<lambda>sid.
     bind_result (subscription_filter_from_request request) (\<lambda>f.
     bind_result (expectation_frames S (msg_seq listen) sid f source None 0) (\<lambda>(accepted, n).
       if n = 0 then Inl ''source subscriptions/listen request has no recorded acknowledgment frame''
       else Inr \<lparr>sx_subscription_id = sid, sx_filter = f, sx_accepted_filter = the accepted, sx_expected_frames = n\<rparr>)))"

section \<open>The capture task\<close>

text \<open>
  The state of one task: the decoder, the frames received, the acknowledgment that was signalled (once),
  what the connection will still deliver, and the result when the task has ended.
\<close>

datatype stream_read = StreamBytes bytes | StreamFailed | StreamStalled

record subscription_task =
  su_decoder :: sse_decoder
  su_received :: usize
  su_signal :: "(string + unit) option"
  su_reads :: "stream_read list"
  su_result :: "(string + unit) option"

definition signal_subscription_acknowledgment :: "string + unit \<Rightarrow> subscription_task \<Rightarrow> subscription_task" where
  "signal_subscription_acknowledgment r t = (if su_signal t = None then t\<lparr>su_signal := Some r\<rparr> else t)"

definition record_bytes :: "serde \<Rightarrow> (u64 \<Rightarrow> i64) \<Rightarrow> bytes \<Rightarrow> pump \<Rightarrow> pump" where
  "record_bytes S clock bs p =
     (let (seq, p1) = reserve_capture_stamp p
      in case http_decode_message S bs ServerToClient seq (clock seq) of
           Inr message \<Rightarrow> try_record p1 message
         | Inl _ \<Rightarrow> count_drop p1)"

definition capture_subscription_event ::
  "serde \<Rightarrow> (u64 \<Rightarrow> i64) \<Rightarrow> subscription_expectation \<Rightarrow> sse_event \<Rightarrow> subscription_task \<times> pump
     \<Rightarrow> (string + unit) \<times> subscription_task \<times> pump" where
  "capture_subscription_event S clock x event st =
     (let (t, p) = st
      in case event of
        SseOversized \<Rightarrow> (Inl ''subscriptions/listen stream contains an oversized SSE JSON frame'', st)
      | SseIncomplete \<Rightarrow> (Inl ''subscriptions/listen stream ended inside an SSE frame'', st)
      | SseJson bs \<Rightarrow>
          (case parse_json S bs of
             None \<Rightarrow> (Inl ''subscriptions/listen stream contains non-JSON frame'', st)
           | Some payload \<Rightarrow>
               if is_subscription_terminal_response payload (sx_subscription_id x)
               then (Inr (), t, record_bytes S clock bs p)
               else let frame_index = su_received t
               in if frame_index \<ge> sx_expected_frames x
                  then (Inl ''target subscriptions/listen stream produced more frames than the source recording'', st)
                  else
                    (case if frame_index = 0
                          then validate_subscription_acknowledgment payload (sx_subscription_id x) (sx_filter x) (sx_accepted_filter x)
                          else validate_subscription_notification payload (sx_subscription_id x) (sx_accepted_filter x) frame_index of
                       Inl e \<Rightarrow> (Inl e, st)
                     | Inr _ \<Rightarrow>
                         let t1 = t\<lparr>su_received := frame_index + 1\<rparr>
                         in (Inr (), if frame_index = 0 then signal_subscription_acknowledgment (Inr ()) t1 else t1,
                             record_bytes S clock bs p))))"

text \<open>The events of one chunk; at the first error the error is signalled and the task ends.\<close>

fun capture_subscription_events ::
  "serde \<Rightarrow> (u64 \<Rightarrow> i64) \<Rightarrow> subscription_expectation \<Rightarrow> sse_event list \<Rightarrow> subscription_task \<times> pump
     \<Rightarrow> (string + unit) \<times> subscription_task \<times> pump" where
  "capture_subscription_events S clock x [] st = (Inr (), st)"
| "capture_subscription_events S clock x (event # events) st =
     (case capture_subscription_event S clock x event st of
        (Inr _, st1) \<Rightarrow> capture_subscription_events S clock x events st1
      | (Inl e, t, p) \<Rightarrow> (Inl e, signal_subscription_acknowledgment (Inl e) t, p))"

text \<open>The tests after the stream's end.\<close>

definition subscription_end :: "subscription_expectation \<Rightarrow> subscription_task \<Rightarrow> (string + unit) \<times> subscription_task" where
  "subscription_end x t =
     (if su_signal t = None
      then (Inl ''subscriptions/listen stream ended before notifications/subscriptions/acknowledged'',
            signal_subscription_acknowledgment (Inl ''stream ended before notifications/subscriptions/acknowledged'') t)
      else if su_received t \<noteq> sx_expected_frames x
      then (Inl ''subscriptions/listen stream ended too early'', t)
      else (Inr (), t))"

text \<open>
  One step of the task: what it does between two reads of the connection.  A failed read leaves the
  sender dropped without a signal; on a stalled connection the task waits.
\<close>

definition task_step ::
  "serde \<Rightarrow> (u64 \<Rightarrow> i64) \<Rightarrow> subscription_expectation \<Rightarrow> subscription_task \<times> pump \<Rightarrow> subscription_task \<times> pump" where
  "task_step S clock x st =
     (let (t, p) = st
      in if su_result t \<noteq> None then st
         else case su_reads t of
           StreamFailed # rest \<Rightarrow>
             (t\<lparr>su_reads := rest, su_result := Some (Inl ''failed to read subscriptions/listen response stream'')\<rparr>, p)
         | StreamStalled # rest \<Rightarrow> st
         | StreamBytes chunk # rest \<Rightarrow>
             (let (d, events) = sse_push (su_decoder t) chunk
              in case capture_subscription_events S clock x events (t\<lparr>su_reads := rest, su_decoder := d\<rparr>, p) of
                   (Inr _, t1, p1) \<Rightarrow> (t1, p1)
                 | (Inl e, t1, p1) \<Rightarrow> (t1\<lparr>su_result := Some (Inl e)\<rparr>, p1))
         | [] \<Rightarrow>
             (let (d, events) = sse_finish (su_decoder t)
              in case capture_subscription_events S clock x events (t\<lparr>su_decoder := d\<rparr>, p) of
                   (Inr _, t1, p1) \<Rightarrow> (let (r, t2) = subscription_end x t1 in (t2\<lparr>su_result := Some r\<rparr>, p1))
                 | (Inl e, t1, p1) \<Rightarrow> (t1\<lparr>su_result := Some (Inl e)\<rparr>, p1)))"

definition task_new :: "stream_read list \<Rightarrow> subscription_task" where
  "task_new reads = \<lparr>su_decoder = sse_default, su_received = 0, su_signal = None, su_reads = reads, su_result = None\<rparr>"

text \<open>The whole task when nothing else runs.\<close>

fun run_task :: "serde \<Rightarrow> (u64 \<Rightarrow> i64) \<Rightarrow> subscription_expectation \<Rightarrow> nat \<Rightarrow> subscription_task \<times> pump
    \<Rightarrow> subscription_task \<times> pump" where
  "run_task S clock x 0 st = st"
| "run_task S clock x (Suc n) st = run_task S clock x n (task_step S clock x st)"

definition capture_subscription_response ::
  "serde \<Rightarrow> (u64 \<Rightarrow> i64) \<Rightarrow> subscription_expectation \<Rightarrow> stream_read list \<Rightarrow> pump \<Rightarrow> subscription_task \<times> pump" where
  "capture_subscription_response S clock x reads p =
     run_task S clock x (length reads + 1) (task_new reads, p)"

end
