(* ===== verification/HttpSubscriptionProps.thy ===== *)
theory HttpSubscriptionProps
  imports HttpSubscription
begin

text \<open>
  What the capture of a subscription stream accepts: exactly the streams whose frames are the recorded
  number of frames, an acknowledgment of the recorded filter followed by notifications inside it.
\<close>

section \<open>Frames that may come\<close>

text \<open>The filter lets a notification through.\<close>

definition granted :: "subscription_filter \<Rightarrow> json \<Rightarrow> bool" where
  "granted f payload \<longleftrightarrow>
     request_method payload = Some ''notifications/tools/list_changed'' \<and> sf_tools_list_changed f
     \<or> request_method payload = Some ''notifications/prompts/list_changed'' \<and> sf_prompts_list_changed f
     \<or> request_method payload = Some ''notifications/resources/list_changed'' \<and> sf_resources_list_changed f
     \<or> request_method payload = Some ''notifications/resources/updated''
       \<and> (\<exists>uri \<in> sf_resource_subscriptions f.
            Option.bind (json_get payload ''params'') (\<lambda>p. json_get p ''uri'') = Some (JString uri))"

definition acknowledges :: "subscription_filter \<Rightarrow> json \<Rightarrow> bool" where
  "acknowledges f payload \<longleftrightarrow> request_method payload = Some ''notifications/subscriptions/acknowledged''
     \<and> Option.bind (params_notifications payload) (\<lambda>v. case subscription_filter_from_value v of Inr g \<Rightarrow> Some g | _ \<Rightarrow> None) = Some f"

definition frame_allowed :: "subscription_expectation \<Rightarrow> nat \<Rightarrow> json \<Rightarrow> bool" where
  "frame_allowed x i payload \<longleftrightarrow> json_get payload ''jsonrpc'' = Some (JString ''2.0'') \<and> json_get payload ''id'' = None
     \<and> subscription_id_from_notification payload = Some (sx_subscription_id x)
     \<and> (if i = 0 then acknowledges (sx_accepted_filter x) payload \<and> filter_subset (sx_accepted_filter x) (sx_filter x)
        else granted (sx_accepted_filter x) payload)"

lemma bind_as_str: "Option.bind o' as_str = Some s \<longleftrightarrow> o' = Some (JString s)"
  by (cases o'; cases "the o'") auto

declare bind_result_simps [simp] bind_result_Inr [simp]

lemma validate_later:
  "0 < i \<Longrightarrow> validate_subscription_notification payload sid f i = Inr u \<longleftrightarrow>
     json_get payload ''jsonrpc'' = Some (JString ''2.0'') \<and> json_get payload ''id'' = None
     \<and> subscription_id_from_notification payload = Some sid \<and> granted f payload"
  by (auto simp: validate_subscription_notification_def granted_def bind_as_str bind_eq_Some_conv
      split: option.splits if_splits)

lemma validate_first:
  "validate_subscription_notification payload sid f 0 = Inr u \<longleftrightarrow>
     json_get payload ''jsonrpc'' = Some (JString ''2.0'') \<and> json_get payload ''id'' = None
     \<and> subscription_id_from_notification payload = Some sid
     \<and> (\<exists>g. acknowledges g payload \<and> filter_subset g f)"
  by (auto simp: validate_subscription_notification_def acknowledges_def bind_as_str bind_eq_Some_conv
      split: option.splits if_splits sum.splits)

lemma ack_filter:
  "subscription_acknowledgment_filter payload sid f = Inr g \<longleftrightarrow>
     json_get payload ''jsonrpc'' = Some (JString ''2.0'') \<and> json_get payload ''id'' = None
     \<and> subscription_id_from_notification payload = Some sid \<and> acknowledges g payload \<and> filter_subset g f"
  by (auto simp: subscription_acknowledgment_filter_def validate_first acknowledges_def bind_eq_Some_conv
      split: option.splits sum.splits)

lemma validate_ack:
  "validate_subscription_acknowledgment payload sid f g = Inr u \<longleftrightarrow>
     json_get payload ''jsonrpc'' = Some (JString ''2.0'') \<and> json_get payload ''id'' = None
     \<and> subscription_id_from_notification payload = Some sid \<and> acknowledges g payload \<and> filter_subset g f"
  by (auto simp: validate_subscription_acknowledgment_def ack_filter)

fun legal :: "subscription_expectation \<Rightarrow> nat \<Rightarrow> json list \<Rightarrow> bool" where
  "legal x n [] \<longleftrightarrow> True"
| "legal x n (v # vs) \<longleftrightarrow> n < sx_expected_frames x \<and> frame_allowed x n v \<and> legal x (Suc n) vs"

lemma legal_append: "legal x n (vs @ ws) \<longleftrightarrow> legal x n vs \<and> legal x (n + length vs) ws"
  by (induction vs arbitrary: n) auto

lemma legal_all: "legal x n vs \<longleftrightarrow> (\<forall>i < length vs. n + i < sx_expected_frames x \<and> frame_allowed x (n + i) (vs ! i))"
proof (induction vs arbitrary: n)
  case (Cons v vs)
  show ?case by (auto simp: Cons.IH nth_Cons split: nat.splits)
qed simp

section \<open>The events of a stream\<close>

fun frames_of :: "serde \<Rightarrow> subscription_expectation \<Rightarrow> sse_event list \<Rightarrow> (bytes list \<times> json list) option" where
  "frames_of S x [] = Some ([], [])"
| "frames_of S x (SseJson bs # es) =
     (case (parse_json S bs, frames_of S x es) of
        (Some v, Some (bss, vs)) \<Rightarrow> Some (bs # bss, if is_subscription_terminal_response v (sx_subscription_id x) then vs else v # vs)
      | _ \<Rightarrow> None)"
| "frames_of S x (_ # es) = None"

definition join_frames :: "(bytes list \<times> json list) option \<Rightarrow> (bytes list \<times> json list) option \<Rightarrow> (bytes list \<times> json list) option" where
  "join_frames a b = (case (a, b) of (Some (bss, vs), Some (css, ws)) \<Rightarrow> Some (bss @ css, vs @ ws) | _ \<Rightarrow> None)"

lemma frames_of_append: "frames_of S x (es @ es') = join_frames (frames_of S x es) (frames_of S x es')"
  by (induction S x es rule: frames_of.induct) (auto simp: join_frames_def split: option.splits)

lemma frames_of_map:
  "map (parse_json S) bss = map Some payloads \<Longrightarrow> frames_of S x (map SseJson bss)
     = Some (bss, filter (\<lambda>v. \<not> is_subscription_terminal_response v (sx_subscription_id x)) payloads)"
proof (induction bss arbitrary: payloads)
  case (Cons bs bss)
  then show ?case by (cases payloads) auto
qed simp

lemma frames_of_SomeD:
  "frames_of S x es = Some (bss, frames) \<Longrightarrow>
     es = map SseJson bss \<and> (\<exists>payloads. map (parse_json S) bss = map Some payloads
       \<and> frames = filter (\<lambda>v. \<not> is_subscription_terminal_response v (sx_subscription_id x)) payloads)"
proof (induction S x es arbitrary: bss frames rule: frames_of.induct)
  case (2 S x bs es)
  then obtain v css vs where parts: "parse_json S bs = Some v" "frames_of S x es = Some (css, vs)" "bss = bs # css"
      "frames = (if is_subscription_terminal_response v (sx_subscription_id x) then vs else v # vs)"
    by (auto split: option.splits)
  from "2.IH"[OF parts(2)] obtain payloads where IH: "es = map SseJson css" "map (parse_json S) css = map Some payloads"
      "vs = filter (\<lambda>v. \<not> is_subscription_terminal_response v (sx_subscription_id x)) payloads" by blast
  have "map (parse_json S) bss = map Some (v # payloads)" using parts IH by simp
  moreover have "frames = filter (\<lambda>v. \<not> is_subscription_terminal_response v (sx_subscription_id x)) (v # payloads)"
    using parts IH by simp
  moreover have "SseJson bs # es = map SseJson bss" using parts(3) IH(1) by simp
  ultimately show ?case by blast
qed auto

definition advance :: "nat \<Rightarrow> subscription_task \<Rightarrow> subscription_task" where
  "advance k t = t\<lparr>su_received := su_received t + k,
     su_signal := (if su_signal t = None \<and> su_received t = 0 \<and> 0 < k then Some (Inr ()) else su_signal t)\<rparr>"

lemma capture_event_iff:
  "capture_subscription_event S clock x (SseJson bs) (t, p) = (Inr u, t', p') \<longleftrightarrow>
     (\<exists>v. parse_json S bs = Some v \<and> p' = record_bytes S clock bs p \<and>
       (if is_subscription_terminal_response v (sx_subscription_id x) then t' = t
        else su_received t < sx_expected_frames x \<and> frame_allowed x (su_received t) v \<and> t' = advance 1 t))"
proof (cases "parse_json S bs")
  case None
  then show ?thesis by (simp add: capture_subscription_event_def)
next
  case (Some v)
  note parsed = this
  show ?thesis
  proof (cases "is_subscription_terminal_response v (sx_subscription_id x) \<or> \<not> su_received t < sx_expected_frames x")
    case True
    then show ?thesis using parsed by (auto simp: capture_subscription_event_def Let_def)
  next
    case False
    let ?r = "if su_received t = 0
      then validate_subscription_acknowledgment v (sx_subscription_id x) (sx_filter x) (sx_accepted_filter x)
      else validate_subscription_notification v (sx_subscription_id x) (sx_accepted_filter x) (su_received t)"
    have ok: "?r = Inr () \<longleftrightarrow> frame_allowed x (su_received t) v"
      by (simp add: frame_allowed_def validate_ack validate_later)
    show ?thesis
    proof (cases ?r)
      case (Inl e)
      then have "\<not> frame_allowed x (su_received t) v" using ok by simp
      then show ?thesis using parsed False Inl by (simp add: capture_subscription_event_def Let_def)
    next
      case (Inr u')
      then have "frame_allowed x (su_received t) v" using ok by simp
      then show ?thesis using parsed False Inr
        by (auto simp: capture_subscription_event_def Let_def advance_def signal_subscription_acknowledgment_def)
    qed
  qed
qed

lemma advance_simps [simp]:
  "su_received (advance k t) = su_received t + k" "su_reads (advance k t) = su_reads t"
  "su_decoder (advance k t) = su_decoder t" "su_result (advance k t) = su_result t"
  "advance 0 t = t" "advance k (advance (Suc 0) t) = advance (Suc k) t"
  by (auto simp: advance_def)

lemma capture_events_iff:
  "capture_subscription_events S clock x es (t, p) = (Inr u, t', p') \<longleftrightarrow>
     (\<exists>bss frames. frames_of S x es = Some (bss, frames) \<and> legal x (su_received t) frames
        \<and> t' = advance (length frames) t \<and> p' = foldl (\<lambda>p bs. record_bytes S clock bs p) p bss)"
proof (induction es arbitrary: t p)
  case (Cons e es)
  show ?case
  proof (cases e)
    case (SseJson bs)
    show ?thesis
    proof (cases "\<exists>t1 p1. capture_subscription_event S clock x (SseJson bs) (t, p) = (Inr (), t1, p1)")
      case True
      then obtain t1 p1 where e1: "capture_subscription_event S clock x (SseJson bs) (t, p) = (Inr (), t1, p1)" by blast
      then obtain v where v: "parse_json S bs = Some v" "p1 = record_bytes S clock bs p"
          "if is_subscription_terminal_response v (sx_subscription_id x) then t1 = t
           else su_received t < sx_expected_frames x \<and> frame_allowed x (su_received t) v \<and> t1 = advance 1 t"
        unfolding capture_event_iff by blast
      have step: "capture_subscription_events S clock x (e # es) (t, p) = capture_subscription_events S clock x es (t1, p1)"
        using e1 SseJson by simp
      show ?thesis
      proof (cases "frames_of S x es")
        case None
        then show ?thesis unfolding step Cons.IH using v(1) SseJson by simp
      next
        case (Some r)
        obtain css vs where r: "r = (css, vs)" by (cases r)
        show ?thesis unfolding step Cons.IH using v Some r SseJson
          by (cases "is_subscription_terminal_response v (sx_subscription_id x)") simp_all
      qed
    next
      case False
      obtain r t1 p1 where one: "capture_subscription_event S clock x (SseJson bs) (t, p) = (r, t1, p1)"
        by (rule prod_cases3)
      then obtain err where "r = Inl err" using False by (cases r) auto
      with one have wrong: "capture_subscription_events S clock x (e # es) (t, p) \<noteq> (Inr u, t', p')"
        using SseJson by simp
      have "\<not> legal x (su_received t) frames" if "frames_of S x (e # es) = Some (bss, frames)" for bss frames
      proof
        assume l: "legal x (su_received t) frames"
        from that SseJson obtain v css vs where v: "parse_json S bs = Some v" "frames_of S x es = Some (css, vs)"
            "frames = (if is_subscription_terminal_response v (sx_subscription_id x) then vs else v # vs)"
          by (auto split: option.splits)
        have "capture_subscription_event S clock x (SseJson bs) (t, p)
            = (Inr (), if is_subscription_terminal_response v (sx_subscription_id x) then t else advance 1 t, record_bytes S clock bs p)"
          unfolding capture_event_iff using v l by (cases "is_subscription_terminal_response v (sx_subscription_id x)") simp_all
        then show False using False by simp
      qed
      then show ?thesis using wrong by blast
    qed
  qed (simp_all add: capture_subscription_event_def)
qed auto

section \<open>The whole stream\<close>

fun subscription_events :: "sse_decoder \<Rightarrow> bytes list \<Rightarrow> sse_event list" where
  "subscription_events d [] = snd (sse_finish d)"
| "subscription_events d (c # cs) = (let (d1, es) = sse_push d c in es @ subscription_events d1 cs)"

lemma run_task_finished: "su_result t \<noteq> None \<Longrightarrow> run_task S clock x n (t, p) = (t, p)"
  by (induction n) (auto simp: task_step_def)

text \<open>When a task that has read nothing else still has these chunks to read, what makes it succeed.\<close>

definition completes ::
  "serde \<Rightarrow> (u64 \<Rightarrow> i64) \<Rightarrow> subscription_expectation \<Rightarrow> bytes list \<Rightarrow> subscription_task \<Rightarrow> pump \<Rightarrow> pump \<Rightarrow> bool" where
  "completes S clock x cs t p p' \<longleftrightarrow>
     (\<exists>bss frames. frames_of S x (subscription_events (su_decoder t) cs) = Some (bss, frames) \<and> legal x (su_received t) frames
        \<and> su_received t + length frames = sx_expected_frames x
        \<and> su_signal (advance (length frames) t) \<noteq> None \<and> p' = foldl (\<lambda>p bs. record_bytes S clock bs p) p bss)"

lemma frames_of_append_Some:
  "frames_of S x es = Some (bss, vs) \<Longrightarrow> frames_of S x (es @ es') = Some r \<longleftrightarrow>
     (\<exists>css ws. frames_of S x es' = Some (css, ws) \<and> r = (bss @ css, vs @ ws))"
  by (auto simp: frames_of_append join_frames_def split: option.splits)

lemma frames_of_append_None: "frames_of S x es = None \<Longrightarrow> frames_of S x (es @ es') = None"
  by (simp add: frames_of_append join_frames_def)

lemma advance_advance: "advance k (advance j t) = advance (j + k) t"
  by (auto simp: advance_def)

lemma advance_updates:
  "advance k (t\<lparr>su_reads := r, su_decoder := d\<rparr>) = (advance k t)\<lparr>su_reads := r, su_decoder := d\<rparr>"
  "advance k (t\<lparr>su_decoder := d\<rparr>) = (advance k t)\<lparr>su_decoder := d\<rparr>"
  "advance k (t\<lparr>su_reads := r\<rparr>) = (advance k t)\<lparr>su_reads := r\<rparr>"
  by (simp_all add: advance_def)

lemma completes_unique: "completes S clock x cs t p q \<Longrightarrow> completes S clock x cs t p q' \<Longrightarrow> q = q'"
  by (auto simp: completes_def)

lemma last_step:
  assumes "su_result t = None" "su_reads t = []" "task_step S clock x (t, p) = (t', p')"
  shows "su_result t' = Some (Inr ()) \<longleftrightarrow> completes S clock x [] t p p'"
proof -
  obtain d es where fin: "sse_finish (su_decoder t) = (d, es)" by (cases "sse_finish (su_decoder t)")
  let ?t = "t\<lparr>su_decoder := d\<rparr>"
  obtain r t1 p1 where run: "capture_subscription_events S clock x es (?t, p) = (r, t1, p1)"
    by (cases "capture_subscription_events S clock x es (?t, p)")
  show ?thesis
  proof (cases r)
    case (Inl e)
    then have "\<not> (\<exists>bss frames. frames_of S x es = Some (bss, frames) \<and> legal x (su_received t) frames)"
      using run capture_events_iff[of S clock x es ?t p "()"] by fastforce
    then show ?thesis using assms fin run Inl by (auto simp: task_step_def completes_def)
  next
    case (Inr u)
    then obtain bss frames where ok: "frames_of S x es = Some (bss, frames)" "legal x (su_received t) frames"
        "t1 = advance (length frames) ?t" "p1 = foldl (\<lambda>p bs. record_bytes S clock bs p) p bss"
      using run unfolding Inr capture_events_iff by auto
    then show ?thesis using assms fin run Inr
      by (auto simp: task_step_def completes_def subscription_end_def advance_updates signal_subscription_acknowledgment_def
          split: if_splits)
  qed
qed

lemma last_step_pump:
  assumes "su_result t = None" "su_reads t = []" "task_step S clock x (t, p) = (t', p')" "completes S clock x [] t p q"
  shows "q = p'"
proof -
  obtain d es where fin: "sse_finish (su_decoder t) = (d, es)" by (cases "sse_finish (su_decoder t)")
  obtain bss frames where ok: "frames_of S x es = Some (bss, frames)" "legal x (su_received t) frames"
      "q = foldl (\<lambda>p bs. record_bytes S clock bs p) p bss"
    using assms(4) fin by (auto simp: completes_def)
  have "capture_subscription_events S clock x es (t\<lparr>su_decoder := d\<rparr>, p) = (Inr (), advance (length frames) (t\<lparr>su_decoder := d\<rparr>), q)"
    unfolding capture_events_iff using ok by auto
  then show ?thesis using assms(1-3) fin by (auto simp: task_step_def split: prod.splits)
qed

lemma first_step:
  assumes "su_result t = None" "su_reads t = StreamBytes c # rest" "task_step S clock x (t, p) = (t1, p1)"
  shows "(\<exists>d es bss frames. sse_push (su_decoder t) c = (d, es) \<and> frames_of S x es = Some (bss, frames)
      \<and> legal x (su_received t) frames \<and> t1 = (advance (length frames) t)\<lparr>su_reads := rest, su_decoder := d\<rparr>
      \<and> p1 = foldl (\<lambda>p bs. record_bytes S clock bs p) p bss)
    \<or> (su_result t1 \<noteq> None \<and> su_result t1 \<noteq> Some (Inr ()) \<and> (\<forall>bss frames.
        frames_of S x (snd (sse_push (su_decoder t) c)) = Some (bss, frames) \<longrightarrow> \<not> legal x (su_received t) frames))"
proof -
  obtain d es where push: "sse_push (su_decoder t) c = (d, es)" by (cases "sse_push (su_decoder t) c")
  let ?t = "t\<lparr>su_reads := rest, su_decoder := d\<rparr>"
  obtain r t2 p2 where run: "capture_subscription_events S clock x es (?t, p) = (r, t2, p2)"
    by (cases "capture_subscription_events S clock x es (?t, p)")
  show ?thesis
  proof (cases r)
    case (Inl e)
    then have "\<forall>bss frames. frames_of S x es = Some (bss, frames) \<longrightarrow> \<not> legal x (su_received t) frames"
      using run capture_events_iff[of S clock x es ?t p "()"] by fastforce
    then show ?thesis using assms push run Inl by (auto simp: task_step_def)
  next
    case (Inr u)
    then obtain bss frames where ok: "frames_of S x es = Some (bss, frames)" "legal x (su_received t) frames"
        "t2 = advance (length frames) ?t" "p2 = foldl (\<lambda>p bs. record_bytes S clock bs p) p bss"
      using run unfolding Inr capture_events_iff by auto
    then show ?thesis using assms push run Inr by (auto simp: task_step_def advance_updates)
  qed
qed

lemma run_chunks:
  "su_result t = None \<Longrightarrow> su_reads t = map StreamBytes cs \<Longrightarrow>
     su_result (fst (run_task S clock x (Suc (length cs)) (t, p))) = Some (Inr ())
       \<and> snd (run_task S clock x (Suc (length cs)) (t, p)) = p'
     \<longleftrightarrow> completes S clock x cs t p p'"
proof (induction cs arbitrary: t p)
  case Nil
  obtain t1 p1 where step: "task_step S clock x (t, p) = (t1, p1)" by (cases "task_step S clock x (t, p)")
  have one: "su_result t1 = Some (Inr ()) \<longleftrightarrow> completes S clock x [] t p p1"
    by (rule last_step[OF Nil(1) _ step]) (use Nil(2) in simp)
  have ran: "run_task S clock x (Suc (length [])) (t, p) = (t1, p1)" using step by simp
  show ?case
  proof (cases "\<exists>q. completes S clock x [] t p q")
    case True
    then obtain q where q: "completes S clock x [] t p q" ..
    then have "q = p1" using last_step_pump[OF Nil(1) _ step q] Nil(2) by simp
    then show ?thesis unfolding ran fst_conv snd_conv one using q completes_unique by blast
  next
    case False
    then show ?thesis unfolding ran fst_conv snd_conv one by blast
  qed
next
  case (Cons c cs)
  obtain t1 p1 where step: "task_step S clock x (t, p) = (t1, p1)" by (cases "task_step S clock x (t, p)")
  have reads: "su_reads t = StreamBytes c # map StreamBytes cs" using Cons.prems(2) by simp
  from first_step[OF Cons.prems(1) reads step] show ?case
  proof (elim disjE exE conjE)
    fix d es bss frames
    assume ok: "sse_push (su_decoder t) c = (d, es)" "frames_of S x es = Some (bss, frames)" "legal x (su_received t) frames"
      "t1 = (advance (length frames) t)\<lparr>su_reads := map StreamBytes cs, su_decoder := d\<rparr>"
      "p1 = foldl (\<lambda>p bs. record_bytes S clock bs p) p bss"
    have "completes S clock x cs t1 p1 p' \<longleftrightarrow> completes S clock x (c # cs) t p p'"
      by (auto simp: completes_def ok(1,4,5) frames_of_append_Some[OF ok(2)] legal_append ok(3) advance_updates
          advance_advance add.assoc Let_def)
    then show ?thesis using Cons.IH[of t1 p1] Cons.prems(1) step ok(4) by simp
  next
    assume bad: "su_result t1 \<noteq> None" "su_result t1 \<noteq> Some (Inr ())"
      "\<forall>bss frames. frames_of S x (snd (sse_push (su_decoder t) c)) = Some (bss, frames) \<longrightarrow> \<not> legal x (su_received t) frames"
    have "\<not> completes S clock x (c # cs) t p p'"
    proof
      assume "completes S clock x (c # cs) t p p'"
      then obtain bss frames where c: "frames_of S x (subscription_events (su_decoder t) (c # cs)) = Some (bss, frames)"
          "legal x (su_received t) frames" unfolding completes_def by blast
      obtain css vs where one: "frames_of S x (snd (sse_push (su_decoder t) c)) = Some (css, vs)"
        using c(1) frames_of_append_None by (cases "frames_of S x (snd (sse_push (su_decoder t) c))") (auto simp: Let_def split: prod.splits)
      obtain d es where push: "sse_push (su_decoder t) c = (d, es)" by (cases "sse_push (su_decoder t) c")
      have "frames_of S x (es @ subscription_events d cs) = Some (bss, frames)" using c(1) push by simp
      then obtain ws where "frames = vs @ ws" using one push by (auto simp: frames_of_append_Some[of S x es css vs])
      then show False using c(2) bad(3) one by (simp add: legal_append)
    qed
    then show ?thesis using step bad run_task_finished[OF bad(1)] by simp
  qed
qed

lemma subscription_events_bytes:
  "subscription_events d cs = (let (d1, es) = sse_bytes d (concat cs) in es @ snd (sse_finish d1))"
  by (induction cs arbitrary: d) (auto simp: sse_push_bytes sse_bytes_append Let_def split: prod.splits)

text \<open>The frames of a stream: every event is JSON, and what is not the final response is a frame.\<close>

definition stream_frames :: "serde \<Rightarrow> json \<Rightarrow> bytes list \<Rightarrow> bytes list \<Rightarrow> json list \<Rightarrow> bool" where
  "stream_frames S sid cs bss frames \<longleftrightarrow>
     subscription_events sse_default cs = map SseJson bss \<and>
     (\<exists>payloads. map (parse_json S) bss = map Some payloads
        \<and> frames = filter (\<lambda>v. \<not> is_subscription_terminal_response v sid) payloads)"

lemma stream_frames_iff:
  "frames_of S x (subscription_events sse_default cs) = Some (bss, frames) \<longleftrightarrow> stream_frames S (sx_subscription_id x) cs bss frames"
proof
  show "stream_frames S (sx_subscription_id x) cs bss frames"
    if "frames_of S x (subscription_events sse_default cs) = Some (bss, frames)"
    using frames_of_SomeD[OF that] by (simp add: stream_frames_def)
  show "frames_of S x (subscription_events sse_default cs) = Some (bss, frames)"
    if "stream_frames S (sx_subscription_id x) cs bss frames"
    using that frames_of_map[of S bss _ x] by (auto simp: stream_frames_def)
qed

lemma response_run:
  "capture_subscription_response S clock x (map StreamBytes cs) p
     = run_task S clock x (Suc (length cs)) (task_new (map StreamBytes cs), p)"
  by (simp add: capture_subscription_response_def)

lemma task_new_simps [simp]:
  "su_result (task_new reads) = None" "su_reads (task_new reads) = reads"
  "su_decoder (task_new reads) = sse_default" "su_received (task_new reads) = 0" "su_signal (task_new reads) = None"
  by (simp_all add: task_new_def)

lemma completes_start:
  assumes "0 < sx_expected_frames x"
  shows "completes S clock x cs (task_new (map StreamBytes cs)) p p' \<longleftrightarrow>
    (\<exists>bss frames. stream_frames S (sx_subscription_id x) cs bss frames
          \<and> length frames = sx_expected_frames x \<and> (\<forall>i < length frames. frame_allowed x i (frames ! i))
          \<and> p' = foldl (\<lambda>p bs. record_bytes S clock bs p) p bss)"
proof -
  let ?t = "task_new (map StreamBytes cs)"
  have t: "su_decoder ?t = sse_default" "su_received ?t = 0" by simp_all
  have sig: "su_signal (advance k ?t) \<noteq> None \<longleftrightarrow> 0 < k" for k by (simp add: advance_def)
  have "(legal x 0 frames \<and> length frames = sx_expected_frames x \<and> 0 < length frames) \<longleftrightarrow>
      (length frames = sx_expected_frames x \<and> (\<forall>i < length frames. frame_allowed x i (frames ! i)))" for frames
    using assms by (auto simp: legal_all)
  then show ?thesis unfolding completes_def t sig stream_frames_iff add_0 by blast
qed

text \<open>
  C9: what the capture of a subscription accepts.  However the connection cuts the stream, the task of a
  replayed subscription ends well exactly when the stream's frames are as many as the recording has, the first
  acknowledges the very filter that was accepted in the recording, inside the filter asked for, every
  other one is a notification that this filter grants and that names the subscription, and the rest are the
  final response; then every one of the stream's payloads went to the recorder, in order.
\<close>

theorem subscription_evidence_exact:
  assumes "0 < sx_expected_frames x"
  shows "(let (t, q) = capture_subscription_response S clock x (map StreamBytes cs) p in su_result t = Some (Inr ()) \<and> q = p')
    \<longleftrightarrow> (\<exists>bss frames. stream_frames S (sx_subscription_id x) cs bss frames
          \<and> length frames = sx_expected_frames x \<and> (\<forall>i < length frames. frame_allowed x i (frames ! i))
          \<and> p' = foldl (\<lambda>p bs. record_bytes S clock bs p) p bss)"
  unfolding completes_start[OF assms, symmetric] response_run
    run_chunks[OF task_new_simps(1) task_new_simps(2), symmetric] by (simp add: case_prod_beta del: run_task.simps)

section \<open>A recording replays itself\<close>

text \<open>The frames that the recording has for a subscription.\<close>

definition recorded_frames :: "serde \<Rightarrow> json \<Rightarrow> stored_message list \<Rightarrow> json list" where
  "recorded_frames S sid source =
     filter (\<lambda>v. subscription_id_from_notification v = Some sid)
       (List.map_filter (\<lambda>m. if msg_direction m = ''s2c'' then parse_json S (msg_payload m) else None) source)"

lemma map_filter_Cons: "List.map_filter f (a # as) = (case f a of None \<Rightarrow> [] | Some b \<Rightarrow> [b]) @ List.map_filter f as"
  by (simp add: List.map_filter_def split: option.split)

text \<open>\<open>legal\<close> without the bound on the number of frames.\<close>

fun trace_from :: "subscription_expectation \<Rightarrow> nat \<Rightarrow> json list \<Rightarrow> bool" where
  "trace_from x n [] \<longleftrightarrow> True"
| "trace_from x n (v # vs) \<longleftrightarrow> frame_allowed x n v \<and> trace_from x (Suc n) vs"

lemma trace_legal: "trace_from x n vs \<Longrightarrow> n + length vs \<le> sx_expected_frames x \<Longrightarrow> legal x n vs"
  by (induction x n vs rule: trace_from.induct) auto

lemma trace_all: "trace_from x n vs \<Longrightarrow> i < length vs \<Longrightarrow> frame_allowed x (n + i) (vs ! i)"
  by (induction x n vs arbitrary: i rule: trace_from.induct) (auto simp: nth_Cons split: nat.splits)

lemma recorded_frames_Cons:
  "recorded_frames S sid (m # ms) =
     (case if msg_direction m = ''s2c'' then parse_json S (msg_payload m) else None of
        Some v \<Rightarrow> if subscription_id_from_notification v = Some sid then [v] else []
      | None \<Rightarrow> []) @ recorded_frames S sid ms"
  by (simp add: recorded_frames_def map_filter_Cons split: option.split)

lemma recorded_frames_Nil: "recorded_frames S sid [] = []"
  by (simp add: recorded_frames_def List.map_filter_def)

lemma expectation_frames_later:
  "expectation_frames S ls sid f ms (Some (sx_accepted_filter x)) n = Inr (acc', n') \<Longrightarrow> 0 < n \<Longrightarrow>
     sx_subscription_id x = sid \<Longrightarrow>
     acc' = Some (sx_accepted_filter x) \<and> n' = n + length (recorded_frames S sid ms) \<and> trace_from x n (recorded_frames S sid ms)"
proof (induction ms arbitrary: n)
  case (Cons m ms)
  show ?case
  proof (cases "msg_direction m = ''s2c''")
    case True
    then obtain v where v: "parse_json S (msg_payload m) = Some v" using Cons.prems(1) by (auto split: option.splits)
    show ?thesis
    proof (cases "subscription_id_from_notification v = Some sid")
      case on: True
      then have ok: "validate_subscription_notification v sid (sx_accepted_filter x) n = Inr ()"
          "expectation_frames S ls sid f ms (Some (sx_accepted_filter x)) (n + 1) = Inr (acc', n')"
        using Cons.prems(1,2) True v by (auto split: if_splits)
      have "frame_allowed x n v" using ok(1) Cons.prems(2,3) by (simp add: validate_later frame_allowed_def)
      then show ?thesis using Cons.IH[OF ok(2)] Cons.prems(3) True v on by (simp add: recorded_frames_Cons)
    next
      case False
      then show ?thesis using Cons True v by (simp add: recorded_frames_Cons)
    qed
  next
    case False
    then show ?thesis using Cons by (simp add: recorded_frames_Cons)
  qed
qed (simp add: recorded_frames_Nil)

lemma expectation_frames_first:
  "expectation_frames S ls sid f ms acc 0 = Inr (acc', n') \<Longrightarrow> 0 < n' \<Longrightarrow> acc' = Some (sx_accepted_filter x) \<Longrightarrow>
     sx_subscription_id x = sid \<Longrightarrow> sx_filter x = f \<Longrightarrow>
     n' = length (recorded_frames S sid ms) \<and> trace_from x 0 (recorded_frames S sid ms)"
proof (induction ms arbitrary: acc)
  case (Cons m ms)
  show ?case
  proof (cases "msg_direction m = ''s2c''")
    case True
    then obtain v where v: "parse_json S (msg_payload m) = Some v" using Cons.prems(1) by (auto split: option.splits)
    show ?thesis
    proof (cases "subscription_id_from_notification v = Some sid")
      case on: True
      then obtain a where ok: "subscription_acknowledgment_filter v sid f = Inr a"
          "expectation_frames S ls sid f ms (Some a) 1 = Inr (acc', n')"
        using Cons.prems(1) True v by (auto split: if_splits)
      have "acc' = Some a" using expectation_frames_later[of S ls sid f ms "x\<lparr>sx_accepted_filter := a\<rparr>" 1 acc' n'] ok(2) Cons.prems(4) by simp
      then have a: "a = sx_accepted_filter x" using Cons.prems(3) by simp
      have "frame_allowed x 0 v" using ok(1) Cons.prems(4,5) a by (simp add: ack_filter frame_allowed_def)
      then show ?thesis using expectation_frames_later[of S ls sid f ms x 1 acc' n'] ok(2) Cons.prems(4) True v on a
        by (simp add: recorded_frames_Cons)
    next
      case False
      then show ?thesis using Cons True v by (simp add: recorded_frames_Cons)
    qed
  next
    case False
    then show ?thesis using Cons by (simp add: recorded_frames_Cons)
  qed
qed simp

lemma expectation_acc:
  "expectation_frames S ls sid f ms acc n = Inr (acc', n') \<Longrightarrow> (0 < n \<Longrightarrow> acc \<noteq> None) \<Longrightarrow> 0 < n' \<Longrightarrow> acc' \<noteq> None"
  by (induction S ls sid f ms acc n rule: expectation_frames.induct) (auto split: if_splits option.splits)

text \<open>
  a recording replays itself.  When the recorded subscription gives an expectation, a target that sends
  the recorded frames again, in any chunks and with any final response between them, is accepted.
\<close>

theorem recorded_subscription_accepted:
  assumes "expectation_for S source listen request = Inr x"
    and "stream_frames S (sx_subscription_id x) cs bss (recorded_frames S (sx_subscription_id x) source)"
  shows "su_result (fst (capture_subscription_response S clock x (map StreamBytes cs) p)) = Some (Inr ())"
proof -
  let ?vs = "recorded_frames S (sx_subscription_id x) source"
  obtain acc n where e: "expectation_frames S (msg_seq listen) (sx_subscription_id x) (sx_filter x) source None 0 = Inr (acc, n)"
      "n \<noteq> 0" "sx_accepted_filter x = the acc" "sx_expected_frames x = n"
    using assms(1) by (auto simp: expectation_for_def split: if_splits)
  have pos: "0 < sx_expected_frames x" using e(2,4) by simp
  have "acc \<noteq> None" using expectation_acc[OF e(1)] e(2) by simp
  then have acc: "acc = Some (sx_accepted_filter x)" using e(3) by auto
  from expectation_frames_first[OF e(1) _ acc] e(2) have tr: "n = length ?vs" "trace_from x 0 ?vs" by auto
  have "\<forall>i < length ?vs. frame_allowed x i (?vs ! i)" using trace_all[OF tr(2)] by simp
  then have "completes S clock x cs (task_new (map StreamBytes cs)) p (foldl (\<lambda>p bs. record_bytes S clock bs p) p bss)"
    unfolding completes_start[of x S clock cs p, OF pos] using assms(2) tr(1) e(4) by (intro exI conjI) auto
  then show ?thesis unfolding response_run using run_chunks[OF task_new_simps(1) task_new_simps(2)] by blast
qed

section \<open>Examples\<close>

definition ack_frame :: json where
  "ack_frame = JObject [(''jsonrpc'', JString ''2.0''), (''method'', JString ''notifications/subscriptions/acknowledged''),
     (''params'', JObject [(''_meta'', JObject [(''io.modelcontextprotocol/subscriptionId'', JNumber (PosInt 1))]),
       (''notifications'', JObject [(''toolsListChanged'', JBool True)])])]"

definition listen_request :: json where
  "listen_request = JObject [(''id'', JNumber (PosInt 1)), (''method'', JString ''subscriptions/listen''),
     (''params'', JObject [(''notifications'', JObject [(''toolsListChanged'', JBool True)])])]"

definition ack_serde :: serde where
  "ack_serde = \<lparr>parse_json = (\<lambda>s. if s = ''A'' then Some ack_frame else None), print_json = (\<lambda>v. ''A''),
     json_pointer = (\<lambda>v p. None), sha256_digest = (\<lambda>s. [])\<rparr>"

definition tools_only :: subscription_filter where
  "tools_only = no_notifications\<lparr>sf_tools_list_changed := True\<rparr>"

definition ack_expectation :: subscription_expectation where
  "ack_expectation = \<lparr>sx_subscription_id = JNumber (PosInt 1), sx_filter = tools_only,
     sx_accepted_filter = tools_only, sx_expected_frames = 1\<rparr>"

definition ack_message :: stored_message where
  "ack_message = \<lparr>msg_seq = 2, msg_ts_ns = 0, msg_direction = ''s2c'', msg_kind = ''notification'',
     msg_rpc_id = None, msg_method = None, msg_tool_name = None, msg_payload = ''A'', msg_payload_bytes = 1,
     msg_is_error = False, msg_error_code = None\<rparr>"

definition listen_message :: stored_message where
  "listen_message = \<lparr>msg_seq = 1, msg_ts_ns = 0, msg_direction = ''c2s'', msg_kind = ''request'',
     msg_rpc_id = Some ''1'', msg_method = Some ''subscriptions/listen'', msg_tool_name = None, msg_payload = ''L'',
     msg_payload_bytes = 1, msg_is_error = False, msg_error_code = None\<rparr>"

definition idle_pump :: pump where
  "idle_pump = \<lparr>pm_budget = budget_new 4096, pm_channel = \<lparr>ch_queue = [], ch_capacity = 4, ch_open = True\<rparr>,
     pm_seq = 1, pm_dropped = 0, pm_forwarded = []\<rparr>"

lemma ack_stream: "stream_frames ack_serde (JNumber (PosInt 1)) [''data: '', ''A'' @ [nl, nl]] [''A''] [ack_frame]"
proof -
  have "sse_bytes sse_default (data_line ''A'' @ [nl]) = (sse_default, [SseJson ''A''])"
    by (rule sse_bytes_event) (simp_all add: MAX_FRAME_BYTES_def)
  moreover have "data_line ''A'' @ [nl] = concat [''data: '', ''A'' @ [nl, nl]]" by (simp add: data_line_def)
  moreover have "sse_finish sse_default = (sse_default, [])" by (simp add: sse_finish_def sse_default_def has_pending_event_def)
  ultimately have "subscription_events sse_default [''data: '', ''A'' @ [nl, nl]] = map SseJson [''A'']"
    unfolding subscription_events_bytes by simp
  moreover have "map (parse_json ack_serde) [''A''] = map Some [ack_frame]" by (simp add: ack_serde_def)
  moreover have "[ack_frame] = filter (\<lambda>v. \<not> is_subscription_terminal_response v (JNumber (PosInt 1))) [ack_frame]"
    by code_simp
  ultimately show ?thesis unfolding stream_frames_def by blast
qed

lemma ack_parts:
  "json_get ack_frame ''jsonrpc'' = Some (JString ''2.0'')" "json_get ack_frame ''id'' = None"
  "subscription_id_from_notification ack_frame = Some (JNumber (PosInt 1))"
  "request_method ack_frame = Some ''notifications/subscriptions/acknowledged''"
  "params_notifications ack_frame = Some (JObject [(''toolsListChanged'', JBool True)])"
  by code_simp+

lemma tools_filter: "subscription_filter_from_value (JObject [(''toolsListChanged'', JBool True)]) = Inr tools_only"
  by (simp add: subscription_filter_from_value_def filter_setting_def tools_only_def bind_result_def)

lemma ack_allowed: "frame_allowed ack_expectation 0 ack_frame"
  unfolding frame_allowed_def acknowledges_def ack_parts
  by (simp add: ack_expectation_def tools_filter filter_subset_def)

lemma ack_id: "sx_subscription_id ack_expectation = JNumber (PosInt 1)"
  by (simp add: ack_expectation_def)

lemma subscription_evidence_exact_witness:
  "su_result (fst (capture_subscription_response ack_serde int ack_expectation
     (map StreamBytes [''data: '', ''A'' @ [nl, nl]]) idle_pump)) = Some (Inr ())"
proof -
  have "\<exists>bss frames. stream_frames ack_serde (sx_subscription_id ack_expectation) [''data: '', ''A'' @ [nl, nl]] bss frames
      \<and> length frames = sx_expected_frames ack_expectation \<and> (\<forall>i < length frames. frame_allowed ack_expectation i (frames ! i))
      \<and> foldl (\<lambda>p bs. record_bytes ack_serde int bs p) idle_pump [''A''] = foldl (\<lambda>p bs. record_bytes ack_serde int bs p) idle_pump bss"
    using ack_stream ack_allowed by (intro exI[of _ "[''A'']"] exI[of _ "[ack_frame]"]) (simp add: ack_expectation_def)
  then show ?thesis
    using subscription_evidence_exact[of ack_expectation ack_serde int "[''data: '', ''A'' @ [nl, nl]]" idle_pump
        "foldl (\<lambda>p bs. record_bytes ack_serde int bs p) idle_pump [''A'']"]
    by (simp add: ack_expectation_def case_prod_beta)
qed

lemma recorded_subscription_accepted_witness:
  "expectation_for ack_serde [listen_message, ack_message] listen_message listen_request = Inr ack_expectation \<and>
   su_result (fst (capture_subscription_response ack_serde int ack_expectation
     (map StreamBytes [''data: '', ''A'' @ [nl, nl]]) idle_pump)) = Some (Inr ())"
proof (rule conjI)
  show e: "expectation_for ack_serde [listen_message, ack_message] listen_message listen_request = Inr ack_expectation"
    by code_simp
  have "recorded_frames ack_serde (JNumber (PosInt 1)) [listen_message, ack_message] = [ack_frame]" by code_simp
  then show "su_result (fst (capture_subscription_response ack_serde int ack_expectation
     (map StreamBytes [''data: '', ''A'' @ [nl, nl]]) idle_pump)) = Some (Inr ())"
    using recorded_subscription_accepted[OF e] ack_stream unfolding ack_id by metis
qed

end
