(* ===== verification/HttpDrive.thy ===== *)
theory HttpDrive
  imports HttpSubscription Replay
begin

text \<open>
  The driver of \<open>crates/mcptracer-proxy/src/commands/replay_http.rs\<close>: the recorded client messages posted one
  after the other, their responses captured, retries with more input, and the subscriptions that run
  beside it.  The target is a list of answers, one per post.  The capture tasks run at the awaits of the
  driver: a schedule gives, for each await, the tasks that take a step there.  A call that never returns
  is \<open>None\<close>.
\<close>

section \<open>The target and the world\<close>

datatype body_end = BodyEnds | BodyFails | BodyStalls

record target_response =
  tr_status :: nat
  tr_session :: "string option"
  tr_content_type :: "string option"
  tr_chunks :: "bytes list"
  tr_end :: body_end

datatype answer = SendFailed | SendStalled | Answered target_response

record active_subscription =
  ac_source_seq :: u64
  ac_expectation :: subscription_expectation
  ac_task :: subscription_task
  ac_closed :: bool

record http_env =
  he_serde :: serde
  he_codec :: http_codec
  he_clock :: "u64 \<Rightarrow> i64"
  he_extra :: header_map

record world =
  hw_pump :: pump
  hw_session :: "string option"
  hw_posts :: "(header_map \<times> json) list"
  hw_answers :: "answer list"
  hw_schedule :: "nat list list"
  hw_subscriptions :: "active_subscription list"
  hw_retry_id :: u64

text \<open>What a timeout leaves of a call: no value, and whatever the call had done so far.\<close>

datatype 'a timed = Stalled | Finished "string + 'a"

definition step_subscription :: "http_env \<Rightarrow> world \<Rightarrow> nat \<Rightarrow> world" where
  "step_subscription env w i =
     (if i < length (hw_subscriptions w)
      then let s = hw_subscriptions w ! i;
               (t, p) = task_step (he_serde env) (he_clock env) (ac_expectation s) (ac_task s, hw_pump w)
           in w\<lparr>hw_pump := p, hw_subscriptions := (hw_subscriptions w)[i := s\<lparr>ac_task := t\<rparr>]\<rparr>
      else w)"

definition await_point :: "http_env \<Rightarrow> world \<Rightarrow> world" where
  "await_point env w =
     (case hw_schedule w of
        [] \<Rightarrow> w
      | steps # schedule \<Rightarrow> foldl (step_subscription env) (w\<lparr>hw_schedule := schedule\<rparr>) steps)"

section \<open>Posting\<close>

definition record_sent :: "http_env \<Rightarrow> json \<Rightarrow> world \<Rightarrow> world" where
  "record_sent env v w =
     (let (sq, p) = reserve_capture_stamp (hw_pump w)
      in w\<lparr>hw_pump := try_record p
           \<lparr>m_seq = sq, m_timestamp_ns = he_clock env sq, m_direction = ClientToServer, m_payload = v,
            m_payload_bytes = length (print_json (he_serde env) v)\<rparr>\<rparr>)"

text \<open>A target that has no answer left never answers.\<close>

definition post :: "http_env \<Rightarrow> header_map \<Rightarrow> json \<Rightarrow> world \<Rightarrow> answer \<times> world" where
  "post env headers v w =
     (let w1 = await_point env (w\<lparr>hw_posts := hw_posts w @ [(headers, v)]\<rparr>)
      in case hw_answers w1 of
           [] \<Rightarrow> (SendStalled, w1)
         | a # answers \<Rightarrow> (a, w1\<lparr>hw_answers := answers\<rparr>))"

section \<open>Responses\<close>

fun read_capped :: "usize \<Rightarrow> bytes list \<Rightarrow> body_end \<Rightarrow> bytes \<Rightarrow> (bytes \<times> bool) timed" where
  "read_capped cap [] BodyEnds buf = Finished (Inr (buf, False))"
| "read_capped cap [] BodyFails buf = Finished (Inl ''failed to read response body'')"
| "read_capped cap [] BodyStalls buf = Stalled"
| "read_capped cap (c # cs) ending buf =
     (if saturating_add (length buf) (length c) > cap then Finished (Inr (buf, True))
      else read_capped cap cs ending (buf @ c))"

definition pump_drop :: "world \<Rightarrow> world" where
  "pump_drop w = w\<lparr>hw_pump := count_drop (hw_pump w)\<rparr>"

definition record_target_bytes :: "http_env \<Rightarrow> bytes \<Rightarrow> world \<Rightarrow> world" where
  "record_target_bytes env bs w = w\<lparr>hw_pump := record_bytes (he_serde env) (he_clock env) bs (hw_pump w)\<rparr>"

definition capture_json_response :: "http_env \<Rightarrow> target_response \<Rightarrow> world \<Rightarrow> input_required option timed \<times> world" where
  "capture_json_response env r w =
     (let w1 = await_point env w
      in case read_capped MAX_FRAME_BYTES (tr_chunks r) (tr_end r) [] of
        Stalled \<Rightarrow> (Stalled, w1)
      | Finished (Inl e) \<Rightarrow> (Finished (Inl e), w1)
      | Finished (Inr (bs, too_large)) \<Rightarrow>
          if too_large then (Finished (Inr None), pump_drop w1)
          else if bs = [] then (Finished (Inr None), w1)
          else (Finished (input_required_from_bytes (he_serde env) bs), record_target_bytes env bs w1))"

fun record_target_event :: "http_env \<Rightarrow> sse_event \<Rightarrow> world \<Rightarrow> (string + input_required option) \<times> world" where
  "record_target_event env (SseJson bs) w =
     (input_required_from_bytes (he_serde env) bs, record_target_bytes env bs w)"
| "record_target_event env SseOversized w = (Inr None, pump_drop w)"
| "record_target_event env SseIncomplete w = (Inr None, pump_drop w)"

definition collect_input_required ::
  "input_required option \<Rightarrow> input_required option \<Rightarrow> string + input_required option" where
  "collect_input_required observed next_input =
     (case next_input of
        None \<Rightarrow> Inr observed
      | Some i \<Rightarrow>
          if observed \<noteq> None then Inl ''target response contains more than one input_required result''
          else Inr (Some i))"

fun record_target_events ::
  "http_env \<Rightarrow> sse_event list \<Rightarrow> input_required option \<Rightarrow> world \<Rightarrow> (string + input_required option) \<times> world" where
  "record_target_events env [] observed w = (Inr observed, w)"
| "record_target_events env (event # events) observed w =
     (let (r, w1) = record_target_event env event w
      in case bind_result r (collect_input_required observed) of
           Inl e \<Rightarrow> (Inl e, w1)
         | Inr observed1 \<Rightarrow> record_target_events env events observed1 w1)"

fun capture_sse_response ::
  "http_env \<Rightarrow> sse_decoder \<Rightarrow> bytes list \<Rightarrow> body_end \<Rightarrow> input_required option \<Rightarrow> world
     \<Rightarrow> input_required option timed \<times> world" where
  "capture_sse_response env d [] ending observed w =
     (let w1 = await_point env w
      in case ending of
           BodyStalls \<Rightarrow> (Stalled, w1)
         | BodyFails \<Rightarrow> (Finished (Inl ''failed to read SSE response body''), w1)
         | BodyEnds \<Rightarrow>
             (let (r, w2) = record_target_events env (snd (sse_finish d)) observed w1 in (Finished r, w2)))"
| "capture_sse_response env d (c # cs) ending observed w =
     (let w1 = await_point env w;
          (d1, events) = sse_push d c;
          (r, w2) = record_target_events env events observed w1
      in case r of
           Inl e \<Rightarrow> (Finished (Inl e), w2)
         | Inr observed1 \<Rightarrow> capture_sse_response env d1 cs ending observed1 w2)"

definition is_success :: "nat \<Rightarrow> bool" where
  "is_success status \<longleftrightarrow> 200 \<le> status \<and> status < 300"

definition content_type_of :: "target_response \<Rightarrow> string" where
  "content_type_of r = map to_ascii_lowercase (case tr_content_type r of Some v \<Rightarrow> v | None \<Rightarrow> [])"

definition keep_session :: "target_response \<Rightarrow> world \<Rightarrow> world" where
  "keep_session r w = (if hw_session w = None then w\<lparr>hw_session := tr_session r\<rparr> else w)"

definition handle_response ::
  "http_env \<Rightarrow> bool \<Rightarrow> target_response \<Rightarrow> world \<Rightarrow> input_required option timed \<times> world" where
  "handle_response env is_request r w =
     (let w1 = keep_session r w; content_type = content_type_of r
      in if \<not> is_success (tr_status r)
         then let w2 = await_point env w1
              in (case read_capped MAX_FRAME_BYTES (tr_chunks r) (tr_end r) [] of
                    Stalled \<Rightarrow> Stalled
                  | _ \<Rightarrow> Finished (Inl ''target rejected replayed message''), w2)
         else if prefix ''text/event-stream'' content_type
         then capture_sse_response env sse_default (tr_chunks r) (tr_end r) None w1
         else if prefix ''application/json'' content_type
         then capture_json_response env r w1
         else if \<not> is_request \<or> tr_status r = 202 then (Finished (Inr None), w1)
         else (Finished (Inl ''server returned an unsupported response envelope''), w1))"

definition send_and_read :: "http_env \<Rightarrow> header_map \<Rightarrow> json \<Rightarrow> world \<Rightarrow> input_required option timed \<times> world" where
  "send_and_read env headers v w =
     (case post env headers v (record_sent env v w) of
        (SendFailed, w1) \<Rightarrow> (Finished (Inl ''HTTP replay request failed''), w1)
      | (SendStalled, w1) \<Rightarrow> (Stalled, w1)
      | (Answered r, w1) \<Rightarrow> handle_response env (json_get v ''id'' \<noteq> None) r w1)"

section \<open>One exchange, with its retries\<close>

definition exchange_headers ::
  "http_env \<Rightarrow> stored_message list \<Rightarrow> stored_message \<Rightarrow> json \<Rightarrow> string option \<Rightarrow> string + header_map" where
  "exchange_headers env source source_message replay_request session_id =
     bind_result (modern_tool_name replay_request) (\<lambda>tool.
     bind_result (case tool of
         Some tool_name \<Rightarrow> tool_header_bindings_at (he_serde env) (he_codec env) source (msg_seq source_message) tool_name
       | None \<Rightarrow> Inr []) (\<lambda>tool_headers.
     build_request_headers (he_codec env) (he_extra env) session_id replay_request tool_headers))"

definition retry_request_id :: "u64 \<Rightarrow> json" where
  "retry_request_id n = JString (''mcptracer-replay-mrtr-'' @ nat_dec n)"

text \<open>The inner loop; its value is the messages that are left to drive.\<close>

function replay_exchange ::
  "http_env \<Rightarrow> stored_message list \<Rightarrow> json \<Rightarrow> json \<Rightarrow> stored_message \<Rightarrow> usize \<Rightarrow> stored_message list \<Rightarrow> world
     \<Rightarrow> (string + stored_message list) \<times> world" where
  "replay_exchange env source source_request replay_request source_message rounds rest w =
     (case exchange_headers env source source_message replay_request (hw_session w) of
        Inl e \<Rightarrow> (Inl e, w)
      | Inr headers \<Rightarrow>
          (case send_and_read env headers replay_request w of
             (Stalled, w1) \<Rightarrow> (Inr rest, w1)
           | (Finished (Inl e), w1) \<Rightarrow> (Inl e, w1)
           | (Finished (Inr None), w1) \<Rightarrow> (Inr rest, w1)
           | (Finished (Inr (Some input)), w1) \<Rightarrow>
               if \<not> is_mrtr_capable_request replay_request
               then (Inl ''target returned resultType=input_required for a request without MRTR support'', w1)
               else if rounds + 1 > MAX_MRTR_ROUNDS then (Inl ''target requested too many multi-round-trip retries'', w1)
               else case rest of
                 [] \<Rightarrow> (Inl ''target returned resultType=input_required, but the recording has no following retry request'', w1)
               | retry_message # rest1 \<Rightarrow>
                   (case parse_json (he_serde env) (msg_payload retry_message) of
                      None \<Rightarrow> (Inl ''source message is not valid JSON'', w1)
                    | Some recorded_retry \<Rightarrow>
                        let w2 = w1\<lparr>hw_retry_id := wrapping_inc (hw_retry_id w1)\<rparr>
                        in case build_mrtr_retry_request source_request recorded_retry input (retry_request_id (hw_retry_id w1)) of
                             Inl e \<Rightarrow> (Inl e, w2)
                           | Inr next_request \<Rightarrow>
                               replay_exchange env source recorded_retry next_request retry_message (rounds + 1) rest1 w2)))"
  by pat_completeness auto

termination
  by (relation "measure (\<lambda>(env, source, sr, rr, m, rounds, rest, w). length rest)") auto

section \<open>Subscriptions\<close>

text \<open>
  The wait for the acknowledgment: the task runs as far as the schedule lets it before the timeout.
\<close>

definition stream_reads :: "target_response \<Rightarrow> stream_read list" where
  "stream_reads r = map StreamBytes (tr_chunks r) @
     (case tr_end r of BodyEnds \<Rightarrow> [] | BodyFails \<Rightarrow> [StreamFailed] | BodyStalls \<Rightarrow> [StreamStalled])"

definition start_subscription_replay ::
  "http_env \<Rightarrow> json \<Rightarrow> u64 \<Rightarrow> subscription_expectation \<Rightarrow> world \<Rightarrow> ((string + unit) \<times> world) option" where
  "start_subscription_replay env request source_seq x w =
     (case build_request_headers (he_codec env) (he_extra env) None request [] of
        Inl e \<Rightarrow> Some (Inl e, w)
      | Inr headers \<Rightarrow>
          (case post env headers request (record_sent env request w) of
             (SendFailed, w1) \<Rightarrow> Some (Inl ''subscriptions/listen replay request failed'', w1)
           | (SendStalled, w1) \<Rightarrow> Some (Inl ''subscriptions/listen did not receive response headers'', w1)
           | (Answered r, w1) \<Rightarrow>
               if \<not> is_success (tr_status r)
               then (case read_capped MAX_FRAME_BYTES (tr_chunks r) (tr_end r) [] of
                       Stalled \<Rightarrow> None
                     | Finished _ \<Rightarrow> Some (Inl ''target rejected subscriptions/listen'', await_point env w1))
               else if \<not> prefix ''text/event-stream'' (content_type_of r)
               then Some (Inl ''modern subscriptions require text/event-stream'', w1)
               else
                 let i = length (hw_subscriptions w1);
                     w2 = await_point env (w1\<lparr>hw_subscriptions := hw_subscriptions w1 @
                       [\<lparr>ac_source_seq = source_seq, ac_expectation = x, ac_task = task_new (stream_reads r), ac_closed = False\<rparr>]\<rparr>);
                     t = ac_task (hw_subscriptions w2 ! i)
                 in Some (case su_signal t of
                      Some (Inr _) \<Rightarrow> Inr ()
                    | Some (Inl detail) \<Rightarrow> Inl ''target subscriptions/listen has invalid acknowledgment''
                    | None \<Rightarrow>
                        if su_result t \<noteq> None then Inl ''target subscriptions/listen closed before its acknowledgment''
                        else Inl ''target subscriptions/listen did not acknowledge'', w2)))"

text \<open>\<open>check_active_subscriptions\<close>: the tasks that have ended are closed, up to the first that ended in error.\<close>

fun check_active_subscriptions :: "active_subscription list \<Rightarrow> (string + unit) \<times> active_subscription list" where
  "check_active_subscriptions [] = (Inr (), [])"
| "check_active_subscriptions (s # ss) =
     (if ac_closed s \<or> su_result (ac_task s) = None
      then let (r, ss1) = check_active_subscriptions ss in (r, s # ss1)
      else let s1 = s\<lparr>ac_closed := True\<rparr>
      in case the (su_result (ac_task s)) of
           Inl e \<Rightarrow> (Inl e, s1 # ss)
         | Inr _ \<Rightarrow>
             if su_received (ac_task s) \<noteq> sx_expected_frames (ac_expectation s)
             then (Inl ''subscriptions/listen ended too early'', s1 # ss)
             else let (r, ss1) = check_active_subscriptions ss in (r, s1 # ss1))"

definition check_subscriptions :: "world \<Rightarrow> (string + unit) \<times> world" where
  "check_subscriptions w =
     (let (r, ss) = check_active_subscriptions (hw_subscriptions w) in (r, w\<lparr>hw_subscriptions := ss\<rparr>))"

definition evidence_received :: "active_subscription \<Rightarrow> bool" where
  "evidence_received s \<longleftrightarrow> su_received (ac_task s) = sx_expected_frames (ac_expectation s)"

text \<open>The polling loop; the fuel is the number of polls until the deadline.\<close>

fun wait_for_subscriptions :: "http_env \<Rightarrow> nat \<Rightarrow> world \<Rightarrow> (string + unit) \<times> world" where
  "wait_for_subscriptions env polls w =
     (case check_subscriptions w of
        (Inl e, w1) \<Rightarrow> (Inl e, w1)
      | (Inr _, w1) \<Rightarrow>
          if list_all evidence_received (hw_subscriptions w1)
          then (Inr (), w1\<lparr>hw_subscriptions := map (\<lambda>s. s\<lparr>ac_closed := True\<rparr>) (hw_subscriptions w1)\<rparr>)
          else case polls of
            0 \<Rightarrow> (Inl ''timed out waiting for subscriptions/listen evidence'', w1)
          | Suc n \<Rightarrow> wait_for_subscriptions env n (await_point env w1))"

section \<open>The driver\<close>

definition start_listen :: "http_env \<Rightarrow> stored_message list \<Rightarrow> stored_message \<Rightarrow> json \<Rightarrow> world \<Rightarrow> ((string + unit) \<times> world) option" where
  "start_listen env source m request w =
     (case expectation_for (he_serde env) source m request of
        Inl e \<Rightarrow> Some (Inl e, w)
      | Inr x \<Rightarrow>
          if list_ex (\<lambda>s. sx_subscription_id (ac_expectation s) = sx_subscription_id x) (hw_subscriptions w)
          then Some (Inl ''source reuses an active subscriptions/listen JSON-RPC id'', w)
          else start_subscription_replay env request (msg_seq m) x w)"

declare replay_exchange.simps [simp del]

lemma replay_exchange_ok:
  assumes "replay_exchange env source sr rr m rounds rest w = (Inr rest', w')"
  obtains (finished) headers a where "exchange_headers env source m rr (hw_session w) = Inr headers"
      "send_and_read env headers rr w = (a, w')" "a = Stalled \<or> a = Finished (Inr None)" "rest' = rest"
    | (retry) headers w1 input retry_message rest1 recorded next_request where
      "exchange_headers env source m rr (hw_session w) = Inr headers"
      "send_and_read env headers rr w = (Finished (Inr (Some input)), w1)"
      "is_mrtr_capable_request rr" "rounds + 1 \<le> MAX_MRTR_ROUNDS" "rest = retry_message # rest1"
      "parse_json (he_serde env) (msg_payload retry_message) = Some recorded"
      "build_mrtr_retry_request sr recorded input (retry_request_id (hw_retry_id w1)) = Inr next_request"
      "replay_exchange env source recorded next_request retry_message (rounds + 1) rest1
         (w1\<lparr>hw_retry_id := wrapping_inc (hw_retry_id w1)\<rparr>) = (Inr rest', w')"
proof -
  note eq = assms[unfolded replay_exchange.simps[of env source sr rr m rounds rest w]]
  from eq obtain headers where h: "exchange_headers env source m rr (hw_session w) = Inr headers"
    by (cases "exchange_headers env source m rr (hw_session w)") auto
  obtain a w1 where sent: "send_and_read env headers rr w = (a, w1)" by (cases "send_and_read env headers rr w")
  show thesis
  proof (cases a)
    case Stalled
    then show thesis using eq h sent finished by simp
  next
    case (Finished r)
    show thesis
    proof (cases r)
      case (Inl e)
      then show thesis using eq h sent Finished by simp
    next
      case (Inr found)
      show thesis
      proof (cases found)
        case None
        then show thesis using eq h sent Finished Inr finished by simp
      next
        case (Some input)
        then have cap: "is_mrtr_capable_request rr" "rounds + 1 \<le> MAX_MRTR_ROUNDS"
          using eq h sent Finished Inr by (simp_all split: if_splits)
        then obtain rm rest1 where rest: "rest = rm # rest1" using eq h sent Finished Inr Some by (cases rest) simp_all
        then obtain recorded where p: "parse_json (he_serde env) (msg_payload rm) = Some recorded"
          using eq h sent Finished Inr Some cap by (cases "parse_json (he_serde env) (msg_payload rm)") simp_all
        then obtain n where b: "build_mrtr_retry_request sr recorded input (retry_request_id (hw_retry_id w1)) = Inr n"
          using eq h sent Finished Inr Some cap rest
          by (cases "build_mrtr_retry_request sr recorded input (retry_request_id (hw_retry_id w1))") (simp_all add: Let_def)
        then show thesis using eq h sent Finished Inr Some cap rest p retry by (simp add: Let_def)
      qed
    qed
  qed
qed

lemma replay_exchange_rest:
  "replay_exchange env source sr rr m rounds rest w = (Inr rest', w') \<Longrightarrow> length rest' \<le> length rest"
proof (induction rest arbitrary: sr rr m rounds w rule: length_induct)
  case (1 rest)
  from "1.prems" show ?case
  proof (cases rule: replay_exchange_ok)
    case (retry headers w1 input rm rest1 recorded n)
    have "length rest' \<le> length rest1" by (rule "1.IH"[rule_format, OF _ retry(8)]) (use retry(5) in simp)
    then show ?thesis using retry(5) by simp
  qed simp
qed

function drive_http ::
  "http_env \<Rightarrow> stored_message list \<Rightarrow> nat \<Rightarrow> stored_message list \<Rightarrow> world \<Rightarrow> ((string + unit) \<times> world) option" where
  "drive_http env source polls [] w = Some (wait_for_subscriptions env polls w)"
| "drive_http env source polls (m # driven) w =
     (case parse_json (he_serde env) (msg_payload m) of
        None \<Rightarrow> Some (Inl ''source message is not valid JSON'', w)
      | Some request \<Rightarrow>
          if is_modern_subscription_listen request
          then (case start_listen env source m request w of
                  None \<Rightarrow> None
                | Some (Inl e, w1) \<Rightarrow> Some (Inl e, w1)
                | Some (Inr _, w1) \<Rightarrow>
                    (case check_subscriptions w1 of
                       (Inl e, w2) \<Rightarrow> Some (Inl e, w2)
                     | (Inr _, w2) \<Rightarrow> drive_http env source polls driven w2))
          else (case replay_exchange env source request request m 0 driven w of
                  (Inl e, w1) \<Rightarrow> Some (Inl e, w1)
                | (Inr rest, w1) \<Rightarrow>
                    (case check_subscriptions w1 of
                       (Inl e, w2) \<Rightarrow> Some (Inl e, w2)
                     | (Inr _, w2) \<Rightarrow> drive_http env source polls rest w2)))"
  by pat_completeness auto

termination
  by (relation "measure (\<lambda>(env, source, polls, driven, w). length driven)")
    (auto dest!: replay_exchange_rest[OF sym])

section \<open>The command\<close>

text \<open>
  \<open>terminate_target_session\<close>: the DELETE has no timeout, so a target that does not answer it keeps the
  command for ever.
\<close>

definition termination_headers :: "http_env \<Rightarrow> string \<Rightarrow> header_map" where
  "termination_headers env session_id =
     (case hk_header_value (he_codec env) session_id of
        None \<Rightarrow> he_extra env
      | Some v \<Rightarrow> header_insert ''mcp-session-id'' v (he_extra env))"

definition http_driven :: "stored_message list \<Rightarrow> string list \<Rightarrow> string list \<Rightarrow> stored_message list" where
  "http_driven source allow deny = filter (\<lambda>m. tool_is_allowed (msg_tool_name m) allow deny) (driven_messages source)"

text \<open>The outcome, the last world, and the headers of the DELETE when one is sent.\<close>

definition drive_and_terminate ::
  "http_env \<Rightarrow> stored_message list \<Rightarrow> stored_message list \<Rightarrow> nat \<Rightarrow> bool \<Rightarrow> world
     \<Rightarrow> ((string + unit) \<times> world \<times> header_map option) option" where
  "drive_and_terminate env source driven polls delete_answered w =
     (case drive_http env source polls driven w of
        None \<Rightarrow> None
      | Some (r, w1) \<Rightarrow>
          (case hw_session w1 of
             None \<Rightarrow> Some (r, w1, None)
           | Some session_id \<Rightarrow>
               if delete_answered then Some (r, w1, Some (termination_headers env session_id)) else None))"

definition http_replay ::
  "http_env \<Rightarrow> stored_message list \<Rightarrow> string list \<Rightarrow> string list \<Rightarrow> nat \<Rightarrow> bool \<Rightarrow> world
     \<Rightarrow> ((string + unit) \<times> world \<times> header_map option) option" where
  "http_replay env source allow deny polls delete_answered w =
     (if source = [] then Some (Inl ''source session has no recorded messages'', w, None)
      else let driven = http_driven source allow deny
      in if driven = [] then Some (Inl ''source session has no client-originated requests or notifications to replay'', w, None)
         else drive_and_terminate env source driven polls delete_answered w)"

definition MAX_CHARS :: nat where
  "MAX_CHARS = 500"

definition truncate_for_error :: "string \<Rightarrow> string" where
  "truncate_for_error body =
     (if length body > MAX_CHARS then take MAX_CHARS body @ ''... (truncated)'' else body)"

end
