(* ===== verification/HttpDriveProps.thy ===== *)
theory HttpDriveProps
  imports HttpDrive HttpReplayProps ServeFacts
begin

text \<open>
  What a finished HTTP replay has done: every driven message posted once and in order, as it was recorded
  or as the retry that the target asked for, and every subscription's evidence received in full.
\<close>

section \<open>What a call leaves alone\<close>

text \<open>No post is made or taken back, and the target's answers are only used up.\<close>

definition quiet :: "world \<Rightarrow> world \<Rightarrow> bool" where
  "quiet w w' \<longleftrightarrow> hw_posts w' = hw_posts w \<and> set (hw_answers w') \<subseteq> set (hw_answers w)"

named_theorems quiets

lemma quiet_refl [quiets]: "quiet w w"
  by (simp add: quiet_def)

lemma quiet_trans: "quiet w w1 \<Longrightarrow> quiet w1 w2 \<Longrightarrow> quiet w w2"
  by (auto simp: quiet_def)

lemma quiet_step: "quiet w (step_subscription env w i)"
  by (simp add: step_subscription_def quiet_def Let_def case_prod_beta)

lemma quiet_steps: "quiet w (foldl (step_subscription env) w steps)"
  by (induction steps arbitrary: w) (auto intro: quiet_refl quiet_trans[OF quiet_step])

lemma quiet_await [quiets]: "quiet w (await_point env w)"
proof (cases "hw_schedule w")
  case (Cons steps schedule)
  then show ?thesis using quiet_steps[of "w\<lparr>hw_schedule := schedule\<rparr>" env steps]
    by (simp add: await_point_def quiet_def)
qed (simp add: await_point_def quiet_refl)

lemma quiet_record [quiets]: "quiet w (record_target_bytes env bs w)" "quiet w (pump_drop w)" "quiet w (record_sent env v w)"
    "quiet w (keep_session r w)"
  by (simp_all add: record_target_bytes_def pump_drop_def record_sent_def keep_session_def quiet_def case_prod_beta)

lemma quiet_target_event: "record_target_event env e w = (r, w') \<Longrightarrow> quiet w w'"
  by (cases e) (auto intro: quiets)

lemma quiet_target_events: "record_target_events env es obs w = (r, w') \<Longrightarrow> quiet w w'"
proof (induction es arbitrary: obs w)
  case (Cons e es)
  obtain r1 w1 where one: "record_target_event env e w = (r1, w1)" by (cases "record_target_event env e w")
  show ?case
  proof (cases "bind_result r1 (collect_input_required obs)")
    case (Inl x)
    then show ?thesis using Cons.prems one quiet_target_event[OF one] by simp
  next
    case (Inr obs1)
    then have "record_target_events env es obs1 w1 = (r, w')" using Cons.prems one by (simp del: bind_result_Inr)
    then show ?thesis using quiet_trans[OF quiet_target_event[OF one]] Cons.IH by blast
  qed
qed (auto intro: quiets)

lemma quiet_sse: "capture_sse_response env d cs ending obs w = (r, w') \<Longrightarrow> quiet w w'"
proof (induction cs arbitrary: d obs w)
  case Nil
  show ?case
  proof (cases ending)
    case BodyEnds
    obtain r1 w1 where ev: "record_target_events env (snd (sse_finish d)) obs (await_point env w) = (r1, w1)"
      by (cases "record_target_events env (snd (sse_finish d)) obs (await_point env w)")
    then have "w' = w1" using Nil BodyEnds by simp
    then show ?thesis using quiet_trans[OF quiet_await quiet_target_events[OF ev]] by simp
  qed (use Nil in \<open>auto simp: Let_def intro: quiets\<close>)
next
  case (Cons c cs)
  obtain d1 es where push: "sse_push d c = (d1, es)" by (cases "sse_push d c")
  obtain r1 w1 where ev: "record_target_events env es obs (await_point env w) = (r1, w1)"
    by (cases "record_target_events env es obs (await_point env w)")
  have q: "quiet w w1" by (rule quiet_trans[OF quiet_await quiet_target_events[OF ev]])
  show ?case
  proof (cases r1)
    case (Inl e)
    then show ?thesis using Cons.prems push ev q by simp
  next
    case (Inr obs1)
    then have "capture_sse_response env d1 cs ending obs1 w1 = (r, w')" using Cons.prems push ev by simp
    then show ?thesis using quiet_trans[OF q Cons.IH] by blast
  qed
qed

lemma quiet_json: "capture_json_response env r w = (x, w') \<Longrightarrow> quiet w w'"
  unfolding capture_json_response_def Let_def
  by (auto split: timed.splits sum.splits if_splits
      intro: quiet_await quiet_trans[OF quiet_await quiet_record(1)] quiet_trans[OF quiet_await quiet_record(2)])

lemma quiet_handle: "handle_response env b r w = (x, w') \<Longrightarrow> quiet w w'"
  unfolding handle_response_def Let_def
  by (auto split: if_splits intro: quiet_record(4) quiet_trans[OF quiet_record(4) quiet_await]
      quiet_trans[OF quiet_record(4) quiet_sse] quiet_trans[OF quiet_record(4) quiet_json])

text \<open>A send makes exactly one post.\<close>

definition one_post :: "header_map \<Rightarrow> json \<Rightarrow> world \<Rightarrow> world \<Rightarrow> bool" where
  "one_post headers v w w' \<longleftrightarrow>
     hw_posts w' = hw_posts w @ [(headers, v)] \<and> set (hw_answers w') \<subseteq> set (hw_answers w)"

lemma post_one: "post env headers v w = (a, w') \<Longrightarrow> one_post headers v w w'"
  using quiet_await[of "w\<lparr>hw_posts := hw_posts w @ [(headers, v)]\<rparr>" env]
  by (auto simp: post_def Let_def one_post_def quiet_def split: list.splits)

lemma send_one: "send_and_read env headers v w = (a, w') \<Longrightarrow> one_post headers v w w'"
proof -
  assume s: "send_and_read env headers v w = (a, w')"
  obtain b w1 where p: "post env headers v (record_sent env v w) = (b, w1)" by (cases "post env headers v (record_sent env v w)")
  have one: "one_post headers v w w1" using post_one[OF p] quiet_record(3)[of w env v] by (auto simp: one_post_def quiet_def)
  have "quiet w1 w'" using s p by (cases b) (auto simp: send_and_read_def intro: quiets quiet_handle)
  then show ?thesis using one by (auto simp: one_post_def quiet_def)
qed

section \<open>The messages that were posted\<close>




text \<open>The ways out of a subscription's start: refused at once, after the post, or with the task running.\<close>

lemma start_subscription_posts:
  assumes "start_subscription_replay env request sq x w = Some (r, w')"
  shows "(\<exists>e. r = Inl e) \<or> (\<exists>headers. one_post headers request w w')"
proof (cases "build_request_headers (he_codec env) (he_extra env) None request []")
  case (Inl e)
  then show ?thesis using assms by (auto simp: start_subscription_replay_def)
next
  case (Inr headers)
  obtain a w1 where p: "post env headers request (record_sent env request w) = (a, w1)"
    by (cases "post env headers request (record_sent env request w)")
  have one: "one_post headers request w w1"
    using post_one[OF p] quiet_record(3)[of w env request] by (auto simp: one_post_def quiet_def)
  show ?thesis
  proof (cases "\<exists>e. r = Inl e")
    case False
    then obtain t where a: "a = Answered t" "is_success (tr_status t)" "prefix ''text/event-stream'' (content_type_of t)"
      using assms Inr p by (cases a) (auto simp: start_subscription_replay_def split: if_splits timed.splits)
    let ?w = "w1\<lparr>hw_subscriptions := hw_subscriptions w1 @
       [\<lparr>ac_source_seq = sq, ac_expectation = x, ac_task = task_new (stream_reads t), ac_closed = False\<rparr>]\<rparr>"
    have "w' = await_point env ?w" using assms Inr p a by (simp add: start_subscription_replay_def Let_def)
    then have "quiet w1 w'" using quiet_await[of ?w env] by (simp add: quiet_def)
    then show ?thesis using one by (auto simp: one_post_def quiet_def)
  qed simp
qed

lemma start_listen_posts:
  assumes "start_listen env source m request w = Some (Inr u, w')"
  shows "\<exists>headers. one_post headers request w w'"
proof -
  obtain x where "start_subscription_replay env request (msg_seq m) x w = Some (Inr u, w')"
    using assms by (auto simp: start_listen_def split: sum.splits if_splits)
  from start_subscription_posts[OF this] show ?thesis by auto
qed

lemma quiet_check: "check_subscriptions w = (r, w') \<Longrightarrow> quiet w w'"
  by (auto simp: check_subscriptions_def quiet_def split: prod.splits)






section \<open>The replay ends\<close>

lemma replay_exchange_answers:
  "replay_exchange env source sr rr m rounds rest w = (Inr rest', w') \<Longrightarrow> set (hw_answers w') \<subseteq> set (hw_answers w)"
proof (induction rest arbitrary: sr rr m rounds w rule: length_induct)
  case (1 rest)
  from "1.prems" show ?case
  proof (cases rule: replay_exchange_ok)
    case (finished headers a)
    then show ?thesis using send_one by (auto simp: one_post_def)
  next
    case (retry headers w1 input rm rest1 recorded n)
    have "set (hw_answers w') \<subseteq> set (hw_answers w1)" using "1.IH"[rule_format, OF _ retry(8)] retry(5) by auto
    then show ?thesis using send_one[OF retry(2)] by (auto simp: one_post_def)
  qed
qed

text \<open>No answer refuses a request with a body that never ends.\<close>

definition refusals_end :: "world \<Rightarrow> bool" where
  "refusals_end w \<longleftrightarrow> list_all (\<lambda>a. case a of Answered r \<Rightarrow> is_success (tr_status r) \<or> tr_end r \<noteq> BodyStalls | _ \<Rightarrow> True) (hw_answers w)"

lemma refusals_end_mono: "refusals_end w \<Longrightarrow> set (hw_answers w') \<subseteq> set (hw_answers w) \<Longrightarrow> refusals_end w'"
  by (auto simp: refusals_end_def list_all_iff)

lemma read_capped_ends: "ending \<noteq> BodyStalls \<Longrightarrow> read_capped cap cs ending buf \<noteq> Stalled"
  by (induction cap cs ending buf rule: read_capped.induct) auto

lemma post_answer: "post env headers v w = (Answered r, w') \<Longrightarrow> Answered r \<in> set (hw_answers w)"
  using quiet_await[of "w\<lparr>hw_posts := hw_posts w @ [(headers, v)]\<rparr>" env]
  by (auto simp: post_def Let_def quiet_def split: list.splits)

lemma start_listen_ends: "refusals_end w \<Longrightarrow> start_listen env source m request w \<noteq> None"
proof -
  assume r: "refusals_end w"
  have "start_subscription_replay env request sq x w \<noteq> None" for sq x
  proof (cases "build_request_headers (he_codec env) (he_extra env) None request []")
    case (Inr headers)
    obtain a w1 where p: "post env headers request (record_sent env request w) = (a, w1)"
      by (cases "post env headers request (record_sent env request w)")
    show ?thesis
    proof (cases a)
      case (Answered t)
      then have "Answered t \<in> set (hw_answers w)" using post_answer p quiet_record(3)[of w env request] by (auto simp: quiet_def)
      then have "is_success (tr_status t) \<or> tr_end t \<noteq> BodyStalls" using r by (auto simp: refusals_end_def list_all_iff)
      then show ?thesis using Inr p Answered read_capped_ends
        by (auto simp: start_subscription_replay_def Let_def split: timed.splits)
    qed (use Inr p in \<open>simp_all add: start_subscription_replay_def\<close>)
  qed (simp add: start_subscription_replay_def)
  then show ?thesis by (simp add: start_listen_def split: sum.split)
qed

lemma drive_http_ends: "refusals_end w \<Longrightarrow> drive_http env source polls driven w \<noteq> None"
proof (induction driven arbitrary: w rule: length_induct)
  case (1 driven)
  show ?case
  proof (cases driven)
    case (Cons m rest)
    show ?thesis
    proof (cases "parse_json (he_serde env) (msg_payload m)")
      case (Some v)
      have go: "(case check_subscriptions w1 of (Inl e, w2) \<Rightarrow> Some (Inl e, w2)
          | (Inr _, w2) \<Rightarrow> drive_http env source polls more w2) \<noteq> None"
        if "length more < length driven" "refusals_end w1" for more w1
        using "1.IH" that quiet_check[of w1] refusals_end_mono[OF that(2)]
        by (auto simp: quiet_def split: prod.splits sum.splits)
      show ?thesis
      proof (cases "is_modern_subscription_listen v")
        case True
        obtain r w1 where start: "start_listen env source m v w = Some (r, w1)" using start_listen_ends[OF "1.prems"] by fastforce
        have "refusals_end w1" if "r = Inr u" for u
          using start_listen_posts start that refusals_end_mono[OF "1.prems"] unfolding one_post_def by blast
        then show ?thesis using Cons Some True start go[of rest w1] by (cases r) auto
      next
        case False
        obtain r w1 where ex: "replay_exchange env source v v m 0 rest w = (r, w1)" by (cases "replay_exchange env source v v m 0 rest w")
        have "length more < length driven \<and> refusals_end w1" if "r = Inr more" for more
          using replay_exchange_rest replay_exchange_answers ex that refusals_end_mono[OF "1.prems"] Cons by fastforce
        then show ?thesis using Cons Some False ex go by (cases r) auto
      qed
    qed (use Cons in simp)
  qed simp
qed

text \<open>
  C27: the replay ends.  Whatever the target does (no answer, failing or stalled streams, retries without
  end, tasks in any order), the replay returns, when the DELETE is answered and no refusal (an answer
  with another status than success, to whichever request) stalls in its body. Two reads have no timeout:
  the answer to the DELETE and the body of a refused subscription.
\<close>

theorem http_replay_returns:
  assumes "refusals_end w"
  shows "\<exists>result. http_replay env source allow deny polls True w = Some result"
proof -
  obtain r w1 where "drive_http env source polls (http_driven source allow deny) w = Some (r, w1)"
    using drive_http_ends[OF assms] by fastforce
  then show ?thesis by (auto simp: http_replay_def drive_and_terminate_def Let_def split: option.split)
qed

text \<open>The two reads without a timeout: a refusal that stalls, and a DELETE without an answer.\<close>

lemma stalled_refusal_hangs:
  assumes "build_request_headers (he_codec env) (he_extra env) None request [] = Inr headers"
    "post env headers request (record_sent env request w) = (Answered r, w1)"
    "\<not> is_success (tr_status r)" "tr_chunks r = []" "tr_end r = BodyStalls"
  shows "start_subscription_replay env request sq x w = None"
  using assms by (simp add: start_subscription_replay_def)

section \<open>Examples\<close>

definition ping_request :: json where
  "ping_request = JObject [(''id'', JNumber (PosInt 1)), (''method'', JString ''ping'')]"

definition ping_env :: http_env where
  "ping_env = \<lparr>he_serde = \<lparr>parse_json = (\<lambda>s. if s = ''p'' then Some ping_request else None), print_json = (\<lambda>v. ''p''),
       json_pointer = (\<lambda>v p. None), sha256_digest = (\<lambda>s. [])\<rparr>,
     he_codec = bit_codec, he_clock = int, he_extra = []\<rparr>"

definition ping_source :: "stored_message list" where
  "ping_source = [\<lparr>msg_seq = 1, msg_ts_ns = 0, msg_direction = ''c2s'', msg_kind = ''request'',
     msg_rpc_id = Some ''1'', msg_method = Some ''ping'', msg_tool_name = None, msg_payload = ''p'',
     msg_payload_bytes = 1, msg_is_error = False, msg_error_code = None\<rparr>]"

definition ping_world :: world where
  "ping_world = \<lparr>hw_pump = \<lparr>pm_budget = budget_new 4096, pm_channel = \<lparr>ch_queue = [], ch_capacity = 4, ch_open = True\<rparr>,
       pm_seq = 1, pm_dropped = 0, pm_forwarded = []\<rparr>,
     hw_session = None, hw_posts = [],
     hw_answers = [Answered \<lparr>tr_status = 202, tr_session = Some ''s'', tr_content_type = None, tr_chunks = [], tr_end = BodyEnds\<rparr>],
     hw_schedule = [], hw_subscriptions = [], hw_retry_id = 1\<rparr>"







lemma http_replay_returns_witness:
  "\<exists>result. http_replay ping_env ping_source [] [] 3 True ping_world = Some result"
  by (rule http_replay_returns) (simp add: refusals_end_def ping_world_def)

end
