(* ===== verification/Spec2Isabelle.thy ===== *)
theory Spec2Isabelle
  imports Capture DiffProps SchemaProps ServeProps QuotaProps AssertionProps RedactProps TrackerProps
    LintProps MtraceProps MergeProps RegistryProps RecordProps EvalProps ReplayProps WrapProps
    EvidenceProps IntelProps HttpAdmissionProps HttpRelayProps HttpReplayProps HttpSubscriptionProps HttpDriveProps
begin

text \<open>
  \<^bold>\<open>A verification development for mcptracer\<close>, a recorder of Model Context Protocol sessions.

  \<^bold>\<open>The program.\<close>  mcptracer stands between an MCP client and an MCP server.  A recorder forwards the
  bytes of both directions unchanged, and on the side queues every JSON-RPC message for a writer, which
  redacts it and stores it in an SQLite database, numbered by one sequence per session.  Everything else
  reads recorded sessions: correlation into exchanges and statistics, diff and catalog drift, assertions,
  quota simulation, scoring, an offline mock server, replay against a live server, portable artifacts,
  a registry of approved baselines, and evidence manifests for CI.  \<open>setup\<close> rewrites the configuration of a
  client so that its servers run under the recorder, and \<open>undo\<close> takes that back.  The claims are about
  three promises: recording is transparent and a loss is never silent; what is stored or exported holds no
  sensitive value; and what a reader concludes from a session is true of the session.

  \<^bold>\<open>Theories and sources\<close> (paths below \<open>crates/\<close>; a definition keeps the name of its function).

  \<^item> Foundations.  \<open>Prelude\<close>: the machine integers (\<open>nat\<close> and \<open>int\<close> with saturation, checks and wrap-around
    written out), byte strings, results; \<open>OrdMap\<close>: \<open>BTreeMap\<close>, against the interface \<open>ordered_map\<close>;
    \<open>Float64\<close>: \<open>f64\<close>; \<open>Json\<close>: \<open>serde_json::Value\<close> with its accessors.
  \<^item> Capture.  \<open>Protocol\<close> and \<open>Sse\<close>: \<open>mcptracer-protocol/src/lib.rs\<close> (\<open>parse_stdio_frame\<close>,
    \<open>JsonRpcView\<close>, the trait \<open>Transport\<close> as the locale \<open>transport\<close>) and \<open>sse.rs\<close>.  \<open>Session\<close>:
    \<open>mcptracer-model/src/lib.rs\<close> (\<open>correlate\<close>, \<open>compute_stats\<close>, \<open>validate_session\<close>).  Facts in
    \<open>SessionFacts\<close>, \<open>SessionMatch\<close>, \<open>StatsFacts\<close>; properties in \<open>Capture\<close> (C10 to C13, C28).
  \<^item> Diff.  \<open>JsonDiff\<close> (value comparison), \<open>Catalog\<close> (tool catalog, drift), \<open>Diff\<close> (alignment, point of
    divergence, report), \<open>Schema\<close> (explanation of schema changes): \<open>mcptracer-model/src/diff.rs\<close>.
    \<open>DiffFacts\<close>, \<open>DiffProps\<close> (C15, C29, C30), \<open>SchemaFacts\<close>, \<open>SchemaProps\<close>.
  \<^item> Readers of a session, in \<open>mcptracer-model/src\<close>.  \<open>Serve\<close> (\<open>serve.rs\<close>; \<open>ServeFacts\<close>, \<open>ServeProps\<close>: C7,
    C31), \<open>Quota\<close> (\<open>quota.rs\<close>; \<open>QuotaFacts\<close>, \<open>QuotaProps\<close>), \<open>Assertions\<close> (\<open>assertions.rs\<close>;
    \<open>AssertionProps\<close>: C32), \<open>Eval\<close> (\<open>eval.rs\<close>; \<open>EvalProps\<close>: C38), \<open>Plan\<close> (\<open>plan.rs\<close>; \<open>PlanProps\<close>).
  \<^item> Redaction.  \<open>RedactContext\<close> (\<open>mcptracer-redact/src/context.rs\<close>; \<open>TrackerProps\<close>: C34), \<open>Redact\<close>
    (\<open>lib.rs\<close>: policies, key test, both traversals, audit), \<open>RedactFacts\<close>, \<open>RedactMasking\<close>, \<open>RedactAudit\<close>,
    \<open>RedactProps\<close> (C5, C14, C33), \<open>Lint\<close> and \<open>LintProps\<close> (\<open>sensitive_content_lint\<close>).
  \<^item> Storage.  \<open>Store\<close> and \<open>Merge\<close> (\<open>mcptracer-storage/src/lib.rs\<close>: sessions, messages, \<open>merge_sessions\<close>, the
    baseline registry), \<open>Mtrace\<close> (\<open>mtrace.rs\<close> and \<open>import_artifact\<close>), \<open>MtraceFacts\<close>, \<open>MtraceProps\<close> (C6),
    \<open>StoreProps\<close>, \<open>MergeProps\<close> (C16), \<open>RegistryProps\<close> (C35).
  \<^item> The stdio recorder.  \<open>Recorder\<close> and \<open>Writer\<close> (\<open>mcptracer-proxy/src/session_writer.rs\<close>), \<open>Health\<close>
    (\<open>session_health.rs\<close>); \<open>WriterFacts\<close>, \<open>PumpProps\<close> (C18, C19, C37), \<open>RecorderProps\<close> (C4, C36).
    \<open>RecordCommand\<close> (\<open>commands/record.rs\<close>: start, both pumps and the writer interleaved as the step relation \<open>record_step\<close>,
    stop, drain and result), \<open>RecordFacts\<close> (its invariants), \<open>RecordProps\<close> (C1).
  \<^item> The HTTP recorder, \<open>commands/record_http.rs\<close> of \<open>mcptracer-proxy/src\<close>.  \<open>HttpAdmission\<close> (which session an
    exchange belongs to, semaphores, retirement, shutdown), \<open>HttpAdmissionFacts\<close>, \<open>HttpAdmissionProps\<close> (C3, C22,
    C24); \<open>HttpRelay\<close> (bodies, headers, addresses), \<open>HttpRelayProps\<close> (C2, C23).
  \<^item> Replay.  \<open>Replay\<close> (\<open>commands/replay.rs\<close>; \<open>ReplayProps\<close>: C39).  \<open>commands/replay_http.rs\<close> in three parts:
    \<open>HttpReplay\<close> (one request; \<open>HttpReplayProps\<close>: C25, C26), \<open>HttpSubscription\<close> (\<open>subscriptions/listen\<close>;
    \<open>HttpSubscriptionProps\<close>: C9), \<open>HttpDrive\<close> (the driver; \<open>HttpDriveProps\<close>: C8, C27).
  \<^item> Session intelligence.  \<open>Memory\<close> (the derived tables of the store), \<open>Intel\<close> (\<open>mcptracer-intel/src/lib.rs\<close> and the
    rebuild of \<open>commands/index.rs\<close>), \<open>IntelProps\<close> (a rebuild is exact and idempotent: \<open>index_rebuild_exact\<close>).
  \<^item> Tools.  \<open>Files\<close> and \<open>Setup\<close> (\<open>commands/setup.rs\<close>; \<open>SetupProps\<close>: C17; \<open>WrapProps\<close>: C40); \<open>Evidence\<close>
    (\<open>mcptracer-model/src/manifest.rs\<close>, \<open>commands/assertions.rs\<close>, \<open>commands/verify.rs\<close>; \<open>EvidenceProps\<close>: C20,
    C21).

  \<^bold>\<open>How state and operations correspond.\<close>  A struct is a record, an enum a datatype with the source's
  constructors, a method a function from the state to the new state (and a result), \<open>Result\<close> a sum with the
  error left, \<open>Option\<close> an option.  The database is a record of tables, each a list of rows in \<open>rowid\<close> order; a
  method is its SQL statements in order, and a transaction that fails gives the old tables back.  Shared state
  between threads or tasks is a record with an inductive step relation: the record command (\<open>record_step\<close>, one step
  per await of a pump or of the coordination), the queue budget (\<open>budget_step\<close>, one
  step per compare-exchange round), the HTTP registry (\<open>HttpAdmission\<close>, one step per await or lock section, labelled by
  who decides on it), the
  baseline registry (\<open>RegistryProps\<close>), the context tracker (\<open>TrackerProps\<close>).  The single pump of \<open>Recorder\<close> and the writer are
  functions of what they receive and of the outcomes of their system calls.  A body relayed by
  the HTTP recorder is a list of events; the poll of its capture side can fall anywhere between them.  The
  HTTP driver is a function of the answers of the client library and of the schedule that says how
  far each subscription task gets at each await.

  \<^bold>\<open>Interfaces.\<close>  \<open>ordered_map\<close> (what the code relies on of \<open>BTreeMap\<close>), \<open>transport\<close> (both
  transports decode a message the same way), \<open>chunked_decoder\<close> (a decoder that may be fed in any chunks),
  \<open>one_shot\<close> (every match strategy picks an unused entry of the queue), \<open>walk_invariant\<close> (a fact kept by the
  reporting operations is kept by the whole schema walk), \<open>masking\<close>, \<open>shaped_masking\<close> and \<open>exact_masking\<close> (what
  a replacement must satisfy for redaction to be idempotent, to keep the shape and to be audited clean),
  \<open>storage_sink\<close> (what the writer relies on of the store), \<open>server_table\<close> and its extension
  \<open>server_tables\<close> (what the JSON and the TOML rewriting of one server and of all servers share).  Each is interpreted on the definitions translated from the source.

  \<^bold>\<open>What the claims show.\<close>  \<^emph>\<open>Nothing is lost silently:\<close> a record
  command that succeeds stored every line its pumps finished (C1; a pump abandoned inside a line is the
  exception, stated there); a pump forwards complete lines byte for byte and
  records or counts each (C19); a recording that reports success stored every message once and in order (C4)
  and passes the gate (C36); the HTTP recorder gives the same for requests and responses under any interleaving
  (C2, C23), ends once the
  operator has stopped it and the open exchanges have ended (C24), and ends well only without a loss (C3).  \<^emph>\<open>Bounds:\<close> queue budget (C18), decoder (C28),
  HTTP writers and captures (C22), tracker (C34).  \<^emph>\<open>Privacy:\<close> C5, C14, C33.  \<^emph>\<open>Faithful reading:\<close> correlation
  conserves and matches (C10, C11), comparison decides equality up to redaction (C15), drift is found (C29), an
  assertion means what the documents say where the code agrees with them (C32), a mock server serves the recording (C7, C31), evidence vouches for what it
  names (C20, C21).  \<^emph>\<open>Round trips:\<close> frames (C12), artifacts (C6), setup and undo (C17), header values (C25).
  C37 is a weakness that the model exposed: behind one lost record, large messages are dropped until the session
  closes.

  \<^bold>\<open>Bounds and fuel.\<close>  Loops over data are structural or have a \<open>termination\<close> proof (the length of the
  unread input, the size of the value).  Where the source waits for someone else, the model has what arrives as a
  list and is structural in it: the answers of a replay target, the chunks of a body, the rounds of the
  compare-exchange, the reads of a stdio server's output (the expiry of a wait is one of them).  The loop that
  polls the subscriptions until a deadline (\<open>wait_for_subscriptions\<close>) takes the number of polls that fit before
  it.  A subscription task is given one more step than the events it has to read,
  and \<open>run_task_finished\<close> shows that it has then finished.  The schema walk keeps the source's own depth and node
  limits.  That the HTTP driver returns is C27 and that a shutdown ends, under its conditions, is C24; neither is assumed elsewhere.

  \<^bold>\<open>Parameters.\<close>  Code that is not in the repository is an argument of the definitions that use it, with what is
  relied on as a named hypothesis and an instance in the witness: reading and printing JSON (\<open>serde\<close>; for undo, that
  what it reads has the lexical form of JSON, \<open>json_lexical\<close>), gzip,
  SHA-256, TOML, base64, the header and address types of the crates \<open>http\<close> and \<open>url\<close>, the HTTP client and server,
  UUIDs and the clock, and the outcome of every write, database call and system call.

  \<^bold>\<open>Abstractions.\<close>  A string is the list of its UTF-8 bytes; code that works on characters is stated on the
  bytes it sees.  A finite \<open>f64\<close> is the rational it stands for, and every operation rounds to nearest even at
  its place in the source; the exponent is not bounded, so overflow, subnormals and NaN are outside the model.  Texts of errors and
  warnings are abbreviated where nothing depends on them.  Integers are kept at their width: \<open>usize\<close> is 64 bits,
  saturating, checked and wrapping operations are as in the source, and a plain operation is used only where
  the source's could not overflow.

  \<^bold>\<open>Not modelled.\<close>  Argument parsing and the printed output of the commands (text, tables, JUnit, annotations);
  process and listener creation, signals; the remaining queries of the store (listings, full-text search),
  schema migrations and file permissions; the rest of the readers (semantic search,
  graph export, cassette import, OpenTelemetry export, the optimizer, the response
  cache, the route recommendations, the inspector user interface and the benchmark command).  The manifest of the
  development lists each with its reason.
\<close>

end
